(* ===== verification/Js_Prelude.thy ===== *)
theory Js_Prelude
  imports Complex_Main "HOL-Library.AList"
begin

text \<open>
  What the components share: the reading of JavaScript values, the outcome of a loop body,
  the insertion-ordered \<^verbatim>\<open>Map\<close> of the language, and generic lemmas on lists.

  \<^item> A JavaScript number that is finite is a \<^typ>\<open>rat\<close>; a value that
    \<^verbatim>\<open>Number.isFinite\<close> refuses (\<^verbatim>\<open>null\<close>, \<^verbatim>\<open>undefined\<close>, \<^verbatim>\<open>NaN\<close>, an infinity) is
    \<^const>\<open>None\<close> of \<^typ>\<open>rat option\<close>. Rounding to a double is the parameter \<open>fl\<close> of
    the record \<open>arith\<close>, so every theorem holds for any rounding.
  \<^item> \<^verbatim>\<open>bignumber.js\<close> is a third-party package: its \<^verbatim>\<open>plus\<close>, \<^verbatim>\<open>minus\<close>, \<^verbatim>\<open>times\<close> and
    comparisons are exact on decimals, its \<^verbatim>\<open>div\<close> rounds to a number of decimal places that
    its configuration fixes and is therefore the parameter \<open>bnDiv\<close>.
  \<^item> A missing property is \<^const>\<open>None\<close>; \<^verbatim>\<open>x ?? d\<close> is \<open>nullish x d\<close>.
\<close>

named_theorems js_defs \<open>definitions that are unfolded when a concrete input is evaluated\<close>

record arith =
  fl :: "rat \<Rightarrow> rat"
  bnDiv :: "rat \<Rightarrow> rat \<Rightarrow> rat"

text \<open>The exact instance, used by the witnesses: no rounding at all.\<close>

definition exact_arith :: arith where
  "exact_arith = \<lparr>fl = (\<lambda>x. x), bnDiv = (/)\<rparr>"

lemma exact_arith_simps [simp]:
  "fl exact_arith x = x" "bnDiv exact_arith x y = x / y"
  by (simp_all add: exact_arith_def)

text \<open>JavaScript's \<^verbatim>\<open>x ?? d\<close>.\<close>

definition nullish :: "'a option \<Rightarrow> 'a \<Rightarrow> 'a" where
  "nullish x d = (case x of None \<Rightarrow> d | Some y \<Rightarrow> y)"

lemma nullish_simps [simp]: "nullish None d = d" "nullish (Some y) d = y"
  by (simp_all add: nullish_def)

text \<open>Results that may throw: \<open>Inl\<close> is the thrown error.\<close>

fun bind_err :: "'e + 'a \<Rightarrow> ('a \<Rightarrow> 'e + 'b) \<Rightarrow> 'e + 'b" where
  "bind_err (Inl e) f = Inl e"
| "bind_err (Inr x) f = f x"

lemma bind_err_eq_Inr: "bind_err r f = Inr y \<longleftrightarrow> (\<exists>x. r = Inr x \<and> f x = Inr y)"
  by (cases r) auto

text \<open>
  The outcome of one pass of a loop body over a state: fall through or \<^verbatim>\<open>continue\<close>,
  \<^verbatim>\<open>break\<close>, \<^verbatim>\<open>return\<close> from the enclosing function, or \<^verbatim>\<open>throw\<close>.
\<close>

datatype ('e, 's) flow = Go 's | Brk 's | Ret 's | Throw 'e

text \<open>A \<^verbatim>\<open>for\<close> loop over the list of its loop values; \<^verbatim>\<open>break\<close> ends the loop only.\<close>

fun for_loop :: "('i \<Rightarrow> 's \<Rightarrow> ('e, 's) flow) \<Rightarrow> 'i list \<Rightarrow> 's \<Rightarrow> ('e, 's) flow" where
  "for_loop body [] s = Go s"
| "for_loop body (i # is) s =
     (case body i s of
        Go s' \<Rightarrow> for_loop body is s'
      | Brk s' \<Rightarrow> Go s'
      | Ret s' \<Rightarrow> Ret s'
      | Throw e \<Rightarrow> Throw e)"

text \<open>The state an outcome carries, if it carries one.\<close>

fun flow_state :: "('e, 's) flow \<Rightarrow> 's option" where
  "flow_state (Go s) = Some s"
| "flow_state (Brk s) = Some s"
| "flow_state (Ret s) = Some s"
| "flow_state (Throw e) = None"

text \<open>The loop rule: what every pass keeps, the loop keeps.\<close>

lemma for_loop_invariant:
  assumes step: "\<And>i s s'. i \<in> set is \<Longrightarrow> P s \<Longrightarrow> flow_state (body i s) = Some s' \<Longrightarrow> P s'"
    and "P s" and "flow_state (for_loop body is s) = Some s'"
  shows "P s'"
  using assms
proof (induction "is" arbitrary: s)
  case Nil
  then show ?case by simp
next
  case (Cons i "is")
  have step: "\<And>j s s'. j \<in> set is \<Longrightarrow> P s \<Longrightarrow> flow_state (body j s) = Some s' \<Longrightarrow> P s'"
    by (rule Cons.prems(1)) simp_all
  have first: "flow_state (body i s) = Some s1 \<Longrightarrow> P s1" for s1
    by (rule Cons.prems(1)[OF _ Cons.prems(2)]) simp_all
  show ?case
  proof (cases "body i s")
    case (Go s1)
    with first have "P s1" by simp
    moreover from Go Cons.prems(3) have "flow_state (for_loop body is s1) = Some s'" by simp
    ultimately show ?thesis using Cons.IH[of s1] step by blast
  qed (use first Cons.prems(3) in simp_all)
qed

lemma for_loop_throw:
  assumes "for_loop body is s = Throw e"
  shows "\<exists>i\<in>set is. \<exists>s. body i s = Throw e"
  using assms
  by (induction "is" arbitrary: s) (auto split: flow.splits)

text \<open>What relates the states before and after every completed pass relates those of the loop.\<close>

lemma for_loop_rel:
  assumes "for_loop body is s = Go s'"
    and step: "\<And>i s s'. i \<in> set is \<Longrightarrow> body i s = Go s' \<or> body i s = Brk s' \<Longrightarrow> R s s'"
    and refl: "\<And>s. R s s" and trans: "\<And>s1 s2 s3. R s1 s2 \<Longrightarrow> R s2 s3 \<Longrightarrow> R s1 s3"
  shows "R s s'"
  using assms(1) step
proof (induction "is" arbitrary: s)
  case Nil
  then show ?case by (simp add: refl)
next
  case (Cons i "is")
  show ?case
  proof (cases "body i s")
    case (Go s1)
    with Cons.prems(1) have "for_loop body is s1 = Go s'" by simp
    then have "R s1 s'" by (rule Cons.IH) (rule Cons.prems(2), simp_all)
    with Cons.prems(2)[of i s s1] Go show ?thesis by (auto intro: trans)
  qed (use Cons.prems in auto)
qed

lemma for_loop_not_Brk [simp]: "for_loop body is s \<noteq> Brk s'"
  by (induction "is" arbitrary: s) (auto split: flow.splits)

text \<open>What a pass establishes for its own loop value, and later passes keep, holds of all of them.\<close>

lemma for_loop_establishes:
  assumes "for_loop body is s = Go s'" "P s"
    and step: "\<And>i s s'. i \<in> set is \<Longrightarrow> P s \<Longrightarrow> body i s = Go s' \<Longrightarrow> P s' \<and> Q i s'"
    and keep: "\<And>i j s s'. i \<in> set is \<Longrightarrow> P s \<Longrightarrow> Q j s \<Longrightarrow> body i s = Go s' \<Longrightarrow> Q j s'"
    and no_break: "\<And>i s s'. body i s \<noteq> Brk s'"
  shows "P s' \<and> (\<forall>i\<in>set is. Q i s')"
proof -
  have "P s' \<and> (\<forall>j\<in>J. Q j s') \<and> (\<forall>i\<in>set xs. Q i s')"
    if "set xs \<subseteq> set is" "for_loop body xs s = Go s'" "P s" "\<forall>j\<in>J. Q j s" for xs s J
    using that
  proof (induction xs arbitrary: s J)
    case (Cons x xs)
    from Cons.prems no_break[of x s] obtain s1 where s1: "body x s = Go s1"
      "for_loop body xs s1 = Go s'"
      by (auto split: flow.splits)
    have x: "x \<in> set is" using Cons.prems(1) by simp
    have "P s1" "\<forall>j\<in>insert x J. Q j s1"
      using step[OF x Cons.prems(3) s1(1)] keep[OF x Cons.prems(3) _ s1(1)] Cons.prems(4) by auto
    with Cons.IH[of s1 "insert x J"] s1(2) Cons.prems(1) show ?case by auto
  qed auto
  from this[of "is" s "{}"] assms(1,2) show ?thesis by auto
qed

subsection \<open>Insertion-ordered maps\<close>

text \<open>
  A \<^verbatim>\<open>Map\<close> of the language keeps its entries in insertion order; setting a present key
  keeps its place. That is \<^const>\<open>AList.update\<close> on an association list.
\<close>

type_synonym ('k, 'v) jsmap = "('k \<times> 'v) list"

definition map_has :: "('k, 'v) jsmap \<Rightarrow> 'k \<Rightarrow> bool" where
  "map_has m k \<longleftrightarrow> map_of m k \<noteq> None"

definition map_keys :: "('k, 'v) jsmap \<Rightarrow> 'k list" where
  "map_keys m = map fst m"

lemma map_has_iff: "map_has m k \<longleftrightarrow> k \<in> set (map_keys m)"
  by (auto simp: map_has_def map_keys_def map_of_eq_None_iff)

lemma keys_update:
  "map_keys (AList.update k v m) = (if k \<in> set (map_keys m) then map_keys m else map_keys m @ [k])"
  by (induction m) (auto simp: map_keys_def)

lemma distinct_keys_update:
  "distinct (map_keys m) \<Longrightarrow> distinct (map_keys (AList.update k v m))"
  by (simp add: keys_update)

text \<open>
  Several parts of the program keep a \<^verbatim>\<open>Map\<close> from a key to a growing list and add to it with a
  "push" routine of their own. The interface they share: the pushed value ends the key's list,
  other keys keep theirs, a new key goes to the end of the key order.
\<close>

locale bucket_map =
  fixes push :: "'k \<Rightarrow> 'v \<Rightarrow> ('k, 'v list) jsmap \<Rightarrow> ('k, 'v list) jsmap"
  assumes push_same: "map_of (push k v m) k = Some (nullish (map_of m k) [] @ [v])"
    and push_other: "k' \<noteq> k \<Longrightarrow> map_of (push k v m) k' = map_of m k'"
    and push_keys: "map_keys (push k v m) =
      (if k \<in> set (map_keys m) then map_keys m else map_keys m @ [k])"
begin

lemma push_distinct: "distinct (map_keys m) \<Longrightarrow> distinct (map_keys (push k v m))"
  by (simp add: push_keys)

text \<open>Pushing a whole sequence groups it: each key gets its own values, in order.\<close>

lemma push_all_groups:
  "nullish (map_of (foldl (\<lambda>m (k, v). push k v m) m kvs) k) [] =
   nullish (map_of m k) [] @ map snd (filter (\<lambda>(k', v). k' = k) kvs)"
proof (induction kvs arbitrary: m)
  case Nil
  then show ?case by simp
next
  case (Cons kv kvs)
  obtain k' v where kv: "kv = (k', v)" by (cases kv)
  show ?case
    using Cons.IH[of "push k' v m"]
    by (cases "k' = k") (simp_all add: kv push_same push_other)
qed

lemma push_all_distinct:
  "distinct (map_keys m) \<Longrightarrow> distinct (map_keys (foldl (\<lambda>m (k, v). push k v m) m kvs))"
  by (induction kvs arbitrary: m) (auto simp: push_distinct split: prod.splits)

lemma push_all_keys:
  "set (map_keys (foldl (\<lambda>m (k, v). push k v m) m kvs)) = set (map_keys m) \<union> fst ` set kvs"
  by (induction kvs arbitrary: m) (auto simp: push_keys split: prod.splits)

end

subsection \<open>Lists\<close>

lemma sum_list_update_diff:
  fixes f :: "'a \<Rightarrow> 'b::ab_group_add"
  assumes "i < length xs"
  shows "sum_list (map f (xs[i := x])) = sum_list (map f xs) - f (xs ! i) + f x"
  using assms
proof (induction xs arbitrary: i)
  case Nil
  then show ?case by simp
next
  case (Cons y ys)
  then show ?case by (cases i) auto
qed

lemma map_update_same:
  assumes "i < length xs" "f x = f (xs ! i)"
  shows "map f (xs[i := x]) = map f xs"
  using assms by (intro nth_equalityI) (auto simp: nth_list_update)

lemma list_all_update:
  "list_all P xs \<Longrightarrow> P x \<Longrightarrow> list_all P (xs[i := x])"
  by (auto simp: list_all_iff dest!: set_update_subset_insert[THEN subsetD])

text \<open>\<^verbatim>\<open>Array.prototype.find\<close> on two lists.\<close>

lemma find_append: "find P (xs @ ys) = (case find P xs of Some x \<Rightarrow> Some x | None \<Rightarrow> find P ys)"
  by (induction xs) auto

end
