(* ===== verification/Tax_Types.thy ===== *)
theory Tax_Types
  imports Js_Prelude
begin

text \<open>
  The data of the transaction tax report
  (\<^verbatim>\<open>workers/loc.api/sync/transaction.tax.report\<close>): the transaction object that
  \<^verbatim>\<open>remap-trades.js\<close>, \<^verbatim>\<open>remap-movements.js\<close> and \<^verbatim>\<open>look-up-trades.js\<close> build and mutate,
  the options and third-party functions they use, and the small helpers
  \<^verbatim>\<open>is-forex-symb.js\<close>, \<^verbatim>\<open>get-trx-fee-usd.js\<close>, \<^verbatim>\<open>get-trx-tax-type.js\<close> and
  \<^verbatim>\<open>set-delisted-ccy-to-map.js\<close>.
\<close>

subsection \<open>Third-party functions and errors\<close>

text \<open>
  \<open>splitSymbolPairs\<close> and \<open>FOREX_SYMBS\<close> come from the package \<^verbatim>\<open>bfx-report\<close>; they are
  parameters. An absent part of a symbol is the empty string, which is falsy as
  \<^verbatim>\<open>undefined\<close> is.
\<close>

record tax_env = arith +
  splitSymbolPairs :: "string \<Rightarrow> string \<times> string"
  FOREX_SYMBS :: "string list"

datatype tax_error =
    CurrencyPairSeparationError string string string
  | CurrencyConversionError string "rat option"
  | PubTradeFindForTrxTaxError string "int option" "int option" int
  | PubTradePriceFindForTrxTaxError

definition isForexSymb :: "tax_env \<Rightarrow> string \<Rightarrow> bool" where
  "isForexSymb env currSymb \<longleftrightarrow> (\<exists>symb\<in>set (FOREX_SYMBS env). symb = currSymb)"

subsection \<open>The transaction object\<close>

text \<open>
  \<open>oid\<close> is the identity of the JavaScript object: arrays hold references, and two arrays
  that hold the same object see each other's writes. The lists \<open>buyTrxsForRealizedProfit\<close>
  and \<open>saleTrxsForRealizedProfit\<close> hold references too; a reference is kept with the
  \<^verbatim>\<open>mtsCreate\<close> of its object, which is never assigned after the object is built.
  A property that the code reads through \<^verbatim>\<open>??\<close> or tests with \<^verbatim>\<open>instanceof BigNumber\<close> is an
  option; \<open>None\<close> is \<^verbatim>\<open>undefined\<close>.
\<close>

record trx =
  oid :: nat
  rowId :: int
  symbol :: string
  mtsCreate :: int
  firstSymb :: string
  lastSymb :: string
  execAmount :: "rat option"
  execPrice :: "rat option"
  firstSymbPriceUsd :: "rat option"
  lastSymbPriceUsd :: "rat option"
  exactUsdValue :: "rat option"
  trxFee :: "rat option"
  trxFeeCcy :: "string option"
  isTaxablePayment :: bool
  isAirdropOnWallet :: bool
  isMarginFundingPayment :: bool
  isAffiliateRebate :: bool
  isStakingPayments :: bool
  isMovements :: bool
  isLedgers :: bool
  isTrades :: bool
  isAdditionalTrxMovements :: "bool option"
  isSaleTrx :: "bool option"
  isSaleTrxHistFilled :: "bool option"
  saleFilledAmount :: "rat option"
  costForSaleTrxUsd :: "rat option"
  buyTrxsForRealizedProfit :: "(nat \<times> int) list option"
  isBuyTrx :: "bool option"
  isBuyTrxHistFilled :: "bool option"
  buyFilledAmount :: "rat option"
  proceedsForBuyTrxUsd :: "rat option"
  cumulativeTrxFeesUsd :: "rat option"
  saleTrxsForRealizedProfit :: "(nat \<times> int) list option"
  noPriceUsd :: bool
  isBuyTradesWithUnrealizedProfitForPrevPeriod :: bool
  saleAsset :: string
  saleAmount :: "rat option"
  mtsAcquiredForSaleTrx :: "int option"
  mtsSoldForSaleTrx :: "int option"
  proceedsForSaleTrxUsd :: "rat option"
  gainOrLossUsd :: "rat option"
  buyAsset :: string
  buyAmount :: "rat option"
  mtsAcquiredForBuyTrx :: "int option"
  mtsSoldForBuyTrx :: "int option"
  costForBuyTrxUsd :: "rat option"
  gainOrLossForBuyTrxUsd :: "rat option"

text \<open>An object none of whose properties is set yet.\<close>

definition blank_trx :: trx where
  "blank_trx = \<lparr>oid = 0, rowId = 0, symbol = '''', mtsCreate = 0, firstSymb = '''', lastSymb = '''',
     execAmount = None, execPrice = None, firstSymbPriceUsd = None, lastSymbPriceUsd = None,
     exactUsdValue = None, trxFee = None, trxFeeCcy = None, isTaxablePayment = False,
     isAirdropOnWallet = False, isMarginFundingPayment = False, isAffiliateRebate = False,
     isStakingPayments = False, isMovements = False, isLedgers = False, isTrades = False,
     isAdditionalTrxMovements = None, isSaleTrx = None, isSaleTrxHistFilled = None,
     saleFilledAmount = None, costForSaleTrxUsd = None, buyTrxsForRealizedProfit = None,
     isBuyTrx = None, isBuyTrxHistFilled = None, buyFilledAmount = None,
     proceedsForBuyTrxUsd = None, cumulativeTrxFeesUsd = None, saleTrxsForRealizedProfit = None,
     noPriceUsd = False, isBuyTradesWithUnrealizedProfitForPrevPeriod = False, saleAsset = '''',
     saleAmount = None, mtsAcquiredForSaleTrx = None, mtsSoldForSaleTrx = None,
     proceedsForSaleTrxUsd = None, gainOrLossUsd = None, buyAsset = '''', buyAmount = None,
     mtsAcquiredForBuyTrx = None, mtsSoldForBuyTrx = None, costForBuyTrxUsd = None,
     gainOrLossForBuyTrxUsd = None\<rparr>"

definition ref_of :: "trx \<Rightarrow> nat \<times> int" where
  "ref_of t = (oid t, mtsCreate t)"

record lookup_opts =
  isBackIterativeSaleLookUp :: bool
  isBackIterativeBuyLookUp :: bool
  isBuyTradesWithUnrealizedProfitRequired :: bool
  isNotGainOrLossRequired :: bool
  shouldFeesBeDeducted :: bool
  shouldTaxablePaymentFlagBeSkipped :: "bool option"

subsection \<open>Fees and tax types\<close>

definition getTrxFeeUsd :: "trx \<Rightarrow> lookup_opts \<Rightarrow> rat" where
  "getTrxFeeUsd t opts =
     (if isNotGainOrLossRequired opts
         \<or> \<not> shouldFeesBeDeducted opts
         \<or> (\<not> nullish (shouldTaxablePaymentFlagBeSkipped opts) False \<and> isTaxablePayment t)
      then 0
      else (case trxFee t of
        None \<Rightarrow> 0
      | Some fee \<Rightarrow>
          (if trxFeeCcy t = Some (firstSymb t) \<and> firstSymbPriceUsd t \<noteq> None
           then fee * nullish (firstSymbPriceUsd t) 0
           else if trxFeeCcy t = Some (lastSymb t) \<and> lastSymbPriceUsd t \<noteq> None
           then fee * nullish (lastSymbPriceUsd t) 0
           else 0)))"

lemma getTrxFeeUsd_not_required [simp]:
  "isNotGainOrLossRequired opts \<Longrightarrow> getTrxFeeUsd t opts = 0"
  "\<not> shouldFeesBeDeducted opts \<Longrightarrow> getTrxFeeUsd t opts = 0"
  by (simp_all add: getTrxFeeUsd_def)

datatype trx_tax_type =
  AIRDROP_ON_WALLET | MARGIN_FUNDING_PAYMENT | AFFILIATE_REBATE | STAKING_PAYMENT | EXCHANGE

definition getTrxTaxType :: "trx \<Rightarrow> trx_tax_type" where
  "getTrxTaxType t =
     (if isAirdropOnWallet t then AIRDROP_ON_WALLET
      else if isMarginFundingPayment t then MARGIN_FUNDING_PAYMENT
      else if isAffiliateRebate t then AFFILIATE_REBATE
      else if isStakingPayments t then STAKING_PAYMENT
      else EXCHANGE)"

subsection \<open>The map of currencies that have no price\<close>

type_synonym delisted_map = "(string, tax_error list) jsmap"

definition setDelistedCcyToMap :: "string \<Rightarrow> tax_error \<Rightarrow> delisted_map \<Rightarrow> delisted_map" where
  "setDelistedCcyToMap symb err m =
     (if map_has m symb
      then AList.update symb (nullish (map_of m symb) [] @ [err]) m
      else AList.update symb [err] m)"

interpretation delisted: bucket_map setDelistedCcyToMap
proof
  show "map_of (setDelistedCcyToMap k v m) k = Some (nullish (map_of m k) [] @ [v])" for k v m
    by (auto simp: setDelistedCcyToMap_def map_has_def update_conv' split: option.splits)
  show "k' \<noteq> k \<Longrightarrow> map_of (setDelistedCcyToMap k v m) k' = map_of m k'" for k k' v m
    by (simp add: setDelistedCcyToMap_def update_conv')
  show "map_keys (setDelistedCcyToMap k v m) =
      (if k \<in> set (map_keys m) then map_keys m else map_keys m @ [k])" for k v m
    by (simp add: setDelistedCcyToMap_def keys_update)
qed

end
