(* ===== verification/Tax_LookUp.thy ===== *)
theory Tax_LookUp
  imports Tax_Types
begin

text \<open>
  \<^verbatim>\<open>helpers/look-up-trades.js\<close>: for each sale, in the chosen direction, walk the lots that can
  have acquired the sold asset, fill the sale from them, and book cost, proceeds and fees on
  both sides; then collect the rows of the report and the lots that are still open.

  The array of trades is the list \<open>trades\<close> of the state, updated by index: the outer loop's
  trade and the inner loop's lot are always at different indices. \<open>intr k\<close> is the answer of the
  \<open>k\<close>-th call of \<^verbatim>\<open>interrupter.hasInterrupted()\<close>; \<open>polls\<close> counts the calls. The pauses for the
  event loop have no effect on the result and are left out, as is the debug log.
\<close>

record lookup_state =
  trades :: "trx list"
  delistedCcyMap :: delisted_map
  polls :: nat

definition put_trade :: "nat \<Rightarrow> trx \<Rightarrow> lookup_state \<Rightarrow> lookup_state" where
  "put_trade i t s = s\<lparr>trades := (trades s)[i := t]\<rparr>"

subsection \<open>Reading one trade\<close>

text \<open>The defaults of lines 73 to 94, and of the lot in lines 231 to 239.\<close>

definition init_trade :: "trx \<Rightarrow> trx" where
  "init_trade t = t\<lparr>
     isAdditionalTrxMovements := Some (nullish (isAdditionalTrxMovements t) False),
     isSaleTrx := Some (nullish (isSaleTrx t) False),
     isSaleTrxHistFilled := Some (nullish (isSaleTrxHistFilled t) False),
     saleFilledAmount := Some (nullish (saleFilledAmount t) 0),
     costForSaleTrxUsd := Some (nullish (costForSaleTrxUsd t) 0),
     buyTrxsForRealizedProfit := Some (nullish (buyTrxsForRealizedProfit t) []),
     isBuyTrx := Some (nullish (isBuyTrx t) False),
     isBuyTrxHistFilled := Some (nullish (isBuyTrxHistFilled t) False),
     buyFilledAmount := Some (nullish (buyFilledAmount t) 0),
     proceedsForBuyTrxUsd := Some (nullish (proceedsForBuyTrxUsd t) 0),
     cumulativeTrxFeesUsd := Some (nullish (cumulativeTrxFeesUsd t) 0),
     saleTrxsForRealizedProfit := Some (nullish (saleTrxsForRealizedProfit t) [])\<rparr>"

definition init_lot :: "trx \<Rightarrow> trx" where
  "init_lot t = t\<lparr>
     isBuyTrx := Some (nullish (isBuyTrx t) False),
     isBuyTrxHistFilled := Some (nullish (isBuyTrxHistFilled t) False),
     buyFilledAmount := Some (nullish (buyFilledAmount t) 0),
     proceedsForBuyTrxUsd := Some (nullish (proceedsForBuyTrxUsd t) 0),
     saleTrxsForRealizedProfit := Some (nullish (saleTrxsForRealizedProfit t) [])\<rparr>"

definition trade_unusable :: "lookup_opts \<Rightarrow> trx \<Rightarrow> bool" where
  "trade_unusable opts t \<longleftrightarrow>
     symbol t = '''' \<or> execPrice t = None
     \<or> (\<not> isBuyTradesWithUnrealizedProfitRequired opts \<and> execPrice t = Some 0)
     \<or> execAmount t = None \<or> execAmount t = Some 0"

definition amt :: "trx \<Rightarrow> rat" where
  "amt t = nullish (execAmount t) 0"

definition prc :: "trx \<Rightarrow> rat" where
  "prc t = nullish (execPrice t) 0"

definition symb_pair :: "tax_env \<Rightarrow> trx \<Rightarrow> string \<times> string" where
  "symb_pair env t =
     (if firstSymb t \<noteq> '''' \<and> lastSymb t \<noteq> '''' then (firstSymb t, lastSymb t)
      else splitSymbolPairs env (symbol t))"

definition set_pair :: "tax_env \<Rightarrow> trx \<Rightarrow> trx" where
  "set_pair env t = t\<lparr>firstSymb := fst (symb_pair env t), lastSymb := snd (symb_pair env t)\<rparr>"

definition classify_trade :: "tax_env \<Rightarrow> trx \<Rightarrow> trx" where
  "classify_trade env t =
     (let isLastSymbForex = isForexSymb env (lastSymb t);
          isDistinctSale = amt t < 0;
          isSaleBetweenCrypto = (0 < amt t \<and> \<not> isLastSymbForex)
      in t\<lparr>isSaleTrx := Some (isDistinctSale \<or> isSaleBetweenCrypto),
           isBuyTrx := Some ((0 < amt t \<or> \<not> isLastSymbForex)
             \<and> (\<not> isTaxablePayment t \<or> \<not> isForexSymb env (firstSymb t)))\<rparr>)"

definition sale_amount_of :: "trx \<Rightarrow> rat" where
  "sale_amount_of t = (if amt t < 0 then \<bar>amt t\<bar> else \<bar>amt t * prc t\<bar>)"

definition sale_price_of :: "lookup_opts \<Rightarrow> trx \<Rightarrow> rat option" where
  "sale_price_of opts t =
     (if isNotGainOrLossRequired opts then Some 0
      else if amt t < 0 then firstSymbPriceUsd t else lastSymbPriceUsd t)"

definition sale_asset_of :: "trx \<Rightarrow> string" where
  "sale_asset_of t = (if amt t < 0 then firstSymb t else lastSymb t)"

definition buy_amount_of :: "trx \<Rightarrow> rat" where
  "buy_amount_of t = (if 0 < amt t then \<bar>amt t\<bar> else \<bar>amt t * prc t\<bar>)"

definition buy_price_of :: "lookup_opts \<Rightarrow> trx \<Rightarrow> rat option" where
  "buy_price_of opts t =
     (if isNotGainOrLossRequired opts then Some 0
      else if 0 < amt t then firstSymbPriceUsd t else lastSymbPriceUsd t)"

definition buy_asset_of :: "trx \<Rightarrow> string" where
  "buy_asset_of t = (if 0 < amt t then firstSymb t else lastSymb t)"

text \<open>Amounts booked so far, and what is left on each side.\<close>

definition sale_filled :: "trx \<Rightarrow> rat" where
  "sale_filled t = nullish (saleFilledAmount t) 0"

definition buy_filled :: "trx \<Rightarrow> rat" where
  "buy_filled t = nullish (buyFilledAmount t) 0"

definition sale_rest :: "trx \<Rightarrow> rat" where
  "sale_rest t = sale_amount_of t - sale_filled t"

definition buy_rest :: "trx \<Rightarrow> rat" where
  "buy_rest t = buy_amount_of t - buy_filled t"

definition sale_hist_filled :: "trx \<Rightarrow> bool" where
  "sale_hist_filled t = nullish (isSaleTrxHistFilled t) False"

definition buy_hist_filled :: "trx \<Rightarrow> bool" where
  "buy_hist_filled t = nullish (isBuyTrxHistFilled t) False"

subsection \<open>Filling a sale from one lot\<close>

text \<open>Lines 316 to 357: the three mutually exclusive cases.\<close>

definition fill_from_lot ::
  "tax_env \<Rightarrow> lookup_opts \<Rightarrow> rat \<Rightarrow> rat \<Rightarrow> rat \<Rightarrow> rat \<Rightarrow> trx \<Rightarrow> trx \<Rightarrow> trx \<times> trx" where
  "fill_from_lot env opts saleAmt salePrice buyAmt buyPrice t l =
     (let buyRest = buyAmt - buy_filled l;
          saleRest = saleAmt - sale_filled t;
          proceeds = nullish (proceedsForBuyTrxUsd l) 0;
          cost = nullish (costForSaleTrxUsd t) 0;
          fees = nullish (cumulativeTrxFeesUsd t) 0;
          lotFee = getTrxFeeUsd l opts
      in if buyRest < saleRest then
           (t\<lparr>saleFilledAmount := Some (sale_filled t + buyRest),
              costForSaleTrxUsd := Some (cost + buyRest * buyPrice),
              cumulativeTrxFeesUsd := Some (fees + lotFee)\<rparr>,
            l\<lparr>buyFilledAmount := Some buyAmt,
              proceedsForBuyTrxUsd := Some (proceeds + buyRest * salePrice),
              isBuyTrxHistFilled := Some True\<rparr>)
         else if saleRest < buyRest then
           (t\<lparr>saleFilledAmount := Some saleAmt,
              costForSaleTrxUsd := Some (cost + saleRest * buyPrice),
              cumulativeTrxFeesUsd := Some (fees + lotFee * bnDiv env saleRest buyRest),
              isSaleTrxHistFilled := Some True\<rparr>,
            l\<lparr>buyFilledAmount := Some (buy_filled l + saleRest),
              proceedsForBuyTrxUsd := Some (proceeds + saleRest * salePrice)\<rparr>)
         else
           (t\<lparr>saleFilledAmount := Some saleAmt,
              costForSaleTrxUsd := Some (cost + buyRest * buyPrice),
              cumulativeTrxFeesUsd := Some (fees + lotFee),
              isSaleTrxHistFilled := Some True\<rparr>,
            l\<lparr>buyFilledAmount := Some buyAmt,
              proceedsForBuyTrxUsd := Some (proceeds + buyRest * salePrice),
              isBuyTrxHistFilled := Some True\<rparr>))"

text \<open>Lines 359 to 368.\<close>

definition close_lot :: "trx \<Rightarrow> string \<Rightarrow> rat \<Rightarrow> rat \<Rightarrow> trx \<Rightarrow> trx" where
  "close_lot t asset' buyAmt buyPrice l =
     (if buy_hist_filled l
      then l\<lparr>buyAsset := asset', buyAmount := Some buyAmt,
             mtsAcquiredForBuyTrx := Some (mtsCreate l),
             mtsSoldForBuyTrx := Some (mtsCreate t),
             costForBuyTrxUsd := Some (buyAmt * buyPrice),
             gainOrLossForBuyTrxUsd :=
               Some (nullish (proceedsForBuyTrxUsd l) 0 - buyAmt * buyPrice)\<rparr>
      else l)"

subsection \<open>The inner loop: walk the lots\<close>

definition lot_unusable :: "lookup_opts \<Rightarrow> trx \<Rightarrow> bool" where
  "lot_unusable opts l \<longleftrightarrow>
     buy_hist_filled l \<or> symbol l = '''' \<or> execAmount l = None \<or> execAmount l = Some 0
     \<or> execPrice l = None
     \<or> (\<not> isBuyTradesWithUnrealizedProfitRequired opts \<and> execPrice l = Some 0)"

definition lot_no_acquisition :: "tax_env \<Rightarrow> trx \<Rightarrow> bool" where
  "lot_no_acquisition env l \<longleftrightarrow>
     (amt l < 0 \<and> isForexSymb env (lastSymb l))
     \<or> (isTaxablePayment l \<and> isForexSymb env (firstSymb l))"

definition link_refs :: "trx \<Rightarrow> trx \<Rightarrow> trx \<times> trx" where
  "link_refs t l =
     (t\<lparr>buyTrxsForRealizedProfit := Some (nullish (buyTrxsForRealizedProfit t) [] @ [ref_of l])\<rparr>,
      l\<lparr>saleTrxsForRealizedProfit := Some (nullish (saleTrxsForRealizedProfit l) [] @ [ref_of t])\<rparr>)"

definition lot_step ::
  "tax_env \<Rightarrow> lookup_opts \<Rightarrow> (nat \<Rightarrow> bool) \<Rightarrow> nat \<Rightarrow> rat \<Rightarrow> rat \<Rightarrow> string \<Rightarrow> nat \<Rightarrow> lookup_state
     \<Rightarrow> (tax_error, lookup_state) flow" where
  "lot_step env opts intr i saleAmt salePrice saleAsst j s0 =
     (let s = s0\<lparr>polls := Suc (polls s0)\<rparr>; t = trades s ! i; l0 = trades s ! j in
      if intr (polls s0) then Ret s
      else if sale_hist_filled t then Brk s
      else if lot_unusable opts l0 then Go s
      else
        let l = set_pair env (init_lot l0); s1 = put_trade j l s in
        if firstSymb l = '''' \<or> lastSymb l = ''''
        then Throw (CurrencyPairSeparationError (symbol l) (firstSymb l) (lastSymb l))
        else if lot_no_acquisition env l then Go s1
        else
          let l1 = l\<lparr>isBuyTrx := Some True\<rparr>; buyAsst = buy_asset_of l1; buyAmt = buy_amount_of l1
          in if saleAsst \<noteq> buyAsst then Go (put_trade j l1 s1)
          else
            let (t2, l2) = link_refs t l1 in
            (case buy_price_of opts l2 of
               None \<Rightarrow>
                 Go ((put_trade j l2 (put_trade i (t2\<lparr>noPriceUsd := True\<rparr>) s1))
                   \<lparr>delistedCcyMap :=
                      setDelistedCcyToMap buyAsst (CurrencyConversionError buyAsst None)
                        (delistedCcyMap s1)\<rparr>)
             | Some buyPrice \<Rightarrow>
                 let (t3, l3) = fill_from_lot env opts saleAmt salePrice buyAmt buyPrice t2 l2
                 in Go (put_trade j (close_lot t3 buyAsst buyAmt buyPrice l3)
                      (put_trade i t3 s1))))"

text \<open>
  The indices the inner loop visits, in order: backwards from the end down to \<open>i + 1\<close>, or
  forwards from \<open>i + 1\<close>.
\<close>

definition lot_indices :: "lookup_opts \<Rightarrow> nat \<Rightarrow> nat \<Rightarrow> nat list" where
  "lot_indices opts n i =
     (if isBackIterativeBuyLookUp opts then rev [Suc i..<n] else [Suc i..<n])"

subsection \<open>The outer loop: walk the sales\<close>

text \<open>Lines 371 to 383.\<close>

definition mts_acquired :: "(nat \<times> int) list \<Rightarrow> int option" where
  "mts_acquired refs =
     (case refs of [] \<Rightarrow> None
      | r # _ \<Rightarrow> (if snd r > snd (last refs) then Some (snd (last refs)) else Some (snd r)))"

definition finish_sale :: "rat \<Rightarrow> rat \<Rightarrow> string \<Rightarrow> trx \<Rightarrow> trx" where
  "finish_sale saleAmt salePrice saleAsst t = t\<lparr>
     saleAsset := saleAsst,
     saleAmount := Some saleAmt,
     mtsAcquiredForSaleTrx := mts_acquired (nullish (buyTrxsForRealizedProfit t) []),
     mtsSoldForSaleTrx := Some (mtsCreate t),
     proceedsForSaleTrxUsd := Some (saleAmt * salePrice),
     gainOrLossUsd := Some (saleAmt * salePrice - nullish (costForSaleTrxUsd t) 0
       + nullish (cumulativeTrxFeesUsd t) 0)\<rparr>"

definition sale_step ::
  "tax_env \<Rightarrow> lookup_opts \<Rightarrow> (nat \<Rightarrow> bool) \<Rightarrow> nat \<Rightarrow> lookup_state
     \<Rightarrow> (tax_error, lookup_state) flow" where
  "sale_step env opts intr i s0 =
     (let s = s0\<lparr>polls := Suc (polls s0)\<rparr>; t = init_trade (trades s ! i) in
      if intr (polls s0) then Ret s
      else if trade_unusable opts t then Go (put_trade i t s)
      else
        let t1 = classify_trade env (set_pair env t); s1 = put_trade i t1 s in
        if \<not> nullish (isSaleTrx t1) False \<or> isBuyTradesWithUnrealizedProfitForPrevPeriod t1
        then Go s1
        else if firstSymb t1 = '''' \<or> lastSymb t1 = ''''
        then Throw (CurrencyPairSeparationError (symbol t1) (firstSymb t1) (lastSymb t1))
        else
          let saleAmt = sale_amount_of t1; saleAsst = sale_asset_of t1 in
          (case sale_price_of opts t1 of
             None \<Rightarrow>
               Go ((put_trade i (t1\<lparr>noPriceUsd := True\<rparr>) s1)
                 \<lparr>delistedCcyMap :=
                    setDelistedCcyToMap saleAsst (CurrencyConversionError saleAsst None)
                      (delistedCcyMap s1)\<rparr>)
           | Some salePrice \<Rightarrow>
               let s2 = put_trade i (t1\<lparr>cumulativeTrxFeesUsd := Some (getTrxFeeUsd t1 opts)\<rparr>) s1
               in case for_loop (lot_step env opts intr i saleAmt salePrice saleAsst)
                         (lot_indices opts (length (trades s2)) i) s2 of
                    Go s3 \<Rightarrow>
                      Go (put_trade i (finish_sale saleAmt salePrice saleAsst (trades s3 ! i)) s3)
                  | Brk s3 \<Rightarrow> Brk s3
                  | Ret s3 \<Rightarrow> Ret s3
                  | Throw e \<Rightarrow> Throw e))"

definition sale_indices :: "lookup_opts \<Rightarrow> nat \<Rightarrow> nat list" where
  "sale_indices opts n = (if isBackIterativeSaleLookUp opts then rev [0..<n] else [0..<n])"

subsection \<open>Collecting the result\<close>

record tax_row =
  asset :: string
  amount :: "rat option"
  mtsAcquired :: "int option"
  mtsSold :: "int option"
  proceeds :: "rat option"
  cost :: "rat option"
  gainOrLoss :: "rat option"
  trxType :: trx_tax_type

definition num_or_zero :: "tax_env \<Rightarrow> rat option \<Rightarrow> rat option" where
  "num_or_zero env x = Some (case x of None \<Rightarrow> 0 | Some y \<Rightarrow> fl env y)"

text \<open>Lines 412 to 433; a price that is not a number makes the proceeds not a number.\<close>

definition taxable_row :: "tax_env \<Rightarrow> lookup_opts \<Rightarrow> trx \<Rightarrow> tax_row" where
  "taxable_row env opts t =
     (let opts' = opts\<lparr>shouldTaxablePaymentFlagBeSkipped :=
            Some (nullish (shouldTaxablePaymentFlagBeSkipped opts) True)\<rparr>;
          p = (case (execAmount t, firstSymbPriceUsd t) of
                 (Some a, Some u) \<Rightarrow> Some (fl env (a * u + getTrxFeeUsd t opts'))
               | _ \<Rightarrow> None)
      in \<lparr>asset = firstSymb t, amount = execAmount t, mtsAcquired = Some (mtsCreate t),
          mtsSold = None, proceeds = p, cost = None, gainOrLoss = p, trxType = getTrxTaxType t\<rparr>)"

definition sale_row :: "tax_env \<Rightarrow> trx \<Rightarrow> tax_row" where
  "sale_row env t =
     \<lparr>asset = saleAsset t, amount = num_or_zero env (saleAmount t),
      mtsAcquired = mtsAcquiredForSaleTrx t, mtsSold = mtsSoldForSaleTrx t,
      proceeds = num_or_zero env (proceedsForSaleTrxUsd t),
      cost = num_or_zero env (costForSaleTrxUsd t),
      gainOrLoss = num_or_zero env (gainOrLossUsd t), trxType = getTrxTaxType t\<rparr>"

definition is_open_lot :: "lookup_opts \<Rightarrow> trx \<Rightarrow> bool" where
  "is_open_lot opts t \<longleftrightarrow>
     \<not> noPriceUsd t \<and> isBuyTradesWithUnrealizedProfitRequired opts
     \<and> nullish (isBuyTrx t) False \<and> \<not> buy_hist_filled t"

definition mark_open_lot :: "lookup_opts \<Rightarrow> trx \<Rightarrow> trx" where
  "mark_open_lot opts t =
     (if is_open_lot opts t
      then t\<lparr>isBuyTradesWithUnrealizedProfitForPrevPeriod := True\<rparr> else t)"

definition row_of :: "tax_env \<Rightarrow> lookup_opts \<Rightarrow> trx \<Rightarrow> tax_row option" where
  "row_of env opts t =
     (if noPriceUsd t then None
      else if isBuyTradesWithUnrealizedProfitRequired opts
         \<or> isBuyTradesWithUnrealizedProfitForPrevPeriod t
         \<or> (\<not> isTaxablePayment t
            \<and> (\<not> nullish (isSaleTrx t) False \<or> nullish (isAdditionalTrxMovements t) False))
      then None
      else if isTaxablePayment t then Some (taxable_row env opts t)
      else Some (sale_row env t))"

record lookup_result =
  saleTradesWithRealizedProfit :: "tax_row list"
  buyTradesWithUnrealizedProfit :: "trx list"

definition no_result :: lookup_result where
  "no_result = \<lparr>saleTradesWithRealizedProfit = [], buyTradesWithUnrealizedProfit = []\<rparr>"

definition collect_result ::
  "tax_env \<Rightarrow> lookup_opts \<Rightarrow> lookup_state \<Rightarrow> lookup_result \<times> lookup_state" where
  "collect_result env opts s =
     (let ts = map (mark_open_lot opts) (trades s)
      in (\<lparr>saleTradesWithRealizedProfit = List.map_filter (row_of env opts) ts,
           buyTradesWithUnrealizedProfit =
             map (mark_open_lot opts) (filter (is_open_lot opts) (trades s))\<rparr>,
          s\<lparr>trades := ts\<rparr>))"

definition lookUpTrades ::
  "tax_env \<Rightarrow> lookup_opts \<Rightarrow> (nat \<Rightarrow> bool) \<Rightarrow> lookup_state
     \<Rightarrow> tax_error + lookup_result \<times> lookup_state" where
  "lookUpTrades env opts intr s =
     (if trades s = [] then Inr (no_result, s)
      else case for_loop (sale_step env opts intr) (sale_indices opts (length (trades s))) s of
             Go s' \<Rightarrow> Inr (collect_result env opts s')
           | Brk s' \<Rightarrow> Inr (no_result, s')
           | Ret s' \<Rightarrow> Inr (no_result, s')
           | Throw e \<Rightarrow> Inl e)"

end
