(* ===== verification/Tax_Samples.thy ===== *)
theory Tax_Samples
  imports Tax_LookUp
begin

text \<open>
  Small concrete inputs of the tax report, on which the general theorems are applied: a sale of
  1 BTC at 100 USD matched with an older lot of 2 BTC at 50 USD, and one lot of 10 BTC that two
  sales of 5 BTC share and that carries a fee of 2 USD.
\<close>

definition sample_env :: tax_env where
  "sample_env = \<lparr>fl = (\<lambda>x. x), bnDiv = (/),
     splitSymbolPairs = (\<lambda>s. (take 3 (drop 1 s), drop 4 s)), FOREX_SYMBS = [''USD'', ''EUR'']\<rparr>"

definition sample_trade :: "nat \<Rightarrow> int \<Rightarrow> rat \<Rightarrow> rat \<Rightarrow> rat \<Rightarrow> trx" where
  "sample_trade i mts a p fee = blank_trx\<lparr>oid := i, symbol := ''tBTCUSD'', mtsCreate := mts,
     execAmount := Some a, execPrice := Some p, firstSymbPriceUsd := Some p,
     lastSymbPriceUsd := Some 1, trxFee := Some fee, trxFeeCcy := Some ''USD'', isTrades := True\<rparr>"

definition sample_opts :: lookup_opts where
  "sample_opts = \<lparr>isBackIterativeSaleLookUp = False, isBackIterativeBuyLookUp = False,
     isBuyTradesWithUnrealizedProfitRequired = False, isNotGainOrLossRequired = False,
     shouldFeesBeDeducted = False, shouldTaxablePaymentFlagBeSkipped = None\<rparr>"

definition sample_state :: lookup_state where
  "sample_state = \<lparr>trades = [sample_trade 1 20 (-1) 100 0, sample_trade 2 10 2 50 0],
     delistedCcyMap = [], polls = 0\<rparr>"

definition sample_row :: tax_row where
  "sample_row = \<lparr>asset = ''BTC'', amount = Some 1, mtsAcquired = Some 10, mtsSold = Some 20,
     proceeds = Some 100, cost = Some 50, gainOrLoss = Some 50, trxType = EXCHANGE\<rparr>"

definition fee_state :: lookup_state where
  "fee_state = \<lparr>trades = [sample_trade 1 30 (-5) 100 0, sample_trade 2 20 (-5) 100 0,
     sample_trade 3 10 10 50 (-2)], delistedCcyMap = [], polls = 0\<rparr>"

lemma sample_run:
  obtains res s' where "lookUpTrades sample_env sample_opts (\<lambda>_. False) sample_state = Inr (res, s')"
    "saleTradesWithRealizedProfit res = [sample_row]"
proof -
  have "map_sum (\<lambda>_. ()) (\<lambda>(r, s). saleTradesWithRealizedProfit r)
      (lookUpTrades sample_env sample_opts (\<lambda>_. False) sample_state) = Inr [sample_row]"
    by code_simp
  then show thesis
    by (cases "lookUpTrades sample_env sample_opts (\<lambda>_. False) sample_state") (auto intro: that)
qed

lemma sample_interrupted_run:
  obtains res s' where "lookUpTrades sample_env sample_opts (\<lambda>k. k = 1) sample_state = Inr (res, s')"
    "polls s' = 2"
proof -
  have "map_sum (\<lambda>_. ()) (\<lambda>(r, s). polls s)
      (lookUpTrades sample_env sample_opts (\<lambda>k. k = 1) sample_state) = Inr 2"
    by code_simp
  then show thesis
    by (cases "lookUpTrades sample_env sample_opts (\<lambda>k. k = 1) sample_state") (auto intro: that)
qed

end
