(* ===== verification/Tax_Remap.thy ===== *)
theory Tax_Remap
  imports Tax_Samples "HOL-Library.Multiset"
begin

text \<open>
  \<^verbatim>\<open>helpers/remap-trades.js\<close> and \<^verbatim>\<open>helpers/remap-movements.js\<close>: rows of the tables become
  transaction objects, and those without a USD price are also put on the list for conversion;
  then \<^verbatim>\<open>#getTrxs\<close> of \<^verbatim>\<open>index.js\<close>, which sorts both newest first.

  Both lists hold the same objects, so the list for conversion is a list of object identities.
  The rows are objects that the read of the database has just created (a remapped trade is the row
  object itself, a remapped movement a copy), so every remapped object gets a new identity from the
  counter \<open>nextOid\<close>. A row has the columns the code reads; the others are not modelled.
\<close>

record trade_row =
  trId :: int
  trSymbol :: string
  trExecAmount :: "rat option"
  trExecPrice :: "rat option"
  trExactUsdValue :: "rat option"
  trMts :: "int option"
  trFee :: "rat option"
  trFeeCurrency :: "string option"

record movement_row =
  mvId :: int
  mvCurrency :: string
  mvAmount :: "rat option"
  mvMtsUpdated :: "int option"
  mvExactUsdValue :: "rat option"
  mvFees :: "rat option"
  mvIsLedgers :: bool
  mvAirdrop :: bool
  mvMarginFunding :: bool
  mvAffiliate :: bool
  mvStaking :: bool

record remap_state =
  remappedTrxs :: "trx list"
  remappedTrxsForConvToUsd :: "nat list"
  nextOid :: nat

definition remapped :: "trx \<Rightarrow> bool \<Rightarrow> remap_state \<Rightarrow> remap_state" where
  "remapped t conv st = st\<lparr>remappedTrxs := remappedTrxs st @ [t],
     remappedTrxsForConvToUsd := remappedTrxsForConvToUsd st @ (if conv then [oid t] else [])\<rparr>"

definition trade_row_skipped :: "trade_row \<Rightarrow> bool" where
  "trade_row_skipped r \<longleftrightarrow>
     trSymbol r = '''' \<or> trExecAmount r = None \<or> trExecAmount r = Some 0
     \<or> trExecPrice r = None \<or> trExecPrice r = Some 0 \<or> trMts r = None"

definition remap_trade :: "tax_env \<Rightarrow> trade_row \<Rightarrow> remap_state \<Rightarrow> remap_state" where
  "remap_trade env r st =
     (if trade_row_skipped r then st
      else
        let (f, l) = splitSymbolPairs env (trSymbol r);
            t = blank_trx\<lparr>oid := nextOid st, rowId := trId r, symbol := trSymbol r,
                  execAmount := trExecAmount r, execPrice := trExecPrice r,
                  exactUsdValue := trExactUsdValue r,
                  mtsCreate := nullish (trMts r) 0, firstSymb := f, lastSymb := l,
                  firstSymbPriceUsd := None, lastSymbPriceUsd := None,
                  isAdditionalTrxMovements := Some False, isTaxablePayment := False,
                  isAirdropOnWallet := False, isMarginFundingPayment := False,
                  isAffiliateRebate := False, isStakingPayments := False,
                  isMovements := False, isLedgers := False, isTrades := True,
                  trxFee := Some (nullish (trFee r) 0), trxFeeCcy := trFeeCurrency r\<rparr>;
            st' = st\<lparr>nextOid := Suc (nextOid st)\<rparr>;
            a = nullish (trExecAmount r) 0; p = nullish (trExecPrice r) 0
        in if l = ''USD'' then
             remapped (t\<lparr>firstSymbPriceUsd := Some p, lastSymbPriceUsd := Some 1\<rparr>) False st'
           else (case trExactUsdValue r of
               Some v \<Rightarrow>
                 if v \<noteq> 0 then
                   remapped (t\<lparr>firstSymbPriceUsd := Some (fl env \<bar>bnDiv env v a\<bar>),
                     lastSymbPriceUsd := Some (fl env \<bar>bnDiv env v (a * p)\<bar>)\<rparr>) False st'
                 else remapped t True st'
             | None \<Rightarrow> remapped t True st'))"

definition remapTrades :: "tax_env \<Rightarrow> trade_row list \<Rightarrow> remap_state \<Rightarrow> remap_state" where
  "remapTrades env rows st = fold (remap_trade env) rows st"

definition movement_taxable :: "movement_row \<Rightarrow> bool" where
  "movement_taxable m \<longleftrightarrow> mvAirdrop m \<or> mvMarginFunding m \<or> mvAffiliate m \<or> mvStaking m"

definition movement_skipped :: "tax_env \<Rightarrow> movement_row \<Rightarrow> bool" where
  "movement_skipped env m \<longleftrightarrow>
     mvCurrency m = '''' \<or> (\<not> movement_taxable m \<and> isForexSymb env (mvCurrency m))
     \<or> mvAmount m = None \<or> mvAmount m = Some 0 \<or> mvMtsUpdated m = None"

definition remap_movement :: "tax_env \<Rightarrow> movement_row \<Rightarrow> remap_state \<Rightarrow> remap_state" where
  "remap_movement env m st =
     (if movement_skipped env m then st
      else
        let f = mvCurrency m;
            sep = (if 3 < length f then '':'' else '''');
            t = blank_trx\<lparr>oid := nextOid st, rowId := mvId m,
                  isAdditionalTrxMovements := Some True,
                  isMovements := \<not> mvIsLedgers m, isLedgers := mvIsLedgers m, isTrades := False,
                  isTaxablePayment := movement_taxable m,
                  symbol := ''t'' @ f @ sep @ ''USD'', mtsCreate := nullish (mvMtsUpdated m) 0,
                  firstSymb := f, lastSymb := ''USD'',
                  firstSymbPriceUsd := None, lastSymbPriceUsd := Some 1,
                  execAmount := mvAmount m, execPrice := Some 0,
                  exactUsdValue := mvExactUsdValue m,
                  trxFee := Some (nullish (mvFees m) 0), trxFeeCcy := Some f,
                  isAirdropOnWallet := mvAirdrop m, isMarginFundingPayment := mvMarginFunding m,
                  isAffiliateRebate := mvAffiliate m, isStakingPayments := mvStaking m\<rparr>;
            st' = st\<lparr>nextOid := Suc (nextOid st)\<rparr>
        in if movement_taxable m \<and> f = ''USD'' then
             remapped (t\<lparr>firstSymbPriceUsd := Some 1, execPrice := Some 1\<rparr>) False st'
           else (case mvExactUsdValue m of
               Some v \<Rightarrow>
                 if v \<noteq> 0 then
                   (let price = fl env \<bar>bnDiv env v (nullish (mvAmount m) 0)\<bar>
                    in remapped (t\<lparr>firstSymbPriceUsd := Some price, execPrice := Some price\<rparr>)
                         False st')
                 else remapped t True st'
             | None \<Rightarrow> remapped t True st'))"

definition remapMovements :: "tax_env \<Rightarrow> movement_row list \<Rightarrow> remap_state \<Rightarrow> remap_state" where
  "remapMovements env rows st = fold (remap_movement env) rows st"

text \<open>
  \<^verbatim>\<open>#getTrxs\<close>: the sort of the language is stable, as is \<^const>\<open>sort_key\<close>; the comparison
  \<^verbatim>\<open>b.mtsCreate - a.mtsCreate\<close> puts the newest first.
\<close>

record trx_batch =
  trxs :: "trx list"
  trxsForConvToUsd :: "nat list"
  nextFreeOid :: nat

definition mts_of :: "trx list \<Rightarrow> nat \<Rightarrow> int" where
  "mts_of ts i = (case find (\<lambda>t. oid t = i) ts of None \<Rightarrow> 0 | Some t \<Rightarrow> mtsCreate t)"

definition getTrxs ::
  "tax_env \<Rightarrow> nat \<Rightarrow> trade_row list \<Rightarrow> movement_row list \<Rightarrow> movement_row list \<Rightarrow> trx_batch" where
  "getTrxs env nid tradeRows withdrawals deposits =
     (let st = remapMovements env (withdrawals @ deposits) (remapTrades env tradeRows
            \<lparr>remappedTrxs = [], remappedTrxsForConvToUsd = [], nextOid = nid\<rparr>)
      in \<lparr>trxs = sort_key (\<lambda>t. - mtsCreate t) (remappedTrxs st),
          trxsForConvToUsd =
            sort_key (\<lambda>i. - mts_of (remappedTrxs st) i) (remappedTrxsForConvToUsd st),
          nextFreeOid = nextOid st\<rparr>)"

subsection \<open>What a remapped transaction satisfies\<close>

text \<open>
  A transaction is fit for the look-up: it has a symbol, a nonzero amount and a finite price. It is
  fresh: nothing of the look-up is booked on it yet.
\<close>

definition fit :: "trx \<Rightarrow> bool" where
  "fit t \<longleftrightarrow> symbol t \<noteq> '''' \<and> execAmount t \<noteq> None \<and> execAmount t \<noteq> Some 0 \<and> execPrice t \<noteq> None"

definition fresh :: "trx \<Rightarrow> bool" where
  "fresh t \<longleftrightarrow> isSaleTrx t = None \<and> isBuyTrx t = None \<and> saleFilledAmount t = None
     \<and> buyFilledAmount t = None \<and> isSaleTrxHistFilled t = None \<and> isBuyTrxHistFilled t = None
     \<and> buyTrxsForRealizedProfit t = None \<and> saleTrxsForRealizedProfit t = None
     \<and> \<not> isBuyTradesWithUnrealizedProfitForPrevPeriod t"

text \<open>One remapped object, made by the pass over a row in a state.\<close>

definition new_object :: "remap_state \<Rightarrow> trx \<Rightarrow> bool" where
  "new_object st t \<longleftrightarrow> oid t = nextOid st \<and> fit t \<and> fresh t"

definition adds :: "remap_state \<Rightarrow> trx \<Rightarrow> remap_state \<Rightarrow> bool" where
  "adds st t st' \<longleftrightarrow> new_object st t
     \<and> st' = remapped t (firstSymbPriceUsd t = None) (st\<lparr>nextOid := Suc (nextOid st)\<rparr>)"

lemma remap_trade_effect:
  obtains (skip) "trade_row_skipped r" "remap_trade env r st = st"
  | (add) t where "\<not> trade_row_skipped r" "adds st t (remap_trade env r st)"
      "trMts r = Some (mtsCreate t)" "isTrades t" "\<not> isTaxablePayment t"
proof (cases "trade_row_skipped r")
  case False
  then obtain a p m where row: "trExecAmount r = Some a" "a \<noteq> 0" "trExecPrice r = Some p"
    "trMts r = Some m" "trSymbol r \<noteq> ''''"
    by (auto simp: trade_row_skipped_def)
  obtain f l where split: "splitSymbolPairs env (trSymbol r) = (f, l)"
    by (cases "splitSymbolPairs env (trSymbol r)")
  consider (usd) "l = ''USD''"
    | (unpriced) "l \<noteq> ''USD''" "trExactUsdValue r = None \<or> trExactUsdValue r = Some 0"
    | (priced) v where "l \<noteq> ''USD''" "trExactUsdValue r = Some v" "v \<noteq> 0"
    by (cases "trExactUsdValue r") auto
  then have "\<exists>t. adds st t (remap_trade env r st) \<and> mtsCreate t = m \<and> isTrades t \<and> \<not> isTaxablePayment t"
    by (cases; intro exI[of _ "last (remappedTrxs (remap_trade env r st))"])
      (use False row split in \<open>auto simp: remap_trade_def adds_def new_object_def fit_def
        fresh_def remapped_def blank_trx_def\<close>)
  then show thesis using False row by (auto intro: add)
qed (use skip in \<open>simp add: remap_trade_def\<close>)

lemma remap_movement_effect:
  obtains (skip) "movement_skipped env m" "remap_movement env m st = st"
  | (add) t where "\<not> movement_skipped env m" "adds st t (remap_movement env m st)"
      "mvMtsUpdated m = Some (mtsCreate t)" "isTaxablePayment t \<or> \<not> isForexSymb env (firstSymb t)"
proof (cases "movement_skipped env m")
  case False
  then obtain a k where row: "mvAmount m = Some a" "a \<noteq> 0" "mvMtsUpdated m = Some k"
    "mvCurrency m \<noteq> ''''" "movement_taxable m \<or> \<not> isForexSymb env (mvCurrency m)"
    by (auto simp: movement_skipped_def)
  consider (usd) "movement_taxable m \<and> mvCurrency m = ''USD''"
    | (unpriced) "\<not> (movement_taxable m \<and> mvCurrency m = ''USD'')" "mvExactUsdValue m = None"
    | (zero) "\<not> (movement_taxable m \<and> mvCurrency m = ''USD'')" "mvExactUsdValue m = Some 0"
    | (priced) v where "\<not> (movement_taxable m \<and> mvCurrency m = ''USD'')"
        "mvExactUsdValue m = Some v" "v \<noteq> 0"
    by (cases "mvExactUsdValue m") auto
  then have "\<exists>t. adds st t (remap_movement env m st) \<and> mtsCreate t = k
      \<and> (isTaxablePayment t \<or> \<not> isForexSymb env (firstSymb t))"
    by (cases; intro exI[of _ "last (remappedTrxs (remap_movement env m st))"])
      (use False row in \<open>simp_all add: remap_movement_def Let_def adds_def new_object_def fit_def
        fresh_def remapped_def blank_trx_def cong: conj_cong split del: if_split\<close>)
  then show thesis using False row by (auto intro: add)
qed (use skip in \<open>simp add: remap_movement_def\<close>)

subsection \<open>The two lists\<close>

text \<open>
  Every object on the lists is fit and fresh and has an identity of its own, given out since the
  counter was \<open>n\<close>; its first price is known or it is on the list for conversion.
\<close>

definition remap_inv :: "nat \<Rightarrow> remap_state \<Rightarrow> bool" where
  "remap_inv n st \<longleftrightarrow>
     (\<forall>t\<in>set (remappedTrxs st). fit t \<and> fresh t \<and> n \<le> oid t \<and> oid t < nextOid st
        \<and> (firstSymbPriceUsd t = None \<longleftrightarrow> oid t \<in> set (remappedTrxsForConvToUsd st)))
     \<and> set (remappedTrxsForConvToUsd st) \<subseteq> oid ` set (remappedTrxs st)
     \<and> distinct (map oid (remappedTrxs st)) \<and> distinct (remappedTrxsForConvToUsd st)
     \<and> n \<le> nextOid st"

lemma remap_inv_adds:
  assumes "remap_inv n st" "adds st t st'"
  shows "remap_inv n st'"
proof -
  let ?A = "remappedTrxs st" and ?C = "remappedTrxsForConvToUsd st"
  let ?c = "if firstSymbPriceUsd t = None then [oid t] else []"
  have st': "remappedTrxs st' = ?A @ [t]" "remappedTrxsForConvToUsd st' = ?C @ ?c"
    "nextOid st' = Suc (nextOid st)"
    and t: "oid t = nextOid st" "fit t" "fresh t"
    using assms(2) by (simp_all add: adds_def new_object_def remapped_def)
  have old: "fit u \<and> fresh u \<and> n \<le> oid u \<and> oid u < nextOid st
      \<and> (firstSymbPriceUsd u = None \<longleftrightarrow> oid u \<in> set ?C)" if "u \<in> set ?A" for u
    using assms(1) that by (simp add: remap_inv_def)
  have rest: "set ?C \<subseteq> oid ` set ?A" "distinct (map oid ?A)" "distinct ?C" "n \<le> nextOid st"
    using assms(1) by (simp_all add: remap_inv_def)
  have notA: "nextOid st \<notin> oid ` set ?A" using old by force
  then have notC: "nextOid st \<notin> set ?C" using rest(1) by blast
  have each: "fit u \<and> fresh u \<and> n \<le> oid u \<and> oid u < Suc (nextOid st)
      \<and> (firstSymbPriceUsd u = None \<longleftrightarrow> oid u \<in> set (?C @ ?c))" if "u \<in> set (?A @ [t])" for u
  proof (cases "u = t")
    case True
    then show ?thesis using t notC rest(4) by simp
  next
    case False
    with that have "u \<in> set ?A" by simp
    with old[OF this] t(1) show ?thesis by auto
  qed
  have "\<forall>u\<in>set (?A @ [t]). fit u \<and> fresh u \<and> n \<le> oid u \<and> oid u < Suc (nextOid st)
      \<and> (firstSymbPriceUsd u = None \<longleftrightarrow> oid u \<in> set (?C @ ?c))"
    by (intro ballI) (rule each)
  moreover have "set (?C @ ?c) \<subseteq> oid ` set (?A @ [t])" using rest(1) by auto
  moreover have "distinct (map oid (?A @ [t]))" using rest(2) notA t(1) by simp
  moreover have "distinct (?C @ ?c)" using rest(3) notC t(1) by auto
  ultimately show ?thesis
    using rest(4) unfolding remap_inv_def st' by (intro conjI le_SucI)
qed

text \<open>Both loops at once: they keep the invariant and what every row's time satisfies.\<close>

definition times_in :: "(int \<Rightarrow> bool) \<Rightarrow> remap_state \<Rightarrow> bool" where
  "times_in T st \<longleftrightarrow> (\<forall>t\<in>set (remappedTrxs st). T (mtsCreate t))"

lemma times_in_adds: "times_in T st \<Longrightarrow> adds st t st' \<Longrightarrow> T (mtsCreate t) \<Longrightarrow> times_in T st'"
  by (auto simp: times_in_def adds_def remapped_def)

lemma remapTrades_inv:
  assumes "remap_inv n st" "times_in T st" "\<forall>r\<in>set rows. \<forall>m. trMts r = Some m \<longrightarrow> T m"
  shows "remap_inv n (remapTrades env rows st) \<and> times_in T (remapTrades env rows st)"
  using assms unfolding remapTrades_def
proof (induction rows arbitrary: st)
  case (Cons r rows)
  show ?case
  proof (cases rule: remap_trade_effect[of r env st])
    case skip
    then show ?thesis using Cons.IH[of st] Cons.prems by simp
  next
    case (add t)
    then show ?thesis
      using Cons.IH[of "remap_trade env r st"] Cons.prems remap_inv_adds times_in_adds by simp
  qed
qed simp

lemma remapMovements_inv:
  assumes "remap_inv n st" "times_in T st" "\<forall>m\<in>set rows. \<forall>k. mvMtsUpdated m = Some k \<longrightarrow> T k"
  shows "remap_inv n (remapMovements env rows st) \<and> times_in T (remapMovements env rows st)"
  using assms unfolding remapMovements_def
proof (induction rows arbitrary: st)
  case (Cons m rows)
  show ?case
  proof (cases rule: remap_movement_effect[of env m st])
    case skip
    then show ?thesis using Cons.IH[of st] Cons.prems by simp
  next
    case (add t)
    then show ?thesis
      using Cons.IH[of "remap_movement env m st"] Cons.prems remap_inv_adds times_in_adds by simp
  qed
qed simp

text \<open>What the rows of a period satisfy, and what is handed to the look-up.\<close>

definition rows_in ::
  "(int \<Rightarrow> bool) \<Rightarrow> trade_row list \<Rightarrow> movement_row list \<Rightarrow> movement_row list \<Rightarrow> bool" where
  "rows_in T tr wd dp \<longleftrightarrow> (\<forall>r\<in>set tr. \<forall>m. trMts r = Some m \<longrightarrow> T m)
     \<and> (\<forall>r\<in>set wd \<union> set dp. \<forall>m. mvMtsUpdated r = Some m \<longrightarrow> T m)"

lemma getTrxs_facts:
  fixes env nid tradeRows withdrawals deposits
  defines "b \<equiv> getTrxs env nid tradeRows withdrawals deposits"
  shows "sorted_wrt (\<lambda>t u. mtsCreate u \<le> mtsCreate t) (trxs b)"
    "\<forall>t\<in>set (trxs b). fit t \<and> fresh t \<and> nid \<le> oid t \<and> oid t < nextFreeOid b"
    "distinct (map oid (trxs b))" "distinct (trxsForConvToUsd b)" "nid \<le> nextFreeOid b"
    "set (trxsForConvToUsd b) = oid ` {t \<in> set (trxs b). firstSymbPriceUsd t = None}"
    "rows_in T tradeRows withdrawals deposits \<Longrightarrow> \<forall>t\<in>set (trxs b). T (mtsCreate t)"
proof -
  let ?s0 = "\<lparr>remappedTrxs = [], remappedTrxsForConvToUsd = [], nextOid = nid\<rparr>"
  let ?s1 = "remapTrades env tradeRows ?s0"
  let ?s2 = "remapMovements env (withdrawals @ deposits) ?s1"
  have inv: "remap_inv nid ?s2 \<and> times_in T' ?s2" if "rows_in T' tradeRows withdrawals deposits" for T'
    using that remapTrades_inv[of nid ?s0 T' tradeRows env]
      remapMovements_inv[of nid ?s1 T' "withdrawals @ deposits" env]
    by (auto simp: remap_inv_def times_in_def rows_in_def)
  have always: "remap_inv nid ?s2" using inv[of "\<lambda>_. True"] by (simp add: rows_in_def)
  have b: "trxs b = sort_key (\<lambda>t. - mtsCreate t) (remappedTrxs ?s2)"
    "set (trxsForConvToUsd b) = set (remappedTrxsForConvToUsd ?s2)"
    "distinct (trxsForConvToUsd b) = distinct (remappedTrxsForConvToUsd ?s2)"
    "nextFreeOid b = nextOid ?s2"
    by (simp_all add: b_def getTrxs_def Let_def)
  have "sorted (map (\<lambda>t. - mtsCreate t) (trxs b))" unfolding b by (rule sorted_sort_key)
  then show "sorted_wrt (\<lambda>t u. mtsCreate u \<le> mtsCreate t) (trxs b)"
    by (simp add: sorted_wrt_map)
  have "mset (map oid (trxs b)) = mset (map oid (remappedTrxs ?s2))" by (simp add: b)
  then show "distinct (map oid (trxs b))"
    using always by (metis mset_eq_imp_distinct_iff remap_inv_def)
  show "\<forall>t\<in>set (trxs b). fit t \<and> fresh t \<and> nid \<le> oid t \<and> oid t < nextFreeOid b"
    "distinct (trxsForConvToUsd b)" "nid \<le> nextFreeOid b"
    "set (trxsForConvToUsd b) = oid ` {t \<in> set (trxs b). firstSymbPriceUsd t = None}"
    using always by (auto simp: b remap_inv_def)
  show "\<forall>t\<in>set (trxs b). T (mtsCreate t)" if "rows_in T tradeRows withdrawals deposits"
    using inv[OF that] by (simp add: b times_in_def)
qed

text \<open>
  What \<^verbatim>\<open>#getTrxs\<close> hands to the look-up. The transactions are sorted newest first, are fit
  for it (a symbol, a nonzero amount, a finite price), carry no bookings and are different objects;
  and the list for conversion names exactly the transactions whose first price is not known yet,
  once each.
\<close>

theorem getTrxs_batch:
  fixes env nid tradeRows withdrawals deposits
  defines "b \<equiv> getTrxs env nid tradeRows withdrawals deposits"
  shows "sorted_wrt (\<lambda>t u. mtsCreate u \<le> mtsCreate t) (trxs b)
    \<and> list_all (\<lambda>t. fit t \<and> fresh t) (trxs b) \<and> distinct (map oid (trxs b))
    \<and> distinct (trxsForConvToUsd b)
    \<and> set (trxsForConvToUsd b) = oid ` {t \<in> set (trxs b). firstSymbPriceUsd t = None}"
  using getTrxs_facts(1-4,6)[of env nid tradeRows withdrawals deposits]
  by (simp add: b_def list_all_iff)

lemma getTrxs_batch_witness:
  "list_all (\<lambda>t. fit t \<and> fresh t) (trxs (getTrxs sample_env 9
     [\<lparr>trId = 1, trSymbol = ''tBTCUSD'', trExecAmount = Some 2, trExecPrice = Some 3,
       trExactUsdValue = None, trMts = Some 5, trFee = None, trFeeCurrency = None\<rparr>] [] []))"
  using getTrxs_batch[of sample_env 9
    "[\<lparr>trId = 1, trSymbol = ''tBTCUSD'', trExecAmount = Some 2, trExecPrice = Some 3,
       trExactUsdValue = None, trMts = Some 5, trFee = None, trFeeCurrency = None\<rparr>]" "[]" "[]"]
  by blast

end
