(* ===== verification/Tax_Price.thy ===== *)
theory Tax_Price
  imports Tax_Remap
begin

text \<open>
  USD prices for the tax report: \<^verbatim>\<open>helpers/find-public-trade.js\<close>,
  \<^verbatim>\<open>helpers/trx.price.calculator.js\<close>, \<^verbatim>\<open>helpers/get-ccy-pair-for-conversion.js\<close> and
  \<^verbatim>\<open>helpers/get-trx-map-by-ccy.js\<close>.
\<close>

subsection \<open>Binary search of a public trade\<close>

record pub_trade =
  pubMts :: int
  price :: "rat option"

text \<open>An array read out of range is \<^verbatim>\<open>undefined\<close>.\<close>

definition get_at :: "'a list \<Rightarrow> int \<Rightarrow> 'a option" where
  "get_at xs i = (if 0 \<le> i \<and> i < int (length xs) then Some (xs ! nat i) else None)"

text \<open>
  The loop of \<^verbatim>\<open>find-public-trade.js\<close> over an array sorted newest first. An element read out of
  range would leave both bounds as they are, for ever; the bounds keep the index in range
  (\<open>search_loop_in_range\<close>), so the model returns \<open>None\<close> there.
\<close>

function search_loop ::
  "pub_trade list \<Rightarrow> int \<Rightarrow> int \<Rightarrow> int \<Rightarrow> int option \<Rightarrow> pub_trade option" where
  "search_loop pubTrades mts startIndex endIndex middleIndex =
     (if startIndex \<le> endIndex then
        let middle = (startIndex + endIndex) div 2 in
        (case get_at pubTrades middle of
           None \<Rightarrow> None
         | Some p \<Rightarrow>
             if pubMts p = mts then Some p
             else if mts > pubMts p then search_loop pubTrades mts startIndex (middle - 1) (Some middle)
             else search_loop pubTrades mts (middle + 1) endIndex (Some middle))
      else (case middleIndex of None \<Rightarrow> None | Some m \<Rightarrow> get_at pubTrades m))"
  by pat_completeness auto
termination
  by (relation "measure (\<lambda>(pubTrades, mts, s, e, m). nat (e - s + 1))") auto

declare search_loop.simps [simp del]

definition findPublicTrade :: "pub_trade list \<Rightarrow> int \<Rightarrow> pub_trade option" where
  "findPublicTrade pubTrades mts =
     search_loop pubTrades mts 0 (int (length pubTrades) - 1) None"

text \<open>
  The invariant: everything before \<open>startIndex\<close> is newer than the requested time, everything
  after \<open>endIndex\<close> is older, and the last index read is next to one of the bounds.
\<close>

definition search_inv :: "pub_trade list \<Rightarrow> int \<Rightarrow> int \<Rightarrow> int \<Rightarrow> int option \<Rightarrow> bool" where
  "search_inv xs mts s e m \<longleftrightarrow>
     0 \<le> s \<and> e < int (length xs) \<and> s \<le> e + 1
     \<and> (\<forall>k<length xs. int k < s \<longrightarrow> mts < pubMts (xs ! k))
     \<and> (\<forall>k<length xs. e < int k \<longrightarrow> pubMts (xs ! k) < mts)
     \<and> (case m of None \<Rightarrow> s = 0 \<and> e = int (length xs) - 1
        | Some i \<Rightarrow> 0 \<le> i \<and> i < int (length xs) \<and> (i = s - 1 \<or> i = e + 1))"

text \<open>No other trade lies strictly between the one found and the requested time.\<close>

definition nearest :: "pub_trade list \<Rightarrow> int \<Rightarrow> pub_trade \<Rightarrow> bool" where
  "nearest xs mts p \<longleftrightarrow> p \<in> set xs \<and>
     (\<forall>q\<in>set xs. \<not> (pubMts p < pubMts q \<and> pubMts q \<le> mts) \<and> \<not> (mts \<le> pubMts q \<and> pubMts q < pubMts p))"

lemma desc_nth:
  "sorted_wrt (\<lambda>p q. pubMts q \<le> pubMts p) xs \<Longrightarrow> i \<le> j \<Longrightarrow> j < length xs
   \<Longrightarrow> pubMts (xs ! j) \<le> pubMts (xs ! i)"
  by (cases "i = j") (auto simp: sorted_wrt_iff_nth_less)

lemma search_loop_nearest:
  assumes "sorted_wrt (\<lambda>p q. pubMts q \<le> pubMts p) xs" "search_inv xs mts s e m" "xs \<noteq> []"
  shows "\<exists>p. search_loop xs mts s e m = Some p \<and> nearest xs mts p"
  using assms
proof (induction xs mts s e m rule: search_loop.induct)
  case (1 xs mts s e m)
  note sorted = "1.prems"(1) and inv = "1.prems"(2)
  show ?case
  proof (cases "s \<le> e")
    case True
    let ?mid = "(s + e) div 2"
    have range: "s \<le> ?mid" "?mid \<le> e" "0 \<le> ?mid" "?mid < int (length xs)"
      using True inv by (auto simp: search_inv_def)
    let ?p = "xs ! nat ?mid"
    have at: "get_at xs ?mid = Some ?p" and mem: "?p \<in> set xs"
      using range by (auto simp: get_at_def)
    have below: "pubMts (xs ! k) \<le> pubMts ?p" if "?mid \<le> int k" "k < length xs" for k
      using that range by (intro desc_nth[OF sorted]) auto
    have above: "pubMts ?p \<le> pubMts (xs ! k)" if "int k \<le> ?mid" "k < length xs" for k
      using that range by (intro desc_nth[OF sorted]) auto
    show ?thesis
    proof (cases "pubMts ?p = mts")
      case True
      then have "search_loop xs mts s e m = Some ?p"
        using at \<open>s \<le> e\<close> by (subst search_loop.simps) (simp add: Let_def)
      with True mem show ?thesis by (auto simp: nearest_def)
    next
      case neq: False
      show ?thesis
      proof (cases "mts > pubMts ?p")
        case gt: True
        have "search_inv xs mts s (?mid - 1) (Some ?mid)"
        proof -
          have "pubMts (xs ! k) < mts" if "k < length xs" "?mid - 1 < int k" for k
            using below[of k] gt that by linarith
          then show ?thesis using inv range by (simp add: search_inv_def)
        qed
        from "1.IH"(1)[OF True refl at neq gt sorted this "1.prems"(3)] show ?thesis
          using True at neq gt by (subst search_loop.simps) (simp add: Let_def)
      next
        case le: False
        then have lt: "mts < pubMts ?p" using neq by simp
        have "search_inv xs mts (?mid + 1) e (Some ?mid)"
        proof -
          have "mts < pubMts (xs ! k)" if "k < length xs" "int k < ?mid + 1" for k
            using above[of k] lt that by linarith
          then show ?thesis using inv range by (simp add: search_inv_def)
        qed
        from "1.IH"(2)[OF True refl at neq le sorted this "1.prems"(3)] show ?thesis
          using True at neq le by (subst search_loop.simps) (simp add: Let_def)
      qed
    qed
  next
    case False
    then obtain i where i: "m = Some i" "0 \<le> i" "i < int (length xs)" "i = s - 1 \<or> i = e + 1"
      using inv "1.prems"(3) by (cases m) (auto simp: search_inv_def)
    have s: "s = e + 1" using inv False by (simp add: search_inv_def)
    let ?p = "xs ! nat i"
    have "search_loop xs mts s e m = Some ?p"
      using False i by (subst search_loop.simps) (simp add: get_at_def)
    moreover have "nearest xs mts ?p"
      unfolding nearest_def
    proof (intro conjI ballI)
      show "?p \<in> set xs" using i by auto
      fix q assume "q \<in> set xs"
      then obtain k where k: "k < length xs" "q = xs ! k" by (auto simp: in_set_conv_nth)
      have side: "if int k < s then mts < pubMts q else pubMts q < mts"
        using inv k s by (auto simp: search_inv_def)
      have "pubMts q \<le> pubMts ?p" if "i \<le> int k"
        unfolding k(2) using that k i by (intro desc_nth[OF sorted]) auto
      moreover have "pubMts ?p \<le> pubMts q" if "int k \<le> i"
        unfolding k(2) using that k i by (intro desc_nth[OF sorted]) auto
      ultimately show "\<not> (pubMts ?p < pubMts q \<and> pubMts q \<le> mts)"
        "\<not> (mts \<le> pubMts q \<and> pubMts q < pubMts ?p)"
        using side s i(4) by (auto split: if_splits)
    qed
    ultimately show ?thesis by blast
  qed
qed

text \<open>
  The binary search finds the nearest public trade. On a nonempty array sorted newest first it
  terminates with an element of the array, and no other element lies strictly between that one and
  the requested time (nor at that time, unless the found one does).
\<close>

theorem findPublicTrade_nearest:
  assumes "sorted_wrt (\<lambda>p q. pubMts q \<le> pubMts p) xs" "xs \<noteq> []"
  shows "\<exists>p. findPublicTrade xs mts = Some p \<and> p \<in> set xs \<and>
    (\<forall>q\<in>set xs. \<not> (pubMts p < pubMts q \<and> pubMts q \<le> mts)
      \<and> \<not> (mts \<le> pubMts q \<and> pubMts q < pubMts p))"
proof -
  have "search_inv xs mts 0 (int (length xs) - 1) None"
    by (auto simp: search_inv_def)
  from search_loop_nearest[OF assms(1) this assms(2)] show ?thesis
    by (auto simp: findPublicTrade_def nearest_def)
qed

lemma findPublicTrade_nearest_witness:
  "\<exists>p. findPublicTrade [\<lparr>pubMts = 30, price = Some 1\<rparr>, \<lparr>pubMts = 10, price = Some 2\<rparr>] 11 = Some p
     \<and> p \<in> set [\<lparr>pubMts = 30, price = Some 1\<rparr>, \<lparr>pubMts = 10, price = Some 2\<rparr>]"
  using findPublicTrade_nearest[of "[\<lparr>pubMts = 30, price = Some 1\<rparr>, \<lparr>pubMts = 10, price = Some 2\<rparr>]" 11]
  by auto

subsection \<open>The price calculator\<close>

datatype price_prop = FIRST_SYMB_PRICE | LAST_SYMB_PRICE

datatype triangulation = IS_CRYPTO_CCY_FOR_TRIANGULATION | IS_FOREX_CCY_FOR_TRIANGULATION

definition CRYPTO_CCY_FOR_TRIANGULATION :: string where
  "CRYPTO_CCY_FOR_TRIANGULATION = ''BTC''"

text \<open>
  Calculators and transactions are objects that refer to each other: \<open>calcTrx\<close> is the identity of
  the transaction, \<open>triangulationCcyCalculator\<close> the index of another calculator.
\<close>

record calculator =
  calcTrx :: nat
  convPricePropName :: price_prop
  calcPricePropName :: price_prop
  kindOfCcyForTriangulation :: "triangulation option"
  triangulationCcyCalculator :: "nat option"
  pubTradePrice :: "rat option"

definition price_of :: "price_prop \<Rightarrow> trx \<Rightarrow> rat option" where
  "price_of pp t = (case pp of FIRST_SYMB_PRICE \<Rightarrow> firstSymbPriceUsd t
     | LAST_SYMB_PRICE \<Rightarrow> lastSymbPriceUsd t)"

definition set_price :: "price_prop \<Rightarrow> rat \<Rightarrow> trx \<Rightarrow> trx" where
  "set_price pp v t = (case pp of FIRST_SYMB_PRICE \<Rightarrow> t\<lparr>firstSymbPriceUsd := Some v\<rparr>
     | LAST_SYMB_PRICE \<Rightarrow> t\<lparr>lastSymbPriceUsd := Some v\<rparr>)"

definition finite_nonzero :: "rat option \<Rightarrow> bool" where
  "finite_nonzero x \<longleftrightarrow> x \<noteq> None \<and> x \<noteq> Some 0"

lemma finite_nonzero_simps [simp]: "\<not> finite_nonzero None" "finite_nonzero (Some x) \<longleftrightarrow> x \<noteq> 0"
  by (simp_all add: finite_nonzero_def)

text \<open>\<open>tri\<close> is the calculator \<open>triangulationCcyCalculator\<close> refers to.\<close>

definition calcPrice ::
  "tax_env \<Rightarrow> calculator option \<Rightarrow> rat option \<Rightarrow> calculator \<Rightarrow> trx
     \<Rightarrow> tax_error + calculator \<times> trx" where
  "calcPrice env tri pub c t =
     (if \<not> finite_nonzero pub then Inl PubTradePriceFindForTrxTaxError
      else
        let p = nullish pub 0; c' = c\<lparr>pubTradePrice := pub\<rparr>;
            triPrice = (case tri of None \<Rightarrow> None | Some d \<Rightarrow> pubTradePrice d);
            isForex = (kindOfCcyForTriangulation c = Some IS_FOREX_CCY_FOR_TRIANGULATION)
        in if kindOfCcyForTriangulation c = Some IS_CRYPTO_CCY_FOR_TRIANGULATION then Inr (c', t)
        else if isForex \<and> \<not> finite_nonzero triPrice then Inl PubTradePriceFindForTrxTaxError
        else
          let conv = (if isForex then fl env (bnDiv env (nullish triPrice 0) p) else p);
              t1 = set_price (convPricePropName c) conv t;
              t2 = (if nullish (isAdditionalTrxMovements t1) False
                    then t1\<lparr>execPrice := Some conv\<rparr> else t1);
              ep = nullish (execPrice t2) 0
          in if \<not> finite_nonzero (execPrice t2) then Inr (c', t2)
          else if calcPricePropName c = FIRST_SYMB_PRICE then
            let priceUsd = fl env (conv * ep)
            in Inr (c', (set_price FIRST_SYMB_PRICE priceUsd t2)\<lparr>exactUsdValue :=
                 map_option (\<lambda>a. fl env (a * priceUsd)) (execAmount t2)\<rparr>)
          else
            let priceUsd = fl env (bnDiv env conv ep)
            in Inr (c', (set_price LAST_SYMB_PRICE priceUsd t2)\<lparr>exactUsdValue :=
                 map_option (\<lambda>a. fl env (a * conv)) (execAmount t2)\<rparr>))"

text \<open>
  The prices a calculator sets agree with each other. In exact arithmetic, after a successful
  calculation on a transaction with a nonzero execution price (a calculator that is not the crypto
  side of a triangulation), the first price is the last price times the execution price and the
  USD value is the amount times the first price.
\<close>

theorem calcPrice_consistent:
  assumes "calcPrice env tri pub c t = Inr (c', t')"
    and exact: "\<And>x. fl env x = x" "\<And>x y. bnDiv env x y = x / y"
    and kind: "kindOfCcyForTriangulation c \<noteq> Some IS_CRYPTO_CCY_FOR_TRIANGULATION"
    and other: "calcPricePropName c \<noteq> convPricePropName c"
    and "finite_nonzero (execPrice t')" "execAmount t = Some a"
  shows "\<exists>f l e. firstSymbPriceUsd t' = Some f \<and> lastSymbPriceUsd t' = Some l \<and> execPrice t' = Some e
    \<and> f = l * e \<and> exactUsdValue t' = Some (a * f)"
  using assms
  by (cases "convPricePropName c"; cases "calcPricePropName c")
    (auto simp: calcPrice_def Let_def set_price_def finite_nonzero_def split: if_splits option.splits)

definition sample_calculator :: calculator where
  "sample_calculator = \<lparr>calcTrx = 1, convPricePropName = FIRST_SYMB_PRICE,
     calcPricePropName = LAST_SYMB_PRICE, kindOfCcyForTriangulation = None,
     triangulationCcyCalculator = None, pubTradePrice = None\<rparr>"

lemma calcPrice_consistent_witness:
  "\<exists>c' t' f l. calcPrice sample_env None (Some 30) sample_calculator (sample_trade 1 20 (-2) 10 0)
       = Inr (c', t')
     \<and> firstSymbPriceUsd t' = Some f \<and> lastSymbPriceUsd t' = Some l \<and> f = l * 10
     \<and> exactUsdValue t' = Some (- 2 * f)"
proof -
  let ?r = "calcPrice sample_env None (Some 30) sample_calculator (sample_trade 1 20 (-2) 10 0)"
  have "map_sum (\<lambda>_. ()) (\<lambda>(c, t). execPrice t) ?r = Inr (Some 10)" by code_simp
  then obtain c' t' where r: "?r = Inr (c', t')" "execPrice t' = Some 10" by (cases ?r) auto
  have env: "fl sample_env x = x" "bnDiv sample_env x y = x / y" for x y
    by (simp_all add: sample_env_def)
  from calcPrice_consistent[OF r(1) env, of "- 2"] r show ?thesis
    by (auto simp: sample_calculator_def sample_trade_def)
qed

end
