(* ===== verification/Tax_CcyMap.thy ===== *)
theory Tax_CcyMap
  imports Tax_Price
begin

text \<open>
  \<^verbatim>\<open>helpers/get-trx-map-by-ccy.js\<close>: which currency's price each transaction needs, as calculators
  grouped by currency, with the crypto currency of the triangulation first; and
  \<^verbatim>\<open>helpers/get-ccy-pair-for-conversion.js\<close>, the market that is asked for the price.
\<close>

text \<open>The regular expression \<^verbatim>\<open>/F0$/i\<close> replaced by the empty string.\<close>

definition strip_F0 :: "string \<Rightarrow> string" where
  "strip_F0 s =
     (let n = length s in
      if 2 \<le> n \<and> drop (n - 2) s \<in> {''F0'', ''f0''} then take (n - 2) s else s)"

definition PRIORITY_CURRENCY_LIST :: "string list" where
  "PRIORITY_CURRENCY_LIST = [''BTC'', ''ETH'', ''UST'']"

text \<open>\<^verbatim>\<open>Array.prototype.indexOf\<close>.\<close>

fun index_from :: "int \<Rightarrow> 'a list \<Rightarrow> 'a \<Rightarrow> int" where
  "index_from i [] y = -1"
| "index_from i (x # xs) y = (if x = y then i else index_from (i + 1) xs y)"

definition indexOf :: "'a list \<Rightarrow> 'a \<Rightarrow> int" where
  "indexOf xs y = index_from 0 xs y"

type_synonym ccy_map = "(string, nat list) jsmap"

definition setCcyCalculator :: "string \<Rightarrow> nat \<Rightarrow> ccy_map \<Rightarrow> ccy_map" where
  "setCcyCalculator symb c m =
     (let m' = (if map_has m symb then m else AList.update symb [] m)
      in AList.update symb (nullish (map_of m' symb) [] @ [c]) m')"

interpretation ccy: bucket_map setCcyCalculator
proof
  show "map_of (setCcyCalculator k v m) k = Some (nullish (map_of m k) [] @ [v])" for k v m
    by (auto simp: setCcyCalculator_def Let_def map_has_def update_conv')
  show "k' \<noteq> k \<Longrightarrow> map_of (setCcyCalculator k v m) k' = map_of m k'" for k k' v m
    by (simp add: setCcyCalculator_def Let_def update_conv')
  show "map_keys (setCcyCalculator k v m) =
      (if k \<in> set (map_keys m) then map_keys m else map_keys m @ [k])" for k v m
    by (simp add: setCcyCalculator_def Let_def keys_update map_has_iff)
qed

definition plain_calculator :: "nat \<Rightarrow> price_prop \<Rightarrow> price_prop \<Rightarrow> calculator" where
  "plain_calculator t conv calc = \<lparr>calcTrx = t, convPricePropName = conv,
     calcPricePropName = calc, kindOfCcyForTriangulation = None,
     triangulationCcyCalculator = None, pubTradePrice = None\<rparr>"

definition by_first :: "trx \<Rightarrow> calculator" where
  "by_first t = plain_calculator (oid t) FIRST_SYMB_PRICE LAST_SYMB_PRICE"

definition by_last :: "trx \<Rightarrow> calculator" where
  "by_last t = plain_calculator (oid t) LAST_SYMB_PRICE FIRST_SYMB_PRICE"

text \<open>
  One pass of the loop: the calculators created for a transaction, with the currency each is
  filed under; \<open>n\<close> is the index the first of them gets.
\<close>

definition trx_calculators :: "tax_env \<Rightarrow> nat \<Rightarrow> trx \<Rightarrow> (string \<times> calculator) list" where
  "trx_calculators env n t =
     (let f = strip_F0 (firstSymb t); l = strip_F0 (lastSymb t);
          isFirstSymbForex = isForexSymb env (firstSymb t);
          isLastSymbForex = isForexSymb env (lastSymb t);
          fi = indexOf PRIORITY_CURRENCY_LIST f; li = indexOf PRIORITY_CURRENCY_LIST l;
          isFirstSymbInPriorCcyList = 0 \<le> fi; isLastSymbInPriorCcyList = 0 \<le> li
      in if isFirstSymbForex \<and> l = ''USD'' then
           [(CRYPTO_CCY_FOR_TRIANGULATION, (by_first t)\<lparr>kindOfCcyForTriangulation :=
              Some IS_CRYPTO_CCY_FOR_TRIANGULATION\<rparr>),
            (f, (by_first t)\<lparr>kindOfCcyForTriangulation := Some IS_FOREX_CCY_FOR_TRIANGULATION,
              triangulationCcyCalculator := Some n\<rparr>)]
         else if isFirstSymbForex then [(l, by_last t)]
         else if isLastSymbForex then [(f, by_first t)]
         else if isFirstSymbInPriorCcyList \<and> (\<not> isLastSymbInPriorCcyList \<or> fi \<le> li)
         then [(f, by_first t)]
         else if isLastSymbInPriorCcyList \<and> (\<not> isFirstSymbInPriorCcyList \<or> li \<le> fi)
         then [(l, by_last t)]
         else [(f, by_first t)])"

fun all_calculators :: "tax_env \<Rightarrow> nat \<Rightarrow> trx list \<Rightarrow> (string \<times> calculator) list" where
  "all_calculators env n [] = []"
| "all_calculators env n (t # ts) =
     (let cs = trx_calculators env n t in cs @ all_calculators env (n + length cs) ts)"

definition calcTotalTrxAmount :: "ccy_map \<Rightarrow> nat" where
  "calcTotalTrxAmount m = foldl (\<lambda>acc (s, calcs). acc + length calcs) 0 m"

definition placeTriangulationCcyAtStart :: "ccy_map \<Rightarrow> ccy_map \<times> nat" where
  "placeTriangulationCcyAtStart m =
     (case map_of m CRYPTO_CCY_FOR_TRIANGULATION of
        None \<Rightarrow> (m, calcTotalTrxAmount m)
      | Some cs \<Rightarrow>
          (let m' = (CRYPTO_CCY_FOR_TRIANGULATION, cs) # AList.delete CRYPTO_CCY_FOR_TRIANGULATION m
           in (m', calcTotalTrxAmount m')))"

record trx_ccy_map =
  trxMapByCcy :: ccy_map
  totalTrxAmount :: nat
  ccyCalculators :: "calculator list"

definition file_calculators :: "(string \<times> calculator) list \<Rightarrow> ccy_map" where
  "file_calculators cs =
     foldl (\<lambda>m (k, v). setCcyCalculator k v m) [] (zip (map fst cs) [0..<length cs])"

definition getTrxMapByCcy :: "tax_env \<Rightarrow> trx list \<Rightarrow> trx_ccy_map" where
  "getTrxMapByCcy env ts =
     (let cs = all_calculators env 0 ts;
          (m, total) = placeTriangulationCcyAtStart (file_calculators cs)
      in \<lparr>trxMapByCcy = m, totalTrxAmount = total, ccyCalculators = map snd cs\<rparr>)"

definition getCcyPairForConversion :: "string \<Rightarrow> calculator \<Rightarrow> string" where
  "getCcyPairForConversion symb c =
     (let sep = (if 3 < length symb then '':'' else '''')
      in if kindOfCcyForTriangulation c = Some IS_FOREX_CCY_FOR_TRIANGULATION
         then ''t'' @ CRYPTO_CCY_FOR_TRIANGULATION @ sep @ symb
         else ''t'' @ symb @ sep @ ''USD'')"

subsection \<open>Every calculator is filed once, and triangulation comes first\<close>

definition filed :: "ccy_map \<Rightarrow> nat list" where
  "filed m = concat (map snd m)"

lemma calcTotal_filed: "calcTotalTrxAmount m = length (filed m)"
proof -
  have "foldl (\<lambda>acc (s, calcs). acc + length calcs) n m = n + length (filed m)" for n
    by (induction m arbitrary: n) (auto simp: filed_def)
  then show ?thesis by (simp add: calcTotalTrxAmount_def)
qed

lemma mset_filed_update:
  assumes "distinct (map_keys m)"
  shows "mset (filed (AList.update k (nullish (map_of m k) [] @ xs) m)) = mset (filed m) + mset xs"
  using assms
  by (induction m) (auto simp: filed_def map_keys_def nullish_def
      split: option.splits dest!: map_of_SomeD)

lemma mset_filed_push:
  assumes "distinct (map_keys m)"
  shows "mset (filed (setCcyCalculator k v m)) = add_mset v (mset (filed m))"
proof (cases "map_has m k")
  case True
  then show ?thesis
    using mset_filed_update[OF assms, of k "[v]"] by (simp add: setCcyCalculator_def Let_def)
next
  case False
  then have "map_of m k = None" by (simp add: map_has_def)
  then have "mset (filed (AList.update k [] m)) = mset (filed m)"
    using mset_filed_update[OF assms, of k "[]"] by simp
  then show ?thesis
    using False mset_filed_update[OF distinct_keys_update[OF assms], of k k "[]" "[v]"]
    by (simp add: setCcyCalculator_def Let_def)
qed

lemma filed_file_calculators:
  "mset (filed (file_calculators cs)) = mset [0..<length cs]"
  "distinct (map_keys (file_calculators cs))"
proof -
  have "distinct (map_keys m) \<Longrightarrow> mset (filed (foldl (\<lambda>m (k, v). setCcyCalculator k v m) m kvs)) =
      mset (filed m) + mset (map snd kvs)" for m kvs
    by (induction kvs arbitrary: m) (auto simp: mset_filed_push ccy.push_distinct)
  from this[of "[]" "zip (map fst cs) [0..<length cs]"]
  show "mset (filed (file_calculators cs)) = mset [0..<length cs]"
    by (simp add: file_calculators_def filed_def map_keys_def del: mset_map)
  show "distinct (map_keys (file_calculators cs))"
    unfolding file_calculators_def by (rule ccy.push_all_distinct) (simp add: map_keys_def)
qed

lemma mset_filed_delete:
  assumes "distinct (map_keys m)" "map_of m k = Some cs"
  shows "mset (filed ((k, cs) # AList.delete k m)) = mset (filed m)"
  using assms
  by (induction m) (auto simp: filed_def map_keys_def delete_id split: if_splits)

lemma filed_place:
  assumes "distinct (map_keys m)"
  shows "mset (filed (fst (placeTriangulationCcyAtStart m))) = mset (filed m)"
    and "snd (placeTriangulationCcyAtStart m) = length (filed m)"
proof -
  show eq: "mset (filed (fst (placeTriangulationCcyAtStart m))) = mset (filed m)"
    using mset_filed_delete[OF assms, of CRYPTO_CCY_FOR_TRIANGULATION]
    by (simp add: placeTriangulationCcyAtStart_def Let_def split: option.split)
  have "snd (placeTriangulationCcyAtStart m) = length (filed (fst (placeTriangulationCcyAtStart m)))"
    by (simp add: placeTriangulationCcyAtStart_def Let_def calcTotal_filed split: option.split)
  with eq show "snd (placeTriangulationCcyAtStart m) = length (filed m)"
    by (metis size_mset)
qed

lemma trx_calculators_trx:
  "trx_calculators env n t \<noteq> [] \<and> (\<forall>c\<in>set (trx_calculators env n t). calcTrx (snd c) = oid t)"
  by (simp add: trx_calculators_def Let_def by_first_def by_last_def plain_calculator_def)

lemma all_calculators_trx: "(calcTrx \<circ> snd) ` set (all_calculators env n ts) = oid ` set ts"
proof (induction ts arbitrary: n)
  case (Cons t ts)
  have "(calcTrx \<circ> snd) ` set (trx_calculators env n t) = {oid t}"
    using trx_calculators_trx[of env n t] by (cases "trx_calculators env n t") force+
  then show ?case using Cons by (simp add: Let_def image_Un)
qed simp

text \<open>
  The map covers the work exactly once. Each calculator created for the transactions is filed
  under one currency, once; the total that the progress is measured against is their number; and
  the transactions the calculators price are exactly the given ones.
\<close>

theorem getTrxMapByCcy_total:
  "mset (filed (trxMapByCcy (getTrxMapByCcy env ts))) =
     mset [0..<length (ccyCalculators (getTrxMapByCcy env ts))]
   \<and> totalTrxAmount (getTrxMapByCcy env ts) = length (ccyCalculators (getTrxMapByCcy env ts))
   \<and> calcTrx ` set (ccyCalculators (getTrxMapByCcy env ts)) = oid ` set ts"
proof -
  let ?cs = "all_calculators env 0 ts"
  note filing = filed_file_calculators[of ?cs]
  have "length (filed (file_calculators ?cs)) = length ?cs"
    using filing(1) by (metis size_mset length_upt diff_zero)
  then show ?thesis
    using filing filed_place[of "file_calculators ?cs"] all_calculators_trx[of env 0 ts]
    by (cases "placeTriangulationCcyAtStart (file_calculators ?cs)")
      (simp add: getTrxMapByCcy_def Let_def image_comp)
qed

lemma triangulation_pair:
  assumes "j < length (all_calculators env n ts)"
    and "kindOfCcyForTriangulation (snd (all_calculators env n ts ! j)) =
      Some IS_FOREX_CCY_FOR_TRIANGULATION"
  shows "\<exists>i. j = Suc i \<and> triangulationCcyCalculator (snd (all_calculators env n ts ! j)) = Some (n + i)
    \<and> fst (all_calculators env n ts ! i) = CRYPTO_CCY_FOR_TRIANGULATION
    \<and> kindOfCcyForTriangulation (snd (all_calculators env n ts ! i)) =
        Some IS_CRYPTO_CCY_FOR_TRIANGULATION
    \<and> calcTrx (snd (all_calculators env n ts ! i)) = calcTrx (snd (all_calculators env n ts ! j))"
  using assms
proof (induction ts arbitrary: n j)
  case (Cons t ts)
  let ?c = "trx_calculators env n t"
  show ?case
  proof (cases "j < length ?c")
    case True
    then have "kindOfCcyForTriangulation (snd (?c ! j)) = Some IS_FOREX_CCY_FOR_TRIANGULATION"
      using Cons.prems by (simp add: Let_def nth_append)
    then have "j = Suc 0 \<and> length ?c = 2 \<and> triangulationCcyCalculator (snd (?c ! j)) = Some n
      \<and> fst (?c ! 0) = CRYPTO_CCY_FOR_TRIANGULATION
      \<and> kindOfCcyForTriangulation (snd (?c ! 0)) = Some IS_CRYPTO_CCY_FOR_TRIANGULATION
      \<and> calcTrx (snd (?c ! 0)) = calcTrx (snd (?c ! j))"
      using True
      by (auto simp: trx_calculators_def Let_def by_first_def by_last_def plain_calculator_def
          less_Suc_eq split: if_splits)
    then show ?thesis by (intro exI[of _ 0]) (auto simp: Let_def nth_append)
  next
    case False
    let ?k = "j - length ?c" and ?rest = "all_calculators env (n + length ?c) ts"
    have at: "all_calculators env n (t # ts) ! j = ?rest ! ?k"
      using False by (simp add: Let_def nth_append)
    have "?k < length ?rest" using Cons.prems(1) False by (simp add: Let_def)
    from Cons.IH[OF this] obtain i where i: "?k = Suc i"
      "triangulationCcyCalculator (snd (?rest ! ?k)) = Some (n + length ?c + i)"
      "fst (?rest ! i) = CRYPTO_CCY_FOR_TRIANGULATION"
      "kindOfCcyForTriangulation (snd (?rest ! i)) = Some IS_CRYPTO_CCY_FOR_TRIANGULATION"
      "calcTrx (snd (?rest ! i)) = calcTrx (snd (?rest ! ?k))"
      using Cons.prems(2) at by auto
    have "all_calculators env n (t # ts) ! (length ?c + i) = ?rest ! i"
      by (simp add: Let_def nth_append)
    with i at False show ?thesis
      by (intro exI[of _ "length ?c + i"]) (auto simp del: all_calculators.simps)
  qed
qed simp

definition precedes :: "'a list \<Rightarrow> 'a \<Rightarrow> 'a \<Rightarrow> bool" where
  "precedes xs a b \<longleftrightarrow> (\<exists>ys zs. xs = ys @ zs \<and> a \<in> set ys \<and> b \<in> set zs)"

lemma precedes_sorted:
  assumes "sorted_wrt (<) xs" "a \<in> set xs" "b \<in> set xs" "a < (b::nat)"
  shows "precedes (xs @ zs) a b"
proof -
  obtain us vs where xs: "xs = us @ a # vs" using assms(2) by (meson split_list)
  with assms have "b \<in> set vs" by (auto simp: sorted_wrt_append)
  with xs show ?thesis
    unfolding precedes_def by (intro exI[of _ "us @ [a]"] exI[of _ "vs @ zs"]) simp
qed

text \<open>
  A triangulation finds its crypto price. Walking the map in its order (which is the order of
  the conversion), the crypto calculator that a forex calculator refers to has been visited
  before it, so the price it needs is set by then.
\<close>

theorem getTrxMapByCcy_triangulation_order:
  assumes "j < length (ccyCalculators (getTrxMapByCcy env ts))"
    and "kindOfCcyForTriangulation (ccyCalculators (getTrxMapByCcy env ts) ! j) =
      Some IS_FOREX_CCY_FOR_TRIANGULATION"
  shows "\<exists>k. triangulationCcyCalculator (ccyCalculators (getTrxMapByCcy env ts) ! j) = Some k
    \<and> kindOfCcyForTriangulation (ccyCalculators (getTrxMapByCcy env ts) ! k) =
        Some IS_CRYPTO_CCY_FOR_TRIANGULATION
    \<and> precedes (filed (trxMapByCcy (getTrxMapByCcy env ts))) k j"
proof -
  let ?cs = "all_calculators env 0 ts"
  let ?m = "file_calculators ?cs" and ?btc = "CRYPTO_CCY_FOR_TRIANGULATION"
  have calcs: "ccyCalculators (getTrxMapByCcy env ts) = map snd ?cs"
    by (simp add: getTrxMapByCcy_def Let_def split: prod.splits)
  from assms have j: "j < length ?cs" by (simp add: calcs)
  then obtain i where i: "j = Suc i" "triangulationCcyCalculator (snd (?cs ! j)) = Some i"
    "fst (?cs ! i) = ?btc"
    "kindOfCcyForTriangulation (snd (?cs ! i)) = Some IS_CRYPTO_CCY_FOR_TRIANGULATION"
    using triangulation_pair[of j env 0 ts] assms(2) by (auto simp: calcs)
  let ?ids = "map snd (filter (\<lambda>(k', v). k' = ?btc) (zip (map fst ?cs) [0..<length ?cs]))"
  have ids: "nullish (map_of ?m ?btc) [] = ?ids"
    unfolding file_calculators_def by (subst ccy.push_all_groups) simp
  have iid: "i \<in> set ?ids"
  proof -
    have "zip (map fst ?cs) [0..<length ?cs] ! i \<in> set (zip (map fst ?cs) [0..<length ?cs])"
      using i(1) j by (intro nth_mem) simp
    moreover have "zip (map fst ?cs) [0..<length ?cs] ! i = (?btc, i)"
      using i(1,3) j by simp
    ultimately have "(?btc, i) \<in> set (zip (map fst ?cs) [0..<length ?cs])" by simp
    then have "(?btc, i) \<in> set (filter (\<lambda>(k', v). k' = ?btc) (zip (map fst ?cs) [0..<length ?cs]))"
      by simp
    then have "snd (?btc, i) \<in> set ?ids" unfolding set_map by (rule imageI)
    then show ?thesis by simp
  qed
  have "map_of ?m ?btc \<noteq> None"
  proof
    assume "map_of ?m ?btc = None"
    with ids have "?ids = []" by simp
    from iid[unfolded this] show False by simp
  qed
  then obtain bs where bs: "map_of ?m ?btc = Some bs" "bs = ?ids"
    using ids by auto
  have "sorted_wrt (<) (map snd (zip (map fst ?cs) [0..<length ?cs]))" by simp
  then have sorted: "sorted_wrt (<) bs"
    unfolding bs(2) sorted_wrt_map by (rule sorted_wrt_filter)
  have m: "trxMapByCcy (getTrxMapByCcy env ts) = (?btc, bs) # AList.delete ?btc ?m"
    by (simp add: getTrxMapByCcy_def Let_def placeTriangulationCcyAtStart_def bs(1))
  have "j \<in> set (filed (trxMapByCcy (getTrxMapByCcy env ts)))"
    using getTrxMapByCcy_total[of env ts] assms(1)
    by (metis atLeastLessThan_iff le0 mset_eq_setD set_upt)
  then have "j \<in> set bs \<or> j \<in> set (filed (AList.delete ?btc ?m))" by (auto simp: m filed_def)
  then have "precedes (filed (trxMapByCcy (getTrxMapByCcy env ts))) i j"
  proof
    assume "j \<in> set bs"
    then show ?thesis
      using precedes_sorted[OF sorted] iid i(1) by (simp add: m filed_def bs(2))
  next
    assume "j \<in> set (filed (AList.delete ?btc ?m))"
    then show ?thesis
      using iid bs(2) unfolding precedes_def
      by (intro exI[of _ bs] exI[of _ "filed (AList.delete ?btc ?m)"]) (simp add: m filed_def)
  qed
  then show ?thesis using i j by (auto simp: calcs)
qed

lemma getTrxMapByCcy_triangulation_order_witness:
  "\<exists>k. triangulationCcyCalculator (ccyCalculators (getTrxMapByCcy sample_env
       [(sample_trade 1 20 1 1 0)\<lparr>firstSymb := ''EUR'', lastSymb := ''USD''\<rparr>]) ! 1) = Some k
   \<and> precedes (filed (trxMapByCcy (getTrxMapByCcy sample_env
       [(sample_trade 1 20 1 1 0)\<lparr>firstSymb := ''EUR'', lastSymb := ''USD''\<rparr>]))) k 1"
proof -
  let ?ts = "[(sample_trade 1 20 1 1 0)\<lparr>firstSymb := ''EUR'', lastSymb := ''USD''\<rparr>]"
  have "1 < length (ccyCalculators (getTrxMapByCcy sample_env ?ts))" by code_simp
  moreover have "kindOfCcyForTriangulation (ccyCalculators (getTrxMapByCcy sample_env ?ts) ! 1) =
    Some IS_FOREX_CCY_FOR_TRIANGULATION" by code_simp
  ultimately show ?thesis
    using getTrxMapByCcy_triangulation_order[of 1 sample_env ?ts] by blast
qed

end
