(* ===== verification/Tax_LookUp_Inv.thy ===== *)
theory Tax_LookUp_Inv
  imports Tax_Samples
begin

text \<open>
  What every pass of the two loops of \<^verbatim>\<open>look-up-trades.js\<close> keeps: the data of each deal
  (identity, amounts, prices, symbols), the bounds on the filled amounts, and, per asset, the
  balance between what lots gave and what sales took.
\<close>

subsection \<open>The data of a deal, and the balance of an asset\<close>

definition deal ::
  "tax_env \<Rightarrow> trx \<Rightarrow> (nat \<times> int \<times> string \<times> rat option \<times> rat option) \<times> (string \<times> string)
     \<times> rat option \<times> rat option \<times> bool \<times> trx_tax_type \<times> bool" where
  "deal env t =
     ((oid t, mtsCreate t, symbol t, execAmount t, execPrice t), symb_pair env t,
      firstSymbPriceUsd t, lastSymbPriceUsd t, isTaxablePayment t, getTrxTaxType t,
      isBuyTradesWithUnrealizedProfitForPrevPeriod t)"

definition sold_asset :: "tax_env \<Rightarrow> trx \<Rightarrow> string" where
  "sold_asset env t = (if amt t < 0 then fst (symb_pair env t) else snd (symb_pair env t))"

definition bought_asset :: "tax_env \<Rightarrow> trx \<Rightarrow> string" where
  "bought_asset env t = (if 0 < amt t then fst (symb_pair env t) else snd (symb_pair env t))"

definition net_of :: "tax_env \<Rightarrow> string \<Rightarrow> trx \<Rightarrow> rat" where
  "net_of env a t =
     (if bought_asset env t = a then buy_filled t else 0)
     - (if sold_asset env t = a then sale_filled t else 0)"

definition balance :: "tax_env \<Rightarrow> string \<Rightarrow> trx list \<Rightarrow> rat" where
  "balance env a ts = sum_list (map (net_of env a) ts)"

definition amounts_ok :: "trx \<Rightarrow> bool" where
  "amounts_ok t \<longleftrightarrow>
     0 \<le> sale_filled t \<and> sale_filled t \<le> sale_amount_of t
     \<and> 0 \<le> buy_filled t \<and> buy_filled t \<le> buy_amount_of t
     \<and> (sale_hist_filled t \<longrightarrow> sale_filled t = sale_amount_of t)
     \<and> (buy_hist_filled t \<longrightarrow> buy_filled t = buy_amount_of t)"

lemma amounts_nonneg [simp]: "0 \<le> sale_amount_of t" "0 \<le> buy_amount_of t"
  by (simp_all add: sale_amount_of_def buy_amount_of_def)

lemma symb_pair_set_pair [simp]: "symb_pair env (set_pair env t) = symb_pair env t"
  by (simp add: symb_pair_def set_pair_def)

lemma pair_of_set_pair [simp]:
  "firstSymb (set_pair env t) = fst (symb_pair env t)"
  "lastSymb (set_pair env t) = snd (symb_pair env t)"
  by (simp_all add: set_pair_def)

text \<open>
  The bookkeeping of a trade: what the invariant needs of it. Two trades with the same
  bookkeeping are interchangeable for the invariant.
\<close>

definition book :: "tax_env \<Rightarrow> trx \<Rightarrow> _" where
  "book env t = (deal env t, sale_filled t, buy_filled t, sale_hist_filled t, buy_hist_filled t)"

lemma symb_pair_cong:
  "firstSymb t = firstSymb u \<Longrightarrow> lastSymb t = lastSymb u \<Longrightarrow> symbol t = symbol u
   \<Longrightarrow> symb_pair env t = symb_pair env u"
  by (simp add: symb_pair_def)

lemmas read_defs = amt_def prc_def sale_filled_def buy_filled_def sale_hist_filled_def
  buy_hist_filled_def getTrxTaxType_def

lemma book_amounts:
  assumes "book env t = book env u"
  shows "amounts_ok t = amounts_ok u" "net_of env a t = net_of env a u" "deal env t = deal env u"
  using assms
  by (auto simp: book_def deal_def amounts_ok_def net_of_def sale_amount_of_def buy_amount_of_def
      amt_def prc_def bought_asset_def sold_asset_def)

lemma book_init_trade [simp]: "book env (init_trade t) = book env t"
  by (simp add: book_def deal_def init_trade_def symb_pair_def read_defs)

lemma book_init_lot [simp]: "book env (init_lot t) = book env t"
  by (simp add: book_def deal_def init_lot_def symb_pair_def read_defs)

lemma book_set_pair [simp]: "book env (set_pair env t) = book env t"
proof -
  have "symb_pair env (set_pair env t) = symb_pair env t" by simp
  then show ?thesis
    unfolding book_def deal_def by (simp add: read_defs set_pair_def)
qed

lemma book_classify [simp]: "book env (classify_trade env t) = book env t"
  by (simp add: book_def deal_def classify_trade_def symb_pair_def read_defs Let_def)

lemma book_flags [simp]:
  "book env (t\<lparr>noPriceUsd := b\<rparr>) = book env t"
  "book env (t\<lparr>isBuyTrx := c\<rparr>) = book env t"
  "book env (t\<lparr>cumulativeTrxFeesUsd := r\<rparr>) = book env t"
  "book env (t\<lparr>buyTrxsForRealizedProfit := bs\<rparr>) = book env t"
  "book env (t\<lparr>saleTrxsForRealizedProfit := bs\<rparr>) = book env t"
  by (simp_all add: book_def deal_def symb_pair_def read_defs)

lemma book_finish_sale [simp]: "book env (finish_sale a p s t) = book env t"
  by (simp add: book_def deal_def finish_sale_def symb_pair_def read_defs)

lemma book_close_lot [simp]: "book env (close_lot t a b p l) = book env l"
  by (simp add: book_def deal_def close_lot_def symb_pair_def read_defs)

lemma book_link_refs [simp]:
  "book env (fst (link_refs t l)) = book env t" "book env (snd (link_refs t l)) = book env l"
  by (simp_all add: link_refs_def)

lemma book_fields:
  assumes "book env t = book env u"
  shows "amt t = amt u" "prc t = prc u" "sale_amount_of t = sale_amount_of u"
    "buy_amount_of t = buy_amount_of u" "buy_filled t = buy_filled u"
    "sale_filled t = sale_filled u" "symb_pair env t = symb_pair env u"
    "bought_asset env t = bought_asset env u" "sold_asset env t = sold_asset env u"
    "mtsCreate t = mtsCreate u" "oid t = oid u" "sale_hist_filled t = sale_hist_filled u"
    "buy_hist_filled t = buy_hist_filled u" "buy_price_of opts t = buy_price_of opts u"
    "sale_price_of opts t = sale_price_of opts u"
  using assms
  by (auto simp: book_def deal_def amt_def prc_def sale_amount_of_def buy_amount_of_def
      bought_asset_def sold_asset_def buy_price_of_def sale_price_of_def)

subsection \<open>Filling keeps the books\<close>

text \<open>
  One fill moves the same amount on both sides: the amount \<open>min\<close> of what the lot has left and
  what the sale still needs.
\<close>

lemma fill_from_lot_sides:
  fixes env opts sAmt sp bAmt bp t l
  defines "r \<equiv> fill_from_lot env opts sAmt sp bAmt bp t l"
  shows "sale_filled (fst r) =
      sale_filled t + min (sAmt - sale_filled t) (bAmt - buy_filled l)"
    and "buy_filled (snd r) =
      buy_filled l + min (sAmt - sale_filled t) (bAmt - buy_filled l)"
    and "buy_filled (fst r) = buy_filled t" and "sale_filled (snd r) = sale_filled l"
    and "sale_hist_filled (fst r) \<longleftrightarrow>
      sale_hist_filled t \<or> sAmt - sale_filled t \<le> bAmt - buy_filled l"
    and "buy_hist_filled (snd r) \<longleftrightarrow>
      buy_hist_filled l \<or> bAmt - buy_filled l \<le> sAmt - sale_filled t"
    and "buy_hist_filled (fst r) = buy_hist_filled t"
    and "sale_hist_filled (snd r) = sale_hist_filled l"
    and "deal env (fst r) = deal env t" and "deal env (snd r) = deal env l"
  unfolding r_def fill_from_lot_def Let_def
  by (simp_all add: sale_filled_def buy_filled_def sale_hist_filled_def buy_hist_filled_def
      deal_def symb_pair_def getTrxTaxType_def)

lemma fill_from_lot_amounts:
  assumes fill: "fill_from_lot env opts (sale_amount_of t) sp (buy_amount_of l) bp t l = (t', l')"
  shows "sale_filled t' = sale_filled t + min (sale_rest t) (buy_rest l)"
    and "buy_filled l' = buy_filled l + min (sale_rest t) (buy_rest l)"
    and "buy_filled t' = buy_filled t" and "sale_filled l' = sale_filled l"
    and "sale_hist_filled t' \<longleftrightarrow> sale_hist_filled t \<or> sale_rest t \<le> buy_rest l"
    and "buy_hist_filled l' \<longleftrightarrow> buy_hist_filled l \<or> buy_rest l \<le> sale_rest t"
    and "buy_hist_filled t' = buy_hist_filled t" and "sale_hist_filled l' = sale_hist_filled l"
    and "deal env t' = deal env t" and "deal env l' = deal env l"
  using fill_from_lot_sides[of env opts "sale_amount_of t" sp "buy_amount_of l" bp t l]
  unfolding fill sale_rest_def buy_rest_def by simp_all

lemma deal_amounts:
  assumes "deal env t' = deal env t"
  shows "sale_amount_of t' = sale_amount_of t" "buy_amount_of t' = buy_amount_of t"
    "bought_asset env t' = bought_asset env t" "sold_asset env t' = sold_asset env t"
  using assms
  by (auto simp: deal_def amt_def prc_def sale_amount_of_def buy_amount_of_def
      bought_asset_def sold_asset_def)

lemma fill_from_lot_ok:
  assumes fill: "fill_from_lot env opts (sale_amount_of t) sp (buy_amount_of l) bp t l = (t', l')"
    and ok: "amounts_ok t" "amounts_ok l"
  shows "amounts_ok t'" "amounts_ok l'"
proof -
  note f = fill_from_lot_amounts[OF fill]
  have rests: "0 \<le> sale_rest t" "0 \<le> buy_rest l"
    using ok by (simp_all add: amounts_ok_def sale_rest_def buy_rest_def)
  show "amounts_ok t'"
    using ok rests unfolding amounts_ok_def f(1,3,5,7) deal_amounts[OF f(9)]
    by (auto simp: sale_rest_def min_def)
  show "amounts_ok l'"
    using ok rests unfolding amounts_ok_def f(2,4,6,8) deal_amounts[OF f(10)]
    by (auto simp: buy_rest_def min_def)
qed

lemma fill_from_lot_net:
  assumes fill: "fill_from_lot env opts (sale_amount_of t) sp (buy_amount_of l) bp t l = (t', l')"
    and ok: "amounts_ok t" "amounts_ok l" and asset: "sold_asset env t = bought_asset env l"
  shows "net_of env a t' + net_of env a l' = net_of env a t + net_of env a l"
proof -
  note f = fill_from_lot_amounts[OF fill]
  show ?thesis
    unfolding net_of_def f(1-4) deal_amounts[OF f(9)] deal_amounts[OF f(10)] using asset by simp
qed

subsection \<open>The invariant of the loops\<close>

definition books_kept :: "tax_env \<Rightarrow> trx list \<Rightarrow> trx list \<Rightarrow> bool" where
  "books_kept env ts0 ts \<longleftrightarrow>
     map (deal env) ts = map (deal env) ts0 \<and> list_all amounts_ok ts
     \<and> (\<forall>a. balance env a ts = balance env a ts0)"

lemma books_kept_length: "books_kept env ts0 ts \<Longrightarrow> length ts = length ts0"
  unfolding books_kept_def by (metis length_map)

lemma books_kept_nth:
  "books_kept env ts0 ts \<Longrightarrow> i < length ts \<Longrightarrow> deal env (ts ! i) = deal env (ts0 ! i)"
  unfolding books_kept_def by (metis length_map nth_map)

lemma books_kept_refl: "list_all amounts_ok ts \<Longrightarrow> books_kept env ts ts"
  by (simp add: books_kept_def)

lemma books_kept_update:
  assumes "books_kept env ts0 ts" "i < length ts" "book env t = book env (ts ! i)"
  shows "books_kept env ts0 (ts[i := t])"
proof -
  note same = book_amounts[OF assms(3)]
  have "map (deal env) (ts[i := t]) = map (deal env) ts"
    using assms(2) same(3) by (rule map_update_same)
  moreover have "list_all amounts_ok (ts[i := t])"
    using assms(1,2) same(1) by (auto simp: books_kept_def list_all_length nth_list_update)
  moreover have "balance env a (ts[i := t]) = balance env a ts" for a
    using assms(2) same(2) by (simp add: balance_def map_update_same)
  ultimately show ?thesis using assms(1) by (simp add: books_kept_def)
qed

lemma books_kept_update2:
  assumes kept: "books_kept env ts0 ts" and ij: "i < length ts" "j < length ts" "i \<noteq> j"
    and ok: "amounts_ok t" "amounts_ok l"
    and deals: "deal env t = deal env (ts ! i)" "deal env l = deal env (ts ! j)"
    and net: "\<And>a. net_of env a t + net_of env a l = net_of env a (ts ! i) + net_of env a (ts ! j)"
  shows "books_kept env ts0 (ts[i := t, j := l])"
proof -
  have "map (deal env) (ts[i := t, j := l]) = map (deal env) ts"
    using ij deals by (simp add: map_update_same)
  moreover have "list_all amounts_ok (ts[i := t, j := l])"
    using kept ok by (simp add: books_kept_def list_all_update)
  moreover have "balance env a (ts[i := t, j := l]) = balance env a ts" for a
    using ij net[of a] by (simp add: balance_def sum_list_update_diff nth_list_update)
  ultimately show ?thesis using kept by (simp add: books_kept_def)
qed

subsection \<open>The effect of one pass of the inner loop\<close>

text \<open>The lot as the inner loop reads it once it is known to be an acquisition.\<close>

definition lot_view :: "tax_env \<Rightarrow> trx \<Rightarrow> trx" where
  "lot_view env l0 = (set_pair env (init_lot l0))\<lparr>isBuyTrx := Some True\<rparr>"

lemma book_lot_view [simp]: "book env (lot_view env l) = book env l"
  by (simp add: lot_view_def)

text \<open>The lots a sale of \<open>saleAsst\<close> can be filled from.\<close>

definition eligible :: "tax_env \<Rightarrow> lookup_opts \<Rightarrow> string \<Rightarrow> trx \<Rightarrow> bool" where
  "eligible env opts saleAsst l0 \<longleftrightarrow>
     \<not> lot_unusable opts l0 \<and> \<not> lot_no_acquisition env (lot_view env l0)
     \<and> saleAsst = buy_asset_of (lot_view env l0) \<and> buy_price_of opts l0 \<noteq> None"

text \<open>
  A pass leaves the array alone, rewrites the lot without touching its books, links the two
  trades without moving an amount because the lot has no price, or fills.
\<close>

lemma lot_step_effect:
  assumes step: "flow_state (lot_step env opts intr i saleAmt salePrice saleAsst j s) = Some s'"
  obtains (none) "trades s' = trades s" "\<not> eligible env opts saleAsst (trades s ! j)
        \<or> sale_hist_filled (trades s ! i) \<or> intr (polls s)"
  | (lot) l where "trades s' = (trades s)[j := l]" "book env l = book env (trades s ! j)"
      "l = set_pair env (init_lot (trades s ! j)) \<or> l = lot_view env (trades s ! j)"
      "\<not> eligible env opts saleAsst (trades s ! j)"
  | (unpriced) t l where "link_refs (trades s ! i) (lot_view env (trades s ! j)) = (t, l)"
      "\<not> eligible env opts saleAsst (trades s ! j)"
      "trades s' = (trades s)[i := t\<lparr>noPriceUsd := True\<rparr>, j := l]"
  | (fill) t l t' l' bp where "link_refs (trades s ! i) (lot_view env (trades s ! j)) = (t, l)"
      "eligible env opts saleAsst (trades s ! j)" "\<not> sale_hist_filled (trades s ! i)"
      "buy_price_of opts (trades s ! j) = Some bp"
      "fill_from_lot env opts saleAmt salePrice (buy_amount_of (lot_view env (trades s ! j))) bp t l
         = (t', l')"
      "trades s' = (trades s)[i := t',
         j := close_lot t' saleAsst (buy_amount_of (lot_view env (trades s ! j))) bp l']"
proof -
  let ?t = "trades s ! i" and ?old = "trades s ! j"
  let ?l = "set_pair env (init_lot ?old)" and ?v = "lot_view env ?old"
  obtain t l where link: "link_refs ?t ?v = (t, l)" by (cases "link_refs ?t ?v")
  have price: "buy_price_of opts l = buy_price_of opts ?old"
    using book_link_refs(2)[of env ?t ?v] link by (intro book_fields(14)[of env]) simp
  show thesis
  proof (cases "intr (polls s) \<or> sale_hist_filled ?t \<or> lot_unusable opts ?old")
    case True
    with step have "trades s' = trades s"
      by (auto simp: lot_step_def Let_def split: if_splits)
    with True show thesis by (intro none) (auto simp: eligible_def)
  next
    case usable: False
    have ne: "\<not> (firstSymb ?l = '''' \<or> lastSymb ?l = '''')"
      using step usable by (auto simp: lot_step_def Let_def)
    show thesis
    proof (cases "lot_no_acquisition env ?l")
      case True
      then have "\<not> eligible env opts saleAsst ?old"
        by (simp add: eligible_def lot_view_def lot_no_acquisition_def amt_def)
      moreover from True usable ne step have "trades s' = (trades s)[j := ?l]"
        by (auto simp: lot_step_def Let_def put_trade_def)
      ultimately show thesis by (intro lot[of ?l]) simp_all
    next
      case acq: False
      then have acq': "\<not> lot_no_acquisition env ?v"
        by (simp add: lot_view_def lot_no_acquisition_def amt_def)
      note stepd = step[unfolded lot_step_def Let_def put_trade_def, folded lot_view_def]
      show thesis
      proof (cases "saleAsst = buy_asset_of ?v")
        case False
        then have "\<not> eligible env opts saleAsst ?old" by (simp add: eligible_def)
        moreover from False usable ne acq stepd have "trades s' = (trades s)[j := ?v]"
          by auto
        ultimately show thesis by (intro lot[of ?v]) simp_all
      next
        case same: True
        show thesis
        proof (cases "buy_price_of opts ?old")
          case None
          then have "trades s' = ((trades s)[j := ?l])[i := t\<lparr>noPriceUsd := True\<rparr>, j := l]"
            using same usable ne acq stepd link price by auto
          then have "trades s' = (trades s)[i := t\<lparr>noPriceUsd := True\<rparr>, j := l]"
            by (cases "i = j") (simp_all add: list_update_swap)
          with None link show thesis by (intro unpriced) (auto simp: eligible_def)
        next
          case (Some bp)
          obtain t' l' where filled: "fill_from_lot env opts saleAmt salePrice (buy_amount_of ?v) bp t l
            = (t', l')" by (cases "fill_from_lot env opts saleAmt salePrice (buy_amount_of ?v) bp t l")
          have "trades s' = ((trades s)[j := ?l])[i := t',
              j := close_lot t' saleAsst (buy_amount_of ?v) bp l']"
            using Some same usable ne acq stepd link price filled by auto
          then have "trades s' = (trades s)[i := t',
              j := close_lot t' saleAsst (buy_amount_of ?v) bp l']"
            by (cases "i = j") (simp_all add: list_update_swap)
          moreover have "eligible env opts saleAsst ?old"
            using Some same usable acq' by (simp add: eligible_def)
          ultimately show thesis using Some link filled usable by (intro fill[of t l bp t' l']) simp_all
        qed
      qed
    qed
  qed
qed

end
