(* ===== verification/Tax_LookUp_Props.thy ===== *)
theory Tax_LookUp_Props
  imports Tax_LookUp_Inv
begin

text \<open>
  The properties of \<^verbatim>\<open>look-up-trades.js\<close>: the books balance, an interrupted look-up returns
  nothing, errors, the greedy specification of the inner loop, and the dates of a sale.
\<close>

subsection \<open>The books through both loops\<close>

lemma link_refs_books:
  assumes "link_refs t v = (t', l')"
  shows "book env t' = book env t" "book env l' = book env v"
  using book_link_refs[of env t v] assms by simp_all

lemma lot_step_books:
  assumes step: "flow_state (lot_step env opts intr i saleAmt sp saleAsst j s) = Some s'"
    and kept: "books_kept env ts0 (trades s)" and ij: "i < length ts0" "j < length ts0" "i \<noteq> j"
    and sale: "saleAmt = sale_amount_of (ts0 ! i)" "saleAsst = sold_asset env (ts0 ! i)"
  shows "books_kept env ts0 (trades s')"
proof -
  have len: "length (trades s) = length ts0" by (rule books_kept_length[OF kept])
  note at = books_kept_nth[OF kept]
  from step show ?thesis
  proof (cases rule: lot_step_effect)
    case none
    then show ?thesis using kept by simp
  next
    case (lot l)
    then show ?thesis using kept ij len by (simp add: books_kept_update)
  next
    case (unpriced t l)
    note b = link_refs_books[OF unpriced(1), of env]
    have "books_kept env ts0 ((trades s)[i := t\<lparr>noPriceUsd := True\<rparr>])"
      using b ij len by (simp add: books_kept_update[OF kept])
    from books_kept_update[OF this, of j l]
    show ?thesis using b ij len unpriced by simp
  next
    case (fill t l t' l' bp)
    note b = link_refs_books[OF fill(1), of env]
    have bl: "book env l = book env (trades s ! j)" using b by simp
    have ok: "amounts_ok t" "amounts_ok l"
      using kept ij len book_amounts(1)[OF b(1)] book_amounts(1)[OF bl]
      by (auto simp: books_kept_def list_all_length)
    have dt: "deal env t = deal env (ts0 ! i)"
      using at[of i] ij(1) len book_amounts(3)[OF b(1)] by simp
    have amounts: "saleAmt = sale_amount_of t"
      "buy_amount_of (lot_view env (trades s ! j)) = buy_amount_of l"
      using sale(1) deal_amounts(1)[OF dt] book_fields(4)[OF b(2)] by simp_all
    note f = fill(5)[unfolded amounts]
    have same: "sold_asset env t = bought_asset env l"
    proof -
      have "buy_asset_of (lot_view env (trades s ! j)) = bought_asset env (lot_view env (trades s ! j))"
        by (simp add: buy_asset_of_def bought_asset_def lot_view_def symb_pair_def set_pair_def amt_def)
      then have "saleAsst = bought_asset env l"
        using fill(2) book_fields(8)[OF b(2)] by (simp add: eligible_def)
      with sale(2) deal_amounts(4)[OF dt] show ?thesis by simp
    qed
    let ?l = "close_lot t' saleAsst (buy_amount_of l) bp l'"
    have bc: "book env ?l = book env l'" by simp
    have "books_kept env ts0 ((trades s)[i := t', j := ?l])"
    proof (rule books_kept_update2[OF kept _ _ ij(3)])
      show "i < length (trades s)" "j < length (trades s)" using ij len by simp_all
      show "amounts_ok t'" "amounts_ok ?l"
        using fill_from_lot_ok[OF f ok] book_amounts(1)[OF bc] by simp_all
      show "deal env t' = deal env (trades s ! i)" "deal env ?l = deal env (trades s ! j)"
        using fill_from_lot_amounts(9,10)[OF f] book_amounts(3)[OF b(1)]
          book_amounts(3)[OF bl] book_amounts(3)[OF bc] by simp_all
      show "net_of env a t' + net_of env a ?l = net_of env a (trades s ! i) + net_of env a (trades s ! j)" for a
        using fill_from_lot_net[OF f ok same, of a] book_amounts(2)[OF b(1)]
          book_amounts(2)[OF bl] book_amounts(2)[OF bc] by simp
    qed
    then show ?thesis using fill(6) amounts by simp
  qed
qed

lemma lot_loop_books:
  assumes "flow_state (for_loop (lot_step env opts intr i saleAmt sp saleAsst) js s) = Some s'"
    and "books_kept env ts0 (trades s)" and "i < length ts0" "set js \<subseteq> {..<length ts0} - {i}"
    and "saleAmt = sale_amount_of (ts0 ! i)" "saleAsst = sold_asset env (ts0 ! i)"
  shows "books_kept env ts0 (trades s')"
proof (rule for_loop_invariant[where P = "\<lambda>s. books_kept env ts0 (trades s)", OF _ assms(2,1)])
  fix j s1 s2
  assume j: "j \<in> set js" and kept: "books_kept env ts0 (trades s1)"
    and step: "flow_state (lot_step env opts intr i saleAmt sp saleAsst j s1) = Some s2"
  from j assms(4) have "j < length ts0" "i \<noteq> j" by auto
  from lot_step_books[OF step kept assms(3) this assms(5,6)]
  show "books_kept env ts0 (trades s2)" .
qed

lemma set_lot_indices: "set (lot_indices opts n i) = {Suc i..<n}"
  by (simp add: lot_indices_def)

lemma set_sale_indices: "set (sale_indices opts n) = {..<n}"
  by (auto simp: sale_indices_def)

text \<open>The outer loop's trade after the guards, classified.\<close>

definition sale_view :: "tax_env \<Rightarrow> trx \<Rightarrow> trx" where
  "sale_view env t = classify_trade env (set_pair env (init_trade t))"

lemma book_sale_view [simp]: "book env (sale_view env t) = book env t"
  by (simp add: sale_view_def)

lemma sale_asset_of_view: "sale_asset_of (sale_view env t) = sold_asset env t"
proof -
  have "sold_asset env (sale_view env t) = sold_asset env t"
    by (rule book_fields(9)[OF book_sale_view])
  moreover have "sale_asset_of (sale_view env t) = sold_asset env (sale_view env t)"
    by (simp add: sale_view_def sale_asset_of_def sold_asset_def classify_trade_def Let_def
        set_pair_def symb_pair_def amt_def)
  ultimately show ?thesis by simp
qed

lemma put_trade_trades: "trades (put_trade i t s) = (trades s)[i := t]"
  by (simp add: put_trade_def)

lemma sale_step_effect:
  assumes step: "flow_state (sale_step env opts intr i s) = Some s'"
  obtains (same) t where "trades s' = (trades s)[i := t] \<or> trades s' = trades s"
      "book env t = book env (trades s ! i)"
      "t = init_trade (trades s ! i)
       \<or> (t = sale_view env (trades s ! i) \<and> (\<not> nullish (isSaleTrx t) False
            \<or> isBuyTradesWithUnrealizedProfitForPrevPeriod t))
       \<or> t = (sale_view env (trades s ! i))\<lparr>noPriceUsd := True\<rparr>"
  | (loop) t sp s2 r where "t = (sale_view env (trades s ! i))\<lparr>cumulativeTrxFeesUsd :=
        Some (getTrxFeeUsd (sale_view env (trades s ! i)) opts)\<rparr>"
      "trades s2 = (trades s)[i := t]"
      "sale_price_of opts (trades s ! i) = Some sp"
      "r = for_loop (lot_step env opts intr i (sale_amount_of (sale_view env (trades s ! i))) sp
         (sale_asset_of (sale_view env (trades s ! i)))) (lot_indices opts (length (trades s)) i) s2"
      "(r = Ret s' \<and> sale_step env opts intr i s = Ret s') \<or> (\<exists>s3. r = Go s3 \<and> trades s' = (trades s3)[i := finish_sale
         (sale_amount_of (sale_view env (trades s ! i))) sp
         (sale_asset_of (sale_view env (trades s ! i))) (trades s3 ! i)])"
proof -
  let ?t = "trades s ! i"
  let ?v = "sale_view env ?t"
  note stepd = step[unfolded sale_step_def Let_def put_trade_def, folded sale_view_def]
  have price: "sale_price_of opts ?v = sale_price_of opts ?t"
    by (rule book_fields(15)[OF book_sale_view])
  show thesis
  proof (cases "intr (polls s) \<or> trade_unusable opts (init_trade ?t)
      \<or> \<not> nullish (isSaleTrx ?v) False \<or> isBuyTradesWithUnrealizedProfitForPrevPeriod ?v")
    case skip: True
    show thesis
    proof (cases "intr (polls s) \<or> trade_unusable opts (init_trade ?t)")
      case True
      with stepd have "trades s' = (trades s)[i := init_trade ?t] \<or> trades s' = trades s"
        by (auto split: if_splits)
      then show thesis by (rule same) simp_all
    next
      case False
      with skip stepd have "trades s' = (trades s)[i := ?v] \<or> trades s' = trades s" by auto
      then show thesis by (rule same) (use skip False in simp_all)
    qed
  next
    case go: False
    then have ne: "\<not> (firstSymb ?v = '''' \<or> lastSymb ?v = '''')" using stepd by auto
    show thesis
    proof (cases "sale_price_of opts ?t")
      case None
      then show thesis
        using go ne stepd price by (intro same[of "?v\<lparr>noPriceUsd := True\<rparr>"]) auto
    next
      case (Some sp)
      let ?w = "?v\<lparr>cumulativeTrxFeesUsd := Some (getTrxFeeUsd ?v opts)\<rparr>"
      let ?s2 = "put_trade i ?w (put_trade i ?v (s\<lparr>polls := Suc (polls s)\<rparr>))"
      let ?sa = "sale_amount_of ?v" and ?asst = "sale_asset_of ?v"
      let ?r = "for_loop (lot_step env opts intr i ?sa sp ?asst) (lot_indices opts (length (trades s)) i) ?s2"
      have eq: "sale_step env opts intr i s = (case ?r of
          Go s3 \<Rightarrow> Go (put_trade i (finish_sale ?sa sp ?asst (trades s3 ! i)) s3)
        | Brk s3 \<Rightarrow> Brk s3 | Ret s3 \<Rightarrow> Ret s3 | Throw e \<Rightarrow> Throw e)"
        using go ne Some price
        by (simp add: sale_step_def Let_def sale_view_def put_trade_trades cong: flow.case_cong)
      show thesis
      proof (rule loop[of ?w ?s2 sp ?r])
        show "(?r = Ret s' \<and> sale_step env opts intr i s = Ret s') \<or> (\<exists>s3. ?r = Go s3 \<and>
            trades s' = (trades s3)[i := finish_sale ?sa sp ?asst (trades s3 ! i)])"
          using step unfolding eq by (cases ?r) (auto simp: put_trade_def)
      qed (use Some in \<open>simp_all add: put_trade_def\<close>)
    qed
  qed
qed

lemma sale_step_books:
  assumes step: "flow_state (sale_step env opts intr i s) = Some s'"
    and kept: "books_kept env ts0 (trades s)" and i: "i < length ts0"
  shows "books_kept env ts0 (trades s')"
proof -
  have len: "length (trades s) = length ts0" by (rule books_kept_length[OF kept])
  note d = books_kept_nth[OF kept, of i]
  from step show ?thesis
  proof (cases rule: sale_step_effect)
    case (same t)
    then show ?thesis using kept i len books_kept_update[OF kept, of i t] by (elim disjE) simp_all
  next
    case (loop t sp s2 r)
    have start: "books_kept env ts0 (trades s2)"
      unfolding loop(2) using i len by (simp add: books_kept_update[OF kept] loop(1))
    have di: "deal env (trades s ! i) = deal env (ts0 ! i)" using d i len by simp
    have amounts: "sale_amount_of (sale_view env (trades s ! i)) = sale_amount_of (ts0 ! i)"
      "sale_asset_of (sale_view env (trades s ! i)) = sold_asset env (ts0 ! i)"
      using deal_amounts(1,4)[OF di] book_fields(3)[OF book_sale_view[of env "trades s ! i"]]
      by (simp_all add: sale_asset_of_view)
    have kept': "books_kept env ts0 (trades s3)" if "flow_state r = Some s3" for s3
    proof -
      have "set (lot_indices opts (length (trades s)) i) \<subseteq> {..<length ts0} - {i}"
        using len by (auto simp: set_lot_indices)
      from lot_loop_books[OF that[unfolded loop(4)] start i this amounts] show ?thesis .
    qed
    from loop(5) show ?thesis
    proof (elim disjE exE conjE)
      assume "r = Ret s'"
      then show ?thesis by (intro kept') simp
    next
      fix s3
      assume s3: "r = Go s3" "trades s' = (trades s3)[i := finish_sale
        (sale_amount_of (sale_view env (trades s ! i))) sp
         (sale_asset_of (sale_view env (trades s ! i))) (trades s3 ! i)]"
      then have k: "books_kept env ts0 (trades s3)" by (intro kept') simp
      show ?thesis
        unfolding s3(2) using i books_kept_length[OF k] by (simp add: books_kept_update[OF k])
    qed
  qed
qed

lemma sale_loop_books:
  assumes "flow_state (for_loop (sale_step env opts intr) (sale_indices opts (length (trades s))) s)
      = Some s'" and "list_all amounts_ok (trades s)"
  shows "books_kept env (trades s) (trades s')"
proof (rule for_loop_invariant[where P = "\<lambda>s1. books_kept env (trades s) (trades s1)",
      OF _ books_kept_refl[OF assms(2)] assms(1)])
  fix i s1 s2
  assume i: "i \<in> set (sale_indices opts (length (trades s)))"
    and kept: "books_kept env (trades s) (trades s1)"
    and step: "flow_state (sale_step env opts intr i s1) = Some s2"
  from i have "i < length (trades s)" by (simp add: set_sale_indices)
  from sale_step_books[OF step kept this] show "books_kept env (trades s) (trades s2)" .
qed

lemma book_mark_open_lot:
  "sale_filled (mark_open_lot opts t) = sale_filled t" "buy_filled (mark_open_lot opts t) = buy_filled t"
  "amounts_ok (mark_open_lot opts t) = amounts_ok t" "net_of env a (mark_open_lot opts t) = net_of env a t"
  by (simp_all add: mark_open_lot_def read_defs amounts_ok_def net_of_def sale_amount_of_def
      buy_amount_of_def bought_asset_def sold_asset_def symb_pair_def)

lemma lookUpTrades_cases:
  assumes "lookUpTrades env opts intr s = Inr (res, s')"
  obtains (empty) "trades s = []" "res = no_result" "s' = s"
  | (interrupted) "for_loop (sale_step env opts intr) (sale_indices opts (length (trades s))) s = Ret s'"
      "res = no_result"
  | (finished) s1 where
      "for_loop (sale_step env opts intr) (sale_indices opts (length (trades s))) s = Go s1"
      "collect_result env opts s1 = (res, s')"
  using assms by (auto simp: lookUpTrades_def split: if_splits flow.splits)

text \<open>
  C1: the books balance. Whatever the direction and the options, and also when the look-up is
  interrupted, for every asset the amount that sales took equals the amount that lots gave
  (relative to the state before), and no side is ever filled beyond its amount.
\<close>

theorem lookUpTrades_balance:
  assumes "lookUpTrades env opts intr s = Inr (res, s')"
    and "list_all amounts_ok (trades s)"
  shows "balance env a (trades s') = balance env a (trades s) \<and> list_all amounts_ok (trades s')"
  using assms(1)
proof (cases rule: lookUpTrades_cases)
  case empty
  then show ?thesis using assms(2) by simp
next
  case interrupted
  then show ?thesis
    using sale_loop_books[OF _ assms(2), of env opts intr s'] by (auto simp: books_kept_def)
next
  case (finished s1)
  have "books_kept env (trades s) (trades s1)"
    using sale_loop_books[OF _ assms(2), of env opts intr s1] finished(1) by simp
  then show ?thesis
    using finished(2) by (auto simp: books_kept_def collect_result_def Let_def balance_def list.pred_map
        comp_def book_mark_open_lot)
qed

lemma sample_amounts_ok: "list_all amounts_ok (trades sample_state)"
  by code_simp

lemma lookUpTrades_balance_witness:
  "\<exists>res s'. lookUpTrades sample_env sample_opts (\<lambda>_. False) sample_state = Inr (res, s')
     \<and> balance sample_env ''BTC'' (trades s') = balance sample_env ''BTC'' (trades sample_state)"
proof -
  obtain res s' where run:
    "lookUpTrades sample_env sample_opts (\<lambda>_. False) sample_state = Inr (res, s')"
    by (rule sample_run)
  from lookUpTrades_balance[OF run sample_amounts_ok] run show ?thesis by blast
qed

subsection \<open>Interruption\<close>

definition quiet :: "(nat \<Rightarrow> bool) \<Rightarrow> lookup_state \<Rightarrow> lookup_state \<Rightarrow> bool" where
  "quiet intr s s' \<longleftrightarrow>
     polls s \<le> polls s' \<and> (\<forall>k. polls s \<le> k \<and> k < polls s' \<longrightarrow> \<not> intr k)"

lemma quiet_refl [simp]: "quiet intr s s"
  by (auto simp: quiet_def)

lemma quiet_trans: "quiet intr s1 s2 \<Longrightarrow> quiet intr s2 s3 \<Longrightarrow> quiet intr s1 s3"
  by (auto simp: quiet_def) (meson not_le)

lemma polls_put_trade [simp]: "polls (put_trade i t s) = polls s"
  by (simp add: put_trade_def)

lemma quiet_Suc: "\<not> intr (polls s) \<Longrightarrow> polls s' = Suc (polls s) \<Longrightarrow> quiet intr s s'"
  by (auto simp: quiet_def less_Suc_eq)

lemma lot_step_quiet:
  assumes "lot_step env opts intr i saleAmt sp saleAsst j s = Go s'
    \<or> lot_step env opts intr i saleAmt sp saleAsst j s = Brk s'"
  shows "quiet intr s s'"
  using assms
  by (intro quiet_Suc) (auto simp: lot_step_def Let_def split: if_splits prod.splits option.splits)

lemma sale_step_quiet:
  assumes "sale_step env opts intr i s = Go s' \<or> sale_step env opts intr i s = Brk s'"
  shows "quiet intr s s'"
proof -
  have loop: "quiet intr s1 s2"
    if "for_loop (lot_step env opts intr i saleAmt sp saleAsst) js s1 = Go s2"
    for saleAmt sp saleAsst js s1 s2
    using that by (rule for_loop_rel) (auto intro: lot_step_quiet quiet_trans)
  have "\<not> intr (polls s)" using assms by (auto simp: sale_step_def Let_def)
  moreover have "polls s' = Suc (polls s) \<or> (\<exists>s1 s2. polls s1 = Suc (polls s) \<and> polls s' = polls s2
      \<and> quiet intr s1 s2)"
    using assms
    by (auto simp: sale_step_def Let_def split: if_splits option.splits flow.splits dest!: loop)
  ultimately show ?thesis
  proof (elim disjE exE conjE)
    fix s1 s2
    assume "\<not> intr (polls s)" "polls s1 = Suc (polls s)" "polls s' = polls s2" "quiet intr s1 s2"
    then show ?thesis
      using quiet_trans[OF quiet_Suc[of intr s s1], of s2] by (simp add: quiet_def)
  qed (rule quiet_Suc)
qed

text \<open>
  An interrupted look-up returns nothing. If the interrupter answered "interrupted" at any of
  the polls the call made, the result holds no row and no open lot.
\<close>

theorem lookUpTrades_interrupted:
  assumes "lookUpTrades env opts intr s = Inr (res, s')"
    and "polls s \<le> k" "k < polls s'" "intr k"
  shows "res = no_result"
  using assms(1)
proof (cases rule: lookUpTrades_cases)
  case (finished s1)
  from finished(1) have "quiet intr s s1"
    by (rule for_loop_rel) (auto intro: sale_step_quiet quiet_trans)
  moreover have "polls s' = polls s1"
    using finished(2) by (auto simp: collect_result_def Let_def)
  ultimately show ?thesis using assms(2-4) by (auto simp: quiet_def)
qed simp_all

lemma lookUpTrades_interrupted_witness:
  "\<exists>res s'. lookUpTrades sample_env sample_opts (\<lambda>k. k = 1) sample_state = Inr (res, s')
     \<and> res = no_result"
proof -
  obtain res s' where run:
    "lookUpTrades sample_env sample_opts (\<lambda>k. k = 1) sample_state = Inr (res, s')" "polls s' = 2"
    by (rule sample_interrupted_run)
  have "res = no_result"
    by (rule lookUpTrades_interrupted[OF run(1), of 1]) (simp_all add: run(2) sample_state_def)
  with run show ?thesis by blast
qed

subsection \<open>Errors\<close>

lemma lot_step_throw:
  "lot_step env opts intr i saleAmt sp saleAsst j s = Throw e \<Longrightarrow>
   \<exists>y f l. e = CurrencyPairSeparationError y f l \<and> (f = [] \<or> l = []) \<and> y \<noteq> []"
  by (auto simp: lot_step_def Let_def lot_unusable_def set_pair_def init_lot_def
      split: if_splits prod.splits option.splits)

lemma sale_step_throw:
  assumes "sale_step env opts intr i s = Throw e"
  shows "\<exists>y f l. e = CurrencyPairSeparationError y f l \<and> (f = [] \<or> l = []) \<and> y \<noteq> []"
  using assms
  by (auto simp: sale_step_def Let_def trade_unusable_def set_pair_def init_trade_def
      classify_trade_def
      split: if_splits option.splits flow.splits dest!: for_loop_throw lot_step_throw)

text \<open>
  The only error a look-up throws is a symbol that does not split into two currencies.
  Missing prices and unusable trades are skipped, never thrown.
\<close>

theorem lookUpTrades_error:
  assumes "lookUpTrades env opts intr s = Inl e"
  shows "\<exists>y f l. e = CurrencyPairSeparationError y f l \<and> (f = [] \<or> l = []) \<and> y \<noteq> []"
  using assms
  by (auto simp: lookUpTrades_def split: if_splits flow.splits dest!: for_loop_throw sale_step_throw)

lemma lookUpTrades_error_witness:
  "\<exists>e y f l. lookUpTrades (sample_env\<lparr>splitSymbolPairs := (\<lambda>s. (s, []))\<rparr>) sample_opts
     (\<lambda>_. False) sample_state = Inl e
   \<and> e = CurrencyPairSeparationError y f l \<and> (f = [] \<or> l = []) \<and> y \<noteq> []"
proof -
  let ?r = "lookUpTrades (sample_env\<lparr>splitSymbolPairs := (\<lambda>s. (s, []))\<rparr>) sample_opts
    (\<lambda>_. False) sample_state"
  have "\<not> isl (map_sum (\<lambda>_. ()) (\<lambda>_. ()) ?r) = False" by code_simp
  then obtain e where "?r = Inl e" by (cases ?r) auto
  with lookUpTrades_error[OF this] show ?thesis by blast
qed

end
