(* ===== verification/Tax_LookUp_Spec.thy ===== *)
theory Tax_LookUp_Spec
  imports Tax_LookUp_Props
begin

text \<open>
  The specification of the inner loop of \<^verbatim>\<open>look-up-trades.js\<close>: greedy consumption of the lots
  in the visiting order. The loop with its flags, early \<^verbatim>\<open>break\<close> and three-way comparison refines
  it.
\<close>

fun greedy_fill :: "rat \<Rightarrow> rat list \<Rightarrow> rat list" where
  "greedy_fill need [] = []"
| "greedy_fill need (a # as) = min need a # greedy_fill (need - min need a) as"

lemma greedy_fill_zero: "list_all (\<lambda>a. 0 \<le> a) as \<Longrightarrow> greedy_fill 0 as = map (\<lambda>_. 0) as"
  by (induction as) auto

lemma sum_greedy_fill:
  "0 \<le> need \<Longrightarrow> list_all (\<lambda>a. 0 \<le> a) as \<Longrightarrow>
   sum_list (greedy_fill need as) = min need (sum_list as)"
proof (induction need as rule: greedy_fill.induct)
  case (2 need a as)
  then have "0 \<le> sum_list as" by (auto simp: list_all_iff intro!: sum_list_nonneg)
  with 2 show ?case by (auto simp: min_def)
qed simp

definition available :: "tax_env \<Rightarrow> lookup_opts \<Rightarrow> string \<Rightarrow> trx \<Rightarrow> rat" where
  "available env opts saleAsst l = (if eligible env opts saleAsst l then buy_rest l else 0)"

lemma available_nonneg: "amounts_ok l \<Longrightarrow> 0 \<le> available env opts a l"
  by (simp add: available_def amounts_ok_def buy_rest_def)

lemma rest_book:
  "book env t = book env u \<Longrightarrow> sale_rest t = sale_rest u"
  "book env t = book env u \<Longrightarrow> buy_rest t = buy_rest u"
  by (simp_all add: sale_rest_def buy_rest_def book_fields[of env t u])

text \<open>A pass touches the sale and the visited lot only.\<close>

lemma lot_step_frame:
  assumes "flow_state (lot_step env opts intr i saleAmt sp saleAsst j s) = Some s'"
    and "k \<noteq> i" "k \<noteq> j"
  shows "trades s' ! k = trades s ! k"
  using assms(1) by (cases rule: lot_step_effect) (use assms(2,3) in auto)

lemma lot_loop_frame:
  assumes "for_loop (lot_step env opts intr i saleAmt sp saleAsst) js s = Go s'"
    and "k \<noteq> i" "k \<notin> set js"
  shows "trades s' ! k = trades s ! k"
  using assms(1)
proof (rule for_loop_rel)
  show "trades s2 ! k = trades s1 ! k" if "j \<in> set js"
    "lot_step env opts intr i saleAmt sp saleAsst j s1 = Go s2
     \<or> lot_step env opts intr i saleAmt sp saleAsst j s1 = Brk s2" for j s1 s2
    using that assms(2,3) by (intro lot_step_frame[of env opts intr i saleAmt sp saleAsst j]) auto
qed simp_all

text \<open>One completed pass takes the greedy share of its lot.\<close>

lemma lot_step_greedy:
  assumes step: "lot_step env opts intr i (sale_amount_of (trades s ! i)) sp saleAsst j s = Go s'"
    and ij: "i < length (trades s)" "j < length (trades s)" "i \<noteq> j"
    and ok: "amounts_ok (trades s ! i)" "amounts_ok (trades s ! j)"
  defines "x \<equiv> min (sale_rest (trades s ! i)) (available env opts saleAsst (trades s ! j))"
  shows "sale_filled (trades s' ! i) = sale_filled (trades s ! i) + x"
    and "buy_filled (trades s' ! j) = buy_filled (trades s ! j) + x"
    and "deal env (trades s' ! i) = deal env (trades s ! i)"
proof -
  have run: "\<not> intr (polls s)" "\<not> sale_hist_filled (trades s ! i)"
    using step by (auto simp: lot_step_def Let_def split: if_splits)
  have rest: "0 \<le> sale_rest (trades s ! i)" using ok by (simp add: amounts_ok_def sale_rest_def)
  have "flow_state (lot_step env opts intr i (sale_amount_of (trades s ! i)) sp saleAsst j s) = Some s'"
    using step by simp
  then have *: "sale_filled (trades s' ! i) = sale_filled (trades s ! i) + x \<and>
    buy_filled (trades s' ! j) = buy_filled (trades s ! j) + x \<and>
    deal env (trades s' ! i) = deal env (trades s ! i)"
  proof (cases rule: lot_step_effect)
    case none
    then show ?thesis using rest run by (simp add: x_def available_def)
  next
    case (lot l)
    then show ?thesis using rest ij by (simp add: x_def available_def book_fields[OF lot(2)])
  next
    case (unpriced t l)
    note b = link_refs_books[OF unpriced(1), of env]
    have bl: "book env l = book env (trades s ! j)" using b by simp
    have bt: "book env (t\<lparr>noPriceUsd := True\<rparr>) = book env (trades s ! i)" using b by simp
    show ?thesis
      using unpriced rest ij by (simp add: x_def available_def book_fields[OF bt]
          book_fields[OF bl] book_amounts(3)[OF bt])
  next
    case (fill t l t' l' bp)
    note b = link_refs_books[OF fill(1), of env]
    have bl: "book env l = book env (trades s ! j)" using b by simp
    have "sale_amount_of (trades s ! i) = sale_amount_of t"
      "buy_amount_of (lot_view env (trades s ! j)) = buy_amount_of l"
      using book_fields(3)[OF b(1)] book_fields(4)[OF b(2)] by simp_all
    note f = fill_from_lot_amounts[OF fill(5)[unfolded this]]
    have x: "x = min (sale_rest t) (buy_rest l)"
      using fill(2) rest_book(1)[OF b(1)] rest_book(2)[OF bl] by (simp add: x_def available_def)
    have c: "buy_filled (close_lot t' saleAsst (buy_amount_of (lot_view env (trades s ! j))) bp l')
      = buy_filled l'"
      by (simp add: close_lot_def buy_filled_def)
    show ?thesis
      using fill(6) ij f(1,2,9) x c book_fields(6)[OF b(1)] book_fields(5)[OF bl]
        book_amounts(3)[OF b(1)] by simp
  qed
  then show "sale_filled (trades s' ! i) = sale_filled (trades s ! i) + x"
    "buy_filled (trades s' ! j) = buy_filled (trades s ! j) + x"
    "deal env (trades s' ! i) = deal env (trades s ! i)" by simp_all
qed

text \<open>
  C2: the inner loop is greedy. A completed walk over the lots \<open>js\<close> takes from each lot, in the
  visiting order, the minimum of what the sale still needs and what the lot offers (nothing for
  a lot of another asset, already used up, without a price, or that is no acquisition), and
  the sale is filled by the sum: all of it if the lots suffice, everything they have if not.
\<close>

theorem lot_loop_greedy:
  assumes "for_loop (lot_step env opts intr i (sale_amount_of (trades s ! i)) sp
      (sold_asset env (trades s ! i))) js s = Go s'"
    and "i < length (trades s)" "distinct js" "set js \<subseteq> {..<length (trades s)} - {i}"
    and "list_all amounts_ok (trades s)"
  shows "map (\<lambda>j. buy_filled (trades s' ! j) - buy_filled (trades s ! j)) js =
      greedy_fill (sale_rest (trades s ! i))
        (map (\<lambda>j. available env opts (sold_asset env (trades s ! i)) (trades s ! j)) js)
    \<and> sale_filled (trades s' ! i) = sale_filled (trades s ! i)
      + min (sale_rest (trades s ! i))
          (\<Sum>j\<leftarrow>js. available env opts (sold_asset env (trades s ! i)) (trades s ! j))"
proof -
  let ?av = "\<lambda>s asst j. available env opts asst (trades s ! j)"
  have nonneg: "list_all (\<lambda>a. 0 \<le> a) (map (?av s asst) js)"
    if "list_all amounts_ok (trades s)" "set js \<subseteq> {..<length (trades s)}" for s js asst
    using that by (auto simp: list_all_iff intro!: available_nonneg)
  have "map (\<lambda>j. buy_filled (trades s' ! j) - buy_filled (trades s ! j)) js =
      greedy_fill (sale_rest (trades s ! i)) (map (?av s (sold_asset env (trades s ! i))) js)
    \<and> sale_filled (trades s' ! i) = sale_filled (trades s ! i) +
      sum_list (greedy_fill (sale_rest (trades s ! i)) (map (?av s (sold_asset env (trades s ! i))) js))"
    using assms
  proof (induction js arbitrary: s)
    case Nil
    then show ?case by simp
  next
    case (Cons j js)
    let ?t = "trades s ! i"
    let ?step = "lot_step env opts intr i (sale_amount_of ?t) sp (sold_asset env ?t) j s"
    have ok: "amounts_ok ?t" "amounts_ok (trades s ! j)" and ij: "j < length (trades s)" "i \<noteq> j"
      using Cons.prems by (auto simp: list_all_length)
    show ?case
    proof (cases ?step)
      case (Go s1)
      let ?x = "min (sale_rest ?t) (?av s (sold_asset env ?t) j)"
      note g = lot_step_greedy[OF Go Cons.prems(2) ij ok]
      have fs: "flow_state ?step = Some s1" using Go by simp
      have kept: "books_kept env (trades s) (trades s1)"
        by (rule lot_step_books[OF fs books_kept_refl[OF Cons.prems(5)] Cons.prems(2) ij refl refl])
      have len: "length (trades s1) = length (trades s)" by (rule books_kept_length[OF kept])
      have same: "sale_amount_of (trades s1 ! i) = sale_amount_of ?t"
        "sold_asset env (trades s1 ! i) = sold_asset env ?t"
        using deal_amounts(1,4)[OF g(3)] by simp_all
      have rest: "sale_rest (trades s1 ! i) = sale_rest ?t - ?x"
        using g(1) same by (simp add: sale_rest_def)
      have frame: "trades s1 ! k = trades s ! k" if "k \<in> set js" for k
        using that Cons.prems(3,4) by (intro lot_step_frame[OF fs]) auto
      then have av: "map (?av s1 asst) js = map (?av s asst) js" for asst by simp
      from Go Cons.prems(1) have loop: "for_loop (lot_step env opts intr i
          (sale_amount_of (trades s1 ! i)) sp (sold_asset env (trades s1 ! i))) js s1 = Go s'"
        by (simp add: same)
      have IH: "map (\<lambda>j. buy_filled (trades s' ! j) - buy_filled (trades s1 ! j)) js =
          greedy_fill (sale_rest ?t - ?x) (map (?av s (sold_asset env ?t)) js)
        \<and> sale_filled (trades s' ! i) = sale_filled (trades s1 ! i) +
          sum_list (greedy_fill (sale_rest ?t - ?x) (map (?av s (sold_asset env ?t)) js))"
        using Cons.IH[OF loop] Cons.prems(2-4) kept len
        by (simp add: books_kept_def rest same av)
      have head: "trades s' ! j = trades s1 ! j"
        using Cons.prems(3) ij by (intro lot_loop_frame[OF loop]) auto
      have tail: "map (\<lambda>j. buy_filled (trades s' ! j) - buy_filled (trades s ! j)) js =
          map (\<lambda>j. buy_filled (trades s' ! j) - buy_filled (trades s1 ! j)) js"
        using frame by simp
      show ?thesis using IH g(1,2) head unfolding list.map tail by simp
    next
      case (Brk s1)
      then have "sale_hist_filled ?t" and eq: "trades s1 = trades s"
        by (auto simp: lot_step_def Let_def split: if_splits prod.splits option.splits)
      then have rest: "sale_rest ?t = 0" using ok(1) by (simp add: amounts_ok_def sale_rest_def)
      have s': "trades s' = trades s" using Brk Cons.prems(1) eq by simp
      have "list_all (\<lambda>a. 0 \<le> a) (map (?av s (sold_asset env ?t)) (j # js))"
        using Cons.prems(4,5) by (intro nonneg) auto
      then show ?thesis
        unfolding rest s' by (simp only: greedy_fill_zero) (simp add: comp_def)
    qed (use Cons.prems(1) in simp_all)
  qed
  moreover have "0 \<le> sale_rest (trades s ! i)"
    using assms(2,5) by (simp add: list_all_length amounts_ok_def sale_rest_def)
  moreover have "list_all (\<lambda>a. 0 \<le> a) (map (?av s (sold_asset env (trades s ! i))) js)"
    using assms(4,5) by (intro nonneg) auto
  ultimately show ?thesis by (simp add: sum_greedy_fill)
qed

lemma lot_loop_greedy_witness:
  "\<exists>s'. for_loop (lot_step sample_env sample_opts (\<lambda>_. False) 0
        (sale_amount_of (trades sample_state ! 0)) 100
        (sold_asset sample_env (trades sample_state ! 0))) [1] sample_state = Go s'
    \<and> map (\<lambda>j. buy_filled (trades s' ! j) - buy_filled (trades sample_state ! j)) [1]
      = greedy_fill (sale_rest (trades sample_state ! 0))
         (map (\<lambda>j. available sample_env sample_opts (sold_asset sample_env (trades sample_state ! 0))
            (trades sample_state ! j)) [1])"
proof -
  let ?r = "for_loop (lot_step sample_env sample_opts (\<lambda>_. False) 0
        (sale_amount_of (trades sample_state ! 0)) 100
        (sold_asset sample_env (trades sample_state ! 0))) [1] sample_state"
  have "case ?r of Go s' \<Rightarrow> True | _ \<Rightarrow> False" by code_simp
  then obtain s' where "?r = Go s'" by (cases ?r) auto
  moreover have "0 < length (trades sample_state)" "distinct [1::nat]"
    "set [1] \<subseteq> {..<length (trades sample_state)} - {0}" by (simp_all add: sample_state_def)
  ultimately show ?thesis using lot_loop_greedy[OF _ _ _ _ sample_amounts_ok] by blast
qed

end
