(* ===== verification/Tax_LookUp_Rows.thy ===== *)
theory Tax_LookUp_Rows
  imports Tax_LookUp_Spec
begin

text \<open>
  The rows of the report that \<^verbatim>\<open>look-up-trades.js\<close> returns: the dates of a sale, the gain it
  states, and the fees.
\<close>

subsection \<open>The sale side of a trade\<close>

definition sale_side :: "trx \<Rightarrow> _" where
  "sale_side t =
     (mtsCreate t, buyTrxsForRealizedProfit t, costForSaleTrxUsd t, cumulativeTrxFeesUsd t,
      (isSaleTrx t, isBuyTradesWithUnrealizedProfitForPrevPeriod t, noPriceUsd t, saleAmount t),
      (mtsAcquiredForSaleTrx t, mtsSoldForSaleTrx t, proceedsForSaleTrxUsd t, gainOrLossUsd t),
      sale_amount_of t)"

lemmas side_defs = sale_side_def sale_amount_of_def amt_def prc_def

lemma sale_side_lot_view [simp]: "sale_side (lot_view env l) = sale_side l"
  by (simp add: side_defs lot_view_def set_pair_def init_lot_def)

lemma sale_side_set_pair [simp]: "sale_side (set_pair env (init_lot l)) = sale_side l"
  by (simp add: side_defs set_pair_def init_lot_def)

lemma sale_side_link [simp]: "sale_side (snd (link_refs t l)) = sale_side l"
  by (simp add: side_defs link_refs_def)

lemma sale_side_fill [simp]: "sale_side (snd (fill_from_lot env opts sa sp ba bp t l)) = sale_side l"
  by (simp add: side_defs fill_from_lot_def Let_def)

lemma sale_side_close [simp]: "sale_side (close_lot t a b p l) = sale_side l"
  by (simp add: side_defs close_lot_def)

lemma sale_side_mark:
  "\<not> isBuyTradesWithUnrealizedProfitRequired opts \<Longrightarrow> mark_open_lot opts t = t"
  by (simp add: mark_open_lot_def is_open_lot_def)

text \<open>A visited lot keeps its sale side; a pass of the inner loop is about the sale only.\<close>

lemma lot_step_sale_side:
  assumes "flow_state (lot_step env opts intr i saleAmt sp saleAsst j s) = Some s'" and "i \<noteq> j"
    and "k \<noteq> i"
  shows "sale_side (trades s' ! k) = sale_side (trades s ! k)"
  using assms(1)
proof (cases rule: lot_step_effect)
  case (lot l)
  from lot(3) have "sale_side l = sale_side (trades s ! j)" by auto
  then show ?thesis using lot(1) by (cases "j < length (trades s)") (auto simp: nth_list_update list_update_beyond)
next
  case (unpriced t l)
  have "sale_side l = sale_side (trades s ! j)"
    using sale_side_link[of "trades s ! i" "lot_view env (trades s ! j)"] unpriced(1) by simp
  then show ?thesis
    using unpriced(3) assms(2,3) 
    by (cases "j < length (trades s)") (auto simp: nth_list_update list_update_beyond)
next
  case (fill t l t' l' bp)
  have "sale_side l' = sale_side (trades s ! j)"
    using sale_side_link[of "trades s ! i" "lot_view env (trades s ! j)"] fill(1)
      sale_side_fill[of env opts saleAmt sp "buy_amount_of (lot_view env (trades s ! j))" bp t l] fill(5)
    by simp
  then show ?thesis
    using fill(6) assms(2,3) 
    by (cases "j < length (trades s)") (auto simp: nth_list_update list_update_beyond)
qed simp

definition refs_of :: "trx \<Rightarrow> (nat \<times> int) list" where
  "refs_of t = nullish (buyTrxsForRealizedProfit t) []"

definition fees_of :: "trx \<Rightarrow> rat" where
  "fees_of t = nullish (cumulativeTrxFeesUsd t) 0"

text \<open>The sale itself: it may gain a reference to the lot, a cost and a fee, nothing else.\<close>

lemma lot_step_sale:
  assumes "flow_state (lot_step env opts intr i saleAmt sp saleAsst j s) = Some s'"
    and "i \<noteq> j" "i < length (trades s)"
  shows "(refs_of (trades s' ! i) = refs_of (trades s ! i)
      \<or> refs_of (trades s' ! i) = refs_of (trades s ! i) @ [ref_of (trades s ! j)])
    \<and> (\<not> shouldFeesBeDeducted opts \<longrightarrow> fees_of (trades s' ! i) = fees_of (trades s ! i))
    \<and> mtsCreate (trades s' ! i) = mtsCreate (trades s ! i)
    \<and> isSaleTrx (trades s' ! i) = isSaleTrx (trades s ! i)
    \<and> sale_amount_of (trades s' ! i) = sale_amount_of (trades s ! i)"
  using assms(1)
proof (cases rule: lot_step_effect)
  case (lot l)
  then show ?thesis using assms(2,3) by simp
next
  case (unpriced t l)
  have "ref_of (lot_view env (trades s ! j)) = ref_of (trades s ! j)"
    by (simp add: ref_of_def lot_view_def set_pair_def init_lot_def)
  then show ?thesis
    using unpriced(1,3) assms(2,3)
    by (auto simp: link_refs_def refs_of_def fees_of_def sale_amount_of_def amt_def prc_def)
next
  case (fill t l t' l' bp)
  have "ref_of (lot_view env (trades s ! j)) = ref_of (trades s ! j)"
    by (simp add: ref_of_def lot_view_def set_pair_def init_lot_def)
  moreover have "refs_of t' = refs_of t" "mtsCreate t' = mtsCreate t" "isSaleTrx t' = isSaleTrx t"
    "sale_amount_of t' = sale_amount_of t" "\<not> shouldFeesBeDeducted opts \<Longrightarrow> fees_of t' = fees_of t"
    unfolding fill(5)[symmetric, THEN arg_cong[of _ _ fst], simplified]
    by (simp_all add: fill_from_lot_def Let_def refs_of_def sale_amount_of_def amt_def prc_def
        fees_of_def)
  ultimately show ?thesis
    using fill(1,6) assms(2,3)
    by (auto simp: link_refs_def refs_of_def fees_of_def sale_amount_of_def amt_def prc_def)
qed simp

subsection \<open>What a finished sale states\<close>

text \<open>
  A sale that will get a row (priced, not carried over from the period before) states its
  proceeds, and its gain is proceeds minus cost plus fees; without the option the fees are 0.
\<close>

definition sale_complete :: "lookup_opts \<Rightarrow> trx \<Rightarrow> bool" where
  "sale_complete opts t \<longleftrightarrow>
     (nullish (isSaleTrx t) False \<and> \<not> noPriceUsd t
        \<and> \<not> isBuyTradesWithUnrealizedProfitForPrevPeriod t \<longrightarrow>
      saleAmount t = Some (sale_amount_of t) \<and> mtsSoldForSaleTrx t = Some (mtsCreate t)
      \<and> (\<forall>a. mtsAcquiredForSaleTrx t = Some a \<longrightarrow> a \<le> mtsCreate t)
      \<and> (\<exists>p. proceedsForSaleTrxUsd t = Some p
           \<and> gainOrLossUsd t = Some (p - nullish (costForSaleTrxUsd t) 0 + fees_of t))
      \<and> (\<not> shouldFeesBeDeducted opts \<longrightarrow> fees_of t = 0))"

definition refs_before :: "trx \<Rightarrow> bool" where
  "refs_before t \<longleftrightarrow> (\<forall>r\<in>set (refs_of t). snd r \<le> mtsCreate t)"

lemma sale_side_fields:
  assumes "sale_side t = sale_side u"
  shows "sale_complete opts t = sale_complete opts u" "refs_before t = refs_before u"
    "mtsCreate t = mtsCreate u"
  using assms
  by (simp_all add: sale_side_def sale_complete_def refs_before_def refs_of_def fees_of_def)

text \<open>The array as both loops keep it: newest first, and every sale as above.\<close>

definition sales_ok :: "lookup_opts \<Rightarrow> trx list \<Rightarrow> bool" where
  "sales_ok opts ts \<longleftrightarrow>
     sorted_wrt (\<lambda>t u. mtsCreate u \<le> mtsCreate t) ts
     \<and> list_all (sale_complete opts) ts \<and> list_all refs_before ts"

text \<open>The inner loop: all trades but the sale as above, the sale's references and fees.\<close>

definition sale_open :: "lookup_opts \<Rightarrow> nat \<Rightarrow> trx list \<Rightarrow> bool" where
  "sale_open opts i ts \<longleftrightarrow>
     sorted_wrt (\<lambda>t u. mtsCreate u \<le> mtsCreate t) ts \<and> i < length ts
     \<and> (\<forall>k<length ts. k \<noteq> i \<longrightarrow> sale_complete opts (ts ! k))
     \<and> list_all refs_before ts
     \<and> (\<not> shouldFeesBeDeducted opts \<longrightarrow> fees_of (ts ! i) = 0)"

lemma sorted_mts_map:
  "sorted_wrt (\<lambda>t u. mtsCreate u \<le> mtsCreate t) ts \<longleftrightarrow>
   sorted_wrt (\<lambda>a b. b \<le> a) (map mtsCreate ts)"
  by (simp add: sorted_wrt_map)

lemma lot_step_length:
  "flow_state (lot_step env opts intr i saleAmt sp saleAsst j s) = Some s' \<Longrightarrow>
   length (trades s') = length (trades s)"
  by (cases rule: lot_step_effect) auto

lemma lot_step_open:
  assumes step: "flow_state (lot_step env opts intr i saleAmt sp saleAsst j s) = Some s'"
    and inv: "sale_open opts i (trades s)" and ij: "i < j" "j < length (trades s)"
  shows "sale_open opts i (trades s')"
proof -
  have i: "i < length (trades s)" using ij by simp
  note len = lot_step_length[OF step]
  have "i \<noteq> j" using ij(1) by simp
  note side = lot_step_sale_side[OF step this] and sale = lot_step_sale[OF step this i]
  have "mtsCreate (trades s' ! k) = mtsCreate (trades s ! k)" for k
    using sale sale_side_fields(3)[OF side] by (cases "k = i") simp_all
  then have "map mtsCreate (trades s') = map mtsCreate (trades s)"
    using len by (intro nth_equalityI) simp_all
  then have sorted: "sorted_wrt (\<lambda>t u. mtsCreate u \<le> mtsCreate t) (trades s')"
    using inv by (simp add: sale_open_def sorted_mts_map)
  have "mtsCreate (trades s ! j) \<le> mtsCreate (trades s ! i)"
    using inv ij by (auto simp: sale_open_def sorted_wrt_iff_nth_less)
  moreover have "refs_before (trades s ! i)" using inv i by (simp add: sale_open_def list_all_length)
  ultimately have "refs_before (trades s' ! i)"
    using sale by (auto simp: refs_before_def ref_of_def)
  moreover have "refs_before (trades s' ! k)" if "k < length (trades s)" "k \<noteq> i" for k
    using sale_side_fields(2)[OF side[OF that(2)]] inv that
    by (simp add: sale_open_def list_all_length)
  ultimately have "list_all refs_before (trades s')"
    using len by (metis list_all_length)
  moreover have "sale_complete opts (trades s' ! k)" if "k < length (trades s)" "k \<noteq> i" for k
    using sale_side_fields(1)[OF side[OF that(2)]] inv that by (simp add: sale_open_def)
  ultimately show ?thesis
    using sorted inv sale len by (simp add: sale_open_def)
qed

lemma lot_loop_open:
  assumes "for_loop (lot_step env opts intr i saleAmt sp saleAsst) js s = Go s'"
    and "sale_open opts i (trades s)" and "set js \<subseteq> {Suc i..<length (trades s)}"
  shows "sale_open opts i (trades s') \<and> length (trades s') = length (trades s)
    \<and> sale_amount_of (trades s' ! i) = sale_amount_of (trades s ! i)
    \<and> mtsCreate (trades s' ! i) = mtsCreate (trades s ! i)"
proof (rule for_loop_invariant[where P = "\<lambda>s1. sale_open opts i (trades s1)
      \<and> length (trades s1) = length (trades s)
      \<and> sale_amount_of (trades s1 ! i) = sale_amount_of (trades s ! i)
      \<and> mtsCreate (trades s1 ! i) = mtsCreate (trades s ! i)"])
  show "flow_state (for_loop (lot_step env opts intr i saleAmt sp saleAsst) js s) = Some s'"
    using assms(1) by simp
  let ?P = "\<lambda>s1. sale_open opts i (trades s1) \<and> length (trades s1) = length (trades s)
    \<and> sale_amount_of (trades s1 ! i) = sale_amount_of (trades s ! i)
    \<and> mtsCreate (trades s1 ! i) = mtsCreate (trades s ! i)"
  show "?P s" using assms(2) by simp
  fix j s1 s2
  assume j: "j \<in> set js" and s1: "?P s1"
    and step: "flow_state (lot_step env opts intr i saleAmt sp saleAsst j s1) = Some s2"
  then have "i < j" "j < length (trades s1)" using assms(3) by auto
  from lot_step_open[OF step _ this] lot_step_length[OF step] lot_step_sale[OF step] s1 this
  show "?P s2" by simp
qed

lemma sale_complete_init [simp]: "sale_complete opts (init_trade t) = sale_complete opts t"
  by (simp add: sale_complete_def init_trade_def fees_of_def sale_amount_of_def amt_def prc_def)

lemma refs_before_views [simp]:
  "refs_before (init_trade t) = refs_before t" "refs_before (sale_view env t) = refs_before t"
  "refs_before (t\<lparr>noPriceUsd := b\<rparr>) = refs_before t"
  "refs_before (t\<lparr>cumulativeTrxFeesUsd := f\<rparr>) = refs_before t"
  by (simp_all add: refs_before_def refs_of_def init_trade_def sale_view_def set_pair_def
      classify_trade_def Let_def)

lemma mtsCreate_views [simp]:
  "mtsCreate (init_trade t) = mtsCreate t" "mtsCreate (sale_view env t) = mtsCreate t"
  by (simp_all add: init_trade_def sale_view_def set_pair_def classify_trade_def Let_def)

lemma finish_sale_simps [simp]:
  "refs_before (finish_sale sa sp asst t) = refs_before t"
  "mtsCreate (finish_sale sa sp asst t) = mtsCreate t"
  by (simp_all add: refs_before_def refs_of_def finish_sale_def)

lemma mts_acquired_before:
  "mts_acquired rs = Some a \<Longrightarrow> \<forall>r\<in>set rs. snd r \<le> b \<Longrightarrow> a \<le> b"
  by (auto simp: mts_acquired_def split: list.splits if_splits)

lemma finish_sale_complete:
  assumes "refs_before t" "\<not> shouldFeesBeDeducted opts \<longrightarrow> fees_of t = 0" "sa = sale_amount_of t"
  shows "sale_complete opts (finish_sale sa sp asst t)"
  using assms
  by (auto simp: sale_complete_def finish_sale_def fees_of_def refs_before_def refs_of_def
      sale_amount_of_def amt_def prc_def dest: mts_acquired_before)

lemma sales_ok_update:
  assumes "sales_ok opts ts" "i < length ts" "mtsCreate t = mtsCreate (ts ! i)"
    "sale_complete opts t" "refs_before t"
  shows "sales_ok opts (ts[i := t])"
  using assms
  by (simp add: sales_ok_def sorted_mts_map map_update_same list_all_update)

lemma sale_step_ok:
  assumes step: "sale_step env opts intr i s = Go s'"
    and inv: "sales_ok opts (trades s)" and i: "i < length (trades s)"
  shows "sales_ok opts (trades s') \<and> length (trades s') = length (trades s)"
proof -
  have old: "sale_complete opts (trades s ! i)" "refs_before (trades s ! i)"
    using inv i by (simp_all add: sales_ok_def list_all_length)
  have "flow_state (sale_step env opts intr i s) = Some s'" using step by simp
  then show ?thesis
  proof (cases rule: sale_step_effect)
    case (same t)
    from same(3) have "sale_complete opts t" "refs_before t" "mtsCreate t = mtsCreate (trades s ! i)"
      using old by (auto simp: sale_complete_def[of opts "sale_view env x" for x]
          sale_complete_def[of opts "sale_view env x\<lparr>noPriceUsd := True\<rparr>" for x])
    then show ?thesis using same(1) inv i by (auto intro: sales_ok_update)
  next
    case (loop t sp s2 r)
    from loop(5) step obtain s3 where s3: "r = Go s3" "trades s' = (trades s3)[i := finish_sale
        (sale_amount_of (sale_view env (trades s ! i))) sp
         (sale_asset_of (sale_view env (trades s ! i))) (trades s3 ! i)]"
      by auto
    have "sale_open opts i (trades s2)"
      using inv i old unfolding loop(2) sale_open_def sales_ok_def
      by (auto simp: loop(1) sorted_mts_map map_update_same list_all_update nth_list_update
          list_all_length fees_of_def)
    moreover have "set (lot_indices opts (length (trades s)) i) \<subseteq> {Suc i..<length (trades s2)}"
      by (simp add: set_lot_indices loop(2))
    ultimately have open3: "sale_open opts i (trades s3) \<and> length (trades s3) = length (trades s2)
        \<and> sale_amount_of (trades s3 ! i) = sale_amount_of (trades s2 ! i)
        \<and> mtsCreate (trades s3 ! i) = mtsCreate (trades s2 ! i)"
      by (rule lot_loop_open[OF loop(4)[symmetric, unfolded s3(1)]])
    have len: "length (trades s3) = length (trades s)" using open3 loop(2) by simp
    have sa: "sale_amount_of (sale_view env (trades s ! i)) = sale_amount_of (trades s3 ! i)"
      using open3 i unfolding loop(2) by (simp add: loop(1) sale_amount_of_def amt_def prc_def)
    let ?f = "finish_sale (sale_amount_of (trades s3 ! i)) sp
      (sale_asset_of (sale_view env (trades s ! i))) (trades s3 ! i)"
    have "refs_before (trades s3 ! i)"
      using open3 i len by (simp add: sale_open_def list_all_length)
    moreover have "sale_complete opts ?f"
      using open3 i len by (intro finish_sale_complete) (auto simp: sale_open_def list_all_length)
    ultimately have "sales_ok opts ((trades s3)[i := ?f])"
      using open3 i len unfolding sales_ok_def sale_open_def
      by (auto simp: sorted_mts_map map_update_same list_all_length nth_list_update)
    then show ?thesis using s3(2) len sa by simp
  qed
qed

lemma sale_loop_ok:
  assumes "for_loop (sale_step env opts intr) (sale_indices opts (length (trades s))) s = Go s1"
    and "sales_ok opts (trades s)"
  shows "sales_ok opts (trades s1)"
proof -
  let ?P = "\<lambda>s1. sales_ok opts (trades s1) \<and> length (trades s1) = length (trades s)"
  have "?P s \<longrightarrow> ?P s1"
    using assms(1)
  proof (rule for_loop_rel[where R = "\<lambda>s2 s3. ?P s2 \<longrightarrow> ?P s3"])
    fix i s2 s3
    assume i: "i \<in> set (sale_indices opts (length (trades s)))"
      and "sale_step env opts intr i s2 = Go s3 \<or> sale_step env opts intr i s2 = Brk s3"
    then have step: "sale_step env opts intr i s2 = Go s3"
      by (auto simp: sale_step_def Let_def split: if_splits option.splits flow.splits)
    show "?P s2 \<longrightarrow> ?P s3"
      using sale_step_ok[OF step] i by (auto simp: set_sale_indices)
  qed simp_all
  then show ?thesis using assms(2) by simp
qed

text \<open>Every row with a sale date comes from a finished sale.\<close>

lemma lookUpTrades_row_source:
  assumes "lookUpTrades env opts intr s = Inr (res, s')" and "sales_ok opts (trades s)"
    and "row \<in> set (saleTradesWithRealizedProfit res)" and "mtsSold row \<noteq> None"
  obtains t where "row = sale_row env t" "sale_complete opts t" "nullish (isSaleTrx t) False"
    "\<not> noPriceUsd t" "\<not> isBuyTradesWithUnrealizedProfitForPrevPeriod t"
  using assms(1)
proof (cases rule: lookUpTrades_cases)
  case empty
  then show thesis using assms(3) by (simp add: no_result_def)
next
  case interrupted
  then show thesis using assms(3) by (simp add: no_result_def)
next
  case (finished s1)
  from finished(2) assms(3) obtain t where t: "t \<in> set (trades s1)"
    "row_of env opts (mark_open_lot opts t) = Some row"
    by (auto simp: collect_result_def Let_def List.map_filter_def)
  then have "\<not> isBuyTradesWithUnrealizedProfitRequired opts"
    by (auto simp: row_of_def split: if_splits)
  with t(2) have row: "row_of env opts t = Some row" by (simp add: sale_side_mark)
  have "sale_complete opts t"
    using sale_loop_ok[OF finished(1) assms(2)] t(1) by (simp add: sales_ok_def list_all_iff)
  with row assms(4) show thesis
    by (intro that) (auto simp: row_of_def taxable_row_def Let_def split: if_splits)
qed

text \<open>
  C4: a lot is never acquired after the sale it is matched with. Where the transactions are
  given newest first, the acquisition date of every sale row is not after its date of sale,
  in both directions of the look-up.
\<close>

theorem lookUpTrades_dates:
  assumes "lookUpTrades env opts intr s = Inr (res, s')" and "sales_ok opts (trades s)"
    and "row \<in> set (saleTradesWithRealizedProfit res)"
    and "mtsSold row = Some b" "mtsAcquired row = Some a"
  shows "a \<le> b"
proof -
  obtain t where "row = sale_row env t" "sale_complete opts t" "nullish (isSaleTrx t) False"
    "\<not> noPriceUsd t" "\<not> isBuyTradesWithUnrealizedProfitForPrevPeriod t"
    using lookUpTrades_row_source[OF assms(1-3)] assms(4) by auto
  then show ?thesis using assms(4,5) by (auto simp: sale_complete_def sale_row_def)
qed


lemma sample_sales_ok: "sales_ok sample_opts (trades sample_state)"
  by (simp add: sales_ok_def sample_state_def sample_trade_def blank_trx_def sale_complete_def
      refs_before_def refs_of_def)

lemma lookUpTrades_dates_witness:
  "\<exists>res s'. lookUpTrades sample_env sample_opts (\<lambda>_. False) sample_state = Inr (res, s')
     \<and> sample_row \<in> set (saleTradesWithRealizedProfit res) \<and> (10::int) \<le> 20"
proof -
  obtain res s' where run:
    "lookUpTrades sample_env sample_opts (\<lambda>_. False) sample_state = Inr (res, s')"
    "saleTradesWithRealizedProfit res = [sample_row]" by (rule sample_run)
  then have row: "sample_row \<in> set (saleTradesWithRealizedProfit res)" by simp
  have "(10::int) \<le> 20"
    by (rule lookUpTrades_dates[OF run(1) sample_sales_ok row]) (simp_all add: sample_row_def)
  with run row show ?thesis by blast
qed


end
