(* ===== verification/Tax_Report.thy ===== *)
theory Tax_Report
  imports Tax_CcyMap Tax_LookUp_Rows
begin

text \<open>
  \<^verbatim>\<open>transaction.tax.report/index.js\<close>: the conversion of currencies with its public-trade window,
  the requests to the API, the batched write-back of USD values, and the report as a whole.

  Three things are parameters. \<open>api n\<close> is the answer to the \<open>n\<close>-th request for public trades
  (\<open>None\<close> if it is no array; a request that loses the race against an interruption is
  answered with the empty array). \<open>syn\<close> is the map of currency synonyms. \<open>db\<close> gives the rows of a
  period: trades, withdrawals, deposits. What the report emits, in order, is the list \<open>events\<close>.
\<close>

datatype progress_state =
    GENERATION_STARTED | OBTAINING_CURRENCY_PRICES | TRANSACTION_HISTORY_GENERATION
  | GENERATION_COMPLETED | GENERATION_INTERRUPTED

datatype tax_coll = TRADES | MOVEMENTS | LEDGERS

datatype report_event =
    ProgressEvent "int option" progress_state
  | ReadyTrxTaxReport
  | EmitInterrupted
  | UpdateElems tax_coll "trx list"

text \<open>Lines 605 to 629.\<close>

definition emitProgress :: "rat option \<Rightarrow> progress_state \<Rightarrow> report_event list" where
  "emitProgress progress st =
     ProgressEvent (map_option floor progress) st
     # (if st = GENERATION_COMPLETED then [ReadyTrxTaxReport] else [])"

subsection \<open>Writing the USD values back\<close>

definition trx_coll :: "trx \<Rightarrow> tax_coll \<Rightarrow> bool" where
  "trx_coll t c = (case c of TRADES \<Rightarrow> isTrades t | MOVEMENTS \<Rightarrow> isMovements t | LEDGERS \<Rightarrow> isLedgers t)"

text \<open>One collection's part of the loop body: collect, and flush a full or the last batch.\<close>

definition flush_coll ::
  "nat \<Rightarrow> tax_coll \<Rightarrow> bool \<Rightarrow> trx list \<Rightarrow> trx list \<times> report_event list" where
  "flush_coll limit c isLast batch =
     (if limit \<le> length batch \<or> isLast then ([], [UpdateElems c batch]) else (batch, []))"

fun update_loop ::
  "nat \<Rightarrow> trx list \<Rightarrow> trx list \<Rightarrow> trx list \<Rightarrow> trx list \<Rightarrow> report_event list" where
  "update_loop limit [] bt bm bl = []"
| "update_loop limit (x # xs) bt bm bl =
     (let isLast = (xs = []);
          (bt', e1) = flush_coll limit TRADES isLast (if trx_coll x TRADES then bt @ [x] else bt);
          (bm', e2) = flush_coll limit MOVEMENTS isLast (if trx_coll x MOVEMENTS then bm @ [x] else bm);
          (bl', e3) = flush_coll limit LEDGERS isLast (if trx_coll x LEDGERS then bl @ [x] else bl)
      in e1 @ e2 @ e3 @ update_loop limit xs bt' bm' bl')"

definition updateExactUsdValueInColls :: "trx list \<Rightarrow> report_event list" where
  "updateExactUsdValueInColls ts = update_loop 20000 ts [] [] []"

definition written :: "tax_coll \<Rightarrow> report_event list \<Rightarrow> trx list" where
  "written c es = concat (List.map_filter
     (\<lambda>e. case e of UpdateElems c' b \<Rightarrow> if c' = c then Some b else None | _ \<Rightarrow> None) es)"

lemma written_simps [simp]:
  "written c [] = []" "written c (es @ fs) = written c es @ written c fs"
  "written c (UpdateElems c' b # es) = (if c' = c then b else []) @ written c es"
  by (simp_all add: written_def List.map_filter_def)

definition small_batches :: "nat \<Rightarrow> report_event list \<Rightarrow> bool" where
  "small_batches n es \<longleftrightarrow> (\<forall>e\<in>set es. \<forall>c b. e = UpdateElems c b \<longrightarrow> length b \<le> n)"

lemma flush_coll_facts:
  assumes "flush_coll n c isLast b = (b', es)"
  shows "written c es @ b' = b" "c' \<noteq> c \<Longrightarrow> written c' es = []" "isLast \<Longrightarrow> b' = []"
    "0 < n \<Longrightarrow> length b' < n" "length b \<le> n \<Longrightarrow> small_batches n es"
  using assms by (auto simp: flush_coll_def small_batches_def split: if_splits)

lemma update_loop_written:
  assumes "xs \<noteq> []"
  shows "written TRADES (update_loop n xs bt bm bl) = bt @ filter isTrades xs"
    "written MOVEMENTS (update_loop n xs bt bm bl) = bm @ filter isMovements xs"
    "written LEDGERS (update_loop n xs bt bm bl) = bl @ filter isLedgers xs"
proof -
  have "written TRADES (update_loop n xs bt bm bl) = bt @ filter isTrades xs
    \<and> written MOVEMENTS (update_loop n xs bt bm bl) = bm @ filter isMovements xs
    \<and> written LEDGERS (update_loop n xs bt bm bl) = bl @ filter isLedgers xs"
    using assms
  proof (induction xs arbitrary: bt bm bl)
    case (Cons x xs)
    obtain bt' e1 where f1: "flush_coll n TRADES (xs = []) (if trx_coll x TRADES then bt @ [x] else bt)
      = (bt', e1)" by fastforce
    obtain bm' e2 where f2: "flush_coll n MOVEMENTS (xs = []) (if trx_coll x MOVEMENTS then bm @ [x] else bm)
      = (bm', e2)" by fastforce
    obtain bl' e3 where f3: "flush_coll n LEDGERS (xs = []) (if trx_coll x LEDGERS then bl @ [x] else bl)
      = (bl', e3)" by fastforce
    note fs = flush_coll_facts[OF f1] flush_coll_facts[OF f2] flush_coll_facts[OF f3]
    show ?case
    proof (cases "xs = []")
      case True
      then show ?thesis using fs f1 f2 f3 by (auto simp: Let_def trx_coll_def split: if_splits)
    next
      case False
      from Cons.IH[OF this, of bt' bm' bl'] fs(1,2,6,7,11,12) f1 f2 f3 show ?thesis
        by (simp add: Let_def trx_coll_def)
    qed
  qed simp
  then show "written TRADES (update_loop n xs bt bm bl) = bt @ filter isTrades xs"
    "written MOVEMENTS (update_loop n xs bt bm bl) = bm @ filter isMovements xs"
    "written LEDGERS (update_loop n xs bt bm bl) = bl @ filter isLedgers xs" by simp_all
qed

lemma small_batches_append [simp]:
  "small_batches n (es @ fs) \<longleftrightarrow> small_batches n es \<and> small_batches n fs" "small_batches n []"
  by (auto simp: small_batches_def)

lemma update_loop_small:
  assumes "length bt < n" "length bm < n" "length bl < n"
  shows "small_batches n (update_loop n xs bt bm bl)"
  using assms
proof (induction xs arbitrary: bt bm bl)
  case (Cons x xs)
  obtain bt' e1 where f1: "flush_coll n TRADES (xs = []) (if trx_coll x TRADES then bt @ [x] else bt)
    = (bt', e1)" by fastforce
  obtain bm' e2 where f2: "flush_coll n MOVEMENTS (xs = []) (if trx_coll x MOVEMENTS then bm @ [x] else bm)
    = (bm', e2)" by fastforce
  obtain bl' e3 where f3: "flush_coll n LEDGERS (xs = []) (if trx_coll x LEDGERS then bl @ [x] else bl)
    = (bl', e3)" by fastforce
  have "0 < n" using Cons.prems by simp
  note fs = flush_coll_facts(4,5)[OF f1] flush_coll_facts(4,5)[OF f2] flush_coll_facts(4,5)[OF f3]
  have "small_batches n e1" "small_batches n e2" "small_batches n e3"
    using fs(2,4,6) Cons.prems by simp_all
  moreover have "small_batches n (update_loop n xs bt' bm' bl')"
    using fs(1,3,5) \<open>0 < n\<close> by (intro Cons.IH) simp_all
  ultimately show ?case using f1 f2 f3 by (simp add: Let_def)
qed simp

text \<open>
  The write-back is complete and bounded. Every transaction of a nonempty list is written to
  the collection it came from exactly once, in order, whatever batches it falls into, and no batch
  exceeds 20000 rows.
\<close>

theorem updateExactUsdValueInColls_written:
  assumes "ts \<noteq> []"
  shows "written TRADES (updateExactUsdValueInColls ts) = filter isTrades ts
    \<and> written MOVEMENTS (updateExactUsdValueInColls ts) = filter isMovements ts
    \<and> written LEDGERS (updateExactUsdValueInColls ts) = filter isLedgers ts
    \<and> small_batches 20000 (updateExactUsdValueInColls ts)"
  using update_loop_written[OF assms, of 20000 "[]" "[]" "[]"] update_loop_small[of "[]" 20000 "[]" "[]" ts]
  by (simp add: updateExactUsdValueInColls_def)

lemma updateExactUsdValueInColls_written_witness:
  "written TRADES (updateExactUsdValueInColls [sample_trade 1 20 1 1 0]) = [sample_trade 1 20 1 1 0]"
  using updateExactUsdValueInColls_written[of "[sample_trade 1 20 1 1 0]"]
  by (simp add: sample_trade_def)

end
