(* ===== verification/Tax_Convert.thy ===== *)
theory Tax_Convert
  imports Tax_Report
begin

text \<open>
  \<^verbatim>\<open>#convertCurrencies\<close> and \<^verbatim>\<open>#getPublicTrades\<close> of \<^verbatim>\<open>transaction.tax.report/index.js\<close>: for every
  calculator of the currency map, find the public trades around the time of its transaction
  (those of the last request, a new request, or a request for a synonym of the currency), set the
  price from the nearest one, or record the currency as delisted.

  Parameters of the environment: \<open>pubApi n symbol end\<close> is the answer to the \<open>n\<close>-th request
  (\<open>None\<close> when it is no array; a request that loses the race against an interruption is answered
  with an empty array), \<open>interruptedAt k\<close> the answer to the \<open>k\<close>-th question whether the report was
  interrupted, \<open>synonyms\<close> the map of currency synonyms with their conversion factors.
  The objects of all transactions are the list \<open>cvTrxs\<close>, the calculators the list \<open>cvCalcs\<close>.
\<close>

record conv_env = tax_env +
  pubApi :: "nat \<Rightarrow> string \<Rightarrow> int \<Rightarrow> pub_trade list option"
  interruptedAt :: "nat \<Rightarrow> bool"
  synonyms :: "(string, (string \<times> rat) list) jsmap"

record conv_state =
  cvTrxs :: "trx list"
  cvCalcs :: "calculator list"
  cvDelisted :: delisted_map
  cvPolls :: nat
  cvCalls :: nat
  cvCount :: nat
  cvProgress :: rat
  cvEvents :: "report_event list"
  cvPub :: "pub_trade list"
  cvStart :: "int option"
  cvEnd :: "int option"

definition interrupted :: "'a conv_env_scheme \<Rightarrow> conv_state \<Rightarrow> bool" where
  "interrupted env s = interruptedAt env (cvPolls s)"

definition polled :: "conv_state \<Rightarrow> conv_state" where
  "polled s = s\<lparr>cvPolls := Suc (cvPolls s)\<rparr>"

text \<open>The object with an identity, and assigning to it.\<close>

definition get_trx :: "trx list \<Rightarrow> nat \<Rightarrow> trx" where
  "get_trx ts i = (case find (\<lambda>t. oid t = i) ts of None \<Rightarrow> blank_trx | Some t \<Rightarrow> t)"

definition put_trx :: "trx \<Rightarrow> trx list \<Rightarrow> trx list" where
  "put_trx t ts = map (\<lambda>u. if oid u = oid t then t else u) ts"

subsection \<open>Requesting public trades\<close>

text \<open>Up to six attempts; a refused attempt is repeated, an interruption ends with no trades.\<close>

fun attempt_loop ::
  "'a conv_env_scheme \<Rightarrow> nat \<Rightarrow> string \<Rightarrow> int \<Rightarrow> conv_state \<Rightarrow> pub_trade list \<times> conv_state" where
  "attempt_loop env 0 symb ende s = ([], s)"
| "attempt_loop env (Suc n) symb ende s =
     (if interrupted env s then ([], polled s)
      else let s' = (polled s)\<lparr>cvCalls := Suc (cvCalls s)\<rparr> in
        (case pubApi env (cvCalls s) symb ende of
           Some res \<Rightarrow> (res, s')
         | None \<Rightarrow> attempt_loop env n symb ende s'))"

definition getPublicTrades ::
  "'a conv_env_scheme \<Rightarrow> string \<Rightarrow> int \<Rightarrow> conv_state \<Rightarrow> pub_trade list \<times> conv_state" where
  "getPublicTrades env symb ende s = attempt_loop env 6 symb ende s"

subsection \<open>One calculator\<close>

definition rescale :: "'a conv_env_scheme \<Rightarrow> rat \<Rightarrow> pub_trade \<Rightarrow> pub_trade" where
  "rescale env conversion p = p\<lparr>price := map_option (\<lambda>x. fl env (x * conversion)) (price p)\<rparr>"

text \<open>Lines 355 to 384: the synonyms of a currency, until one has public trades.\<close>

definition synonym_step ::
  "'a conv_env_scheme \<Rightarrow> calculator \<Rightarrow> int \<Rightarrow> string \<times> rat \<Rightarrow> conv_state
     \<Rightarrow> (tax_error, conv_state) flow" where
  "synonym_step env c ende sc s =
     (if interrupted env s then Ret (polled s)
      else
        let (res, s') = getPublicTrades env (getCcyPairForConversion (fst sc) c) ende (polled s)
        in if res = [] then Go s' else Brk (s'\<lparr>cvPub := map (rescale env (snd sc)) res\<rparr>))"

definition last_mts :: "pub_trade list \<Rightarrow> int option" where
  "last_mts ps = (if ps = [] then None else Some (pubMts (last ps)))"

text \<open>Is the requested time outside the window of the trades at hand? Lines 309 to 313.\<close>

definition outside_window :: "int \<Rightarrow> conv_state \<Rightarrow> bool" where
  "outside_window mts s \<longleftrightarrow>
     cvPub s = []
     \<or> (case cvStart s of None \<Rightarrow> False | Some m \<Rightarrow> m > mts)
     \<or> (case cvEnd s of None \<Rightarrow> False | Some m \<Rightarrow> m < mts)"

definition record_delisted :: "string \<Rightarrow> int \<Rightarrow> conv_state \<Rightarrow> conv_state" where
  "record_delisted symb mts s = s\<lparr>cvDelisted := setDelistedCcyToMap symb
     (PubTradeFindForTrxTaxError symb (cvStart s) (cvEnd s) mts) (cvDelisted s)\<rparr>"

text \<open>
  \<open>Go\<close> falls through to the second guard, \<open>Brk\<close> stands for the \<^verbatim>\<open>continue\<close> of a currency that was
  recorded as delisted, \<open>Ret\<close> for the return of an interrupted conversion.
\<close>

definition delist_step ::
  "'a conv_env_scheme \<Rightarrow> string \<Rightarrow> int \<Rightarrow> conv_state \<Rightarrow> (tax_error, conv_state) flow" where
  "delist_step env symb mts s =
     (if interrupted env s then Ret (polled s) else Brk (record_delisted symb mts (polled s)))"

definition no_trades_step ::
  "'a conv_env_scheme \<Rightarrow> string \<Rightarrow> calculator \<Rightarrow> int \<Rightarrow> conv_state
     \<Rightarrow> (tax_error, conv_state) flow" where
  "no_trades_step env symb c mts s =
     (case map_of (synonyms env) symb of
        None \<Rightarrow> delist_step env symb mts s
      | Some syns \<Rightarrow>
          if kindOfCcyForTriangulation c \<noteq> None then delist_step env symb mts s
          else for_loop (synonym_step env c mts) syns s)"

definition close_window :: "int \<Rightarrow> conv_state \<Rightarrow> conv_state" where
  "close_window mts s = s\<lparr>cvStart := last_mts (cvPub s), cvEnd := Some mts\<rparr>"

definition fetch_step ::
  "'a conv_env_scheme \<Rightarrow> string \<Rightarrow> calculator \<Rightarrow> int \<Rightarrow> conv_state
     \<Rightarrow> (tax_error, conv_state) flow" where
  "fetch_step env symb c mts s =
     (if \<not> outside_window mts s then Go s
      else
        let (ps, s1) = getPublicTrades env (getCcyPairForConversion symb c) mts s;
            s2 = s1\<lparr>cvPub := ps\<rparr>
        in if ps \<noteq> [] then Go (close_window mts s2)
           else case no_trades_step env symb c mts s2 of
               Go s3 \<Rightarrow> Go (close_window mts s3)
             | Brk s3 \<Rightarrow> Brk s3
             | Ret s3 \<Rightarrow> Ret s3
             | Throw e \<Rightarrow> Throw e)"

text \<open>Lines 391 to 398.\<close>

definition no_window :: "int \<Rightarrow> conv_state \<Rightarrow> bool" where
  "no_window mts s \<longleftrightarrow> cvStart s = None \<or> cvEnd s = None \<or> outside_window mts s"

text \<open>Lines 418 to 433: the price, then the progress.\<close>

definition price_step ::
  "'a conv_env_scheme \<Rightarrow> nat \<Rightarrow> nat \<Rightarrow> conv_state \<Rightarrow> (tax_error, conv_state) flow" where
  "price_step env totalAmt ci s =
     (let c = cvCalcs s ! ci; t = get_trx (cvTrxs s) (calcTrx c);
          pub = (case findPublicTrade (cvPub s) (mtsCreate t) of None \<Rightarrow> None | Some p \<Rightarrow> price p)
      in case calcPrice (tax_env.truncate env)
             (map_option (\<lambda>k. cvCalcs s ! k) (triangulationCcyCalculator c)) pub c t of
           Inl e \<Rightarrow> Throw e
         | Inr (c', t') \<Rightarrow>
             let s' = s\<lparr>cvCalcs := (cvCalcs s)[ci := c'], cvTrxs := put_trx t' (cvTrxs s)\<rparr>;
                 p = fl env (fl env (of_nat (cvCount s) / of_nat totalAmt) * 100)
             in if p \<le> 0 \<or> p \<ge> 100 then Go s'
                else Go (s'\<lparr>cvProgress := p, cvEvents := cvEvents s' @
                       emitProgress (Some p) OBTAINING_CURRENCY_PRICES\<rparr>))"

text \<open>The body of the inner loop, lines 300 to 434.\<close>

definition calc_step ::
  "'a conv_env_scheme \<Rightarrow> string \<Rightarrow> nat \<Rightarrow> nat \<Rightarrow> conv_state \<Rightarrow> (tax_error, conv_state) flow" where
  "calc_step env symb totalAmt ci s0 =
     (let s = (polled s0)\<lparr>cvCount := Suc (cvCount s0)\<rparr>;
          c = cvCalcs s ! ci; mts = mtsCreate (get_trx (cvTrxs s) (calcTrx c))
      in if interrupted env s0 then Ret s
         else case fetch_step env symb c mts s of
             Go s1 \<Rightarrow>
               if no_window mts s1 then
                 (if interrupted env s1 then Ret (polled s1)
                  else Go (record_delisted symb mts (polled s1)))
               else price_step env totalAmt ci s1
           | Brk s1 \<Rightarrow> Go s1
           | Ret s1 \<Rightarrow> Ret s1
           | Throw e \<Rightarrow> Throw e)"

subsection \<open>All currencies\<close>

definition ccy_step ::
  "'a conv_env_scheme \<Rightarrow> nat \<Rightarrow> string \<times> nat list \<Rightarrow> conv_state \<Rightarrow> (tax_error, conv_state) flow" where
  "ccy_step env totalAmt entry s =
     (if interrupted env s then Ret (polled s)
      else for_loop (calc_step env (fst entry) totalAmt) (snd entry)
             ((polled s)\<lparr>cvPub := [], cvStart := None, cvEnd := None\<rparr>))"

definition convertCurrencies ::
  "'a conv_env_scheme \<Rightarrow> nat list \<Rightarrow> trx list \<Rightarrow> delisted_map \<Rightarrow> nat
     \<Rightarrow> (tax_error, conv_state) flow" where
  "convertCurrencies env conv ts delisted pollsNow =
     (let m = getTrxMapByCcy (tax_env.truncate env) (map (get_trx ts) conv);
          s = \<lparr>cvTrxs = ts, cvCalcs = ccyCalculators m, cvDelisted = delisted, cvPolls = pollsNow,
               cvCalls = 0, cvCount = 0, cvProgress = 0, cvEvents = [], cvPub = [],
               cvStart = None, cvEnd = None\<rparr>
      in case for_loop (ccy_step env (totalTrxAmount m)) (trxMapByCcy m) s of
           Go s' \<Rightarrow> Go (s'\<lparr>cvEvents := cvEvents s'
             @ updateExactUsdValueInColls (map (get_trx (cvTrxs s')) conv)
             @ emitProgress (Some (cvProgress s')) TRANSACTION_HISTORY_GENERATION\<rparr>)
         | Brk s' \<Rightarrow> Brk s'
         | Ret s' \<Rightarrow> Ret s'
         | Throw e \<Rightarrow> Throw e)"

subsection \<open>What a conversion may change\<close>

text \<open>
  A transaction without what a conversion sets: two transactions agree up to prices when this is
  the same for both.
\<close>

definition unpriced :: "trx \<Rightarrow> trx" where
  "unpriced t = t\<lparr>firstSymbPriceUsd := None, lastSymbPriceUsd := None, exactUsdValue := None,
     execPrice := None\<rparr>"

definition only_prices :: "nat set \<Rightarrow> trx list \<Rightarrow> trx list \<Rightarrow> bool" where
  "only_prices ids ts ts' \<longleftrightarrow>
     list_all2 (\<lambda>t t'. unpriced t' = unpriced t \<and> (oid t \<notin> ids \<longrightarrow> t' = t)) ts ts'"

text \<open>A calculator has done its work: it has a public price and its transaction has one too.\<close>

definition has_price :: "calculator \<Rightarrow> trx \<Rightarrow> bool" where
  "has_price c t \<longleftrightarrow> finite_nonzero (pubTradePrice c)
     \<and> (kindOfCcyForTriangulation c = Some IS_CRYPTO_CCY_FOR_TRIANGULATION
        \<or> price_of (convPricePropName c) t \<noteq> None)"

definition priced :: "conv_state \<Rightarrow> nat \<Rightarrow> bool" where
  "priced s ci \<longleftrightarrow> has_price (cvCalcs s ! ci) (get_trx (cvTrxs s) (calcTrx (cvCalcs s ! ci)))"

definition conv_keeps :: "nat set \<Rightarrow> conv_state \<Rightarrow> conv_state \<Rightarrow> bool" where
  "conv_keeps ids s s' \<longleftrightarrow>
     only_prices ids (cvTrxs s) (cvTrxs s')
     \<and> map calcTrx (cvCalcs s') = map calcTrx (cvCalcs s)
     \<and> (\<forall>ci. priced s ci \<longrightarrow> priced s' ci)
     \<and> set (map_keys (cvDelisted s)) \<subseteq> set (map_keys (cvDelisted s'))"

lemma unpriced_oid: "unpriced t' = unpriced t \<Longrightarrow> oid t' = oid t"
  by (drule arg_cong[where f = oid]) (simp add: unpriced_def)

lemma only_prices_refl [simp]: "only_prices ids ts ts"
  by (simp add: only_prices_def list_all2_refl)

lemma only_prices_trans:
  assumes "only_prices ids ts us" "only_prices ids us vs"
  shows "only_prices ids ts vs"
  using assms unfolding only_prices_def
  by (rule list_all2_trans[rotated]) (auto dest: unpriced_oid)

lemma only_prices_oids: "only_prices ids ts ts' \<Longrightarrow> map oid ts' = map oid ts"
  unfolding only_prices_def by (induction rule: list_all2_induct) (auto dest: unpriced_oid)

lemma conv_keeps_refl [simp]: "conv_keeps ids s s"
  by (simp add: conv_keeps_def)

lemma conv_keeps_trans: "conv_keeps ids s s1 \<Longrightarrow> conv_keeps ids s1 s2 \<Longrightarrow> conv_keeps ids s s2"
  by (auto simp: conv_keeps_def intro: only_prices_trans)

text \<open>Changes of the other fields are invisible to the relation.\<close>

lemma conv_keeps_frame:
  "cvTrxs s' = cvTrxs s \<Longrightarrow> cvCalcs s' = cvCalcs s
   \<Longrightarrow> set (map_keys (cvDelisted s)) \<subseteq> set (map_keys (cvDelisted s')) \<Longrightarrow> conv_keeps ids s s'"
  by (simp add: conv_keeps_def priced_def)

lemma polled_simps [simp]:
  "cvTrxs (polled s) = cvTrxs s" "cvCalcs (polled s) = cvCalcs s"
  "cvDelisted (polled s) = cvDelisted s" "cvCalls (polled s) = cvCalls s"
  "cvPolls (polled s) = Suc (cvPolls s)" "cvEvents (polled s) = cvEvents s"
  "cvPub (polled s) = cvPub s"
  by (simp_all add: polled_def)

lemma record_delisted_simps [simp]:
  "cvTrxs (record_delisted symb mts s) = cvTrxs s"
  "cvCalcs (record_delisted symb mts s) = cvCalcs s"
  "cvEvents (record_delisted symb mts s) = cvEvents s"
  "set (map_keys (cvDelisted (record_delisted symb mts s))) =
     insert symb (set (map_keys (cvDelisted s)))"
  by (auto simp: record_delisted_def delisted.push_keys)

subsection \<open>Requests\<close>

text \<open>A request changes only the two counters, and asks at most six times.\<close>

definition fetched :: "conv_state \<Rightarrow> conv_state \<Rightarrow> bool" where
  "fetched s s' \<longleftrightarrow> cvTrxs s' = cvTrxs s \<and> cvCalcs s' = cvCalcs s \<and> cvDelisted s' = cvDelisted s
     \<and> cvEvents s' = cvEvents s"

lemma attempt_loop_effect:
  "attempt_loop env n symb ende s = (ps, s')
   \<Longrightarrow> fetched s s' \<and> cvCalls s \<le> cvCalls s' \<and> cvCalls s' \<le> cvCalls s + n"
proof (induction env n symb ende s rule: attempt_loop.induct)
  case (2 env n symb ende s)
  show ?case
  proof (cases "interrupted env s \<or> pubApi env (cvCalls s) symb ende \<noteq> None")
    case True
    then show ?thesis using "2.prems" by (auto simp: fetched_def Let_def split: if_splits)
  next
    case False
    with "2.prems" "2.IH"[OF _ refl] show ?thesis by (simp add: fetched_def Let_def)
  qed
qed (simp add: fetched_def)

lemma getPublicTrades_frame:
  assumes "getPublicTrades env symb ende s = (ps, s')"
  shows "fetched s s'" "cvCalls s' \<le> cvCalls s + 6"
  using attempt_loop_effect[of env 6 symb ende s ps s'] assms by (simp_all add: getPublicTrades_def)

text \<open>Whatever happens to a fetch, only the window, the counters and the delisted map change.\<close>

lemma fetched_refl [simp]: "fetched s s"
  by (simp add: fetched_def)

lemma fetched_trans: "fetched s s1 \<Longrightarrow> fetched s1 s2 \<Longrightarrow> fetched s s2"
  by (simp add: fetched_def)

lemma fetched_simps [simp]:
  "fetched (polled s) s' = fetched s s'" "fetched s (polled s') = fetched s s'"
  "fetched s (s'\<lparr>cvPub := ps\<rparr>) = fetched s s'"
  "fetched s (s'\<lparr>cvStart := a, cvEnd := b\<rparr>) = fetched s s'"
  by (simp_all add: fetched_def)

lemma synonym_step_fetched:
  "flow_state (synonym_step env c ende sc s) = Some s' \<Longrightarrow> fetched s s'"
  using getPublicTrades_frame(1)[of env _ ende "polled s"]
  by (auto simp: synonym_step_def Let_def split: if_splits prod.splits)

lemma synonym_loop_fetched:
  assumes "flow_state (for_loop (synonym_step env c ende) syns s) = Some s'"
  shows "fetched s s'"
proof (rule for_loop_invariant[OF _ _ assms])
  show "fetched s s2" if "fetched s s1" "flow_state (synonym_step env c ende i s1) = Some s2" for i s1 s2
    using that(1) synonym_step_fetched[OF that(2)] by (rule fetched_trans)
qed simp

text \<open>Either the delisted map is kept, or the currency at hand is recorded in it.\<close>

lemma fetched_close [simp]: "fetched s (close_window mts s') = fetched s s'"
  by (simp add: close_window_def)

definition fetch_result :: "string \<Rightarrow> int \<Rightarrow> conv_state \<Rightarrow> (tax_error, conv_state) flow \<Rightarrow> bool" where
  "fetch_result symb mts s r \<longleftrightarrow>
     (case r of Go s' \<Rightarrow> fetched s s' | Ret s' \<Rightarrow> fetched s s'
      | Brk s' \<Rightarrow> (\<exists>s1. fetched s s1 \<and> s' = record_delisted symb mts s1) | Throw e \<Rightarrow> False)"

lemma delist_step_effect: "fetch_result symb mts s (delist_step env symb mts s)"
  by (auto simp: fetch_result_def delist_step_def intro!: exI[of _ "polled s"])

lemma synonym_loop_effect:
  "fetch_result symb mts s (for_loop (synonym_step env c mts') syns s)"
proof -
  let ?r = "for_loop (synonym_step env c mts') syns s"
  have no_throw: "?r \<noteq> Throw e" for e :: tax_error
    using for_loop_throw[of "synonym_step env c mts'" syns s e]
    by (auto simp: synonym_step_def Let_def case_prod_beta split: if_splits)
  then show ?thesis
    using synonym_loop_fetched[of env c mts' syns s]
    by (cases ?r) (simp_all add: fetch_result_def no_throw)
qed

lemma no_trades_step_effect: "fetch_result symb mts s (no_trades_step env symb c mts s)"
  by (simp add: no_trades_step_def delist_step_effect synonym_loop_effect split: option.split)

lemma fetch_result_mono:
  "fetched s s1 \<Longrightarrow> fetch_result symb mts s1 r \<Longrightarrow> fetch_result symb mts s r"
  by (cases r) (auto simp: fetch_result_def intro: fetched_trans)

lemma fetch_step_effect: "fetch_result symb mts s (fetch_step env symb c mts s)"
proof (cases "outside_window mts s")
  case False
  then show ?thesis by (simp add: fetch_step_def fetch_result_def)
next
  case True
  obtain ps s1 where g: "getPublicTrades env (getCcyPairForConversion symb c) mts s = (ps, s1)"
    by fastforce
  let ?s2 = "s1\<lparr>cvPub := ps\<rparr>"
  have f: "fetched s ?s2" using getPublicTrades_frame(1)[OF g] by simp
  with no_trades_step_effect[of symb mts ?s2 env c]
  have "fetch_result symb mts s (no_trades_step env symb c mts ?s2)" by (rule fetch_result_mono[rotated])
  with f show ?thesis
    by (cases "no_trades_step env symb c mts ?s2")
      (auto simp: fetch_step_def fetch_result_def True g Let_def)
qed

subsection \<open>One calculator\<close>

lemma calcPrice_effect:
  assumes "calcPrice env tri pub c t = Inr (c', t')"
  shows "unpriced t' = unpriced t" "calcTrx c' = calcTrx c" "has_price c' t'"
    "has_price d t \<Longrightarrow> has_price d t'"
  using assms
  by (auto simp: calcPrice_def Let_def unpriced_def set_price_def has_price_def price_of_def
      split: if_splits price_prop.splits)

text \<open>The state is well formed: the objects differ, and every calculator's object exists.\<close>

definition conv_ok :: "nat set \<Rightarrow> conv_state \<Rightarrow> bool" where
  "conv_ok ids s \<longleftrightarrow> distinct (map oid (cvTrxs s)) \<and> ids \<subseteq> oid ` set (cvTrxs s)
     \<and> calcTrx ` set (cvCalcs s) \<subseteq> ids"

lemma conv_ok_rel:
  assumes "conv_ok ids s" "conv_keeps ids s s'"
  shows "conv_ok ids s'"
proof -
  have "map oid (cvTrxs s') = map oid (cvTrxs s)"
    using assms(2) only_prices_oids by (auto simp: conv_keeps_def)
  moreover from this have "oid ` set (cvTrxs s') = oid ` set (cvTrxs s)"
    by (metis set_map)
  moreover have "calcTrx ` set (cvCalcs s') = calcTrx ` set (cvCalcs s)"
    using assms(2) by (metis conv_keeps_def set_map)
  ultimately show ?thesis using assms(1) by (simp add: conv_ok_def)
qed

lemma get_trx_mem:
  assumes "distinct (map oid ts)" "t \<in> set ts"
  shows "get_trx ts (oid t) = t"
proof -
  obtain u where u: "find (\<lambda>u. oid u = oid t) ts = Some u"
    using assms(2) by (cases "find (\<lambda>u. oid u = oid t) ts") (auto simp: find_None_iff)
  then have "u \<in> set ts" "oid u = oid t" by (auto simp: find_Some_iff)
  with assms u show ?thesis by (auto simp: get_trx_def distinct_map dest: inj_onD)
qed

lemma get_put_trx:
  "get_trx (put_trx t ts) i = (if i = oid t \<and> i \<in> oid ` set ts then t else get_trx ts i)"
proof -
  have "find (\<lambda>u. oid u = i) (put_trx t ts) =
      (if i = oid t \<and> i \<in> oid ` set ts then Some t else find (\<lambda>u. oid u = i) ts)"
    by (induction ts) (auto simp: put_trx_def)
  then have "get_trx (put_trx t ts) i = (case (if i = oid t \<and> i \<in> oid ` set ts then Some t
      else find (\<lambda>u. oid u = i) ts) of None \<Rightarrow> blank_trx | Some t \<Rightarrow> t)"
    by (simp only: get_trx_def)
  then show ?thesis
    by (cases "i \<in> oid ` set ts"; cases "i = oid t") (simp_all add: get_trx_def[of ts])
qed

lemma put_trx_only_prices:
  assumes "distinct (map oid ts)" "i \<in> oid ` set ts" "i \<in> ids"
    "unpriced t' = unpriced (get_trx ts i)"
  shows "only_prices ids ts (put_trx t' ts)"
proof -
  have "oid t' = i"
    using assms(1,2) unpriced_oid[OF assms(4)] by (auto simp: get_trx_mem)
  moreover have "unpriced t' = unpriced u" if "u \<in> set ts" "oid u = i" for u
    using that assms(1,4) by (auto simp: get_trx_mem)
  ultimately show ?thesis
    using assms(3) by (auto simp: only_prices_def put_trx_def list_all2_map2 intro!: list.rel_refl_strong)
qed

lemma price_step_effect:
  assumes "conv_ok ids s" "ci < length (cvCalcs s)" "flow_state (price_step env totalAmt ci s) = Some s'"
  shows "conv_keeps ids s s' \<and> priced s' ci \<and> price_step env totalAmt ci s = Go s'"
proof -
  let ?c = "cvCalcs s ! ci"
  let ?t = "get_trx (cvTrxs s) (calcTrx ?c)"
  let ?pub = "case findPublicTrade (cvPub s) (mtsCreate ?t) of None \<Rightarrow> None | Some p \<Rightarrow> price p"
  let ?r = "calcPrice (tax_env.truncate env)
    (map_option (\<lambda>k. cvCalcs s ! k) (triangulationCcyCalculator ?c)) ?pub ?c ?t"
  from assms(3) obtain c' t' where r: "?r = Inr (c', t')"
    by (cases ?r) (auto simp: price_step_def Let_def)
  note effect = calcPrice_effect[OF r]
  have "calcTrx ?c \<in> ids" using assms(1,2) by (auto simp: conv_ok_def)
  moreover from this have "calcTrx ?c \<in> oid ` set (cvTrxs s)"
    using assms(1) by (auto simp: conv_ok_def)
  ultimately have "only_prices ids (cvTrxs s) (put_trx t' (cvTrxs s))"
    using assms(1) effect(1) by (intro put_trx_only_prices) (auto simp: conv_ok_def)
  moreover have "oid t' = calcTrx ?c"
    using \<open>calcTrx ?c \<in> oid ` set (cvTrxs s)\<close> assms(1) unpriced_oid[OF effect(1)]
    by (auto simp: conv_ok_def get_trx_mem)
  then have get: "get_trx (put_trx t' (cvTrxs s)) i = (if i = calcTrx ?c then t' else get_trx (cvTrxs s) i)"
    for i using \<open>calcTrx ?c \<in> oid ` set (cvTrxs s)\<close> by (simp add: get_put_trx)
  have keep: "has_price ((cvCalcs s)[ci := c'] ! k)
      (get_trx (put_trx t' (cvTrxs s)) (calcTrx ((cvCalcs s)[ci := c'] ! k)))"
    if "priced s k \<or> k = ci" for k
    using that effect(2-4) assms(2) by (cases "k = ci") (auto simp: priced_def get)
  have own: "has_price c' (get_trx (put_trx t' (cvTrxs s)) (calcTrx ?c))"
    using effect(3) by (simp add: get)
  ultimately show ?thesis
    using assms(2,3) r effect(2) keep own
    by (auto simp: price_step_def Let_def conv_keeps_def priced_def map_update_same split: if_splits)
qed

text \<open>A pass over a calculator gives it a price or records its currency.\<close>

definition settled :: "string \<Rightarrow> nat \<Rightarrow> conv_state \<Rightarrow> bool" where
  "settled symb ci s \<longleftrightarrow> priced s ci \<or> symb \<in> set (map_keys (cvDelisted s))"

lemma settled_rel: "conv_keeps ids s s' \<Longrightarrow> settled symb ci s \<Longrightarrow> settled symb ci s'"
  by (auto simp: conv_keeps_def settled_def)

lemma fetched_rel: "fetched s s' \<Longrightarrow> conv_keeps ids s s'"
  by (auto simp: fetched_def intro: conv_keeps_frame)

lemma record_rel: "fetched s s1 \<Longrightarrow> conv_keeps ids s (record_delisted symb mts s1)"
  by (rule conv_keeps_frame) (auto simp: fetched_def)

lemma calc_step_effect:
  assumes "conv_ok ids s" "ci < length (cvCalcs s)"
    "flow_state (calc_step env symb totalAmt ci s) = Some s'"
  shows "conv_keeps ids s s'" "calc_step env symb totalAmt ci s = Go s' \<Longrightarrow> settled symb ci s'"
    "calc_step env symb totalAmt ci s \<noteq> Brk s''"
proof -
  let ?s = "(polled s)\<lparr>cvCount := Suc (cvCount s)\<rparr>"
  let ?c = "cvCalcs ?s ! ci"
  let ?mts = "mtsCreate (get_trx (cvTrxs ?s) (calcTrx ?c))"
  have f: "fetched s ?s" by (simp add: fetched_def)
  have fr: "fetch_result symb ?mts s (fetch_step env symb ?c ?mts ?s)"
    by (rule fetch_result_mono[OF f fetch_step_effect])
  have "conv_keeps ids s s' \<and> (calc_step env symb totalAmt ci s = Go s' \<longrightarrow> settled symb ci s')
    \<and> calc_step env symb totalAmt ci s \<noteq> Brk s''"
  proof (cases "interrupted env s")
    case True
    then show ?thesis using assms(3) by (auto simp: calc_step_def Let_def f fetched_rel)
  next
    case False
    show ?thesis
    proof (cases "fetch_step env symb ?c ?mts ?s")
      case (Go s1)
      then have s1: "fetched s s1" using fr by (simp add: fetch_result_def)
      show ?thesis
      proof (cases "no_window ?mts s1")
        case True
        then show ?thesis
          using assms(3) False Go s1 record_rel[of s "polled s1"]
          by (auto simp: calc_step_def Let_def settled_def fetched_rel split: if_splits)
      next
        case window: False
        have ok: "conv_ok ids s1" "ci < length (cvCalcs s1)"
          using assms(1,2) s1 by (auto simp: fetched_def conv_ok_def)
        have "calc_step env symb totalAmt ci s = price_step env totalAmt ci s1"
          using False Go window by (simp add: calc_step_def Let_def)
        with price_step_effect[OF ok, of env totalAmt s'] assms(3) fetched_rel[OF s1, of ids]
        show ?thesis by (auto simp: settled_def intro: conv_keeps_trans)
      qed
    next
      case (Brk s1)
      then show ?thesis
        using assms(3) False fr record_rel
        by (auto simp: calc_step_def Let_def fetch_result_def settled_def)
    next
      case (Ret s1)
      then show ?thesis
        using assms(3) False fr by (auto simp: calc_step_def Let_def fetch_result_def fetched_rel)
    next
      case (Throw e)
      then show ?thesis using fr by (simp add: fetch_result_def)
    qed
  qed
  then show "conv_keeps ids s s'" "calc_step env symb totalAmt ci s = Go s' \<Longrightarrow> settled symb ci s'"
    "calc_step env symb totalAmt ci s \<noteq> Brk s''" by simp_all
qed

subsection \<open>The whole conversion\<close>

definition conv_inv :: "nat set \<Rightarrow> conv_state \<Rightarrow> conv_state \<Rightarrow> bool" where
  "conv_inv ids s0 s \<longleftrightarrow> conv_ok ids s \<and> conv_keeps ids s0 s"

lemma conv_inv_step:
  "conv_inv ids s0 s \<Longrightarrow> conv_keeps ids s s' \<Longrightarrow> conv_inv ids s0 s'"
  by (auto simp: conv_inv_def intro: conv_ok_rel conv_keeps_trans)

lemma conv_inv_length: "conv_inv ids s0 s \<Longrightarrow> length (cvCalcs s) = length (cvCalcs s0)"
  by (metis conv_inv_def conv_keeps_def length_map)

lemma conv_inv_window:
  "conv_inv ids s0 s \<Longrightarrow> conv_inv ids s0 ((polled s)\<lparr>cvPub := [], cvStart := None, cvEnd := None\<rparr>)"
  by (rule conv_inv_step, assumption) (rule conv_keeps_frame, simp_all)

lemma calc_loop_inv:
  assumes "conv_inv ids s0 s" "\<forall>ci\<in>set idx. ci < length (cvCalcs s0)"
    "flow_state (for_loop (calc_step env symb totalAmt) idx s) = Some s'"
  shows "conv_inv ids s0 s'"
proof (rule for_loop_invariant[where P = "conv_inv ids s0", OF _ assms(1,3)])
  fix ci s1 s2
  assume ci: "ci \<in> set idx" and s1: "conv_inv ids s0 s1"
    and s2: "flow_state (calc_step env symb totalAmt ci s1) = Some s2"
  have "conv_ok ids s1" "ci < length (cvCalcs s1)"
    using ci s1 assms(2) conv_inv_length[OF s1] by (auto simp: conv_inv_def)
  from conv_inv_step[OF s1 calc_step_effect(1)[OF this s2]] show "conv_inv ids s0 s2" .
qed

lemma calc_loop_settled:
  assumes "conv_inv ids s0 s" "\<forall>ci\<in>set idx. ci < length (cvCalcs s0)"
    "for_loop (calc_step env symb totalAmt) idx s = Go s'"
  shows "\<forall>ci\<in>set idx. settled symb ci s'"
proof -
  let ?P = "\<lambda>s. conv_inv ids s0 s"
  let ?body = "calc_step env symb totalAmt"
  have step: "?P s2 \<and> settled symb ci s2 \<and> (\<forall>cj. settled symb cj s1 \<longrightarrow> settled symb cj s2)"
    if "ci \<in> set idx" "?P s1" "?body ci s1 = Go s2" for ci s1 s2
  proof -
    have "conv_ok ids s1" "ci < length (cvCalcs s1)"
      using that assms(2) conv_inv_length[OF that(2)] by (auto simp: conv_inv_def)
    note e = calc_step_effect(1,2)[OF this, of env symb totalAmt s2]
    show ?thesis
      using e that(3) conv_inv_step[OF that(2)] settled_rel by auto
  qed
  have "?P s' \<and> (\<forall>ci\<in>set idx. settled symb ci s')"
  proof (rule for_loop_establishes[where P = ?P and Q = "settled symb", OF assms(3,1)])
    show "?body ci s1 \<noteq> Brk s2" for ci s1 s2
      by (auto simp: calc_step_def price_step_def Let_def
          split: flow.split sum.split prod.split)
  qed (use step in blast)+
  then show ?thesis by simp
qed

lemma ccy_step_inv:
  assumes "conv_inv ids s0 s" "\<forall>ci\<in>set (snd entry). ci < length (cvCalcs s0)"
    "flow_state (ccy_step env totalAmt entry s) = Some s'"
  shows "conv_inv ids s0 s'"
proof (cases "interrupted env s")
  case True
  have "conv_inv ids s0 (polled s)"
    using assms(1) by (rule conv_inv_step) (rule conv_keeps_frame, simp_all)
  with True assms(3) show ?thesis by (simp add: ccy_step_def)
next
  case False
  with assms show ?thesis
    by (intro calc_loop_inv[OF conv_inv_window[OF assms(1)] assms(2)]) (simp add: ccy_step_def)
qed

lemma ccy_step_settled:
  assumes "conv_inv ids s0 s" "\<forall>ci\<in>set (snd entry). ci < length (cvCalcs s0)"
    "ccy_step env totalAmt entry s = Go s'"
  shows "\<forall>ci\<in>set (snd entry). settled (fst entry) ci s'"
  using assms(3) calc_loop_settled[OF conv_inv_window[OF assms(1)] assms(2), of env "fst entry" totalAmt s']
  by (simp add: ccy_step_def split: if_splits)

text \<open>Both facts for the loop over the currencies.\<close>

lemma ccy_loop_inv:
  assumes "conv_inv ids s0 s" "\<forall>e\<in>set m. \<forall>ci\<in>set (snd e). ci < length (cvCalcs s0)"
    "flow_state (for_loop (ccy_step env totalAmt) m s) = Some s'"
  shows "conv_inv ids s0 s'"
  by (rule for_loop_invariant[where P = "conv_inv ids s0", OF _ assms(1,3)])
    (use assms(2) ccy_step_inv in blast)

lemma ccy_loop_settled:
  assumes "conv_inv ids s0 s" "\<forall>e\<in>set m. \<forall>ci\<in>set (snd e). ci < length (cvCalcs s0)"
    "for_loop (ccy_step env totalAmt) m s = Go s'"
  shows "\<forall>e\<in>set m. \<forall>ci\<in>set (snd e). settled (fst e) ci s'"
proof -
  let ?body = "ccy_step env totalAmt"
  let ?Q = "\<lambda>e s. \<forall>ci\<in>set (snd e). settled (fst e) ci s"
  have loop_rel: "conv_keeps ids s1 s2"
    if "conv_inv ids s0 s1" "e \<in> set m" "?body e s1 = Go s2" for e s1 s2
  proof -
    have "conv_inv ids s1 s1" using that(1) by (simp add: conv_inv_def)
    moreover have "\<forall>ci\<in>set (snd e). ci < length (cvCalcs s1)"
      using that(2) assms(2) conv_inv_length[OF that(1)] by auto
    ultimately have "conv_inv ids s1 s2"
      using that(3) by (intro ccy_step_inv[of ids s1 s1 e env totalAmt s2]) simp_all
    then show ?thesis by (simp add: conv_inv_def)
  qed
  have "conv_inv ids s0 s' \<and> (\<forall>e\<in>set m. ?Q e s')"
  proof (rule for_loop_establishes[where P = "conv_inv ids s0" and Q = ?Q, OF assms(3,1)])
    show "?body e s1 \<noteq> Brk s2" for e s1 s2 by (simp add: ccy_step_def)
    show "conv_inv ids s0 s2 \<and> ?Q e s2"
      if "e \<in> set m" "conv_inv ids s0 s1" "?body e s1 = Go s2" for e s1 s2
      using that assms(2) conv_inv_step[OF that(2) loop_rel[OF that(2,1,3)]]
        ccy_step_settled[OF that(2) _ that(3)] by blast
    show "?Q j s2" if "e \<in> set m" "conv_inv ids s0 s1" "?Q j s1" "?body e s1 = Go s2" for e j s1 s2
      using that(3) settled_rel[OF loop_rel[OF that(2,1,4)]] by blast
  qed
  then show ?thesis by simp
qed

lemma filed_indices:
  "set (filed (trxMapByCcy (getTrxMapByCcy env ts))) = {0..<length (ccyCalculators (getTrxMapByCcy env ts))}"
proof -
  let ?cs = "all_calculators env 0 ts"
  have "mset (filed (fst (placeTriangulationCcyAtStart (file_calculators ?cs)))) = mset [0..<length ?cs]"
    by (simp only: filed_place(1)[OF filed_file_calculators(2)] filed_file_calculators(1))
  from arg_cong[OF this, of set_mset] show ?thesis
    by (auto simp: getTrxMapByCcy_def Let_def case_prod_beta)
qed

lemma calculators_trx:
  "calcTrx ` set (ccyCalculators (getTrxMapByCcy env ts)) = oid ` set ts"
  using all_calculators_trx[of env 0 ts]
  by (simp add: getTrxMapByCcy_def Let_def case_prod_beta image_image image_comp)

lemma convertCurrencies_run:
  assumes "distinct (map oid ts)" "set conv \<subseteq> oid ` set ts"
    and m: "m = getTrxMapByCcy (tax_env.truncate env) (map (get_trx ts) conv)"
    and r: "r = convertCurrencies env conv ts delisted k" "flow_state r = Some s'"
  obtains s0 s where "cvTrxs s0 = ts" "cvCalcs s0 = ccyCalculators m" "cvDelisted s0 = delisted"
    "conv_inv (set conv) s0 s0" "\<forall>e\<in>set (trxMapByCcy m). \<forall>ci\<in>set (snd e). ci < length (cvCalcs s0)"
    "flow_state (for_loop (ccy_step env (totalTrxAmount m)) (trxMapByCcy m) s0) = Some s"
    "r = Go s' \<Longrightarrow> for_loop (ccy_step env (totalTrxAmount m)) (trxMapByCcy m) s0 = Go s"
    "cvTrxs s' = cvTrxs s" "cvCalcs s' = cvCalcs s" "cvDelisted s' = cvDelisted s"
proof -
  let ?s0 = "\<lparr>cvTrxs = ts, cvCalcs = ccyCalculators m, cvDelisted = delisted, cvPolls = k,
    cvCalls = 0, cvCount = 0, cvProgress = 0, cvEvents = [], cvPub = [], cvStart = None, cvEnd = None\<rparr>"
  let ?r = "for_loop (ccy_step env (totalTrxAmount m)) (trxMapByCcy m) ?s0"
  have oids: "oid ` get_trx ts ` set conv = set conv"
  proof -
    have "oid (get_trx ts i) = i" if "i \<in> set conv" for i
      using that assms(1,2) by (auto simp: get_trx_mem)
    then show ?thesis by force
  qed
  have "calcTrx ` set (ccyCalculators m) \<subseteq> set conv"
    unfolding m calculators_trx using oids by simp
  then have "conv_inv (set conv) ?s0 ?s0"
    using assms(1,2) by (simp add: conv_inv_def conv_ok_def)
  moreover have "ci < length (cvCalcs ?s0)" if "e \<in> set (trxMapByCcy m)" "ci \<in> set (snd e)" for e ci
    using that filed_indices[of "tax_env.truncate env" "map (get_trx ts) conv"]
    unfolding m filed_def by force
  moreover obtain s where "flow_state ?r = Some s" "r = Go s' \<Longrightarrow> ?r = Go s"
    "cvTrxs s' = cvTrxs s" "cvCalcs s' = cvCalcs s" "cvDelisted s' = cvDelisted s"
    using r by (cases ?r) (auto simp: convertCurrencies_def Let_def m)
  ultimately show thesis by (intro that[of ?s0 s]) auto
qed

lemma convertCurrencies_only_prices:
  assumes "flow_state (convertCurrencies env conv ts delisted k) = Some s'"
    "distinct (map oid ts)" "set conv \<subseteq> oid ` set ts"
  shows "only_prices (set conv) ts (cvTrxs s')"
proof -
  obtain s0 s where run: "cvTrxs s0 = ts" "conv_inv (set conv) s0 s" "cvTrxs s' = cvTrxs s"
    using convertCurrencies_run[OF assms(2,3) refl refl assms(1)] ccy_loop_inv by metis
  then show ?thesis by (simp add: conv_inv_def conv_keeps_def)
qed

subsection \<open>A sample conversion\<close>

text \<open>
  One trade of 3 ETH for UST without prices, and one that has its prices; the API knows a public
  trade of ETH at 30 USD.
\<close>

definition conv_sample_env :: "unit conv_env_scheme" where
  "conv_sample_env = tax_env.extend sample_env \<lparr>
     pubApi = (\<lambda>n symb ende. if symb = ''tETHUSD'' then Some [\<lparr>pubMts = 15, price = Some 30\<rparr>] else Some []),
     interruptedAt = (\<lambda>_. False), synonyms = []\<rparr>"

definition conv_sample_trxs :: "trx list" where
  "conv_sample_trxs =
     [(sample_trade 1 20 3 10 0)\<lparr>firstSymb := ''ETH'', lastSymb := ''UST'',
        firstSymbPriceUsd := None, lastSymbPriceUsd := None\<rparr>,
      sample_trade 2 10 2 50 0]"

lemma conv_sample_run:
  obtains s' where "convertCurrencies conv_sample_env [1] conv_sample_trxs [] 0 = Go s'"
    "map firstSymbPriceUsd (cvTrxs s') = [Some 30, Some 50]" "cvDelisted s' = []"
    "map convPricePropName (cvCalcs s') = [FIRST_SYMB_PRICE]"
proof -
  let ?r = "convertCurrencies conv_sample_env [1] conv_sample_trxs [] 0"
  have "(case ?r of Go s \<Rightarrow> Some (map firstSymbPriceUsd (cvTrxs s), cvDelisted s,
      map convPricePropName (cvCalcs s)) | _ \<Rightarrow> None) = Some ([Some 30, Some 50], [], [FIRST_SYMB_PRICE])"
    by code_simp
  then show thesis by (cases ?r) (auto intro: that)
qed

lemma conv_sample_facts:
  "distinct (map oid conv_sample_trxs)" "set [1] \<subseteq> oid ` set conv_sample_trxs"
  "trxMapByCcy (getTrxMapByCcy (tax_env.truncate conv_sample_env) (map (get_trx conv_sample_trxs) [1]))
     = [(''ETH'', [0])]"
  by code_simp+

text \<open>
  Converting currencies changes prices only. Whatever the API answers and whether or not the
  conversion is interrupted, every transaction keeps everything but its prices and its USD value,
  and a transaction that is not on the list for conversion keeps those too.
\<close>

theorem convertCurrencies_prices:
  assumes "flow_state (convertCurrencies env conv ts delisted k) = Some s'"
    "distinct (map oid ts)" "set conv \<subseteq> oid ` set ts"
  shows "list_all2 (\<lambda>t t'. unpriced t' = unpriced t \<and> (oid t \<notin> set conv \<longrightarrow> t' = t)) ts (cvTrxs s')"
  using convertCurrencies_only_prices[OF assms] by (simp add: only_prices_def)

lemma convertCurrencies_prices_witness:
  "\<exists>s' t t'. convertCurrencies conv_sample_env [1] conv_sample_trxs [] 0 = Go s'
     \<and> cvTrxs s' = [t, t'] \<and> firstSymbPriceUsd t = Some 30 \<and> execAmount t = Some 3
     \<and> t' = sample_trade 2 10 2 50 0"
proof -
  obtain s' where s': "convertCurrencies conv_sample_env [1] conv_sample_trxs [] 0 = Go s'"
    "map firstSymbPriceUsd (cvTrxs s') = [Some 30, Some 50]"
    by (rule conv_sample_run)
  from s'(1) have "flow_state (convertCurrencies conv_sample_env [1] conv_sample_trxs [] 0) = Some s'"
    by simp
  from convertCurrencies_prices[OF this conv_sample_facts(1,2)] s'(2)
  obtain t t' where "cvTrxs s' = [t, t']" "unpriced t = unpriced (hd conv_sample_trxs)"
    "t' = sample_trade 2 10 2 50 0"
    by (auto simp: conv_sample_trxs_def list_all2_Cons1 sample_trade_def)
  moreover from this(2) have "execAmount t = execAmount (hd conv_sample_trxs)"
    by (drule_tac arg_cong[where f = execAmount]) (simp add: unpriced_def)
  ultimately show ?thesis using s' by (auto simp: conv_sample_trxs_def sample_trade_def)
qed

text \<open>
  No transaction is left without a price silently. When a conversion is not interrupted and
  does not fail, every calculator has set the USD price of its transaction (the crypto side of a
  triangulation has found its public price), or its currency is recorded as delisted.
\<close>

theorem convertCurrencies_settled:
  assumes "convertCurrencies env conv ts delisted k = Go s'"
    "distinct (map oid ts)" "set conv \<subseteq> oid ` set ts"
    "(symb, idx) \<in> set (trxMapByCcy (getTrxMapByCcy (tax_env.truncate env) (map (get_trx ts) conv)))"
    "ci \<in> set idx" "c = cvCalcs s' ! ci"
  shows "symb \<in> set (map_keys (cvDelisted s'))
    \<or> finite_nonzero (pubTradePrice c)
       \<and> (kindOfCcyForTriangulation c = Some IS_CRYPTO_CCY_FOR_TRIANGULATION
          \<or> price_of (convPricePropName c) (get_trx (cvTrxs s') (calcTrx c)) \<noteq> None)"
proof -
  let ?m = "getTrxMapByCcy (tax_env.truncate env) (map (get_trx ts) conv)"
  have st: "flow_state (convertCurrencies env conv ts delisted k) = Some s'" using assms(1) by simp
  obtain s0 s where run: "conv_inv (set conv) s0 s0"
    "\<forall>e\<in>set (trxMapByCcy ?m). \<forall>ci\<in>set (snd e). ci < length (cvCalcs s0)"
    "for_loop (ccy_step env (totalTrxAmount ?m)) (trxMapByCcy ?m) s0 = Go s"
    "cvTrxs s' = cvTrxs s" "cvCalcs s' = cvCalcs s" "cvDelisted s' = cvDelisted s"
    using convertCurrencies_run[OF assms(2,3) refl refl st] assms(1) by metis
  from ccy_loop_settled[OF run(1-3)] assms(4,5) have "settled symb ci s" by force
  with run(4-6) assms(6) show ?thesis by (auto simp: settled_def priced_def has_price_def)
qed

lemma convertCurrencies_settled_witness:
  "\<exists>s' t. convertCurrencies conv_sample_env [1] conv_sample_trxs [] 0 = Go s'
     \<and> t = get_trx (cvTrxs s') (calcTrx (cvCalcs s' ! 0))
     \<and> (finite_nonzero (pubTradePrice (cvCalcs s' ! 0)) \<or> cvDelisted s' \<noteq> [])"
proof -
  obtain s' where s': "convertCurrencies conv_sample_env [1] conv_sample_trxs [] 0 = Go s'"
    by (rule conv_sample_run)
  have "(''ETH'', [0]) \<in> set (trxMapByCcy (getTrxMapByCcy (tax_env.truncate conv_sample_env)
      (map (get_trx conv_sample_trxs) [1])))"
    unfolding conv_sample_facts(3) by simp
  from convertCurrencies_settled[OF s' conv_sample_facts(1,2) this, of 0 "cvCalcs s' ! 0"] s'
  show ?thesis by (auto simp: map_keys_def)
qed

end
