(* ===== verification/Tax_Full.thy ===== *)
theory Tax_Full
  imports Tax_Convert
begin

text \<open>
  \<^verbatim>\<open>getTransactionTaxReport\<close> of \<^verbatim>\<open>transaction.tax.report/index.js\<close>: the report as a whole. The
  transactions of the period are read; those before it go through a preliminary look-up, whose open
  lots join the period; missing prices are converted; the second look-up gives the rows.

  \<open>dbRows a b\<close> are the rows that the database returns for the times \<open>a\<close> to \<open>b\<close>: trades,
  withdrawals and deposits. \<open>now\<close> is \<^verbatim>\<open>Date.now()\<close>. A rejected promise is \<open>Inl\<close> of the error.
\<close>

datatype strategy = FIFO | LIFO

record report_env = conv_env +
  dbRows :: "int \<Rightarrow> int \<Rightarrow> trade_row list \<times> movement_row list \<times> movement_row list"

record report_params =
  pStart :: "int option"
  pEnd :: "int option"
  pStrategy :: "strategy option"
  pShouldFeesBeDeducted :: "bool option"

record report =
  taxes :: "tax_row list"
  delistedCcyList :: "string list"
  repEvents :: "report_event list"

definition lookup_env :: "'a conv_env_scheme \<Rightarrow> tax_env" where
  "lookup_env env = tax_env.truncate env"

definition period_trxs :: "report_env \<Rightarrow> nat \<Rightarrow> int \<Rightarrow> int \<Rightarrow> trx_batch" where
  "period_trxs env nid a b =
     (case dbRows env a b of (tr, wd, dp) \<Rightarrow> getTrxs (lookup_env env) nid tr wd dp)"

definition isBackIterative :: "strategy option \<Rightarrow> bool" where
  "isBackIterative st =
     (let strat = nullish st LIFO; isFIFO = (strat = FIFO); isLIFO = (strat = LIFO)
      in isFIFO \<and> \<not> isLIFO)"

definition report_opts :: "report_params \<Rightarrow> bool \<Rightarrow> lookup_opts" where
  "report_opts ps preliminary =
     \<lparr>isBackIterativeSaleLookUp = isBackIterative (pStrategy ps),
      isBackIterativeBuyLookUp = isBackIterative (pStrategy ps),
      isBuyTradesWithUnrealizedProfitRequired = preliminary,
      isNotGainOrLossRequired = preliminary,
      shouldFeesBeDeducted = nullish (pShouldFeesBeDeducted ps) False,
      shouldTaxablePaymentFlagBeSkipped = None\<rparr>"

definition unpriced_lot :: "trx \<Rightarrow> bool" where
  "unpriced_lot t \<longleftrightarrow> firstSymbPriceUsd t = None \<or> lastSymbPriceUsd t = None"

text \<open>Lines 185 to 217: the second look-up and what is returned.\<close>

definition report_result ::
  "report_env \<Rightarrow> report_params \<Rightarrow> conv_state \<Rightarrow> report_event list \<Rightarrow> tax_error + report" where
  "report_result env ps cs events =
     (case lookUpTrades (lookup_env env) (report_opts ps False) (interruptedAt env)
        \<lparr>trades = cvTrxs cs, delistedCcyMap = cvDelisted cs, polls = cvPolls cs\<rparr> of
        Inl e \<Rightarrow> Inl e
      | Inr (r, s) \<Rightarrow>
          if interruptedAt env (polls s)
          then Inr \<lparr>taxes = [], delistedCcyList = [], repEvents = events @ [EmitInterrupted]
                 @ emitProgress None GENERATION_INTERRUPTED\<rparr>
          else Inr \<lparr>taxes = saleTradesWithRealizedProfit r,
                 delistedCcyList = map_keys (delistedCcyMap s),
                 repEvents = events @ [EmitInterrupted]
                   @ emitProgress (Some 100) GENERATION_COMPLETED\<rparr>)"

definition cur_batch :: "report_env \<Rightarrow> int \<Rightarrow> report_params \<Rightarrow> trx_batch" where
  "cur_batch env now ps = period_trxs env 0 (nullish (pStart ps) 0) (nullish (pEnd ps) now)"

definition prev_trxs :: "report_env \<Rightarrow> int \<Rightarrow> report_params \<Rightarrow> trx list" where
  "prev_trxs env now ps =
     (let start = nullish (pStart ps) 0
      in if 0 < start
         then trxs (period_trxs env (nextFreeOid (cur_batch env now ps)) 0 (start - 1)) else [])"

definition preliminary_lookup ::
  "report_env \<Rightarrow> int \<Rightarrow> report_params \<Rightarrow> tax_error + lookup_result \<times> lookup_state" where
  "preliminary_lookup env now ps =
     lookUpTrades (lookup_env env) (report_opts ps True) (interruptedAt env)
       \<lparr>trades = prev_trxs env now ps, delistedCcyMap = [], polls = 0\<rparr>"

text \<open>Lines 171 to 183: the open lots join the period and, if unpriced, its list for conversion.\<close>

definition report_conversion ::
  "report_env \<Rightarrow> trx_batch \<Rightarrow> trx list \<Rightarrow> lookup_state \<Rightarrow> (tax_error, conv_state) flow" where
  "report_conversion env cur lots s =
     convertCurrencies env (trxsForConvToUsd cur @ map oid (filter unpriced_lot lots))
       (trxs cur @ lots) (delistedCcyMap s) (polls s)"

definition getTransactionTaxReport ::
  "report_env \<Rightarrow> int \<Rightarrow> report_params \<Rightarrow> tax_error + report" where
  "getTransactionTaxReport env now ps =
     (let started = emitProgress (Some 0) GENERATION_STARTED; cur = cur_batch env now ps
      in if trxs cur = []
         then Inr \<lparr>taxes = [], delistedCcyList = [], repEvents = started @ [EmitInterrupted]
                @ emitProgress (Some 100) GENERATION_COMPLETED\<rparr>
         else
           case preliminary_lookup env now ps of
             Inl e \<Rightarrow> Inl e
           | Inr (r, s) \<Rightarrow>
               (case report_conversion env cur (buyTradesWithUnrealizedProfit r) s of
                  Throw e \<Rightarrow> Inl e
                | Go cs \<Rightarrow> report_result env ps cs (started @ cvEvents cs)
                | Brk cs \<Rightarrow> report_result env ps cs (started @ cvEvents cs)
                | Ret cs \<Rightarrow> report_result env ps cs (started @ cvEvents cs)))"

lemma report_cases:
  assumes "getTransactionTaxReport env now ps = Inr rep"
  obtains (empty) "taxes rep = []" "delistedCcyList rep = []"
      "repEvents rep = emitProgress (Some 0) GENERATION_STARTED @ [EmitInterrupted]
         @ emitProgress (Some 100) GENERATION_COMPLETED"
  | (run) r s cs where "preliminary_lookup env now ps = Inr (r, s)"
      "flow_state (report_conversion env (cur_batch env now ps) (buyTradesWithUnrealizedProfit r) s)
         = Some cs"
      "report_result env ps cs (emitProgress (Some 0) GENERATION_STARTED @ cvEvents cs) = Inr rep"
proof (cases "trxs (cur_batch env now ps) = []")
  case True
  with assms show thesis by (intro empty) (auto simp: getTransactionTaxReport_def)
next
  case False
  with assms obtain r s where rs: "preliminary_lookup env now ps = Inr (r, s)"
    by (auto simp: getTransactionTaxReport_def Let_def split: sum.splits)
  with assms False show thesis
    by (cases "report_conversion env (cur_batch env now ps) (buyTradesWithUnrealizedProfit r) s")
      (auto simp: getTransactionTaxReport_def Let_def intro: run)
qed

subsection \<open>What a report tells its reader\<close>

text \<open>The events of a conversion: progress and write-backs, never an end of the report.\<close>

definition conv_event :: "report_event \<Rightarrow> bool" where
  "conv_event e = (case e of
     ProgressEvent p st \<Rightarrow> st \<in> {OBTAINING_CURRENCY_PRICES, TRANSACTION_HISTORY_GENERATION}
   | UpdateElems c b \<Rightarrow> True
   | _ \<Rightarrow> False)"

lemma conv_event_emit [simp]:
  "list_all conv_event (emitProgress p OBTAINING_CURRENCY_PRICES)"
  "list_all conv_event (emitProgress p TRANSACTION_HISTORY_GENERATION)"
  by (simp_all add: emitProgress_def conv_event_def)

lemma update_loop_events: "list_all conv_event (update_loop n xs bt bm bl)"
proof (induction xs arbitrary: bt bm bl)
  case (Cons x xs)
  have "list_all conv_event (snd (flush_coll n c isLast b))" for c isLast b
    by (simp add: flush_coll_def conv_event_def)
  with Cons show ?case by (simp add: Let_def case_prod_beta)
qed simp

lemma fetch_result_events:
  assumes "fetch_result symb mts s r" "flow_state r = Some s'"
  shows "cvEvents s' = cvEvents s"
  using assms by (cases r) (auto simp: fetch_result_def fetched_def)

lemma price_step_events:
  assumes "list_all conv_event (cvEvents s)" "flow_state (price_step env totalAmt ci s) = Some s'"
  shows "list_all conv_event (cvEvents s')"
  using assms by (auto simp: price_step_def Let_def split: sum.splits if_splits)

lemma calc_step_events:
  assumes "list_all conv_event (cvEvents s)" "flow_state (calc_step env symb totalAmt ci s) = Some s'"
  shows "list_all conv_event (cvEvents s')"
proof -
  let ?s = "(polled s)\<lparr>cvCount := Suc (cvCount s)\<rparr>"
  let ?c = "cvCalcs ?s ! ci"
  let ?mts = "mtsCreate (get_trx (cvTrxs ?s) (calcTrx ?c))"
  let ?f = "fetch_step env symb ?c ?mts ?s"
  have same: "cvEvents s1 = cvEvents s" if "flow_state ?f = Some s1" for s1
    using fetch_result_events[OF fetch_step_effect that] by simp
  show ?thesis
  proof (cases "interrupted env s")
    case True
    then show ?thesis using assms by (auto simp: calc_step_def Let_def)
  next
    case False
    note step = assms(2)[unfolded calc_step_def Let_def, simplified False if_False]
    show ?thesis
    proof (cases ?f)
      case (Go s1)
      with same have "cvEvents s1 = cvEvents s" by simp
      then show ?thesis
        using Go step assms(1) price_step_events[of s1 env totalAmt ci s']
        by (auto split: if_splits)
    qed (use step same assms(1) in auto)
  qed
qed

lemma ccy_step_events:
  assumes "list_all conv_event (cvEvents s)" "flow_state (ccy_step env totalAmt entry s) = Some s'"
  shows "list_all conv_event (cvEvents s')"
proof (cases "interrupted env s")
  case True
  then show ?thesis using assms by (auto simp: ccy_step_def)
next
  case False
  let ?s = "(polled s)\<lparr>cvPub := [], cvStart := None, cvEnd := None\<rparr>"
  show ?thesis
  proof (rule for_loop_invariant[where P = "\<lambda>s. list_all conv_event (cvEvents s)"])
    show "flow_state (for_loop (calc_step env (fst entry) totalAmt) (snd entry) ?s) = Some s'"
      using False assms(2) by (simp add: ccy_step_def)
  qed (use assms(1) calc_step_events in auto)
qed

lemma convertCurrencies_events:
  assumes "flow_state (convertCurrencies env conv ts delisted k) = Some s'"
  shows "list_all conv_event (cvEvents s')"
proof -
  let ?m = "getTrxMapByCcy (tax_env.truncate env) (map (get_trx ts) conv)"
  let ?s0 = "\<lparr>cvTrxs = ts, cvCalcs = ccyCalculators ?m, cvDelisted = delisted, cvPolls = k,
    cvCalls = 0, cvCount = 0, cvProgress = 0, cvEvents = [], cvPub = [], cvStart = None, cvEnd = None\<rparr>"
  let ?r = "for_loop (ccy_step env (totalTrxAmount ?m)) (trxMapByCcy ?m) ?s0"
  have "list_all conv_event (cvEvents s)" if "flow_state ?r = Some s" for s
    by (rule for_loop_invariant[where P = "\<lambda>s. list_all conv_event (cvEvents s)", OF _ _ that])
      (use ccy_step_events in auto)
  then show ?thesis
    using assms
    by (cases ?r) (auto simp: convertCurrencies_def Let_def updateExactUsdValueInColls_def update_loop_events)
qed

text \<open>
  C6: how a report ends. A report that does not fail emits its start, then only progress and
  write-backs of the conversion, then ends exactly once: either it is announced as completed
  (with the message that it is ready), or it was interrupted, which takes a request to stop, and
  hands out nothing at all.
\<close>

theorem getTransactionTaxReport_events:
  assumes "getTransactionTaxReport env now ps = Inr rep"
  shows "\<exists>mid. list_all conv_event mid \<and>
    (repEvents rep = ProgressEvent (Some 0) GENERATION_STARTED # mid
       @ [EmitInterrupted, ProgressEvent (Some 100) GENERATION_COMPLETED, ReadyTrxTaxReport]
     \<or> repEvents rep = ProgressEvent (Some 0) GENERATION_STARTED # mid
       @ [EmitInterrupted, ProgressEvent None GENERATION_INTERRUPTED]
       \<and> taxes rep = [] \<and> delistedCcyList rep = [] \<and> (\<exists>n. interruptedAt env n))"
proof -
  have emits: "emitProgress (Some 0) GENERATION_STARTED = [ProgressEvent (Some 0) GENERATION_STARTED]"
    "emitProgress (Some 100) GENERATION_COMPLETED
       = [ProgressEvent (Some 100) GENERATION_COMPLETED, ReadyTrxTaxReport]"
    "emitProgress None GENERATION_INTERRUPTED = [ProgressEvent None GENERATION_INTERRUPTED]"
    by (simp_all add: emitProgress_def)
  show ?thesis
    using assms
  proof (cases rule: report_cases)
    case empty
    then show ?thesis by (intro exI[of _ "[]"]) (simp add: emits)
  next
    case (run r s cs)
    then show ?thesis
      using convertCurrencies_events[OF run(2)[unfolded report_conversion_def]]
      by (intro exI[of _ "cvEvents cs"])
        (auto simp: report_result_def emits split: sum.splits if_splits)
  qed
qed

end
