(* ===== verification/Tax_Period.thy ===== *)
theory Tax_Period
  imports Tax_Full
begin

text \<open>
  Which transactions a tax report is about: the preliminary look-up gives no rows and records no
  currency, and every row of the report comes from a transaction of the requested period.
\<close>

subsection \<open>What a look-up never assigns\<close>

definition core :: "trx \<Rightarrow> nat \<times> int \<times> bool" where
  "core t = (oid t, mtsCreate t, isBuyTradesWithUnrealizedProfitForPrevPeriod t)"

lemma core_views [simp]:
  "core (init_trade t) = core t" "core (init_lot t) = core t" "core (set_pair env t) = core t"
  "core (classify_trade env t) = core t" "core (finish_sale a p x t) = core t"
  "core (close_lot u x a p t) = core t" "core (t\<lparr>noPriceUsd := b\<rparr>) = core t"
  "core (t\<lparr>cumulativeTrxFeesUsd := f\<rparr>) = core t" "core (t\<lparr>isBuyTrx := c\<rparr>) = core t"
  by (simp_all add: core_def init_trade_def init_lot_def set_pair_def classify_trade_def Let_def
      finish_sale_def close_lot_def)

lemma core_sale_view [simp]: "core (sale_view env t) = core t" "core (lot_view env t) = core t"
  by (simp_all add: sale_view_def lot_view_def)

lemma core_link_refs: "link_refs t l = (t', l') \<Longrightarrow> core t' = core t \<and> core l' = core l"
  by (auto simp: link_refs_def core_def)

lemma core_fill: "fill_from_lot env opts sa sp ba bp t l = (t', l') \<Longrightarrow> core t' = core t \<and> core l' = core l"
  by (auto simp: fill_from_lot_def core_def Let_def split: if_splits)

lemma core_update: "core x = core (ts ! i) \<Longrightarrow> map core (ts[i := x]) = map core ts"
  by (cases "i < length ts") (simp_all add: map_update_same list_update_beyond)

lemma core_update2:
  assumes "core x = core (ts ! i)" "core y = core (ts ! j)"
  shows "map core (ts[i := x, j := y]) = map core ts"
proof -
  have "(map core ts)[i := core x] = map core ts" "(map core ts)[j := core y] = map core ts"
    using core_update[OF assms(1)] core_update[OF assms(2)] by (simp_all add: map_update)
  then show ?thesis by (simp add: map_update)
qed

lemma lot_step_core:
  assumes "flow_state (lot_step env opts intr i sa sp x j s) = Some s'"
  shows "map core (trades s') = map core (trades s)"
  using assms
proof (cases rule: lot_step_effect)
  case none
  then show ?thesis by simp
next
  case (lot l)
  then show ?thesis by (auto intro!: core_update)
next
  case (unpriced t l)
  from core_link_refs[OF unpriced(1)] unpriced(3) show ?thesis by (auto intro!: core_update2)
next
  case (fill t l t' l' bp)
  from core_link_refs[OF fill(1)] core_fill[OF fill(5)] fill(6) show ?thesis
    by (auto intro!: core_update2)
qed

lemma lot_loop_core:
  assumes "flow_state (for_loop (lot_step env opts intr i sa sp x) js s) = Some s'"
  shows "map core (trades s') = map core (trades s)"
  by (rule for_loop_invariant[where P = "\<lambda>s1. map core (trades s1) = map core (trades s)", OF _ _ assms])
    (auto dest: lot_step_core)

lemma sale_step_core:
  assumes "flow_state (sale_step env opts intr i s) = Some s'"
  shows "map core (trades s') = map core (trades s)"
  using assms
proof (cases rule: sale_step_effect)
  case (same t)
  then show ?thesis by (auto intro!: core_update)
next
  case (loop t sp s2 r)
  have s2: "map core (trades s2) = map core (trades s)"
    using loop(1,2) by (auto intro!: core_update)
  from loop(5) consider (ret) "r = Ret s'" | (go) s3 y z where "r = Go s3"
    "trades s' = (trades s3)[i := finish_sale y sp z (trades s3 ! i)]"
    by blast
  then show ?thesis
  proof cases
    case ret
    then have "flow_state r = Some s'" by simp
    from lot_loop_core[OF this[unfolded loop(4)]] s2 show ?thesis by simp
  next
    case go
    then have "flow_state r = Some s3" by simp
    from lot_loop_core[OF this[unfolded loop(4)]] s2 go(2) show ?thesis by (simp add: core_update)
  qed
qed

lemma sale_loop_core:
  assumes "flow_state (for_loop (sale_step env opts intr) is s) = Some s'"
  shows "map core (trades s') = map core (trades s)"
  by (rule for_loop_invariant[where P = "\<lambda>s1. map core (trades s1) = map core (trades s)", OF _ _ assms])
    (auto dest: sale_step_core)

subsection \<open>The preliminary look-up\<close>

lemma lot_step_quiet_map:
  assumes "isNotGainOrLossRequired opts" "flow_state (lot_step env opts intr i sa sp x j s) = Some s'"
  shows "delistedCcyMap s' = delistedCcyMap s"
  using assms
  by (auto simp: lot_step_def Let_def put_trade_def buy_price_of_def case_prod_beta split: if_splits)

lemma lot_loop_quiet_map:
  assumes "isNotGainOrLossRequired opts"
    "flow_state (for_loop (lot_step env opts intr i sa sp x) js s) = Some s'"
  shows "delistedCcyMap s' = delistedCcyMap s"
  by (rule for_loop_invariant[where P = "\<lambda>s1. delistedCcyMap s1 = delistedCcyMap s", OF _ _ assms(2)])
    (auto dest: lot_step_quiet_map[OF assms(1)])

lemma sale_step_quiet_map:
  assumes "isNotGainOrLossRequired opts" "flow_state (sale_step env opts intr i s) = Some s'"
  shows "delistedCcyMap s' = delistedCcyMap s"
  using assms(2)
  by (auto simp: sale_step_def Let_def put_trade_def sale_price_of_def assms(1)
      split: if_splits flow.splits
      dest: lot_loop_quiet_map[OF assms(1), OF arg_cong[where f = flow_state, THEN trans]])

lemma sale_loop_quiet_map:
  assumes "isNotGainOrLossRequired opts"
    "flow_state (for_loop (sale_step env opts intr) is s) = Some s'"
  shows "delistedCcyMap s' = delistedCcyMap s"
  by (rule for_loop_invariant[where P = "\<lambda>s1. delistedCcyMap s1 = delistedCcyMap s", OF _ _ assms(2)])
    (auto dest: sale_step_quiet_map[OF assms(1)])

text \<open>
  The preliminary look-up only finds the open lots. With the options of the preliminary
  look-up no row is made and no currency is recorded as delisted, and every lot handed on is an
  acquisition of the look-up that is not used up and is marked as carried over.
\<close>

theorem lookUpTrades_preliminary:
  assumes "lookUpTrades env opts intr s = Inr (r, s')"
    "isNotGainOrLossRequired opts" "isBuyTradesWithUnrealizedProfitRequired opts"
  shows "saleTradesWithRealizedProfit r = [] \<and> delistedCcyMap s' = delistedCcyMap s
    \<and> list_all (\<lambda>t. t \<in> set (trades s') \<and> isBuyTrx t = Some True
         \<and> isBuyTrxHistFilled t \<noteq> Some True
         \<and> isBuyTradesWithUnrealizedProfitForPrevPeriod t) (buyTradesWithUnrealizedProfit r)"
  using assms(1)
proof (cases rule: lookUpTrades_cases)
  case empty
  then show ?thesis by (simp add: no_result_def)
next
  case interrupted
  with sale_loop_quiet_map[OF assms(2), of env intr "sale_indices opts (length (trades s))" s s']
  show ?thesis by (simp add: no_result_def)
next
  case (finished s1)
  have "delistedCcyMap s1 = delistedCcyMap s"
    using sale_loop_quiet_map[OF assms(2), of env intr _ s s1] finished(1) by (metis flow_state.simps(1))
  moreover have "row_of env opts t = None" for t
    using assms(3) by (simp add: row_of_def)
  moreover have "isBuyTrx t = Some True" if "is_open_lot opts t" for t
    using that by (cases "isBuyTrx t") (auto simp: is_open_lot_def)
  moreover have "isBuyTrxHistFilled t \<noteq> Some True" if "is_open_lot opts t" for t
    using that by (auto simp: is_open_lot_def buy_hist_filled_def)
  ultimately show ?thesis
    using finished(2)
    by (auto simp: collect_result_def Let_def List.map_filter_def list_all_iff mark_open_lot_def)
qed

definition preliminary_opts :: lookup_opts where
  "preliminary_opts = sample_opts\<lparr>isBuyTradesWithUnrealizedProfitRequired := True,
     isNotGainOrLossRequired := True\<rparr>"

lemma preliminary_opts_simps [simp]:
  "isNotGainOrLossRequired preliminary_opts" "isBuyTradesWithUnrealizedProfitRequired preliminary_opts"
  by (simp_all add: preliminary_opts_def)

lemma preliminary_sample_run:
  obtains r s' where "lookUpTrades sample_env preliminary_opts (\<lambda>_. False) sample_state = Inr (r, s')"
    "map oid (buyTradesWithUnrealizedProfit r) = [2]"
proof -
  have "map_sum (\<lambda>_. ()) (\<lambda>(r, s). map oid (buyTradesWithUnrealizedProfit r))
      (lookUpTrades sample_env preliminary_opts (\<lambda>_. False) sample_state) = Inr [2]"
    by code_simp
  then show thesis
    by (cases "lookUpTrades sample_env preliminary_opts (\<lambda>_. False) sample_state") (auto intro: that)
qed

lemma lookUpTrades_preliminary_witness:
  "\<exists>r s' t. lookUpTrades sample_env preliminary_opts (\<lambda>_. False) sample_state = Inr (r, s')
     \<and> buyTradesWithUnrealizedProfit r = [t] \<and> isBuyTradesWithUnrealizedProfitForPrevPeriod t
     \<and> saleTradesWithRealizedProfit r = []"
proof -
  obtain r s' where run: "lookUpTrades sample_env preliminary_opts (\<lambda>_. False) sample_state = Inr (r, s')"
    "map oid (buyTradesWithUnrealizedProfit r) = [2]"
    by (rule preliminary_sample_run)
  from lookUpTrades_preliminary[OF run(1)] run show ?thesis by auto
qed

subsection \<open>Rows and the period\<close>

text \<open>Where a row comes from: a transaction of the look-up that was not carried over.\<close>

definition row_about :: "tax_row \<Rightarrow> int \<Rightarrow> bool" where
  "row_about row m \<longleftrightarrow>
     (mtsSold row = Some m \<and> (\<forall>a. mtsAcquired row = Some a \<longrightarrow> a \<le> m))
     \<or> (mtsSold row = None \<and> mtsAcquired row = Some m)"

lemma lookUpTrades_row_core:
  assumes "lookUpTrades env opts intr s = Inr (res, s')" "sales_ok opts (trades s)"
    "row \<in> set (saleTradesWithRealizedProfit res)"
  obtains t where "t \<in> set (trades s)" "\<not> isBuyTradesWithUnrealizedProfitForPrevPeriod t"
    "row_about row (mtsCreate t)"
  using assms(1)
proof (cases rule: lookUpTrades_cases)
  case empty
  then show thesis using assms(3) by (simp add: no_result_def)
next
  case interrupted
  then show thesis using assms(3) by (simp add: no_result_def)
next
  case (finished s1)
  from finished(2) assms(3) obtain t where t: "t \<in> set (trades s1)"
    "row_of env opts (mark_open_lot opts t) = Some row"
    by (auto simp: collect_result_def Let_def List.map_filter_def)
  then have "\<not> isBuyTradesWithUnrealizedProfitRequired opts"
    by (auto simp: row_of_def split: if_splits)
  with t(2) have row: "row_of env opts t = Some row" by (simp add: sale_side_mark)
  have "sale_complete opts t"
    using sale_loop_ok[OF finished(1) assms(2)] t(1) by (simp add: sales_ok_def list_all_iff)
  with row have about: "row_about row (mtsCreate t)" "\<not> isBuyTradesWithUnrealizedProfitForPrevPeriod t"
    by (auto simp: row_of_def row_about_def taxable_row_def sale_row_def sale_complete_def Let_def
        split: if_splits)
  have "map core (trades s1) = map core (trades s)"
    using sale_loop_core[of env opts intr _ s s1] finished(1) by (metis flow_state.simps(1))
  then have "core t \<in> core ` set (trades s)" using t(1) by (metis image_eqI set_map)
  then obtain u where "u \<in> set (trades s)" "core u = core t" by auto
  with about that show thesis by (auto simp: core_def)
qed

text \<open>The arrays the two look-ups start from.\<close>

lemma fresh_sales_ok:
  assumes "sorted_wrt (\<lambda>t u. mtsCreate u \<le> mtsCreate t) ts" "\<forall>t\<in>set ts. fresh t"
  shows "sales_ok opts ts"
  using assms
  by (auto simp: sales_ok_def list_all_iff sale_complete_def refs_before_def refs_of_def fresh_def)

lemma open_lots_ok:
  assumes "lookUpTrades env opts intr s = Inr (r, s')" "sales_ok opts (trades s)"
    and lots: "lots = buyTradesWithUnrealizedProfit r"
  shows "sorted_wrt (\<lambda>t u. mtsCreate u \<le> mtsCreate t) lots"
    "\<forall>t\<in>set lots. isBuyTradesWithUnrealizedProfitForPrevPeriod t \<and> refs_before t"
    "mtsCreate ` set lots \<subseteq> mtsCreate ` set (trades s)"
    "oid ` set lots \<subseteq> oid ` set (trades s)"
    "distinct (map oid (trades s)) \<Longrightarrow> distinct (map oid lots)"
proof -
  have "sorted_wrt (\<lambda>t u. mtsCreate u \<le> mtsCreate t) lots
    \<and> (\<forall>t\<in>set lots. isBuyTradesWithUnrealizedProfitForPrevPeriod t \<and> refs_before t)
    \<and> mtsCreate ` set lots \<subseteq> mtsCreate ` set (trades s) \<and> oid ` set lots \<subseteq> oid ` set (trades s)
    \<and> (distinct (map oid (trades s)) \<longrightarrow> distinct (map oid lots))"
    using assms(1)
  proof (cases rule: lookUpTrades_cases)
    case empty
    then show ?thesis by (simp add: lots no_result_def)
  next
    case interrupted
    then show ?thesis by (simp add: lots no_result_def)
  next
    case (finished s1)
    let ?os = "filter (is_open_lot opts) (trades s1)"
    have l: "lots = map (mark_open_lot opts) ?os"
      using finished(2) by (auto simp: lots collect_result_def Let_def)
    have mark: "mtsCreate (mark_open_lot opts t) = mtsCreate t" "oid (mark_open_lot opts t) = oid t"
      "refs_before (mark_open_lot opts t) = refs_before t" for t
      by (simp_all add: mark_open_lot_def refs_before_def refs_of_def)
    have flag: "is_open_lot opts t \<Longrightarrow> isBuyTradesWithUnrealizedProfitForPrevPeriod (mark_open_lot opts t)"
      for t by (simp add: mark_open_lot_def)
    have core: "map core (trades s1) = map core (trades s)"
      using sale_loop_core[of env opts intr _ s s1] finished(1) by (metis flow_state.simps(1))
    then have maps: "map mtsCreate (trades s1) = map mtsCreate (trades s)"
      "map oid (trades s1) = map oid (trades s)"
      by (auto dest!: arg_cong[where f = "map (fst \<circ> snd)"] simp: core_def comp_def)
        (metis (no_types, lifting) core core_def fst_conv list.map_comp map_eq_conv comp_apply)
    have ok: "sales_ok opts (trades s1)" by (rule sale_loop_ok[OF finished(1) assms(2)])
    then have "sorted_wrt (\<lambda>t u. mtsCreate u \<le> mtsCreate t) ?os"
      by (simp add: sales_ok_def sorted_wrt_filter)
    moreover have "\<forall>t\<in>set ?os. refs_before t" using ok by (simp add: sales_ok_def list_all_iff)
    moreover have "mtsCreate ` set ?os \<subseteq> mtsCreate ` set (trades s)"
      using maps(1) by (metis filter_is_subset image_mono set_map)
    moreover have "oid ` set ?os \<subseteq> oid ` set (trades s)"
      using maps(2) by (metis filter_is_subset image_mono set_map)
    moreover have "distinct (map oid (trades s)) \<longrightarrow> distinct (map oid ?os)"
      using maps(2) by (metis distinct_map_filter)
    ultimately show ?thesis
      by (auto simp: l mark flag sorted_wrt_map comp_def image_image)
  qed
  then show "sorted_wrt (\<lambda>t u. mtsCreate u \<le> mtsCreate t) lots"
    "\<forall>t\<in>set lots. isBuyTradesWithUnrealizedProfitForPrevPeriod t \<and> refs_before t"
    "mtsCreate ` set lots \<subseteq> mtsCreate ` set (trades s)"
    "oid ` set lots \<subseteq> oid ` set (trades s)"
    "distinct (map oid (trades s)) \<Longrightarrow> distinct (map oid lots)" by blast+
qed

text \<open>What the database promises: the rows it returns for a period lie in it.\<close>

definition rows_in_period :: "report_env \<Rightarrow> bool" where
  "rows_in_period env \<longleftrightarrow> (\<forall>a b. case dbRows env a b of (tr, wd, dp) \<Rightarrow>
     rows_in (\<lambda>m. a \<le> m \<and> m \<le> b) tr wd dp)"

lemma period_trxs_facts:
  assumes "rows_in_period env"
  shows "sorted_wrt (\<lambda>t u. mtsCreate u \<le> mtsCreate t) (trxs (period_trxs env nid a b))"
    "\<forall>t\<in>set (trxs (period_trxs env nid a b)). fresh t \<and> nid \<le> oid t
       \<and> oid t < nextFreeOid (period_trxs env nid a b) \<and> a \<le> mtsCreate t \<and> mtsCreate t \<le> b"
    "distinct (map oid (trxs (period_trxs env nid a b)))"
    "set (trxsForConvToUsd (period_trxs env nid a b)) \<subseteq> oid ` set (trxs (period_trxs env nid a b))"
proof -
  obtain tr wd dp where rows: "dbRows env a b = (tr, wd, dp)" by (cases "dbRows env a b")
  have "rows_in (\<lambda>m. a \<le> m \<and> m \<le> b) tr wd dp"
    using assms unfolding rows_in_period_def by (metis (mono_tags, lifting) rows case_prod_conv)
  note facts = getTrxs_facts(1-6)[where env = "lookup_env env" and nid = nid and tradeRows = tr
      and withdrawals = wd and deposits = dp]
    getTrxs_facts(7)[where T = "\<lambda>m. a \<le> m \<and> m \<le> b" and env = "lookup_env env" and nid = nid]
  have p: "period_trxs env nid a b = getTrxs (lookup_env env) nid tr wd dp"
    by (simp add: period_trxs_def rows)
  show "sorted_wrt (\<lambda>t u. mtsCreate u \<le> mtsCreate t) (trxs (period_trxs env nid a b))"
    "distinct (map oid (trxs (period_trxs env nid a b)))"
    unfolding p by (fact facts)+
  show "set (trxsForConvToUsd (period_trxs env nid a b)) \<subseteq> oid ` set (trxs (period_trxs env nid a b))"
    unfolding p using facts(6) by blast
  show "\<forall>t\<in>set (trxs (period_trxs env nid a b)). fresh t \<and> nid \<le> oid t
       \<and> oid t < nextFreeOid (period_trxs env nid a b) \<and> a \<le> mtsCreate t \<and> mtsCreate t \<le> b"
    unfolding p using facts(2) facts(7)[OF \<open>rows_in _ tr wd dp\<close>] by blast
qed

text \<open>The array the second look-up starts from.\<close>

definition second_array_ok :: "int \<Rightarrow> int \<Rightarrow> trx list \<Rightarrow> bool" where
  "second_array_ok a b ts \<longleftrightarrow>
     sorted_wrt (\<lambda>t u. mtsCreate u \<le> mtsCreate t) ts \<and> distinct (map oid ts)
     \<and> (\<forall>t\<in>set ts. refs_before t
          \<and> (isBuyTradesWithUnrealizedProfitForPrevPeriod t
             \<or> isSaleTrx t = None \<and> a \<le> mtsCreate t \<and> mtsCreate t \<le> b))"

lemma second_array:
  assumes db: "rows_in_period env" and "preliminary_lookup env now ps = Inr (r, s)"
  shows "second_array_ok (nullish (pStart ps) 0) (nullish (pEnd ps) now)
    (trxs (cur_batch env now ps) @ buyTradesWithUnrealizedProfit r)"
proof -
  let ?a = "nullish (pStart ps) 0" and ?b = "nullish (pEnd ps) now"
  let ?cur = "cur_batch env now ps" and ?prev = "prev_trxs env now ps"
  let ?lots = "buyTradesWithUnrealizedProfit r"
  note cur = period_trxs_facts[OF db, of 0 ?a ?b, folded cur_batch_def]
  have prev: "sorted_wrt (\<lambda>t u. mtsCreate u \<le> mtsCreate t) ?prev" "\<forall>t\<in>set ?prev. fresh t"
    "distinct (map oid ?prev)" "\<forall>t\<in>set ?prev. nextFreeOid ?cur \<le> oid t \<and> mtsCreate t < ?a"
    using period_trxs_facts[OF db, of "nextFreeOid ?cur" 0 "?a - 1"]
    by (auto simp: prev_trxs_def Let_def)
  note lots = open_lots_ok[OF assms(2)[unfolded preliminary_lookup_def] _ refl, simplified,
      OF fresh_sales_ok[OF prev(1,2)]]
  have early: "mtsCreate t < ?a" "nextFreeOid ?cur \<le> oid t" if "t \<in> set ?lots" for t
    using that lots(3,4) prev(4) by (auto dest!: subsetD[OF _ imageI])
  have "sorted_wrt (\<lambda>t u. mtsCreate u \<le> mtsCreate t) (trxs ?cur @ ?lots)"
    using cur(1,2) lots(1) early by (fastforce simp: sorted_wrt_append)
  moreover have "distinct (map oid (trxs ?cur @ ?lots))"
    using cur(2,3) lots(5)[OF prev(3)] early by fastforce
  moreover have "refs_before t" if "t \<in> set (trxs ?cur @ ?lots)" for t
    using that cur(2) lots(2) by (auto simp: refs_before_def refs_of_def fresh_def)
  ultimately show ?thesis
    using cur(2) lots(2) by (auto simp: second_array_ok_def fresh_def)
qed

text \<open>Conversion keeps it.\<close>

lemma unpriced_fields:
  assumes "unpriced t' = unpriced t"
  shows "mtsCreate t' = mtsCreate t" "oid t' = oid t" "isSaleTrx t' = isSaleTrx t"
    "buyTrxsForRealizedProfit t' = buyTrxsForRealizedProfit t"
    "isBuyTradesWithUnrealizedProfitForPrevPeriod t' = isBuyTradesWithUnrealizedProfitForPrevPeriod t"
  using arg_cong[OF assms, of mtsCreate] arg_cong[OF assms, of oid] arg_cong[OF assms, of isSaleTrx]
    arg_cong[OF assms, of buyTrxsForRealizedProfit]
    arg_cong[OF assms, of isBuyTradesWithUnrealizedProfitForPrevPeriod]
  by (simp_all add: unpriced_def)

lemma second_array_converted:
  assumes "second_array_ok a b ts" "only_prices ids ts ts'"
  shows "second_array_ok a b ts'"
proof -
  have rel: "list_all2 (\<lambda>t t'. unpriced t' = unpriced t) ts ts'"
    using assms(2) by (auto simp: only_prices_def elim: list_all2_mono)
  then have "map mtsCreate ts' = map mtsCreate ts" "map oid ts' = map oid ts"
    by (induction rule: list_all2_induct) (auto dest: unpriced_fields)
  moreover have "\<exists>t\<in>set ts. unpriced t' = unpriced t" if "t' \<in> set ts'" for t'
    using rel that by (induction rule: list_all2_induct) auto
  ultimately show ?thesis
    using assms(1) unfolding second_array_ok_def sorted_mts_map
    by (metis (no_types, lifting) unpriced_fields refs_before_def refs_of_def)
qed

lemma second_array_sales_ok: "second_array_ok a b ts \<Longrightarrow> sales_ok opts ts"
  by (auto simp: second_array_ok_def sales_ok_def list_all_iff sale_complete_def)

text \<open>
  C5: the report is about the requested period only. Given a database that returns rows of the
  period it is asked for, every row of a report is about a transaction of the period: a sale row
  has its date of sale in the period (and its acquisition is not later), a row of a taxable payment
  its date of acquisition.
\<close>

theorem getTransactionTaxReport_period:
  assumes "getTransactionTaxReport env now ps = Inr rep" "rows_in_period env" "row \<in> set (taxes rep)"
  shows "\<exists>m. nullish (pStart ps) 0 \<le> m \<and> m \<le> nullish (pEnd ps) now
    \<and> ((mtsSold row = Some m \<and> (\<forall>a. mtsAcquired row = Some a \<longrightarrow> a \<le> m))
       \<or> (mtsSold row = None \<and> mtsAcquired row = Some m))"
  using assms(1)
proof (cases rule: report_cases)
  case empty
  then show ?thesis using assms(3) by simp
next
  case (run r s cs)
  let ?a = "nullish (pStart ps) 0" and ?b = "nullish (pEnd ps) now"
  let ?ts = "trxs (cur_batch env now ps) @ buyTradesWithUnrealizedProfit r"
  have ts: "second_array_ok ?a ?b ?ts" by (rule second_array[OF assms(2) run(1)])
  have "set (trxsForConvToUsd (cur_batch env now ps)
      @ map oid (filter unpriced_lot (buyTradesWithUnrealizedProfit r))) \<subseteq> oid ` set ?ts"
    using period_trxs_facts(4)[OF assms(2), of 0 ?a ?b] by (auto simp: cur_batch_def)
  with convertCurrencies_only_prices[OF run(2)[unfolded report_conversion_def]] ts
  have cs: "second_array_ok ?a ?b (cvTrxs cs)"
    by (auto simp: second_array_ok_def[of _ _ ?ts] intro: second_array_converted[OF ts])
  from run(3) assms(3) obtain res s2 where look: "lookUpTrades (lookup_env env) (report_opts ps False)
      (interruptedAt env) \<lparr>trades = cvTrxs cs, delistedCcyMap = cvDelisted cs, polls = cvPolls cs\<rparr>
      = Inr (res, s2)" "row \<in> set (saleTradesWithRealizedProfit res)"
    by (auto simp: report_result_def split: sum.splits if_splits)
  obtain t where "t \<in> set (cvTrxs cs)" "\<not> isBuyTradesWithUnrealizedProfitForPrevPeriod t"
    "row_about row (mtsCreate t)"
    using lookUpTrades_row_core[OF look(1) _ look(2)] second_array_sales_ok[OF cs] by auto
  with cs show ?thesis by (auto simp: second_array_ok_def row_about_def)
qed

subsection \<open>A sample report\<close>

text \<open>A lot of 2 BTC bought at time 10 for 50 USD each; a report from 15 on about the sale at 20.\<close>

definition sample_rows :: "trade_row list" where
  "sample_rows =
     [\<lparr>trId = 1, trSymbol = ''tBTCUSD'', trExecAmount = Some (-1), trExecPrice = Some 100,
        trExactUsdValue = None, trMts = Some 20, trFee = None, trFeeCurrency = None\<rparr>,
      \<lparr>trId = 2, trSymbol = ''tBTCUSD'', trExecAmount = Some 2, trExecPrice = Some 50,
        trExactUsdValue = None, trMts = Some 10, trFee = None, trFeeCurrency = None\<rparr>]"

definition report_sample_env :: "(nat \<Rightarrow> bool) \<Rightarrow> report_env" where
  "report_sample_env intr = conv_env.extend (conv_sample_env\<lparr>interruptedAt := intr\<rparr>)
     \<lparr>dbRows = (\<lambda>a b. (filter (\<lambda>r. a \<le> nullish (trMts r) 0 \<and> nullish (trMts r) 0 \<le> b) sample_rows, [], []))\<rparr>"

definition sample_params :: report_params where
  "sample_params = \<lparr>pStart = Some 15, pEnd = None, pStrategy = None, pShouldFeesBeDeducted = None\<rparr>"

lemma report_sample_run:
  obtains rep where "getTransactionTaxReport (report_sample_env (\<lambda>_. False)) 30 sample_params = Inr rep"
    "taxes rep = [sample_row]" "delistedCcyList rep = []"
proof -
  have "map_sum (\<lambda>_. ()) (\<lambda>r. (taxes r, delistedCcyList r))
      (getTransactionTaxReport (report_sample_env (\<lambda>_. False)) 30 sample_params) = Inr ([sample_row], [])"
    by code_simp
  then show thesis
    by (cases "getTransactionTaxReport (report_sample_env (\<lambda>_. False)) 30 sample_params")
      (auto intro: that)
qed

lemma sample_rows_in_period: "rows_in_period (report_sample_env intr)"
  by (simp add: rows_in_period_def report_sample_env_def conv_env.defs rows_in_def sample_rows_def)

lemma getTransactionTaxReport_events_witness:
  "\<exists>rep. getTransactionTaxReport (report_sample_env (\<lambda>_. False)) 30 sample_params = Inr rep
     \<and> last (repEvents rep) = ReadyTrxTaxReport \<and> taxes rep = [sample_row]"
proof -
  obtain rep where run: "getTransactionTaxReport (report_sample_env (\<lambda>_. False)) 30 sample_params = Inr rep"
    "taxes rep = [sample_row]" by (rule report_sample_run)
  from getTransactionTaxReport_events[OF run(1)] run show ?thesis by auto
qed

lemma getTransactionTaxReport_period_witness:
  "\<exists>rep m. getTransactionTaxReport (report_sample_env (\<lambda>_. False)) 30 sample_params = Inr rep
     \<and> sample_row \<in> set (taxes rep) \<and> 15 \<le> m \<and> m \<le> 30 \<and> mtsSold sample_row = Some m"
proof -
  obtain rep where run: "getTransactionTaxReport (report_sample_env (\<lambda>_. False)) 30 sample_params = Inr rep"
    "taxes rep = [sample_row]" by (rule report_sample_run)
  then have "sample_row \<in> set (taxes rep)" by simp
  from getTransactionTaxReport_period[OF run(1) sample_rows_in_period this] run this show ?thesis
    by (auto simp: sample_params_def sample_row_def)
qed

end
