(* ===== verification/Tax_Fees.thy ===== *)
theory Tax_Fees
  imports Tax_Period
begin

text \<open>
  How the fee of a lot is charged to the sales it fills (\<^verbatim>\<open>look-up-trades.js\<close>, lines 316 to 357):
  a sale that takes part of a lot is charged the share of what was \<^emph>\<open>left\<close> of the lot, the sale
  that takes the rest the whole fee.
\<close>

lemma getTrxFeeUsd_bookings [simp]:
  "getTrxFeeUsd (l\<lparr>buyFilledAmount := a, proceedsForBuyTrxUsd := p\<rparr>) opts = getTrxFeeUsd l opts"
  by (cases "trxFee l") (auto simp: getTrxFeeUsd_def)

lemma fill_part:
  assumes "sale_filled t = 0" "buy_filled l = 0" "sa < B"
    "fill_from_lot env opts sa sp B bp t l = (t', l')" "\<And>x y. bnDiv env x y = x / y"
  shows "fees_of t' - fees_of t = getTrxFeeUsd l opts * (sa / B)"
    "buy_filled l' = sa" "getTrxFeeUsd l' opts = getTrxFeeUsd l opts"
  using assms by (auto simp: fill_from_lot_def Let_def fees_of_def buy_filled_def)

lemma fill_rest:
  assumes "sale_filled u = 0" "sa = B - buy_filled l" "fill_from_lot env opts sa sp B bp u l = (u', l')"
  shows "fees_of u' - fees_of u = getTrxFeeUsd l opts" "isBuyTrxHistFilled l' = Some True"
  using assms by (auto simp: fill_from_lot_def Let_def fees_of_def)

text \<open>
  Two sales that share a lot are charged more than its fee. In exact arithmetic, when one
  sale takes \<open>sa\<close> of a lot of \<open>B\<close> and a second one takes the rest, the fees charged for the lot
  are its fee times \<open>1 + sa / B\<close>, not the fee.
\<close>

theorem shared_lot_fees:
  assumes "fill_from_lot env opts sa sp B bp t l = (t', l')"
    "fill_from_lot env opts (B - sa) sp2 B bp u l' = (u', l'')"
    "\<And>x y. bnDiv env x y = x / y" "0 < sa" "sa < B"
    "sale_filled t = 0" "sale_filled u = 0" "buy_filled l = 0"
  shows "(fees_of t' - fees_of t) + (fees_of u' - fees_of u) = getTrxFeeUsd l opts * (1 + sa / B)
    \<and> isBuyTrxHistFilled l'' = Some True"
proof -
  note part = fill_part[OF assms(6,8,5,1,3)]
  note rest = fill_rest[OF assms(7) _ assms(2)]
  show ?thesis using part rest by (simp add: algebra_simps)
qed

definition fee_opts :: lookup_opts where
  "fee_opts = sample_opts\<lparr>shouldFeesBeDeducted := True\<rparr>"

definition shared_lot :: trx where
  "shared_lot = (sample_trade 3 10 10 50 (-2))\<lparr>firstSymb := ''BTC'', lastSymb := ''USD''\<rparr>"

lemma shared_lot_fees_witness:
  "\<exists>t' l' u' l''.
     fill_from_lot sample_env fee_opts 5 100 10 50 (sample_trade 1 30 (-5) 100 0) shared_lot = (t', l')
     \<and> fill_from_lot sample_env fee_opts 5 100 10 50 (sample_trade 2 20 (-5) 100 0) l' = (u', l'')
     \<and> fees_of t' + fees_of u' = -3"
proof -
  let ?t = "sample_trade 1 30 (-5) 100 0" and ?u = "sample_trade 2 20 (-5) 100 0"
  let ?l = shared_lot
  obtain t' l' where f1: "fill_from_lot sample_env fee_opts 5 100 10 50 ?t ?l = (t', l')" by fastforce
  obtain u' l'' where f2: "fill_from_lot sample_env fee_opts (10 - 5) 100 10 50 ?u l' = (u', l'')" by fastforce
  have facts: "sale_filled ?t = 0" "sale_filled ?u = 0" "buy_filled ?l = 0"
    "getTrxFeeUsd ?l fee_opts = -2" "fees_of ?t = 0" "fees_of ?u = 0"
    by code_simp+
  have "bnDiv sample_env x y = x / y" for x y by (simp add: sample_env_def)
  from shared_lot_fees[OF f1 f2 this _ _ facts(1-3)] facts f1 f2 show ?thesis by simp
qed

end
