(* ===== verification/Series_Merge.thy ===== *)
theory Series_Merge
  imports Js_Prelude "HOL-Library.Sublist"
begin

text \<open>
  \<^verbatim>\<open>workers/loc.api/sync/helpers/calc-grouped-data.js\<close> with \<^verbatim>\<open>get-back-iterable.js\<close>: several time
  series, one per key and newest first, are merged into one series, whose items are then reduced to
  one record of values each.

  An object of values is an association list in the order of its properties; a value that is no
  finite number is \<^const>\<open>None\<close>. An item of the merged series has its time and, per key, the
  values of that series at the time.
\<close>

type_synonym 'v gvals = "(string, 'v) jsmap"

record 'v gpoint =
  ptMts :: "int option"
  ptVals :: "'v gvals"

record 'v gmerged =
  mMts :: int
  mParts :: "(string, 'v gvals) jsmap"

type_synonym 'v gseries = "(string \<times> 'v gpoint list) list"

text \<open>Most series are of numbers.\<close>

type_synonym vals = "rat option gvals"
type_synonym point = "rat option gpoint"
type_synonym merged = "rat option gmerged"
type_synonym series_data = "rat option gseries"

subsection \<open>Merging\<close>

definition getDataKeys :: "'v gseries \<Rightarrow> string list" where
  "getDataKeys data = map fst (filter (\<lambda>(k, ps). 0 < length ps) data)"

definition getMaxLength :: "'v gseries \<Rightarrow> nat" where
  "getMaxLength data = (if data = [] then 0 else Max (set (map (\<lambda>(k, ps). length ps) data)))"

definition new_item :: "string \<Rightarrow> int \<Rightarrow> 'v gvals \<Rightarrow> 'v gmerged" where
  "new_item key mts vs = \<lparr>mMts = mts, mParts = [(key, vs)]\<rparr>"

definition set_part :: "string \<Rightarrow> 'v gvals \<Rightarrow> 'v gmerged \<Rightarrow> 'v gmerged" where
  "set_part key vs item = item\<lparr>mParts := AList.update key vs (mParts item)\<rparr>"

text \<open>
  Lines 82 to 102: the items from the last to the first, as \<^verbatim>\<open>getBackIterable\<close> gives them with their
  indices; the argument is one more than the index.
\<close>

fun place_back :: "string \<Rightarrow> int \<Rightarrow> 'v gvals \<Rightarrow> 'v gmerged list \<Rightarrow> nat \<Rightarrow> 'v gmerged list" where
  "place_back key mts vs res 0 = res"
| "place_back key mts vs res (Suc index) =
     (if mts = mMts (res ! index) then res[index := set_part key vs (res ! index)]
      else if Suc index < length res \<and> mMts (res ! Suc index) < mts \<and> mMts (res ! index) > mts
      then take (Suc index) res @ new_item key mts vs # drop (Suc index) res
      else place_back key mts vs res index)"

text \<open>Lines 47 to 103, for one point of one series.\<close>

definition valid_point :: "'v gpoint \<Rightarrow> bool" where
  "valid_point p \<longleftrightarrow> ptMts p \<noteq> None \<and> ptVals p \<noteq> []"

definition merge_point :: "string \<Rightarrow> 'v gpoint \<Rightarrow> 'v gmerged list \<Rightarrow> 'v gmerged list" where
  "merge_point key p res =
     (case ptMts p of
        None \<Rightarrow> res
      | Some mts \<Rightarrow>
          if ptVals p = [] then res
          else if res \<noteq> [] \<and> mMts (hd res) < mts then new_item key mts (ptVals p) # res
          else if res = [] \<or> mMts (last res) > mts then res @ [new_item key mts (ptVals p)]
          else place_back key mts (ptVals p) res (length res))"

text \<open>The points in the order the two loops visit them; one beyond the end of a series is skipped.\<close>

definition visit_order :: "'v gseries \<Rightarrow> (string \<times> 'v gpoint) list" where
  "visit_order data = concat (map (\<lambda>i. List.map_filter (\<lambda>(k, ps).
       if i < length ps then Some (k, ps ! i) else None) data) [0..<getMaxLength data])"

definition mergeData :: "'v gseries \<Rightarrow> 'v gmerged list" where
  "mergeData data = fold (\<lambda>(k, p). merge_point k p)
     (visit_order (filter (\<lambda>(k, ps). k \<in> set (getDataKeys data)) data)) []"

subsection \<open>Reducing the items\<close>

text \<open>Lines 109 to 128; the floating-point sums go through the rounding \<open>fl\<close>.\<close>

definition add_val :: "'a arith_scheme \<Rightarrow> string \<times> rat option \<Rightarrow> (string, rat) jsmap \<Rightarrow> (string, rat) jsmap" where
  "add_val env sv accum =
     (case snd sv of
        None \<Rightarrow> accum
      | Some v \<Rightarrow> (case map_of accum (fst sv) of
            Some w \<Rightarrow> AList.update (fst sv) (fl env (w + v)) accum
          | None \<Rightarrow> AList.update (fst sv) v accum))"

definition calcDataItem :: "'a arith_scheme \<Rightarrow> merged \<Rightarrow> (string, rat) jsmap" where
  "calcDataItem env item = fold (\<lambda>(k, vs) accum. fold (add_val env) vs accum) (mParts item) []"

text \<open>
  The reducer of lines 132 to 168 with a calculation that may keep a state of its own (the closures
  that the callers pass do); an empty result adds no item.
\<close>

fun reduce_items :: "('s \<Rightarrow> 'v gmerged \<Rightarrow> 's \<times> (string, rat) jsmap) \<Rightarrow> 'v gmerged list \<Rightarrow> 's
    \<Rightarrow> (int \<times> (string, rat) jsmap) list \<Rightarrow> (int \<times> (string, rat) jsmap) list" where
  "reduce_items calc [] s accum = accum"
| "reduce_items calc (x # xs) s accum =
     (let (s', r) = calc s x
      in reduce_items calc xs s' (if r = [] then accum else accum @ [(mMts x, r)]))"

fun reduce_items_right :: "('s \<Rightarrow> 'v gmerged \<Rightarrow> 's \<times> (string, rat) jsmap) \<Rightarrow> 'v gmerged list \<Rightarrow> 's
    \<Rightarrow> (int \<times> (string, rat) jsmap) list \<Rightarrow> (int \<times> (string, rat) jsmap) list" where
  "reduce_items_right calc [] s accum = accum"
| "reduce_items_right calc (x # xs) s accum =
     (let (s', r) = calc s x
      in reduce_items_right calc xs s' (if r = [] then accum else (mMts x, r) # accum))"

text \<open>\<open>reduceRight\<close> visits the items from the last to the first.\<close>

definition calcGroupedData ::
  "('s \<Rightarrow> 'v gmerged \<Rightarrow> 's \<times> (string, rat) jsmap) \<Rightarrow> 's \<Rightarrow> bool \<Rightarrow> 'v gseries
     \<Rightarrow> (int \<times> (string, rat) jsmap) list" where
  "calcGroupedData calc s isReverse data =
     (let d = mergeData data
      in if isReverse then reduce_items_right calc (rev d) s [] else reduce_items calc d s [])"

subsection \<open>The specification: ordered insertion\<close>

fun insert_point :: "string \<Rightarrow> int \<Rightarrow> 'v gvals \<Rightarrow> 'v gmerged list \<Rightarrow> 'v gmerged list" where
  "insert_point key mts vs [] = [new_item key mts vs]"
| "insert_point key mts vs (x # xs) =
     (if mts > mMts x then new_item key mts vs # x # xs
      else if mts = mMts x then set_part key vs x # xs
      else x # insert_point key mts vs xs)"

definition newest_first :: "'v gmerged list \<Rightarrow> bool" where
  "newest_first res \<longleftrightarrow> sorted_wrt (\<lambda>a b. mMts b < mMts a) res"

lemma mMts_simps [simp]: "mMts (new_item key mts vs) = mts" "mMts (set_part key vs x) = mMts x"
  by (simp_all add: new_item_def set_part_def)

lemma insert_point_set: "mMts ` set (insert_point key mts vs res) = insert mts (mMts ` set res)"
  by (induction res) auto

lemma insert_point_sorted: "newest_first res \<Longrightarrow> newest_first (insert_point key mts vs res)"
proof (induction res)
  case (Cons x xs)
  have "mMts y < mMts x" if "mts < mMts x" "y \<in> set (insert_point key mts vs xs)" for y
  proof -
    from that(2) have "mMts y \<in> insert mts (mMts ` set xs)"
      using insert_point_set[of key mts vs xs] by blast
    with that(1) Cons.prems show ?thesis by (auto simp: newest_first_def)
  qed
  with Cons show ?case by (auto simp: newest_first_def)
qed (simp add: newest_first_def)

text \<open>Where the insertion happens, in terms of an index.\<close>

lemma insert_point_at:
  assumes "\<forall>j<i. mts < mMts (res ! j)" "i \<le> length res"
  shows "i < length res \<Longrightarrow> mMts (res ! i) = mts \<Longrightarrow>
      insert_point key mts vs res = res[i := set_part key vs (res ! i)]"
    and "(i < length res \<longrightarrow> mMts (res ! i) < mts) \<Longrightarrow>
      insert_point key mts vs res = take i res @ new_item key mts vs # drop i res"
proof -
  have "(i < length res \<longrightarrow> mMts (res ! i) = mts \<longrightarrow>
      insert_point key mts vs res = res[i := set_part key vs (res ! i)])
    \<and> ((i < length res \<longrightarrow> mMts (res ! i) < mts) \<longrightarrow>
      insert_point key mts vs res = take i res @ new_item key mts vs # drop i res)"
    using assms
  proof (induction res arbitrary: i)
    case (Cons x xs)
    show ?case
    proof (cases i)
      case 0
      then show ?thesis by auto
    next
      case (Suc k)
      have "mts < mMts x" using Cons.prems(1) Suc by force
      moreover have "\<forall>j<k. mts < mMts (xs ! j)" using Cons.prems(1) Suc by force
      ultimately show ?thesis using Cons.IH[of k] Cons.prems(2) Suc by auto
    qed
  qed simp
  then show "i < length res \<Longrightarrow> mMts (res ! i) = mts \<Longrightarrow>
      insert_point key mts vs res = res[i := set_part key vs (res ! i)]"
    "(i < length res \<longrightarrow> mMts (res ! i) < mts) \<Longrightarrow>
      insert_point key mts vs res = take i res @ new_item key mts vs # drop i res" by auto
qed

lemma newest_first_nth:
  "newest_first res \<Longrightarrow> i < j \<Longrightarrow> j < length res \<Longrightarrow> mMts (res ! j) < mMts (res ! i)"
  by (simp add: newest_first_def sorted_wrt_iff_nth_less)

lemma place_back_insert:
  assumes "newest_first res" "res \<noteq> []" "mts \<le> mMts (hd res)" "mMts (last res) \<le> mts"
    "i \<le> length res" "\<forall>j<length res. i \<le> j \<longrightarrow> mMts (res ! j) < mts"
  shows "place_back key mts vs res i = insert_point key mts vs res"
  using assms(5,6)
proof (induction i)
  case 0
  then have "mMts (res ! 0) < mts" using assms(2) by auto
  then show ?case using assms(2,3) by (simp add: hd_conv_nth)
next
  case (Suc i)
  have i: "i < length res" using Suc.prems by simp
  have above: "\<forall>j<k. mMts (res ! k) < mMts (res ! j)" if "k \<le> i" for k
    using newest_first_nth[OF assms(1)] that i by auto
  consider "mMts (res ! i) = mts" | "mMts (res ! i) < mts" | "mts < mMts (res ! i)" by linarith
  then show ?case
  proof cases
    case 1
    then show ?thesis using insert_point_at(1)[of i mts res] above[of i] i by auto
  next
    case 2
    have "mMts (res ! j) < mts" if "j < length res" "i \<le> j" for j
      using 2 that Suc.prems(2) by (cases "j = i") auto
    with Suc.IH i have IH: \<open>place_back key mts vs res i = insert_point key mts vs res\<close> by simp
    show ?thesis using IH 2 by auto
  next
    case 3
    have "Suc i < length res"
    proof (rule ccontr)
      assume "\<not> Suc i < length res"
      then have "length res = Suc i" using i by simp
      then have "res ! i = last res" using assms(2) by (simp add: last_conv_nth)
      with 3 assms(4) show False by simp
    qed
    moreover from this have "mMts (res ! Suc i) < mts" using Suc.prems(2) by simp
    moreover have "\<forall>j<Suc i. mts < mMts (res ! j)"
      using 3 above[of i] by (auto simp: less_Suc_eq)
    ultimately show ?thesis
      using 3 insert_point_at(2)[of "Suc i" mts res key vs] by auto
  qed
qed

lemma merge_point_insert:
  assumes "newest_first res"
  shows "merge_point key p res =
    (case ptMts p of None \<Rightarrow> res
     | Some mts \<Rightarrow> if ptVals p = [] then res else insert_point key mts (ptVals p) res)"
proof (cases "valid_point p")
  case False
  then show ?thesis by (auto simp: valid_point_def merge_point_def split: option.split)
next
  case True
  then obtain mts where p: "ptMts p = Some mts" "ptVals p \<noteq> []" by (auto simp: valid_point_def)
  let ?vs = "ptVals p"
  consider (empty) "res = []"
    | (front) "res \<noteq> []" "mMts (hd res) < mts"
    | (behind) "res \<noteq> []" "mts \<le> mMts (hd res)" "mts < mMts (last res)"
    | (within) "res \<noteq> []" "mts \<le> mMts (hd res)" "mMts (last res) \<le> mts"
    by linarith
  then show ?thesis
  proof cases
    case front
    then show ?thesis using p by (cases res) (simp_all add: merge_point_def)
  next
    case behind
    have "mts < mMts (res ! j)" if "j < length res" for j
    proof -
      have "mMts (last res) \<le> mMts (res ! j)"
        using newest_first_nth[OF assms, of j "length res - 1"] that behind(1)
        by (cases "j = length res - 1") (auto simp: last_conv_nth less_imp_le)
      with behind(3) show ?thesis by simp
    qed
    then have "insert_point key mts ?vs res = res @ [new_item key mts ?vs]"
      using insert_point_at(2)[of "length res" mts res key ?vs] by simp
    then show ?thesis using behind p by (simp add: merge_point_def)
  next
    case within
    then show ?thesis
      using place_back_insert[OF assms within, of "length res" key ?vs] p by (simp add: merge_point_def)
  qed (use p in \<open>simp add: merge_point_def\<close>)
qed


subsection \<open>The merged series\<close>

text \<open>The value of a series of an item, by time and key.\<close>

definition part_at :: "'v gmerged list \<Rightarrow> int \<Rightarrow> string \<Rightarrow> 'v gvals option" where
  "part_at res mts key =
     (case map_of (map (\<lambda>x. (mMts x, mParts x)) res) mts of
        None \<Rightarrow> None | Some parts \<Rightarrow> map_of parts key)"

lemma part_at_simps:
  "part_at [] mts key = None"
  "part_at (x # xs) mts key = (if mts = mMts x then map_of (mParts x) key else part_at xs mts key)"
  by (simp_all add: part_at_def)

lemma part_at_insert:
  assumes "newest_first res"
  shows "part_at (insert_point key mts vs res) mts' key' =
    (if mts' = mts \<and> key' = key then Some vs else part_at res mts' key')"
  using assms
proof (induction res)
  case (Cons x xs)
  have absent: "part_at (x # xs) mts key' = None" if "mMts x < mts"
  proof -
    have "mts \<noteq> mMts y" if "y \<in> set (x # xs)" for y
      using that \<open>mMts x < mts\<close> Cons.prems by (auto simp: newest_first_def)
    then have "map_of (map (\<lambda>x. (mMts x, mParts x)) (x # xs)) mts = None"
      unfolding map_of_eq_None_iff list.set_map image_image fst_conv by blast
    then show ?thesis by (simp add: part_at_def)
  qed
  have "newest_first xs" using Cons.prems by (simp add: newest_first_def)
  with Cons.IH absent show ?case
    by (auto simp: part_at_simps new_item_def set_part_def AList.update_conv')
qed (simp add: part_at_simps new_item_def)

text \<open>The points of all series that are merged, and the whole loop.\<close>

definition valid_points :: "(string \<times> 'v gpoint) list \<Rightarrow> (string \<times> int \<times> 'v gvals) list" where
  "valid_points kps = List.map_filter (\<lambda>(k, p). case ptMts p of None \<Rightarrow> None
     | Some mts \<Rightarrow> if ptVals p = [] then None else Some (k, mts, ptVals p)) kps"

definition insert_all :: "(string \<times> int \<times> 'v gvals) list \<Rightarrow> 'v gmerged list \<Rightarrow> 'v gmerged list" where
  "insert_all = fold (\<lambda>(k, mts, vs). insert_point k mts vs)"

lemma insert_all_simps [simp]:
  "insert_all [] res = res"
  "insert_all ((k, mts, vs) # rest) res = insert_all rest (insert_point k mts vs res)"
  by (simp_all add: insert_all_def)

lemma insert_all_sorted: "newest_first res \<Longrightarrow> newest_first (insert_all pts res)"
  by (induction pts arbitrary: res) (auto simp: insert_point_sorted)

lemma insert_all_set:
  "mMts ` set (insert_all pts res) = (fst \<circ> snd) ` set pts \<union> mMts ` set res"
proof (induction pts arbitrary: res)
  case (Cons pt pts)
  obtain k mts vs where "pt = (k, mts, vs)" by (cases pt)
  with Cons.IH[of "insert_point k mts vs res"] show ?case by (simp add: insert_point_set)
qed simp

lemma fold_merge_points:
  "newest_first res \<Longrightarrow> fold (\<lambda>(k, p). merge_point k p) kps res = insert_all (valid_points kps) res"
  by (induction kps arbitrary: res)
    (auto simp: valid_points_def map_filter_simps merge_point_insert insert_point_sorted
      split: option.splits)

lemma newest_first_Nil [simp]: "newest_first []" by (simp add: newest_first_def)

lemma mergeData_insert_all:
  "mergeData data = insert_all (valid_points
     (visit_order (filter (\<lambda>(k, ps). k \<in> set (getDataKeys data)) data))) []"
  by (simp add: mergeData_def fold_merge_points)

text \<open>Every point of every series is visited.\<close>

lemma getMaxLength_ge: "(k, ps) \<in> set data \<Longrightarrow> length ps \<le> getMaxLength data"
  by (auto simp: getMaxLength_def intro!: Max_ge)

lemma visit_order_set:
  "(k, p) \<in> set (visit_order data) \<longleftrightarrow> (\<exists>ps. (k, ps) \<in> set data \<and> p \<in> set ps)"
proof
  assume "(k, p) \<in> set (visit_order data)"
  then show "\<exists>ps. (k, ps) \<in> set data \<and> p \<in> set ps"
    by (auto simp: visit_order_def map_filter_def split: if_splits) (meson nth_mem)
next
  assume "\<exists>ps. (k, ps) \<in> set data \<and> p \<in> set ps"
  then obtain ps i where ps: "(k, ps) \<in> set data" "i < length ps" "p = ps ! i"
    by (auto simp: in_set_conv_nth)
  then have "i < getMaxLength data" using getMaxLength_ge by (meson order_less_le_trans)
  moreover have "(k, p) \<in> set (List.map_filter (\<lambda>(k, ps).
      if i < length ps then Some (k, ps ! i) else None) data)"
    using ps by (force simp: map_filter_def)
  ultimately show "(k, p) \<in> set (visit_order data)" by (auto simp: visit_order_def)
qed

lemma getDataKeys_points:
  "(\<exists>ps. (k, ps) \<in> set (filter (\<lambda>(k, ps). k \<in> set (getDataKeys data)) data) \<and> p \<in> set ps)
   \<longleftrightarrow> (\<exists>ps. (k, ps) \<in> set data \<and> p \<in> set ps)"
  by (auto simp: getDataKeys_def) force

definition series_times :: "'v gseries \<Rightarrow> int set" where
  "series_times data = {mts. \<exists>k ps p. (k, ps) \<in> set data \<and> p \<in> set ps
     \<and> ptMts p = Some mts \<and> ptVals p \<noteq> []}"

lemma valid_points_set:
  "set (valid_points kps) = {(k, mts, vs). \<exists>p. (k, p) \<in> set kps \<and> ptMts p = Some mts
     \<and> ptVals p = vs \<and> vs \<noteq> []}"
  by (auto simp: valid_points_def map_filter_def split: option.splits if_splits) force+

lemma mergeData_points:
  "(k, mts, vs) \<in> set (valid_points
      (visit_order (filter (\<lambda>(k, ps). k \<in> set (getDataKeys data)) data))) \<longleftrightarrow>
   (\<exists>ps p. (k, ps) \<in> set data \<and> p \<in> set ps \<and> ptMts p = Some mts \<and> ptVals p = vs \<and> vs \<noteq> [])"
  unfolding valid_points_set visit_order_set mem_Collect_eq case_prod_conv getDataKeys_points
  by blast

lemma mergeData_sorted: "newest_first (mergeData data)"
  by (simp add: mergeData_insert_all insert_all_sorted)

lemma mergeData_time_set: "mMts ` set (mergeData data) = series_times data"
proof -
  let ?pts = "valid_points (visit_order (filter (\<lambda>(k, ps). k \<in> set (getDataKeys data)) data))"
  have "mts \<in> (fst \<circ> snd) ` set ?pts \<longleftrightarrow> (\<exists>k vs. (k, mts, vs) \<in> set ?pts)" for mts
    by force
  then have "(fst \<circ> snd) ` set ?pts = {mts. \<exists>k vs. (k, mts, vs) \<in> set ?pts}" by blast
  also have "\<dots> = series_times data"
    unfolding mergeData_points series_times_def by blast
  finally show ?thesis unfolding mergeData_insert_all insert_all_set by simp
qed

text \<open>
  The merge of the series is one series, strictly from the newest time to the oldest, and its
  times are exactly those of the points with values, whatever the order of the points in the series.
\<close>

theorem mergeData_times:
  "newest_first (mergeData data) \<and> mMts ` set (mergeData data) = series_times data"
  by (simp add: mergeData_sorted mergeData_time_set)

lemma insert_all_part:
  "newest_first res \<Longrightarrow> (k, mts, vs) \<in> set pts
    \<Longrightarrow> (\<And>vs'. (k, mts, vs') \<in> set pts \<Longrightarrow> vs' = vs)
    \<Longrightarrow> part_at (insert_all pts res) mts k = Some vs"
proof (induction pts arbitrary: res rule: rev_induct)
  case (snoc pt pts)
  obtain k' mts' vs' where pt: "pt = (k', mts', vs')" by (cases pt)
  have app: "insert_all (pts @ [pt]) res = insert_point k' mts' vs' (insert_all pts res)"
    by (simp add: insert_all_def pt)
  show ?case
  proof (cases "mts' = mts \<and> k' = k")
    case True
    then have "vs' = vs" using snoc.prems(3)[of vs'] pt by simp
    then show ?thesis using True part_at_insert[OF insert_all_sorted[OF snoc.prems(1)]] app by simp
  next
    case False
    then have "part_at (insert_all pts res) mts k = Some vs"
    proof (intro snoc.IH[OF snoc.prems(1)])
      show "(k, mts, vs) \<in> set pts" using snoc.prems(2) False pt by auto
      show "vs' = vs" if "(k, mts, vs') \<in> set pts" for vs'
        by (rule snoc.prems(3)) (simp add: that)
    qed
    then show ?thesis using False part_at_insert[OF insert_all_sorted[OF snoc.prems(1)]] app by auto
  qed
qed simp

text \<open>
  C10: one point merged into a merged series changes exactly the values of its key at its time and
  keeps the order, whichever branch of the loop with its backward search takes it.
\<close>

theorem merge_point_refines:
  assumes "newest_first res" "ptMts p = Some mts" "ptVals p \<noteq> []"
  shows "newest_first (merge_point key p res)
    \<and> part_at (merge_point key p res) mts' key' =
      (if mts' = mts \<and> key' = key then Some (ptVals p) else part_at res mts' key')"
  using assms by (simp add: merge_point_insert insert_point_sorted part_at_insert)

definition sample_merged :: "merged list" where
  "sample_merged = [new_item ''a'' 5 [(''USD'', Some 1)], new_item ''a'' 1 [(''USD'', Some 2)]]"

theorem merge_point_refines_witness:
  "newest_first (merge_point ''b'' \<lparr>ptMts = Some 3, ptVals = [(''EUR'', Some 4)]\<rparr> sample_merged)
    \<and> part_at (merge_point ''b'' \<lparr>ptMts = Some 3, ptVals = [(''EUR'', Some 4)]\<rparr> sample_merged) 3 ''b''
      = Some [(''EUR'', Some 4)]"
  using merge_point_refines[of sample_merged "\<lparr>ptMts = Some 3, ptVals = [(''EUR'', Some 4)]\<rparr>" 3 "''b''" 3 "''b''"]
  by (simp add: sample_merged_def newest_first_def)

text \<open>
  The merged series has, at the time of a point, the values of that point for its key, when no
  other point of the key has the same time.
\<close>

theorem mergeData_part:
  assumes "(k, ps) \<in> set data" "distinct (map fst data)" "distinct (map ptMts ps)"
    "p \<in> set ps" "ptMts p = Some mts" "ptVals p \<noteq> []"
  shows "part_at (mergeData data) mts k = Some (ptVals p)"
proof -
  let ?pts = "valid_points (visit_order (filter (\<lambda>(k, ps). k \<in> set (getDataKeys data)) data))"
  have "(k, mts, ptVals p) \<in> set ?pts"
    unfolding mergeData_points using assms by blast
  moreover have "vs = ptVals p" if vs: "(k, mts, vs) \<in> set ?pts" for vs
  proof -
    from vs obtain ps' q where q: "(k, ps') \<in> set data" "q \<in> set ps'" "ptMts q = Some mts" "ptVals q = vs"
      unfolding mergeData_points by blast
    have "ps' = ps" using assms(1,2) q(1) by (simp add: eq_key_imp_eq_value)
    then have "q \<in> set ps" "ptMts q = ptMts p" using assms(5) q by simp_all
    then have "q = p" using assms(3,4) inj_onD[of ptMts "set ps" q p] by (simp add: distinct_map)
    then show ?thesis using q(4) by simp
  qed
  ultimately show ?thesis
    unfolding mergeData_insert_all by (rule insert_all_part[OF newest_first_Nil])
qed

definition sample_series :: series_data where
  "sample_series =
     [(''wallets'', [\<lparr>ptMts = Some 7, ptVals = [(''USD'', Some 10)]\<rparr>,
                     \<lparr>ptMts = Some 3, ptVals = [(''USD'', Some 8)]\<rparr>]),
      (''fees'', [\<lparr>ptMts = Some 5, ptVals = [(''USD'', Some 2), (''EUR'', None)]\<rparr>,
                  \<lparr>ptMts = Some 3, ptVals = [(''USD'', Some 1), (''EUR'', Some 6)]\<rparr>])]"

theorem mergeData_part_witness:
  "part_at (mergeData sample_series) 3 ''fees'' = Some [(''USD'', Some 1), (''EUR'', Some 6)]"
  using mergeData_part[of "''fees''" "snd (sample_series ! 1)" sample_series "snd (sample_series ! 1) ! 1" 3]
  by (simp add: sample_series_def)

subsection \<open>The sums of an item and the order of the results\<close>

text \<open>The sum of the finite values of a symbol over all parts of an item.\<close>

definition symb_sum :: "string \<Rightarrow> vals \<Rightarrow> rat" where
  "symb_sum symb vs = sum_list (map (\<lambda>(s, v). if s = symb then nullish v 0 else 0) vs)"

lemma add_val_sum:
  "nullish (map_of (add_val exact_arith sv accum) symb) 0 =
    nullish (map_of accum symb) 0 + (if fst sv = symb then nullish (snd sv) 0 else 0)"
  by (auto simp: add_val_def AList.update_conv' split: option.splits)

lemma add_vals_sum:
  "nullish (map_of (fold (add_val exact_arith) vs accum) symb) 0 =
    nullish (map_of accum symb) 0 + symb_sum symb vs"
  by (induction vs arbitrary: accum) (auto simp: symb_sum_def add_val_sum)

text \<open>
  Without rounding, the value of a symbol in the reduced item is the sum of its finite values
  over all the series that have a point at the time.
\<close>

theorem calcDataItem_sums:
  "nullish (map_of (calcDataItem exact_arith item) symb) 0 =
    sum_list (map (\<lambda>(k, vs). symb_sum symb vs) (mParts item))"
proof -
  have "nullish (map_of (fold (\<lambda>(k, vs) accum. fold (add_val exact_arith) vs accum) parts accum) symb) 0 =
      nullish (map_of accum symb) 0 + sum_list (map (\<lambda>(k, vs). symb_sum symb vs) parts)" for parts accum
    by (induction parts arbitrary: accum) (auto simp: add_vals_sum)
  from this[of "mParts item" "[]"] show ?thesis by (simp add: calcDataItem_def)
qed

lemma subseq_sorted_wrt: "subseq xs ys \<Longrightarrow> sorted_wrt P ys \<Longrightarrow> sorted_wrt P xs \<and> set xs \<subseteq> set ys"
  by (induction rule: list_emb.induct) auto

lemma reduce_items_times:
  "\<exists>ts. map fst (reduce_items calc xs s accum) = map fst accum @ ts \<and> subseq ts (map mMts xs)"
proof (induction xs arbitrary: s accum)
  case (Cons x xs)
  obtain s' r where c: "calc s x = (s', r)" by (cases "calc s x")
  show ?case
  proof (cases "r = []")
    case True
    with c Cons.IH[of s' accum] show ?thesis by (auto intro: list_emb_Cons)
  next
    case False
    with c Cons.IH[of s' "accum @ [(mMts x, r)]"] show ?thesis by auto
  qed
qed simp

lemma reduce_items_right_times:
  "\<exists>ts. map fst (reduce_items_right calc xs s accum) = ts @ map fst accum \<and> subseq ts (rev (map mMts xs))"
proof (induction xs arbitrary: s accum)
  case (Cons x xs)
  obtain s' r where c: "calc s x = (s', r)" by (cases "calc s x")
  show ?case
  proof (cases "r = []")
    case True
    with c Cons.IH[of s' accum] show ?thesis by (auto intro: list_emb_Cons)
  next
    case False
    with c Cons.IH[of s' "(mMts x, r) # accum"] show ?thesis by auto
  qed
qed simp

text \<open>
  Whatever the calculation of the caller does, and in both directions of the reduction, the
  result has the times of the merged series at most once each, from the newest to the oldest.
\<close>

theorem calcGroupedData_order:
  "sorted_wrt (>) (map fst (calcGroupedData calc s isReverse data))
    \<and> fst ` set (calcGroupedData calc s isReverse data) \<subseteq> series_times data"
proof -
  let ?ts = "map mMts (mergeData data)" and ?res = "calcGroupedData calc s isReverse data"
  have "subseq (map fst ?res) ?ts"
  proof (cases isReverse)
    case True
    with reduce_items_right_times[of calc "rev (mergeData data)" s "[]"] show ?thesis
      by (auto simp: calcGroupedData_def rev_map)
  next
    case False
    with reduce_items_times[of calc "mergeData data" s "[]"] show ?thesis
      by (auto simp: calcGroupedData_def)
  qed
  moreover have "sorted_wrt (>) ?ts"
    using mergeData_sorted[of data] by (simp add: newest_first_def sorted_wrt_map)
  ultimately show ?thesis
    using mergeData_time_set[of data]
    using subseq_sorted_wrt[of "map fst ?res" ?ts "(>)"] by auto
qed
end
