(* ===== verification/Sync_Queue.thy ===== *)
theory Sync_Queue
  imports Js_Prelude "HOL-Library.Product_Lexorder"
begin

text \<open>
  The queue of synchronisation jobs (\<^verbatim>\<open>workers/loc.api/sync/sync.queue\<close>): the table of jobs, adding
  jobs, and the loop that takes the next job, runs the data inserter for it and records how it went.

  The table is the list \<open>jobs\<close>, in the order of the primary key. What the code asks of the database
  is written out: selecting by state and owner, updating the state of one row, and deleting all but
  the last hundred rows of a state. A write sets \<^verbatim>\<open>updatedAt\<close> to the time of the trigger, the
  parameter \<open>writeTime\<close> of the number of the write.

  A run of the data inserter is a parameter as well: \<open>runs n\<close> is what the \<open>n\<close>-th run does as far
  as the queue can see, in order: it reports a progress (\<open>None\<close> when it is no number), and while it
  runs other requests may add jobs; then it ends or fails. \<open>interruptedAt k\<close> answers the \<open>k\<close>-th
  question to the interrupter.
\<close>

subsection \<open>Jobs and the table\<close>

datatype job_state = NEW_JOB_STATE | LOCKED_JOB_STATE | FINISHED_JOB_STATE | ERROR_JOB_STATE

record job =
  jobId :: nat
  collName :: string
  jobState :: job_state
  jobOwner :: "int option"
  jobByScheduler :: bool
  updatedAt :: int

datatype sync_error =
    SyncQueueOwnerSettingError
  | CollSyncPermissionError
  | UpdateSyncQueueJobError nat
  | DataInsertionError nat

datatype sync_progress = INITIAL_PROGRESS | Percent rat

record add_params =
  syncColls :: "string list"
  ownerUserId :: "int option"
  isOwnerScheduler :: bool

datatype run_action = Report "rat option" | OtherAdd add_params

record data_run =
  runActions :: "run_action list"
  runFails :: bool

record queue_env = arith +
  ALLOWED_COLLS :: "string list"
  methodCollTypes :: "string list"
  signedInUserIds :: "int list"
  runs :: "nat \<Rightarrow> data_run"
  interruptedAt :: "nat \<Rightarrow> bool"
  writeTime :: "nat \<Rightarrow> int"

record queue =
  jobs :: "job list"
  nextJobId :: nat
  writes :: nat
  isFirstSync :: bool
  qProgress :: sync_progress
  qPolls :: nat
  qRuns :: nat
  progressLog :: "rat list"

definition unfinished :: "job_state \<Rightarrow> bool" where
  "unfinished st \<longleftrightarrow> st \<in> {NEW_JOB_STATE, ERROR_JOB_STATE, LOCKED_JOB_STATE}"

definition insert_job :: "queue_env \<Rightarrow> add_params \<Rightarrow> string \<Rightarrow> queue \<Rightarrow> queue" where
  "insert_job env ps name q = q\<lparr>
     jobs := jobs q @ [\<lparr>jobId = nextJobId q, collName = name, jobState = NEW_JOB_STATE,
       jobOwner = ownerUserId ps, jobByScheduler = isOwnerScheduler ps,
       updatedAt = writeTime env (writes q)\<rparr>],
     nextJobId := Suc (nextJobId q), writes := Suc (writes q)\<rparr>"

definition updateStateById ::
  "queue_env \<Rightarrow> nat \<Rightarrow> job_state \<Rightarrow> queue \<Rightarrow> queue + sync_error" where
  "updateStateById env i st q =
     (if \<forall>j\<in>set (jobs q). jobId j \<noteq> i then Inr (UpdateSyncQueueJobError i)
      else Inl (q\<lparr>jobs := map (\<lambda>j. if jobId j = i
             then j\<lparr>jobState := st, updatedAt := writeTime env (writes q)\<rparr> else j) (jobs q),
           writes := Suc (writes q)\<rparr>))"

text \<open>\<^verbatim>\<open>removeElemsLeaveLastNRecords\<close>, sorted by \<^verbatim>\<open>updatedAt\<close> and \<^verbatim>\<open>_id\<close>, both descending.\<close>

definition last_records :: "nat \<Rightarrow> job_state \<Rightarrow> job list \<Rightarrow> job list" where
  "last_records n st js =
     take n (sort_key (\<lambda>j. (- updatedAt j, - int (jobId j))) (filter (\<lambda>j. jobState j = st) js))"

definition removeByState :: "job_state \<Rightarrow> queue \<Rightarrow> queue" where
  "removeByState st q = q\<lparr>jobs := filter (\<lambda>j. \<not> (jobId j \<notin> set (map jobId (last_records 100 st (jobs q)))
      \<and> jobState j = st)) (jobs q)\<rparr>"

subsection \<open>Adding jobs\<close>

definition checkCollPermission :: "queue_env \<Rightarrow> string list \<Rightarrow> bool" where
  "checkCollPermission env colls \<longleftrightarrow>
     colls \<noteq> [] \<and> \<not> list_ex (\<lambda>c. c = '''' \<or> list_all (\<lambda>n. c \<noteq> n) (ALLOWED_COLLS env)) colls"

definition concerns :: "queue_env \<Rightarrow> add_params \<Rightarrow> job \<Rightarrow> bool" where
  "concerns env ps j \<longleftrightarrow> jobByScheduler j \<or>
     (case ownerUserId ps of
        Some u \<Rightarrow> jobOwner j = Some u
      | None \<Rightarrow> list_ex (\<lambda>u. jobOwner j = Some u) (signedInUserIds env))"

definition getUniqueNames :: "job list \<Rightarrow> string list \<Rightarrow> string list" where
  "getUniqueNames allSyncs colls = foldl (\<lambda>accum currM.
     if list_all (\<lambda>j. collName j \<noteq> currM) allSyncs \<and> list_all (\<lambda>n. n \<noteq> currM) accum
     then accum @ [currM] else accum) [] colls"

definition add :: "queue_env \<Rightarrow> add_params \<Rightarrow> queue \<Rightarrow> queue + sync_error" where
  "add env ps q =
     (if (ownerUserId ps = None \<and> \<not> isOwnerScheduler ps)
         \<or> (ownerUserId ps \<noteq> None \<and> isOwnerScheduler ps)
      then Inr SyncQueueOwnerSettingError
      else if \<not> checkCollPermission env (syncColls ps) then Inr CollSyncPermissionError
      else if isOwnerScheduler ps \<and> signedInUserIds env = [] then Inl q
      else
        let allSyncs = filter (\<lambda>j. unfinished (jobState j) \<and> concerns env ps j) (jobs q)
        in if list_ex (\<lambda>j. collName j = ''_ALL'') allSyncs then Inl q
           else
             let names = (if allSyncs = [] then syncColls ps
                          else getUniqueNames allSyncs (syncColls ps))
             in Inl (fold (insert_job env ps) names q))"

subsection \<open>How much of the whole a job is\<close>

text \<open>The types of the collections are lower case, as the expressions \<^verbatim>\<open>/^(?!hidden)/i\<close> want them.\<close>

definition starts_with :: "string \<Rightarrow> string \<Rightarrow> bool" where
  "starts_with p s \<longleftrightarrow> take (length p) s = p"

definition methodCollMap :: "queue_env \<Rightarrow> string list" where
  "methodCollMap env = filter (\<lambda>t. \<not> starts_with ''hidden'' t) (methodCollTypes env)"

definition allMultipliers :: "queue_env \<Rightarrow> string \<Rightarrow> rat option" where
  "allMultipliers env name =
     (let n = length (methodCollMap env);
          share = (\<lambda>k. if n = 0 then None else Some (fl env (of_nat k / of_nat n)))
      in if name \<notin> set (ALLOWED_COLLS env) then None
         else if name = ''_ALL'' then Some 1
         else if name = ''_PRIVATE''
           then share (length (filter (\<lambda>t. \<not> starts_with ''public'' t) (methodCollMap env)))
         else if name = ''_PUBLIC''
           then share (length (filter (starts_with ''public'') (methodCollMap env)))
         else share 1)"

text \<open>An object with integer keys lists them in ascending order.\<close>

definition getMultipliers ::
  "queue_env \<Rightarrow> int option \<Rightarrow> job list \<Rightarrow> queue \<Rightarrow> (nat \<times> rat) list" where
  "getMultipliers env owner prevSyncs q =
     (let futureSyncs = take 10 (filter (\<lambda>j. unfinished (jobState j)
            \<and> (case owner of None \<Rightarrow> True | Some u \<Rightarrow> jobOwner j = Some u)) (jobs q))
      in sort_key fst (foldl (\<lambda>accum j. case allMultipliers env (collName j) of
             None \<Rightarrow> accum
           | Some m \<Rightarrow> AList.update (jobId j) m accum) [] (prevSyncs @ futureSyncs)))"

definition sumMultipliers :: "queue_env \<Rightarrow> (nat \<times> rat) list \<Rightarrow> rat" where
  "sumMultipliers env ms = foldl (\<lambda>accum (i, currM). fl env (accum + currM)) 0 ms"

definition getMultiplier ::
  "queue_env \<Rightarrow> int option \<Rightarrow> job list \<Rightarrow> nat \<Rightarrow> queue \<Rightarrow> rat" where
  "getMultiplier env owner prevSyncs i q =
     (let ms = getMultipliers env owner prevSyncs q; s = sumMultipliers env ms
      in case map_of ms i of
           None \<Rightarrow> 0
         | Some m \<Rightarrow> if m = 0 \<or> s = 0 then 0 else fl env (fl env (1 / s) * m))"

subsection \<open>Running one job\<close>

definition setProgress :: "rat \<Rightarrow> queue \<Rightarrow> queue" where
  "setProgress p q = q\<lparr>qProgress := Percent p, progressLog := progressLog q @ [p]\<rparr>"

text \<open>\<^verbatim>\<open>Math.round\<close> rounds half up.\<close>

definition math_round :: "rat \<Rightarrow> rat" where
  "math_round x = of_int \<lfloor>x + 1 / 2\<rfloor>"

definition asyncProgressHandler ::
  "queue_env \<Rightarrow> rat \<Rightarrow> rat \<Rightarrow> rat option \<Rightarrow> queue \<Rightarrow> queue" where
  "asyncProgressHandler env currMultiplier multiplier progress q =
     (case progress of
        None \<Rightarrow> q
      | Some p \<Rightarrow>
          if currMultiplier = 0 \<or> p = 0 then q
          else
            let prevProgress = fl env (multiplier * 100);
                currProgress = math_round (fl env (prevProgress + fl env (p * currMultiplier)))
            in if p < 100 then setProgress currProgress q else q)"

text \<open>What happens while the data inserter runs; the second component is \<open>currMultiplier\<close>.\<close>

fun run_loop ::
  "queue_env \<Rightarrow> int option \<Rightarrow> nat \<Rightarrow> job list \<Rightarrow> rat \<Rightarrow> run_action list \<Rightarrow> rat \<Rightarrow> queue \<Rightarrow> rat \<times> queue"
where
  "run_loop env owner i prevSyncs multiplier [] currM q = (currM, q)"
| "run_loop env owner i prevSyncs multiplier (Report p # as) currM q =
     (let currM' = getMultiplier env owner prevSyncs i q
      in run_loop env owner i prevSyncs multiplier as currM'
           (asyncProgressHandler env currM' multiplier p q))"
| "run_loop env owner i prevSyncs multiplier (OtherAdd ps # as) currM q =
     run_loop env owner i prevSyncs multiplier as currM
       (case add env ps q of Inl q' \<Rightarrow> q' | Inr e \<Rightarrow> q)"

text \<open>An operation that throws leaves the state it has reached.\<close>

definition subProcess ::
  "queue_env \<Rightarrow> int option \<Rightarrow> job \<Rightarrow> job list \<Rightarrow> rat \<Rightarrow> queue \<Rightarrow> (rat + sync_error) \<times> queue" where
  "subProcess env owner nextSync prevSyncs multiplier q =
     (let r = runs env (qRuns q); i = jobId nextSync;
          (currM, q1) = run_loop env owner i prevSyncs multiplier (runActions r) 0
             (q\<lparr>qRuns := Suc (qRuns q)\<rparr>)
      in if runFails r then
           (case updateStateById env i ERROR_JOB_STATE q1 of
              Inl q2 \<Rightarrow> (Inr (DataInsertionError i), q2)
            | Inr e \<Rightarrow> (Inr e, q1))
         else (Inl (fl env (multiplier + currM)), q1))"

subsection \<open>The loop over the jobs\<close>

definition getNext :: "int option \<Rightarrow> queue \<Rightarrow> job option \<times> queue" where
  "getNext owner q =
     (find (\<lambda>j. (jobState j \<in> {NEW_JOB_STATE, ERROR_JOB_STATE}
            \<or> (isFirstSync q \<and> jobState j = LOCKED_JOB_STATE))
          \<and> (case owner of None \<Rightarrow> True | Some u \<Rightarrow> jobByScheduler j \<or> jobOwner j = Some u)) (jobs q),
      q\<lparr>isFirstSync := False\<rparr>)"

definition q_interrupted :: "queue_env \<Rightarrow> queue \<Rightarrow> bool" where
  "q_interrupted env q = interruptedAt env (qPolls q)"

definition q_polled :: "queue \<Rightarrow> queue" where
  "q_polled q = q\<lparr>qPolls := Suc (qPolls q)\<rparr>"

text \<open>
  \<open>n\<close> is how many jobs may still be taken: ten less \<^verbatim>\<open>count\<close>. A tenth job done, the code asks for
  one more and then leaves the loop.
\<close>

fun process_loop ::
  "queue_env \<Rightarrow> int option \<Rightarrow> nat \<Rightarrow> job list \<Rightarrow> rat \<Rightarrow> queue \<Rightarrow> sync_error option \<times> queue" where
  "process_loop env owner n prevSyncs multiplier q =
     (if q_interrupted env q then (None, q_polled q)
      else case getNext owner (q_polled q) of
          (None, q1) \<Rightarrow> (None, q1)
        | (Some j, q1) \<Rightarrow>
            (case n of
               0 \<Rightarrow> (None, q1)
             | Suc n' \<Rightarrow>
                (case updateStateById env (jobId j) LOCKED_JOB_STATE q1 of
                   Inr e \<Rightarrow> (Some e, q1)
                 | Inl q2 \<Rightarrow>
                    (case subProcess env owner j prevSyncs multiplier q2 of
                       (Inr e, q3) \<Rightarrow> (Some e, q3)
                     | (Inl multiplier', q3) \<Rightarrow>
                        if q_interrupted env q3 then
                          (case updateStateById env (jobId j) NEW_JOB_STATE (q_polled q3) of
                             Inl q4 \<Rightarrow> (None, q4)
                           | Inr e \<Rightarrow> (Some e, q_polled q3))
                        else
                          (case updateStateById env (jobId j) FINISHED_JOB_STATE (q_polled q3) of
                             Inl q4 \<Rightarrow> process_loop env owner n' (prevSyncs @ [j]) multiplier' q4
                           | Inr e \<Rightarrow> (Some e, q_polled q3))))))"

declare process_loop.simps [simp del]

definition process :: "queue_env \<Rightarrow> int option \<Rightarrow> queue \<Rightarrow> (sync_progress + sync_error) \<times> queue" where
  "process env owner q =
     (case process_loop env owner 10 [] 0 (q\<lparr>qProgress := INITIAL_PROGRESS\<rparr>) of
        (Some e, q1) \<Rightarrow> (Inr e, q1)
      | (None, q1) \<Rightarrow>
          let q2 = removeByState FINISHED_JOB_STATE q1;
              q3 = (if q_interrupted env q2 then q_polled q2 else setProgress 100 (q_polled q2))
          in (Inl (qProgress q3), q3))"

end
