(* ===== verification/Sync_Queue_Props.thy ===== *)
theory Sync_Queue_Props
  imports Sync_Queue
begin

text \<open>
  What the queue of synchronisation jobs guarantees: the life of a job is a path of a small state
  machine, no job stays locked, a call takes at most ten jobs, and adding is idempotent.
\<close>

subsection \<open>The life of a job\<close>

inductive job_move :: "job_state \<Rightarrow> job_state \<Rightarrow> bool" where
  take_new: "job_move NEW_JOB_STATE LOCKED_JOB_STATE"
| take_failed: "job_move ERROR_JOB_STATE LOCKED_JOB_STATE"
| finish: "job_move LOCKED_JOB_STATE FINISHED_JOB_STATE"
| release: "job_move LOCKED_JOB_STATE NEW_JOB_STATE"
| fail: "job_move LOCKED_JOB_STATE ERROR_JOB_STATE"

inductive_cases finished_moves: "job_move FINISHED_JOB_STATE st"

abbreviation moves :: "job_state \<Rightarrow> job_state \<Rightarrow> bool" where
  "moves \<equiv> job_move\<^sup>*\<^sup>*"

lemma moves_intros [intro]:
  "moves NEW_JOB_STATE LOCKED_JOB_STATE" "moves ERROR_JOB_STATE LOCKED_JOB_STATE"
  "moves LOCKED_JOB_STATE FINISHED_JOB_STATE" "moves LOCKED_JOB_STATE NEW_JOB_STATE"
  "moves LOCKED_JOB_STATE ERROR_JOB_STATE" "moves st st"
  by (auto intro: job_move.intros)

text \<open>A finished job stays finished.\<close>

lemma moves_finished: "moves FINISHED_JOB_STATE st \<Longrightarrow> st = FINISHED_JOB_STATE"
  by (induction rule: rtranclp_induct) (auto elim: finished_moves)

definition same_job :: "job \<Rightarrow> job \<Rightarrow> bool" where
  "same_job j j' \<longleftrightarrow> jobId j' = jobId j \<and> collName j' = collName j \<and> jobOwner j' = jobOwner j
     \<and> jobByScheduler j' = jobByScheduler j \<and> moves (jobState j) (jobState j')"

text \<open>From one table to a later one: old jobs moved on, new jobs have started as new.\<close>

definition later :: "queue \<Rightarrow> queue \<Rightarrow> bool" where
  "later q q' \<longleftrightarrow> nextJobId q \<le> nextJobId q'
     \<and> (\<forall>j\<in>set (jobs q). \<exists>j'\<in>set (jobs q'). same_job j j')
     \<and> (\<forall>j'\<in>set (jobs q'). (\<exists>j\<in>set (jobs q). same_job j j')
          \<or> (nextJobId q \<le> jobId j' \<and> moves NEW_JOB_STATE (jobState j')))"

lemma same_job_refl [simp]: "same_job j j"
  by (simp add: same_job_def)

lemma same_job_trans: "same_job j1 j2 \<Longrightarrow> same_job j2 j3 \<Longrightarrow> same_job j1 j3"
  by (auto simp: same_job_def)

lemma later_refl [simp]: "later q q"
  unfolding later_def using same_job_refl by blast

lemma later_trans:
  assumes "later q1 q2" "later q2 q3"
  shows "later q1 q3"
  unfolding later_def
proof (intro conjI ballI)
  show "nextJobId q1 \<le> nextJobId q3" using assms by (auto simp: later_def)
  show "\<exists>j'\<in>set (jobs q3). same_job j j'" if "j \<in> set (jobs q1)" for j
    using assms that unfolding later_def by (meson same_job_trans)
  fix j3 assume "j3 \<in> set (jobs q3)"
  with assms(2) consider (old) j2 where "j2 \<in> set (jobs q2)" "same_job j2 j3"
    | (new) "nextJobId q2 \<le> jobId j3" "moves NEW_JOB_STATE (jobState j3)"
    unfolding later_def by blast
  then show "(\<exists>j\<in>set (jobs q1). same_job j j3)
      \<or> (nextJobId q1 \<le> jobId j3 \<and> moves NEW_JOB_STATE (jobState j3))"
  proof cases
    case old
    with assms(1) consider (old2) j1 where "j1 \<in> set (jobs q1)" "same_job j1 j2"
      | (new2) "nextJobId q1 \<le> jobId j2" "moves NEW_JOB_STATE (jobState j2)"
      unfolding later_def by blast
    then show ?thesis
    proof cases
      case old2
      with old(2) show ?thesis by (meson same_job_trans)
    next
      case new2
      with old(2) show ?thesis by (auto simp: same_job_def intro: rtranclp_trans)
    qed
  next
    case new
    with assms(1) show ?thesis by (auto simp: later_def)
  qed
qed

lemma later_same_jobs: "jobs q' = jobs q \<Longrightarrow> nextJobId q' = nextJobId q \<Longrightarrow> later q q'"
  using later_refl[of q, unfolded later_def] by (simp add: later_def)

lemma later_map:
  assumes "jobs q' = map f (jobs q)" "nextJobId q' = nextJobId q"
    "\<And>j. j \<in> set (jobs q) \<Longrightarrow> same_job j (f j)"
  shows "later q q'"
  using assms(3) unfolding later_def assms(1,2) by auto

subsection \<open>Well-formed tables and locked jobs\<close>

definition wf_queue :: "queue \<Rightarrow> bool" where
  "wf_queue q \<longleftrightarrow> distinct (map jobId (jobs q)) \<and> (\<forall>j\<in>set (jobs q). jobId j < nextJobId q)"

definition locked_ids :: "queue \<Rightarrow> nat set" where
  "locked_ids q = jobId ` {j \<in> set (jobs q). jobState j = LOCKED_JOB_STATE}"

lemma same_jobs_facts:
  "jobs q' = jobs q \<Longrightarrow> nextJobId q' = nextJobId q \<Longrightarrow> wf_queue q' = wf_queue q"
  "jobs q' = jobs q \<Longrightarrow> locked_ids q' = locked_ids q"
  by (simp_all add: wf_queue_def locked_ids_def)

text \<open>While the data inserter runs, the table only grows by new jobs.\<close>

definition grown :: "queue \<Rightarrow> queue \<Rightarrow> bool" where
  "grown q q' \<longleftrightarrow> (\<exists>new. jobs q' = jobs q @ new
       \<and> (\<forall>j\<in>set new. jobState j = NEW_JOB_STATE \<and> nextJobId q \<le> jobId j \<and> jobId j < nextJobId q')
       \<and> distinct (map jobId new))
     \<and> nextJobId q \<le> nextJobId q' \<and> qRuns q' = qRuns q \<and> qPolls q' = qPolls q
     \<and> isFirstSync q' = isFirstSync q"

lemma grown_refl [simp]: "grown q q"
  by (simp add: grown_def)

lemma grown_trans:
  assumes "grown q1 q2" "grown q2 q3"
  shows "grown q1 q3"
proof -
  obtain n2 n3 where n: "jobs q2 = jobs q1 @ n2" "jobs q3 = jobs q2 @ n3"
    "\<forall>j\<in>set n2. jobState j = NEW_JOB_STATE \<and> nextJobId q1 \<le> jobId j \<and> jobId j < nextJobId q2"
    "\<forall>j\<in>set n3. jobState j = NEW_JOB_STATE \<and> nextJobId q2 \<le> jobId j \<and> jobId j < nextJobId q3"
    "distinct (map jobId n2)" "distinct (map jobId n3)" "nextJobId q1 \<le> nextJobId q2"
    "nextJobId q2 \<le> nextJobId q3"
    using assms by (auto simp: grown_def)
  have "distinct (map jobId (n2 @ n3))" using n(3-6) by fastforce
  moreover have "\<forall>j\<in>set (n2 @ n3). jobState j = NEW_JOB_STATE \<and> nextJobId q1 \<le> jobId j
      \<and> jobId j < nextJobId q3"
    using n(3,4,7,8) by fastforce
  ultimately show ?thesis
    using n assms by (auto simp: grown_def intro!: exI[of _ "n2 @ n3"])
qed

lemma grown_same_jobs:
  "jobs q' = jobs q \<Longrightarrow> nextJobId q' = nextJobId q \<Longrightarrow> qRuns q' = qRuns q \<Longrightarrow> qPolls q' = qPolls q
   \<Longrightarrow> isFirstSync q' = isFirstSync q \<Longrightarrow> grown q q'"
  by (simp add: grown_def)

lemma grown_facts:
  assumes "grown q q'"
  shows "later q q'" "wf_queue q \<Longrightarrow> wf_queue q'" "locked_ids q' = locked_ids q"
    "set (jobs q) \<subseteq> set (jobs q')" "wf_queue q \<Longrightarrow> j \<in> set (jobs q') \<Longrightarrow> i \<in> jobId ` set (jobs q)
       \<Longrightarrow> jobId j = i \<Longrightarrow> j \<in> set (jobs q)"
proof -
  obtain new where n: "jobs q' = jobs q @ new" "nextJobId q \<le> nextJobId q'"
    "\<forall>j\<in>set new. jobState j = NEW_JOB_STATE \<and> nextJobId q \<le> jobId j \<and> jobId j < nextJobId q'"
    "distinct (map jobId new)"
    using assms by (auto simp: grown_def)
  show "later q q'" using n by (auto simp: later_def intro: same_job_refl)
  show "wf_queue q'" if "wf_queue q"
    using that n by (fastforce simp: wf_queue_def)
  show "locked_ids q' = locked_ids q"
    using n(1,3) by (auto simp: locked_ids_def)
  show "set (jobs q) \<subseteq> set (jobs q')" using n(1) by simp
  show "j \<in> set (jobs q)" if "wf_queue q" "j \<in> set (jobs q')" "i \<in> jobId ` set (jobs q)" "jobId j = i"
    using that n(1,3) by (fastforce simp: wf_queue_def)
qed

subsection \<open>The operations\<close>

lemma insert_job_grown: "grown q (insert_job env ps name q)"
  by (simp add: grown_def insert_job_def)

lemma fold_insert_grown: "grown q (fold (insert_job env ps) names q)"
  by (induction names arbitrary: q) (auto intro: grown_trans insert_job_grown)

lemma add_grown: "add env ps q = Inl q' \<Longrightarrow> grown q q'"
  by (auto simp: add_def Let_def fold_insert_grown split: if_splits)

lemma handler_grown: "grown q (asyncProgressHandler env c m p q)"
  by (auto simp: asyncProgressHandler_def setProgress_def Let_def intro!: grown_same_jobs
      split: option.split)

lemma run_loop_grown: "run_loop env owner i prev m as c q = (c', q') \<Longrightarrow> grown q q'"
proof (induction as arbitrary: c q)
  case (Cons a as)
  show ?case
  proof (cases a)
    case (Report p)
    let ?c = "getMultiplier env owner prev i q"
    from Report Cons.prems
    have "run_loop env owner i prev m as ?c (asyncProgressHandler env ?c m p q) = (c', q')"
      by (simp add: Let_def)
    from grown_trans[OF handler_grown Cons.IH[OF this]] show ?thesis .
  next
    case (OtherAdd ps)
    have "grown q (case add env ps q of Inl q' \<Rightarrow> q' | Inr e \<Rightarrow> q)"
      by (auto split: sum.split intro: add_grown)
    moreover from OtherAdd Cons.prems
    have "run_loop env owner i prev m as c (case add env ps q of Inl q' \<Rightarrow> q' | Inr e \<Rightarrow> q) = (c', q')"
      by simp
    ultimately show ?thesis using Cons.IH grown_trans by blast
  qed
qed simp

text \<open>Updating the state of one row.\<close>

lemma update_facts:
  assumes "updateStateById env i st q = Inl q'"
  shows "wf_queue q' = wf_queue q" "qRuns q' = qRuns q" "nextJobId q' = nextJobId q"
    "i \<in> jobId ` set (jobs q)" "jobId ` set (jobs q') = jobId ` set (jobs q)"
    "\<And>j. j \<in> set (jobs q') \<Longrightarrow> jobId j = i \<Longrightarrow> jobState j = st"
    "locked_ids q' = (if st = LOCKED_JOB_STATE then insert i (locked_ids q) else locked_ids q - {i})"
    "(\<And>j. j \<in> set (jobs q) \<Longrightarrow> jobId j = i \<Longrightarrow> moves (jobState j) st) \<Longrightarrow> later q q'"
proof -
  let ?f = "\<lambda>j. if jobId j = i
    then j\<lparr>jobState := st, updatedAt := writeTime env (writes q)\<rparr> else j"
  have q': "jobs q' = map ?f (jobs q)" "i \<in> jobId ` set (jobs q)" "qRuns q' = qRuns q"
    "nextJobId q' = nextJobId q"
    using assms by (auto simp: updateStateById_def split: if_splits)
  then show "qRuns q' = qRuns q" "nextJobId q' = nextJobId q" "i \<in> jobId ` set (jobs q)"
    by simp_all
  have ids: "map jobId (jobs q') = map jobId (jobs q)" by (simp add: q'(1))
  then show "jobId ` set (jobs q') = jobId ` set (jobs q)" by (metis set_map)
  have "wf_queue r \<longleftrightarrow> distinct (map jobId (jobs r)) \<and> (\<forall>i\<in>set (map jobId (jobs r)). i < nextJobId r)" for r
    by (simp add: wf_queue_def)
  then show "wf_queue q' = wf_queue q" by (simp only: ids q'(4))
  show "jobState j = st" if "j \<in> set (jobs q')" "jobId j = i" for j
  proof -
    from that(1) obtain j0 where "j = ?f j0" unfolding q'(1) set_map by blast
    with that(2) show ?thesis by (cases "jobId j0 = i") simp_all
  qed
  show "locked_ids q' = (if st = LOCKED_JOB_STATE then insert i (locked_ids q) else locked_ids q - {i})"
  proof -
    have st: "jobState (?f j) = (if jobId j = i then st else jobState j)" "jobId (?f j) = jobId j" for j
      by simp_all
    have eq: "x \<in> locked_ids q' \<longleftrightarrow>
        (\<exists>j\<in>set (jobs q). jobId j = x \<and> (if x = i then st else jobState j) = LOCKED_JOB_STATE)" for x
      proof
      assume "x \<in> locked_ids q'"
      then obtain j where "j \<in> set (jobs q)" "jobId (?f j) = x" "jobState (?f j) = LOCKED_JOB_STATE"
        by (auto simp: locked_ids_def q'(1) simp del: if_distrib)
      then show "\<exists>j\<in>set (jobs q). jobId j = x \<and> (if x = i then st else jobState j) = LOCKED_JOB_STATE"
        unfolding st by blast
    next
      assume "\<exists>j\<in>set (jobs q). jobId j = x \<and> (if x = i then st else jobState j) = LOCKED_JOB_STATE"
      then obtain j where "j \<in> set (jobs q)" "jobId (?f j) = x" "jobState (?f j) = LOCKED_JOB_STATE"
        unfolding st by blast
      then show "x \<in> locked_ids q'" unfolding locked_ids_def q'(1) by force
    qed
    have old: "x \<in> locked_ids q \<longleftrightarrow> (\<exists>j\<in>set (jobs q). jobId j = x \<and> jobState j = LOCKED_JOB_STATE)" for x
      by (auto simp: locked_ids_def)
    show ?thesis
    proof (rule set_eqI)
      fix x
      show "x \<in> locked_ids q' \<longleftrightarrow> x \<in> (if st = LOCKED_JOB_STATE then insert i (locked_ids q) else locked_ids q - {i})"
        unfolding eq using old[of x] q'(2) by (cases "x = i") auto
    qed
  qed
  show "later q q'" if "\<And>j. j \<in> set (jobs q) \<Longrightarrow> jobId j = i \<Longrightarrow> moves (jobState j) st"
  proof -
    have "same_job j (?f j)" if "j \<in> set (jobs q)" for j
      using that \<open>\<And>j. j \<in> set (jobs q) \<Longrightarrow> jobId j = i \<Longrightarrow> moves (jobState j) st\<close>
      by (simp add: same_job_def)
    from later_map[OF q'(1,4) this] show ?thesis .
  qed
qed

lemma update_succeeds: "i \<in> jobId ` set (jobs q) \<Longrightarrow> \<exists>q'. updateStateById env i st q = Inl q'"
  by (auto simp: updateStateById_def)

subsection \<open>One job\<close>

lemma q_polled_simps [simp]:
  "jobs (q_polled q) = jobs q" "nextJobId (q_polled q) = nextJobId q" "qRuns (q_polled q) = qRuns q"
  "wf_queue (q_polled q) = wf_queue q" "locked_ids (q_polled q) = locked_ids q"
  "later q' (q_polled q) = later q' q" "later (q_polled q) q' = later q q'"
  by (simp_all add: q_polled_def wf_queue_def locked_ids_def later_def)

lemma getNext_facts:
  assumes "getNext owner q = (r, q1)"
  shows "jobs q1 = jobs q" "nextJobId q1 = nextJobId q" "qRuns q1 = qRuns q"
    "r = Some j \<Longrightarrow> locked_ids q = {} \<Longrightarrow>
       j \<in> set (jobs q) \<and> jobState j \<in> {NEW_JOB_STATE, ERROR_JOB_STATE}"
  using assms by (auto simp: getNext_def locked_ids_def find_Some_iff)

text \<open>The table while the job \<open>i\<close>, and only it, is locked.\<close>

definition working_on :: "nat \<Rightarrow> queue \<Rightarrow> bool" where
  "working_on i q \<longleftrightarrow> wf_queue q \<and> locked_ids q = {i} \<and> i \<in> jobId ` set (jobs q)
     \<and> (\<forall>j\<in>set (jobs q). jobId j = i \<longrightarrow> jobState j = LOCKED_JOB_STATE)"

lemma working_on_grown:
  assumes "working_on i q" "grown q q'"
  shows "working_on i q'"
  using assms grown_facts(2-4)[OF assms(2)] grown_facts(5)[OF assms(2)]
  unfolding working_on_def by blast

text \<open>Unlocking the job ends the work on it.\<close>

lemma working_on_update:
  assumes "working_on i q" "st \<noteq> LOCKED_JOB_STATE"
  obtains q' where "updateStateById env i st q = Inl q'" "wf_queue q'" "locked_ids q' = {}" "later q q'"
    "qRuns q' = qRuns q" "\<exists>j\<in>set (jobs q'). jobId j = i \<and> jobState j = st"
proof -
  have i: "i \<in> jobId ` set (jobs q)" using assms(1) by (simp add: working_on_def)
  then obtain q' where u: "updateStateById env i st q = Inl q'" using update_succeeds by blast
  note f = update_facts[OF u]
  have "moves LOCKED_JOB_STATE st" using assms(2) by (cases st) auto
  then have "later q q'" using assms(1) by (intro f(8)) (auto simp: working_on_def)
  moreover have "\<exists>j\<in>set (jobs q'). jobId j = i \<and> jobState j = st"
  proof -
    from i f(5) obtain j where "j \<in> set (jobs q')" "jobId j = i" by (metis imageE)
    with f(6) show ?thesis by blast
  qed
  ultimately show thesis
    using that[OF u] f(1,2,7) assms by (simp add: working_on_def)
qed

lemma lock_job:
  assumes "wf_queue q" "locked_ids q = {}" "j \<in> set (jobs q)"
    "jobState j \<in> {NEW_JOB_STATE, ERROR_JOB_STATE}"
  obtains q' where "updateStateById env (jobId j) LOCKED_JOB_STATE q = Inl q'" "working_on (jobId j) q'"
    "later q q'" "qRuns q' = qRuns q"
proof -
  have i: "jobId j \<in> jobId ` set (jobs q)" using assms(3) by simp
  then obtain q' where u: "updateStateById env (jobId j) LOCKED_JOB_STATE q = Inl q'"
    using update_succeeds by blast
  note f = update_facts[OF u]
  have "j' = j" if "j' \<in> set (jobs q)" "jobId j' = jobId j" for j'
    using that assms(1,3) by (auto simp: wf_queue_def distinct_map dest: inj_onD)
  then have only: "jobState j' = jobState j" if "j' \<in> set (jobs q)" "jobId j' = jobId j" for j'
    using that by blast
  have "moves (jobState j) LOCKED_JOB_STATE" using assms(4) by auto
  then have "later q q'" by (intro f(8)) (simp add: only)
  moreover have "working_on (jobId j) q'"
    using f(1,4,5,6,7) assms(1,2) unfolding working_on_def by auto
  ultimately show thesis using that[OF u] f(2) by blast
qed

lemma subProcess_cases:
  assumes "working_on (jobId j) q"
  obtains (finished) m q' where "subProcess env owner j prev mult q = (Inl m, q')" "working_on (jobId j) q'"
      "later q q'" "qRuns q' = Suc (qRuns q)"
  | (fails) q' where "subProcess env owner j prev mult q = (Inr (DataInsertionError (jobId j)), q')"
      "wf_queue q'" "locked_ids q' = {}" "later q q'" "qRuns q' = Suc (qRuns q)"
      "\<exists>j'\<in>set (jobs q'). jobId j' = jobId j \<and> jobState j' = ERROR_JOB_STATE"
proof -
  let ?q = "q\<lparr>qRuns := Suc (qRuns q)\<rparr>" and ?r = "runs env (qRuns q)"
  obtain c q1 where loop: "run_loop env owner (jobId j) prev mult (runActions ?r) 0 ?q = (c, q1)"
    by fastforce
  then have g: "grown ?q q1" by (rule run_loop_grown)
  have w: "working_on (jobId j) ?q" using assms by (simp add: working_on_def wf_queue_def locked_ids_def)
  have w1: "working_on (jobId j) q1" by (rule working_on_grown[OF w g])
  have l1: "later q q1" using grown_facts(1)[OF g] by (simp add: later_def)
  have r1: "qRuns q1 = Suc (qRuns q)" using g by (simp add: grown_def)
  show thesis
  proof (cases "runFails ?r")
    case False
    then show thesis using loop w1 l1 r1 by (intro finished) (simp_all add: subProcess_def)
  next
    case True
    obtain q2 where "updateStateById env (jobId j) ERROR_JOB_STATE q1 = Inl q2" "wf_queue q2"
      "locked_ids q2 = {}" "later q1 q2" "qRuns q2 = qRuns q1"
      "\<exists>j'\<in>set (jobs q2). jobId j' = jobId j \<and> jobState j' = ERROR_JOB_STATE"
      by (rule working_on_update[OF w1, of ERROR_JOB_STATE env]) simp_all
    with True loop l1 r1 show thesis
      by (intro fails) (auto simp: subProcess_def intro: later_trans)
  qed
qed

subsection \<open>The loop\<close>

definition fair_end :: "nat \<Rightarrow> queue \<Rightarrow> sync_error option \<Rightarrow> queue \<Rightarrow> bool" where
  "fair_end n q err q' \<longleftrightarrow> wf_queue q' \<and> locked_ids q' = {} \<and> later q q' \<and> qRuns q' \<le> qRuns q + n
     \<and> (case err of None \<Rightarrow> True | Some e \<Rightarrow>
          (\<exists>j\<in>set (jobs q'). e = DataInsertionError (jobId j) \<and> jobState j = ERROR_JOB_STATE))"

lemma fair_end_later:
  "later q q1 \<Longrightarrow> qRuns q1 \<le> Suc (qRuns q) \<Longrightarrow> fair_end n q1 err q' \<Longrightarrow> fair_end (Suc n) q err q'"
  by (auto simp: fair_end_def intro: later_trans)

lemma process_loop_end:
  assumes "wf_queue q" "locked_ids q = {}" "process_loop env owner n prev mult q = (err, q')"
  shows "fair_end n q err q'"
  using assms
proof (induction n arbitrary: prev mult q)
  case 0
  obtain r q1 where next1: "getNext owner (q_polled q) = (r, q1)" by fastforce
  note g = getNext_facts[OF next1, simplified]
  have "err = None" "q' = q_polled q \<or> q' = q1"
    using "0.prems"(3) next1 by (auto simp: process_loop.simps[of _ _ 0] split: if_splits option.splits)
  then show ?case
    using "0.prems"(1,2) g(1-3) same_jobs_facts[of q1 q] by (auto simp: fair_end_def later_same_jobs)
next
  case (Suc n)
  note wf = Suc.prems(1) and free = Suc.prems(2)
  note run = Suc.prems(3)[unfolded process_loop.simps[of _ _ "Suc n"]]
  obtain r q1 where next1: "getNext owner (q_polled q) = (r, q1)" by fastforce
  note g = getNext_facts[OF next1, simplified]
  have q1: "wf_queue q1" "locked_ids q1 = {}" "later q q1"
    using wf free g same_jobs_facts[of q1 q] by (simp_all add: later_same_jobs)
  show ?case
  proof (cases "q_interrupted env q \<or> r = None")
    case True
    then have "err = None" "q' = q_polled q \<or> q' = q1"
      using run next1 by (auto split: if_splits)
    then show ?thesis using wf free q1 g(3) by (auto simp: fair_end_def)
  next
    case False
    then obtain j where j: "r = Some j" "\<not> q_interrupted env q" by auto
    have "j \<in> set (jobs q1)" "jobState j \<in> {NEW_JOB_STATE, ERROR_JOB_STATE}"
      using g(4)[OF j(1) free] g(1) by simp_all
    then obtain q2 where q2: "updateStateById env (jobId j) LOCKED_JOB_STATE q1 = Inl q2"
      "working_on (jobId j) q2" "later q1 q2" "qRuns q2 = qRuns q1"
      by (rule lock_job[OF q1(1,2)])
    have l2: "later q q2" using q1(3) q2(3) by (rule later_trans)
    from q2(2) show ?thesis
    proof (cases rule: subProcess_cases[where env = env and owner = owner and prev = prev and mult = mult])
      case (fails q3)
      then have "err = Some (DataInsertionError (jobId j))" "q' = q3"
        using run next1 j q2(1) by simp_all
      moreover have "later q q3" using l2 fails(4) by (rule later_trans)
      moreover obtain j' where "j' \<in> set (jobs q3)" "jobId j' = jobId j" "jobState j' = ERROR_JOB_STATE"
        using fails(6) by blast
      ultimately show ?thesis
        using fails(2,3,5) q2(4) g(3) by (auto simp: fair_end_def intro!: bexI[of _ j'])
    next
      case (finished m q3)
      show ?thesis
      proof (cases "q_interrupted env q3")
        case True
        have "working_on (jobId j) (q_polled q3)"
          using finished(2) by (simp add: working_on_def)
        then obtain q4 where q4: "updateStateById env (jobId j) NEW_JOB_STATE (q_polled q3) = Inl q4"
          "wf_queue q4" "locked_ids q4 = {}" "later (q_polled q3) q4" "qRuns q4 = qRuns (q_polled q3)"
          by (rule working_on_update[of _ _ NEW_JOB_STATE env]) simp_all
        then have "err = None" "q' = q4" using run next1 j q2(1) finished(1) True by simp_all
        then show ?thesis
          using q4 l2 finished(3,4) q2(4) g(3) by (auto simp: fair_end_def intro: later_trans)
      next
        case False
        have "working_on (jobId j) (q_polled q3)"
          using finished(2) by (simp add: working_on_def)
        then obtain q4 where q4: "updateStateById env (jobId j) FINISHED_JOB_STATE (q_polled q3) = Inl q4"
          "wf_queue q4" "locked_ids q4 = {}" "later (q_polled q3) q4" "qRuns q4 = qRuns (q_polled q3)"
          by (rule working_on_update[of _ _ FINISHED_JOB_STATE env]) simp_all
        then have "process_loop env owner n (prev @ [j]) m q4 = (err, q')"
          using run next1 j q2(1) finished(1) False by simp
        then have "fair_end n q4 err q'" by (rule Suc.IH[OF q4(2,3)])
        moreover have "later q q4" using l2 finished(3) q4(4) by (auto intro: later_trans)
        moreover have "qRuns q4 \<le> Suc (qRuns q)" using q4(5) finished(4) q2(4) g(3) by simp
        ultimately show ?thesis by (rule fair_end_later[rotated 2])
      qed
    qed
  qed
qed

subsection \<open>Removing finished jobs\<close>

lemma removeByState_facts:
  "set (jobs (removeByState st q)) \<subseteq> set (jobs q)" "qRuns (removeByState st q) = qRuns q"
  "nextJobId (removeByState st q) = nextJobId q" "progressLog (removeByState st q) = progressLog q" "qPolls (removeByState st q) = qPolls q"
  "wf_queue q \<Longrightarrow> wf_queue (removeByState st q)"
  "st \<noteq> LOCKED_JOB_STATE \<Longrightarrow> locked_ids (removeByState st q) = locked_ids q"
  "j \<in> set (jobs q) \<Longrightarrow> jobState j \<noteq> st \<Longrightarrow> j \<in> set (jobs (removeByState st q))"
  by (auto simp: removeByState_def wf_queue_def locked_ids_def distinct_map inj_on_def)

text \<open>
  Removing the finished jobs keeps the last hundred. Jobs of other states stay as they are,
  a hundred of the given state stay (or all, when there are fewer), and no job that is removed has
  been updated later than one that stays.
\<close>

theorem removeByState_keeps_last:
  assumes "wf_queue q"
  shows "filter (\<lambda>j. jobState j \<noteq> st) (jobs (removeByState st q)) = filter (\<lambda>j. jobState j \<noteq> st) (jobs q)
    \<and> length (filter (\<lambda>j. jobState j = st) (jobs (removeByState st q)))
        = min 100 (length (filter (\<lambda>j. jobState j = st) (jobs q)))
    \<and> (\<forall>j\<in>set (jobs (removeByState st q)). \<forall>k\<in>set (jobs q) - set (jobs (removeByState st q)).
         jobState j = st \<longrightarrow> updatedAt k \<le> updatedAt j)"
proof -
  let ?key = "\<lambda>j. (- updatedAt j, - int (jobId j))"
  let ?of = "filter (\<lambda>j. jobState j = st)"
  let ?sorted = "sort_key ?key (?of (jobs q))"
  let ?kept = "last_records 100 st (jobs q)" and ?q' = "removeByState st q"
  have kept_sub: "set ?kept \<subseteq> set (?of (jobs q))"
    using set_take_subset[of 100 ?sorted] by (simp add: last_records_def)
  have inj: "j = k" if "j \<in> set (jobs q)" "k \<in> set (jobs q)" "jobId j = jobId k" for j k
    using assms that by (auto simp: wf_queue_def distinct_map dest: inj_onD)
  have in_kept: "jobId j \<in> set (map jobId ?kept) \<longleftrightarrow> j \<in> set ?kept" if "j \<in> set (jobs q)" for j
    using that kept_sub inj by auto
  then have jobs': "jobs ?q' = filter (\<lambda>j. j \<in> set ?kept \<or> jobState j \<noteq> st) (jobs q)"
    unfolding removeByState_def by (auto intro!: filter_cong)
  have others: "filter (\<lambda>j. jobState j \<noteq> st) (jobs ?q') = filter (\<lambda>j. jobState j \<noteq> st) (jobs q)"
    unfolding jobs' filter_filter by (rule filter_cong) auto
  have dist: "distinct (jobs q)" using assms by (auto simp: wf_queue_def distinct_map)
  have of': "set (?of (jobs ?q')) = set ?kept" using kept_sub by (auto simp: jobs')
  have "distinct (?of (jobs ?q'))" "distinct ?kept"
    using dist by (simp_all add: jobs' last_records_def)
  then have "length (?of (jobs ?q')) = length ?kept" using of' by (metis distinct_card)
  moreover have "length ?kept = min 100 (length (?of (jobs q)))" by (simp add: last_records_def)
  moreover have "updatedAt k \<le> updatedAt j"
    if "j \<in> set (jobs ?q')" "k \<in> set (jobs q) - set (jobs ?q')" "jobState j = st" for j k
  proof -
    have j: "j \<in> set (take 100 ?sorted)" using that of' by (auto simp: last_records_def)
    have "k \<in> set ?sorted" "k \<notin> set (take 100 ?sorted)"
      using that by (auto simp: jobs' last_records_def)
    then have k: "k \<in> set (drop 100 ?sorted)"
      by (metis append_take_drop_id set_append Un_iff)
    have "sorted (map ?key (take 100 ?sorted @ drop 100 ?sorted))" by simp
    then have "?key j \<le> ?key k" using j k unfolding map_append sorted_append by auto
    then show ?thesis by auto
  qed
  ultimately show ?thesis using others by simp
qed

subsection \<open>What a call of process leaves behind\<close>

lemma process_cases:
  assumes "process env owner q = (r, q')" "wf_queue q" "locked_ids q = {}"
  obtains (failed) e q1 where "r = Inr e" "fair_end 10 q (Some e) q'" "q1 = q'"
  | (ok) q1 where "fair_end 10 q None q1"
      "jobs q' = jobs (removeByState FINISHED_JOB_STATE q1)" "nextJobId q' = nextJobId q1"
      "qRuns q' = qRuns q1" "r = Inl (qProgress q')"
      "qProgress q' = Percent 100 \<and> progressLog q' = progressLog q1 @ [100]
       \<or> interruptedAt env (qPolls q1)"
proof -
  let ?q = "q\<lparr>qProgress := INITIAL_PROGRESS\<rparr>"
  obtain err q1 where loop: "process_loop env owner 10 [] 0 ?q = (err, q1)" by fastforce
  have "fair_end 10 ?q err q1"
    by (rule process_loop_end[OF _ _ loop]) (use assms in \<open>simp_all add: wf_queue_def locked_ids_def\<close>)
  then have fair: "fair_end 10 q err q1" by (simp add: fair_end_def later_def)
  show thesis
  proof (cases err)
    case (Some e)
    then show thesis using assms(1) loop fair by (intro failed[of e q1]) (simp_all add: process_def)
  next
    case None
    then show thesis
      using assms(1) loop fair
      by (intro ok[of q1]) (auto simp: process_def Let_def setProgress_def q_interrupted_def
          q_polled_def removeByState_facts split: if_splits)
  qed
qed

text \<open>
  C7: no job stays locked, and the only way to fail is the data inserter. Starting from a table
  without locked jobs, a call of \<^verbatim>\<open>process\<close> ends with none, whether it completes, is interrupted or
  fails; and when it fails, the error is that of a run whose job is left in the state for a retry.
\<close>

theorem process_unlocks:
  assumes "process env owner q = (r, q')" "wf_queue q" "locked_ids q = {}"
  shows "wf_queue q' \<and> locked_ids q' = {} \<and> qRuns q' \<le> qRuns q + 10
    \<and> (\<forall>e. r = Inr e \<longrightarrow>
         (\<exists>j\<in>set (jobs q'). e = DataInsertionError (jobId j) \<and> jobState j = ERROR_JOB_STATE))"
  using assms
proof (cases rule: process_cases)
  case failed
  then show ?thesis by (auto simp: fair_end_def)
next
  case (ok q1)
  note f = removeByState_facts(6,7)[where q = q1 and st = FINISHED_JOB_STATE]
  have "wf_queue q'" "locked_ids q' = {}"
    using ok f same_jobs_facts[of q' "removeByState FINISHED_JOB_STATE q1"]
    by (auto simp: fair_end_def removeByState_facts)
  then show ?thesis using ok by (simp add: fair_end_def)
qed


subsection \<open>Waiting jobs are worked off\<close>

definition waiting :: "queue \<Rightarrow> nat set" where
  "waiting q = jobId ` {j \<in> set (jobs q). jobState j \<in> {NEW_JOB_STATE, ERROR_JOB_STATE}}"

lemma waiting_iff:
  "i \<in> waiting q \<longleftrightarrow> (\<exists>j\<in>set (jobs q). jobId j = i \<and> jobState j \<in> {NEW_JOB_STATE, ERROR_JOB_STATE})"
  by (auto simp: waiting_def)

lemma waiting_update:
  assumes "updateStateById env i st q = Inl q'" "st \<in> {LOCKED_JOB_STATE, FINISHED_JOB_STATE}"
  shows "waiting q' = waiting q - {i}"
proof (rule set_eqI)
  let ?f = "\<lambda>j. if jobId j = i
    then j\<lparr>jobState := st, updatedAt := writeTime env (writes q)\<rparr> else j"
  have q': "jobs q' = map ?f (jobs q)" using assms(1) by (auto simp: updateStateById_def split: if_splits)
  have st: "jobState (?f j) = (if jobId j = i then st else jobState j)" "jobId (?f j) = jobId j" for j
    by simp_all
  fix x
  have "x \<in> waiting q' \<longleftrightarrow> (\<exists>j\<in>set (jobs q). jobId (?f j) = x
      \<and> jobState (?f j) \<in> {NEW_JOB_STATE, ERROR_JOB_STATE})"
    unfolding waiting_iff q' set_map by blast
  then show "x \<in> waiting q' \<longleftrightarrow> x \<in> waiting q - {i}"
    using assms(2) unfolding st by (auto simp: waiting_iff split: if_splits)
qed

text \<open>A run that adds no jobs leaves the table alone.\<close>

definition plain_run :: "data_run \<Rightarrow> bool" where
  "plain_run r \<longleftrightarrow> \<not> runFails r \<and> list_all (\<lambda>a. case a of Report p \<Rightarrow> True | OtherAdd ps \<Rightarrow> False) (runActions r)"

lemma run_loop_plain:
  assumes "list_all (\<lambda>a. case a of Report p \<Rightarrow> True | OtherAdd ps \<Rightarrow> False) as"
  shows "jobs (snd (run_loop env owner i prev m as c q)) = jobs q"
  using assms
proof (induction as arbitrary: c q)
  case (Cons a as)
  then obtain p where a: "a = Report p" by (cases a) auto
  have "jobs (asyncProgressHandler env c' m p q) = jobs q" for c'
    by (simp add: asyncProgressHandler_def setProgress_def Let_def split: option.split)
  with Cons a show ?case by (simp add: Let_def)
qed simp

lemma waiting_finite [simp]: "finite (waiting q)"
  by (simp add: waiting_def)

lemma waiting_same_jobs: "jobs q' = jobs q \<Longrightarrow> waiting q' = waiting q"
  by (simp add: waiting_def)

lemma getNext_waiting:
  assumes "waiting q \<noteq> {}" "locked_ids q = {}"
  obtains j where "fst (getNext None q) = Some j" "jobId j \<in> waiting q" "j \<in> set (jobs q)"
    "jobState j \<in> {NEW_JOB_STATE, ERROR_JOB_STATE}"
proof (cases "fst (getNext None q)")
  case None
  then have "waiting q = {}" by (auto simp: getNext_def find_None_iff waiting_iff)
  with assms show thesis by simp
next
  case (Some j)
  obtain q1 where "getNext None q = (Some j, q1)" using Some by (cases "getNext None q") auto
  from getNext_facts(4)[OF this refl assms(2)] Some show thesis
    by (intro that[of j]) (auto simp: waiting_iff)
qed

lemma process_loop_drains:
  assumes "wf_queue q" "locked_ids q = {}" "card (waiting q) \<le> n"
    "\<And>k. plain_run (runs env k)" "\<And>k. \<not> interruptedAt env k"
  shows "\<exists>q'. process_loop env None n prev mult q = (None, q') \<and> waiting q' = {}"
  using assms(1-3)
proof (induction n arbitrary: prev mult q)
  case 0
  then have w: "waiting q = {}" by simp
  moreover have "waiting (snd (getNext None (q_polled q))) = waiting q"
    by (simp add: getNext_def waiting_def)
  ultimately show ?case
    by (cases "getNext None (q_polled q)")
      (auto simp: process_loop.simps[of _ _ 0] q_interrupted_def assms(5) split: option.splits)
next
  case (Suc n)
  obtain r q1 where next1: "getNext None (q_polled q) = (r, q1)" by fastforce
  note g = getNext_facts[OF next1, simplified]
  have q1: "wf_queue q1" "locked_ids q1 = {}" "waiting q1 = waiting q"
    using Suc.prems g same_jobs_facts[of q1 q] waiting_same_jobs[of q1 q] by simp_all
  show ?case
  proof (cases "waiting q = {}")
    case True
    then have "r = None"
      using next1 g(4) Suc.prems(2) by (cases r) (auto simp: waiting_def)
    then show ?thesis
      using True q1(3) next1 by (simp add: process_loop.simps[of _ _ "Suc n"] q_interrupted_def assms(5))
  next
    case False
    have "waiting (q_polled q) \<noteq> {}" "locked_ids (q_polled q) = {}"
      using False Suc.prems(2) by (simp_all add: waiting_def)
    then obtain j where j: "r = Some j" "jobId j \<in> waiting q" "j \<in> set (jobs q1)"
      "jobState j \<in> {NEW_JOB_STATE, ERROR_JOB_STATE}"
      by (rule getNext_waiting) (use next1 g(1) in \<open>auto simp: waiting_def\<close>)
    obtain q2 where q2: "updateStateById env (jobId j) LOCKED_JOB_STATE q1 = Inl q2"
      "working_on (jobId j) q2"
      by (rule lock_job[OF q1(1,2) j(3,4)])
    have plain: "plain_run (runs env (qRuns q2))" by (rule assms(4))
    obtain c q3 where loop: "run_loop env None (jobId j) prev mult (runActions (runs env (qRuns q2))) 0
        (q2\<lparr>qRuns := Suc (qRuns q2)\<rparr>) = (c, q3)" by fastforce
    then have sub: "subProcess env None j prev mult q2 = (Inl (fl env (mult + c)), q3)"
      using plain by (simp add: subProcess_def plain_run_def)
    have jobs3: "jobs q3 = jobs q2"
      using run_loop_plain[of "runActions (runs env (qRuns q2))" env None "jobId j" prev mult 0
          "q2\<lparr>qRuns := Suc (qRuns q2)\<rparr>"] plain loop
      by (simp add: plain_run_def)
    have "working_on (jobId j) q3"
      using q2(2)
      by (cases rule: subProcess_cases[where env = env and owner = None and prev = prev and mult = mult])
        (use sub in simp_all)
    then have w3: "working_on (jobId j) (q_polled q3)" by (simp add: working_on_def)
    obtain q4 where q4: "updateStateById env (jobId j) FINISHED_JOB_STATE (q_polled q3) = Inl q4"
      "wf_queue q4" "locked_ids q4 = {}"
      by (rule working_on_update[OF w3, of FINISHED_JOB_STATE env]) simp_all
    have "waiting q4 = waiting q - {jobId j}"
      using waiting_update[OF q4(1)] waiting_update[OF q2(1)] q1(3) jobs3 waiting_same_jobs[of "q_polled q3" q2]
      by simp
    then have "card (waiting q4) \<le> n"
      using Suc.prems(3) j(2) by simp
    from Suc.IH[OF q4(2,3) this, of "prev @ [j]" "fl env (mult + c)"] next1 j(1) q2(1) sub q4(1)
    show ?thesis by (simp add: process_loop.simps[of _ _ "Suc n"] q_interrupted_def assms(5))
  qed
qed

text \<open>
  C9: the queue is worked off. When at most ten jobs wait, no other request adds one, no run fails
  and nobody interrupts, a call of \<^verbatim>\<open>process\<close> leaves no job waiting and reports 100 per cent.
\<close>

theorem process_drains:
  assumes "wf_queue q" "locked_ids q = {}" "card (waiting q) \<le> 10"
    "\<And>k. plain_run (runs env k)" "\<And>k. \<not> interruptedAt env k"
  shows "\<exists>q'. process env None q = (Inl (Percent 100), q') \<and> waiting q' = {}"
proof -
  let ?q = "q\<lparr>qProgress := INITIAL_PROGRESS\<rparr>"
  have "wf_queue ?q" "locked_ids ?q = {}" "card (waiting ?q) \<le> 10"
    using assms(1-3) by (simp_all add: wf_queue_def locked_ids_def waiting_def)
  from process_loop_drains[OF this assms(4,5), of "[]" 0] obtain q1 where
    q1: "process_loop env None 10 [] 0 ?q = (None, q1)" "waiting q1 = {}" by blast
  have "waiting (removeByState FINISHED_JOB_STATE q1) = {}"
    using q1(2) removeByState_facts(1)[of FINISHED_JOB_STATE q1] by (auto simp: waiting_def)
  then show ?thesis
    using q1 assms(5) by (auto simp: process_def Let_def setProgress_def q_interrupted_def
        q_polled_def waiting_def)
qed

subsection \<open>Adding\<close>

lemma getUniqueNames_facts:
  "set (getUniqueNames js colls) = {c \<in> set colls. \<forall>j\<in>set js. collName j \<noteq> c}"
  "distinct (getUniqueNames js colls)"
proof -
  let ?f = "\<lambda>accum c. if list_all (\<lambda>j. collName j \<noteq> c) js \<and> list_all (\<lambda>n. n \<noteq> c) accum
    then accum @ [c] else accum"
  have "set (foldl ?f acc colls) = set acc \<union> {c \<in> set colls. \<forall>j\<in>set js. collName j \<noteq> c}
      \<and> distinct (foldl ?f acc colls)" if "distinct acc" for acc
    using that
  proof (induction colls arbitrary: acc)
    case (Cons c colls)
    then have "distinct (?f acc c)" by (auto simp: list_all_iff)
    from Cons.IH[OF this] show ?case by (auto simp: list_all_iff split: if_splits)
  qed simp
  from this[of "[]"] show "set (getUniqueNames js colls) = {c \<in> set colls. \<forall>j\<in>set js. collName j \<noteq> c}"
    "distinct (getUniqueNames js colls)"
    by (simp_all add: getUniqueNames_def)
qed

definition new_job :: "add_params \<Rightarrow> job \<Rightarrow> bool" where
  "new_job ps j \<longleftrightarrow> jobState j = NEW_JOB_STATE \<and> jobOwner j = ownerUserId ps
     \<and> jobByScheduler j = isOwnerScheduler ps"

lemma fold_insert_facts:
  "\<exists>new. jobs (fold (insert_job env ps) names q) = jobs q @ new \<and> map collName new = names
     \<and> list_all (new_job ps) new"
proof (induction names arbitrary: q)
  case (Cons n names)
  obtain new where "jobs (fold (insert_job env ps) names (insert_job env ps n q)) =
      jobs (insert_job env ps n q) @ new" "map collName new = names" "list_all (new_job ps) new"
    using Cons by blast
  moreover obtain j where "jobs (insert_job env ps n q) = jobs q @ [j]" "collName j = n" "new_job ps j"
    by (auto simp: insert_job_def new_job_def)
  ultimately show ?case by (auto intro!: exI[of _ "j # new"])
qed simp

text \<open>
  What adding does. An addition that is not refused leaves every job alone and appends new jobs
  of the caller; if jobs of the caller are unfinished, the names are those of the request that are
  not among them, each once, and nothing is added when a synchronisation of everything is pending.
\<close>

theorem add_effect:
  assumes "add env ps q = Inl q'"
    "pending = filter (\<lambda>j. unfinished (jobState j) \<and> concerns env ps j) (jobs q)"
  shows "\<exists>new. jobs q' = jobs q @ new \<and> list_all (new_job ps) new
    \<and> set (map collName new) \<subseteq> set (syncColls ps)
    \<and> (pending \<noteq> [] \<longrightarrow> distinct (map collName new)
         \<and> set (map collName new) \<inter> collName ` set pending = {})
    \<and> (''_ALL'' \<in> collName ` set pending \<longrightarrow> new = [])"
proof -
  let ?names = "if pending = [] then syncColls ps else getUniqueNames pending (syncColls ps)"
  consider (nothing) "q' = q" | (some) "q' = fold (insert_job env ps) ?names q"
      "\<not> list_ex (\<lambda>j. collName j = ''_ALL'') pending"
    using assms by (auto simp: add_def Let_def split: if_splits)
  then show ?thesis
  proof cases
    case nothing
    then show ?thesis by (intro exI[of _ "[]"]) simp
  next
    case some
    obtain new where new: "jobs q' = jobs q @ new" "map collName new = ?names" "list_all (new_job ps) new"
      using fold_insert_facts[of env ps ?names q] some(1) by blast
    have "set ?names \<subseteq> set (syncColls ps)"
      "pending \<noteq> [] \<longrightarrow> distinct ?names \<and> set ?names \<inter> collName ` set pending = {}"
      using getUniqueNames_facts[of pending "syncColls ps"] by auto
    with new some(2) show ?thesis unfolding new(2)[symmetric] by (auto simp: list_ex_iff)
  qed
qed

text \<open>
  Adding is idempotent. Repeating a request that was accepted adds nothing, whatever the first
  one added.
\<close>

theorem add_idempotent:
  assumes "add env ps q = Inl q'"
  shows "add env ps q' = Inl q'"
proof -
  let ?pending = "\<lambda>q. filter (\<lambda>j. unfinished (jobState j) \<and> concerns env ps j) (jobs q)"
  let ?names = "if ?pending q = [] then syncColls ps else getUniqueNames (?pending q) (syncColls ps)"
  consider (same) "q' = q" | (new) "q' = fold (insert_job env ps) ?names q"
      "\<not> ((ownerUserId ps = None \<and> \<not> isOwnerScheduler ps) \<or> (ownerUserId ps \<noteq> None \<and> isOwnerScheduler ps))"
      "checkCollPermission env (syncColls ps)" "\<not> (isOwnerScheduler ps \<and> signedInUserIds env = [])"
    using assms by (auto simp: add_def Let_def split: if_splits)
  then show ?thesis
  proof cases
    case same
    then show ?thesis using assms by simp
  next
    case new
    obtain js where js: "jobs q' = jobs q @ js" "map collName js = ?names" "list_all (new_job ps) js"
      using fold_insert_facts[of env ps ?names q] new(1) by blast
    have "concerns env ps j \<and> unfinished (jobState j)" if "j \<in> set js" for j
      using that js(3) new(2) by (auto simp: list_all_iff new_job_def concerns_def unfinished_def)
    then have pending: "?pending q' = ?pending q @ js" by (simp add: js(1) filter_id_conv)
    have "set (syncColls ps) \<subseteq> collName ` set (?pending q')"
    proof -
      have "set ?names = collName ` set js"
        using arg_cong[OF js(2), of set] unfolding set_map by (rule sym)
      moreover have "set (syncColls ps) \<subseteq> set ?names \<union> collName ` set (?pending q)"
        by (auto simp: getUniqueNames_facts)
      ultimately show ?thesis unfolding pending by auto
    qed
    then have "set (getUniqueNames (?pending q') (syncColls ps)) = {}"
      unfolding getUniqueNames_facts(1) by auto
    then have none: "getUniqueNames (?pending q') (syncColls ps) = []" by simp
    moreover have "?pending q' \<noteq> []"
    proof
      assume "?pending q' = []"
      with \<open>set (syncColls ps) \<subseteq> _\<close> have "set (syncColls ps) = {}"
        by (simp only: list.set image_empty subset_empty)
      with new(3) show False by (simp add: checkCollPermission_def)
    qed
    ultimately have names: "(if ?pending q' = [] then syncColls ps
      else getUniqueNames (?pending q') (syncColls ps)) = []" by (simp only: if_False)
    have guards: "((ownerUserId ps = None \<and> \<not> isOwnerScheduler ps)
        \<or> (ownerUserId ps \<noteq> None \<and> isOwnerScheduler ps)) = False"
      "(isOwnerScheduler ps \<and> signedInUserIds env = []) = False"
      "(\<not> checkCollPermission env (syncColls ps)) = False"
      using new(2-4) by blast+
    show ?thesis unfolding add_def Let_def guards if_False names by simp
  qed
qed

subsection \<open>Concrete runs\<close>

text \<open>
  One job for the trades; while it runs, after it has reported 50 per cent, another request adds a
  job for the ledgers.
\<close>

definition sample_queue :: queue where
  "sample_queue = \<lparr>jobs = [\<lparr>jobId = 0, collName = ''trades'', jobState = NEW_JOB_STATE, jobOwner = Some 1,
      jobByScheduler = False, updatedAt = 0\<rparr>], nextJobId = 1, writes = 1, isFirstSync = False,
     qProgress = INITIAL_PROGRESS, qPolls = 0, qRuns = 0, progressLog = []\<rparr>"

definition ledgers_request :: add_params where
  "ledgers_request = \<lparr>syncColls = [''ledgers''], ownerUserId = Some 1, isOwnerScheduler = False\<rparr>"

definition sample_queue_env :: "run_action list \<Rightarrow> queue_env" where
  "sample_queue_env as = arith.extend exact_arith \<lparr>ALLOWED_COLLS = [''_ALL'', ''trades'', ''ledgers''],
     methodCollTypes = [''insertable:array:object'', ''insertable:array:object''],
     signedInUserIds = [1], runs = (\<lambda>k. \<lparr>runActions = Report (Some 50) # (if k = 0 then as else []),
       runFails = False\<rparr>), interruptedAt = (\<lambda>_. False), writeTime = int\<rparr>"

text \<open>
  The progress can exceed 100 per cent. The share of a finished job is fixed when it reports,
  so a job that is added later is counted on top of it: here 125 per cent is reported while the
  second job is still at its half.
\<close>

theorem process_progress_overshoot:
  "progressLog (snd (process (sample_queue_env [OtherAdd ledgers_request]) (Some 1) sample_queue))
     = [50, 125, 100]"
  by code_simp

lemma sample_queue_facts: "wf_queue sample_queue" "locked_ids sample_queue = {}"
  "card (waiting sample_queue) \<le> 10"
proof -
  have "waiting sample_queue \<subseteq> {0}"
    by (simp add: sample_queue_def waiting_def image_subset_iff)
  then have "card (waiting sample_queue) \<le> card {0::nat}" by (intro card_mono) simp_all
  then show "card (waiting sample_queue) \<le> 10" by simp
qed (simp_all add: sample_queue_def wf_queue_def locked_ids_def)

lemma process_unlocks_witness:
  "locked_ids (snd (process (sample_queue_env []) (Some 1) sample_queue)) = {}"
  using process_unlocks[OF surjective_pairing sample_queue_facts(1,2)] by simp


lemma process_drains_witness:
  "\<exists>q'. process (sample_queue_env []) None sample_queue = (Inl (Percent 100), q') \<and> waiting q' = {}"
  by (rule process_drains[OF sample_queue_facts])
    (auto simp: sample_queue_env_def plain_run_def arith.defs)

lemma removeByState_keeps_last_witness:
  "filter (\<lambda>j. jobState j \<noteq> FINISHED_JOB_STATE) (jobs (removeByState FINISHED_JOB_STATE sample_queue))
     = jobs sample_queue"
  using removeByState_keeps_last[OF sample_queue_facts(1), of FINISHED_JOB_STATE]
  by (simp add: sample_queue_def)

lemma ledgers_request_accepted: "\<exists>q'. add (sample_queue_env []) ledgers_request sample_queue = Inl q'"
  by (simp add: add_def Let_def sample_queue_env_def ledgers_request_def checkCollPermission_def
      arith.defs sample_queue_def unfinished_def concerns_def)

lemma add_effect_witness:
  "\<exists>q' new. add (sample_queue_env []) ledgers_request sample_queue = Inl q'
     \<and> jobs q' = jobs sample_queue @ new \<and> set (map collName new) \<subseteq> {''ledgers''}"
proof -
  obtain q' where q': "add (sample_queue_env []) ledgers_request sample_queue = Inl q'"
    using ledgers_request_accepted by blast
  from add_effect[OF q' refl] q' show ?thesis by (auto simp: ledgers_request_def)
qed

lemma add_idempotent_witness:
  "\<exists>q'. add (sample_queue_env []) ledgers_request sample_queue = Inl q'
     \<and> add (sample_queue_env []) ledgers_request q' = Inl q'"
  using ledgers_request_accepted add_idempotent by blast

end
