(* ===== verification/Sync_Progress.thy ===== *)
theory Sync_Progress
  imports Js_Prelude
begin

text \<open>
  The progress of the synchronisation (\<^verbatim>\<open>workers/loc.api/sync/progress/index.js\<close>): what it was set to
  last, kept in the object and in the one row of its table, and the estimate of the time left.

  The clock is a parameter: \<open>nowMts k\<close> is the answer to the \<open>k\<close>-th question for the time. So is the
  database as far as it fails: \<open>rowWritten k\<close> says whether the \<open>k\<close>-th write of the row succeeds.
  Messages to the parent process and to the web sockets are lists; log lines are left out.
\<close>

subsection \<open>States and values\<close>

datatype sync_progress_state =
    INITIAL_STATE | ACITVE_STATE | FINISHED_STATE | INTERRUPTED_STATE

fun progress_text :: "sync_progress_state \<Rightarrow> string" where
  "progress_text INITIAL_STATE = ''SYNCHRONIZATION_HAS_NOT_BEEN_STARTED_YET''"
| "progress_text ACITVE_STATE = ''SYNCHRONIZATION_IS_STARTED''"
| "progress_text FINISHED_STATE = ''SYNCHRONIZATION_IS_FINISHED''"
| "progress_text INTERRUPTED_STATE = ''SYNCHRONIZATION_HAS_BEEN_INTERRUPTED''"

definition all_progress_states :: "sync_progress_state list" where
  "all_progress_states = [INITIAL_STATE, ACITVE_STATE, FINISHED_STATE, INTERRUPTED_STATE]"

text \<open>What callers set: an error object, a number (\<^const>\<open>None\<close> when not finite), or a string.\<close>

record js_error =
  statusMessage :: "string option"
  errorText :: string

datatype progress_value = PError js_error | PNumber "rat option" | PText string

record progress_row =
  rowError :: "string option"
  rowValue :: "rat option"
  rowState :: "string option"

record estimate =
  estRow :: progress_row
  estInProgress :: bool
  estStartedAt :: "int option"
  estSpentTime :: "int option"
  estLeftTime :: "int option"

datatype ipc_message = ERROR_SYNC | READY_SYNC bool bool

record progress_env = arith +
  nowMts :: "nat \<Rightarrow> int"
  rowWritten :: "nat \<Rightarrow> bool"

text \<open>
  \<open>pgRegExpIndex\<close> is the \<^verbatim>\<open>lastIndex\<close> of the expression the module keeps. It has the global flag, so
  a test starts there and moves it.
\<close>

record progress_obj =
  pgRow :: progress_row
  pgStored :: "progress_row option"
  pgStartedAt :: "int option"
  pgInterval :: bool
  pgHasNotChanged :: bool
  pgLeftTime :: "int option"
  pgCandlesLeftTime :: "int option"
  pgPrevEstimate :: int
  pgRegExpIndex :: nat
  pgClock :: nat
  pgWrites :: nat
  pgIpc :: "ipc_message list"
  pgEmitted :: "estimate list"

subsection \<open>Recognising errors and states\<close>

definition lower_char :: "char \<Rightarrow> char" where
  "lower_char c = (let n = of_char c :: nat in if 65 \<le> n \<and> n \<le> 90 then char_of (n + 32) else c)"

text \<open>The first match of \<^verbatim>\<open>/(error)|(ERR_)/gi\<close> at or after an index: the index after it.\<close>

definition match_here :: "string \<Rightarrow> nat option" where
  "match_here s =
     (let t = map lower_char s
      in if take 5 t = ''error'' then Some 5 else if take 4 t = ''err_'' then Some 4 else None)"

fun match_from :: "nat \<Rightarrow> string \<Rightarrow> nat option" where
  "match_from i [] = None"
| "match_from i (c # cs) =
     (case match_here (c # cs) of Some n \<Rightarrow> Some (i + n) | None \<Rightarrow> match_from (Suc i) cs)"

definition errorRegExp_test :: "string \<Rightarrow> nat \<Rightarrow> bool \<times> nat" where
  "errorRegExp_test s lastIndex =
     (if lastIndex > length s then (False, 0)
      else case match_from lastIndex (drop lastIndex s) of
          Some i \<Rightarrow> (True, i)
        | None \<Rightarrow> (False, 0))"

definition isState :: "progress_value \<Rightarrow> bool" where
  "isState v = (case v of PText s \<Rightarrow> list_ex (\<lambda>st. progress_text st = s) all_progress_states
     | _ \<Rightarrow> False)"

definition isError :: "progress_value \<Rightarrow> progress_obj \<Rightarrow> bool \<times> progress_obj" where
  "isError v p =
     (case v of
        PError e \<Rightarrow> (True, p)
      | PNumber n \<Rightarrow> (False, p)
      | PText s \<Rightarrow> let (b, i) = errorRegExp_test s (pgRegExpIndex p)
                   in (b, p\<lparr>pgRegExpIndex := i\<rparr>))"

definition getSyncProgressState :: "progress_value \<Rightarrow> bool \<Rightarrow> string option" where
  "getSyncProgressState v is_error =
     (case v of
        PText s \<Rightarrow> if isState v then Some s
                   else if is_error then None else Some (progress_text ACITVE_STATE)
      | PError e \<Rightarrow> None
      | PNumber n \<Rightarrow> (case n of
            Some x \<Rightarrow> if x \<ge> 100 then Some (progress_text FINISHED_STATE)
                      else Some (progress_text ACITVE_STATE)
          | None \<Rightarrow> Some (progress_text ACITVE_STATE)))"

definition error_of :: "progress_value \<Rightarrow> bool \<Rightarrow> string option" where
  "error_of v is_error =
     (if is_error then
        (case v of
           PError e \<Rightarrow> Some (nullish (statusMessage e) (errorText e))
         | PText s \<Rightarrow> Some s
         | PNumber n \<Rightarrow> None)
      else None)"

definition value_of :: "progress_value \<Rightarrow> rat option" where
  "value_of v = (case v of PNumber n \<Rightarrow> n | _ \<Rightarrow> None)"

definition sendSyncCompletionStateByIPC :: "bool \<Rightarrow> string option \<Rightarrow> progress_obj \<Rightarrow> progress_obj" where
  "sendSyncCompletionStateByIPC is_error st p =
     (let isFinished = st = Some (progress_text FINISHED_STATE);
          isInterrupted = st = Some (progress_text INTERRUPTED_STATE)
      in if is_error then p\<lparr>pgIpc := pgIpc p @ [ERROR_SYNC]\<rparr>
         else if \<not> isFinished \<and> \<not> isInterrupted then p
         else p\<lparr>pgIpc := pgIpc p @ [READY_SYNC isFinished isInterrupted]\<rparr>)"

subsection \<open>The estimate\<close>

text \<open>An empty error counts as none.\<close>

definition isSyncInProgress :: "progress_row \<Rightarrow> bool" where
  "isSyncInProgress r \<longleftrightarrow>
     (rowError r = None \<or> rowError r = Some '''')
     \<and> rowState r = Some (progress_text ACITVE_STATE)
     \<and> (case rowValue r of Some x \<Rightarrow> x < 100 | None \<Rightarrow> False)"

definition tick :: "progress_obj \<Rightarrow> progress_obj" where
  "tick p = p\<lparr>pgClock := Suc (pgClock p)\<rparr>"

definition freshLeftTime :: "progress_env \<Rightarrow> rat \<Rightarrow> int \<Rightarrow> int \<Rightarrow> progress_obj \<Rightarrow> progress_obj" where
  "freshLeftTime env progress now spent p = p\<lparr>pgCandlesLeftTime := None, pgPrevEstimate := now,
     pgLeftTime := Some \<lfloor>fl env (fl env (of_int spent / progress) * fl env (100 - progress))\<rfloor>\<rparr>"

definition calcLeftTime ::
  "progress_env \<Rightarrow> rat \<Rightarrow> int \<Rightarrow> int \<Rightarrow> bool \<Rightarrow> progress_obj \<Rightarrow> progress_obj" where
  "calcLeftTime env progress now spent hasNotChanged p =
     (if \<not> hasNotChanged then freshLeftTime env progress now spent p
      else case pgLeftTime p of
          None \<Rightarrow> p\<lparr>pgPrevEstimate := now\<rparr>
        | Some l \<Rightarrow>
            let left = l - (now - pgPrevEstimate p);
                p' = p\<lparr>pgPrevEstimate := now\<rparr>
            in if left > 0 then p'\<lparr>pgLeftTime := Some left\<rparr>
               else (case pgCandlesLeftTime p' of
                   Some c \<Rightarrow> p'\<lparr>pgLeftTime := Some c\<rparr>
                 | None \<Rightarrow> freshLeftTime env progress now spent p'))"

definition estimateSyncTime ::
  "progress_env \<Rightarrow> progress_row \<Rightarrow> bool \<Rightarrow> progress_obj \<Rightarrow> estimate \<times> progress_obj" where
  "estimateSyncTime env r hasNotChanged p =
     (let now = nowMts env (pgClock p); p1 = tick p;
          est = \<lparr>estRow = r, estInProgress = isSyncInProgress r, estStartedAt = None,
                 estSpentTime = None, estLeftTime = None\<rparr>
      in case pgStartedAt p of
          None \<Rightarrow> (est, p1)
        | Some started \<Rightarrow>
            if started > now then (est, p1)
            else let spent = now - started;
                     est1 = est\<lparr>estStartedAt := Some started, estSpentTime := Some spent\<rparr>
              in case rowValue r of
                   None \<Rightarrow> (est1, p1)
                 | Some x \<Rightarrow>
                     if x \<le> 0 \<or> x > 100 then (est1, p1)
                     else let p2 = calcLeftTime env x now spent hasNotChanged p1
                          in (est1\<lparr>estLeftTime := pgLeftTime p2\<rparr>, p2))"

definition emitProgress_of :: "progress_env \<Rightarrow> bool \<Rightarrow> progress_obj \<Rightarrow> progress_obj" where
  "emitProgress_of env hasNotChanged p =
     (let (est, p1) = estimateSyncTime env (pgRow p) hasNotChanged p
      in p1\<lparr>pgEmitted := pgEmitted p1 @ [est]\<rparr>)"

subsection \<open>The operations\<close>

definition Progress_setProgress :: "progress_env \<Rightarrow> progress_value \<Rightarrow> progress_obj \<Rightarrow> progress_obj" where
  "Progress_setProgress env v p =
     (let (is_error, p1) = isError v p;
          isFinite = (value_of v \<noteq> None);
          row = \<lparr>rowError = error_of v is_error, rowValue = value_of v,
                 rowState = getSyncProgressState v is_error\<rparr>;
          p2 = sendSyncCompletionStateByIPC is_error (rowState row) p1;
          p3 = p2\<lparr>pgHasNotChanged :=
                   (is_error \<and> rowError (pgRow p2) \<noteq> rowError row)
                   \<or> (isFinite \<and> rowValue (pgRow p2) \<noteq> rowValue row)
                   \<or> (isState v \<and> rowState (pgRow p2) \<noteq> rowState row),
                  pgRow := row, pgWrites := Suc (pgWrites p2)\<rparr>
      in if rowWritten env (pgWrites p2)
         then emitProgress_of env False (p3\<lparr>pgStored := Some row\<rparr>)
         else p3)"

definition no_row :: progress_row where
  "no_row = \<lparr>rowError = None, rowValue = None, rowState = None\<rparr>"

definition getNonEstimatedProgress :: "progress_obj \<Rightarrow> progress_row" where
  "getNonEstimatedProgress p = nullish (pgStored p) no_row"

definition Progress_getProgress :: "progress_env \<Rightarrow> progress_obj \<Rightarrow> estimate \<times> progress_obj" where
  "Progress_getProgress env p = estimateSyncTime env (getNonEstimatedProgress p) False p"

definition activateSyncTimeEstimate :: "progress_env \<Rightarrow> progress_obj \<Rightarrow> progress_obj" where
  "activateSyncTimeEstimate env p =
     tick p\<lparr>pgStartedAt := Some (nowMts env (pgClock p)), pgInterval := True\<rparr>"

definition deactivateSyncTimeEstimate :: "progress_obj \<Rightarrow> progress_obj" where
  "deactivateSyncTimeEstimate p = p\<lparr>pgInterval := False, pgStartedAt := None\<rparr>"

definition setCandlesLeftTime :: "int option \<Rightarrow> progress_obj \<Rightarrow> progress_obj" where
  "setCandlesLeftTime left p = p\<lparr>pgCandlesLeftTime := left\<rparr>"

text \<open>The callback of the interval, while one is set.\<close>

definition progressEmitterInterval :: "progress_env \<Rightarrow> progress_obj \<Rightarrow> progress_obj" where
  "progressEmitterInterval env p =
     (if pgInterval p then emitProgress_of env (pgHasNotChanged p) p else p)"


subsection \<open>What is set is what is told\<close>

lemma emitProgress_frame:
  "pgStored (emitProgress_of env b p) = pgStored p" "pgRow (emitProgress_of env b p) = pgRow p"
  "pgIpc (emitProgress_of env b p) = pgIpc p" "pgStartedAt (emitProgress_of env b p) = pgStartedAt p"
  "pgWrites (emitProgress_of env b p) = pgWrites p" "pgInterval (emitProgress_of env b p) = pgInterval p"
  by (auto simp: emitProgress_of_def estimateSyncTime_def calcLeftTime_def freshLeftTime_def tick_def
      Let_def split: option.splits)

lemma estimate_row: "estRow (fst (estimateSyncTime env r b p)) = r"
  "estInProgress (fst (estimateSyncTime env r b p)) = isSyncInProgress r"
  by (auto simp: estimateSyncTime_def Let_def split: option.splits)

text \<open>The row a value stands for, for numbers and states, which are never taken for errors.\<close>

definition row_of_number :: "rat \<Rightarrow> progress_row" where
  "row_of_number x = \<lparr>rowError = None, rowValue = Some x,
     rowState = Some (progress_text (if x \<ge> 100 then FINISHED_STATE else ACITVE_STATE))\<rparr>"

lemma set_number_row:
  "pgRow (Progress_setProgress env (PNumber (Some x)) p) = row_of_number x"
  "pgStored (Progress_setProgress env (PNumber (Some x)) p) =
     (if rowWritten env (pgWrites p) then Some (row_of_number x) else pgStored p)"
  by (simp_all add: Progress_setProgress_def isError_def isState_def error_of_def value_of_def Let_def
      getSyncProgressState_def sendSyncCompletionStateByIPC_def row_of_number_def emitProgress_frame)

lemma set_error_row:
  "pgStored (Progress_setProgress env (PError e) p) =
     (if rowWritten env (pgWrites p)
      then Some \<lparr>rowError = Some (nullish (statusMessage e) (errorText e)), rowValue = None,
                 rowState = None\<rparr> else pgStored p)"
  by (simp add: Progress_setProgress_def isError_def isState_def error_of_def value_of_def Let_def
      getSyncProgressState_def sendSyncCompletionStateByIPC_def emitProgress_frame)

text \<open>
  A finite progress that was written is what a request for the progress is told, without error;
  the synchronisation counts as running exactly while it is below 100.
\<close>

theorem progress_roundtrip:
  assumes "rowWritten env (pgWrites p)"
    and "Progress_getProgress env (Progress_setProgress env (PNumber (Some x)) p) = (est, p')"
  shows "rowValue (estRow est) = Some x \<and> rowError (estRow est) = None
    \<and> (estInProgress est \<longleftrightarrow> x < 100)"
proof -
  have "est = fst (estimateSyncTime env (row_of_number x) False
      (Progress_setProgress env (PNumber (Some x)) p))"
    using assms by (simp add: Progress_getProgress_def getNonEstimatedProgress_def set_number_row)
  then show ?thesis
    by (auto simp: estimate_row row_of_number_def isSyncInProgress_def)
qed

text \<open>The parent process is told of every error and of every end, and of nothing else.\<close>

definition ipc_of :: "progress_value \<Rightarrow> bool \<Rightarrow> ipc_message list" where
  "ipc_of v is_error =
     (if is_error then [ERROR_SYNC]
      else if v = PText (progress_text FINISHED_STATE)
           \<or> (\<exists>x. v = PNumber (Some x) \<and> x \<ge> 100) then [READY_SYNC True False]
      else if v = PText (progress_text INTERRUPTED_STATE) then [READY_SYNC False True]
      else [])"

lemma isError_frame:
  "isError v p = (b, p1) \<Longrightarrow> p1 = p\<lparr>pgRegExpIndex := pgRegExpIndex p1\<rparr>"
  by (auto simp: isError_def Let_def split: progress_value.splits prod.splits)

text \<open>
  A call of setProgress sends the parent process one message when the value is an error, a
  progress of at least 100 or the interrupted state, and none otherwise.
\<close>

theorem setProgress_ipc:
  "pgIpc (Progress_setProgress env v p) = pgIpc p @ ipc_of v (fst (isError v p))"
proof -
  obtain b p1 where b: "isError v p = (b, p1)" by fastforce
  have ipc: "pgIpc (sendSyncCompletionStateByIPC b (getSyncProgressState v b) p1) =
      pgIpc p1 @ ipc_of v b"
    by (cases v) (auto simp: sendSyncCompletionStateByIPC_def getSyncProgressState_def ipc_of_def
        isState_def all_progress_states_def split: option.splits)
  have "pgIpc p1 = pgIpc p" using isError_frame[OF b] by (metis progress_obj.select_convs(12) progress_obj.surjective progress_obj.update_convs(9))
  with ipc b show ?thesis
    by (simp add: Progress_setProgress_def Let_def emitProgress_frame)
qed

subsection \<open>The time left\<close>

definition wf_progress :: "progress_obj \<Rightarrow> bool" where
  "wf_progress p \<longleftrightarrow> list_all (\<lambda>x. case x of Some l \<Rightarrow> 0 \<le> l | None \<Rightarrow> True)
     (pgLeftTime p # pgCandlesLeftTime p # map estLeftTime (pgEmitted p)
        @ map estSpentTime (pgEmitted p))"

datatype progress_op =
  SetProgress progress_value | GetProgress | Activate | Deactivate | SetCandles nat | IntervalTick

fun progress_step :: "progress_env \<Rightarrow> progress_op \<Rightarrow> progress_obj \<Rightarrow> progress_obj" where
  "progress_step env (SetProgress v) p = Progress_setProgress env v p"
| "progress_step env GetProgress p = snd (Progress_getProgress env p)"
| "progress_step env Activate p = activateSyncTimeEstimate env p"
| "progress_step env Deactivate p = deactivateSyncTimeEstimate p"
| "progress_step env (SetCandles n) p = setCandlesLeftTime (Some (int n)) p"
| "progress_step env IntervalTick p = progressEmitterInterval env p"

text \<open>Rounding keeps the sign.\<close>

definition sign_keeping :: "(rat \<Rightarrow> rat) \<Rightarrow> bool" where
  "sign_keeping f \<longleftrightarrow> (\<forall>x\<ge>0. 0 \<le> f x)"

lemma calcLeftTime_wf:
  assumes "sign_keeping (fl env)" "wf_progress p" "0 < x" "x \<le> 100" "0 \<le> spent"
  shows "wf_progress (calcLeftTime env x now spent b p)"
proof -
  have "0 \<le> fl env (fl env (of_int spent / x) * fl env (100 - x))"
    using assms unfolding sign_keeping_def by simp
  with assms(2) show ?thesis
    by (auto simp: calcLeftTime_def freshLeftTime_def wf_progress_def Let_def split: option.splits)
qed

lemma estimate_wf:
  assumes "sign_keeping (fl env)" "wf_progress p" "estimateSyncTime env r b p = (est, p')"
  shows "wf_progress p' \<and> (case estLeftTime est of Some l \<Rightarrow> 0 \<le> l | None \<Rightarrow> True)
    \<and> (case estSpentTime est of Some l \<Rightarrow> 0 \<le> l | None \<Rightarrow> True)"
proof -
  have tick: "wf_progress (tick p)" using assms(2) by (simp add: wf_progress_def tick_def)
  note wf' = calcLeftTime_wf[OF assms(1) tick]
  have left: "0 \<le> l" if "0 < x" "x \<le> 100" "0 \<le> spent"
    "pgLeftTime (calcLeftTime env x now spent b (tick p)) = Some l" for x spent now l
    using wf'[OF that(1-3), of now b] that(4) by (simp add: wf_progress_def)
  show ?thesis
    using assms(3) tick
    by (auto simp: estimateSyncTime_def Let_def split: option.splits if_splits intro: wf')
      (rule left, auto)
qed

lemma emit_wf:
  assumes "sign_keeping (fl env)" "wf_progress p"
  shows "wf_progress (emitProgress_of env b p)"
proof -
  obtain est p1 where e: "estimateSyncTime env (pgRow p) b p = (est, p1)" by fastforce
  from estimate_wf[OF assms e] show ?thesis
    by (auto simp: emitProgress_of_def e wf_progress_def)
qed

lemma setProgress_wf:
  assumes "sign_keeping (fl env)" "wf_progress p"
  shows "wf_progress (Progress_setProgress env v p)"
proof -
  obtain b p1 where b: "isError v p = (b, p1)" by fastforce
  have "wf_progress p1"
    using assms(2) b by (auto simp: isError_def wf_progress_def Let_def split: progress_value.splits prod.splits)
  then show ?thesis
    by (auto simp: Progress_setProgress_def b Let_def sendSyncCompletionStateByIPC_def
        intro!: emit_wf[OF assms(1)]) (auto simp: wf_progress_def)
qed

text \<open>
  Whatever is done with the progress in whatever order, no estimate that is given out has a
  negative time spent or left.
\<close>

theorem progress_times_nonnegative:
  assumes "sign_keeping (fl env)" "wf_progress p"
  shows "wf_progress (fold (progress_step env) ops p)"
  using assms(2)
proof (induction ops arbitrary: p)
  case (Cons op ops)
  have "wf_progress (progress_step env op p)"
  proof (cases op)
    case GetProgress
    then show ?thesis
      using estimate_wf[OF assms(1) Cons.prems]
      by (auto simp: Progress_getProgress_def) (metis prod.collapse)
  next
    case IntervalTick
    then show ?thesis using emit_wf[OF assms(1)] Cons.prems by (simp add: progressEmitterInterval_def)
  next
    case SetProgress
    then show ?thesis using setProgress_wf[OF assms(1)] Cons.prems by simp
  qed (use Cons.prems in \<open>simp_all add: wf_progress_def activateSyncTimeEstimate_def tick_def
        deactivateSyncTimeEstimate_def setCandlesLeftTime_def\<close>)
  with Cons.IH show ?case by simp
qed simp

definition initial_progress :: progress_obj where
  "initial_progress = \<lparr>pgRow = no_row, pgStored = None, pgStartedAt = None, pgInterval = False,
     pgHasNotChanged = True, pgLeftTime = None, pgCandlesLeftTime = None, pgPrevEstimate = 0,
     pgRegExpIndex = 0, pgClock = 0, pgWrites = 0, pgIpc = [], pgEmitted = []\<rparr>"

definition sample_progress_env :: progress_env where
  "sample_progress_env = arith.extend exact_arith
     \<lparr>nowMts = (\<lambda>k. 1000 * int k), rowWritten = (\<lambda>_. True)\<rparr>"

lemma sample_sign_keeping: "sign_keeping (fl sample_progress_env)"
  by (simp add: sign_keeping_def sample_progress_env_def exact_arith_def arith.extend_def)

lemma progress_roundtrip_witness:
  "rowValue (estRow (fst (Progress_getProgress sample_progress_env
     (Progress_setProgress sample_progress_env (PNumber (Some 42)) initial_progress)))) = Some 42"
  using progress_roundtrip[OF _ surjective_pairing, of sample_progress_env initial_progress 42]
  by (simp add: sample_progress_env_def arith.extend_def)

lemma progress_times_nonnegative_witness:
  "wf_progress (fold (progress_step sample_progress_env)
     [Activate, SetProgress (PNumber (Some 20)), IntervalTick, GetProgress] initial_progress)"
  by (rule progress_times_nonnegative[OF sample_sign_keeping])
    (simp add: wf_progress_def initial_progress_def)

text \<open>
  The expression that recognises errors keeps its place between calls: a text that is an error
  the first time is taken for a running state the second time, and its parent is not told.
\<close>

theorem repeated_error_lost:
  "let p1 = Progress_setProgress sample_progress_env (PText ''ERR_AUTH'') initial_progress;
       p2 = Progress_setProgress sample_progress_env (PText ''ERR_AUTH'') p1
   in pgStored p1 = Some \<lparr>rowError = Some ''ERR_AUTH'', rowValue = None, rowState = None\<rparr>
      \<and> pgStored p2 = Some \<lparr>rowError = None, rowValue = None,
          rowState = Some (progress_text ACITVE_STATE)\<rparr>
      \<and> pgIpc p2 = [ERROR_SYNC]"
  by code_simp
end
