(* ===== verification/Sync_Start.thy ===== *)
theory Sync_Start
  imports Sync_Queue_Props Sync_Progress
begin

text \<open>
  Starting and stopping a synchronisation (\<^verbatim>\<open>workers/loc.api/sync/index.js\<close>) on top of the queue of
  \<^verbatim>\<open>Sync_Queue\<close> and the progress of \<^verbatim>\<open>Sync_Progress\<close>, with the switch that sends requests to the API
  while the local data are incomplete (\<^verbatim>\<open>helpers/redirect-requests-to-api.js\<close>).

  Parameters: whether the scheduler is enabled, whether the API answers the ping, whether the user's
  collections have been synchronised before, which calls of the switch fail (and whether they had
  written the mode before they failed), and the text of an error. The interrupter answers as in the
  queue. What runs in the background is part of the state change.
\<close>

record sync_env =
  seQueue :: queue_env
  seProgress :: progress_env
  isSchedulerEnabled :: bool
  pingFails :: "js_error option"
  syncedAtLeastOnce :: "int \<Rightarrow> bool"
  redirectFails :: "nat \<Rightarrow> (js_error \<times> bool) option"
  errorOf :: "sync_error \<Rightarrow> js_error"

datatype interrupter_event = SYNC_INTERRUPTED sync_progress | SYNC_INTERRUPTED_WITH_ERR js_error

record sync_obj =
  syQueue :: queue
  syProgress :: progress_obj
  syncModeEnabled :: "bool option"
  redirectCalls :: nat
  redirectStatuses :: "bool list"
  interrupterEvents :: "interrupter_event list"

datatype sync_answer = SyncReturned "rat option" | SyncStarted | SyncThrew js_error

definition set_progress :: "sync_env \<Rightarrow> progress_value \<Rightarrow> sync_obj \<Rightarrow> sync_obj" where
  "set_progress env v s = s\<lparr>syProgress := Progress_setProgress (seProgress env) v (syProgress s)\<rparr>"

definition shouldNotSyncModeBeUpdated :: "sync_env \<Rightarrow> bool \<Rightarrow> int option \<Rightarrow> bool" where
  "shouldNotSyncModeBeUpdated env isRedirected owner =
     (if \<not> isRedirected then False
      else case owner of None \<Rightarrow> False | Some u \<Rightarrow> syncedAtLeastOnce env u)"

definition redirectRequestsToApi ::
  "sync_env \<Rightarrow> bool \<Rightarrow> int option \<Rightarrow> sync_obj \<Rightarrow> js_error option \<times> sync_obj" where
  "redirectRequestsToApi env isRedirected owner s =
     (let s1 = s\<lparr>redirectCalls := Suc (redirectCalls s)\<rparr>;
          fails = redirectFails env (redirectCalls s)
      in case fails of
           Some (e, written) \<Rightarrow>
             (Some e, if written \<and> \<not> shouldNotSyncModeBeUpdated env isRedirected owner
                      then s1\<lparr>syncModeEnabled := Some (\<not> isRedirected)\<rparr> else s1)
         | None \<Rightarrow>
             if shouldNotSyncModeBeUpdated env isRedirected owner then (None, s1)
             else (None, s1\<lparr>syncModeEnabled := Some (\<not> isRedirected),
                            redirectStatuses := redirectStatuses s1 @ [isRedirected]\<rparr>))"

text \<open>The queue sets the progress of the object as it sets its own.\<close>

definition queue_process ::
  "sync_env \<Rightarrow> int option \<Rightarrow> sync_obj \<Rightarrow> (sync_progress + sync_error) \<times> sync_obj" where
  "queue_process env owner s =
     (let (r, q) = process (seQueue env) owner (syQueue s);
          set = drop (length (progressLog (syQueue s))) (progressLog q)
      in (r, fold (\<lambda>x. set_progress env (PNumber (Some x))) set (s\<lparr>syQueue := q\<rparr>)))"

definition interrupted_now :: "sync_env \<Rightarrow> sync_obj \<Rightarrow> bool" where
  "interrupted_now env s = q_interrupted (seQueue env) (syQueue s)"

definition poll :: "sync_obj \<Rightarrow> sync_obj" where
  "poll s = s\<lparr>syQueue := q_polled (syQueue s)\<rparr>"

definition deactivate :: "sync_obj \<Rightarrow> sync_obj" where
  "deactivate s = s\<lparr>syProgress := deactivateSyncTimeEstimate (syProgress s)\<rparr>"

definition activate :: "sync_env \<Rightarrow> sync_obj \<Rightarrow> sync_obj" where
  "activate env s = s\<lparr>syProgress := activateSyncTimeEstimate (seProgress env) (syProgress s)\<rparr>"

definition emitInterrupted :: "js_error option \<Rightarrow> sync_progress \<Rightarrow> sync_obj \<Rightarrow> sync_obj" where
  "emitInterrupted err pr s = s\<lparr>interrupterEvents := interrupterEvents s @
     [case err of Some e \<Rightarrow> SYNC_INTERRUPTED_WITH_ERR e | None \<Rightarrow> SYNC_INTERRUPTED pr]\<rparr>"

definition ask_progress :: "sync_env \<Rightarrow> sync_obj \<Rightarrow> estimate \<times> sync_obj" where
  "ask_progress env s = (let (est, p) = Progress_getProgress (seProgress env) (syProgress s)
                         in (est, s\<lparr>syProgress := p\<rparr>))"

text \<open>Lines 45 to 53: the error and the progress for the interrupter.\<close>

definition run_queue ::
  "sync_env \<Rightarrow> int option \<Rightarrow> js_error option \<Rightarrow> sync_obj \<Rightarrow> js_error option \<times> sync_progress \<times> sync_obj" where
  "run_queue env owner error s =
     (case error of
        Some e \<Rightarrow> (None, INITIAL_PROGRESS, s)
      | None \<Rightarrow>
          (case queue_process env owner (activate env s) of
             (Inl pr, s1) \<Rightarrow> (None, pr, s1)
           | (Inr e, s1) \<Rightarrow> (Some (errorOf env e), INITIAL_PROGRESS,
                              set_progress env (PError (errorOf env e)) s1)))"

definition redirect_back :: "sync_env \<Rightarrow> js_error option \<Rightarrow> sync_obj \<Rightarrow> js_error option \<times> sync_obj" where
  "redirect_back env err s =
     (case redirectRequestsToApi env False None s of
        (None, s1) \<Rightarrow> (err, s1)
      | (Some e, s1) \<Rightarrow> (Some e, set_progress env (PError e) s1))"

definition sync_run ::
  "sync_env \<Rightarrow> int option \<Rightarrow> js_error option \<Rightarrow> sync_obj \<Rightarrow> rat option \<times> sync_obj" where
  "sync_run env owner error s =
     (let (err1, pr, s1) = run_queue env owner error (deactivate s);
          (err2, s2) = redirect_back env err1 (deactivate s1);
          s3 = (if interrupted_now env s2 \<and> err2 = None
                then set_progress env (PText (progress_text INTERRUPTED_STATE)) (poll s2)
                else poll s2);
          (est, s4) = ask_progress env s3;
          s5 = (if interrupted_now env s4 then emitInterrupted err2 pr (poll s4) else poll s4)
      in (rowValue (estRow est), s5))"

text \<open>
  The body of the \<^verbatim>\<open>try\<close> of \<^verbatim>\<open>start\<close>: it returns early (\<open>Inl\<close> of the progress), falls through, or
  throws an error, of which only the one about permissions is thrown on.
\<close>

datatype try_result = TryReturn "rat option" | TryOk | TryThrow js_error | TryPermission js_error

definition start_try :: "sync_env \<Rightarrow> add_params \<Rightarrow> sync_obj \<Rightarrow> try_result \<times> sync_obj" where
  "start_try env ps s =
     (if ownerUserId ps = None \<and> \<not> isOwnerScheduler ps
      then (TryThrow (errorOf env SyncQueueOwnerSettingError), s)
      else
        let (est, s1) = ask_progress env s;
            added = (if isSchedulerEnabled env then add (seQueue env) ps (syQueue s1)
                     else Inl (syQueue s1))
        in case added of
             Inr e \<Rightarrow> ((if e = CollSyncPermissionError then TryPermission (errorOf env e)
                        else TryThrow (errorOf env e)), s1)
           | Inl q \<Rightarrow>
               let s2 = s1\<lparr>syQueue := q\<rparr>
               in if estInProgress est \<or> \<not> isSchedulerEnabled env
                  then let (est', s3) = ask_progress env s2 in (TryReturn (rowValue (estRow est')), s3)
                  else (case pingFails env of
                      Some e \<Rightarrow> (TryThrow e, s2)
                    | None \<Rightarrow>
                        (case redirectRequestsToApi env True (ownerUserId ps)
                                (set_progress env (PNumber (Some 0)) s2) of
                           (Some e, s3) \<Rightarrow> (TryThrow e, s3)
                         | (None, s3) \<Rightarrow> (TryOk, s3))))"

definition Sync_start :: "sync_env \<Rightarrow> bool \<Rightarrow> add_params \<Rightarrow> sync_obj \<Rightarrow> sync_answer \<times> sync_obj" where
  "Sync_start env isSolveAfterRedirToApi ps s =
     (let continue = (\<lambda>error s. sync_run env (ownerUserId ps) error s)
      in case start_try env ps s of
           (TryReturn pr, s1) \<Rightarrow> (SyncReturned pr, s1)
         | (TryPermission e, s1) \<Rightarrow> (SyncThrew e, s1)
         | (TryThrow e, s1) \<Rightarrow>
             let (pr, s2) = continue (Some e) (set_progress env (PError e) s1)
             in (if isOwnerScheduler ps then SyncReturned pr else SyncThrew e, s2)
         | (TryOk, s1) \<Rightarrow>
             let (pr, s2) = continue None s1
             in (if \<not> isOwnerScheduler ps \<and> isSolveAfterRedirToApi then SyncStarted
                 else SyncReturned pr, s2))"

text \<open>Whether \<^verbatim>\<open>stop\<close> asks the interrupter.\<close>

definition Sync_stop :: "sync_env \<Rightarrow> sync_obj \<Rightarrow> bool \<times> sync_obj" where
  "Sync_stop env s = (let (est, s1) = ask_progress env (deactivate s) in (estInProgress est, s1))"


subsection \<open>The log of the queue only grows\<close>

definition log_length :: "queue \<Rightarrow> nat" where
  "log_length q = length (progressLog q)"

lemma log_length_simps [simp]:
  "log_length (insert_job env ps name q) = log_length q"
  "log_length (q_polled q) = log_length q"
  "log_length (setProgress x q) = Suc (log_length q)"
  "log_length (removeByState st q) = log_length q"
  "log_length (snd (getNext owner q)) = log_length q"
  "log_length (q\<lparr>qRuns := n\<rparr>) = log_length q"
  "log_length (q\<lparr>qProgress := pr\<rparr>) = log_length q"
  by (simp_all add: log_length_def insert_job_def q_polled_def setProgress_def removeByState_def getNext_def)

lemma log_length_add: "add env ps q = Inl q' \<Longrightarrow> log_length q' = log_length q"
proof -
  have "log_length (fold (insert_job env ps) names q) = log_length q" for names
    by (induction names arbitrary: q) simp_all
  then show "add env ps q = Inl q' \<Longrightarrow> log_length q' = log_length q"
    by (auto simp: add_def Let_def split: if_splits)
qed

lemma log_length_update: "updateStateById env i st q = Inl q' \<Longrightarrow> log_length q' = log_length q"
  by (auto simp: updateStateById_def log_length_def split: if_splits)

lemma log_length_run: "run_loop env owner i prev m as c q = (c', q') \<Longrightarrow> log_length q \<le> log_length q'"
proof (induction as arbitrary: c q)
  case (Cons a as)
  show ?case
  proof (cases a)
    case (Report p)
    let ?c = "getMultiplier env owner prev i q"
    have "log_length q \<le> log_length (asyncProgressHandler env ?c m p q)"
      by (auto simp: asyncProgressHandler_def Let_def split: option.split)
    then show ?thesis using Cons.IH[of ?c "asyncProgressHandler env ?c m p q"] Cons.prems Report
      by (simp add: Let_def)
  next
    case (OtherAdd ps)
    have "log_length (case add env ps q of Inl q' \<Rightarrow> q' | Inr e \<Rightarrow> q) = log_length q"
      by (auto split: sum.split dest: log_length_add)
    with Cons.IH[of c "case add env ps q of Inl q' \<Rightarrow> q' | Inr e \<Rightarrow> q"] Cons.prems OtherAdd
    show ?thesis by simp
  qed
qed simp

lemma log_length_subProcess:
  "subProcess env owner j prev m q = (r, q') \<Longrightarrow> log_length q \<le> log_length q'"
  by (auto simp: subProcess_def Let_def split: prod.splits if_splits sum.splits
      dest!: log_length_run log_length_update)

lemma log_length_loop:
  "process_loop env owner n prev m q = (err, q') \<Longrightarrow> log_length q \<le> log_length q'"
proof (induction n arbitrary: prev m q)
  case 0
  obtain r q1 where next1: "getNext owner (q_polled q) = (r, q1)" by fastforce
  have "log_length q1 = log_length q" using log_length_simps(5)[of owner "q_polled q"] next1 by simp
  with 0 next1 show ?case
    by (auto simp: process_loop.simps[of _ _ 0] split: if_splits option.splits)
next
  case (Suc n)
  obtain r q1 where next1: "getNext owner (q_polled q) = (r, q1)" by fastforce
  have l1: "log_length q1 = log_length q" using log_length_simps(5)[of owner "q_polled q"] next1 by simp
  note run = Suc.prems[unfolded process_loop.simps[of _ _ "Suc n"]]
  show ?case
  proof (cases "q_interrupted env q \<or> r = None")
    case True
    then show ?thesis using run next1 l1 by (auto split: if_splits)
  next
    case False
    then obtain j where j: "r = Some j" "\<not> q_interrupted env q" by auto
    show ?thesis
    proof (cases "updateStateById env (jobId j) LOCKED_JOB_STATE q1")
      case (Inr e)
      then show ?thesis using run next1 l1 j by simp
    next
      case (Inl q2)
      obtain s q3 where sub: "subProcess env owner j prev m q2 = (s, q3)" by fastforce
      have l3: "log_length q \<le> log_length q3"
        using log_length_subProcess[OF sub] log_length_update[OF Inl] l1 by simp
      show ?thesis
      proof (cases s)
        case (Inr e)
        then show ?thesis using run next1 j Inl sub l3 by simp
      next
        case m': (Inl m')
        show ?thesis
          using run next1 j Inl sub m' l3
          by (auto split: if_splits sum.splits dest!: log_length_update dest: Suc.IH)
      qed
    qed
  qed
qed

text \<open>A call that returns has been interrupted or has reported 100 as its last progress.\<close>

lemma process_reports_end:
  assumes "process env owner q = (Inl pr, q')"
  shows "interruptedAt env (qPolls q' - 1)
    \<or> (\<exists>xs. drop (length (progressLog q)) (progressLog q') = xs @ [100])"
proof -
  obtain q1 where loop: "process_loop env owner 10 [] 0 (q\<lparr>qProgress := INITIAL_PROGRESS\<rparr>) = (None, q1)"
    using assms by (auto simp: process_def split: prod.splits option.splits)
  let ?q2 = "removeByState FINISHED_JOB_STATE q1"
  have q': "q' = (if q_interrupted env ?q2 then q_polled ?q2 else setProgress 100 (q_polled ?q2))"
    using assms loop by (auto simp: process_def Let_def)
  show ?thesis
  proof (cases "q_interrupted env ?q2")
    case True
    then show ?thesis using q' by (simp add: q_interrupted_def q_polled_def)
  next
    case False
    have "length (progressLog q) \<le> length (progressLog q1)"
      using log_length_loop[OF loop] by (simp add: log_length_def)
    then show ?thesis
      using False q' by (simp add: setProgress_def q_polled_def removeByState_def)
  qed
qed

subsection \<open>Frames\<close>

lemma set_progress_frame [simp]:
  "syQueue (set_progress env v s) = syQueue s" "redirectCalls (set_progress env v s) = redirectCalls s"
  "syncModeEnabled (set_progress env v s) = syncModeEnabled s"
  "redirectStatuses (set_progress env v s) = redirectStatuses s"
  "interrupterEvents (set_progress env v s) = interrupterEvents s"
  by (simp_all add: set_progress_def)

lemma set_progress_fold_frame [simp]:
  "syQueue (fold (\<lambda>x. set_progress env (PNumber (Some x))) xs s) = syQueue s"
  "redirectCalls (fold (\<lambda>x. set_progress env (PNumber (Some x))) xs s) = redirectCalls s"
  "syncModeEnabled (fold (\<lambda>x. set_progress env (PNumber (Some x))) xs s) = syncModeEnabled s"
  by (induction xs arbitrary: s) simp_all

lemma setProgress_started [simp]:
  "pgStartedAt (Progress_setProgress env v p) = pgStartedAt p"
  "pgInterval (Progress_setProgress env v p) = pgInterval p"
  by (auto simp: Progress_setProgress_def Let_def emitProgress_frame isError_def
      sendSyncCompletionStateByIPC_def split: prod.splits progress_value.splits)

lemma calcLeftTime_frame [simp]:
  "pgStartedAt (calcLeftTime env x now spent b p) = pgStartedAt p"
  "pgInterval (calcLeftTime env x now spent b p) = pgInterval p"
  "pgStored (calcLeftTime env x now spent b p) = pgStored p"
  "pgRow (calcLeftTime env x now spent b p) = pgRow p"
  "pgIpc (calcLeftTime env x now spent b p) = pgIpc p"
  "pgWrites (calcLeftTime env x now spent b p) = pgWrites p"
  by (auto simp: calcLeftTime_def freshLeftTime_def Let_def split: option.split)

lemma estimate_frame [simp]:
  "pgStartedAt (snd (estimateSyncTime env r b p)) = pgStartedAt p"
  "pgInterval (snd (estimateSyncTime env r b p)) = pgInterval p"
  "pgStored (snd (estimateSyncTime env r b p)) = pgStored p"
  "pgRow (snd (estimateSyncTime env r b p)) = pgRow p"
  "pgIpc (snd (estimateSyncTime env r b p)) = pgIpc p"
  "pgWrites (snd (estimateSyncTime env r b p)) = pgWrites p"
  by (auto simp: estimateSyncTime_def Let_def tick_def split: option.split)

lemma ask_progress_frame:
  assumes "ask_progress env s = (est, s')"
  shows "s' = s\<lparr>syProgress := syProgress s'\<rparr>" "pgStartedAt (syProgress s') = pgStartedAt (syProgress s)"
    "pgInterval (syProgress s') = pgInterval (syProgress s)"
    "pgStored (syProgress s') = pgStored (syProgress s)" "pgRow (syProgress s') = pgRow (syProgress s)"
    "pgIpc (syProgress s') = pgIpc (syProgress s)"
    "estInProgress est = isSyncInProgress (getNonEstimatedProgress (syProgress s))"
    "estRow est = getNonEstimatedProgress (syProgress s)"
    "syncModeEnabled s' = syncModeEnabled s" "redirectStatuses s' = redirectStatuses s"
    "syQueue s' = syQueue s" "redirectCalls s' = redirectCalls s"
proof -
  let ?e = "estimateSyncTime (seProgress env) (getNonEstimatedProgress (syProgress s)) False (syProgress s)"
  have "est = fst ?e" "s' = s\<lparr>syProgress := snd ?e\<rparr>"
    using assms by (auto simp: ask_progress_def Progress_getProgress_def split: prod.splits)
  then show "s' = s\<lparr>syProgress := syProgress s'\<rparr>" "pgStartedAt (syProgress s') = pgStartedAt (syProgress s)"
    "pgInterval (syProgress s') = pgInterval (syProgress s)"
    "pgStored (syProgress s') = pgStored (syProgress s)" "pgRow (syProgress s') = pgRow (syProgress s)"
    "pgIpc (syProgress s') = pgIpc (syProgress s)"
    "estInProgress est = isSyncInProgress (getNonEstimatedProgress (syProgress s))"
    "estRow est = getNonEstimatedProgress (syProgress s)"
    "syncModeEnabled s' = syncModeEnabled s" "redirectStatuses s' = redirectStatuses s"
    "syQueue s' = syQueue s" "redirectCalls s' = redirectCalls s"
    by (simp_all add: estimate_row)
qed

subsection \<open>How a synchronisation ends\<close>

definition running :: "sync_obj \<Rightarrow> bool" where
  "running s \<longleftrightarrow> isSyncInProgress (getNonEstimatedProgress (syProgress s))"

definition rows_written :: "sync_env \<Rightarrow> bool" where
  "rows_written env \<longleftrightarrow> (\<forall>k. rowWritten (seProgress env) k)"

text \<open>An interruption lasts.\<close>

definition interruption_lasts :: "sync_env \<Rightarrow> bool" where
  "interruption_lasts env \<longleftrightarrow>
     (\<forall>k. interruptedAt (seQueue env) k \<longrightarrow> interruptedAt (seQueue env) (Suc k))"

lemma set_error_not_running:
  "rows_written env \<Longrightarrow> \<not> running (set_progress env (PError e) s)"
  by (simp add: running_def set_progress_def getNonEstimatedProgress_def set_error_row rows_written_def
      isSyncInProgress_def)

lemma set_interrupted_not_running:
  assumes "rows_written env"
  shows "\<not> running (set_progress env (PText (progress_text INTERRUPTED_STATE)) s)"
proof -
  let ?v = "PText (progress_text INTERRUPTED_STATE)"
  obtain b p1 where b: "isError ?v (syProgress s) = (b, p1)" by fastforce
  have "getSyncProgressState ?v b = Some (progress_text INTERRUPTED_STATE)"
    by (simp add: getSyncProgressState_def isState_def all_progress_states_def del: progress_text.simps)
  with assms b show ?thesis
    by (simp add: running_def set_progress_def Progress_setProgress_def Let_def emitProgress_frame
        getNonEstimatedProgress_def rows_written_def isSyncInProgress_def)
qed

lemma set_100_not_running:
  "rows_written env \<Longrightarrow> \<not> running (fold (\<lambda>x. set_progress env (PNumber (Some x))) (xs @ [100]) s)"
  by (simp add: running_def set_progress_def getNonEstimatedProgress_def set_number_row rows_written_def
      row_of_number_def isSyncInProgress_def)

lemma started_frame [simp]:
  "pgStartedAt (syProgress (set_progress env v s)) = pgStartedAt (syProgress s)"
  "pgInterval (syProgress (set_progress env v s)) = pgInterval (syProgress s)"
  by (simp_all add: set_progress_def)

lemma deactivate_simps [simp]:
  "running (deactivate s) = running s" "syQueue (deactivate s) = syQueue s"
  "redirectCalls (deactivate s) = redirectCalls s"
  "pgStartedAt (syProgress (deactivate s)) = None" "\<not> pgInterval (syProgress (deactivate s))"
  by (simp_all add: deactivate_def running_def deactivateSyncTimeEstimate_def getNonEstimatedProgress_def)

lemma poll_simps [simp]:
  "syProgress (poll s) = syProgress s" "running (poll s) = running s"
  "syncModeEnabled (poll s) = syncModeEnabled s" "redirectStatuses (poll s) = redirectStatuses s"
  by (simp_all add: poll_def running_def)

lemma emitInterrupted_simps [simp]:
  "syProgress (emitInterrupted e pr s) = syProgress s" "running (emitInterrupted e pr s) = running s"
  "syncModeEnabled (emitInterrupted e pr s) = syncModeEnabled s"
  "redirectStatuses (emitInterrupted e pr s) = redirectStatuses s"
  by (simp_all add: emitInterrupted_def running_def)

lemma run_queue_end:
  assumes "run_queue env owner error s = (err, pr, s')" "rows_written env" "interruption_lasts env"
    "error \<noteq> None \<Longrightarrow> \<not> running s"
  shows "(\<not> running s' \<or> (interrupted_now env s' \<and> err = None)) \<and> redirectCalls s' = redirectCalls s"
proof (cases error)
  case (Some e)
  then show ?thesis using assms by (simp add: run_queue_def)
next
  case None
  let ?s = "activate env s"
  obtain r q where q: "process (seQueue env) owner (syQueue ?s) = (r, q)" by fastforce
  let ?set = "drop (length (progressLog (syQueue ?s))) (progressLog q)"
  let ?s1 = "fold (\<lambda>x. set_progress env (PNumber (Some x))) ?set (?s\<lparr>syQueue := q\<rparr>)"
  have s1: "queue_process env owner ?s = (r, ?s1)" by (simp add: queue_process_def q)
  show ?thesis
  proof (cases r)
    case (Inr e)
    then show ?thesis
      using assms(1,2) None s1 by (auto simp: run_queue_def set_error_not_running activate_def)
  next
    case (Inl pr')
    then have s': "s' = ?s1" "err = None" using assms(1) None s1 by (simp_all add: run_queue_def)
    consider "interruptedAt (seQueue env) (qPolls q - 1)" | xs where "?set = xs @ [100]"
      using process_reports_end[of "seQueue env" owner "syQueue ?s" pr' q] q Inl by auto
    then show ?thesis
    proof cases
      case 1
      then have "interruptedAt (seQueue env) (qPolls q)"
        using assms(3) by (cases "qPolls q") (auto simp: interruption_lasts_def)
      then show ?thesis using s' by (simp add: interrupted_now_def q_interrupted_def activate_def)
    next
      case 2
      then show ?thesis using s' set_100_not_running[OF assms(2)] by (simp add: activate_def)
    qed
  qed
qed

lemma redirect_back_end:
  assumes "redirect_back env err s = (err', s')" "rows_written env"
  shows "syQueue s' = syQueue s \<and> (running s' \<longrightarrow> running s \<and> err' = err)
    \<and> pgStartedAt (syProgress s') = pgStartedAt (syProgress s)
    \<and> pgInterval (syProgress s') = pgInterval (syProgress s)
    \<and> (redirectFails env (redirectCalls s) = None \<longrightarrow> syncModeEnabled s' = Some True
        \<and> redirectStatuses s' \<noteq> [] \<and> \<not> last (redirectStatuses s'))"
  using assms set_error_not_running[OF assms(2)]
  by (auto simp: redirect_back_def redirectRequestsToApi_def Let_def shouldNotSyncModeBeUpdated_def
      running_def split: option.splits prod.splits if_splits)

lemma sync_run_end:
  assumes "sync_run env owner error s = (pr, s')" "rows_written env" "interruption_lasts env"
    "error \<noteq> None \<Longrightarrow> \<not> running s"
  shows "\<not> running s' \<and> pgStartedAt (syProgress s') = None \<and> \<not> pgInterval (syProgress s')
    \<and> (redirectFails env (redirectCalls s) = None \<longrightarrow> syncModeEnabled s' = Some True
        \<and> redirectStatuses s' \<noteq> [] \<and> \<not> last (redirectStatuses s'))"
proof -
  obtain err1 pr1 s1 where 1: "run_queue env owner error (deactivate s) = (err1, pr1, s1)"
    by (metis prod_cases3)
  obtain err2 s2 where 2: "redirect_back env err1 (deactivate s1) = (err2, s2)" by fastforce
  let ?stop = "interrupted_now env s2 \<and> err2 = None"
  let ?s3 = "if ?stop then set_progress env (PText (progress_text INTERRUPTED_STATE)) (poll s2)
             else poll s2"
  obtain est s4 where 4: "ask_progress env ?s3 = (est, s4)" by fastforce
  have s': "s' = (if interrupted_now env s4 then emitInterrupted err2 pr1 (poll s4) else poll s4)"
    using assms(1) 1 2 4 by (simp add: sync_run_def Let_def)
  note r1 = run_queue_end[OF 1 assms(2,3), simplified]
  note r2 = redirect_back_end[OF 2 assms(2), simplified]
  have "\<not> running ?s3"
  proof (cases ?stop)
    case True
    then show ?thesis using set_interrupted_not_running[OF assms(2)] by simp
  next
    case False
    have "interrupted_now env s2 = interrupted_now env s1" using r2 by (simp add: interrupted_now_def)
    then show ?thesis using False r1 r2 assms(4) by auto
  qed
  note f = ask_progress_frame[OF 4]
  have "\<not> running s4"
    using \<open>\<not> running ?s3\<close> f(4) unfolding running_def getNonEstimatedProgress_def by simp
  moreover have "pgStartedAt (syProgress s4) = None" "\<not> pgInterval (syProgress s4)"
    using f(2,3) r2 by (auto split: if_splits)
  moreover have "syncModeEnabled s4 = syncModeEnabled s2" "redirectStatuses s4 = redirectStatuses s2"
    using f(9,10) by (auto split: if_splits)
  ultimately show ?thesis using s' r1 r2 assms(4) by auto
qed

text \<open>
  C11: once a synchronisation was started, its end leaves no trace of running: the stored progress is
  not one of a running synchronisation (so that the next start is not refused), the estimate is
  off, and requests are served from the database again, whether the run was completed, interrupted
  or failed.
\<close>

theorem start_ends:
  assumes "Sync_start env background ps s = (ans, s')"
    and "start_try env ps s = (r, s1)" "r = TryOk \<or> (\<exists>e. r = TryThrow e)"
    and "rows_written env" "interruption_lasts env"
  shows "\<not> running s' \<and> pgStartedAt (syProgress s') = None \<and> \<not> pgInterval (syProgress s')
    \<and> (redirectFails env (redirectCalls s1) = None \<longrightarrow> syncModeEnabled s' = Some True
        \<and> \<not> last (redirectStatuses s'))"
  using assms(3)
proof
  assume "r = TryOk"
  then obtain pr where "sync_run env (ownerUserId ps) None s1 = (pr, s')"
    using assms(1,2) by (auto simp: Sync_start_def Let_def split: prod.splits)
  from sync_run_end[OF this assms(4,5)] show ?thesis by simp
next
  assume "\<exists>e. r = TryThrow e"
  then obtain e pr where
    "sync_run env (ownerUserId ps) (Some e) (set_progress env (PError e) s1) = (pr, s')"
    using assms(1,2) by (auto simp: Sync_start_def Let_def split: prod.splits)
  from sync_run_end[OF this assms(4,5)] set_error_not_running[OF assms(4)] show ?thesis by simp
qed

text \<open>
  While a synchronisation runs, or the scheduler is off, a start only queues its jobs: it takes
  no job, writes no progress, switches nothing and tells the parent process nothing; it answers
  with the stored progress.
\<close>

theorem start_refused:
  assumes "running s \<or> \<not> isSchedulerEnabled env" "Sync_start env background ps s = (ans, s')"
    and "ownerUserId ps = None \<longleftrightarrow> isOwnerScheduler ps" "checkCollPermission (seQueue env) (syncColls ps)"
  shows "ans = SyncReturned (rowValue (getNonEstimatedProgress (syProgress s)))
    \<and> (syQueue s' = syQueue s \<or> (isSchedulerEnabled env \<and> add (seQueue env) ps (syQueue s) = Inl (syQueue s')))
    \<and> redirectCalls s' = redirectCalls s \<and> syncModeEnabled s' = syncModeEnabled s
    \<and> pgStored (syProgress s') = pgStored (syProgress s)
    \<and> pgIpc (syProgress s') = pgIpc (syProgress s)"
proof -
  obtain est s0 where ask: "ask_progress env s = (est, s0)" by fastforce
  note f = ask_progress_frame[OF ask]
  have "add (seQueue env) ps (syQueue s0) \<noteq> Inr e" for e
    using assms(3,4) by (auto simp: add_def Let_def)
  then obtain q1 where "add (seQueue env) ps (syQueue s0) = Inl q1"
    by (cases "add (seQueue env) ps (syQueue s0)") auto
  then obtain q where q: "(if isSchedulerEnabled env then add (seQueue env) ps (syQueue s0)
      else Inl (syQueue s0)) = Inl q"
    by (cases "isSchedulerEnabled env") auto
  let ?s2 = "s0\<lparr>syQueue := q\<rparr>"
  obtain est' s3 where ask': "ask_progress env ?s2 = (est', s3)" by fastforce
  note f' = ask_progress_frame[OF ask']
  have "estInProgress est \<or> \<not> isSchedulerEnabled env" using assms(1) f(7) by (simp add: running_def)
  moreover have "\<not> (ownerUserId ps = None \<and> \<not> isOwnerScheduler ps)" using assms(3) by auto
  ultimately have "start_try env ps s = (TryReturn (rowValue (estRow est')), s3)"
    by (simp add: start_try_def ask q ask' Let_def)
  then have "ans = SyncReturned (rowValue (estRow est'))" "s' = s3"
    using assms(2) by (simp_all add: Sync_start_def Let_def)
  then show ?thesis
    using f f' q by (auto simp: getNonEstimatedProgress_def split: if_splits)
qed

subsection \<open>Samples\<close>

definition sample_sync_env :: "run_action list \<Rightarrow> sync_env" where
  "sample_sync_env as = \<lparr>seQueue = sample_queue_env as, seProgress = sample_progress_env,
     isSchedulerEnabled = True, pingFails = None, syncedAtLeastOnce = (\<lambda>_. False),
     redirectFails = (\<lambda>_. None),
     errorOf = (\<lambda>_. \<lparr>statusMessage = None, errorText = ''ERR''\<rparr>)\<rparr>"

definition idle_sync :: sync_obj where
  "idle_sync = \<lparr>syQueue = sample_queue, syProgress = initial_progress, syncModeEnabled = None,
     redirectCalls = 0, redirectStatuses = [], interrupterEvents = []\<rparr>"

definition running_sync :: sync_obj where
  "running_sync = set_progress (sample_sync_env []) (PNumber (Some 30)) idle_sync"

lemma sample_sync_env_simps:
  "rows_written (sample_sync_env as)" "interruption_lasts (sample_sync_env as)"
  by (simp_all add: rows_written_def interruption_lasts_def sample_sync_env_def sample_progress_env_def
      sample_queue_env_def arith.extend_def)

lemma running_sync_running: "running running_sync"
  by (simp add: running_sync_def running_def set_progress_def getNonEstimatedProgress_def set_number_row
      row_of_number_def isSyncInProgress_def sample_sync_env_def sample_progress_env_def arith.extend_def)

lemma sample_start_try: "fst (start_try (sample_sync_env []) ledgers_request idle_sync) = TryOk"
  by code_simp

theorem start_ends_witness:
  "\<not> running (snd (Sync_start (sample_sync_env []) False ledgers_request idle_sync))
   \<and> syncModeEnabled (snd (Sync_start (sample_sync_env []) False ledgers_request idle_sync)) = Some True"
  using start_ends[OF surjective_pairing surjective_pairing, of "sample_sync_env []" ledgers_request
      idle_sync False] sample_start_try sample_sync_env_simps[of "[]"]
  by (simp add: sample_sync_env_def)

theorem start_refused_witness:
  "redirectCalls (snd (Sync_start (sample_sync_env []) False ledgers_request running_sync)) = 0"
proof -
  have "checkCollPermission (seQueue (sample_sync_env [])) (syncColls ledgers_request)"
    "ownerUserId ledgers_request = None \<longleftrightarrow> isOwnerScheduler ledgers_request"
    by code_simp+
  moreover have "redirectCalls running_sync = 0" by (simp add: running_sync_def idle_sync_def)
  ultimately show ?thesis
    using start_refused[OF disjI1[OF running_sync_running] surjective_pairing,
        where env = "sample_sync_env []" and ps = ledgers_request and background = False]
    by simp
qed

text \<open>
  A job that is added while another runs makes the synchronisation announce its end twice, the
  first time while the added job still runs; from that moment on the stored progress is 125 and
  counts as not running, so a start in between would not be refused.
\<close>

theorem completion_announced_twice:
  "let s = snd (queue_process (sample_sync_env [OtherAdd ledgers_request]) (Some 1) idle_sync);
       s125 = fold (\<lambda>x. set_progress (sample_sync_env []) (PNumber (Some x))) [50, 125] idle_sync
   in pgIpc (syProgress s) = [READY_SYNC True False, READY_SYNC True False]
      \<and> \<not> running s125 \<and> pgIpc (syProgress s125) = [READY_SYNC True False]"
  by code_simp
end
