(* ===== verification/Sync_Steps.thy ===== *)
theory Sync_Steps
  imports Js_Prelude "HOL-Library.Product_Lexorder"
begin

text \<open>
  What is still to be fetched for a collection of a user: the step of \<^verbatim>\<open>sync.user.step.data.js\<close> and its
  manager (\<^verbatim>\<open>sync/data.inserter/sync.user.step.manager\<close>).

  A step has two ranges of time: the base range is the first synchronisation, the current range what
  came since. Each has a start, an end and a mark that it is done. The table of the steps and the
  rows of a collection (those of the main table, and those of the temporary table of the running
  job, if it exists) are lists; a row of a collection is reduced to the columns the code reads.
  \<^verbatim>\<open>min\<close> and \<^verbatim>\<open>max\<close> of the utility package and its constant \<^verbatim>\<open>MIN_START_MTS\<close> are parameters.
\<close>

subsection \<open>The data of a step\<close>

record user_step =
  stSyncedAt :: "int option"
  stSymbol :: "string option"
  stTimeframe :: "string option"
  baseStart :: "int option"
  baseEnd :: "int option"
  currStart :: "int option"
  currEnd :: "int option"
  isBaseStepReady :: bool
  isCurrStepReady :: bool
  wasBaseStepsBeSynced :: bool
  wasCurrStepsBeSynced :: bool
  stAuth :: "(int option \<times> int option) option"

definition new_step :: user_step where
  "new_step = \<lparr>stSyncedAt = None, stSymbol = None, stTimeframe = None, baseStart = None,
     baseEnd = None, currStart = None, currEnd = None, isBaseStepReady = False,
     isCurrStepReady = False, wasBaseStepsBeSynced = False, wasCurrStepsBeSynced = False,
     stAuth = None\<rparr>"

text \<open>A new step with the parameters of another, as \<^verbatim>\<open>getParams\<close> gives them.\<close>

definition step_with_params :: "user_step \<Rightarrow> user_step" where
  "step_with_params st = new_step\<lparr>stSymbol := stSymbol st, stTimeframe := stTimeframe st,
     baseStart := baseStart st, baseEnd := baseEnd st, currStart := currStart st,
     currEnd := currEnd st, isBaseStepReady := isBaseStepReady st,
     isCurrStepReady := isCurrStepReady st\<rparr>"

definition proper_range :: "int option \<Rightarrow> int option \<Rightarrow> bool" where
  "proper_range a b \<longleftrightarrow> (case (a, b) of (Some x, Some y) \<Rightarrow> x < y | _ \<Rightarrow> False)"

definition hasBaseStep :: "user_step \<Rightarrow> bool" where
  "hasBaseStep st = proper_range (baseStart st) (baseEnd st)"

definition hasCurrStep :: "user_step \<Rightarrow> bool" where
  "hasCurrStep st = proper_range (currStart st) (currEnd st)"

definition hasSymbol :: "user_step \<Rightarrow> bool" where
  "hasSymbol st \<longleftrightarrow> stSymbol st \<noteq> None \<and> stSymbol st \<noteq> Some ''''"

definition areAllSymbolsRequired :: "user_step \<Rightarrow> bool" where
  "areAllSymbolsRequired st \<longleftrightarrow> stSymbol st = Some ''_ALL''"

definition hasTimeframe :: "user_step \<Rightarrow> bool" where
  "hasTimeframe st \<longleftrightarrow> stTimeframe st \<noteq> None \<and> stTimeframe st \<noteq> Some ''''"

subsection \<open>Which steps are due, which were done\<close>

record check_opts =
  shouldNotMtsBeChecked :: bool
  shouldStartMtsBeChecked :: bool

definition no_opts :: check_opts where
  "no_opts = \<lparr>shouldNotMtsBeChecked = False, shouldStartMtsBeChecked = False\<rparr>"

definition shouldBaseStepBeSynced :: "check_opts \<Rightarrow> user_step \<Rightarrow> bool" where
  "shouldBaseStepBeSynced opts st \<longleftrightarrow> \<not> isBaseStepReady st
     \<and> (shouldNotMtsBeChecked opts \<or> hasBaseStep st)
     \<and> (\<not> shouldStartMtsBeChecked opts \<or> baseStart st \<noteq> None)"

definition shouldCurrStepBeSynced :: "check_opts \<Rightarrow> user_step \<Rightarrow> bool" where
  "shouldCurrStepBeSynced opts st \<longleftrightarrow> \<not> isCurrStepReady st
     \<and> (shouldNotMtsBeChecked opts \<or> hasCurrStep st)
     \<and> (\<not> shouldStartMtsBeChecked opts \<or> currStart st \<noteq> None)"

definition wereBaseStepsSynced :: "check_opts \<Rightarrow> user_step list \<Rightarrow> bool" where
  "wereBaseStepsSynced opts sts =
     (let due = filter (shouldBaseStepBeSynced opts) sts
      in due \<noteq> [] \<and> list_all wasBaseStepsBeSynced due)"

definition wereCurrStepsSynced :: "check_opts \<Rightarrow> user_step list \<Rightarrow> bool" where
  "wereCurrStepsSynced opts sts =
     (let due = filter (shouldCurrStepBeSynced opts) sts
      in due \<noteq> [] \<and> list_all wasCurrStepsBeSynced due)"

subsection \<open>The table of the steps\<close>

record step_row =
  srColl :: string
  srUser :: "int option"
  srSubUser :: "int option"
  srSyncedAt :: "int option"
  srBaseStart :: "int option"
  srBaseEnd :: "int option"
  srCurrStart :: "int option"
  srCurrEnd :: "int option"
  srBaseReady :: bool
  srCurrReady :: bool
  srQueueId :: "int option"

text \<open>
  What is written: the parameters of a step, if one is given, then the time and the marks that the
  caller adds; what is \<^const>\<open>None\<close> is not among the columns written.
\<close>

record step_update =
  upColl :: string
  upUser :: "int option"
  upSubUser :: "int option"
  upStep :: "user_step option"
  upSyncedAt :: "int option"
  upBaseReady :: bool
  upCurrReady :: bool

definition same_key :: "step_update \<Rightarrow> step_row \<Rightarrow> bool" where
  "same_key up r \<longleftrightarrow> srColl r = upColl up \<and> srUser r = upUser up \<and> srSubUser r = upSubUser up"

definition write_step :: "int option \<Rightarrow> step_update \<Rightarrow> step_row \<Rightarrow> step_row" where
  "write_step queueId up r =
     (let r1 = (case upStep up of
            None \<Rightarrow> r
          | Some st \<Rightarrow> r\<lparr>srBaseStart := baseStart st, srBaseEnd := baseEnd st,
              srCurrStart := currStart st, srCurrEnd := currEnd st,
              srBaseReady := isBaseStepReady st, srCurrReady := isCurrStepReady st\<rparr>);
          r2 = (if upSyncedAt up = None then r1 else r1\<lparr>srSyncedAt := upSyncedAt up\<rparr>);
          r3 = (if upBaseReady up then r2\<lparr>srBaseReady := True\<rparr> else r2);
          r4 = (if upCurrReady up then r3\<lparr>srCurrReady := True\<rparr> else r3)
      in r4\<lparr>srQueueId := queueId\<rparr>)"

definition empty_row :: "step_update \<Rightarrow> step_row" where
  "empty_row up = \<lparr>srColl = upColl up, srUser = upUser up, srSubUser = upSubUser up,
     srSyncedAt = None, srBaseStart = None, srBaseEnd = None, srCurrStart = None, srCurrEnd = None,
     srBaseReady = False, srCurrReady = False, srQueueId = None\<rparr>"

datatype step_error = SyncInfoUpdatingError | LastSyncedInfoGettingError

definition updateOrInsertSyncInfoForCurrColl ::
  "int option \<Rightarrow> step_update \<Rightarrow> step_row list \<Rightarrow> step_error + step_row list" where
  "updateOrInsertSyncInfoForCurrColl queueId up rows =
     (if upColl up = '''' then Inl SyncInfoUpdatingError
      else if list_ex (same_key up) rows
      then Inr (map (\<lambda>r. if same_key up r then write_step queueId up r else r) rows)
      else Inr (rows @ [write_step queueId up (empty_row up)]))"

subsection \<open>What was fetched last\<close>

record coll_row =
  crUser :: "int option"
  crSubUser :: "int option"
  crSymbol :: "string option"
  crTimeframe :: "string option"
  crMts :: int

record coll_schema =
  csIsCandles :: bool
  csIsPublic :: bool
  csIsUpdatable :: bool
  csHasDateField :: bool
  csOrder :: int
  csHasUserField :: bool
  csHasSubUserField :: bool
  csHasSymbolField :: bool
  csHasTimeframeField :: bool

record info_params =
  ipColl :: string
  ipUser :: "int option"
  ipSubUser :: "int option"
  ipSymbol :: "string option"
  ipTimeframe :: "string option"
  ipDefaultStart :: "int option"
  ipCurrMts :: "int option"

record step_env =
  MIN_START_MTS :: int
  jsMin :: "int option list \<Rightarrow> int option"
  jsMax :: "int option list \<Rightarrow> int option"

definition getMinStart :: "'a step_env_scheme \<Rightarrow> int option \<Rightarrow> int option" where
  "getMinStart env start =
     (case start of None \<Rightarrow> None
      | Some x \<Rightarrow> if x < MIN_START_MTS env then Some (MIN_START_MTS env) else Some x)"

text \<open>The filter of the rows: columns the collection does not have are not asked for.\<close>

definition row_matches :: "coll_schema \<Rightarrow> info_params \<Rightarrow> coll_row \<Rightarrow> bool" where
  "row_matches sc ps r \<longleftrightarrow>
     (csHasUserField sc \<longrightarrow> crUser r = ipUser ps)
     \<and> (csHasSubUserField sc \<longrightarrow> crSubUser r = ipSubUser ps)
     \<and> (csHasSymbolField sc \<and> ipSymbol ps \<noteq> None \<and> ipSymbol ps \<noteq> Some ''''
          \<longrightarrow> crSymbol r = ipSymbol ps)
     \<and> (csHasTimeframeField sc \<and> ipTimeframe ps \<noteq> None \<and> ipTimeframe ps \<noteq> Some ''''
          \<longrightarrow> crTimeframe r = ipTimeframe ps)"

text \<open>The first row in an order of the date column; a negative sign is descending.\<close>

definition invert_order :: "int \<Rightarrow> int" where
  "invert_order o1 = (if o1 > 0 then - 1 else 1)"

definition elem_mts :: "coll_schema \<Rightarrow> info_params \<Rightarrow> int \<Rightarrow> coll_row list \<Rightarrow> int option" where
  "elem_mts sc ps o1 rows =
     (if \<not> csHasDateField sc then None
      else case sort_key (\<lambda>r. if o1 > 0 then crMts r else - crMts r) (filter (row_matches sc ps) rows) of
          [] \<Rightarrow> None
        | r # _ \<Rightarrow> Some (crMts r))"

definition step_info :: "info_params \<Rightarrow> step_row list \<Rightarrow> step_row option" where
  "step_info ps rows =
     (case sort_key (\<lambda>r. case srSyncedAt r of None \<Rightarrow> (1::int, 0) | Some t \<Rightarrow> (0, - t))
        (filter (\<lambda>r. srColl r = ipColl ps \<and> srUser r = ipUser ps \<and> srSubUser r = ipSubUser ps) rows) of
        [] \<Rightarrow> None
      | r # _ \<Rightarrow> Some r)"

definition or_else :: "'a option \<Rightarrow> 'a option \<Rightarrow> 'a option" where
  "or_else a b = (case a of None \<Rightarrow> b | Some x \<Rightarrow> Some x)"

definition getLastSyncedInfoForCurrColl ::
  "'a step_env_scheme \<Rightarrow> coll_schema \<Rightarrow> info_params \<Rightarrow> step_row list \<Rightarrow> coll_row list \<Rightarrow> coll_row list option
     \<Rightarrow> step_error + user_step \<times> int option" where
  "getLastSyncedInfoForCurrColl env sc ps rows main temp =
     (let defaultStart = getMinStart env (ipDefaultStart ps);
          currMts = ipCurrMts ps;
          shouldCollBePublic = (ipUser ps = None \<or> \<not> csHasUserField sc)
      in if \<not> csIsCandles sc \<and> csIsPublic sc \<noteq> shouldCollBePublic then Inl LastSyncedInfoGettingError
         else
           let info = step_info ps rows;
               bStart = getMinStart env (Option.bind info srBaseStart);
               bEnd = Option.bind info srBaseEnd;
               cStart = Option.bind info srCurrStart;
               cEnd = Option.bind info srCurrEnd;
               bReady = (case info of None \<Rightarrow> False | Some r \<Rightarrow> srBaseReady r);
               cReady = (case info of None \<Rightarrow> False | Some r \<Rightarrow> srCurrReady r);
               lastMain = elem_mts sc ps (csOrder sc) main;
               firstMain = elem_mts sc ps (invert_order (csOrder sc)) main;
               lastTemp = Option.bind temp (elem_mts sc ps (csOrder sc));
               firstTemp = Option.bind temp (elem_mts sc ps (invert_order (csOrder sc)));
               lastElem = or_else (jsMax env [lastTemp, lastMain]) defaultStart;
               st0 = new_step\<lparr>stSymbol := ipSymbol ps, stTimeframe := ipTimeframe ps,
                 stSyncedAt := Option.bind info srSyncedAt\<rparr>
           in if \<not> bReady \<and> lastMain = None \<and> lastTemp = None
              then Inr (st0\<lparr>baseStart := or_else bStart defaultStart, baseEnd := or_else bEnd currMts,
                            isBaseStepReady := bReady\<rparr>, lastElem)
              else
                let st1 = st0\<lparr>baseStart := bStart, baseEnd := bEnd, currStart := cStart,
                      currEnd := cEnd, isBaseStepReady := bReady, isCurrStepReady := cReady\<rparr>;
                    st2 = (if cReady then st1
                           else if csIsUpdatable sc
                           then st1\<lparr>currStart := defaultStart, currEnd := currMts\<rparr>
                           else st1\<lparr>currStart := or_else (jsMin env [cStart, lastMain]) defaultStart,
                                    currEnd := or_else (or_else (jsMin env [cEnd, firstTemp]) lastMain)
                                                 currMts\<rparr>);
                    st3 = (if bReady then st2
                           else if csIsUpdatable sc
                           then st2\<lparr>baseStart := defaultStart, baseEnd := currMts\<rparr>
                           else st2\<lparr>baseStart := or_else (jsMin env [bStart, firstMain]) defaultStart,
                                    baseEnd := or_else (or_else (jsMin env [bEnd, firstTemp]) lastMain)
                                                 currMts\<rparr>);
                    st4 = (if \<not> bReady \<and> baseStart st3 = baseEnd st3
                           then st3\<lparr>isBaseStepReady := True\<rparr> else st3)
                in Inr (st4, lastElem))"

end
