(* ===== verification/Sync_Checker.thy ===== *)
theory Sync_Checker
  imports Sync_Steps
begin

text \<open>
  What a synchronisation has to fetch (\<^verbatim>\<open>sync/data.inserter/data.checker/index.js\<close>): for every
  collection the steps that are left from before, and a fresh one for what came since.

  The database is a parameter, as it does not change during a check: the rows of the steps table,
  the rows of each collection and of its temporary table, the answers of the queries for the
  configurations of public collections and for the currencies and the first entry of the ledgers.
  So are the calendar (\<^verbatim>\<open>moment\<close>), the clock and the interrupter, both by the number of the question.
\<close>

record public_conf =
  pcSymbol :: "string option"
  pcTimeframe :: "string option"
  pcStart :: "int option"

record check_env = step_env +
  ckNow :: "nat \<Rightarrow> int"
  ckInterrupted :: "nat \<Rightarrow> bool"
  diffMinutes :: "int \<Rightarrow> int \<Rightarrow> int"
  yearOf :: "int \<Rightarrow> int"
  dayOfYear :: "int \<Rightarrow> int"
  fiveDaysBefore :: "int option \<Rightarrow> int option"
  stepRows :: "step_row list"
  mainRows :: "string \<Rightarrow> coll_row list"
  tempRows :: "string \<Rightarrow> coll_row list option"
  publicConfs :: "string \<Rightarrow> public_conf list"
  firstMainLedger :: "int option \<Rightarrow> int option"
  firstTempLedger :: "int option \<Rightarrow> int option"
  mainLedgerCurrencies :: "int option \<Rightarrow> string option list"
  tempLedgerCurrencies :: "int option \<Rightarrow> string option list"
  currenciesSynonymous :: "(string \<times> string list) list"
  FOREX_SYMBS :: "string list"

text \<open>A collection under check: its schema and the two fields the check sets.\<close>

datatype coll_kind = Plain_Coll | Configurable_Coll | Candles_Coll | Status_Messages_Coll

record coll_check =
  ccName :: string
  ccKind :: coll_kind
  ccSchema :: coll_schema
  ccInsertable :: bool
  ccHidden :: bool
  ccConf :: string
  hasNewData :: bool
  startSteps :: "user_step list"

record check_clock =
  clkNow :: nat
  clkPolls :: nat

definition resetSyncSchemaProps :: "coll_check \<Rightarrow> coll_check" where
  "resetSyncSchemaProps c = c\<lparr>hasNewData := False, startSteps := []\<rparr>"

definition add_step :: "user_step \<Rightarrow> coll_check \<Rightarrow> coll_check" where
  "add_step st c = c\<lparr>hasNewData := True, startSteps := startSteps c @ [st]\<rparr>"

definition last_info :: "check_env \<Rightarrow> coll_check \<Rightarrow> info_params \<Rightarrow> step_error + user_step \<times> int option" where
  "last_info env c ps = getLastSyncedInfoForCurrColl env (ccSchema c) ps (stepRows env)
     (mainRows env (ccName c)) (tempRows env (ccName c))"

definition unready :: "user_step \<Rightarrow> bool" where
  "unready st \<longleftrightarrow> \<not> isBaseStepReady st \<or> \<not> isCurrStepReady st"

subsection \<open>When a fresh step is due\<close>

definition shouldFreshSyncBeAdded :: "check_env \<Rightarrow> int option \<Rightarrow> user_step \<Rightarrow> int \<Rightarrow> bool" where
  "shouldFreshSyncBeAdded env days st currMts =
     (let bEnd = (if \<not> isBaseStepReady st \<and> hasBaseStep st then nullish (baseEnd st) 0 else 0);
          cEnd = (if \<not> isCurrStepReady st \<and> hasCurrStep st then nullish (currEnd st) 0 else 0);
          synced = nullish (stSyncedAt st) 0
      in diffMinutes env currMts (max bEnd cEnd) > 60
         \<and> (case days of None \<Rightarrow> True | Some d \<Rightarrow>
              yearOf env currMts - yearOf env synced \<ge> 1
              \<or> dayOfYear env currMts - dayOfYear env synced \<ge> d))"

text \<open>A start that is no time gives a difference that is no number.\<close>

definition wasStartPointChanged :: "check_env \<Rightarrow> user_step \<Rightarrow> int option \<Rightarrow> bool" where
  "wasStartPointChanged env st start =
     (let bStart = (if isBaseStepReady st \<and> hasBaseStep st then nullish (baseStart st) 0 else 0)
      in case start of None \<Rightarrow> False | Some x \<Rightarrow> diffMinutes env bStart x > 5)"

subsection \<open>Private collections\<close>

definition checkItemNewDataArrObjType ::
  "check_env \<Rightarrow> int option \<times> int option \<Rightarrow> coll_check \<Rightarrow> check_clock
     \<Rightarrow> (step_error + coll_check) \<times> check_clock" where
  "checkItemNewDataArrObjType env auth c k =
     (if ckInterrupted env (clkPolls k) then (Inr c, k\<lparr>clkPolls := Suc (clkPolls k)\<rparr>)
      else
        let currMts = ckNow env (clkNow k);
            k' = k\<lparr>clkNow := clkNow k + 2, clkPolls := Suc (clkPolls k)\<rparr>
        in (bind_err (last_info env c \<lparr>ipColl = ccName c, ipUser = fst auth, ipSubUser = snd auth,
              ipSymbol = None, ipTimeframe = None, ipDefaultStart = Some (MIN_START_MTS env),
              ipCurrMts = Some (ckNow env (Suc (clkNow k)))\<rparr>)
            (\<lambda>(st, lastElem).
               let c1 = (if unready st then add_step st c else c)
               in Inr (if shouldFreshSyncBeAdded env None st currMts
                       then add_step ((step_with_params st)\<lparr>currStart := lastElem,
                              currEnd := Some currMts, isCurrStepReady := False\<rparr>) c1
                       else c1)), k'))"

text \<open>A loop over the collections that skips those a check is not for.\<close>

fun over_colls ::
  "check_env \<Rightarrow> (coll_check \<Rightarrow> bool)
     \<Rightarrow> (coll_check \<Rightarrow> check_clock \<Rightarrow> (step_error + coll_check) \<times> check_clock)
     \<Rightarrow> coll_check list \<Rightarrow> check_clock \<Rightarrow> (step_error + coll_check list) \<times> check_clock" where
  "over_colls env P check [] k = (Inr [], k)"
| "over_colls env P check (c # cs) k =
     (if ckInterrupted env (clkPolls k) then (Inr (c # cs), k\<lparr>clkPolls := Suc (clkPolls k)\<rparr>)
      else
        let k0 = k\<lparr>clkPolls := Suc (clkPolls k)\<rparr>
        in case (if P c then check c k0 else (Inr c, k0)) of
             (Inl e, k1) \<Rightarrow> (Inl e, k1)
           | (Inr c', k1) \<Rightarrow> (let (rs, k2) = over_colls env P check cs k1
                             in (bind_err rs (\<lambda>cs'. Inr (c' # cs')), k2)))"

definition checkNewDataArrObjType ::
  "check_env \<Rightarrow> int option \<times> int option \<Rightarrow> coll_check list \<Rightarrow> check_clock
     \<Rightarrow> (step_error + coll_check list) \<times> check_clock" where
  "checkNewDataArrObjType env auth =
     over_colls env (\<lambda>c. \<not> csIsPublic (ccSchema c) \<and> \<not> ccHidden c \<and> ccInsertable c)
       (\<lambda>c. checkItemNewDataArrObjType env auth (resetSyncSchemaProps c))"

definition filterMethodCollMap :: "bool \<Rightarrow> coll_check list \<Rightarrow> coll_check list" where
  "filterMethodCollMap isPublic cs = filter (\<lambda>c. \<not> ccHidden c \<and> hasNewData c
     \<and> (if isPublic then csIsPublic (ccSchema c) else \<not> csIsPublic (ccSchema c))) cs"

definition checkNewData ::
  "check_env \<Rightarrow> int option \<times> int option \<Rightarrow> coll_check list \<Rightarrow> check_clock
     \<Rightarrow> (step_error + coll_check list) \<times> check_clock" where
  "checkNewData env auth cs k =
     (if ckInterrupted env (clkPolls k)
      then (Inr (filterMethodCollMap False cs), k\<lparr>clkPolls := Suc (clkPolls k)\<rparr>)
      else let (r, k1) = checkNewDataArrObjType env auth cs (k\<lparr>clkPolls := Suc (clkPolls k)\<rparr>)
           in (bind_err r (\<lambda>cs'. Inr (filterMethodCollMap False cs')), k1))"

subsection \<open>Configurable public collections\<close>

text \<open>The steps of one configuration.\<close>

definition conf_steps ::
  "check_env \<Rightarrow> coll_check \<Rightarrow> int \<Rightarrow> public_conf \<Rightarrow> step_error + user_step list" where
  "conf_steps env c currMts conf =
     bind_err (last_info env c \<lparr>ipColl = ccName c, ipUser = None, ipSubUser = None,
         ipSymbol = pcSymbol conf, ipTimeframe = pcTimeframe conf, ipDefaultStart = pcStart conf,
         ipCurrMts = (if csIsUpdatable (ccSchema c) then None else Some currMts)\<rparr>)
       (\<lambda>(st, lastElem).
          let left = (if unready st then [st] else [])
          in if csIsUpdatable (ccSchema c) then
               (if unready st then Inr left
                else Inr [(step_with_params st)\<lparr>currStart := pcStart conf, isCurrStepReady := False\<rparr>])
             else
               let moved = wasStartPointChanged env st (pcStart conf);
                   fresh = shouldFreshSyncBeAdded env None st currMts;
                   f0 = (step_with_params st)\<lparr>isBaseStepReady := True, isCurrStepReady := True\<rparr>;
                   f1 = (if moved then f0\<lparr>baseStart := pcStart conf, baseEnd := baseStart st,
                                         isBaseStepReady := False\<rparr> else f0);
                   f2 = (if fresh then f1\<lparr>currStart := lastElem, currEnd := Some currMts,
                                         isCurrStepReady := False\<rparr> else f1)
               in Inr (if \<not> moved \<and> \<not> fresh then left else left @ [f2]))"

fun check_confs ::
  "check_env \<Rightarrow> int \<Rightarrow> public_conf list \<Rightarrow> coll_check \<Rightarrow> nat \<Rightarrow> (step_error + coll_check) \<times> nat" where
  "check_confs env currMts [] c p = (Inr c, p)"
| "check_confs env currMts (conf # confs) c p =
     (if ckInterrupted env p then (Inr c, Suc p)
      else case conf_steps env c currMts conf of
          Inl e \<Rightarrow> (Inl e, Suc p)
        | Inr sts \<Rightarrow> check_confs env currMts confs (fold add_step sts c) (Suc p))"

definition checkNewConfigurablePublicData ::
  "check_env \<Rightarrow> coll_check \<Rightarrow> check_clock \<Rightarrow> (step_error + coll_check) \<times> check_clock" where
  "checkNewConfigurablePublicData env c k =
     (if ckInterrupted env (clkPolls k) then (Inr c, k\<lparr>clkPolls := Suc (clkPolls k)\<rparr>)
      else let (r, p) = check_confs env (ckNow env (clkNow k)) (publicConfs env (ccConf c)) c
                          (Suc (clkPolls k))
           in (r, k\<lparr>clkNow := Suc (clkNow k), clkPolls := p\<rparr>))"

subsection \<open>Candles for the conversion of currencies\<close>

definition getFirstLedgerMts :: "check_env \<Rightarrow> int option \<Rightarrow> int option" where
  "getFirstLedgerMts env user =
     fiveDaysBefore env (jsMin env [firstMainLedger env user, firstTempLedger env user])"

definition set_add :: "'a \<Rightarrow> 'a list \<Rightarrow> 'a list" where
  "set_add x xs = (if x \<in> set xs then xs else xs @ [x])"

text \<open>\<^verbatim>\<open>accum.add(...xs)\<close> adds the first of its arguments.\<close>

definition add_currency :: "check_env \<Rightarrow> string option \<Rightarrow> string list \<Rightarrow> string list" where
  "add_currency env currency accum =
     (case currency of
        None \<Rightarrow> accum
      | Some cur \<Rightarrow>
          if cur = '''' then accum
          else
            let accum1 = set_add cur accum
            in case map_of (currenciesSynonymous env) cur of
                 None \<Rightarrow> accum1
               | Some syns \<Rightarrow>
                   (case filter (\<lambda>s. s \<notin> set accum1) syns of
                      [] \<Rightarrow> accum1
                    | s # _ \<Rightarrow> set_add s accum1))"

definition getUniqueSymbsFromLedgers :: "check_env \<Rightarrow> int option \<Rightarrow> string list" where
  "getUniqueSymbsFromLedgers env user =
     fold (add_currency env) (mainLedgerCurrencies env user @ tempLedgerCurrencies env user) []"

definition drop_F0 :: "string \<Rightarrow> string" where
  "drop_F0 s =
     (let n = length s
      in if 2 \<le> n \<and> (s ! (n - 2) = CHR ''F'' \<or> s ! (n - 2) = CHR ''f'') \<and> s ! (n - 1) = CHR ''0''
         then take (n - 2) s else s)"

definition candlesPairs :: "check_env \<Rightarrow> string list \<Rightarrow> string list" where
  "candlesPairs env symbs =
     fold (\<lambda>f. set_add (''tBTC'' @ f)) (FOREX_SYMBS env)
       (fold (\<lambda>s accum.
          let cur = drop_F0 s; sep = (if length cur > 3 then '':'' else '''')
          in if cur = '''' then accum else set_add (''t'' @ cur @ sep @ ''USD'') accum) symbs [])"

definition candle_step ::
  "check_env \<Rightarrow> int option \<times> int option \<Rightarrow> int \<Rightarrow> int \<Rightarrow> int \<Rightarrow> string \<Rightarrow> coll_check
     \<Rightarrow> step_error + coll_check" where
  "candle_step env auth firstMts currMts infoMts symbol c =
     bind_err (last_info env c \<lparr>ipColl = ccName c, ipUser = fst auth, ipSubUser = snd auth,
         ipSymbol = Some symbol, ipTimeframe = Some ''1D'', ipDefaultStart = Some firstMts,
         ipCurrMts = Some infoMts\<rparr>)
       (\<lambda>(st, lastElem).
          let moved = wasStartPointChanged env st (Some firstMts);
              fresh = shouldFreshSyncBeAdded env (Some 1) st currMts;
              new = (hasNewData c \<or> unready st \<or> moved \<or> fresh);
              st1 = (if moved then st\<lparr>baseStart := Some firstMts, isBaseStepReady := False\<rparr> else st);
              st2 = (if fresh then st1\<lparr>currStart := lastElem, currEnd := Some currMts,
                                      isCurrStepReady := False\<rparr> else st1);
              st3 = (if isBaseStepReady st2 then st2
                     else st2\<lparr>baseEnd := or_else (currEnd st2) (Some currMts), isCurrStepReady := True\<rparr>)
          in Inr (if \<not> new then c else add_step (st3\<lparr>stAuth := Some auth\<rparr>) c))"

fun check_candles ::
  "check_env \<Rightarrow> int option \<times> int option \<Rightarrow> int \<Rightarrow> int \<Rightarrow> string list \<Rightarrow> coll_check \<Rightarrow> check_clock
     \<Rightarrow> (step_error + coll_check) \<times> check_clock" where
  "check_candles env auth firstMts currMts [] c k = (Inr c, k)"
| "check_candles env auth firstMts currMts (s # ss) c k =
     (if ckInterrupted env (clkPolls k) then (Inr c, k\<lparr>clkPolls := Suc (clkPolls k)\<rparr>)
      else
        let k' = k\<lparr>clkNow := Suc (clkNow k), clkPolls := Suc (clkPolls k)\<rparr>
        in case candle_step env auth firstMts currMts (ckNow env (clkNow k)) s c of
             Inl e \<Rightarrow> (Inl e, k')
           | Inr c' \<Rightarrow> check_candles env auth firstMts currMts ss c' k')"

definition checkNewCandlesData ::
  "check_env \<Rightarrow> int option \<times> int option \<Rightarrow> coll_check \<Rightarrow> check_clock
     \<Rightarrow> (step_error + coll_check) \<times> check_clock" where
  "checkNewCandlesData env auth c k =
     (if ckInterrupted env (clkPolls k) then (Inr c, k\<lparr>clkPolls := Suc (clkPolls k)\<rparr>)
      else
        let k' = k\<lparr>clkNow := Suc (clkNow k), clkPolls := Suc (clkPolls k)\<rparr>
        in case getFirstLedgerMts env (fst auth) of
             None \<Rightarrow> (Inr c, k')
           | Some firstMts \<Rightarrow>
               check_candles env auth firstMts (ckNow env (clkNow k))
                 (candlesPairs env (getUniqueSymbsFromLedgers env (fst auth))) c k')"

subsection \<open>Public collections\<close>

fun over_auths ::
  "check_env \<Rightarrow> (int option \<times> int option) list \<Rightarrow> coll_check \<Rightarrow> check_clock
     \<Rightarrow> (step_error + coll_check) \<times> check_clock" where
  "over_auths env [] c k = (Inr c, k)"
| "over_auths env (a # as) c k =
     (case checkNewCandlesData env a c k of
        (Inl e, k') \<Rightarrow> (Inl e, k')
      | (Inr c', k') \<Rightarrow> over_auths env as c' k')"

definition check_public_coll ::
  "check_env \<Rightarrow> (int option \<times> int option) list \<Rightarrow> coll_check \<Rightarrow> check_clock
     \<Rightarrow> (step_error + coll_check) \<times> check_clock" where
  "check_public_coll env auths c0 k =
     (let c = resetSyncSchemaProps c0;
          auths' = (if auths = [] then [(None, None)] else auths)
      in case (if ccKind c = Candles_Coll then over_auths env auths' c k else (Inr c, k)) of
           (Inl e, k') \<Rightarrow> (Inl e, k')
         | (Inr c', k') \<Rightarrow>
             if ccKind c = Configurable_Coll \<or> ccKind c = Candles_Coll
             then checkNewConfigurablePublicData env c' k' else (Inr c', k'))"

definition check_updatable_coll ::
  "check_env \<Rightarrow> coll_check \<Rightarrow> check_clock \<Rightarrow> (step_error + coll_check) \<times> check_clock" where
  "check_updatable_coll env c0 k =
     (let c = resetSyncSchemaProps c0
      in if ccKind c = Status_Messages_Coll then checkNewConfigurablePublicData env c k
         else (bind_err (last_info env c \<lparr>ipColl = ccName c, ipUser = None, ipSubUser = None,
                 ipSymbol = None, ipTimeframe = None, ipDefaultStart = None, ipCurrMts = None\<rparr>)
               (\<lambda>(st, lastElem). Inr (if unready st then add_step st c
                  else add_step ((step_with_params st)\<lparr>isCurrStepReady := False\<rparr>) c)), k))"

definition checkNewPublicData ::
  "check_env \<Rightarrow> (int option \<times> int option) list \<Rightarrow> coll_check list \<Rightarrow> check_clock
     \<Rightarrow> (step_error + coll_check list) \<times> check_clock" where
  "checkNewPublicData env auths cs k =
     (if ckInterrupted env (clkPolls k)
      then (Inr (filterMethodCollMap True cs), k\<lparr>clkPolls := Suc (clkPolls k)\<rparr>)
      else
        case over_colls env (\<lambda>c. csIsPublic (ccSchema c) \<and> ccInsertable c) (check_public_coll env auths)
               cs (k\<lparr>clkPolls := Suc (clkPolls k)\<rparr>) of
          (Inl e, k1) \<Rightarrow> (Inl e, k1)
        | (Inr cs1, k1) \<Rightarrow>
            (let (r, k2) = over_colls env (\<lambda>c. csIsUpdatable (ccSchema c) \<and> csIsPublic (ccSchema c))
                             (check_updatable_coll env) cs1 k1
             in (bind_err r (\<lambda>cs2. Inr (filterMethodCollMap True cs2)), k2)))"

end
