(* ===== verification/Sync_Pages.thy ===== *)
theory Sync_Pages
  imports Js_Prelude
begin

text \<open>
  Fetching a range of time page by page (\<^verbatim>\<open>_insertApiDataArrObjTypeToDb\<close> of
  \<^verbatim>\<open>sync/data.inserter/index.js\<close>): the API is asked for the newest items between a start and an end,
  what it answers is cut to the range and to the limit, normalised and inserted, and the end is moved
  to the page it names next.

  The API is a parameter, by the number of the request; an item is its time (\<^const>\<open>None\<close> when it
  is no integer) and its fields. The loop need not end for every API, so it has fuel; an API that
  keeps to \<open>honest_api\<close> is done within the length of the range and three more rounds.
\<close>

record api_item =
  itTime :: "int option"
  itFields :: "(string \<times> string) list"

record api_page =
  pageItems :: "api_item list option"
  nextPage :: "int option"
  pageInterrupted :: bool

record page_env =
  pageApi :: "nat \<Rightarrow> int \<Rightarrow> int option \<Rightarrow> api_page"
  pageStop :: "nat \<Rightarrow> bool"
  isTestEnv :: bool
  modelKeys :: "string list"

record page_state =
  pgEnd :: "int option"
  pgCount :: nat
  serialRequests :: nat
  serialEndLess :: nat
  prevRes :: "(string \<times> string) list list"
  pgRows :: "(string \<times> string) list list"
  pgRequests :: nat
  pgStops :: nat

text \<open>\<^verbatim>\<open>pick\<close> of the keys of the model; without keys the items stay as they are.\<close>

definition normalizeApiData :: "string list \<Rightarrow> api_item list \<Rightarrow> (string \<times> string) list list" where
  "normalizeApiData keys res =
     (if keys = [] then map itFields res
      else map (\<lambda>x. filter (\<lambda>(k, v). k \<in> set keys) (itFields x)) res)"

text \<open>Zero is no next page and no time.\<close>

definition is_page :: "int option \<Rightarrow> bool" where
  "is_page n \<longleftrightarrow> n \<noteq> None \<and> n \<noteq> Some 0"

definition time_ge :: "int \<Rightarrow> api_item \<Rightarrow> bool" where
  "time_ge start x = (case itTime x of None \<Rightarrow> False | Some t \<Rightarrow> start \<le> t)"

definition end_reached :: "int \<Rightarrow> int option \<Rightarrow> bool" where
  "end_reached start e = (case e of None \<Rightarrow> False | Some n \<Rightarrow> start \<ge> n)"

text \<open>What is left of a page, and whether it is known to be the last.\<close>

definition cut_page :: "int \<Rightarrow> int \<Rightarrow> nat \<Rightarrow> int \<Rightarrow> api_item list \<Rightarrow> api_item list \<times> bool" where
  "cut_page start limit count currTime res =
     (let (res1, all1) = (if start \<ge> currTime then (filter (time_ge start) res, True) else (res, False))
      in if limit < int (count + length res1) then (take (nat (limit - int count)) res1, True) else (res1, all1))"

text \<open>One round of the loop; the first component says whether there is another.\<close>

definition page_round :: "page_env \<Rightarrow> int \<Rightarrow> int \<Rightarrow> page_state \<Rightarrow> bool \<times> page_state" where
  "page_round env start limit s0 =
     (let s = s0\<lparr>pgStops := Suc (pgStops s0)\<rparr>
      in if pageStop env (pgStops s0) then (False, s)
         else
           let p = pageApi env (pgRequests s) start (pgEnd s);
               s1 = s\<lparr>pgRequests := Suc (pgRequests s), pgEnd := nextPage p\<rparr>
           in if pageInterrupted p then (False, s\<lparr>pgRequests := Suc (pgRequests s)\<rparr>)
              else if pageItems p = Some [] \<and> is_page (nextPage p) \<and> serialRequests s1 < 1
              then (True, s1\<lparr>serialRequests := Suc (serialRequests s1)\<rparr>)
              else
                let s2 = s1\<lparr>serialRequests := 0\<rparr>
                in case pageItems p of
                     None \<Rightarrow> (False, s2)
                   | Some res \<Rightarrow>
                       if res = [] then (False, s2)
                       else (case itTime (last res) of
                           None \<Rightarrow> (False, s2)
                         | Some currTime \<Rightarrow>
                             if currTime = 0 then (False, s2)
                             else
                               let (res', all1) = cut_page start limit (pgCount s2) currTime res;
                                   s3 = (if end_reached start (pgEnd s2)
                                         then s2\<lparr>pgEnd := Some (start + 1),
                                                 serialEndLess := Suc (serialEndLess s2)\<rparr>
                                         else s2);
                                   all2 = (all1 \<or> serialEndLess s3 > 1);
                                   rows = normalizeApiData (modelKeys env) res';
                                   all3 = (all2 \<or> (isTestEnv env \<and> prevRes s3 \<noteq> []
                                            \<and> list_all (\<lambda>r. list_ex (\<lambda>prev. set r \<subseteq> set prev) (prevRes s3)) rows));
                                   s4 = s3\<lparr>prevRes := rows, pgRows := pgRows s3 @ rows,
                                            pgCount := pgCount s3 + length res'\<rparr>
                               in if all3 \<or> limit \<le> int (pgCount s4) \<or> \<not> is_page (nextPage p)
                                  then (False, s4)
                                  else (True, if pgEnd s4 = None
                                              then s4\<lparr>pgEnd := Some (currTime - 1)\<rparr> else s4)))"

fun page_loop :: "page_env \<Rightarrow> int \<Rightarrow> int \<Rightarrow> nat \<Rightarrow> page_state \<Rightarrow> page_state option" where
  "page_loop env start limit 0 s = None"
| "page_loop env start limit (Suc n) s =
     (let (again, s') = page_round env start limit s
      in if again then page_loop env start limit n s' else Some s')"

definition first_page :: "int \<Rightarrow> page_state" where
  "first_page e = \<lparr>pgEnd = Some e, pgCount = 0, serialRequests = 0, serialEndLess = 0, prevRes = [],
     pgRows = [], pgRequests = 0, pgStops = 0\<rparr>"

definition insertApiDataArrObjTypeToDb ::
  "page_env \<Rightarrow> nat \<Rightarrow> int \<Rightarrow> int \<Rightarrow> int \<Rightarrow> (string \<times> string) list list option" where
  "insertApiDataArrObjTypeToDb env fuel start e limit =
     map_option pgRows (page_loop env start limit fuel (first_page e))"

subsection \<open>An honest API\<close>

definition in_range :: "int \<Rightarrow> int \<Rightarrow> api_item \<Rightarrow> bool" where
  "in_range start e x = (case itTime x of None \<Rightarrow> False | Some t \<Rightarrow> start \<le> t \<and> t \<le> e)"

text \<open>
  What the code relies on: a page has only items of the range; it names a next page only before the
  end that was asked for, and then has every item after it, down to its last one, whose time is
  after the next page; without a next page, or without items, there is nothing more in the range; a
  range of at most two milliseconds fits one page. Times are positive.
\<close>

definition honest_page :: "api_item set \<Rightarrow> int \<Rightarrow> int \<Rightarrow> api_page \<Rightarrow> bool" where
  "honest_page src start e p \<longleftrightarrow>
     \<not> pageInterrupted p \<and>
     (\<exists>res. pageItems p = Some res \<and> set res \<subseteq> {x \<in> src. in_range start e x}
        \<and> (res = [] \<longrightarrow> (\<forall>x\<in>src. \<not> in_range start e x))
        \<and> (\<not> is_page (nextPage p) \<longrightarrow> {x \<in> src. in_range start e x} \<subseteq> set res)
        \<and> (\<forall>n. nextPage p = Some n \<and> n \<noteq> 0 \<longrightarrow> n < e
             \<and> (\<forall>x\<in>src. in_range start e x \<and> in_range (n + 1) e x \<longrightarrow> x \<in> set res)
             \<and> (res \<noteq> [] \<longrightarrow> in_range (n + 1) e (last res))
             \<and> (res \<noteq> [] \<longrightarrow> e > start + 1)))"

definition honest_api :: "page_env \<Rightarrow> api_item set \<Rightarrow> int \<Rightarrow> bool" where
  "honest_api env src start \<longleftrightarrow>
     (\<forall>k. \<not> pageStop env k) \<and> \<not> isTestEnv env
     \<and> (\<forall>x\<in>src. \<exists>t>0. itTime x = Some t)
     \<and> (\<forall>r e. honest_page src start e (pageApi env r start (Some e)))"

definition row_of_item :: "page_env \<Rightarrow> api_item \<Rightarrow> (string \<times> string) list" where
  "row_of_item env x = (if modelKeys env = [] then itFields x
     else filter (\<lambda>(k, v). k \<in> set (modelKeys env)) (itFields x))"

lemma normalize_map: "normalizeApiData (modelKeys env) res = map (row_of_item env) res"
  by (simp add: normalizeApiData_def row_of_item_def)


subsection \<open>Every item is fetched\<close>

text \<open>
  Between rounds: what is not inserted yet lies before the current end; an end within two
  milliseconds of the start once it was corrected; nothing is left after an empty page.
\<close>

definition page_inv :: "page_env \<Rightarrow> api_item set \<Rightarrow> int \<Rightarrow> int \<Rightarrow> int \<Rightarrow> page_state \<Rightarrow> bool" where
  "page_inv env src start e0 e s \<longleftrightarrow> pgEnd s = Some e \<and> pgCount s = length (pgRows s)
     \<and> (\<forall>x\<in>src. in_range start e0 x \<longrightarrow> row_of_item env x \<in> set (pgRows s) \<or> in_range start e x)
     \<and> (0 < serialEndLess s \<longrightarrow> e \<le> start + 1)
     \<and> (0 < serialRequests s \<longrightarrow> (\<forall>x\<in>src. \<not> in_range start e x))"

definition all_fetched :: "page_env \<Rightarrow> api_item set \<Rightarrow> int \<Rightarrow> int \<Rightarrow> int \<Rightarrow> page_state \<Rightarrow> bool" where
  "all_fetched env src start e0 limit s \<longleftrightarrow> limit \<le> int (length (pgRows s))
     \<or> (\<forall>x\<in>src. in_range start e0 x \<longrightarrow> row_of_item env x \<in> set (pgRows s))"

lemma in_range_mono: "in_range a b x \<Longrightarrow> a' \<le> a \<Longrightarrow> b \<le> b' \<Longrightarrow> in_range a' b' x"
  by (auto simp: in_range_def split: option.splits)

lemma in_range_split: "in_range a b x \<Longrightarrow> in_range (n + 1) b x \<or> in_range a n x"
  by (auto simp: in_range_def split: option.splits)

text \<open>A round that gets items: what it inserts, and when it is the last one.\<close>

lemma cut_page_rows:
  assumes "cut_page start limit count currTime res = (res', b)"
  shows "limit \<le> int (count + length res') \<or> (\<forall>x\<in>set res. in_range start e x \<longrightarrow> x \<in> set res')"
    and "b \<Longrightarrow> limit \<le> int (count + length res') \<or> currTime \<le> start"
  using assms by (auto simp: cut_page_def Let_def time_ge_def in_range_def split: if_splits option.splits)

lemma round_empty:
  assumes "honest_api env src start" "page_inv env src start e0 e s"
    and "pageItems (pageApi env (pgRequests s) start (Some e)) = Some []"
    and "page_round env start limit s = (again, s')"
  shows "if again then serialRequests s = 0 \<and> serialRequests s' = 1 \<and> (\<exists>e'. page_inv env src start e0 e' s')
         else all_fetched env src start e0 limit s'"
proof -
  let ?p = "pageApi env (pgRequests s) start (Some e)"
  have h: "honest_page src start e ?p" using assms(1) by (simp add: honest_api_def)
  have e: "pgEnd s = Some e" using assms(2) by (simp add: page_inv_def)
  have none: "\<not> in_range start e x" if "x \<in> src" for x
    using h assms(3) that by (simp add: honest_page_def)
  have stop: "\<not> pageStop env k" "\<not> pageInterrupted ?p" for k
    using assms(1) h by (simp_all add: honest_api_def honest_page_def)
  show ?thesis
  proof (cases "is_page (nextPage ?p) \<and> serialRequests s = 0")
    case True
    then obtain n where n: "nextPage ?p = Some n" "n \<noteq> 0" by (auto simp: is_page_def)
    then have "n < e" using h by (auto simp: honest_page_def)
    then have less: "\<not> in_range start n x" if "x \<in> src" for x
      using none[OF that] in_range_mono[of start n x start e] by auto
    have s': "again" "s' = s\<lparr>pgStops := Suc (pgStops s), pgRequests := Suc (pgRequests s),
        pgEnd := Some n, serialRequests := 1\<rparr>"
      using assms(3,4) True n stop e by (auto simp: page_round_def Let_def)
    have "page_inv env src start e0 n s'"
      using assms(2) s' \<open>n < e\<close> less none by (auto simp: page_inv_def)
    then show ?thesis using s' True by auto
  next
    case False
    then have s': "\<not> again" "pgRows s' = pgRows s"
      using assms(3,4) stop e by (auto simp: page_round_def Let_def)
    then show ?thesis using assms(2) none by (auto simp: all_fetched_def page_inv_def)
  qed
qed

lemma round_items:
  assumes "honest_api env src start" "page_inv env src start e0 e s"
    and "pageItems (pageApi env (pgRequests s) start (Some e)) = Some res" "res \<noteq> []"
    and "page_round env start limit s = (again, s')"
  shows "if again then serialRequests s' = 0 \<and> serialRequests s = 0 \<and>
           (\<exists>e'. page_inv env src start e0 e' s' \<and> nat (e' - start) < nat (e - start))
         else all_fetched env src start e0 limit s'"
proof -
  let ?p = "pageApi env (pgRequests s) start (Some e)"
  have h: "honest_page src start e ?p" using assms(1) by (simp add: honest_api_def)
  have e: "pgEnd s = Some e" using assms(2) by (simp add: page_inv_def)
  have count: "pgCount s = length (pgRows s)" using assms(2) by (simp add: page_inv_def)
  have stop: "\<not> pageStop env k" "\<not> pageInterrupted ?p" "\<not> isTestEnv env" for k
    using assms(1) h by (simp_all add: honest_api_def honest_page_def)
  have sub: "x \<in> src" "in_range start e x" if "x \<in> set res" for x
    using h assms(3) that by (auto simp: honest_page_def)
  obtain t where t: "itTime (last res) = Some t" "t \<noteq> 0" "start \<le> t"
    using sub[of "last res"] assms(1,4)
    by (fastforce simp: honest_api_def in_range_def split: option.splits)
  have serial: "serialRequests s = 0"
    using sub[of "last res"] assms(2,4) by (auto simp: page_inv_def)
  obtain res' b where cut: "cut_page start limit (pgCount s) t res = (res', b)" by fastforce
  let ?rows = "pgRows s @ map (row_of_item env) res'"
  let ?n = "nextPage ?p"
  let ?less = "serialEndLess s + (if end_reached start ?n then 1 else 0)"
  let ?stop = "b \<or> ?less > 1 \<or> limit \<le> int (length ?rows) \<or> \<not> is_page ?n"
  have s': "again \<longleftrightarrow> \<not> ?stop" "pgRows s' = ?rows" "pgCount s' = length ?rows"
    "serialRequests s' = 0" "serialEndLess s' = ?less"
    "again \<Longrightarrow> pgEnd s' = (if end_reached start ?n then Some (start + 1) else ?n)"
    using assms(3-5) stop e t(1,2) cut count
    by (auto simp: page_round_def Let_def normalize_map is_page_def end_reached_def split: if_splits)
  have kept: "row_of_item env x \<in> set ?rows" if "x \<in> set res" "\<not> limit \<le> int (length ?rows)" for x
    using cut_page_rows(1)[OF cut, of e] sub[OF that(1)] that count by auto
  have page_all: "x \<in> set res" if "x \<in> src" "in_range start e x" "\<not> is_page ?n" for x
    using h assms(3) that by (auto simp: honest_page_def)
  have page_after: "x \<in> set res"
    if "x \<in> src" "in_range start e x" "in_range (n + 1) e x" "?n = Some n" "n \<noteq> 0" for x n
    using h assms(3) that by (auto simp: honest_page_def)
  have page_next: "n < e" "n < t" "start + 1 < e" if "?n = Some n" "n \<noteq> 0" for n
    using h assms(3,4) that t(1) by (auto simp: honest_page_def in_range_def)
  have old: "row_of_item env x \<in> set (pgRows s) \<or> in_range start e x"
    if "x \<in> src" "in_range start e0 x" for x
    using assms(2) that by (auto simp: page_inv_def)
  show ?thesis
  proof (cases again)
    case True
    then obtain n where n: "?n = Some n" "n \<noteq> 0" using s'(1) by (auto simp: is_page_def)
    let ?e' = "if start \<ge> n then start + 1 else n"
    have e': "pgEnd s' = Some ?e'" using s'(6)[OF True] n by (simp add: end_reached_def)
    have "row_of_item env x \<in> set ?rows \<or> in_range start ?e' x" if x: "x \<in> src" "in_range start e0 x" for x
    proof -
      have to_e': "in_range start n x \<Longrightarrow> in_range start ?e' x"
        by (rule in_range_mono) auto
      have open_end: "\<not> limit \<le> int (length ?rows)" using s'(1) True by simp
      show ?thesis
      proof (cases "in_range start e x")
        case True
        then have "x \<in> set res \<or> in_range start n x"
          using in_range_split[OF True, of n] page_after[OF x(1) True _ n] by blast
        then show ?thesis using kept[OF _ open_end] to_e' by blast
      next
        case False
        then show ?thesis using old[OF x] by simp
      qed
    qed
    moreover have "?e' \<le> start + 1" if "0 < ?less"
    proof (cases "end_reached start ?n")
      case False
      then have "e \<le> start + 1" using that assms(2) by (auto simp: page_inv_def)
      then show ?thesis using page_next(3)[OF n] by simp
    qed (use n in \<open>simp add: end_reached_def\<close>)
    ultimately have "page_inv env src start e0 ?e' s'"
      using e' s' by (auto simp: page_inv_def)
    moreover have "nat (?e' - start) < nat (e - start)" using page_next[OF n] by auto
    ultimately show ?thesis using True s'(4) serial by auto
  next
    case False
    then have "?stop" using s'(1) by simp
    have "row_of_item env x \<in> set ?rows" if x: "x \<in> src" "in_range start e0 x" "\<not> limit \<le> int (length ?rows)" for x
    proof (cases "in_range start e x")
      case True
      have "x \<in> set res"
      proof (cases "is_page ?n")
        case False
        then show ?thesis using page_all x(1) True by simp
      next
        case page: True
        then obtain n where n: "?n = Some n" "n \<noteq> 0" by (auto simp: is_page_def)
        have "\<not> 0 < serialEndLess s" using page_next(3)[OF n] assms(2) by (auto simp: page_inv_def)
        then have b using \<open>?stop\<close> x(3) page by (auto split: if_splits)
        then have "t \<le> start" using cut_page_rows(2)[OF cut] x(3) count by simp
        then have "in_range (n + 1) e x" using True page_next(2)[OF n]
          by (auto simp: in_range_def split: option.splits)
        then show ?thesis using page_after[OF x(1) True _ n] by simp
      qed
      then show ?thesis using kept x(3) by simp
    next
      case False
      then show ?thesis using old[OF x(1,2)] by simp
    qed
    then show ?thesis using False s'(2) by (auto simp: all_fetched_def)
  qed
qed

lemma page_loop_done:
  assumes "honest_api env src start" "page_inv env src start e0 e s"
    and "(if serialRequests s = 0 then nat (e - start) + 3 else 1) \<le> fuel"
  shows "\<exists>s'. page_loop env start limit fuel s = Some s' \<and> all_fetched env src start e0 limit s'"
  using assms(2,3)
proof (induction fuel arbitrary: s e)
  case 0
  then show ?case by (simp split: if_splits)
next
  case (Suc fuel)
  obtain again s' where r: "page_round env start limit s = (again, s')" by fastforce
  obtain res where res: "pageItems (pageApi env (pgRequests s) start (Some e)) = Some res"
  proof -
    have "honest_page src start e (pageApi env (pgRequests s) start (Some e))"
      using assms(1) by (simp add: honest_api_def)
    then show thesis using that by (auto simp: honest_page_def)
  qed
  show ?case
  proof (cases again)
    case False
    then have "all_fetched env src start e0 limit s'"
      using round_empty[OF assms(1) Suc.prems(1) _ r] round_items[OF assms(1) Suc.prems(1) res _ r] res
      by (cases "res = []") auto
    then show ?thesis using r False by simp
  next
    case True
    obtain e' where "page_inv env src start e0 e' s'"
      "(if serialRequests s' = 0 then nat (e' - start) + 3 else 1) \<le> fuel"
    proof (cases "res = []")
      case empty: True
      then show thesis
        using round_empty[OF assms(1) Suc.prems(1) _ r] res True Suc.prems(2) that by auto
    next
      case False
      then show thesis
        using round_items[OF assms(1) Suc.prems(1) res _ r] True Suc.prems(2) that by fastforce
    qed
    from Suc.IH[OF this] show ?thesis using r True by simp
  qed
qed

text \<open>
  C13: the loop ends, and it has inserted every item of the range, normalised, or reached its limit:
  the length of the range and three more rounds are enough.
\<close>

theorem pages_complete:
  assumes "honest_api env src start" "nat (e - start) + 3 \<le> fuel"
  shows "\<exists>rows. insertApiDataArrObjTypeToDb env fuel start e limit = Some rows
    \<and> (limit \<le> int (length rows) \<or> (\<forall>x\<in>src. in_range start e x \<longrightarrow> row_of_item env x \<in> set rows))"
proof -
  have "page_inv env src start e e (first_page e)" by (simp add: page_inv_def first_page_def)
  from page_loop_done[OF assms(1) this, of fuel limit] assms(2) show ?thesis
    by (auto simp: insertApiDataArrObjTypeToDb_def all_fetched_def first_page_def)
qed

subsection \<open>A sample\<close>

definition sample_items :: "api_item list" where
  "sample_items = [\<lparr>itTime = Some 9, itFields = [(''mts'', ''9''), (''extra'', ''a'')]\<rparr>,
                   \<lparr>itTime = Some 5, itFields = [(''mts'', ''5''), (''extra'', ''b'')]\<rparr>]"

text \<open>An API with pages of one item.\<close>

definition sample_api :: "nat \<Rightarrow> int \<Rightarrow> int option \<Rightarrow> api_page" where
  "sample_api r start e =
     (case e of
        None \<Rightarrow> \<lparr>pageItems = Some [], nextPage = None, pageInterrupted = False\<rparr>
      | Some e' \<Rightarrow>
          (case filter (in_range start e') sample_items of
             x # y # _ \<Rightarrow> \<lparr>pageItems = Some [x], nextPage = Some 8, pageInterrupted = False\<rparr>
           | xs \<Rightarrow> \<lparr>pageItems = Some xs, nextPage = None, pageInterrupted = False\<rparr>))"

definition sample_page_env :: page_env where
  "sample_page_env = \<lparr>pageApi = sample_api, pageStop = (\<lambda>_. False), isTestEnv = False,
     modelKeys = [''mts'']\<rparr>"

lemma sample_honest: "honest_api sample_page_env (set sample_items) start"
proof -
  have "honest_page (set sample_items) start e (sample_api r start (Some e))" for r e
    by (auto simp: honest_page_def sample_api_def sample_items_def is_page_def in_range_def)
  then show ?thesis by (auto simp: honest_api_def sample_page_env_def sample_items_def)
qed

lemma pages_complete_witness:
  "\<exists>rows. insertApiDataArrObjTypeToDb sample_page_env 15 0 10 100 = Some rows
     \<and> (100 \<le> int (length rows) \<or> ([(''mts'', ''9'')] \<in> set rows \<and> [(''mts'', ''5'')] \<in> set rows))"
proof -
  obtain rows where "insertApiDataArrObjTypeToDb sample_page_env 15 0 10 100 = Some rows"
    "100 \<le> int (length rows) \<or> (\<forall>x\<in>set sample_items. in_range 0 10 x \<longrightarrow> row_of_item sample_page_env x \<in> set rows)"
    using pages_complete[OF sample_honest, of 10 0 15 100] by auto
  then show ?thesis
    by (auto simp: sample_items_def in_range_def row_of_item_def sample_page_env_def)
qed

lemma sample_pages_rows:
  "insertApiDataArrObjTypeToDb sample_page_env 15 0 10 100 = Some [[(''mts'', ''9'')], [(''mts'', ''5'')]]"
  by code_simp
end
