(* ===== verification/Sync_Inserter.thy ===== *)
theory Sync_Inserter
  imports Sync_Checker Sync_Pages Sync_Queue
begin

text \<open>
  One job of the synchronisation (\<^verbatim>\<open>sync/data.inserter/index.js\<close>): for every user the checked
  collections are fetched, step by step, into temporary tables; then the public ones; then hooks
  work on the temporary tables, and one transaction moves the rows to the main tables and marks the
  steps as done.

  The state holds the table of the steps, the temporary and the main rows, and the progress that was
  reported. Parameters: the API (pages, and lists for collections that are updated as a whole), the
  columns of the models, the hooks, and everything the checker takes. Fetching may not end
  (\<open>Not_Ending\<close>, when the fuel is used up), the checks may throw.
\<close>

subsection \<open>Collections and users\<close>

definition getAllowedCollsNames :: "string list \<Rightarrow> string list" where
  "getAllowedCollsNames allowed = filter (\<lambda>n. take 1 n \<noteq> ''_'') allowed"

text \<open>
  \<^verbatim>\<open>helpers/filter-method-coll-map-by-list.js\<close>: the collections a request names. A later entry of a
  \<^verbatim>\<open>Map\<close> with the key of an earlier one takes its place; both are the same collection here. The guard
  against collections that were named before compares a property that entries do not have, so it
  never holds.
\<close>

record coll_def =
  cdMethod :: string
  cdName :: string
  cdPublic :: bool

fun selected_colls :: "string list \<Rightarrow> coll_def list \<Rightarrow> string list \<Rightarrow> coll_def list" where
  "selected_colls allowed defs [] = []"
| "selected_colls allowed defs (c # cs) =
     (if c = ''_ALL'' then filter (\<lambda>d. cdName d \<in> set allowed) defs
      else if c = ''_PUBLIC''
      then filter (\<lambda>d. cdName d \<in> set allowed \<and> cdPublic d) defs @ selected_colls allowed defs cs
      else if c = ''_PRIVATE''
      then filter (\<lambda>d. cdName d \<in> set allowed \<and> \<not> cdPublic d) defs @ selected_colls allowed defs cs
      else filter (\<lambda>d. cdName d = c) defs @ selected_colls allowed defs cs)"

definition filterMethodCollMapByList ::
  "string list \<Rightarrow> coll_def list \<Rightarrow> string list \<Rightarrow> (string, coll_def) jsmap" where
  "filterMethodCollMapByList allowed defs colls =
     fold (\<lambda>d. AList.update (cdMethod d) d) (selected_colls allowed defs colls) []"

text \<open>\<^verbatim>\<open>getAuthFromDb\<close>: one entry per user, or per sub-user of a sub-account, by e-mail and name.\<close>

record db_user =
  duId :: "int option"
  duName :: string
  duHasKeys :: bool
  duKeyStrings :: bool
  duIsSubAccount :: bool
  duSubUsers :: "(int \<times> string \<times> bool) list"

record auth_entry =
  auUser :: "int option"
  auSubUser :: "int option"
  auKeys :: bool
  auKeyStrings :: bool
  auSubKeys :: bool

definition getAuthFromDb ::
  "int option \<Rightarrow> bool \<Rightarrow> db_user list \<Rightarrow> (int option \<times> db_user) list \<times> (string, auth_entry) jsmap" where
  "getAuthFromDb owner byScheduler users =
     fold (\<lambda>u (sess, auths).
       if \<not> byScheduler \<and> owner \<noteq> None \<and> owner \<noteq> duId u then (sess, auths)
       else
         let base = \<lparr>auUser = duId u, auSubUser = None, auKeys = duHasKeys u,
               auKeyStrings = duKeyStrings u, auSubKeys = False\<rparr>
         in if \<not> duIsSubAccount u
            then (AList.update (duId u) u sess, AList.update (duName u) base auths)
            else if duSubUsers u = [] then (sess, auths)
            else (AList.update (duId u) u sess,
                  fold (\<lambda>(i, n, b). AList.update n (base\<lparr>auSubUser := Some i, auSubKeys := b\<rparr>))
                    (duSubUsers u) auths)) users ([], [])"

text \<open>\<^verbatim>\<open>getMethodArgMap\<close>: the keys of the sub-user, if there are some, else those of the user.\<close>

definition request_keys :: "auth_entry option \<Rightarrow> bool" where
  "request_keys a = (case a of None \<Rightarrow> False | Some x \<Rightarrow> auSubKeys x \<or> auKeys x)"

definition request_is_public :: "auth_entry option \<Rightarrow> bool" where
  "request_is_public a \<longleftrightarrow> \<not> request_keys a"

subsection \<open>State and parameters\<close>

datatype ins_progress = Progress_Percent rat | MESS_ERR_UNAUTH

datatype ins_fail = Not_Ending | Throws step_error

type_synonym table_rows = "(string \<times> (string \<times> string) list) list"

record ins_state =
  insSteps :: "step_row list"
  insTemp :: table_rows
  insMain :: table_rows
  insProgress :: "ins_progress list"
  insCandlesLeft :: "int option"
  insClock :: check_clock
  insCalls :: nat
  insUsersSynced :: "int option list"
  insStartupDone :: "int list"

record ins_env = arith +
  insCheck :: check_env
  insColls :: "coll_check list"
  insSyncColls :: "string list"
  insQueueId :: "int option"
  insFuel :: nat
  insApi :: "nat \<Rightarrow> coll_check \<Rightarrow> user_step \<Rightarrow> auth_entry option \<Rightarrow> page_env"
  insUpdateApi :: "nat \<Rightarrow> coll_check \<Rightarrow> user_step \<Rightarrow> (string \<times> string) list list option"
  updatesObjects :: "string \<Rightarrow> bool"
  updatesArray :: "string \<Rightarrow> bool"
  collNameOf :: "string \<Rightarrow> string"
  columnsOf :: "string \<Rightarrow> (string \<times> string) list \<Rightarrow> coll_row option"
  startupUsers :: "int list"
  insHooks :: "(table_rows \<Rightarrow> table_rows) list"

definition ins_poll :: "ins_env \<Rightarrow> ins_state \<Rightarrow> bool \<times> ins_state" where
  "ins_poll env s = (ckInterrupted (insCheck env) (clkPolls (insClock s)),
     s\<lparr>insClock := (insClock s)\<lparr>clkPolls := Suc (clkPolls (insClock s))\<rparr>\<rparr>)"

definition ins_setProgress :: "ins_progress \<Rightarrow> ins_state \<Rightarrow> ins_state" where
  "ins_setProgress p s = s\<lparr>insProgress := insProgress s @ [p]\<rparr>"

text \<open>
  The checker reads the tables as they are. A temporary table that was not created yet is read as an
  empty one.
\<close>

definition table_of :: "ins_env \<Rightarrow> string \<Rightarrow> table_rows \<Rightarrow> coll_row list" where
  "table_of env m rows = List.map_filter (\<lambda>(n, r). if n = collNameOf env m then columnsOf env m r else None) rows"

definition check_env_of :: "ins_env \<Rightarrow> ins_state \<Rightarrow> check_env" where
  "check_env_of env s = (insCheck env)\<lparr>stepRows := insSteps s,
     mainRows := (\<lambda>m. table_of env m (insMain s)),
     tempRows := (\<lambda>m. Some (table_of env m (insTemp s)))\<rparr>"

definition write_steps :: "ins_env \<Rightarrow> step_update \<Rightarrow> ins_state \<Rightarrow> ins_fail + ins_state" where
  "write_steps env up s =
     (case updateOrInsertSyncInfoForCurrColl (insQueueId env) up (insSteps s) of
        Inl e \<Rightarrow> Inl (Throws e)
      | Inr rows \<Rightarrow> Inr (s\<lparr>insSteps := rows\<rparr>))"

definition insert_rows :: "string \<Rightarrow> (string \<times> string) list list \<Rightarrow> ins_state \<Rightarrow> ins_state" where
  "insert_rows name rows s = s\<lparr>insTemp := insTemp s @ map (\<lambda>r. (name, r)) rows\<rparr>"

subsection \<open>One step\<close>

definition step_start_update :: "coll_check \<Rightarrow> int option \<Rightarrow> int option \<Rightarrow> user_step \<Rightarrow> step_update" where
  "step_start_update c u sub st = \<lparr>upColl = ccName c, upUser = u, upSubUser = sub, upStep = Some st,
     upSyncedAt = None, upBaseReady = False, upCurrReady = False\<rparr>"

text \<open>A range that is due; the limit is ten million.\<close>

definition fetch_range ::
  "ins_env \<Rightarrow> coll_check \<Rightarrow> user_step \<Rightarrow> auth_entry option \<Rightarrow> int \<Rightarrow> int \<Rightarrow> ins_state
     \<Rightarrow> ins_fail + ins_state" where
  "fetch_range env c st a start e s =
     (let (stop, s1) = ins_poll env s
      in if stop then Inr s1
         else if \<not> (ccInsertable c \<and> (if request_is_public a then csIsPublic (ccSchema c)
                                      else \<not> csIsPublic (ccSchema c)))
         then Inr s1
         else
           let s2 = s1\<lparr>insCalls := Suc (insCalls s1)\<rparr>
           in case insertApiDataArrObjTypeToDb (insApi env (insCalls s1) c st a) (insFuel env) start e 10000000 of
                None \<Rightarrow> Inl Not_Ending
              | Some rows \<Rightarrow> Inr (insert_rows (collNameOf env (ccName c)) rows s2))"

definition insertApiData ::
  "ins_env \<Rightarrow> coll_check \<Rightarrow> auth_entry option \<Rightarrow> user_step \<Rightarrow> ins_state
     \<Rightarrow> ins_fail + user_step \<times> ins_state" where
  "insertApiData env c a st s =
     (let (stop, s1) = ins_poll env s;
          (u, sub) = (case (if ccKind c = Candles_Coll then stAuth st else None) of
               Some ids \<Rightarrow> ids
             | None \<Rightarrow> (case a of None \<Rightarrow> (None, None) | Some x \<Rightarrow> (auUser x, auSubUser x)))
      in if stop then Inr (st, s1)
         else
           bind_err (write_steps env (step_start_update c u sub st) s1) (\<lambda>s2.
           bind_err (if shouldBaseStepBeSynced no_opts st
               then bind_err (fetch_range env c st a (nullish (baseStart st) 0) (nullish (baseEnd st) 0) s2)
                      (\<lambda>s3. Inr (st\<lparr>wasBaseStepsBeSynced := True\<rparr>, s3))
               else Inr (st, s2)) (\<lambda>(st1, s3).
           if shouldCurrStepBeSynced no_opts st1
           then bind_err (fetch_range env c st1 a (nullish (currStart st1) 0) (nullish (currEnd st1) 0) s3)
                  (\<lambda>s4. Inr (st1\<lparr>wasCurrStepsBeSynced := True\<rparr>, s4))
           else Inr (st1, s3))))"

text \<open>A collection that is updated as a whole: one request, for objects or for plain values.\<close>

definition update_rows :: "ins_env \<Rightarrow> coll_check \<Rightarrow> user_step \<Rightarrow> bool \<Rightarrow> ins_state \<Rightarrow> ins_state" where
  "update_rows env c st allowed s =
     (let (stop, s1) = ins_poll env s
      in if stop \<or> \<not> allowed then s1
         else
           let s2 = s1\<lparr>insCalls := Suc (insCalls s1)\<rparr>
           in case insUpdateApi env (insCalls s1) c st of
                None \<Rightarrow> s2
              | Some rows \<Rightarrow> insert_rows (collNameOf env (ccName c)) rows s2)"

definition update_both :: "ins_env \<Rightarrow> coll_check \<Rightarrow> user_step \<Rightarrow> ins_state \<Rightarrow> ins_state" where
  "update_both env c st s =
     update_rows env c st (updatesArray env (ccName c))
       (update_rows env c st (updatesObjects env (ccName c)) s)"

definition updateApiData ::
  "ins_env \<Rightarrow> coll_check \<Rightarrow> user_step \<Rightarrow> ins_state \<Rightarrow> ins_fail + user_step \<times> ins_state" where
  "updateApiData env c st s =
     (let (stop, s1) = ins_poll env s;
          opts = \<lparr>shouldNotMtsBeChecked = True, shouldStartMtsBeChecked = (ccKind c = Status_Messages_Coll)\<rparr>
      in if stop then Inr (st, s1)
         else bind_err (write_steps env (step_start_update c None None st) s1) (\<lambda>s2.
           let (st1, s3) = (if shouldBaseStepBeSynced opts st
                 then (st\<lparr>wasBaseStepsBeSynced := True\<rparr>, update_both env c st s2) else (st, s2))
           in Inr (if shouldCurrStepBeSynced opts st1
                   then (st1\<lparr>wasCurrStepsBeSynced := True\<rparr>, update_both env c st1 s3) else (st1, s3))))"

fun each_step ::
  "(user_step \<Rightarrow> ins_state \<Rightarrow> ins_fail + user_step \<times> ins_state) \<Rightarrow> user_step list \<Rightarrow> ins_state
     \<Rightarrow> ins_fail + user_step list \<times> ins_state" where
  "each_step f [] s = Inr ([], s)"
| "each_step f (st # sts) s =
     bind_err (f st s) (\<lambda>(st', s1). bind_err (each_step f sts s1) (\<lambda>(sts', s2). Inr (st' # sts', s2)))"


subsection \<open>The collections of a user\<close>

text \<open>\<^verbatim>\<open>None\<close> of the map stands for the empty map an interrupted pass returns.\<close>

fun private_colls ::
  "ins_env \<Rightarrow> auth_entry \<Rightarrow> rat \<Rightarrow> nat \<Rightarrow> rat \<Rightarrow> coll_check list \<Rightarrow> coll_check list \<Rightarrow> ins_state
     \<Rightarrow> ins_fail + (rat \<times> coll_check list) \<times> ins_state" where
  "private_colls env a userProgress count progress passed [] s = Inr ((progress, passed), s)"
| "private_colls env a userProgress count progress passed (c # cs) s =
     (let (stop, s1) = ins_poll env s
      in if stop then Inr ((userProgress, []), s1)
         else bind_err (each_step (insertApiData env c (Some a)) (startSteps c) s1) (\<lambda>(sts, s2).
           let count' = Suc count;
               size = of_nat (length (insColls env));
               users = of_nat (length (insUsersSynced s));
               p = math_round (fl env (fl env (fl env (fl env (of_nat count' / size) * 100) / users)
                     + userProgress));
               s3 = (if p < 100 then ins_setProgress (Progress_Percent p) s2 else s2)
           in private_colls env a userProgress count' p (passed @ [c\<lparr>startSteps := sts\<rparr>]) cs s3))"

text \<open>\<open>insUsersSynced\<close> lists the users of this job; its length is the size of the map of users.\<close>

definition insertNewDataToDb ::
  "ins_env \<Rightarrow> auth_entry \<Rightarrow> rat \<Rightarrow> ins_state \<Rightarrow> ins_fail + (rat \<times> coll_check list) \<times> ins_state" where
  "insertNewDataToDb env a userProgress s =
     (let (stop, s1) = ins_poll env s
      in if stop then Inr ((userProgress, []), s1)
         else if \<not> auKeyStrings a then Inr ((userProgress, []), ins_setProgress MESS_ERR_UNAUTH s1)
         else
           (case checkNewData (check_env_of env s1) (auUser a, auSubUser a) (insColls env) (insClock s1) of
              (Inl e, k) \<Rightarrow> Inl (Throws e)
            | (Inr cs, k) \<Rightarrow> private_colls env a userProgress 0 0 [] cs (s1\<lparr>insClock := k\<rparr>)))"

subsection \<open>The public collections\<close>

definition public_step ::
  "ins_env \<Rightarrow> coll_check \<Rightarrow> user_step \<Rightarrow> ins_state \<Rightarrow> ins_fail + user_step \<times> ins_state" where
  "public_step env c st s =
     bind_err (if ccInsertable c then insertApiData env c None st s else Inr (st, s)) (\<lambda>(st1, s1).
       if csIsUpdatable (ccSchema c) then updateApiData env c st1 s1 else Inr (st1, s1))"

fun public_colls ::
  "ins_env \<Rightarrow> rat \<Rightarrow> nat \<Rightarrow> nat \<Rightarrow> coll_check list \<Rightarrow> coll_check list \<Rightarrow> ins_state
     \<Rightarrow> ins_fail + coll_check list \<times> ins_state" where
  "public_colls env prev sz count passed [] s = Inr (passed, s)"
| "public_colls env prev sz count passed (c # cs) s =
     (let (stop, s1) = ins_poll env s
      in if stop then Inr ([], s1)
         else
           let s2 = (if ccKind c = Candles_Coll
                     then s1\<lparr>insCandlesLeft := Some (6000 * int (length (startSteps c)))\<rparr> else s1)
           in bind_err (each_step (public_step env c) (startSteps c) s2) (\<lambda>(sts, s3).
             let count' = Suc count;
                 p = math_round (fl env (prev + fl env (fl env (fl env (of_nat count' / of_nat sz) * 100)
                       * fl env (fl env (100 - prev) / 100))));
                 s4 = (if p < 100 then ins_setProgress (Progress_Percent p) s3 else s3)
             in public_colls env prev sz count' (passed @ [c\<lparr>startSteps := sts\<rparr>]) cs s4))"

definition insertNewPublicDataToDb ::
  "ins_env \<Rightarrow> (int option \<times> int option) list \<Rightarrow> rat \<Rightarrow> ins_state
     \<Rightarrow> ins_fail + coll_check list \<times> ins_state" where
  "insertNewPublicDataToDb env auths prev s =
     (let (stop, s1) = ins_poll env s
      in if stop then Inr ([], s1)
         else
           (case checkNewPublicData (check_env_of env s1) auths (insColls env) (insClock s1) of
              (Inl e, k) \<Rightarrow> Inl (Throws e)
            | (Inr cs, k) \<Rightarrow> public_colls env prev (length cs) 0 [] cs (s1\<lparr>insClock := k\<rparr>)))"

subsection \<open>Moving the rows and marking the steps\<close>

definition done_update ::
  "coll_check \<Rightarrow> int option \<times> int option \<Rightarrow> int \<Rightarrow> check_opts \<Rightarrow> user_step list \<Rightarrow> step_update" where
  "done_update c ids now opts sts = \<lparr>upColl = ccName c, upUser = fst ids, upSubUser = snd ids,
     upStep = None, upSyncedAt = Some now, upBaseReady = wereBaseStepsSynced opts sts,
     upCurrReady = wereCurrStepsSynced opts sts\<rparr>"

definition private_updates ::
  "int \<Rightarrow> (auth_entry \<times> coll_check list) list \<Rightarrow> step_update list" where
  "private_updates now synced = concat (map (\<lambda>(a, cs).
     List.map_filter (\<lambda>c. if startSteps c = [] then None
       else Some (done_update c (auUser a, auSubUser a) now
         \<lparr>shouldNotMtsBeChecked = csIsUpdatable (ccSchema c), shouldStartMtsBeChecked = False\<rparr>
         (startSteps c))) cs) synced)"

definition public_updates :: "int \<Rightarrow> coll_check list \<Rightarrow> step_update list" where
  "public_updates now cs = concat (map (\<lambda>c.
     let opts = \<lparr>shouldNotMtsBeChecked = csIsUpdatable (ccSchema c),
                 shouldStartMtsBeChecked = (ccKind c = Status_Messages_Coll)\<rparr>;
         withAuth = filter (\<lambda>st. stAuth st \<noteq> None) (startSteps c);
         withoutAuth = filter (\<lambda>st. stAuth st = None) (startSteps c)
     in map (\<lambda>st. done_update c (nullish (stAuth st) (None, None)) now opts [st]) withAuth
        @ (if withoutAuth = [] then [] else [done_update c (None, None) now opts (startSteps c)])) cs)"

fun write_all :: "ins_env \<Rightarrow> step_update list \<Rightarrow> ins_state \<Rightarrow> ins_fail + ins_state" where
  "write_all env [] s = Inr s"
| "write_all env (u # us) s = bind_err (write_steps env u s) (write_all env us)"

text \<open>Users who had to be synchronised on startup, once everything was asked for.\<close>

definition setUserSyncState :: "ins_env \<Rightarrow> ins_state \<Rightarrow> ins_state" where
  "setUserSyncState env s =
     (if ''_ALL'' \<notin> set (insSyncColls env) \<or> startupUsers env = [] then s
      else s\<lparr>insStartupDone := insStartupDone s @ startupUsers env\<rparr>)"

text \<open>The whole is one transaction: when it throws, nothing of it stays.\<close>

definition updateSyncInfo ::
  "ins_env \<Rightarrow> (auth_entry \<times> coll_check list) list \<Rightarrow> coll_check list \<Rightarrow> ins_state
     \<Rightarrow> ins_fail + ins_state" where
  "updateSyncInfo env synced pub s =
     (let now = ckNow (insCheck env) (clkNow (insClock s));
          s1 = s\<lparr>insMain := insMain s @ insTemp s,
                 insClock := (insClock s)\<lparr>clkNow := Suc (clkNow (insClock s))\<rparr>\<rparr>
      in bind_err (write_all env (private_updates now synced @ public_updates now pub) s1)
           (\<lambda>s2. Inr (setUserSyncState env (s2\<lparr>insTemp := []\<rparr>))))"

fun run_hooks :: "ins_env \<Rightarrow> (table_rows \<Rightarrow> table_rows) list \<Rightarrow> ins_state \<Rightarrow> bool \<times> ins_state" where
  "run_hooks env [] s = (True, s)"
| "run_hooks env (h # hs) s =
     (let (stop, s1) = ins_poll env s
      in if stop then (False, s1) else run_hooks env hs (s1\<lparr>insTemp := h (insTemp s1)\<rparr>))"

definition afterAllInserts ::
  "ins_env \<Rightarrow> (auth_entry \<times> coll_check list) list \<Rightarrow> coll_check list \<Rightarrow> ins_state
     \<Rightarrow> ins_fail + ins_state" where
  "afterAllInserts env synced pub s =
     (let (stop, s1) = ins_poll env s
      in if stop then Inr s1
         else if insHooks env = [] then Inr s1
         else let (all_run, s2) = run_hooks env (insHooks env) s1
              in if all_run then updateSyncInfo env synced pub s2 else Inr s2)"

subsection \<open>The whole job\<close>

fun private_users ::
  "ins_env \<Rightarrow> nat \<Rightarrow> nat \<Rightarrow> rat \<Rightarrow> (auth_entry \<times> coll_check list) list \<Rightarrow> auth_entry list \<Rightarrow> ins_state
     \<Rightarrow> ins_fail + ((auth_entry \<times> coll_check list) list \<times> rat) option \<times> ins_state" where
  "private_users env sz count progress synced [] s = Inr (Some (synced, progress), s)"
| "private_users env sz count progress synced (a # as) s =
     (let (stop, s1) = ins_poll env s
      in if stop then Inr (None, s1)
         else bind_err (insertNewDataToDb env a (fl env (fl env (of_nat count / of_nat sz) * 100)) s1)
           (\<lambda>((p, cs), s2). private_users env sz (Suc count) p (synced @ [(a, cs)]) as s2))"

definition insertNewDataToDbMultiUser ::
  "ins_env \<Rightarrow> (string, auth_entry) jsmap \<Rightarrow> ins_state \<Rightarrow> ins_fail + ins_state" where
  "insertNewDataToDbMultiUser env auths s =
     (let (stop, s1) = ins_poll env s
      in if stop then Inr s1
         else if auths = [] then Inr (ins_setProgress MESS_ERR_UNAUTH s1)
         else
           bind_err (private_users env (length auths) 0 0 [] (map snd auths)
               (s1\<lparr>insUsersSynced := map (auUser \<circ> snd) auths\<rparr>)) (\<lambda>(r, s2).
             case r of
               None \<Rightarrow> Inr s2
             | Some (synced, progress) \<Rightarrow>
                 bind_err (insertNewPublicDataToDb env (map (\<lambda>(n, a). (auUser a, auSubUser a)) auths)
                     progress s2) (\<lambda>(pub, s3).
                 bind_err (afterAllInserts env synced pub s3) (\<lambda>s4.
                 let (stop', s5) = ins_poll env s4
                 in Inr (if stop' then s5 else ins_setProgress (Progress_Percent 100) s5)))))"
end
