(* ===== verification/Sync_Checker_Props.thy ===== *)
theory Sync_Checker_Props
  imports Sync_Checker
begin

text \<open>
  Properties of the steps and of the check: the table of the steps keeps one row per collection and
  user and gives back what was written; a check selects a collection exactly when it has a step for
  it, and every such step has something left to do; a collection that was synchronised gets one
  fresh step from its newest row on.
\<close>

subsection \<open>The table of the steps\<close>

text \<open>One row per collection, user and sub-user.\<close>

definition row_key :: "step_row \<Rightarrow> string \<times> int option \<times> int option" where
  "row_key r = (srColl r, srUser r, srSubUser r)"

definition one_row_per_key :: "step_row list \<Rightarrow> bool" where
  "one_row_per_key rows \<longleftrightarrow> distinct (map row_key rows)"

lemma write_step_key [simp]:
  "srColl (write_step q up r) = srColl r" "srUser (write_step q up r) = srUser r"
  "srSubUser (write_step q up r) = srSubUser r"
  by (simp_all add: write_step_def Let_def split: option.split)

lemma empty_row_key [simp]:
  "srColl (empty_row up) = upColl up" "srUser (empty_row up) = upUser up"
  "srSubUser (empty_row up) = upSubUser up"
  by (simp_all add: empty_row_def)

lemma step_info_unique:
  assumes "one_row_per_key rows" "r \<in> set rows"
    "srColl r = ipColl ps" "srUser r = ipUser ps" "srSubUser r = ipSubUser ps"
  shows "step_info ps rows = Some r"
proof -
  let ?m = "\<lambda>r. srColl r = ipColl ps \<and> srUser r = ipUser ps \<and> srSubUser r = ipSubUser ps"
  have m: "?m y \<longleftrightarrow> row_key y = (ipColl ps, ipUser ps, ipSubUser ps)" for y
    by (simp add: row_key_def)
  have "filter ?m rows = [r]" using assms(1,2) assms(3-5)[THEN sym]
  proof (induction rows)
    case (Cons x xs)
    have other: "row_key y \<noteq> row_key x" if "y \<in> set xs" for y
      using imageI[OF that, of row_key] Cons.prems(1) by (auto simp: one_row_per_key_def)
    have "filter ?m xs = []" if "?m x" using that other unfolding filter_empty_conv m by simp
    moreover have "x = r" if "?m x"
      using that other[of r] Cons.prems by (auto simp: row_key_def)
    moreover have "filter ?m xs = [r]" if "\<not> ?m x"
      using that Cons.prems by (intro Cons.IH) (auto simp: one_row_per_key_def)
    ultimately show ?case by auto
  qed simp
  then show ?thesis by (simp add: step_info_def)
qed

text \<open>
  An update of the steps table touches one collection of one user only, keeps one row for each,
  and what it wrote is what the next look-up finds: the times of the given step and the marks.
\<close>

theorem step_update_roundtrip:
  assumes "updateOrInsertSyncInfoForCurrColl q up rows = Inr rows'" "one_row_per_key rows"
    "ipColl ps = upColl up" "ipUser ps = upUser up" "ipSubUser ps = upSubUser up"
  shows "one_row_per_key rows'
    \<and> filter (\<lambda>r. \<not> same_key up r) rows' = filter (\<lambda>r. \<not> same_key up r) rows
    \<and> step_info ps rows' = Some (write_step q up (nullish (step_info ps rows) (empty_row up)))"
proof -
  let ?upd = "\<lambda>r. if same_key up r then write_step q up r else r"
  show ?thesis
  proof (cases "list_ex (same_key up) rows")
    case True
    then have rows': "rows' = map ?upd rows"
      using assms(1) by (simp add: updateOrInsertSyncInfoForCurrColl_def split: if_splits)
    have "map row_key rows' = map row_key rows" by (simp add: rows' row_key_def)
    then have one: "one_row_per_key rows'" using assms(2) by (simp add: one_row_per_key_def)
    obtain r where r: "r \<in> set rows" "same_key up r" using True by (auto simp: list_ex_iff)
    then have "step_info ps rows = Some r"
      using assms(3-5) by (intro step_info_unique[OF assms(2)]) (simp_all add: same_key_def)
    moreover have "step_info ps rows' = Some (write_step q up r)"
      using r assms(3-5) rows' by (intro step_info_unique[OF one]) (auto simp: same_key_def)
    moreover have "filter (\<lambda>r. \<not> same_key up r) (map ?upd xs) = filter (\<lambda>r. \<not> same_key up r) xs" for xs
      by (induction xs) (auto simp: same_key_def)
    ultimately show ?thesis using one rows' by simp
  next
    case False
    then have rows': "rows' = rows @ [write_step q up (empty_row up)]"
      using assms(1) by (simp add: updateOrInsertSyncInfoForCurrColl_def split: if_splits)
    have none: "\<not> same_key up r" if "r \<in> set rows" for r using False that by (auto simp: list_ex_iff)
    have "row_key r \<noteq> (upColl up, upUser up, upSubUser up)" if "r \<in> set rows" for r
      using none[OF that] by (simp add: same_key_def row_key_def)
    then have "(upColl up, upUser up, upSubUser up) \<notin> row_key ` set rows" by (metis imageE)
    then have one: "one_row_per_key rows'"
      using assms(2) by (simp add: one_row_per_key_def rows' row_key_def[of "write_step _ _ _"])
    have "step_info ps rows' = Some (write_step q up (empty_row up))"
      using assms(3-5) rows' by (intro step_info_unique[OF one]) simp_all
    moreover have "filter (\<lambda>r. srColl r = ipColl ps \<and> srUser r = ipUser ps \<and> srSubUser r = ipSubUser ps) rows = []"
      using none assms(3-5) by (auto simp: filter_empty_conv same_key_def)
    then have "step_info ps rows = None" unfolding step_info_def by simp
    moreover have "same_key up (write_step q up (empty_row up))" by (simp add: same_key_def)
    ultimately show ?thesis using one none rows' by simp
  qed
qed

subsection \<open>The newest row\<close>

text \<open>What the code relies on of the third-party minimum and maximum of two values.\<close>

definition extremes :: "step_env \<Rightarrow> bool" where
  "extremes env \<longleftrightarrow> (\<forall>a b. jsMin env [a, b] = (case a of None \<Rightarrow> b | Some x \<Rightarrow>
        (case b of None \<Rightarrow> a | Some y \<Rightarrow> Some (min x y)))
      \<and> jsMax env [a, b] = (case a of None \<Rightarrow> b | Some x \<Rightarrow>
        (case b of None \<Rightarrow> a | Some y \<Rightarrow> Some (max x y))))"

lemma elem_mts_newest:
  assumes "csHasDateField sc" "csOrder sc < 0"
  shows "elem_mts sc ps (csOrder sc) rows = None \<longleftrightarrow> filter (row_matches sc ps) rows = []"
    and "elem_mts sc ps (csOrder sc) rows = Some x \<Longrightarrow> r \<in> set rows \<Longrightarrow> row_matches sc ps r \<Longrightarrow> crMts r \<le> x"
proof -
  let ?xs = "filter (row_matches sc ps) rows"
  let ?s = "sort_key (\<lambda>r. - crMts r) ?xs"
  have e: "elem_mts sc ps (csOrder sc) rows = (case ?s of [] \<Rightarrow> None | r # _ \<Rightarrow> Some (crMts r))"
    using assms by (simp add: elem_mts_def)
  show "elem_mts sc ps (csOrder sc) rows = None \<longleftrightarrow> ?xs = []"
    by (cases ?s) (auto simp: e dest: arg_cong[of _ _ set])
  assume x: "elem_mts sc ps (csOrder sc) rows = Some x" and r: "r \<in> set rows" "row_matches sc ps r"
  then obtain y ys where s: "?s = y # ys" "x = crMts y" by (auto simp: e split: list.splits)
  have "sorted (map (\<lambda>r. - crMts r) (y # ys))" using s(1) by (metis sorted_sort_key)
  moreover have "r \<in> set (y # ys)" using r arg_cong[OF s(1), of "\<lambda>l. r \<in> set l"] by simp
  ultimately show "crMts r \<le> x" using s(2) by auto
qed


subsection \<open>A check selects what has something to do\<close>

text \<open>A collection has new data exactly when it has steps, and each step has a part that is not ready.\<close>

definition coll_consistent :: "coll_check \<Rightarrow> bool" where
  "coll_consistent c \<longleftrightarrow> (hasNewData c \<longleftrightarrow> startSteps c \<noteq> []) \<and> list_all unready (startSteps c)"

lemma reset_consistent [simp]: "coll_consistent (resetSyncSchemaProps c)"
  by (simp add: coll_consistent_def resetSyncSchemaProps_def)

lemma add_step_consistent: "coll_consistent c \<Longrightarrow> unready st \<Longrightarrow> coll_consistent (add_step st c)"
  by (simp add: coll_consistent_def add_step_def)

lemma add_steps_consistent: "coll_consistent c \<Longrightarrow> list_all unready sts \<Longrightarrow> coll_consistent (fold add_step sts c)"
  by (induction sts arbitrary: c) (simp_all add: add_step_consistent)

lemma unready_fresh [simp]:
  "unready (st\<lparr>currStart := a, currEnd := b, isCurrStepReady := False\<rparr>)"
  "unready (st\<lparr>currStart := a, isCurrStepReady := False\<rparr>)"
  "unready (st\<lparr>isCurrStepReady := False\<rparr>)"
  "unready (st\<lparr>baseStart := a, baseEnd := b, isBaseStepReady := False\<rparr>)"
  by (simp_all add: unready_def)

lemma checkItem_consistent:
  assumes "checkItemNewDataArrObjType env auth c k = (Inr c', k')" "coll_consistent c"
  shows "coll_consistent c'"
  using assms
  by (auto simp: checkItemNewDataArrObjType_def Let_def bind_err_eq_Inr add_step_consistent
      split: if_splits prod.splits)

lemma conf_steps_unready: "conf_steps env c m conf = Inr sts \<Longrightarrow> list_all unready sts"
  by (auto simp: conf_steps_def Let_def bind_err_eq_Inr split: if_splits prod.splits)
    (simp_all add: unready_def, metis unready_def unready_fresh(2))

lemma check_confs_consistent:
  "check_confs env m confs c p = (Inr c', p') \<Longrightarrow> coll_consistent c \<Longrightarrow> coll_consistent c'"
proof (induction confs arbitrary: c p)
  case (Cons conf confs)
  show ?case
  proof (cases "ckInterrupted env p")
    case False
    with Cons.prems(1) obtain sts where "conf_steps env c m conf = Inr sts"
      "check_confs env m confs (fold add_step sts c) (Suc p) = (Inr c', p')"
      by (auto split: sum.splits)
    with Cons.IH Cons.prems(2) conf_steps_unready add_steps_consistent show ?thesis by blast
  qed (use Cons.prems in simp)
qed simp

lemma configurable_consistent:
  "checkNewConfigurablePublicData env c k = (Inr c', k') \<Longrightarrow> coll_consistent c \<Longrightarrow> coll_consistent c'"
  by (auto simp: checkNewConfigurablePublicData_def split: if_splits prod.splits
      dest: check_confs_consistent)

lemma updatable_consistent:
  "check_updatable_coll env c k = (Inr c', k') \<Longrightarrow> coll_consistent c'"
  by (auto simp: check_updatable_coll_def Let_def bind_err_eq_Inr add_step_consistent
      dest: configurable_consistent split: if_splits prod.splits)

lemma over_colls_all:
  assumes "over_colls env P check cs k = (Inr cs', k')"
    and "\<And>c k c' k'. c \<in> set cs \<Longrightarrow> P c \<Longrightarrow> check c k = (Inr c', k') \<Longrightarrow> R c'"
    and "\<And>c. c \<in> set cs \<Longrightarrow> Q c \<Longrightarrow> R c"
    and "list_all Q cs"
  shows "list_all R cs'"
  using assms
proof (induction cs arbitrary: k cs')
  case (Cons c cs)
  show ?case
  proof (cases "ckInterrupted env (clkPolls k)")
    case True
    then show ?thesis using Cons.prems by (auto simp: list_all_iff)
  next
    case False
    then obtain c1 k1 cs1 where c1: "(if P c then check c (k\<lparr>clkPolls := Suc (clkPolls k)\<rparr>)
        else (Inr c, k\<lparr>clkPolls := Suc (clkPolls k)\<rparr>)) = (Inr c1, k1)"
      and rest: "over_colls env P check cs k1 = (Inr cs1, k')" "cs' = c1 # cs1"
      using Cons.prems(1) by (auto simp: bind_err_eq_Inr Let_def split: prod.splits sum.splits)
    have "R c1"
    proof (cases "P c")
      case True
      then show ?thesis using Cons.prems(2)[of c _ c1 k1] c1 by simp
    next
      case False
      then show ?thesis using Cons.prems(3)[of c] Cons.prems(4) c1 by simp
    qed
    moreover have "list_all R cs1"
      by (rule Cons.IH[OF rest(1)]) (use Cons.prems(2-4) in auto)
    ultimately show ?thesis using rest(2) by simp
  qed
qed simp

text \<open>
  A check of the private collections selects exactly collections that have steps, and no step
  without something left to do: what is not selected has nothing to fetch.
\<close>

theorem checkNewData_selects:
  assumes "checkNewData env auth cs k = (Inr cs', k')" "list_all coll_consistent cs"
  shows "list_all (\<lambda>c. startSteps c \<noteq> [] \<and> list_all unready (startSteps c)
    \<and> \<not> csIsPublic (ccSchema c) \<and> \<not> ccHidden c) cs'"
proof -
  obtain cs1 where cs1: "cs' = filterMethodCollMap False cs1" "list_all coll_consistent cs1"
  proof (cases "ckInterrupted env (clkPolls k)")
    case True
    then show thesis using assms that[of cs] by (simp add: checkNewData_def)
  next
    case False
    then obtain cs1 k1 where "checkNewDataArrObjType env auth cs (k\<lparr>clkPolls := Suc (clkPolls k)\<rparr>)
        = (Inr cs1, k1)" "cs' = filterMethodCollMap False cs1"
      using assms(1) by (auto simp: checkNewData_def bind_err_eq_Inr split: prod.splits)
    moreover from this(1) have "list_all coll_consistent cs1"
      unfolding checkNewDataArrObjType_def
      by (rule over_colls_all[where Q = coll_consistent])
        (use assms(2) in \<open>auto intro: checkItem_consistent[OF _ reset_consistent]\<close>)
    ultimately show thesis using that by blast
  qed
  then show ?thesis by (auto simp: filterMethodCollMap_def coll_consistent_def list_all_iff)
qed

text \<open>
  The same holds of the public collections but the candles, whose steps for further pairs are added
  once one pair has new data, even if they are ready (\<open>candles_sticky\<close> below).
\<close>

lemma check_public_consistent:
  assumes "check_public_coll env auths c k = (Inr c', k')" "ccKind c \<noteq> Candles_Coll"
  shows "coll_consistent c'"
  using assms by (auto simp: check_public_coll_def Let_def resetSyncSchemaProps_def[of c]
      dest: configurable_consistent[OF _ reset_consistent[of c, unfolded resetSyncSchemaProps_def]]
      split: if_splits)
    (simp add: coll_consistent_def)

lemma candles_sticky:
  assumes "last_info env c \<lparr>ipColl = ccName c, ipUser = fst auth, ipSubUser = snd auth,
      ipSymbol = Some symbol, ipTimeframe = Some ''1D'', ipDefaultStart = Some firstMts,
      ipCurrMts = Some infoMts\<rparr> = Inr (st, lastElem)"
    and "\<not> unready st" "\<not> wasStartPointChanged env st (Some firstMts)"
    "\<not> shouldFreshSyncBeAdded env (Some 1) st currMts"
  shows "candle_step env auth firstMts currMts infoMts symbol c =
    Inr (if hasNewData c then add_step (st\<lparr>stAuth := Some auth\<rparr>) c else c)"
  using assms by (auto simp: candle_step_def Let_def unready_def)

subsection \<open>A synchronised collection\<close>

lemma last_info_ready:
  assumes "step_info ps rows = Some r" "srBaseReady r" "srCurrReady r"
    and "csIsCandles sc \<or> csIsPublic sc = (ipUser ps = None \<or> \<not> csHasUserField sc)"
  shows "getLastSyncedInfoForCurrColl env sc ps rows main temp =
    Inr (new_step\<lparr>stSymbol := ipSymbol ps, stTimeframe := ipTimeframe ps, stSyncedAt := srSyncedAt r,
           baseStart := getMinStart env (srBaseStart r), baseEnd := srBaseEnd r,
           currStart := srCurrStart r, currEnd := srCurrEnd r,
           isBaseStepReady := True, isCurrStepReady := True\<rparr>,
         or_else (jsMax env [Option.bind temp (elem_mts sc ps (csOrder sc)), elem_mts sc ps (csOrder sc) main])
           (getMinStart env (ipDefaultStart ps)))"
  using assms by (auto simp: getLastSyncedInfoForCurrColl_def Let_def new_step_def)

definition private_params ::
  "check_env \<Rightarrow> coll_check \<Rightarrow> int option \<times> int option \<Rightarrow> check_clock \<Rightarrow> info_params" where
  "private_params env c auth k = \<lparr>ipColl = ccName c, ipUser = fst auth, ipSubUser = snd auth,
     ipSymbol = None, ipTimeframe = None, ipDefaultStart = Some (MIN_START_MTS env),
     ipCurrMts = Some (ckNow env (Suc (clkNow k)))\<rparr>"

definition stored_rows :: "check_env \<Rightarrow> coll_check \<Rightarrow> info_params \<Rightarrow> coll_row list" where
  "stored_rows env c ps = filter (row_matches (ccSchema c) ps)
     (mainRows env (ccName c) @ nullish (tempRows env (ccName c)) [])"

lemma newest_of_tables:
  assumes "extremes (step_env.truncate env)" "csHasDateField (ccSchema c)" "csOrder (ccSchema c) < 0"
    and "stored_rows env c ps \<noteq> []"
  obtains x where "jsMax env [Option.bind (tempRows env (ccName c)) (elem_mts (ccSchema c) ps (csOrder (ccSchema c))),
      elem_mts (ccSchema c) ps (csOrder (ccSchema c)) (mainRows env (ccName c))] = Some x"
    "list_all (\<lambda>r. crMts r \<le> x) (stored_rows env c ps)" "x \<in> crMts ` set (stored_rows env c ps)"
proof -
  let ?e = "elem_mts (ccSchema c) ps (csOrder (ccSchema c))"
  let ?temp = "nullish (tempRows env (ccName c)) []" and ?main = "mainRows env (ccName c)"
  have nil: "?e [] = None" using assms(2) by (simp add: elem_mts_def)
  have t: "Option.bind (tempRows env (ccName c)) ?e = ?e ?temp"
    by (cases "tempRows env (ccName c)") (simp_all add: nil)
  note n = elem_mts_newest[OF assms(2,3), of ps]
  have mem: "y \<in> crMts ` set (filter (row_matches (ccSchema c) ps) rows)" if "?e rows = Some y" for y rows
  proof -
    have "\<exists>r rs. sort_key (\<lambda>r. - crMts r) (filter (row_matches (ccSchema c) ps) rows) = r # rs \<and> y = crMts r"
      using that assms(2,3) by (auto simp: elem_mts_def split: list.splits)
    then show ?thesis by (metis image_eqI list.set_intros(1) set_sort)
  qed
  have max: "jsMax env [a, b] = (case a of None \<Rightarrow> b | Some x \<Rightarrow>
        (case b of None \<Rightarrow> a | Some y \<Rightarrow> Some (max x y)))" for a b
    using assms(1) by (simp add: extremes_def step_env.truncate_def)
  have some: "?e ?temp \<noteq> None \<or> ?e ?main \<noteq> None"
    using assms(4) n(1) by (auto simp: stored_rows_def)
  then obtain x where x: "jsMax env [?e ?temp, ?e ?main] = Some x"
    by (cases "?e ?temp"; cases "?e ?main") (auto simp: max)
  show thesis
  proof (rule that[of x])
    show "jsMax env [Option.bind (tempRows env (ccName c)) ?e, ?e ?main] = Some x" using x t by simp
    have "crMts r \<le> x" if r: "r \<in> set (stored_rows env c ps)" for r
    proof -
      from r consider "r \<in> set ?temp" "row_matches (ccSchema c) ps r"
        | "r \<in> set ?main" "row_matches (ccSchema c) ps r" by (auto simp: stored_rows_def)
      then show ?thesis
      proof cases
        case 1
        then obtain y where "?e ?temp = Some y" "crMts r \<le> y"
          using n(1)[of ?temp] n(2)[of ?temp _ r] by (cases "?e ?temp") (auto simp: filter_empty_conv)
        then show ?thesis using x by (auto simp: max split: option.splits)
      next
        case 2
        then obtain y where "?e ?main = Some y" "crMts r \<le> y"
          using n(1)[of ?main] n(2)[of ?main _ r] by (cases "?e ?main") (auto simp: filter_empty_conv)
        then show ?thesis using x by (auto simp: max split: option.splits)
      qed
    qed
    then show "list_all (\<lambda>r. crMts r \<le> x) (stored_rows env c ps)" by (simp add: list_all_iff)
    have "?e ?temp = Some x \<or> ?e ?main = Some x"
      using x by (auto simp: max max_def split: option.splits if_splits)
    then show "x \<in> crMts ` set (stored_rows env c ps)"
      using mem[of ?temp x] mem[of ?main x] by (auto simp: stored_rows_def)
  qed
qed

text \<open>
  C12: a private collection whose two parts were marked as synchronised gets exactly one step, that
  fetches from its newest row, of the table or of the temporary one, to now: no row that is stored
  is newer than the start of the step, so nothing between is left out. Only a clock within an hour
  of 1970 would suppress the step.
\<close>

theorem synced_collection_gets_fresh_step:
  assumes "checkItemNewDataArrObjType env auth (resetSyncSchemaProps c) k = (Inr c', k')"
    and "step_info (private_params env c auth k) (stepRows env) = Some r" "srBaseReady r" "srCurrReady r"
    and "\<not> ckInterrupted env (clkPolls k)"
    and "diffMinutes env (ckNow env (clkNow k)) 0 > 60"
    and "extremes (step_env.truncate env)"
    and "csHasDateField (ccSchema c)" "csOrder (ccSchema c) < 0"
    and "stored_rows env c (private_params env c auth k) \<noteq> []"
  shows "\<exists>st x. startSteps c' = [st] \<and> currStart st = Some x
    \<and> currEnd st = Some (ckNow env (clkNow k)) \<and> isBaseStepReady st \<and> \<not> isCurrStepReady st
    \<and> list_all (\<lambda>r. crMts r \<le> x) (stored_rows env c (private_params env c auth k))
    \<and> x \<in> crMts ` set (stored_rows env c (private_params env c auth k))"
proof -
  let ?c = "resetSyncSchemaProps c" and ?ps = "private_params env c auth k"
  have c: "ccSchema ?c = ccSchema c" "ccName ?c = ccName c" "startSteps ?c = []"
    by (simp_all add: resetSyncSchemaProps_def)
  obtain x where x: "jsMax env [Option.bind (tempRows env (ccName c)) (elem_mts (ccSchema c) ?ps (csOrder (ccSchema c))),
      elem_mts (ccSchema c) ?ps (csOrder (ccSchema c)) (mainRows env (ccName c))] = Some x"
    "list_all (\<lambda>r. crMts r \<le> x) (stored_rows env c ?ps)" "x \<in> crMts ` set (stored_rows env c ?ps)"
    using newest_of_tables[OF assms(7-10)] by blast
  from assms(1,5) obtain st lastElem where info: "last_info env ?c ?ps = Inr (st, lastElem)"
    and c': "c' = (let c1 = (if unready st then add_step st ?c else ?c)
      in if shouldFreshSyncBeAdded env None st (ckNow env (clkNow k))
         then add_step ((step_with_params st)\<lparr>currStart := lastElem,
                currEnd := Some (ckNow env (clkNow k)), isCurrStepReady := False\<rparr>) c1 else c1)"
    by (auto simp: checkItemNewDataArrObjType_def Let_def bind_err_eq_Inr private_params_def c
        split: prod.splits if_splits)
  have "csIsCandles (ccSchema c) \<or> csIsPublic (ccSchema c) = (ipUser ?ps = None \<or> \<not> csHasUserField (ccSchema c))"
    using info by (auto simp: last_info_def getLastSyncedInfoForCurrColl_def Let_def c split: if_splits)
  from last_info_ready[OF assms(2-4) this, of env "mainRows env (ccName c)" "tempRows env (ccName c)"]
  have st: "isBaseStepReady st" "isCurrStepReady st" "lastElem = Some x"
    using info x(1) by (auto simp: last_info_def c or_else_def)
  then have "shouldFreshSyncBeAdded env None st (ckNow env (clkNow k))"
    using assms(6) by (simp add: shouldFreshSyncBeAdded_def)
  then have "startSteps c' = [(step_with_params st)\<lparr>currStart := lastElem,
      currEnd := Some (ckNow env (clkNow k)), isCurrStepReady := False\<rparr>]"
    using c' st(1,2) c(3) by (simp add: unready_def add_step_def Let_def)
  then show ?thesis using st x(2,3) by (auto simp: step_with_params_def)
qed


subsection \<open>Samples\<close>

definition least :: "int option list \<Rightarrow> int option" where
  "least xs = foldr (\<lambda>a b. case a of None \<Rightarrow> b | Some x \<Rightarrow> (case b of None \<Rightarrow> Some x | Some y \<Rightarrow> Some (min x y))) xs None"

definition greatest :: "int option list \<Rightarrow> int option" where
  "greatest xs = foldr (\<lambda>a b. case a of None \<Rightarrow> b | Some x \<Rightarrow> (case b of None \<Rightarrow> Some x | Some y \<Rightarrow> Some (max x y))) xs None"

definition synced_update :: step_update where
  "synced_update = \<lparr>upColl = ''_getLedgers'', upUser = Some 1, upSubUser = None,
     upStep = Some (new_step\<lparr>baseStart := Some 10, baseEnd := Some 900\<rparr>), upSyncedAt = Some 5000000,
     upBaseReady = True, upCurrReady = True\<rparr>"

definition sample_check_env :: check_env where
  "sample_check_env = step_env.extend \<lparr>MIN_START_MTS = 0, jsMin = least, jsMax = greatest\<rparr>
     \<lparr>ckNow = (\<lambda>k. 9000000 + int k), ckInterrupted = (\<lambda>_. False),
      diffMinutes = (\<lambda>a b. (a - b) div 60000), yearOf = (\<lambda>_. 1970), dayOfYear = (\<lambda>_. 1),
      fiveDaysBefore = (\<lambda>x. x), stepRows = [write_step (Some 1) synced_update (empty_row synced_update)],
      mainRows = (\<lambda>_. [\<lparr>crUser = Some 1, crSubUser = None, crSymbol = None, crTimeframe = None, crMts = 700\<rparr>,
                      \<lparr>crUser = Some 1, crSubUser = None, crSymbol = None, crTimeframe = None, crMts = 900\<rparr>,
                      \<lparr>crUser = Some 2, crSubUser = None, crSymbol = None, crTimeframe = None, crMts = 950\<rparr>]),
      tempRows = (\<lambda>_. None), publicConfs = (\<lambda>_. []), firstMainLedger = (\<lambda>_. None),
      firstTempLedger = (\<lambda>_. None), mainLedgerCurrencies = (\<lambda>_. [Some ''UST'']),
      tempLedgerCurrencies = (\<lambda>_. []),
      currenciesSynonymous = [(''UST'', [''USDT'', ''USDt'', ''TETHER''])], FOREX_SYMBS = [''USD'']\<rparr>"

definition sample_coll :: coll_check where
  "sample_coll = \<lparr>ccName = ''_getLedgers'', ccKind = Plain_Coll,
     ccSchema = \<lparr>csIsCandles = False, csIsPublic = False, csIsUpdatable = False,
       csHasDateField = True, csOrder = -1, csHasUserField = True, csHasSubUserField = True,
       csHasSymbolField = False, csHasTimeframeField = False\<rparr>,
     ccInsertable = True, ccHidden = False, ccConf = '''', hasNewData = False, startSteps = []\<rparr>"

definition sample_clock :: check_clock where
  "sample_clock = \<lparr>clkNow = 0, clkPolls = 0\<rparr>"

lemma sample_extremes: "extremes (step_env.truncate sample_check_env)"
  by (auto simp: extremes_def sample_check_env_def step_env.defs least_def greatest_def split: option.split)

lemma step_update_roundtrip_witness:
  "step_info (private_params sample_check_env sample_coll (Some 1, None) sample_clock)
     [write_step (Some 1) synced_update (empty_row synced_update)] =
   Some (write_step (Some 1) synced_update (empty_row synced_update))"
  using step_update_roundtrip[of "Some 1" synced_update "[]"
      "[write_step (Some 1) synced_update (empty_row synced_update)]"
      "private_params sample_check_env sample_coll (Some 1, None) sample_clock"]
  by (simp add: updateOrInsertSyncInfoForCurrColl_def one_row_per_key_def private_params_def
      synced_update_def sample_coll_def step_info_def[of _ "[]"])

definition sample_checked :: coll_check where
  "sample_checked = (case fst (checkItemNewDataArrObjType sample_check_env (Some 1, None)
      (resetSyncSchemaProps sample_coll) sample_clock) of Inr c \<Rightarrow> c | Inl e \<Rightarrow> sample_coll)"

lemma synced_collection_gets_fresh_step_witness:
  "\<exists>st. startSteps sample_checked = [st] \<and> currStart st \<noteq> None \<and> currEnd st = Some 9000000"
proof -
  let ?k = "snd (checkItemNewDataArrObjType sample_check_env (Some 1, None)
      (resetSyncSchemaProps sample_coll) sample_clock)"
  have "checkItemNewDataArrObjType sample_check_env (Some 1, None) (resetSyncSchemaProps sample_coll)
      sample_clock = (Inr sample_checked, ?k)"
    unfolding sample_checked_def by code_simp
  from synced_collection_gets_fresh_step[OF this, of "write_step (Some 1) synced_update (empty_row synced_update)"]
  show ?thesis
    using sample_extremes
    by (auto simp: sample_check_env_def step_env.defs sample_coll_def sample_clock_def
        private_params_def synced_update_def write_step_def empty_row_def new_step_def step_info_def
        stored_rows_def row_matches_def)
qed

lemma checkNewData_selects_witness:
  "list_all (\<lambda>c. startSteps c \<noteq> [])
     (case fst (checkNewData sample_check_env (Some 1, None) [sample_coll] sample_clock) of
        Inr cs \<Rightarrow> cs | Inl e \<Rightarrow> [])"
proof -
  obtain cs where "fst (checkNewData sample_check_env (Some 1, None) [sample_coll] sample_clock) = Inr cs"
    by (cases "fst (checkNewData sample_check_env (Some 1, None) [sample_coll] sample_clock)") (code_simp, blast)
  then show ?thesis
    using checkNewData_selects[of sample_check_env "(Some 1, None)" "[sample_coll]" sample_clock cs
        "snd (checkNewData sample_check_env (Some 1, None) [sample_coll] sample_clock)"]
    by (simp add: sample_coll_def coll_consistent_def prod_eq_iff list_all_iff)
qed

text \<open>Of the synonyms of a currency only the first is added, so the candles of the others are not fetched.\<close>

lemma synonyms_lost:
  "getUniqueSymbsFromLedgers sample_check_env None = [''UST'', ''USDT'']"
  by code_simp

text \<open>
  The fresh step of a private collection takes over the base range of the step before it: while that
  is not done, both steps are due to fetch it.
\<close>

lemma fresh_step_repeats_base:
  "shouldBaseStepBeSynced no_opts ((step_with_params st)\<lparr>currStart := a, currEnd := b, isCurrStepReady := False\<rparr>)
    = shouldBaseStepBeSynced no_opts st"
  by (simp add: shouldBaseStepBeSynced_def no_opts_def hasBaseStep_def step_with_params_def)
end
