(* ===== verification/Sync_Inserter_Props.thy ===== *)
theory Sync_Inserter_Props
  imports Sync_Inserter Sync_Checker_Props Sync_Progress
begin

text \<open>
  Properties of a job: nothing but its last transaction touches the main tables, and that moves all
  rows at once; the progress it reports lies between 0 and 100; an uninterrupted step of an honest
  API leaves all items of its ranges in the temporary table. The first two are one induction over
  the job, done in the locale of what every part of a job keeps.
\<close>

subsection \<open>Fail or go on\<close>

lemma bind_err_Inr [simp]: "bind_err (Inr x) f = f x" by simp

lemma ins_poll_simps [simp]:
  "insMain (snd (ins_poll env s)) = insMain s" "insProgress (snd (ins_poll env s)) = insProgress s"
  "insTemp (snd (ins_poll env s)) = insTemp s" "insSteps (snd (ins_poll env s)) = insSteps s"
  "insCalls (snd (ins_poll env s)) = insCalls s" "insUsersSynced (snd (ins_poll env s)) = insUsersSynced s"
  by (simp_all add: ins_poll_def)

text \<open>
  What a job keeps up to its transaction: a property of the main rows and the reported progress that
  every progress the job may report preserves. The job reports its progress under 100; \<open>ok\<close> is what
  is known of the numbers it computes.
\<close>

locale job_invariant =
  fixes env :: ins_env and I :: "ins_state \<Rightarrow> bool" and ok :: "rat \<Rightarrow> bool"
  assumes frame: "I s \<Longrightarrow> insMain s' = insMain s \<Longrightarrow> insProgress s' = insProgress s \<Longrightarrow> I s'"
    and reported: "I s \<Longrightarrow> ok p \<Longrightarrow> p < 100 \<Longrightarrow> I (ins_setProgress (Progress_Percent p) s)"
    and unauthorised: "I s \<Longrightarrow> I (ins_setProgress MESS_ERR_UNAUTH s)"
    and ok_zero: "ok 0"
    and ok_user: "ok (fl env (fl env (of_nat c / of_nat n) * 100))"
    and ok_private: "ok u \<Longrightarrow> ok (math_round (fl env
        (fl env (fl env (fl env (of_nat c / of_nat n) * 100) / of_nat k) + u)))"
    and ok_public: "ok prev \<Longrightarrow> c \<le> n \<Longrightarrow> ok (math_round (fl env (prev +
        fl env (fl env (fl env (of_nat c / of_nat n) * 100) * fl env (fl env (100 - prev) / 100)))))"
begin

lemma poll_keeps: "ins_poll env s = (b, s') \<Longrightarrow> I s \<Longrightarrow> I s'"
  by (rule frame[of s]) (auto simp: ins_poll_def)

lemma write_keeps: "write_steps env up s = Inr s' \<Longrightarrow> I s \<Longrightarrow> I s'"
  by (rule frame[of s]) (auto simp: write_steps_def split: sum.splits)

lemma fetch_keeps: "fetch_range env c st a x y s = Inr s' \<Longrightarrow> I s \<Longrightarrow> I s'"
  by (rule frame[of s]) (auto simp: fetch_range_def insert_rows_def ins_poll_def Let_def
      split: if_splits option.splits)

lemma update_keeps: "I s \<Longrightarrow> I (update_rows env c st b s)"
  by (rule frame[of s]) (auto simp: update_rows_def insert_rows_def ins_poll_def Let_def split: option.splits)

lemma both_keeps: "I s \<Longrightarrow> I (update_both env c st s)"
  by (simp add: update_both_def update_keeps)

lemma insertApiData_keeps:
  assumes "insertApiData env c a st s = Inr (st', s')" "I s"
  shows "I s'"
proof -
  obtain stop s1 where p: "ins_poll env s = (stop, s1)" by fastforce
  have "I s1" by (rule poll_keeps[OF p assms(2)])
  with assms(1) p show ?thesis
    by (auto simp: insertApiData_def Let_def bind_err_eq_Inr split: prod.splits if_splits
        dest: write_keeps fetch_keeps)
qed

lemma updateApiData_keeps:
  assumes "updateApiData env c st s = Inr (st', s')" "I s"
  shows "I s'"
proof -
  obtain stop s1 where p: "ins_poll env s = (stop, s1)" by fastforce
  have "I s1" by (rule poll_keeps[OF p assms(2)])
  with assms(1) p show ?thesis
    by (auto simp: updateApiData_def Let_def bind_err_eq_Inr split: prod.splits if_splits
        dest: write_keeps intro: both_keeps)
qed

lemma each_step_keeps:
  assumes "each_step f sts s = Inr (sts', s')" "I s"
    and "\<And>st s st' s'. f st s = Inr (st', s') \<Longrightarrow> I s \<Longrightarrow> I s'"
  shows "I s'"
  using assms(1,2)
proof (induction sts arbitrary: s sts')
  case (Cons st sts)
  then obtain st1 s1 sts1 where "f st s = Inr (st1, s1)" "each_step f sts s1 = Inr (sts1, s')"
    by (auto simp: bind_err_eq_Inr)
  with Cons.IH Cons.prems(2) assms(3) show ?case by blast
qed simp

lemma private_colls_keeps:
  assumes "private_colls env a u c p passed cs s = Inr ((p', cs'), s')" "I s" "ok u" "ok p"
  shows "I s' \<and> ok p'"
  using assms(1,2,4)
proof (induction cs arbitrary: c p passed s)
  case (Cons x xs)
  obtain stop s1 where poll: "ins_poll env s = (stop, s1)" by fastforce
  have "I s1" by (rule poll_keeps[OF poll Cons.prems(2)])
  show ?case
  proof (cases stop)
    case True
    then show ?thesis using Cons.prems(1) poll \<open>I s1\<close> assms(3) by simp
  next
    case False
    then obtain sts s2 where e: "each_step (insertApiData env x (Some a)) (startSteps x) s1 = Inr (sts, s2)"
      using Cons.prems(1) poll by (auto simp: bind_err_eq_Inr)
    have "I s2" by (rule each_step_keeps[OF e \<open>I s1\<close> insertApiData_keeps])
    let ?p = "math_round (fl env (fl env (fl env (fl env (of_nat (Suc c) / of_nat (length (insColls env))) * 100)
        / of_nat (length (insUsersSynced s))) + u))"
    have okp: "ok ?p" by (rule ok_private[OF assms(3)])
    let ?s3 = "if ?p < 100 then ins_setProgress (Progress_Percent ?p) s2 else s2"
    have "I ?s3" using reported[OF \<open>I s2\<close> okp] \<open>I s2\<close> by simp
    moreover have "private_colls env a u (Suc c) ?p (passed @ [x\<lparr>startSteps := sts\<rparr>]) xs ?s3 = Inr ((p', cs'), s')"
      using Cons.prems(1) poll False e by (simp add: Let_def)
    ultimately show ?thesis using Cons.IH okp by blast
  qed
qed simp

lemma insertNewDataToDb_keeps:
  assumes "insertNewDataToDb env a u s = Inr ((p, cs), s')" "I s" "ok u"
  shows "I s' \<and> ok p"
proof -
  obtain stop s1 where poll: "ins_poll env s = (stop, s1)" by fastforce
  have s1: "I s1" by (rule poll_keeps[OF poll assms(2)])
  then have "I (s1\<lparr>insClock := k\<rparr>)" for k by (rule frame) simp_all
  with assms s1 poll unauthorised[OF s1] show ?thesis
    by (auto simp: insertNewDataToDb_def split: if_splits prod.splits sum.splits
        dest!: private_colls_keeps intro: ok_zero)
qed

lemma public_step_keeps:
  assumes "public_step env c st s = Inr (st', s')" "I s"
  shows "I s'"
  using assms
  by (auto simp: public_step_def bind_err_eq_Inr split: if_splits
      dest: insertApiData_keeps updateApiData_keeps)

lemma public_colls_keeps:
  assumes "public_colls env prev n c passed cs s = Inr (cs', s')" "I s" "ok prev" "c + length cs \<le> n"
  shows "I s'"
  using assms(1,2,4)
proof (induction cs arbitrary: c passed s)
  case (Cons x xs)
  obtain stop s1 where poll: "ins_poll env s = (stop, s1)" by fastforce
  have "I s1" by (rule poll_keeps[OF poll Cons.prems(2)])
  show ?case
  proof (cases stop)
    case True
    then show ?thesis using Cons.prems(1) poll \<open>I s1\<close> by simp
  next
    case False
    let ?s2 = "if ccKind x = Candles_Coll
      then s1\<lparr>insCandlesLeft := Some (6000 * int (length (startSteps x)))\<rparr> else s1"
    obtain sts s3 where e: "each_step (public_step env x) (startSteps x) ?s2 = Inr (sts, s3)"
      using Cons.prems(1) poll False by (auto simp: bind_err_eq_Inr Let_def)
    have "I ?s2" using \<open>I s1\<close> by (auto intro: frame)
    have "I s3" by (rule each_step_keeps[OF e \<open>I ?s2\<close> public_step_keeps])
    let ?p = "math_round (fl env (prev + fl env (fl env (fl env (of_nat (Suc c) / of_nat n) * 100)
        * fl env (fl env (100 - prev) / 100))))"
    have "ok ?p" by (rule ok_public[OF assms(3)]) (use Cons.prems(3) in simp)
    let ?s4 = "if ?p < 100 then ins_setProgress (Progress_Percent ?p) s3 else s3"
    have "I ?s4" using reported[OF \<open>I s3\<close> \<open>ok ?p\<close>] \<open>I s3\<close> by simp
    moreover have "public_colls env prev n (Suc c) (passed @ [x\<lparr>startSteps := sts\<rparr>]) xs ?s4 = Inr (cs', s')"
      using Cons.prems(1) poll False e by (simp add: Let_def)
    ultimately show ?thesis using Cons.IH Cons.prems(3) by auto
  qed
qed simp

lemma insertNewPublicDataToDb_keeps:
  assumes "insertNewPublicDataToDb env auths prev s = Inr (cs, s')" "I s" "ok prev"
  shows "I s'"
proof -
  obtain stop s1 where poll: "ins_poll env s = (stop, s1)" by fastforce
  have s1: "I s1" by (rule poll_keeps[OF poll assms(2)])
  then have "I (s1\<lparr>insClock := k\<rparr>)" for k by (rule frame) simp_all
  with assms(1,3) s1 poll show ?thesis
    by (auto simp: insertNewPublicDataToDb_def split: if_splits prod.splits sum.splits
        intro: public_colls_keeps)
qed

lemma private_users_keeps:
  assumes "private_users env n c p synced as s = Inr (r, s')" "I s" "ok p"
  shows "I s' \<and> (\<forall>sy p'. r = Some (sy, p') \<longrightarrow> ok p')"
  using assms
proof (induction as arbitrary: c p synced s)
  case (Cons a as)
  obtain stop s1 where poll: "ins_poll env s = (stop, s1)" by fastforce
  have s1: "I s1" by (rule poll_keeps[OF poll Cons.prems(2)])
  show ?case
  proof (cases stop)
    case True
    then show ?thesis using Cons.prems(1) poll s1 by simp
  next
    case False
    then obtain p1 cs s2 where 1: "insertNewDataToDb env a (fl env (fl env (of_nat c / of_nat n) * 100)) s1
        = Inr ((p1, cs), s2)"
      "private_users env n (Suc c) p1 (synced @ [(a, cs)]) as s2 = Inr (r, s')"
      using Cons.prems(1) poll by (auto simp: bind_err_eq_Inr)
    from insertNewDataToDb_keeps[OF 1(1) s1 ok_user] Cons.IH[OF 1(2)] show ?thesis by blast
  qed
qed auto

text \<open>Up to the hooks and the transaction the invariant is kept.\<close>

lemma job_before_move:
  assumes "insertNewDataToDbMultiUser env auths s = Inr s'" "I s"
  shows "I s' \<or> (\<exists>synced pub s3 s4. I s3 \<and> afterAllInserts env synced pub s3 = Inr s4
    \<and> (s' = snd (ins_poll env s4)
       \<or> s' = ins_setProgress (Progress_Percent 100) (snd (ins_poll env s4))))"
proof -
  obtain stop s1 where poll: "ins_poll env s = (stop, s1)" by fastforce
  have s1: "I s1" by (rule poll_keeps[OF poll assms(2)])
  show ?thesis
  proof (cases "stop \<or> auths = []")
    case True
    then show ?thesis using assms(1) poll s1 unauthorised[OF s1]
      by (auto simp: insertNewDataToDbMultiUser_def split: if_splits)
  next
    case False
    let ?s1 = "s1\<lparr>insUsersSynced := map (auUser \<circ> snd) auths\<rparr>"
    have "I ?s1" using s1 by (rule frame) simp_all
    from False assms(1) poll obtain r s2 where users:
      "private_users env (length auths) 0 0 [] (map snd auths) ?s1 = Inr (r, s2)"
      by (auto simp: insertNewDataToDbMultiUser_def bind_err_eq_Inr)
    note k = private_users_keeps[OF users \<open>I ?s1\<close> ok_zero]
    show ?thesis
    proof (cases r)
      case None
      then show ?thesis using False assms(1) poll users k
        by (simp add: insertNewDataToDbMultiUser_def)
    next
      case (Some sp)
      obtain synced progress where sp: "sp = (synced, progress)" by fastforce
      from False assms(1) poll users Some sp obtain pub s3 s4 where
        pub: "insertNewPublicDataToDb env (map (\<lambda>(n, a). (auUser a, auSubUser a)) auths) progress s2 = Inr (pub, s3)"
        and after: "afterAllInserts env synced pub s3 = Inr s4"
        and s': "(case ins_poll env s4 of (stop', s5) \<Rightarrow>
          Inr (if stop' then s5 else ins_setProgress (Progress_Percent 100) s5)) = (Inr s' :: ins_fail + ins_state)"
        by (auto simp: insertNewDataToDbMultiUser_def bind_err_eq_Inr Let_def)
      have "I s3" using insertNewPublicDataToDb_keeps[OF pub] k Some sp by blast
      moreover have "s' = snd (ins_poll env s4)
          \<or> s' = ins_setProgress (Progress_Percent 100) (snd (ins_poll env s4))"
        using s' by (cases "ins_poll env s4") (auto split: if_splits)
      ultimately show ?thesis using after by blast
    qed
  qed
qed

end


subsection \<open>The main tables\<close>

lemma run_hooks_frame:
  "run_hooks env hs s = (b, s') \<Longrightarrow> insMain s' = insMain s \<and> insProgress s' = insProgress s"
proof (induction hs arbitrary: s)
  case (Cons h hs)
  obtain stop s1 where p: "ins_poll env s = (stop, s1)" by fastforce
  then have "insMain s1 = insMain s" "insProgress s1 = insProgress s"
    using ins_poll_simps(1,2)[of env s] by simp_all
  then show ?case
    using Cons.prems Cons.IH[of "s1\<lparr>insTemp := h (insTemp s1)\<rparr>"] p by (cases stop) auto
qed simp

lemma write_all_frame:
  "write_all env us s = Inr s' \<Longrightarrow> insMain s' = insMain s \<and> insProgress s' = insProgress s
    \<and> insTemp s' = insTemp s"
proof (induction us arbitrary: s)
  case (Cons u us)
  obtain s1 where "write_steps env u s = Inr s1" "write_all env us s1 = Inr s'"
    using Cons.prems by (auto simp: bind_err_eq_Inr)
  with Cons.IH[of s1] show ?case by (auto simp: write_steps_def split: sum.splits)
qed simp

lemma afterAllInserts_main:
  assumes "afterAllInserts env synced pub s = Inr s'"
  shows "insProgress s' = insProgress s \<and> (insMain s' = insMain s
    \<or> (\<exists>rows. insMain s' = insMain s @ rows \<and> insTemp s' = []))"
proof -
  obtain stop s1 where p: "ins_poll env s = (stop, s1)" by fastforce
  have f: "insMain s1 = insMain s" "insProgress s1 = insProgress s"
    using ins_poll_simps(1,2)[of env s] p by simp_all
  obtain b s2 where h: "run_hooks env (insHooks env) s1 = (b, s2)" by fastforce
  note hf = run_hooks_frame[OF h]
  show ?thesis
  proof (cases "stop \<or> insHooks env = [] \<or> \<not> b")
    case True
    then show ?thesis using assms p f hf h by (auto simp: afterAllInserts_def split: if_splits)
  next
    case False
    then have "updateSyncInfo env synced pub s2 = Inr s'" using assms p h by (simp add: afterAllInserts_def)
    then obtain us s3 where w: "write_all env us (s2\<lparr>insMain := insMain s2 @ insTemp s2,
        insClock := (insClock s2)\<lparr>clkNow := Suc (clkNow (insClock s2))\<rparr>\<rparr>) = Inr s3"
      "s' = setUserSyncState env (s3\<lparr>insTemp := []\<rparr>)"
      by (auto simp: updateSyncInfo_def Let_def bind_err_eq_Inr)
    have "insMain s3 = insMain s @ insTemp s2" "insProgress s3 = insProgress s"
      using write_all_frame[OF w(1)] hf f by simp_all
    then show ?thesis using w(2) by (simp add: setUserSyncState_def)
  qed
qed

interpretation main_rows: job_invariant env "\<lambda>s. insMain s = m" "\<lambda>_. True" for env m
  by unfold_locales (auto simp: ins_setProgress_def)


subsection \<open>The reported progress\<close>

definition progress_in_range :: "ins_state \<Rightarrow> bool" where
  "progress_in_range s \<longleftrightarrow> list_all (\<lambda>p. case p of Progress_Percent x \<Rightarrow> 0 \<le> x \<and> x \<le> 100
     | MESS_ERR_UNAUTH \<Rightarrow> True) (insProgress s)"

lemma math_round_nonneg: "0 \<le> x \<Longrightarrow> 0 \<le> math_round x"
  by (simp add: math_round_def)

text \<open>Without rounding of the divisions.\<close>

definition exact_env :: "ins_env \<Rightarrow> bool" where
  "exact_env env \<longleftrightarrow> (\<forall>x. fl env x = x)"

lemma public_share_nonneg:
  fixes prev :: rat
  assumes "0 \<le> prev" "c \<le> n"
  shows "0 \<le> prev + of_nat c / of_nat n * 100 * ((100 - prev) / 100)"
proof -
  let ?q = "of_nat c / of_nat n :: rat"
  have "0 \<le> ?q" "?q \<le> 1" using assms(2) by (cases "n = 0"; simp add: divide_le_eq_1)+
  then have "0 \<le> prev * (1 - ?q) + 100 * ?q" using assms(1) by simp
  also have "\<dots> = prev + ?q * 100 * ((100 - prev) / 100)"
  proof -
    have "prev * (1 - q) + 100 * q = prev + q * 100 * ((100 - prev) / 100)" for q
      by (simp add: field_simps)
    then show ?thesis .
  qed
  finally show ?thesis .
qed

lemma progress_invariant:
  assumes "exact_env env"
  shows "job_invariant env progress_in_range (\<lambda>p. 0 \<le> p)"
  using assms public_share_nonneg
  by unfold_locales (auto simp: progress_in_range_def ins_setProgress_def exact_env_def
      intro!: math_round_nonneg)

text \<open>
  Every progress a job reports lies between 0 and 100.
\<close>

theorem job_progress_bounds:
  assumes "insertNewDataToDbMultiUser env auths s = Inr s'" "exact_env env" "progress_in_range s"
  shows "progress_in_range s'"
  using job_invariant.job_before_move[OF progress_invariant[OF assms(2)] assms(1,3)]
  by (auto simp: progress_in_range_def ins_setProgress_def dest!: afterAllInserts_main)


subsection \<open>A step fetches its ranges\<close>

text \<open>Uninterrupted, for a collection the request may ask for, and with an API that is honest about \<open>src\<close>.\<close>

definition fetching :: "ins_env \<Rightarrow> coll_check \<Rightarrow> auth_entry option \<Rightarrow> api_item set \<Rightarrow> bool" where
  "fetching env c a src \<longleftrightarrow> (\<forall>k. \<not> ckInterrupted (insCheck env) k) \<and> ccInsertable c
     \<and> (if request_is_public a then csIsPublic (ccSchema c) else \<not> csIsPublic (ccSchema c))
     \<and> (\<forall>k st start. honest_api (insApi env k c st a) src start)"

text \<open>An item is in the temporary table, or the limit was reached.\<close>

definition stored :: "ins_env \<Rightarrow> coll_check \<Rightarrow> auth_entry option \<Rightarrow> ins_state \<Rightarrow> api_item \<Rightarrow> bool" where
  "stored env c a s x \<longleftrightarrow> 10000000 \<le> int (length (insTemp s))
     \<or> (\<exists>k st. (collNameOf env (ccName c), row_of_item (insApi env k c st a) x) \<in> set (insTemp s))"

lemma fetch_range_stores:
  assumes "fetching env c a src" "fetch_range env c st a start e s = Inr s'"
    and "nat (e - start) + 3 \<le> insFuel env"
  shows "\<exists>rows. insTemp s' = insTemp s @ rows \<and> insSteps s' = insSteps s
    \<and> (\<forall>x\<in>src. in_range start e x \<longrightarrow> stored env c a s' x)"
proof -
  obtain s1 where p: "ins_poll env s = (False, s1)"
    using assms(1) by (auto simp: ins_poll_def fetching_def)
  then have f: "insTemp s1 = insTemp s" "insSteps s1 = insSteps s" using ins_poll_simps(3,4)[of env s] by simp_all
  let ?pe = "insApi env (insCalls s1) c st a"
  have "honest_api ?pe src start" using assms(1) by (simp add: fetching_def)
  from pages_complete[OF this assms(3), of 10000000] obtain rows where rows:
    "insertApiDataArrObjTypeToDb ?pe (insFuel env) start e 10000000 = Some rows"
    "10000000 \<le> int (length rows) \<or> (\<forall>x\<in>src. in_range start e x \<longrightarrow> row_of_item ?pe x \<in> set rows)"
    by blast
  have s': "s' = insert_rows (collNameOf env (ccName c)) rows (s1\<lparr>insCalls := Suc (insCalls s1)\<rparr>)"
    using assms(1,2) p rows(1) by (auto simp: fetch_range_def fetching_def Let_def split: if_splits)
  have "stored env c a s' x" if "x \<in> src" "in_range start e x" for x
    using rows(2) that s' f by (auto simp: stored_def insert_rows_def)
  then show ?thesis using s' f by (auto simp: insert_rows_def)
qed

lemma stored_mono: "stored env c a s x \<Longrightarrow> insTemp s' = insTemp s @ rows \<Longrightarrow> stored env c a s' x"
  by (auto simp: stored_def)

definition due_range :: "user_step \<Rightarrow> int \<Rightarrow> int \<Rightarrow> bool" where
  "due_range st start e \<longleftrightarrow>
     (shouldBaseStepBeSynced no_opts st \<and> baseStart st = Some start \<and> baseEnd st = Some e)
     \<or> (shouldCurrStepBeSynced no_opts st \<and> currStart st = Some start \<and> currEnd st = Some e)"

text \<open>
  When a step was fetched without interruption, every item the API has in a range that was due
  is in the temporary table (up to the limit of ten million rows), and exactly the ranges that were
  due are marked as fetched.
\<close>

theorem step_fetches_due_ranges:
  assumes "insertApiData env c a st s = Inr (st', s')" "fetching env c a src"
    and "\<And>start e. due_range st start e \<Longrightarrow> nat (e - start) + 3 \<le> insFuel env"
    and "due_range st start e" "x \<in> src" "in_range start e x"
  shows "stored env c a s' x
    \<and> st' = st\<lparr>wasBaseStepsBeSynced := wasBaseStepsBeSynced st \<or> shouldBaseStepBeSynced no_opts st,
               wasCurrStepsBeSynced := wasCurrStepsBeSynced st \<or> shouldCurrStepBeSynced no_opts st\<rparr>"
proof -
  obtain s1 where p: "ins_poll env s = (False, s1)"
    using assms(2) by (auto simp: ins_poll_def fetching_def)
  let ?base = "shouldBaseStepBeSynced no_opts st" and ?curr = "shouldCurrStepBeSynced no_opts st"
  let ?st1 = "if ?base then st\<lparr>wasBaseStepsBeSynced := True\<rparr> else st"
  have same: "shouldCurrStepBeSynced no_opts ?st1 = ?curr" "currStart ?st1 = currStart st" "currEnd ?st1 = currEnd st"
    by (simp_all add: shouldCurrStepBeSynced_def hasCurrStep_def)
  obtain u sub where ids: "(case (if ccKind c = Candles_Coll then stAuth st else None) of
      Some ids \<Rightarrow> ids | None \<Rightarrow> (case a of None \<Rightarrow> (None, None) | Some x \<Rightarrow> (auUser x, auSubUser x))) = (u, sub)"
    by fastforce
  obtain s2 st1 s3 where s3: "(if ?base
      then bind_err (fetch_range env c st a (nullish (baseStart st) 0) (nullish (baseEnd st) 0) s2)
        (\<lambda>s3. Inr (st\<lparr>wasBaseStepsBeSynced := True\<rparr>, s3)) else Inr (st, s2)) = Inr (st1, s3)"
    and last: "(if shouldCurrStepBeSynced no_opts st1
      then bind_err (fetch_range env c st1 a (nullish (currStart st1) 0) (nullish (currEnd st1) 0) s3)
        (\<lambda>s4. Inr (st1\<lparr>wasCurrStepsBeSynced := True\<rparr>, s4)) else Inr (st1, s3)) = Inr (st', s')"
    using assms(1) unfolding insertApiData_def p ids prod.case Let_def if_False
    by (auto simp only: bind_err_eq_Inr prod.case split_paired_Ex)
  have st1: "st1 = ?st1" using s3 by (auto simp: bind_err_eq_Inr split: if_splits)
  have s3: "(if ?base then fetch_range env c st a (nullish (baseStart st) 0) (nullish (baseEnd st) 0) s2
      else Inr s2) = Inr s3" using s3 by (auto simp: bind_err_eq_Inr split: if_splits)
  have s': "(if ?curr then fetch_range env c ?st1 a (nullish (currStart st) 0) (nullish (currEnd st) 0) s3
      else Inr s3) = Inr s'" "st' = (if ?curr then ?st1\<lparr>wasCurrStepsBeSynced := True\<rparr> else ?st1)"
    using last unfolding st1 same by (cases ?curr; auto simp: bind_err_eq_Inr)+
  have range: "nat (nullish b 0 - nullish a' 0) + 3 \<le> insFuel env"
    if "due_range st (nullish a' 0) (nullish b 0)" for a' b
    using assms(3)[OF that] .
  have base: "due_range st (nullish (baseStart st) 0) (nullish (baseEnd st) 0)" if ?base
    using that by (auto simp: due_range_def shouldBaseStepBeSynced_def no_opts_def hasBaseStep_def
        proper_range_def split: option.splits)
  have curr: "due_range st (nullish (currStart st) 0) (nullish (currEnd st) 0)" if ?curr
    using that by (auto simp: due_range_def shouldCurrStepBeSynced_def no_opts_def hasCurrStep_def
        proper_range_def split: option.splits)
  have first: "\<forall>x\<in>src. in_range (nullish (baseStart st) 0) (nullish (baseEnd st) 0) x \<longrightarrow> stored env c a s3 x" if ?base
    using fetch_range_stores[OF assms(2) _ range[OF base[OF that]]] s3 that by fastforce
  obtain rows where "insTemp s' = insTemp s3 @ rows"
  proof (cases ?curr)
    case True
    then show thesis using fetch_range_stores[OF assms(2) _ range[OF curr[OF True]]] s'(1) that by fastforce
  qed (use s'(1) that[of "[]"] in simp)
  note later = stored_mono[OF _ this]
  have second: "\<forall>x\<in>src. in_range (nullish (currStart st) 0) (nullish (currEnd st) 0) x \<longrightarrow> stored env c a s' x" if ?curr
    using fetch_range_stores[OF assms(2) _ range[OF curr[OF that]]] s'(1) that by fastforce
  have "stored env c a s' x"
    using assms(4-6) first second later by (auto simp: due_range_def)
  then show ?thesis using s'(2) by simp
qed

subsection \<open>Samples\<close>

definition sample_ins_env :: ins_env where
  "sample_ins_env = arith.extend exact_arith
     \<lparr>insCheck = sample_check_env, insColls = [sample_coll], insSyncColls = [''_ALL''],
      insQueueId = Some 1, insFuel = 20, insApi = (\<lambda>k c st a. sample_page_env),
      insUpdateApi = (\<lambda>k c st. None), updatesObjects = (\<lambda>_. False), updatesArray = (\<lambda>_. False),
      collNameOf = (\<lambda>m. ''ledgers''), columnsOf = (\<lambda>m r. None), startupUsers = [1],
      insHooks = [\<lambda>rows. rows]\<rparr>"

definition sample_auth :: auth_entry where
  "sample_auth = \<lparr>auUser = Some 1, auSubUser = None, auKeys = True, auKeyStrings = True, auSubKeys = False\<rparr>"

definition sample_ins_state :: ins_state where
  "sample_ins_state = \<lparr>insSteps = [], insTemp = [], insMain = [], insProgress = [],
     insCandlesLeft = None, insClock = sample_clock, insCalls = 0, insUsersSynced = [],
     insStartupDone = []\<rparr>"

definition sample_job :: ins_state where
  "sample_job = (case insertNewDataToDbMultiUser sample_ins_env [(''user'', sample_auth)] sample_ins_state of
     Inr s \<Rightarrow> s | Inl e \<Rightarrow> sample_ins_state)"

lemma sample_job_done:
  "insertNewDataToDbMultiUser sample_ins_env [(''user'', sample_auth)] sample_ins_state = Inr sample_job"
  unfolding sample_job_def by code_simp


lemma job_progress_bounds_witness: "progress_in_range sample_job"
  by (rule job_progress_bounds[OF sample_job_done])
    (simp_all add: exact_env_def sample_ins_env_def exact_arith_def arith.extend_def
      progress_in_range_def sample_ins_state_def)

lemma sample_job_rows:
  "map fst (insMain sample_job) = [''ledgers'', ''ledgers'']"
  unfolding sample_job_def by code_simp

definition sample_step :: user_step where
  "sample_step = new_step\<lparr>baseStart := Some 0, baseEnd := Some 10\<rparr>"

lemma step_fetches_due_ranges_witness:
  "stored sample_ins_env sample_coll (Some sample_auth)
     (case insertApiData sample_ins_env sample_coll (Some sample_auth) sample_step sample_ins_state of
        Inr (st, s) \<Rightarrow> s | Inl e \<Rightarrow> sample_ins_state)
     \<lparr>itTime = Some 5, itFields = [(''mts'', ''5''), (''extra'', ''b'')]\<rparr>"
proof -
  obtain st s where r: "insertApiData sample_ins_env sample_coll (Some sample_auth) sample_step sample_ins_state
      = Inr (st, s)"
    by (cases "insertApiData sample_ins_env sample_coll (Some sample_auth) sample_step sample_ins_state")
      (code_simp, fastforce)
  have due: "due_range sample_step x y \<longleftrightarrow> x = 0 \<and> y = 10" for x y
    by (auto simp: due_range_def sample_step_def new_step_def shouldBaseStepBeSynced_def
        shouldCurrStepBeSynced_def no_opts_def hasBaseStep_def hasCurrStep_def proper_range_def)
  have fetching: "fetching sample_ins_env sample_coll (Some sample_auth) (set sample_items)"
    using sample_honest
    by (simp add: fetching_def sample_ins_env_def arith.extend_def sample_check_env_def step_env.defs
        sample_coll_def sample_auth_def request_is_public_def request_keys_def)
  show ?thesis
    using step_fetches_due_ranges[OF r fetching, of 0 10 "sample_items ! 1"] r
    by (simp add: due sample_ins_env_def arith.extend_def sample_items_def in_range_def)
qed

subsection \<open>Whose keys are used\<close>

lemma auth_fold_owner:
  assumes "list_all (\<lambda>(n, a). auUser a = u) auths" "auUser base = u"
  shows "list_all (\<lambda>(n, a). auUser a = u)
    (fold (\<lambda>(i, n, b). AList.update n (base\<lparr>auSubUser := Some i, auSubKeys := b\<rparr>)) subs auths)"
  using assms(1)
proof (induction subs arbitrary: auths)
  case (Cons x subs)
  obtain i n b where x: "x = (i, n, b)" by (cases x)
  have "list_all (\<lambda>(n, a). auUser a = u) (AList.update n (base\<lparr>auSubUser := Some i, auSubKeys := b\<rparr>) auths)"
    using Cons.prems assms(2) by (induction auths) auto
  then show ?case using Cons.IH x by simp
qed simp

text \<open>
  A job that a user started, and not the scheduler, runs with the keys of this user and of no
  other one.
\<close>

theorem job_uses_owners_keys:
  assumes "\<not> byScheduler" "owner \<noteq> None"
  shows "list_all (\<lambda>(n, a). auUser a = owner) (snd (getAuthFromDb owner byScheduler users))"
proof -
  let ?step = "\<lambda>u (sess, auths).
       if \<not> byScheduler \<and> owner \<noteq> None \<and> owner \<noteq> duId u then (sess, auths)
       else
         let base = \<lparr>auUser = duId u, auSubUser = None, auKeys = duHasKeys u,
               auKeyStrings = duKeyStrings u, auSubKeys = False\<rparr>
         in if \<not> duIsSubAccount u
            then (AList.update (duId u) u sess, AList.update (duName u) base auths)
            else if duSubUsers u = [] then (sess, auths)
            else (AList.update (duId u) u sess,
                  fold (\<lambda>(i, n, b). AList.update n (base\<lparr>auSubUser := Some i, auSubKeys := b\<rparr>))
                    (duSubUsers u) auths)"
  have upd: "list_all (\<lambda>(n, a). auUser a = owner) (AList.update k v xs)"
    if "list_all (\<lambda>(n, a). auUser a = owner) xs" "auUser v = owner" for k v and xs :: "(string, auth_entry) jsmap"
    using that by (induction xs) auto
  have "list_all (\<lambda>(n, a). auUser a = owner) (snd (fold ?step users st))"
    if "list_all (\<lambda>(n, a). auUser a = owner) (snd st)" for st
    using that
  proof (induction users arbitrary: st)
    case (Cons u users)
    obtain sess auths where st: "st = (sess, auths)" by fastforce
    have "list_all (\<lambda>(n, a). auUser a = owner) (snd (?step u st))"
    proof (cases "owner = duId u")
      case True
      have 1: "list_all (\<lambda>(n, a). auUser a = duId u) auths" using Cons.prems st True by simp
      show ?thesis
        using assms 1 upd[unfolded True] auth_fold_owner[OF 1, of "\<lparr>auUser = duId u,
          auSubUser = None, auKeys = duHasKeys u, auKeyStrings = duKeyStrings u, auSubKeys = False\<rparr>"
          "duSubUsers u"] st True by (auto simp: Let_def)
    next
      case False
      then show ?thesis using assms Cons.prems st by simp
    qed
    from Cons.IH[OF this] show ?case by simp
  qed simp
  from this[of "([], [])"] show ?thesis by (simp add: getAuthFromDb_def)
qed

definition sample_users :: "db_user list" where
  "sample_users =
     [\<lparr>duId = Some 1, duName = ''one'', duHasKeys = True, duKeyStrings = True, duIsSubAccount = True,
        duSubUsers = [(11, ''sub'', True)]\<rparr>,
      \<lparr>duId = Some 2, duName = ''two'', duHasKeys = True, duKeyStrings = True, duIsSubAccount = False,
        duSubUsers = []\<rparr>]"

lemma job_uses_owners_keys_witness:
  "list_all (\<lambda>(n, a). auUser a = Some 1) (snd (getAuthFromDb (Some 1) False sample_users))"
  by (rule job_uses_owners_keys) simp_all
end
