(* ===== verification/Js_Value.thy ===== *)
theory Js_Value
  imports Js_Prelude
begin

text \<open>
  The values of the language where the program looks into their shape: filters of queries, rows
  and parameters. An object is the list of its properties in insertion order, an absent property
  reads as \<^verbatim>\<open>undefined\<close>. A number is a \<^typ>\<open>rat\<close>; how the language prints one is a
  parameter (\<open>numStr\<close>) where it matters. A string is a list of characters.
\<close>

datatype jsval =
    VUndef
  | VNull
  | VBool bool
  | VNum rat
  | VStr string
  | VArr "jsval list"
  | VObj "(string \<times> jsval) list"

type_synonym obj = "(string \<times> jsval) list"

definition get :: "obj \<Rightarrow> string \<Rightarrow> jsval" where
  "get ob k = nullish (map_of ob k) VUndef"

text \<open>\<^verbatim>\<open>{ ...a, ...b }\<close>: a property that is there keeps its place and takes the new value.\<close>

definition put :: "obj \<Rightarrow> string \<Rightarrow> jsval \<Rightarrow> obj" where
  "put ob k v = AList.update k v ob"

definition merge_obj :: "obj \<Rightarrow> obj \<Rightarrow> obj" where
  "merge_obj a b = foldl (\<lambda>ob (k, v). put ob k v) a b"

definition omit :: "obj \<Rightarrow> string list \<Rightarrow> obj" where
  "omit ob ks = filter (\<lambda>(k, v). k \<notin> set ks) ob"

text \<open>Truth of a value in a condition.\<close>

fun truthy :: "jsval \<Rightarrow> bool" where
  "truthy VUndef = False"
| "truthy VNull = False"
| "truthy (VBool b) = b"
| "truthy (VNum x) = (x \<noteq> 0)"
| "truthy (VStr s) = (s \<noteq> [])"
| "truthy (VArr xs) = True"
| "truthy (VObj ob) = True"

text \<open>\<^verbatim>\<open>v && typeof v === 'object'\<close>\<close>

fun is_object :: "jsval \<Rightarrow> bool" where
  "is_object (VArr xs) = True"
| "is_object (VObj ob) = True"
| "is_object v = False"

fun is_array :: "jsval \<Rightarrow> bool" where
  "is_array (VArr xs) = True"
| "is_array v = False"

subsection \<open>Numbers as text\<close>

definition digit :: "nat \<Rightarrow> char" where
  "digit d = ''0123456789'' ! d"

fun dec :: "nat \<Rightarrow> string" where
  "dec n = (if n < 10 then [digit n] else dec (n div 10) @ [digit (n mod 10)])"

declare dec.simps [simp del]

lemma digit_inj: "a < 10 \<Longrightarrow> b < 10 \<Longrightarrow> digit a = digit b \<longleftrightarrow> a = b"
  unfolding digit_def by (rule nth_eq_iff_index_eq) simp_all

lemma dec_not_Nil [simp]: "dec n \<noteq> []"
  by (subst dec.simps) simp

lemma dec_small: "n < 10 \<Longrightarrow> dec n = [digit n]"
  by (subst dec.simps) simp

lemma dec_large: "\<not> n < 10 \<Longrightarrow> dec n = dec (n div 10) @ [digit (n mod 10)]"
  by (subst dec.simps) simp

lemma dec_inj: "dec m = dec n \<Longrightarrow> m = n"
proof (induction m arbitrary: n rule: dec.induct)
  case (1 m)
  show ?case
  proof (cases "m < 10")
    case True
    with "1.prems" show ?thesis
      by (cases "n < 10") (simp_all add: dec_small dec_large digit_inj dec_not_Nil[symmetric] del: dec_not_Nil)
  next
    case False
    with "1.prems" have n: "\<not> n < 10"
      using dec_small[of n] dec_large[of m] by (metis append_self_conv2 butlast.simps(2) butlast_snoc dec_not_Nil)
    with False "1.prems" have eq: "dec (m div 10) = dec (n div 10)" "digit (m mod 10) = digit (n mod 10)"
      by (simp_all add: dec_large)
    from "1.IH"[OF False eq(1)] eq(2) have "m div 10 = n div 10" "m mod 10 = n mod 10"
      by (simp_all add: digit_inj)
    then show ?thesis by (metis div_mult_mod_eq)
  qed
qed

lemma dec_eq_iff [simp]: "dec m = dec n \<longleftrightarrow> m = n"
  by (auto dest: dec_inj)

lemma dec_digits: "list_all (\<lambda>c. \<exists>d<10. c = digit d) (dec n)"
proof (induction n rule: dec.induct)
  case (1 n)
  have "n mod 10 < 10" by simp
  then have "\<exists>d<10. digit (n mod 10) = digit d" by blast
  with 1 show ?case by (cases "n < 10") (auto simp: dec_small dec_large)
qed

text \<open>The own properties of a value: an array has its indices as names.\<close>

fun spread :: "jsval \<Rightarrow> obj" where
  "spread (VObj ob) = ob"
| "spread (VArr xs) = map (\<lambda>(i, x). (dec i, x)) (enumerate 0 xs)"
| "spread (VStr s) = map (\<lambda>(i, c). (dec i, VStr [c])) (enumerate 0 s)"
| "spread v = []"

text \<open>The text of a value in a template.\<close>

definition join :: "string \<Rightarrow> string list \<Rightarrow> string" where
  "join sep xs = (case xs of [] \<Rightarrow> [] | y # ys \<Rightarrow> y @ concat (map (\<lambda>z. sep @ z) ys))"

lemma join_simps [simp]:
  "join sep [] = []" "join sep [x] = x" "join sep (x # y # zs) = x @ sep @ join sep (y # zs)"
  by (simp_all add: join_def)

fun to_text :: "(rat \<Rightarrow> string) \<Rightarrow> jsval \<Rightarrow> string" where
  "to_text ns VUndef = ''undefined''"
| "to_text ns VNull = ''null''"
| "to_text ns (VBool b) = (if b then ''true'' else ''false'')"
| "to_text ns (VNum x) = ns x"
| "to_text ns (VStr s) = s"
| "to_text ns (VArr xs) =
     join '','' (map (\<lambda>x. case x of VUndef \<Rightarrow> [] | VNull \<Rightarrow> [] | _ \<Rightarrow> to_text ns x) xs)"
| "to_text ns (VObj ob) = ''[object Object]''"

subsection \<open>\<^verbatim>\<open>JSON.stringify\<close>\<close>

definition hex_digit :: "nat \<Rightarrow> char" where
  "hex_digit d = ''0123456789abcdef'' ! d"

definition json_char :: "char \<Rightarrow> string" where
  "json_char c = (let n = of_char c :: nat in
     if n = 34 then [char_of (92 :: nat), char_of (34 :: nat)]
     else if n = 92 then [char_of (92 :: nat), char_of (92 :: nat)]
     else if n = 8 then char_of (92 :: nat) # ''b''
     else if n = 9 then char_of (92 :: nat) # ''t''
     else if n = 10 then char_of (92 :: nat) # ''n''
     else if n = 12 then char_of (92 :: nat) # ''f''
     else if n = 13 then char_of (92 :: nat) # ''r''
     else if n < 32 then char_of (92 :: nat) # ''u00'' @ [hex_digit (n div 16), hex_digit (n mod 16)]
     else [c])"

definition json_string :: "string \<Rightarrow> string" where
  "json_string s = char_of (34 :: nat) # concat (map json_char s) @ [char_of (34 :: nat)]"

text \<open>Inside an array \<^verbatim>\<open>undefined\<close> becomes \<^verbatim>\<open>null\<close>, in an object it is left out.\<close>

fun json_text :: "(rat \<Rightarrow> string) \<Rightarrow> jsval \<Rightarrow> string"
  and json_props :: "(rat \<Rightarrow> string) \<Rightarrow> (string \<times> jsval) list \<Rightarrow> string list" where
  "json_text ns VUndef = ''null''"
| "json_text ns VNull = ''null''"
| "json_text ns (VBool b) = (if b then ''true'' else ''false'')"
| "json_text ns (VNum x) = ns x"
| "json_text ns (VStr s) = json_string s"
| "json_text ns (VArr xs) = ''['' @ join '','' (map (json_text ns) xs) @ '']''"
| "json_text ns (VObj ob) = ''{'' @ join '','' (json_props ns ob) @ ''}''"
| "json_props ns [] = []"
| "json_props ns ((k, v) # ob) =
     (if v = VUndef then json_props ns ob
      else (json_string k @ '':'' @ json_text ns v) # json_props ns ob)"

subsection \<open>Properties of objects\<close>

lemma get_Nil [simp]: "get [] k = VUndef"
  by (simp add: get_def)

lemma get_Cons [simp]: "get ((k', v) # ob) k = (if k = k' then v else get ob k)"
  by (simp add: get_def)

lemma get_put [simp]: "get (put ob k v) k' = (if k' = k then v else get ob k')"
  by (simp add: get_def put_def update_conv')

lemma keys_put: "map fst (put ob k v) = (if k \<in> fst ` set ob then map fst ob else map fst ob @ [k])"
  using keys_update[of k v ob] by (simp add: put_def map_keys_def)

lemma fst_set_put [simp]: "fst ` set (put ob k v) = insert k (fst ` set ob)"
  using arg_cong[OF keys_put[of ob k v], of set] by auto

lemma distinct_put: "distinct (map fst ob) \<Longrightarrow> distinct (map fst (put ob k v))"
  by (auto simp: keys_put)

lemma merge_obj_Nil [simp]: "merge_obj a [] = a"
  by (simp add: merge_obj_def)

lemma merge_obj_Cons [simp]: "merge_obj a ((k, v) # b) = merge_obj (put a k v) b"
  by (simp add: merge_obj_def)

lemma fst_set_merge [simp]: "fst ` set (merge_obj a b) = fst ` set a \<union> fst ` set b"
proof (induction b arbitrary: a)
  case (Cons kv b)
  then show ?case by (cases kv) simp
qed simp

lemma distinct_merge: "distinct (map fst a) \<Longrightarrow> distinct (map fst (merge_obj a b))"
  by (induction b arbitrary: a) (auto simp: distinct_put)

lemma get_merge_other: "k \<notin> fst ` set b \<Longrightarrow> get (merge_obj a b) k = get a k"
proof (induction b arbitrary: a)
  case (Cons kv b)
  then show ?case by (cases kv) simp
qed simp

lemma get_merge:
  "distinct (map fst b) \<Longrightarrow>
   get (merge_obj a b) k = (if k \<in> fst ` set b then get b k else get a k)"
proof (induction b arbitrary: a)
  case (Cons kv b)
  then show ?case
    by (cases kv) (cases "k = fst kv", simp_all add: get_merge_other)
qed simp

lemma get_absent: "k \<notin> fst ` set ob \<Longrightarrow> get ob k = VUndef"
  by (induction ob) auto

lemma get_present: "distinct (map fst ob) \<Longrightarrow> (k, v) \<in> set ob \<Longrightarrow> get ob k = v"
  by (simp add: get_def)

end
