(* ===== verification/Db_Where.thy ===== *)
theory Db_Where
  imports Js_Value
begin

text \<open>
  The condition of a query (\<^verbatim>\<open>sync/dao/helpers/get-where-query.js\<close>): from a filter object to the
  text of a \<^verbatim>\<open>WHERE\<close> clause with named placeholders, and the values of the placeholders.

  \<^item> The names of the conditions (\<^verbatim>\<open>FILTER_CONDITIONS\<close>) are those the repository writes in its own
    filters (\<^verbatim>\<open>$gt\<close>, \<^verbatim>\<open>$or\<close>, \<^verbatim>\<open>$isNull\<close> and so on).
  \<^item> A filter is an object whose names are no array indices, so its keys are listed in insertion
    order. \<^verbatim>\<open>omit\<close> removes properties.
  \<^item> Calling \<^verbatim>\<open>map\<close> on something that is no array throws a \<^verbatim>\<open>TypeError\<close>: the result is
    \<^const>\<open>None\<close>.
\<close>

subsection \<open>Operators\<close>

definition filter_conditions :: "string list" where
  "filter_conditions = [''$gt'', ''$gte'', ''$lt'', ''$lte'', ''$not'', ''$like'', ''$eq'', ''$ne'',
     ''$in'', ''$nin'', ''$or'', ''$isNull'', ''$isNotNull'']"

text \<open>The conditions that hold an object of fields.\<close>

definition value_conditions :: "string list" where
  "value_conditions = [''$gt'', ''$gte'', ''$lt'', ''$lte'', ''$not'', ''$like'', ''$eq'', ''$ne'',
     ''$in'', ''$nin'']"

definition getCompareOperator :: "string \<Rightarrow> bool \<Rightarrow> string" where
  "getCompareOperator origFieldName isArr =
     (if origFieldName = ''start'' then ''>=''
      else if origFieldName = ''end'' then ''<=''
      else if origFieldName = ''$gt'' then ''>''
      else if origFieldName = ''$gte'' then ''>=''
      else if origFieldName = ''$lt'' then ''<''
      else if origFieldName = ''$lte'' then ''<=''
      else if origFieldName = ''$like'' then ''LIKE''
      else if origFieldName = ''$ne'' then ''!=''
      else if origFieldName = ''$eq'' then ''=''
      else if isArr then
        (if origFieldName = ''$in'' then ''IN''
         else if origFieldName = ''$nin'' then ''NOT IN''
         else if origFieldName = ''$not'' then ''NOT IN''
         else ''IN'')
      else if origFieldName = ''$not'' then ''!='' else ''='')"

text \<open>A value as the database takes it (\<^verbatim>\<open>serialize-val.js\<close>).\<close>

fun serializeVal :: "(rat \<Rightarrow> string) \<Rightarrow> jsval \<Rightarrow> jsval" where
  "serializeVal ns (VBool b) = VNum (if b then 1 else 0)"
| "serializeVal ns (VArr xs) = VStr (json_text ns (VArr xs))"
| "serializeVal ns (VObj ob) = VStr (json_text ns (VObj ob))"
| "serializeVal ns v = v"

subsection \<open>Options and the parts of a condition\<close>

record where_opts =
  isPrefixed :: bool
  isNotSetWhereClause :: bool
  requestedFilter :: jsval
  tableAlias :: string

definition default_opts :: where_opts where
  "default_opts = \<lparr>isPrefixed = False, isNotSetWhereClause = False, requestedFilter = VUndef,
     tableAlias = []\<rparr>"

definition alias_dot :: "where_opts \<Rightarrow> string" where
  "alias_dot opts = (if tableAlias opts = [] then [] else tableAlias opts @ ''.'')"

definition alias_name :: "where_opts \<Rightarrow> string" where
  "alias_name opts = (if tableAlias opts = [] then [] else tableAlias opts @ ''_'')"

definition getKeyAndQueryValKey :: "string \<Rightarrow> bool \<Rightarrow> string \<times> string" where
  "getKeyAndQueryValKey name prefixed =
     (let k = CHR ''$'' # name in (k, if prefixed then k else name))"

definition getKeysAndValuesForWhereQuery ::
  "(rat \<Rightarrow> string) \<Rightarrow> where_opts \<Rightarrow> obj \<Rightarrow> string \<Rightarrow> bool \<Rightarrow> (string \<times> obj) option" where
  "getKeysAndValuesForWhereQuery ns opts flt origFieldName isArr =
     (if \<not> isArr then
        let (k, queryValKey) = getKeyAndQueryValKey (alias_name opts @ origFieldName) (isPrefixed opts);
            val = serializeVal ns (get flt origFieldName)
        in Some (k, if val = VNull then [] else [(queryValKey, val)])
      else case get flt origFieldName of
        VArr items \<Rightarrow>
          let named = map (\<lambda>(j, item). (getKeyAndQueryValKey
                 (alias_name opts @ origFieldName @ ''_'' @ dec j) (isPrefixed opts), item))
                 (enumerate 0 items)
          in Some (''('' @ join '', '' (map (fst \<circ> fst) named) @ '')'',
               merge_obj [] (map (\<lambda>((k, queryValKey), item). (queryValKey, serializeVal ns item)) named))
      | _ \<Rightarrow> None)"

definition getIsNullOperator :: "(rat \<Rightarrow> string) \<Rightarrow> where_opts \<Rightarrow> string \<Rightarrow> obj \<Rightarrow> string option" where
  "getIsNullOperator ns opts fieldName flt =
     (if fieldName \<noteq> ''$isNull'' \<and> fieldName \<noteq> ''$isNotNull'' \<or> get flt fieldName = VArr []
      then None
      else let operator = (if fieldName = ''$isNotNull'' then ''IS NOT NULL'' else ''IS NULL'');
               valueArr = (case get flt fieldName of VArr xs \<Rightarrow> xs | v \<Rightarrow> [v])
           in Some (join '' AND ''
                (map (\<lambda>name. alias_dot opts @ to_text ns name @ '' '' @ operator) valueArr)))"

definition isOrOp :: "obj \<Rightarrow> bool" where
  "isOrOp flt \<longleftrightarrow> is_object (get flt ''$or'')"

text \<open>
  The fields whose comparison is not to look at upper and lower case, per condition
  (\<^verbatim>\<open>_getFieldsNamesToDisableCaseSensitivity\<close>): those a requested filter compares with text. A
  condition whose value is no object answers with an empty result, whatever was found before.
\<close>

type_synonym nocase_fields = "(string \<times> string list) list"

fun text_like :: "jsval \<Rightarrow> bool" where
  "text_like (VStr s) = (s \<noteq> [])"
| "text_like (VArr xs) = list_ex (\<lambda>x. case x of VStr s \<Rightarrow> s \<noteq> [] | _ \<Rightarrow> False) xs"
| "text_like v = False"

definition add_nocase :: "string \<Rightarrow> string \<Rightarrow> nocase_fields \<Rightarrow> nocase_fields" where
  "add_nocase outKey key accum = AList.update outKey
     (case map_of accum outKey of None \<Rightarrow> [key]
      | Some ks \<Rightarrow> if key \<in> set ks then ks else ks @ [key]) accum"

fun nocase_val :: "string option \<Rightarrow> nocase_fields \<Rightarrow> jsval \<Rightarrow> nocase_fields"
  and nocase_entries :: "string option \<Rightarrow> nocase_fields \<Rightarrow> (string \<times> jsval) list \<Rightarrow> nocase_fields" where
  "nocase_val outKey accum (VObj ob) = nocase_entries outKey accum ob"
| "nocase_val outKey accum v = []"
| "nocase_entries outKey accum [] = accum"
| "nocase_entries outKey accum ((key, val) # ob) = nocase_entries outKey
     (if key \<in> set filter_conditions then nocase_val (Some key) accum val
      else case outKey of None \<Rightarrow> accum
        | Some oKey \<Rightarrow> if oKey \<in> set filter_conditions \<and> text_like val
            then add_nocase oKey key accum else accum) ob"

definition isSetNoCaseOp :: "string \<Rightarrow> string \<Rightarrow> nocase_fields \<Rightarrow> bool" where
  "isSetNoCaseOp fieldName origFieldName nc \<longleftrightarrow>
     list_ex (\<lambda>(op, fieldNames). op = origFieldName \<and> fieldName \<in> set fieldNames) nc"

definition getCompareOpAndKey ::
  "where_opts \<Rightarrow> string \<Rightarrow> string \<Rightarrow> obj \<Rightarrow> string \<Rightarrow> string \<Rightarrow> nocase_fields \<Rightarrow> string \<times> string" where
  "getCompareOpAndKey opts compareOperator k subValues fieldName origFieldName nc =
     (let queryValKey = (if isPrefixed opts then k
            else case k of CHR ''$'' # rest \<Rightarrow> rest | _ \<Rightarrow> k) in
      if compareOperator = ''='' \<and> get subValues queryValKey = VNull then (''IS NULL'', [])
      else if compareOperator = ''!='' \<and> get subValues queryValKey = VNull then (''IS NOT NULL'', [])
      else if compareOperator = ''LIKE''
        then (compareOperator, '' '' @ k @ '' ESCAPE '' @ [CHR 0x27, CHR 0x5C, CHR 0x27])
      else let noCaseOp = (if isSetNoCaseOp fieldName origFieldName nc then ''COLLATE NOCASE'' else [])
        in (if compareOperator = ''IN'' \<or> compareOperator = ''NOT IN''
            then noCaseOp @ '' '' @ compareOperator else compareOperator,
            if compareOperator = ''='' \<or> compareOperator = ''!=''
            then '' '' @ k @ '' '' @ noCaseOp else '' '' @ k))"

text \<open>\<^verbatim>\<open>_getWhereQueryAndValues\<close>; an empty \<open>condName\<close> is an absent one.\<close>

definition getWhereQueryAndValues ::
  "(rat \<Rightarrow> string) \<Rightarrow> where_opts \<Rightarrow> nocase_fields \<Rightarrow> string \<Rightarrow> string \<Rightarrow> obj \<Rightarrow> string \<Rightarrow> bool \<Rightarrow> string
    \<Rightarrow> (obj \<times> string) option" where
  "getWhereQueryAndValues ns opts nc op origFieldName flt accum isArr condName =
     (let compareOp = getCompareOperator origFieldName isArr;
          fieldNameWithCondName =
            (if condName \<noteq> [] then condName @ ''_'' @ origFieldName else origFieldName);
          fieldNameForStartEnd =
            (if origFieldName = ''start'' \<or> origFieldName = ''end''
             then to_text ns (get flt ''_dateFieldName'') else origFieldName);
          fieldName = (if condName \<noteq> [] then condName else fieldNameForStartEnd);
          flt' = (if condName \<noteq> [] then put flt fieldNameWithCondName (get flt condName) else flt)
      in case getKeysAndValuesForWhereQuery ns opts flt' fieldNameWithCondName isArr of
           None \<Rightarrow> None
         | Some (k, subValues) \<Rightarrow>
             let (compareOperator, key) =
               getCompareOpAndKey opts compareOp k subValues fieldName origFieldName nc
             in Some (subValues,
                  accum @ op @ alias_dot opts @ fieldName @ '' '' @ compareOperator @ key))"

subsection \<open>The clause\<close>

text \<open>\<^verbatim>\<open>reduce\<close> over an array, with the index of the element.\<close>

fun reduce_opt :: "(nat \<Rightarrow> 'a \<Rightarrow> 's \<Rightarrow> 's option) \<Rightarrow> nat \<Rightarrow> 'a list \<Rightarrow> 's \<Rightarrow> 's option" where
  "reduce_opt f i [] s = Some s"
| "reduce_opt f i (x # xs) s =
     (case f i x s of None \<Rightarrow> None | Some s' \<Rightarrow> reduce_opt f (Suc i) xs s')"

definition hidden_fields :: "string list" where
  "hidden_fields = [''_dateFieldName'']"

definition visible_keys :: "obj \<Rightarrow> string list" where
  "visible_keys ob = map fst (omit ob hidden_fields)"

definition cond_step ::
  "(rat \<Rightarrow> string) \<Rightarrow> where_opts \<Rightarrow> nocase_fields \<Rightarrow> string \<Rightarrow> nat \<Rightarrow> string \<Rightarrow> obj
    \<Rightarrow> nat \<Rightarrow> string \<Rightarrow> string \<times> obj \<Rightarrow> (string \<times> obj) option" where
  "cond_step ns opts nc operator i cur condFilter j curCond = (\<lambda>(condAccum, values).
     let condOp = (if i > 0 \<or> j > 0 then '' '' @ operator @ '' '' else []) in
     case getWhereQueryAndValues ns opts nc condOp cur condFilter condAccum
            (is_array (get condFilter curCond)) curCond of
       None \<Rightarrow> None
     | Some (subValues, subQuery) \<Rightarrow> Some (subQuery, merge_obj values subValues))"

definition where_step ::
  "(rat \<Rightarrow> string) \<Rightarrow> where_opts \<Rightarrow> nocase_fields \<Rightarrow> string \<Rightarrow> obj \<Rightarrow> obj
    \<Rightarrow> nat \<Rightarrow> string \<Rightarrow> string \<times> obj \<Rightarrow> (string \<times> obj) option" where
  "where_step ns opts nc operator flt flt' i cur = (\<lambda>(accum, values).
     let op = (if i > 0 then '' '' @ operator @ '' '' else []) in
     case getIsNullOperator ns opts cur flt' of
       Some isNullOp \<Rightarrow> Some (accum @ op @ isNullOp, values)
     | None \<Rightarrow>
         if cur \<in> set value_conditions then
           let condFilter = (if is_object (get flt' cur) then spread (get flt' cur) else []) in
           case reduce_opt (cond_step ns opts nc operator i cur condFilter) 0
                  (visible_keys condFilter) ([], values) of
             None \<Rightarrow> None
           | Some (query, values') \<Rightarrow> Some (accum @ query, values')
         else case getWhereQueryAndValues ns opts nc op cur flt accum
                     (is_array (get flt' cur)) [] of
             None \<Rightarrow> None
           | Some (subValues, subQuery) \<Rightarrow> Some (subQuery, merge_obj values subValues))"

definition getWhereQuery :: "(rat \<Rightarrow> string) \<Rightarrow> obj \<Rightarrow> where_opts \<Rightarrow> (string \<times> obj) option" where
  "getWhereQuery ns flt opts =
     (let flt' = (if isOrOp flt then spread (get flt ''$or'') else flt);
          operator = (if isOrOp flt then ''OR'' else ''AND'');
          keys = visible_keys flt';
          nc = nocase_val None [] (requestedFilter opts)
      in reduce_opt (where_step ns opts nc operator flt flt') 0 keys
           (if isNotSetWhereClause opts \<or> keys = [] then [] else ''WHERE '', []))"

text \<open>A few clauses, as the program builds them.\<close>

definition plain_num :: "rat \<Rightarrow> string" where
  "plain_num x = (if x < 0 then ''-'' @ dec (nat (- \<lfloor>x\<rfloor>)) else dec (nat \<lfloor>x\<rfloor>))"

lemma where_example:
  "getWhereQuery plain_num
     [(''_dateFieldName'', VStr ''mts''), (''start'', VNum 1), (''symbol'', VArr [VStr ''a'', VStr ''b'']),
      (''$ne'', VObj [(''id'', VNum 3)]), (''user_id'', VNum 7)] default_opts =
   Some (''WHERE mts >= $start AND symbol  IN ($symbol_0, $symbol_1) AND id != $id_$ne  AND user_id = $user_id '',
     [(''start'', VNum 1), (''symbol_0'', VStr ''a''), (''symbol_1'', VStr ''b''), (''id_$ne'', VNum 3),
      (''user_id'', VNum 7)])"
  by code_simp

end
