(* ===== verification/Db_Where_Props.thy ===== *)
theory Db_Where_Props
  imports Db_Where
begin

text \<open>
  What the condition of a query is: a list of tests on columns, joined by \<^verbatim>\<open>AND\<close> or \<^verbatim>\<open>OR\<close>, and a
  value for every placeholder. The builder of \<^verbatim>\<open>get-where-query.js\<close>, which grows a text and an object
  through two nested loops, is shown to compute exactly this; what a condition means, and that
  values never become text, then follows from the list of tests.
\<close>

subsection \<open>The list of tests\<close>

datatype sql_arg = One string | Many "string list"

datatype sql_test =
    Cmp string string sql_arg string
  | NullTests "string list" string

definition hole :: "string \<Rightarrow> string" where
  "hole n = CHR ''$'' # n"

fun arg_text :: "sql_arg \<Rightarrow> string" where
  "arg_text (One n) = hole n"
| "arg_text (Many names) = ''('' @ join '', '' (map hole names) @ '')''"

fun test_text :: "sql_test \<Rightarrow> string" where
  "test_text (Cmp column op a noCase) = column @ '' '' @
     (if op = ''LIKE'' then op @ '' '' @ arg_text a @ '' ESCAPE '' @ [CHR 0x27, CHR 0x5C, CHR 0x27]
      else if op = ''IN'' \<or> op = ''NOT IN'' then noCase @ '' '' @ op @ '' '' @ arg_text a
      else if op = ''='' \<or> op = ''!='' then op @ '' '' @ arg_text a @ '' '' @ noCase
      else op @ '' '' @ arg_text a)"
| "test_text (NullTests columns op) = join '' AND '' (map (\<lambda>c. c @ '' '' @ op) columns)"

definition items_of :: "jsval \<Rightarrow> jsval list" where
  "items_of v = (case v of VArr xs \<Rightarrow> xs | _ \<Rightarrow> [])"

definition bind_name :: "where_opts \<Rightarrow> string \<Rightarrow> string" where
  "bind_name opts n = (if isPrefixed opts then hole n else n)"

definition item_name :: "where_opts \<Rightarrow> string \<Rightarrow> nat \<Rightarrow> string" where
  "item_name opts n j = alias_name opts @ n @ ''_'' @ dec j"

definition field_test ::
  "where_opts \<Rightarrow> nocase_fields \<Rightarrow> string \<Rightarrow> string \<Rightarrow> string \<Rightarrow> jsval \<Rightarrow> sql_test" where
  "field_test opts nc orig column n v = Cmp (alias_dot opts @ column)
     (getCompareOperator orig (is_array v))
     (if is_array v then Many (map (item_name opts n) [0..<length (items_of v)])
      else One (alias_name opts @ n))
     (if isSetNoCaseOp column orig nc then ''COLLATE NOCASE'' else [])"

definition field_bindings :: "(rat \<Rightarrow> string) \<Rightarrow> where_opts \<Rightarrow> string \<Rightarrow> jsval \<Rightarrow> obj" where
  "field_bindings ns opts n v =
     (if is_array v
      then map (\<lambda>(j, item). (bind_name opts (item_name opts n j), serializeVal ns item))
             (enumerate 0 (items_of v))
      else if serializeVal ns v = VNull then []
      else [(bind_name opts (alias_name opts @ n), serializeVal ns v)])"

definition is_null_key :: "obj \<Rightarrow> string \<Rightarrow> bool" where
  "is_null_key flt k \<longleftrightarrow> (k = ''$isNull'' \<or> k = ''$isNotNull'') \<and> get flt k \<noteq> VArr []"

definition cond_fields :: "jsval \<Rightarrow> obj" where
  "cond_fields v = (if is_object v then spread v else [])"

definition plain_column :: "(rat \<Rightarrow> string) \<Rightarrow> obj \<Rightarrow> string \<Rightarrow> string" where
  "plain_column ns flt k =
     (if k = ''start'' \<or> k = ''end'' then to_text ns (get flt ''_dateFieldName'') else k)"

definition key_tests ::
  "(rat \<Rightarrow> string) \<Rightarrow> where_opts \<Rightarrow> nocase_fields \<Rightarrow> obj \<Rightarrow> obj \<Rightarrow> string \<Rightarrow> sql_test list" where
  "key_tests ns opts nc flt flt' k =
     (if is_null_key flt' k then
        [NullTests (map (\<lambda>c. alias_dot opts @ to_text ns c)
           (case get flt' k of VArr xs \<Rightarrow> xs | v \<Rightarrow> [v]))
          (if k = ''$isNotNull'' then ''IS NOT NULL'' else ''IS NULL'')]
      else if k \<in> set value_conditions then
        map (\<lambda>c. field_test opts nc k c (c @ ''_'' @ k) (get (cond_fields (get flt' k)) c))
          (visible_keys (cond_fields (get flt' k)))
      else [field_test opts nc k (plain_column ns flt k) k (get flt k)])"

definition key_bindings ::
  "(rat \<Rightarrow> string) \<Rightarrow> where_opts \<Rightarrow> obj \<Rightarrow> obj \<Rightarrow> string \<Rightarrow> obj" where
  "key_bindings ns opts flt flt' k =
     (if is_null_key flt' k then []
      else if k \<in> set value_conditions then
        concat (map (\<lambda>c. field_bindings ns opts (c @ ''_'' @ k) (get (cond_fields (get flt' k)) c))
          (visible_keys (cond_fields (get flt' k))))
      else field_bindings ns opts k (get flt k))"

text \<open>The filter whose keys are listed, and how its tests are joined.\<close>

definition listed :: "obj \<Rightarrow> obj" where
  "listed flt = (if isOrOp flt then spread (get flt ''$or'') else flt)"

definition where_tests :: "(rat \<Rightarrow> string) \<Rightarrow> obj \<Rightarrow> where_opts \<Rightarrow> sql_test list list" where
  "where_tests ns flt opts = map (key_tests ns opts (nocase_val None [] (requestedFilter opts)) flt (listed flt))
     (visible_keys (listed flt))"

definition where_bindings :: "(rat \<Rightarrow> string) \<Rightarrow> obj \<Rightarrow> where_opts \<Rightarrow> obj" where
  "where_bindings ns flt opts =
     concat (map (key_bindings ns opts flt (listed flt)) (visible_keys (listed flt)))"

text \<open>Every test but the very first is preceded by the operator.\<close>

definition glue :: "string \<Rightarrow> bool \<Rightarrow> string" where
  "glue operator later = (if later then '' '' @ operator @ '' '' else [])"

fun keyed_text :: "string \<Rightarrow> nat \<Rightarrow> sql_test list list \<Rightarrow> string" where
  "keyed_text operator i [] = []"
| "keyed_text operator i (ts # rest) =
     concat (map (\<lambda>(j, t). glue operator (i > 0 \<or> j > 0) @ test_text t) (enumerate 0 ts))
     @ keyed_text operator (Suc i) rest"

text \<open>
  With an \<^verbatim>\<open>$or\<close> the keys are listed from one object and plain values are read from another;
  then an array may be taken for a single value or the other way round.
\<close>

definition key_ok :: "obj \<Rightarrow> obj \<Rightarrow> string \<Rightarrow> bool" where
  "key_ok flt flt' k \<longleftrightarrow> (\<not> is_null_key flt' k \<longrightarrow> k \<in> set value_conditions \<longrightarrow>
       [] \<notin> set (visible_keys (cond_fields (get flt' k))))
     \<and> (\<not> is_null_key flt' k \<longrightarrow> k \<notin> set value_conditions \<longrightarrow>
       is_array (get flt' k) = is_array (get flt k))"

definition readable :: "obj \<Rightarrow> bool" where
  "readable flt \<longleftrightarrow> list_all (key_ok flt (listed flt)) (visible_keys (listed flt))"

subsection \<open>The builder computes them\<close>

lemma merge_obj_append: "merge_obj a (b @ c) = merge_obj (merge_obj a b) c"
  by (simp add: merge_obj_def)

lemma put_new: "k \<notin> fst ` set ob \<Longrightarrow> put ob k v = ob @ [(k, v)]"
  by (simp add: put_def update_nonempty) (induction ob, auto)

lemma merge_obj_new:
  "distinct (map fst b) \<Longrightarrow> fst ` set a \<inter> fst ` set b = {} \<Longrightarrow> merge_obj a b = a @ b"
proof (induction b arbitrary: a)
  case (Cons kv b)
  then show ?case by (cases kv) (auto simp: put_new)
qed simp

lemma item_name_inj [simp]: "item_name opts n j = item_name opts n j' \<longleftrightarrow> j = j'"
  by (simp add: item_name_def)

lemma bind_name_inj [simp]: "bind_name opts n = bind_name opts n' \<longleftrightarrow> n = n'"
  by (simp add: bind_name_def hole_def)

lemma hole_inj [simp]: "hole n = hole n' \<longleftrightarrow> n = n'"
  by (simp add: hole_def)

lemma array_bindings_distinct:
  "distinct (map fst (map (\<lambda>(j, item). (bind_name opts (item_name opts n j), serializeVal ns item))
     (enumerate 0 xs)))"
  by (auto simp: distinct_conv_nth nth_enumerate_eq)

lemma keys_and_values:
  assumes "is_array (get flt n) = isArr"
  shows "getKeysAndValuesForWhereQuery ns opts flt n isArr =
    Some (arg_text (if isArr then Many (map (item_name opts n) [0..<length (items_of (get flt n))])
            else One (alias_name opts @ n)),
          field_bindings ns opts n (get flt n))"
proof (cases isArr)
  case False
  with assms show ?thesis
    by (simp add: getKeysAndValuesForWhereQuery_def getKeyAndQueryValKey_def field_bindings_def
        bind_name_def hole_def Let_def)
next
  case True
  with assms obtain xs where xs: "get flt n = VArr xs" by (cases "get flt n") auto
  have "map (fst \<circ> fst) (map (\<lambda>(j, item). (getKeyAndQueryValKey
      (alias_name opts @ n @ ''_'' @ dec j) (isPrefixed opts), item)) (enumerate 0 xs))
    = map hole (map (item_name opts n) [0..<length xs])"
    by (auto intro!: nth_equalityI simp: nth_enumerate_eq getKeyAndQueryValKey_def hole_def
        item_name_def Let_def)
  moreover have "map (\<lambda>((k, queryValKey), item). (queryValKey, serializeVal ns item))
      (map (\<lambda>(j, item). (getKeyAndQueryValKey (alias_name opts @ n @ ''_'' @ dec j)
        (isPrefixed opts), item)) (enumerate 0 xs))
    = map (\<lambda>(j, item). (bind_name opts (item_name opts n j), serializeVal ns item)) (enumerate 0 xs)"
    by (auto simp: getKeyAndQueryValKey_def hole_def item_name_def bind_name_def Let_def)
  ultimately show ?thesis
    using True xs merge_obj_new[OF array_bindings_distinct, of "[]"]
    by (simp add: getKeysAndValuesForWhereQuery_def field_bindings_def items_of_def Let_def
        del: map_map)
qed

lemma keys_and_values_misread:
  "\<not> is_array (get flt n) \<Longrightarrow> getKeysAndValuesForWhereQuery ns opts flt n True = None"
  by (cases "get flt n") (simp_all add: getKeysAndValuesForWhereQuery_def)

lemma length_join: "x \<in> set xs \<Longrightarrow> length x \<le> length (join sep xs)"
  by (induction xs) (force simp: join_def split: list.splits)+

lemma arg_text_not_bound:
  assumes "bind_name opts n \<in> fst ` set (field_bindings ns opts m v)" "is_array v"
  shows "arg_text (Many (map (item_name opts m) [0..<length (items_of v)])) \<noteq> bind_name opts n"
proof -
  from assms obtain j where j: "j < length (items_of v)" "n = item_name opts m j"
    by (auto simp: field_bindings_def in_set_enumerate_eq)
  then have "length (hole n) \<le> length (join '', '' (map hole (map (item_name opts m) [0..<length (items_of v)])))"
    by (intro length_join) auto
  then show ?thesis
    by (auto simp: bind_name_def hole_def dest!: arg_cong[where f = length])
qed

lemma field_bindings_not_null:
  "\<not> is_array v \<Longrightarrow> get (field_bindings ns opts n v) k \<noteq> VNull"
  by (auto simp: field_bindings_def)

lemma no_null_comparison:
  assumes "k = arg_text (if is_array v then Many (map (item_name opts n) [0..<length (items_of v)])
      else One (alias_name opts @ n))"
  shows "get (field_bindings ns opts n v)
    (if isPrefixed opts then k else case k of CHR ''$'' # rest \<Rightarrow> rest | _ \<Rightarrow> k) \<noteq> VNull"
proof (cases "is_array v")
  case False
  then show ?thesis by (rule field_bindings_not_null)
next
  case True
  with assms have k: "(if isPrefixed opts then k else case k of CHR ''$'' # rest \<Rightarrow> rest | _ \<Rightarrow> k) = k"
    by simp
  have "k \<notin> fst ` set (field_bindings ns opts n v)"
  proof
    assume mem: "k \<in> fst ` set (field_bindings ns opts n v)"
    with True obtain m where "k = bind_name opts m" by (auto simp: field_bindings_def)
    with mem arg_text_not_bound[OF _ True, of opts m ns n] True assms show False by simp
  qed
  with k show ?thesis by (simp add: get_absent)
qed

lemma compare_op_text:
  assumes "get bs (if isPrefixed opts then arg_text a
      else case arg_text a of CHR ''$'' # rest \<Rightarrow> rest | _ \<Rightarrow> arg_text a) \<noteq> VNull"
    and "getCompareOpAndKey opts op (arg_text a) bs column orig nc = (compareOperator, key)"
  shows "pre @ column @ '' '' @ compareOperator @ key = test_text (Cmp (pre @ column) op a
    (if isSetNoCaseOp column orig nc then ''COLLATE NOCASE'' else []))"
proof -
  consider "op = ''LIKE''" | "op = ''IN''" | "op = ''NOT IN''" | "op = ''=''" | "op = ''!=''"
    | "op \<notin> {''LIKE'', ''IN'', ''NOT IN'', ''='', ''!=''}" by blast
  then show ?thesis
    using assms by cases (auto simp: getCompareOpAndKey_def Let_def simp del: arg_text.simps)
qed

lemma compare_op_and_key:
  assumes "getCompareOpAndKey opts (getCompareOperator orig (is_array v))
      (arg_text (if is_array v then Many (map (item_name opts n) [0..<length (items_of v)])
      else One (alias_name opts @ n))) (field_bindings ns opts n v)
      column orig nc = (compareOperator, key)"
  shows "alias_dot opts @ column @ '' '' @ compareOperator @ key = test_text (field_test opts nc orig column n v)"
  unfolding field_test_def by (rule compare_op_text[OF no_null_comparison[OF refl] assms])

lemma query_and_values:
  assumes "condName = [] \<Longrightarrow> n = orig \<and> v = get flt orig \<and> column = plain_column ns flt orig"
    and "condName \<noteq> [] \<Longrightarrow> n = condName @ ''_'' @ orig \<and> v = get flt condName \<and> column = condName"
    and "is_array v = isArr"
  shows "getWhereQueryAndValues ns opts nc op orig flt accum isArr condName =
    Some (field_bindings ns opts n v, accum @ op @ test_text (field_test opts nc orig column n v))"
proof -
  define flt' where "flt' = (if condName \<noteq> [] then put flt n (get flt condName) else flt)"
  have "get flt' n = v" using assms by (auto simp: flt'_def)
  with keys_and_values[of flt' n isArr ns opts] assms(3)
  have kv: "getKeysAndValuesForWhereQuery ns opts flt' n isArr =
    Some (arg_text (if isArr then Many (map (item_name opts n) [0..<length (items_of v)])
            else One (alias_name opts @ n)), field_bindings ns opts n v)" by simp
  obtain compareOperator key where ck: "getCompareOpAndKey opts (getCompareOperator orig isArr)
      (arg_text (if isArr then Many (map (item_name opts n) [0..<length (items_of v)])
            else One (alias_name opts @ n))) (field_bindings ns opts n v) column orig nc
      = (compareOperator, key)" by fastforce
  have tt: "alias_dot opts @ column @ '' '' @ compareOperator @ key = test_text (field_test opts nc orig column n v)"
    using compare_op_and_key[OF ck[folded assms(3)]] .
  have names: "(if condName \<noteq> [] then condName @ ''_'' @ orig else orig) = n"
    "(if condName \<noteq> [] then condName
      else if orig = ''start'' \<or> orig = ''end'' then to_text ns (get flt ''_dateFieldName'') else orig) = column"
    using assms by (auto simp: plain_column_def)
  show ?thesis
    unfolding getWhereQueryAndValues_def Let_def names flt'_def[symmetric] kv
    using tt by (simp add: ck)
qed

lemma cond_query_and_values:
  assumes "c \<noteq> []"
  shows "getWhereQueryAndValues ns opts nc op cur flt accum (is_array (get flt c)) c =
    Some (field_bindings ns opts (c @ ''_'' @ cur) (get flt c),
      accum @ op @ test_text (field_test opts nc cur c (c @ ''_'' @ cur) (get flt c)))"
  using assms by (intro query_and_values) simp_all

lemma plain_query_and_values:
  assumes "is_array (get flt cur) = isArr"
  shows "getWhereQueryAndValues ns opts nc op cur flt accum isArr [] =
    Some (field_bindings ns opts cur (get flt cur),
      accum @ op @ test_text (field_test opts nc cur (plain_column ns flt cur) cur (get flt cur)))"
  using assms by (intro query_and_values) simp_all

lemma cond_loop:
  assumes "[] \<notin> set ks"
  shows "reduce_opt (cond_step ns opts nc operator i cur condFilter) j ks (accum, vals) =
   Some (accum @ concat (map (\<lambda>(j, t). glue operator (i > 0 \<or> j > 0) @ test_text t)
           (enumerate j (map (\<lambda>c. field_test opts nc cur c (c @ ''_'' @ cur) (get condFilter c)) ks))),
     merge_obj vals (concat (map (\<lambda>c. field_bindings ns opts (c @ ''_'' @ cur) (get condFilter c)) ks)))"
  using assms
proof (induction ks arbitrary: j accum vals)
  case (Cons c ks)
  then have c: "c \<noteq> []" by auto
  have "cond_step ns opts nc operator i cur condFilter j c (accum, vals) =
    Some (accum @ glue operator (i > 0 \<or> j > 0) @
        test_text (field_test opts nc cur c (c @ ''_'' @ cur) (get condFilter c)),
      merge_obj vals (field_bindings ns opts (c @ ''_'' @ cur) (get condFilter c)))"
    by (simp only: cond_step_def glue_def Let_def cond_query_and_values[OF c] prod.case option.case)
  with Cons show ?case by (simp add: merge_obj_append)
qed simp

lemma is_null_operator:
  "getIsNullOperator ns opts k flt' =
    (if is_null_key flt' k then Some (join '' AND '' (map (\<lambda>c. c @ '' '' @
        (if k = ''$isNotNull'' then ''IS NOT NULL'' else ''IS NULL''))
        (map (\<lambda>c. alias_dot opts @ to_text ns c) (case get flt' k of VArr xs \<Rightarrow> xs | v \<Rightarrow> [v]))))
     else None)"
  by (auto simp: getIsNullOperator_def is_null_key_def Let_def comp_def split: jsval.splits)

lemma where_step_tests:
  assumes "key_ok flt flt' k"
  shows "where_step ns opts nc operator flt flt' i k (accum, vals) =
    Some (accum @ concat (map (\<lambda>(j, t). glue operator (i > 0 \<or> j > 0) @ test_text t)
          (enumerate 0 (key_tests ns opts nc flt flt' k))),
      merge_obj vals (key_bindings ns opts flt flt' k))"
proof -
  consider (null) "is_null_key flt' k" | (cond) "\<not> is_null_key flt' k" "k \<in> set value_conditions"
    | (plain) "\<not> is_null_key flt' k" "k \<notin> set value_conditions" by blast
  then show ?thesis
  proof cases
    case null
    then show ?thesis
      by (simp add: where_step_def is_null_operator key_tests_def key_bindings_def glue_def)
  next
    case cond
    with assms have "[] \<notin> set (visible_keys (cond_fields (get flt' k)))" by (simp add: key_ok_def)
    from cond_loop[OF this, of ns opts nc operator i k "cond_fields (get flt' k)" 0 "[]" vals] cond
    show ?thesis
      by (simp add: where_step_def is_null_operator key_tests_def key_bindings_def
          cond_fields_def[symmetric] Let_def)
  next
    case plain
    with assms have "is_array (get flt k) = is_array (get flt' k)" by (simp add: key_ok_def)
    from plain_query_and_values[OF this, of ns opts nc "glue operator (i > 0)" accum] plain
    show ?thesis
      by (simp add: where_step_def is_null_operator key_tests_def key_bindings_def glue_def)
  qed
qed

lemma where_loop:
  assumes "list_all (key_ok flt flt') ks"
  shows "reduce_opt (where_step ns opts nc operator flt flt') i ks (accum, vals) =
    Some (accum @ keyed_text operator i (map (key_tests ns opts nc flt flt') ks),
      merge_obj vals (concat (map (key_bindings ns opts flt flt') ks)))"
  using assms
proof (induction ks arbitrary: i accum vals)
  case (Cons k ks)
  then show ?case by (simp add: where_step_tests merge_obj_append)
qed simp

definition where_prefix :: "obj \<Rightarrow> where_opts \<Rightarrow> string" where
  "where_prefix flt opts =
     (if isNotSetWhereClause opts \<or> visible_keys (listed flt) = [] then [] else ''WHERE '')"

definition where_operator :: "obj \<Rightarrow> string" where
  "where_operator flt = (if isOrOp flt then ''OR'' else ''AND'')"

lemma getWhereQuery_keyed:
  assumes "readable flt"
  shows "getWhereQuery ns flt opts = Some
    (where_prefix flt opts @ keyed_text (where_operator flt) 0 (where_tests ns flt opts),
     merge_obj [] (where_bindings ns flt opts))"
  using where_loop[OF assms[unfolded readable_def]]
  by (auto simp: getWhereQuery_def where_tests_def where_bindings_def where_prefix_def
      where_operator_def listed_def Let_def)

lemma readable_no_or:
  assumes "\<not> isOrOp flt" "list_all (\<lambda>k. [] \<notin> set (visible_keys (cond_fields (get flt k)))) value_conditions"
  shows "readable flt"
  using assms by (auto simp: readable_def listed_def key_ok_def list_all_iff)

lemma keyed_text_later:
  "0 < i \<Longrightarrow> keyed_text operator i tss = concat (map (\<lambda>t. '' '' @ operator @ '' '' @ test_text t) (concat tss))"
proof (induction tss arbitrary: i)
  case (Cons ts tss)
  have "map (\<lambda>(j, t). glue operator (i > 0 \<or> j > 0) @ test_text t) (enumerate 0 ts) =
      map (\<lambda>t. '' '' @ operator @ '' '' @ test_text t) ts"
    using Cons.prems by (auto intro!: nth_equalityI simp: nth_enumerate_eq glue_def)
  with Cons show ?case by simp
qed simp

lemma keyed_text_join:
  assumes "tss = [] \<or> hd tss \<noteq> []"
  shows "keyed_text operator 0 tss = join ('' '' @ operator @ '' '') (map test_text (concat tss))"
proof (cases tss)
  case Nil
  then show ?thesis by simp
next
  case (Cons ts rest)
  with assms obtain t ts' where ts: "ts = t # ts'" by (cases ts) auto
  have "map (\<lambda>(j, u). glue operator (0 < j) @ test_text u) (enumerate 1 ts') =
      map (\<lambda>u. '' '' @ operator @ '' '' @ test_text u) ts'"
    by (auto intro!: nth_equalityI simp: nth_enumerate_eq glue_def)
  then show ?thesis
    unfolding Cons ts by (simp add: keyed_text_later join_def glue_def comp_def)
qed

text \<open>
  C15: the text of a condition. The condition of a query is the list of its tests, each on one
  column, joined by \<^verbatim>\<open>AND\<close>, or by \<^verbatim>\<open>OR\<close> when the filter has an \<^verbatim>\<open>$or\<close>, and the values of the
  placeholders are the serialised values of the filter. (The first condition must not be an empty
  object: see \<open>empty_condition_first\<close>.)
\<close>

theorem getWhereQuery_tests:
  assumes "readable flt" "where_tests ns flt opts = [] \<or> hd (where_tests ns flt opts) \<noteq> []"
  shows "getWhereQuery ns flt opts = Some
    (where_prefix flt opts @ join ('' '' @ where_operator flt @ '' '')
       (map test_text (concat (where_tests ns flt opts))),
     merge_obj [] (where_bindings ns flt opts))"
  using getWhereQuery_keyed[OF assms(1)] keyed_text_join[OF assms(2)] by simp

definition sample_filter :: obj where
  "sample_filter = [(''_dateFieldName'', VStr ''mts''), (''start'', VNum 1), (''$isNull'', VArr [VStr ''fee'', VStr ''note'']),
     (''symbol'', VArr [VStr ''a'', VStr ''b'']), (''$ne'', VObj [(''id'', VNum 3)]), (''user_id'', VNum 7)]"

lemma sample_filter_readable: "readable sample_filter"
  by code_simp

theorem getWhereQuery_tests_witness:
  "getWhereQuery plain_num sample_filter default_opts = Some
    (where_prefix sample_filter default_opts @ join '' AND ''
       (map test_text (concat (where_tests plain_num sample_filter default_opts))),
     merge_obj [] (where_bindings plain_num sample_filter default_opts))"
proof -
  have "hd (where_tests plain_num sample_filter default_opts) \<noteq> []" by code_simp
  moreover have "where_operator sample_filter = ''AND''" by code_simp
  ultimately show ?thesis
    using getWhereQuery_tests[OF sample_filter_readable, of plain_num default_opts] by simp
qed

end
