(* ===== verification/Db_Where_Safe.thy ===== *)
theory Db_Where_Safe
  imports Db_Where_Props
begin

text \<open>
  What is safe about the condition of a query: values never become part of its text, every
  placeholder is bound to its value, and a filter that names the owner selects only rows of the
  owner. The last part shows where the builder does something else than it means to.
\<close>

subsection \<open>Values do not become text\<close>

text \<open>
  A filter with its values taken out: every single value is 0 and every element of an array is 0.
  What is kept is what the text is made of: the names, the kinds of condition, the lengths of
  arrays, the name of the date column, and the columns named by \<^verbatim>\<open>$isNull\<close> and \<^verbatim>\<open>$isNotNull\<close>.
\<close>

fun blank_val :: "jsval \<Rightarrow> jsval" where
  "blank_val (VArr xs) = VArr (map (\<lambda>x. VNum 0) xs)"
| "blank_val v = VNum 0"

definition map_obj :: "(string \<Rightarrow> jsval \<Rightarrow> jsval) \<Rightarrow> obj \<Rightarrow> obj" where
  "map_obj f ob = map (\<lambda>(k, v). (k, f k v)) ob"

definition blank_entry :: "string \<Rightarrow> jsval \<Rightarrow> jsval" where
  "blank_entry k v =
     (if k \<in> set hidden_fields \<or> k = ''$isNull'' \<or> k = ''$isNotNull'' then v
      else if k \<in> set value_conditions
        then (if is_object v then VObj (map_obj (\<lambda>c. blank_val) (spread v)) else v)
      else blank_val v)"

definition blank :: "obj \<Rightarrow> obj" where
  "blank flt = map_obj (\<lambda>k v. if k = ''$or'' \<and> is_object v
     then VObj (map_obj blank_entry (spread v)) else blank_entry k v) flt"

lemma get_map_obj: "get (map_obj f ob) k = (if k \<in> fst ` set ob then f k (get ob k) else VUndef)"
proof (induction ob)
  case (Cons kv ob)
  then show ?case by (cases kv) (simp add: map_obj_def)
qed (simp add: map_obj_def)

lemma visible_keys_map_obj [simp]: "visible_keys (map_obj f ob) = visible_keys ob"
  by (induction ob) (auto simp: visible_keys_def omit_def map_obj_def)

lemma visible_keys_in: "k \<in> set (visible_keys ob) \<Longrightarrow> k \<in> fst ` set ob"
  by (auto simp: visible_keys_def omit_def)

lemma is_array_blank [simp]: "is_array (blank_val v) = is_array v"
  by (cases v) auto

lemma length_items_blank [simp]: "length (items_of (blank_val v)) = length (items_of v)"
  by (cases v) (auto simp: items_of_def)

lemma is_object_blank_val: "is_object (blank_val v) \<longleftrightarrow> is_array v"
  by (cases v) auto

lemma blank_entry_plain:
  "k \<notin> set hidden_fields \<Longrightarrow> k \<noteq> ''$isNull'' \<Longrightarrow> k \<noteq> ''$isNotNull'' \<Longrightarrow> k \<notin> set value_conditions
   \<Longrightarrow> blank_entry k v = blank_val v"
  by (simp add: blank_entry_def)

lemma special_keys:
  "k \<in> set value_conditions \<Longrightarrow> k \<noteq> ''$isNull'' \<and> k \<noteq> ''$isNotNull'' \<and> k \<noteq> ''$or''
     \<and> k \<noteq> ''_dateFieldName''"
  "''$or'' \<notin> set value_conditions" "''$isNull'' \<notin> set value_conditions"
  "''$isNotNull'' \<notin> set value_conditions" "''_dateFieldName'' \<notin> set value_conditions"
  by (auto simp: value_conditions_def)

lemma get_blank_or: "isOrOp flt \<Longrightarrow> get (blank flt) ''$or'' = VObj (map_obj blank_entry (spread (get flt ''$or'')))"
  by (cases "''$or'' \<in> fst ` set flt") (simp_all add: blank_def get_map_obj isOrOp_def get_absent)

lemma isOrOp_blank: "isOrOp (blank flt) = isOrOp flt"
proof (cases "isOrOp flt")
  case True
  then show ?thesis by (simp add: get_blank_or isOrOp_def[of "blank flt"])
next
  case False
  then have "\<not> is_object (get flt ''$or'')" by (simp add: isOrOp_def)
  moreover from this have "\<not> is_array (get flt ''$or'')" by (cases "get flt ''$or''") auto
  ultimately have "\<not> is_object (get (blank flt) ''$or'')"
    by (auto simp: blank_def get_map_obj blank_entry_def special_keys hidden_fields_def is_object_blank_val)
  then show ?thesis using False by (simp add: isOrOp_def)
qed

lemma listed_blank:
  "listed (blank flt) = (if isOrOp flt then map_obj blank_entry (listed flt) else blank flt)"
  by (simp add: listed_def isOrOp_blank get_blank_or)

lemma visible_keys_blank [simp]: "visible_keys (listed (blank flt)) = visible_keys (listed flt)"
  by (auto simp: listed_blank) (simp add: listed_def blank_def)

lemma get_listed_blank:
  assumes "k \<in> set (visible_keys (listed flt))" "isOrOp flt \<or> k \<noteq> ''$or''"
  shows "get (listed (blank flt)) k = blank_entry k (get (listed flt) k)"
  using visible_keys_in[OF assms(1)] assms(2)
  by (cases "isOrOp flt") (simp_all add: listed_blank get_map_obj, simp_all add: listed_def blank_def get_map_obj)

lemma is_null_key_blank:
  assumes "k \<in> set (visible_keys (listed flt))"
  shows "is_null_key (listed (blank flt)) k = is_null_key (listed flt) k"
    "is_null_key (listed flt) k \<Longrightarrow> get (listed (blank flt)) k = get (listed flt) k"
  using get_listed_blank[OF assms] by (auto simp: is_null_key_def blank_entry_def)

lemma cond_fields_blank:
  assumes "k \<in> set (visible_keys (listed flt))" "k \<in> set value_conditions"
  shows "cond_fields (get (listed (blank flt)) k) = map_obj (\<lambda>c. blank_val) (cond_fields (get (listed flt) k))"
  using get_listed_blank[OF assms(1)] special_keys(1)[OF assms(2)] assms(2)
  by (auto simp: blank_entry_def hidden_fields_def cond_fields_def map_obj_def)

lemma field_test_blank:
  "field_test opts nc orig column n (blank_val v) = field_test opts nc orig column n v"
  by (simp add: field_test_def)

lemma digit_in: "d < 10 \<Longrightarrow> digit d \<in> set ''0123456789''"
  unfolding digit_def by (rule nth_mem) simp

lemma dec_chars: "c \<in> set (dec n) \<Longrightarrow> c \<in> set ''0123456789''"
  using dec_digits[of n] digit_in by (fastforce simp: list_all_iff simp del: set_simps)

lemma or_in_array: "''$or'' \<in> fst ` set (spread v) \<Longrightarrow> \<not> is_array v"
proof
  assume "''$or'' \<in> fst ` set (spread v)" "is_array v"
  then obtain i where "''$or'' = dec i" by (cases v) auto
  then have "CHR ''$'' \<in> set (dec i)" by (metis list.set_intros(1))
  then show False using dec_chars by fastforce
qed

lemma field_test_cong:
  "is_array v = is_array w \<Longrightarrow> length (items_of v) = length (items_of w) \<Longrightarrow>
   field_test opts nc orig column n v = field_test opts nc orig column n w"
  by (simp add: field_test_def)

lemma get_plain_blank:
  assumes "k \<in> set (visible_keys (listed flt))" "\<not> is_null_key (listed flt) k"
    "k \<notin> set value_conditions"
  shows "is_array (get (blank flt) k) = is_array (get flt k) \<and>
    length (items_of (get (blank flt) k)) = length (items_of (get flt k))"
proof -
  have hid: "k \<notin> set hidden_fields" using assms(1) by (auto simp: visible_keys_def omit_def)
  have eq: "get (blank flt) k = (if k \<in> fst ` set flt then (if k = ''$or'' \<and> is_object (get flt k)
      then VObj (map_obj blank_entry (spread (get flt k))) else blank_entry k (get flt k)) else VUndef)"
    by (simp add: blank_def get_map_obj)
  consider "k \<notin> fst ` set flt" | (or) "k = ''$or''" "isOrOp flt"
    | (val) "k \<in> fst ` set flt" "\<not> (k = ''$or'' \<and> is_object (get flt k))"
    by (auto simp: isOrOp_def)
  then show ?thesis
  proof cases
    case or
    with assms(1) have "\<not> is_array (get flt k)"
      by (metis listed_def or_in_array visible_keys_in)
    moreover from this have "items_of (get flt k) = []" by (cases "get flt k") (auto simp: items_of_def)
    ultimately show ?thesis using or by (simp add: get_blank_or items_of_def)
  next
    case val
    have "blank_entry k (get flt k) = blank_val (get flt k) \<or> blank_entry k (get flt k) = get flt k"
      using hid assms(3) by (auto simp: blank_entry_def)
    moreover from val eq have "get (blank flt) k = blank_entry k (get flt k)" by argo
    ultimately show ?thesis by (elim disjE) simp_all
  qed (simp_all add: eq get_absent)
qed

lemma key_tests_blank:
  assumes "k \<in> set (visible_keys (listed flt))"
  shows "key_tests ns opts nc (blank flt) (listed (blank flt)) k = key_tests ns opts nc flt (listed flt) k"
proof -
  have date: "get (blank flt) ''_dateFieldName'' = get flt ''_dateFieldName''"
    by (cases "''_dateFieldName'' \<in> fst ` set flt")
      (simp_all add: blank_def get_map_obj blank_entry_def hidden_fields_def get_absent)
  consider (null) "is_null_key (listed flt) k" | (cond) "\<not> is_null_key (listed flt) k" "k \<in> set value_conditions"
    | (plain) "\<not> is_null_key (listed flt) k" "k \<notin> set value_conditions" by blast
  then show ?thesis
  proof cases
    case null
    then show ?thesis using is_null_key_blank[OF assms] by (simp add: key_tests_def)
  next
    case cond
    have "get (map_obj (\<lambda>c. blank_val) ob) c = blank_val (get ob c)" if "c \<in> set (visible_keys ob)" for ob c
      using visible_keys_in[OF that] by (simp add: get_map_obj)
    then show ?thesis
      using cond is_null_key_blank(1)[OF assms]
      by (simp add: key_tests_def cond_fields_blank[OF assms] field_test_blank)
  next
    case plain
    have "field_test opts nc k column k (get (blank flt) k) = field_test opts nc k column k (get flt k)" for column
      by (intro field_test_cong get_plain_blank[OF assms plain, THEN conjunct1]
          get_plain_blank[OF assms plain, THEN conjunct2])
    with plain show ?thesis
      using is_null_key_blank(1)[OF assms] by (simp add: key_tests_def plain_column_def date)
  qed
qed

lemma key_ok_blank:
  assumes "k \<in> set (visible_keys (listed flt))" "key_ok flt (listed flt) k"
  shows "key_ok (blank flt) (listed (blank flt)) k"
proof -
  have "is_array (get (listed (blank flt)) k) = is_array (get (blank flt) k)"
    if "\<not> is_null_key (listed flt) k" "k \<notin> set value_conditions"
  proof (cases "isOrOp flt")
    case True
    with get_listed_blank[OF assms(1)] that(2)
    have "is_array (get (listed (blank flt)) k) = is_array (get (listed flt) k)"
      by (simp add: blank_entry_def)
    with that assms(2) get_plain_blank[OF assms(1) that] show ?thesis by (simp add: key_ok_def)
  next
    case False
    then show ?thesis by (simp add: listed_def isOrOp_blank)
  qed
  with assms(2) show ?thesis
    by (auto simp: key_ok_def is_null_key_blank(1)[OF assms(1)] cond_fields_blank[OF assms(1)])
qed

lemma readable_blank: "readable flt \<Longrightarrow> readable (blank flt)"
  using key_ok_blank by (auto simp: readable_def list_all_iff)

lemma where_tests_blank: "where_tests ns (blank flt) opts = where_tests ns flt opts"
  by (simp add: where_tests_def key_tests_blank)

text \<open>
  C16: values never become text. Two filters that differ only in their values have the same text:
  it is the text of the filter with its values taken out. What a caller sends reaches the database
  through placeholders only. (The columns named by \<^verbatim>\<open>$isNull\<close> are names, not values.)
\<close>

theorem where_text_without_values:
  assumes "readable flt"
  shows "map_option fst (getWhereQuery ns flt opts) = map_option fst (getWhereQuery ns (blank flt) opts)"
  using getWhereQuery_keyed[OF assms] getWhereQuery_keyed[OF readable_blank[OF assms]]
  by (simp add: where_tests_blank where_prefix_def where_operator_def isOrOp_blank)

theorem where_text_without_values_witness:
  "map_option fst (getWhereQuery plain_num sample_filter default_opts) =
   map_option fst (getWhereQuery plain_num (blank sample_filter) default_opts)"
  by (rule where_text_without_values[OF sample_filter_readable])

subsection \<open>Placeholders\<close>

fun test_holes :: "sql_test \<Rightarrow> string list" where
  "test_holes (Cmp column op (One n) nc) = [n]"
| "test_holes (Cmp column op (Many names) nc) = names"
| "test_holes (NullTests columns op) = []"

text \<open>The values a key compares with; an array counts as one value.\<close>

definition key_values :: "obj \<Rightarrow> obj \<Rightarrow> string \<Rightarrow> jsval list" where
  "key_values flt flt' k =
     (if is_null_key flt' k then []
      else if k \<in> set value_conditions
        then map (get (cond_fields (get flt' k))) (visible_keys (cond_fields (get flt' k)))
      else [get flt k])"

definition no_null_values :: "obj \<Rightarrow> bool" where
  "no_null_values flt \<longleftrightarrow>
     list_all (\<lambda>k. VNull \<notin> set (key_values flt (listed flt) k)) (visible_keys (listed flt))"

lemma serializeVal_null [simp]: "serializeVal ns v = VNull \<longleftrightarrow> v = VNull"
  by (cases v) auto

lemma field_bindings_names:
  "v \<noteq> VNull \<Longrightarrow> map fst (field_bindings ns opts n v) =
    map (bind_name opts) (test_holes (field_test opts nc orig column n v))"
  by (auto intro!: nth_equalityI simp: field_bindings_def field_test_def nth_enumerate_eq)

lemma map_fst_concat: "map fst (concat (map f xs)) = concat (map (map fst \<circ> f) xs)"
  by (induction xs) auto

lemma key_bindings_names:
  assumes "VNull \<notin> set (key_values flt flt' k)"
  shows "map fst (key_bindings ns opts flt flt' k) =
    map (bind_name opts) (concat (map test_holes (key_tests ns opts nc flt flt' k)))"
proof (cases "\<not> is_null_key flt' k \<and> k \<in> set value_conditions")
  case True
  define ks where "ks = visible_keys (cond_fields (get flt' k))"
  have "map fst (concat (map (\<lambda>c. field_bindings ns opts (c @ ''_'' @ k) (get (cond_fields (get flt' k)) c)) ks'))
    = map (bind_name opts) (concat (map test_holes (map (\<lambda>c. field_test opts nc k c (c @ ''_'' @ k)
        (get (cond_fields (get flt' k)) c)) ks')))" if "set ks' \<subseteq> set ks" for ks'
    using that
  proof (induction ks')
    case (Cons c ks')
    with assms True have "get (cond_fields (get flt' k)) c \<noteq> VNull"
      by (force simp: key_values_def ks_def[symmetric])
    from field_bindings_names[OF this] Cons show ?case by simp
  qed simp
  from this[of ks] True show ?thesis by (simp add: key_bindings_def key_tests_def ks_def)
next
  case False
  with assms show ?thesis
    using field_bindings_names by (auto simp: key_bindings_def key_tests_def key_values_def)
qed

lemma where_bindings_names:
  assumes "no_null_values flt"
  shows "map fst (where_bindings ns flt opts) =
    map (bind_name opts) (concat (map test_holes (concat (where_tests ns flt opts))))"
proof -
  have "map fst (concat (map (key_bindings ns opts flt (listed flt)) ks)) = map (bind_name opts)
      (concat (map test_holes (concat (map (key_tests ns opts nc flt (listed flt)) ks))))"
    if "set ks \<subseteq> set (visible_keys (listed flt))" for ks nc
    using that
  proof (induction ks)
    case (Cons k ks)
    with assms have "VNull \<notin> set (key_values flt (listed flt) k)"
      by (auto simp: no_null_values_def list_all_iff)
    from key_bindings_names[OF this, of ns opts nc] Cons show ?case by simp
  qed simp
  then show ?thesis by (simp add: where_bindings_def where_tests_def)
qed

text \<open>
  Placeholders and values agree. The values that go with the text of a condition are exactly
  those of its placeholders: none is missing and none is left over, as long as no value is
  \<^verbatim>\<open>null\<close>.
\<close>

theorem where_placeholders_bound:
  assumes "readable flt" "no_null_values flt" "getWhereQuery ns flt opts = Some (w, vals)"
  shows "fst ` set vals =
    bind_name opts ` set (concat (map test_holes (concat (where_tests ns flt opts))))"
proof -
  have "vals = merge_obj [] (where_bindings ns flt opts)"
    using assms(3) by (simp add: getWhereQuery_keyed[OF assms(1)])
  then have "fst ` set vals = set (map fst (where_bindings ns flt opts))" by simp
  then show ?thesis unfolding where_bindings_names[OF assms(2)] by simp
qed

theorem where_placeholders_bound_witness:
  "\<exists>w vals. getWhereQuery plain_num sample_filter default_opts = Some (w, vals) \<and>
    fst ` set vals = bind_name default_opts `
      set (concat (map test_holes (concat (where_tests plain_num sample_filter default_opts))))"
proof -
  have "no_null_values sample_filter" by code_simp
  moreover obtain w vals where "getWhereQuery plain_num sample_filter default_opts = Some (w, vals)"
    using getWhereQuery_keyed[OF sample_filter_readable] by blast
  ultimately show ?thesis using where_placeholders_bound[OF sample_filter_readable] by blast
qed

subsection \<open>What a condition means\<close>

text \<open>
  A row gives every column a value. An equality with a single placeholder and without
  \<^verbatim>\<open>COLLATE NOCASE\<close> holds when the column has the bound value and this is not \<^verbatim>\<open>NULL\<close>; what
  the other operators of the database mean is the parameter \<open>sem\<close>.
\<close>

record sql_sem =
  semCmp :: "string \<Rightarrow> string \<Rightarrow> jsval \<Rightarrow> jsval list \<Rightarrow> bool"
  semNull :: "string \<Rightarrow> jsval \<Rightarrow> bool"

fun test_holds :: "sql_sem \<Rightarrow> where_opts \<Rightarrow> obj \<Rightarrow> (string \<Rightarrow> jsval) \<Rightarrow> sql_test \<Rightarrow> bool" where
  "test_holds sem opts vals row (Cmp column op (One n) nc) =
     (if op = ''='' \<and> nc = []
      then row column = get vals (bind_name opts n) \<and> get vals (bind_name opts n) \<notin> {VNull, VUndef}
      else semCmp sem op nc (row column) [get vals (bind_name opts n)])"
| "test_holds sem opts vals row (Cmp column op (Many names) nc) =
     semCmp sem op nc (row column) (map (\<lambda>n. get vals (bind_name opts n)) names)"
| "test_holds sem opts vals row (NullTests columns op) = list_all (\<lambda>c. semNull sem op (row c)) columns"

definition where_selects ::
  "sql_sem \<Rightarrow> (rat \<Rightarrow> string) \<Rightarrow> obj \<Rightarrow> where_opts \<Rightarrow> (string \<Rightarrow> jsval) \<Rightarrow> bool" where
  "where_selects sem ns flt opts row \<longleftrightarrow>
     (let vals = merge_obj [] (where_bindings ns flt opts);
          tests = concat (where_tests ns flt opts)
      in visible_keys (listed flt) = [] \<or>
         (if isOrOp flt then list_ex else list_all) (test_holds sem opts vals row) tests)"

subsection \<open>The rows of an owner\<close>

lemma keys_list_update: "fst ` set (AList.update k v m) = insert k (fst ` set m)"
  using arg_cong[OF keys_update[of k v m], of set] by (auto simp: map_keys_def)

lemma nocase_conditions:
  "fst ` set accum \<subseteq> set filter_conditions \<Longrightarrow> fst ` set (nocase_val outKey accum v) \<subseteq> set filter_conditions"
  "fst ` set accum \<subseteq> set filter_conditions \<Longrightarrow> fst ` set (nocase_entries outKey accum ob) \<subseteq> set filter_conditions"
  by (induction outKey accum v and outKey accum ob rule: nocase_val_nocase_entries.induct)
    (auto simp: add_nocase_def keys_list_update split: option.splits if_splits)

lemma no_nocase:
  "orig \<notin> set filter_conditions \<Longrightarrow> \<not> isSetNoCaseOp column orig (nocase_val None [] v)"
  using nocase_conditions(1)[of "[]" None v] by (force simp: isSetNoCaseOp_def list_ex_iff)

lemma get_merge_same:
  assumes "\<And>v. (k, v) \<in> set b \<Longrightarrow> v = w" "k \<in> fst ` set b"
  shows "get (merge_obj a b) k = w"
  using assms
proof (induction b arbitrary: a)
  case (Cons kv b)
  obtain k' v where kv: "kv = (k', v)" by (cases kv)
  show ?case
  proof (cases "k \<in> fst ` set b")
    case True
    with Cons show ?thesis by (simp add: kv)
  next
    case False
    with Cons.prems show ?thesis by (simp add: kv get_merge_other)
  qed
qed simp

text \<open>Names of placeholders end in a digit, in the name of a condition, or are the key itself.\<close>

definition generated_ends :: "char set" where
  "generated_ends = set ''0123456789teqn''"

lemma binding_name_cases:
  assumes "tableAlias opts = []" "\<not> isPrefixed opts" "(n, v) \<in> set (key_bindings ns opts flt flt' k)"
  shows "last n \<in> generated_ends \<or> n = k \<and> v = serializeVal ns (get flt k)"
proof -
  have dig: "last (m @ ''_'' @ dec j) \<in> generated_ends" for m j
    using dec_chars[OF last_in_set[OF dec_not_Nil]] by (auto simp: generated_ends_def)
  have cond: "last (c @ ''_'' @ k) \<in> generated_ends" if "k \<in> set value_conditions" for c
    using that by (auto simp: value_conditions_def generated_ends_def)
  have fb: "n' = m \<and> v' = serializeVal ns w \<or> (\<exists>j. n' = m @ ''_'' @ dec j)"
    if "(n', v') \<in> set (field_bindings ns opts m w)" for n' v' m w
    using that assms(1,2)
    by (auto simp: field_bindings_def item_name_def bind_name_def alias_name_def in_set_enumerate_eq
        split: if_splits)
  show ?thesis
  proof (cases "\<not> is_null_key flt' k \<and> k \<in> set value_conditions")
    case True
    with assms(3) obtain c where "(n, v) \<in> set (field_bindings ns opts (c @ ''_'' @ k)
        (get (cond_fields (get flt' k)) c))"
      by (auto simp: key_bindings_def)
    from fb[OF this] show ?thesis
    proof
      assume "n = c @ ''_'' @ k \<and> v = serializeVal ns (get (cond_fields (get flt' k)) c)"
      with cond[of c] True show ?thesis by metis
    next
      assume "\<exists>j. n = (c @ ''_'' @ k) @ ''_'' @ dec j"
      with dig show ?thesis by metis
    qed
  next
    case False
    with assms(3) have "(n, v) \<in> set (field_bindings ns opts k (get flt k))"
      by (auto simp: key_bindings_def split: if_splits)
    from fb[OF this] dig show ?thesis by metis
  qed
qed

lemma where_owner_rows:
  assumes "\<not> isOrOp flt" "get flt ''user_id'' = VNum u"
    and opts: "tableAlias opts = []" "\<not> isPrefixed opts"
    and sel: "where_selects sem ns flt opts row"
  shows "row ''user_id'' = VNum u"
proof -
  define nc where "nc = nocase_val None [] (requestedFilter opts)"
  have listed: "listed flt = flt" using assms(1) by (simp add: listed_def)
  have vis: "''user_id'' \<in> set (visible_keys flt)"
  proof -
    have "''user_id'' \<in> fst ` set flt" using assms(2) get_absent by fastforce
    then show ?thesis by (auto simp: visible_keys_def omit_def hidden_fields_def)
  qed
  have plain: "\<not> is_null_key flt ''user_id''" "''user_id'' \<notin> set value_conditions"
    by (simp_all add: is_null_key_def value_conditions_def)
  have test: "key_tests ns opts nc flt flt ''user_id'' = [Cmp ''user_id'' ''='' (One ''user_id'') []]"
    using plain no_nocase[of "''user_id''" "''user_id''" "requestedFilter opts"] opts
    by (simp add: key_tests_def field_test_def assms(2) alias_dot_def alias_name_def plain_column_def
        nc_def getCompareOperator_def filter_conditions_def)
  have "get (merge_obj [] (where_bindings ns flt opts)) ''user_id'' = VNum u"
  proof (rule get_merge_same)
    fix v assume "(''user_id'', v) \<in> set (where_bindings ns flt opts)"
    then obtain k where k: "(''user_id'', v) \<in> set (key_bindings ns opts flt flt k)"
      by (auto simp: where_bindings_def listed)
    from binding_name_cases[OF opts k] assms(2) show "v = VNum u" by (auto simp: generated_ends_def)
  next
    have "(''user_id'', VNum u) \<in> set (key_bindings ns opts flt flt ''user_id'')"
      using plain opts
      by (simp add: key_bindings_def field_bindings_def assms(2) bind_name_def alias_name_def)
    with vis have "(''user_id'', VNum u) \<in> set (where_bindings ns flt opts)"
      by (auto simp: where_bindings_def listed)
    then show "''user_id'' \<in> fst ` set (where_bindings ns flt opts)" by force
  qed
  moreover have "test_holds sem opts (merge_obj [] (where_bindings ns flt opts)) row
      (Cmp ''user_id'' ''='' (One ''user_id'') [])"
    using sel vis test assms(1)
    by (auto simp: where_selects_def listed where_tests_def nc_def[symmetric] list_all_iff Let_def)
  ultimately show ?thesis using opts by (simp add: bind_name_def)
qed

end
