(* ===== verification/Db_Query.thy ===== *)
theory Db_Query
  imports Db_Where_Safe "HOL-Library.Sublist"
begin

text \<open>
  The queries for the rows of a collection (\<^verbatim>\<open>sync/dao/helpers\<close>): order, limit, projection,
  grouping and sub-query, the filters that come from the parameters of a request
  (\<^verbatim>\<open>find-in-coll-by/get-filter-params.js\<close> and what it calls), the text of the query
  (\<^verbatim>\<open>find-in-coll-by/get-query.js\<close>), the queries for users, and the second query that is made
  when a page ends between rows of the same time (\<^verbatim>\<open>prepare-db-response.js\<close>).

  The collection is its schema model; \<^verbatim>\<open>Date.now()\<close> is the parameter \<open>now\<close>. A field of the schema
  that is not set is \<^verbatim>\<open>null\<close>.
\<close>

datatype db_error = AuthError | TypeError | ObjectMappingError | SqlCorrectnessError
  | RemoveElemsLeaveLastNRecordsError | UpdateRecordError | DbVersionTypeError
  | Locked_Db | Other_Db string

record coll_model =
  cmName :: string
  cmType :: string
  cmDateField :: "string option"
  cmSymbolField :: "string option"
  cmTimeframeField :: "string option"
  cmAdditional :: obj
  cmFields :: "string list"
  cmSort :: jsval
  cmGroupFns :: "string list"
  cmGroupResBy :: "string list"
  cmMaxLimit :: "int option"

subsection \<open>Types of collections\<close>

definition lower_char :: "char \<Rightarrow> char" where
  "lower_char c = (let n = of_char c :: nat in if 65 \<le> n \<and> n \<le> 90 then char_of (n + 32) else c)"

text \<open>The patterns of \<^verbatim>\<open>schema/utils/check-coll-type.js\<close>; case does not matter.\<close>

definition isInsertableArrObj :: "string \<Rightarrow> bool" where
  "isInsertableArrObj type = suffix ''insertable:array:object'' (map lower_char type)"

definition isUpdatable :: "string \<Rightarrow> bool" where
  "isUpdatable type = sublist ''updatable:'' (map lower_char type)"

definition isPublicColl :: "string \<Rightarrow> bool" where
  "isPublicColl type = sublist ''public:'' (map lower_char type)"

subsection \<open>Parts of a query\<close>

fun order_item :: "jsval \<Rightarrow> string list" where
  "order_item (VArr (VStr f # VNum d # rest)) = [f @ (if d > 0 then '' ASC'' else '' DESC'')]"
| "order_item v = []"

definition getOrderQuery :: "jsval \<Rightarrow> string" where
  "getOrderQuery srt = (case srt of
     VArr items \<Rightarrow> let s = concat (map order_item items) in
       if s = [] then [] else ''ORDER BY '' @ join '', '' s
   | _ \<Rightarrow> [])"

fun is_integer :: "jsval \<Rightarrow> bool" where
  "is_integer (VNum x) = (x = of_int \<lfloor>x\<rfloor>)"
| "is_integer v = False"

definition getLimitQuery :: "jsval \<Rightarrow> bool \<Rightarrow> string \<times> obj" where
  "getLimitQuery limitParam prefixed =
     (if is_integer limitParam
      then (''LIMIT $_limit'', [(if prefixed then ''$_limit'' else ''_limit'', limitParam)])
      else ([], []))"

definition getGroupQuery :: "string list \<Rightarrow> string list \<Rightarrow> string \<times> string" where
  "getGroupQuery groupFns groupResBy =
     (if groupResBy \<noteq> [] then ''GROUP BY '' @ join '', '' groupResBy else [],
      if groupFns \<noteq> [] then join '', '' groupFns @ '' '' else [])"

definition getProjectionQuery :: "string list \<Rightarrow> string list \<Rightarrow> bool \<Rightarrow> string" where
  "getProjectionQuery projArr exclude isExcludePrivate =
     (let filtered = filter (\<lambda>f. f \<notin> set exclude) projArr;
          proj = (if isExcludePrivate then filter (\<lambda>f. \<not> prefix ''_'' f) filtered else filtered)
      in if proj = [] then ''*'' else join '', '' proj)"

definition getSubQuery ::
  "(rat \<Rightarrow> string) \<Rightarrow> string \<Rightarrow> obj \<Rightarrow> jsval \<Rightarrow> (string \<times> obj) option" where
  "getSubQuery ns name flt srt =
     (let al = name @ ''_sub_q'' in
      case getWhereQuery ns flt (default_opts\<lparr>tableAlias := al\<rparr>) of
        None \<Rightarrow> None
      | Some (w, vals) \<Rightarrow>
          let srt' = getOrderQuery srt in
          if srt' = [] \<and> w = [] then Some (name, [])
          else Some (''(SELECT * FROM '' @ name @ '' AS '' @ al @ '' '' @ w @ '' '' @ srt' @ '')'', vals))"

definition getPlaceholdersQuery :: "(rat \<Rightarrow> string) \<Rightarrow> obj \<Rightarrow> string list \<Rightarrow> string \<times> obj" where
  "getPlaceholdersQuery ns ob keys =
     (join '', '' (map hole keys),
      foldl (\<lambda>vals k. put vals k (serializeVal ns (get ob k))) [] keys)"

subsection \<open>The filter of a request\<close>

definition getSymbolFilter :: "jsval \<Rightarrow> string \<Rightarrow> obj" where
  "getSymbolFilter symbol symbolFieldName =
     (case symbol of
        VStr s \<Rightarrow> [(symbolFieldName, VStr s)]
      | VArr xs \<Rightarrow> [(symbolFieldName, if length xs = 1 then hd xs else VArr xs)]
      | _ \<Rightarrow> [])"

fun is_string :: "jsval \<Rightarrow> bool" where
  "is_string (VStr s) = True"
| "is_string v = False"

definition timeframe_filter :: "jsval \<Rightarrow> string \<Rightarrow> bool \<Rightarrow> obj" where
  "timeframe_filter timeframe timeframeFieldName isTimeframeArray =
     [(if isTimeframeArray then ''$in'' else ''$eq'', VObj [(timeframeFieldName, timeframe)])]"

definition getTimeframeFilter :: "jsval \<Rightarrow> string option \<Rightarrow> obj" where
  "getTimeframeFilter timeframe timeframeFieldName =
     (case timeframeFieldName of
        None \<Rightarrow> []
      | Some f \<Rightarrow>
          if f = [] then []
          else case timeframe of
            VStr s \<Rightarrow> timeframe_filter timeframe f False
          | VArr xs \<Rightarrow>
              if xs = [] \<or> \<not> list_all is_string xs then []
              else if length xs = 1 then timeframe_filter (hd xs) f False
              else timeframe_filter timeframe f True
          | _ \<Rightarrow> [])"

definition getFieldsFilters :: "string list \<Rightarrow> obj \<Rightarrow> string list \<Rightarrow> obj" where
  "getFieldsFilters fieldNames ps modelFields = foldl (\<lambda>accum fieldName.
     let modelFieldName = CHR ''_'' # fieldName in
     if modelFieldName \<in> set modelFields then
       (case get ps fieldName of
          VBool b \<Rightarrow> put accum modelFieldName (VNum (if b then 1 else 0))
        | VNum x \<Rightarrow> put accum modelFieldName (VNum x)
        | _ \<Rightarrow> accum)
     else accum) [] fieldNames"

definition or_default :: "jsval \<Rightarrow> jsval \<Rightarrow> jsval" where
  "or_default v d = (if v = VUndef then d else v)"

definition null_or :: "string option \<Rightarrow> jsval" where
  "null_or x = (case x of None \<Rightarrow> VNull | Some s \<Rightarrow> VStr s)"

definition getInsertableArrayObjectsFilter :: "rat \<Rightarrow> coll_model \<Rightarrow> obj \<Rightarrow> obj" where
  "getInsertableArrayObjectsFilter now coll ps =
     (if \<not> isInsertableArrObj (cmType coll) then []
      else
        let start = or_default (get ps ''start'') (VNum 0);
            end' = or_default (get ps ''end'') (VNum now);
            reqFilter = or_default (get ps ''filter'') (VObj []);
            symbFilter = getSymbolFilter (get ps ''symbol'') (nullish (cmSymbolField coll) ''null'');
            timeframeFilter = getTimeframeFilter (get ps ''timeframe'') (cmTimeframeField coll);
            fieldsFilters = getFieldsFilters
              [''isMarginFundingPayment'', ''isAffiliateRebate'', ''isStakingPayments'', ''category'']
              ps (cmFields coll)
        in foldl merge_obj (spread reqFilter)
             [[(''_dateFieldName'', null_or (cmDateField coll))], [(''start'', start)], [(''end'', end')],
              cmAdditional coll, symbFilter, timeframeFilter, fieldsFilters])"

definition getStatusMessagesFilter :: "coll_model \<Rightarrow> obj \<Rightarrow> obj" where
  "getStatusMessagesFilter coll ps =
     (if cmName coll \<noteq> ''statusMessages'' then []
      else foldl merge_obj (spread (or_default (get ps ''filter'') (VObj [])))
        [[(''_type'', get ps ''type'')], cmAdditional coll,
         getSymbolFilter (get ps ''symbol'') (nullish (cmSymbolField coll) ''null'')])"

definition getFilterParams ::
  "rat \<Rightarrow> jsval \<Rightarrow> obj \<Rightarrow> coll_model \<Rightarrow> bool \<Rightarrow> db_error + jsval \<times> obj" where
  "getFilterParams now auth ps coll isPublic =
     (let flt = merge_obj (getInsertableArrayObjectsFilter now coll ps) (getStatusMessagesFilter coll ps);
          au = spread auth;
          reqFilter = get ps ''filter''
      in if isPublic then Inr (reqFilter, flt)
         else if \<not> is_integer (get au ''_id'') then Inl AuthError
         else
           let flt' = (if cmName coll = ''ledgers'' \<and> truthy (get au ''isSubAccount'')
                       then put flt ''_isBalanceRecalced'' (VNum 1) else flt)
           in Inr (reqFilter, put flt' ''user_id'' (get au ''_id'')))"

subsection \<open>The query of a collection\<close>

record query_opts =
  qoPublic :: bool
  qoAdditionalFields :: "string list"
  qoExcludePrivate :: bool

text \<open>\<^verbatim>\<open>{ ...model.getModelFields(), ...additionalModel }\<close>, of which only the names are used\<close>

definition all_fields :: "coll_model \<Rightarrow> query_opts \<Rightarrow> string list" where
  "all_fields coll qo = cmFields coll @ filter (\<lambda>f. f \<notin> set (cmFields coll)) (remdups (qoAdditionalFields qo))"

definition newline_indent :: string where
  "newline_indent = CHR 0x0A # ''    ''"

definition select_text ::
  "string \<Rightarrow> string \<Rightarrow> string \<Rightarrow> string \<Rightarrow> string \<Rightarrow> string \<Rightarrow> string \<Rightarrow> string" where
  "select_text groupProj projection subQuery w grp srt limit =
     (let delimiter = (if groupProj \<noteq> [] \<and> projection \<noteq> [] then '', '' else [])
      in ''SELECT '' @ groupProj @ delimiter @ projection @ '' FROM '' @ subQuery
         @ newline_indent @ w @ newline_indent @ grp @ newline_indent @ srt
         @ newline_indent @ limit)"

definition getQuery ::
  "(rat \<Rightarrow> string) \<Rightarrow> rat \<Rightarrow> jsval \<Rightarrow> obj \<Rightarrow> coll_model \<Rightarrow> query_opts \<Rightarrow> db_error + string \<times> obj" where
  "getQuery ns now auth ps coll qo =
     bind_err (getFilterParams now auth ps coll (qoPublic qo)) (\<lambda>(reqFilter, flt).
       let exclude = (if qoPublic qo then [''_id'', ''user_id''] else [''_id'']);
           (limit, limitVal) = getLimitQuery (get ps ''limit'') False;
           srt = getOrderQuery (cmSort coll)
       in case getWhereQuery ns flt (default_opts\<lparr>requestedFilter := reqFilter\<rparr>) of
            None \<Rightarrow> Inl TypeError
          | Some (w, vals) \<Rightarrow>
              let (grp, groupProj) = getGroupQuery (cmGroupFns coll) (cmGroupResBy coll)
              in case getSubQuery ns (cmName coll) [] (VArr []) of
                   None \<Rightarrow> Inl TypeError
                 | Some (subQuery, subQueryValues) \<Rightarrow>
                     let projection = getProjectionQuery (all_fields coll qo) exclude (qoExcludePrivate qo)
                     in Inr (select_text groupProj projection subQuery w grp srt limit,
                          merge_obj (merge_obj vals subQueryValues) limitVal))"

end
