(* ===== verification/Db_Temp.thy ===== *)
theory Db_Temp
  imports Db_Query "HOL-Library.List_Lexorder" "HOL-Library.Char_ord"
begin

text \<open>
  The temporary tables of a synchronisation (\<^verbatim>\<open>data.inserter/sync.temp.tables.manager/index.js\<close>)
  and the operations of the database layer on whole tables (\<^verbatim>\<open>dao.better.sqlite.js\<close>: filtering
  table names, dropping tables, moving temporary rows to the main tables chunk by chunk).

  A database is the list of its tables in the order of their names, which is the order the query for
  the names asks for; tables of the database engine itself (\<^verbatim>\<open>sqlite_\<close>) are not part of it. A table
  lists its rows in the order of their \<^verbatim>\<open>_id\<close>. What \<^verbatim>\<open>INSERT OR REPLACE\<close> makes of one more row (a new
  \<^verbatim>\<open>_id\<close>, rows with the same unique key) is the parameter \<open>insertRow\<close>. The loop over the chunks
  waits for the event loop in every round, which has no effect here. It may run forever, so it is a
  partial function: \<^const>\<open>None\<close> is not to return.
\<close>

type_synonym sql_table = "(int \<times> obj) list"

type_synonym database = "(string \<times> sql_table) list"

record temp_env =
  insertRow :: "string \<Rightarrow> obj \<Rightarrow> sql_table \<Rightarrow> sql_table"
  modelKeys :: "string \<Rightarrow> string list option"
  schemaType :: "string \<Rightarrow> string"

definition table_of_db :: "database \<Rightarrow> string \<Rightarrow> sql_table" where
  "table_of_db db name = nullish (map_of db name) []"

definition change_table :: "string \<Rightarrow> (sql_table \<Rightarrow> sql_table) \<Rightarrow> database \<Rightarrow> database" where
  "change_table name f db = map (\<lambda>(n, t). (n, if n = name then f t else t)) db"

subsection \<open>Names\<close>

text \<open>\<^verbatim>\<open>s.includes(x)\<close> is \<^term>\<open>sublist x s\<close>; \<^verbatim>\<open>s.replace(x, '')\<close> removes the first occurrence.\<close>

fun remove_first :: "string \<Rightarrow> string \<Rightarrow> string" where
  "remove_first x [] = []"
| "remove_first x (c # cs) = (if prefix x (c # cs) then drop (length x) (c # cs) else c # remove_first x cs)"

definition getNamePrefix :: "nat \<Rightarrow> string" where
  "getNamePrefix syncQueueId = ''temp_s'' @ dec syncQueueId @ ''_''"

definition getTempTableName :: "string \<Rightarrow> nat \<Rightarrow> string" where
  "getTempTableName tableName syncQueueId = getNamePrefix syncQueueId @ tableName"

definition getFilteredTablesNames ::
  "string list \<Rightarrow> string list \<Rightarrow> bool \<Rightarrow> database \<Rightarrow> string list" where
  "getFilteredTablesNames exceptions expectations isNotStrictEqual db =
     filter (\<lambda>name.
       list_all (\<lambda>exc. name \<noteq> exc \<and> (\<not> isNotStrictEqual \<or> \<not> sublist exc name)) exceptions
       \<and> (expectations = [] \<or>
          list_ex (\<lambda>e. name = e \<or> isNotStrictEqual \<and> sublist e name) expectations)) (map fst db)"

definition dropAllTables :: "string list \<Rightarrow> string list \<Rightarrow> bool \<Rightarrow> database \<Rightarrow> database" where
  "dropAllTables exceptions expectations isNotStrictEqual db =
     (let names = getFilteredTablesNames exceptions expectations isNotStrictEqual db
      in filter (\<lambda>(n, t). n \<notin> set names) db)"

definition hasTable :: "string list \<Rightarrow> database \<Rightarrow> bool" where
  "hasTable names db \<longleftrightarrow> list_all (\<lambda>n. n \<in> set (map fst db)) names"

subsection \<open>The manager\<close>

text \<open>Creating the structure of a synchronisation: \<^verbatim>\<open>CREATE TABLE IF NOT EXISTS\<close> for every collection.\<close>

definition create_table :: "string \<Rightarrow> database \<Rightarrow> database" where
  "create_table name db = (if name \<in> set (map fst db) then db
     else takeWhile (\<lambda>(n, t). n < name) db @ (name, []) # dropWhile (\<lambda>(n, t). n < name) db)"

definition createTempDBStructureForCurrSync :: "nat \<Rightarrow> string list \<Rightarrow> database \<Rightarrow> database" where
  "createTempDBStructureForCurrSync syncQueueId collNames db =
     foldl (\<lambda>d name. create_table (getTempTableName name syncQueueId) d) db collNames"

definition removeTempDBStructureForCurrSync :: "nat \<Rightarrow> database \<Rightarrow> database" where
  "removeTempDBStructureForCurrSync syncQueueId db =
     dropAllTables [] [getNamePrefix syncQueueId] True db"

text \<open>Only the tables of jobs that may go on are kept; \<open>active\<close> are their ids.\<close>

definition cleanUpTempDBStructure :: "nat list \<Rightarrow> database \<Rightarrow> database" where
  "cleanUpTempDBStructure active db =
     dropAllTables (map getNamePrefix active) [''temp_s''] True db"

definition cleanUpAllTempDBStructure :: "database \<Rightarrow> database" where
  "cleanUpAllTempDBStructure db = dropAllTables [] [''temp_s''] True db"

subsection \<open>Moving rows\<close>

definition project :: "string list \<Rightarrow> obj \<Rightarrow> obj" where
  "project keys r = map (\<lambda>k. (k, get r k)) keys"

text \<open>\<^verbatim>\<open>INSERT OR REPLACE INTO name(...) SELECT ... FROM tempName WHERE _id >= ? AND _id <= ?\<close>\<close>

definition copy_range ::
  "temp_env \<Rightarrow> string \<Rightarrow> string list \<Rightarrow> sql_table \<Rightarrow> int \<Rightarrow> int \<Rightarrow> sql_table \<Rightarrow> sql_table" where
  "copy_range env name projection temp startId endId main =
     foldl (\<lambda>m (i, r). insertRow env name (project projection r) m) main
       (filter (\<lambda>(i, r). startId \<le> i \<and> i \<le> endId) temp)"

definition first_id :: "int \<Rightarrow> sql_table \<Rightarrow> int option" where
  "first_id i temp = map_option fst (find (\<lambda>(j, r). i \<le> j) temp)"

partial_function (option) chunk_loop ::
  "temp_env \<Rightarrow> string \<Rightarrow> string list \<Rightarrow> int \<Rightarrow> sql_table \<Rightarrow> int option \<Rightarrow> sql_table \<Rightarrow> sql_table option" where
  "chunk_loop env name projection chunkLength temp startId main =
     (case startId of
        None \<Rightarrow> Some main
      | Some s \<Rightarrow>
          let endId = s + chunkLength - 1;
              main' = copy_range env name projection temp s endId main
          in chunk_loop env name projection chunkLength temp (first_id (endId + 1) temp) main')"

definition uid_field :: string where
  "uid_field = ''_id''"

definition move_table ::
  "temp_env \<Rightarrow> string \<Rightarrow> bool \<Rightarrow> int \<Rightarrow> string \<Rightarrow> database \<Rightarrow> database option" where
  "move_table env namePrefix isStrictEqual chunkLength tempName db =
     (let name = remove_first namePrefix tempName in
      case modelKeys env name of
        None \<Rightarrow> Some db
      | Some keys \<Rightarrow>
          let projection = filter (\<lambda>k. k \<noteq> uid_field) keys;
              main = (if isStrictEqual \<or> isUpdatable (schemaType env name) then [] else table_of_db db name);
              temp = table_of_db db tempName
          in case chunk_loop env name projection chunkLength temp (map_option fst (find (\<lambda>_. True) temp)) main of
               None \<Rightarrow> None
             | Some main' \<Rightarrow> Some (change_table name (\<lambda>_. main') db))"

fun move_tables ::
  "temp_env \<Rightarrow> string \<Rightarrow> bool \<Rightarrow> int \<Rightarrow> string list \<Rightarrow> database \<Rightarrow> database option" where
  "move_tables env namePrefix isStrictEqual chunkLength [] db = Some db"
| "move_tables env namePrefix isStrictEqual chunkLength (t # ts) db =
     (case move_table env namePrefix isStrictEqual chunkLength t db of
        None \<Rightarrow> None
      | Some db' \<Rightarrow> move_tables env namePrefix isStrictEqual chunkLength ts db')"

text \<open>The first component is what is returned: \<^verbatim>\<open>false\<close> when there is no prefix.\<close>

definition moveTempTableDataToMain ::
  "temp_env \<Rightarrow> string \<Rightarrow> bool \<Rightarrow> int \<Rightarrow> database \<Rightarrow> (bool \<times> database) option" where
  "moveTempTableDataToMain env namePrefix isStrictEqual chunkLength db =
     (if namePrefix = [] then Some (False, db)
      else map_option (Pair True) (move_tables env namePrefix isStrictEqual chunkLength
        (filter (sublist namePrefix) (map fst db)) db))"

subsection \<open>Chunks do not matter\<close>

definition rows_sorted :: "sql_table \<Rightarrow> bool" where
  "rows_sorted t \<longleftrightarrow> sorted_wrt (<) (map fst t)"

definition copy_rows :: "temp_env \<Rightarrow> string \<Rightarrow> string list \<Rightarrow> sql_table \<Rightarrow> sql_table \<Rightarrow> sql_table" where
  "copy_rows env name projection rows main =
     foldl (\<lambda>m (i, r). insertRow env name (project projection r) m) main rows"

lemma copy_rows_append:
  "copy_rows env name pr (a @ b) main = copy_rows env name pr b (copy_rows env name pr a main)"
  by (simp add: copy_rows_def)

lemma find_filter_hd: "find P xs = (case filter P xs of [] \<Rightarrow> None | x # ys \<Rightarrow> Some x)"
  by (induction xs) auto

lemma split_sorted_rows:
  fixes t :: "(int \<times> 'r) list"
  assumes "sorted_wrt (<) (map fst t)"
  shows "t = filter (\<lambda>(j, r). j \<le> e) t @ filter (\<lambda>(j, r). \<not> j \<le> e) t"
  using assms
proof (induction t)
  case (Cons x t)
  show ?case
  proof (cases "fst x \<le> e")
    case True
    with Cons show ?thesis by (simp add: split_beta)
  next
    case False
    with Cons.prems have "filter (\<lambda>x. fst x \<le> e) t = []" "filter (\<lambda>x. \<not> fst x \<le> e) t = t"
      by (auto simp: filter_empty_conv filter_id_conv)
    with False show ?thesis by (simp add: split_beta)
  qed
qed simp

text \<open>From the first row at or after \<open>i\<close>, the loop copies every row at or after \<open>i\<close>.\<close>

lemma chunk_loop_copies:
  assumes "rows_sorted temp" "0 < chunkLength"
  shows "chunk_loop env name pr chunkLength temp (first_id i temp) main =
    Some (copy_rows env name pr (filter (\<lambda>(j, r). i \<le> j) temp) main)"
proof (induction "length (filter (\<lambda>(j, r). i \<le> j) temp)" arbitrary: i main rule: less_induct)
  case less
  show ?case
  proof (cases "filter (\<lambda>(j, r). i \<le> j) temp")
    case Nil
    then have "first_id i temp = None" by (simp add: first_id_def find_filter_hd)
    with Nil show ?thesis by (subst chunk_loop.simps) (simp add: copy_rows_def)
  next
    case (Cons x rest)
    obtain s r where x: "x = (s, r)" by (cases x)
    have first: "first_id i temp = Some s" using Cons by (simp add: first_id_def find_filter_hd x)
    define e where "e = s + chunkLength - 1"
    have s: "s \<le> e" "i \<le> s" using assms(2) Cons x by (auto simp: e_def filter_eq_Cons_iff)
    have srt: "sorted_wrt (<) (map fst (filter (\<lambda>(j, r). i \<le> j) temp))"
      using assms(1) by (simp add: rows_sorted_def sorted_wrt_map sorted_wrt_filter)
    then have later: "\<forall>y\<in>set rest. s < fst y" by (simp add: Cons x)
    have range_eq: "filter (\<lambda>(j, r). s \<le> j \<and> j \<le> e) temp =
        filter (\<lambda>(j, r). j \<le> e) (filter (\<lambda>(j, r). i \<le> j) temp)"
    proof -
      have "(s \<le> fst y) = (i \<le> fst y)" if "y \<in> set temp" for y
      proof
        assume "i \<le> fst y"
        with that have "y \<in> set (filter (\<lambda>(j, r). i \<le> j) temp)" by (simp add: split_beta)
        then have "y \<in> set (x # rest)" by (simp only: Cons)
        with later show "s \<le> fst y" by (auto simp: x)
      qed (use s in simp)
      then show ?thesis by (auto simp: split_beta intro!: filter_cong)
    qed
    have rest_eq: "filter (\<lambda>(j, r). e + 1 \<le> j) temp =
        filter (\<lambda>(j, r). \<not> j \<le> e) (filter (\<lambda>(j, r). i \<le> j) temp)"
      using s by (auto simp: split_beta intro!: filter_cong)
    note split = split_sorted_rows[OF srt, of e]
    have "length (filter (\<lambda>(j, r). e + 1 \<le> j) temp) < length (filter (\<lambda>(j, r). i \<le> j) temp)"
      unfolding rest_eq Cons using s by (simp add: x le_imp_less_Suc)
    from less(1)[OF this] have rec: "chunk_loop env name pr chunkLength temp (first_id (e + 1) temp) m =
        Some (copy_rows env name pr (filter (\<lambda>(j, r). e + 1 \<le> j) temp) m)" for m .
    have "copy_rows env name pr (filter (\<lambda>(j, r). i \<le> j) temp) main =
      copy_rows env name pr (filter (\<lambda>(j, r). e + 1 \<le> j) temp) (copy_range env name pr temp s e main)"
      unfolding copy_range_def copy_rows_def[symmetric] rest_eq range_eq copy_rows_append[symmetric]
      by (rule arg_cong[OF split, of "\<lambda>t. copy_rows env name pr t main"])
    with rec first show ?thesis
      by (subst chunk_loop.simps) (simp add: Let_def e_def[symmetric])
  qed
qed

text \<open>What a main table is after its temporary table was moved.\<close>

definition moved_table :: "temp_env \<Rightarrow> string \<Rightarrow> bool \<Rightarrow> database \<Rightarrow> string \<Rightarrow> sql_table" where
  "moved_table env p isStrictEqual db n =
     (case modelKeys env n of
        None \<Rightarrow> table_of_db db n
      | Some keys \<Rightarrow> copy_rows env n (filter (\<lambda>k. k \<noteq> uid_field) keys) (table_of_db db (p @ n))
          (if isStrictEqual \<or> isUpdatable (schemaType env n) then [] else table_of_db db n))"

lemma remove_first_prefix: "remove_first p (p @ n) = n" if "p \<noteq> []"
  using that by (cases p) (simp_all add: prefix_def)

lemma map_fst_change_table [simp]: "map fst (change_table n f db) = map fst db"
  by (induction db) (auto simp: change_table_def)

lemma table_of_change_table:
  "table_of_db (change_table n f db) m =
    (if m = n \<and> n \<in> set (map fst db) then f (table_of_db db n) else table_of_db db m)"
proof (induction db)
  case (Cons x db)
  then show ?case
    by (cases x; cases "m = n"; cases "fst x = n") (simp_all add: change_table_def table_of_db_def)
qed (simp add: change_table_def table_of_db_def)

lemma move_table_moves:
  assumes "0 < chunkLength" "p \<noteq> []" "rows_sorted (table_of_db db (p @ n))"
  shows "\<exists>db'. move_table env p isStrictEqual chunkLength (p @ n) db = Some db' \<and>
    map fst db' = map fst db \<and>
    (\<forall>m. table_of_db db' m = (if m = n \<and> n \<in> set (map fst db)
       then moved_table env p isStrictEqual db n else table_of_db db m))"
proof (cases "modelKeys env n")
  case None
  then show ?thesis
    by (simp add: move_table_def remove_first_prefix[OF assms(2)] moved_table_def)
next
  case (Some keys)
  define pr where "pr = filter (\<lambda>k. k \<noteq> uid_field) keys"
  define temp where "temp = table_of_db db (p @ n)"
  define main where "main = (if isStrictEqual \<or> isUpdatable (schemaType env n) then [] else table_of_db db n)"
  have all: "map_option fst (find (\<lambda>_. True) temp) = first_id (case temp of [] \<Rightarrow> 0 | x # xs \<Rightarrow> fst x) temp"
    by (cases temp) (auto simp: first_id_def)
  have "filter (\<lambda>(j, r). (case temp of [] \<Rightarrow> 0 | x # xs \<Rightarrow> fst x) \<le> j) temp = temp"
    using assms(3) by (cases temp) (auto simp: temp_def[symmetric] rows_sorted_def filter_id_conv)
  with chunk_loop_copies[OF assms(3,1)[folded temp_def], of env n pr _ main]
  have "chunk_loop env n pr chunkLength temp (map_option fst (find (\<lambda>_. True) temp)) main =
      Some (copy_rows env n pr temp main)"
    unfolding all by metis
  then have "move_table env p isStrictEqual chunkLength (p @ n) db =
      Some (change_table n (\<lambda>_. copy_rows env n pr temp main) db)"
    by (simp add: move_table_def remove_first_prefix[OF assms(2)] Some pr_def temp_def main_def Let_def)
  then show ?thesis
    by (simp add: table_of_change_table moved_table_def Some pr_def temp_def main_def)
qed

lemma move_tables_moves:
  assumes "0 < chunkLength" "p \<noteq> []" "distinct ns"
    and "list_all (\<lambda>n. rows_sorted (table_of_db db (p @ n))) ns"
    and "list_all (\<lambda>n. \<not> prefix p n) ns"
  shows "\<exists>db'. move_tables env p isStrictEqual chunkLength (map ((@) p) ns) db = Some db' \<and>
    map fst db' = map fst db \<and>
    (\<forall>m. table_of_db db' m = (if m \<in> set ns \<and> m \<in> set (map fst db)
       then moved_table env p isStrictEqual db m else table_of_db db m))"
  using assms(3-5)
proof (induction ns arbitrary: db)
  case (Cons n ns)
  from Cons.prems(2) move_table_moves[OF assms(1,2), of db n env isStrictEqual] obtain db1 where
    db1: "move_table env p isStrictEqual chunkLength (p @ n) db = Some db1" "map fst db1 = map fst db"
      "\<forall>m. table_of_db db1 m = (if m = n \<and> n \<in> set (map fst db)
       then moved_table env p isStrictEqual db n else table_of_db db m)" by auto
  have temp: "table_of_db db1 (p @ m) = table_of_db db (p @ m)" for m
    using db1(3) Cons.prems(3) by (auto simp: prefix_def)
  have "list_all (\<lambda>n. rows_sorted (table_of_db db1 (p @ n))) ns" using Cons.prems(2) by (simp add: temp)
  from Cons.IH[OF _ this] Cons.prems obtain db' where
    db': "move_tables env p isStrictEqual chunkLength (map ((@) p) ns) db1 = Some db'"
      "map fst db' = map fst db1"
      "\<forall>m. table_of_db db' m = (if m \<in> set ns \<and> m \<in> set (map fst db1)
       then moved_table env p isStrictEqual db1 m else table_of_db db1 m)" by auto
  have same: "moved_table env p isStrictEqual db1 m = moved_table env p isStrictEqual db m" if "m \<in> set ns" for m
  proof -
    from that Cons.prems(1) have "m \<noteq> n" by auto
    with db1(3) have "table_of_db db1 m = table_of_db db m" by simp
    then show ?thesis by (cases "modelKeys env m") (simp_all add: moved_table_def temp)
  qed
  show ?case
  proof (intro exI conjI allI)
    show "move_tables env p isStrictEqual chunkLength (map ((@) p) (n # ns)) db = Some db'"
      using db1(1) db'(1) by simp
    show "map fst db' = map fst db" using db1(2) db'(2) by simp
    show "table_of_db db' m = (if m \<in> set (n # ns) \<and> m \<in> set (map fst db)
       then moved_table env p isStrictEqual db m else table_of_db db m)" for m
      using db'(3)[rule_format, of m] db1(2) db1(3)[rule_format, of m] same[of m] Cons.prems(1)
      by (cases "m = n") simp_all
  qed
qed simp

subsection \<open>Tables of different jobs are not confused\<close>

lemma sublist_skip:
  assumes "hd x \<notin> set a" "x \<noteq> []"
  shows "sublist x (a @ b) \<longleftrightarrow> sublist x b"
  using assms(1)
proof (induction a)
  case (Cons c a)
  with assms(2) have "\<not> prefix x (c # a @ b)" by (cases x) simp_all
  with Cons show ?case by (simp add: sublist_Cons_right)
qed simp

definition main_name :: "string \<Rightarrow> bool" where
  "main_name n \<longleftrightarrow> \<not> sublist ''temp_s'' n"

lemma temp_s_in_temp_name: "sublist ''temp_s'' (getTempTableName n j)"
  by (simp add: getTempTableName_def getNamePrefix_def sublist_Cons_right)

lemma dec_prefix_eq:
  assumes "prefix (dec i @ ''_'') (dec j @ ''_'' @ n)"
  shows "i = j"
proof -
  have take: "takeWhile (\<lambda>c. c \<noteq> CHR ''_'') (dec k @ CHR ''_'' # ys) = dec k" for k ys
    using dec_chars[of "CHR ''_''" k] by (subst takeWhile_append2) auto
  from assms obtain zs where "dec i @ CHR ''_'' # zs = dec j @ CHR ''_'' # n"
    by (auto simp: prefix_def)
  with take[of i zs] take[of j n] have "dec i = dec j" by simp
  then show ?thesis by simp
qed

lemma name_prefix_in_temp_name:
  assumes "main_name n"
  shows "sublist (getNamePrefix i) (getTempTableName n j) \<longleftrightarrow> i = j"
proof
  assume "sublist (getNamePrefix i) (getTempTableName n j)"
  then consider "prefix (dec i @ ''_'') (dec j @ ''_'' @ n)"
    | "sublist (''temp_s'' @ dec i @ ''_'') (dec j @ ''_'' @ n)"
    by (auto simp: getTempTableName_def getNamePrefix_def sublist_Cons_right)
  then show "i = j"
  proof cases
    case 2
    have "CHR ''t'' \<notin> set (dec j)" using dec_chars[of "CHR ''t''" j] by auto
    with 2 have "sublist (''temp_s'' @ dec i @ ''_'') n"
      using sublist_skip[of "''temp_s'' @ dec i @ ''_''" "dec j @ ''_''" n] by simp
    then have "sublist ''temp_s'' n"
      by (metis sublist_append_rightI sublist_order.order_trans)
    with assms show ?thesis by (simp add: main_name_def)
  qed (rule dec_prefix_eq)
qed (simp add: getTempTableName_def)

lemma name_prefix_in_main_name: "main_name n \<Longrightarrow> \<not> sublist (getNamePrefix i) n"
  unfolding main_name_def getNamePrefix_def
  by (metis sublist_append_rightI sublist_order.order_trans)

lemma names_of_filter: "set (map fst (filter (\<lambda>(n, t). P n) db)) = {n \<in> set (map fst db). P n}"
  by (induction db) (auto split: prod.splits)

lemma names_dropped:
  "n \<in> set (map fst (dropAllTables exc [e] True db)) \<longleftrightarrow>
    n \<in> set (map fst db) \<and> (sublist e n \<longrightarrow> list_ex (\<lambda>x. sublist x n) exc)"
proof -
  have "n \<in> set (getFilteredTablesNames exc [e] True db) \<longleftrightarrow>
      n \<in> set (map fst db) \<and> \<not> list_ex (\<lambda>x. sublist x n) exc \<and> sublist e n"
    by (auto simp: getFilteredTablesNames_def list_all_iff list_ex_iff)
  then show ?thesis
    unfolding dropAllTables_def Let_def names_of_filter by auto
qed

text \<open>
  A clean-up drops exactly the temporary tables of jobs that are over. Tables are recognised by
  a part of their name; still the tables of job 1 are not taken for those of job 11. The tables of
  jobs that may go on, and all main tables, stay.
\<close>

theorem cleanUp_drops_finished:
  assumes "main_name n"
  shows "(getTempTableName n j \<in> set (map fst (cleanUpTempDBStructure active db)) \<longleftrightarrow>
      getTempTableName n j \<in> set (map fst db) \<and> j \<in> set active) \<and>
    (n \<in> set (map fst (cleanUpTempDBStructure active db)) \<longleftrightarrow> n \<in> set (map fst db))"
proof (intro conjI)
  have "list_ex (\<lambda>x. sublist x (getTempTableName n j)) (map getNamePrefix active) \<longleftrightarrow> j \<in> set active"
    using name_prefix_in_temp_name[OF assms] by (auto simp: list_ex_iff)
  then show "getTempTableName n j \<in> set (map fst (cleanUpTempDBStructure active db)) \<longleftrightarrow>
      getTempTableName n j \<in> set (map fst db) \<and> j \<in> set active"
    unfolding cleanUpTempDBStructure_def names_dropped using temp_s_in_temp_name[of n j] by simp
  show "n \<in> set (map fst (cleanUpTempDBStructure active db)) \<longleftrightarrow> n \<in> set (map fst db)"
    unfolding cleanUpTempDBStructure_def names_dropped using assms by (simp add: main_name_def)
qed

definition sample_db :: database where
  "sample_db = [(''ledgers'', [(1, [(''id'', VNum 4)])]), (''temp_s11_ledgers'', [(1, [(''id'', VNum 6)])]),
     (''temp_s1_ledgers'', [(1, [(''id'', VNum 5)]), (3, [(''id'', VNum 7)])])]"

theorem cleanUp_drops_finished_witness:
  "getTempTableName ''ledgers'' 11 \<notin> set (map fst (cleanUpTempDBStructure [1] sample_db)) \<and>
   getTempTableName ''ledgers'' 1 \<in> set (map fst (cleanUpTempDBStructure [1] sample_db)) \<and>
   ''ledgers'' \<in> set (map fst (cleanUpTempDBStructure [1] sample_db))"
proof -
  have main: "main_name ''ledgers''" by code_simp
  have "getTempTableName ''ledgers'' 1 \<in> set (map fst sample_db)" by code_simp
  moreover have "''ledgers'' \<in> set (map fst sample_db)" by (simp add: sample_db_def)
  ultimately show ?thesis
    using cleanUp_drops_finished[OF main, of 11 "[1]" sample_db]
      cleanUp_drops_finished[OF main, of 1 "[1]" sample_db]
    by simp
qed

subsection \<open>The main tables after the move\<close>

definition sample_temp_env :: temp_env where
  "sample_temp_env = \<lparr>insertRow = (\<lambda>n r t. t @ [(int (length t) + 1, r)]),
     modelKeys = (\<lambda>n. if n = ''ledgers'' then Some [''_id'', ''id''] else None),
     schemaType = (\<lambda>n. ''insertable:array:object'')\<rparr>"

lemma temp_names:
  assumes "list_all (\<lambda>n. \<exists>m k. n = getTempTableName m k \<and> main_name m \<or> n = m \<and> main_name m) (map fst db)"
  shows "filter (sublist (getNamePrefix i)) (map fst db) =
    map ((@) (getNamePrefix i)) (filter main_name (map (drop (length (getNamePrefix i)))
      (filter (sublist (getNamePrefix i)) (map fst db))))"
proof -
  have form: "\<exists>m. n = getNamePrefix i @ m \<and> main_name m"
    if "n \<in> set (map fst db)" "sublist (getNamePrefix i) n" for n
  proof -
    from assms that(1) obtain m k where n: "n = getTempTableName m k \<and> main_name m \<or> n = m \<and> main_name m"
      unfolding list_all_iff by blast
    with that(2) name_prefix_in_main_name name_prefix_in_temp_name
    have "n = getTempTableName m i \<and> main_name m" by auto
    then show ?thesis by (auto simp: getTempTableName_def)
  qed
  have "map ((@) (getNamePrefix i)) (filter main_name (map (drop (length (getNamePrefix i))) ns)) = ns"
    if "\<forall>n\<in>set ns. \<exists>m. n = getNamePrefix i @ m \<and> main_name m" for ns
    using that by (induction ns) auto
  then show ?thesis using form by simp
qed

text \<open>
  C18: moving the temporary rows. For every job and every length of the chunks, the move returns, and
  afterwards each main table is what it was (or empty, when its rows are to be replaced) plus all
  rows of its temporary table of this job, in their order; no other table has changed. No row is
  lost at the border of two chunks or in a gap between ids.
\<close>

theorem moveTemp_moves_all:
  assumes "0 < chunkLength" "distinct (map fst db)"
    and "list_all (\<lambda>n. \<exists>m k. n = getTempTableName m k \<and> main_name m \<or> n = m \<and> main_name m) (map fst db)"
    and "list_all (rows_sorted \<circ> snd) db"
  shows "\<exists>db'. moveTempTableDataToMain env (getNamePrefix i) isStrictEqual chunkLength db = Some (True, db') \<and>
    map fst db' = map fst db \<and>
    (\<forall>n. table_of_db db' n =
      (if getTempTableName n i \<in> set (map fst db) \<and> main_name n \<and> n \<in> set (map fst db)
       then moved_table env (getNamePrefix i) isStrictEqual db n else table_of_db db n))"
proof -
  define p where "p = getNamePrefix i"
  define ns where "ns = filter main_name (map (drop (length p)) (filter (sublist p) (map fst db)))"
  have p: "p \<noteq> []" by (simp add: p_def getNamePrefix_def)
  have names: "filter (sublist p) (map fst db) = map ((@) p) ns"
    using temp_names[OF assms(3)] by (simp add: ns_def p_def)
  have "distinct (map ((@) p) ns)" using assms(2) names by (metis distinct_filter)
  then have dist: "distinct ns" by (simp add: distinct_map)
  have ns: "n \<in> set ns \<longleftrightarrow> p @ n \<in> set (map fst db) \<and> main_name n" for n
  proof -
    have "p @ n \<in> set (map ((@) p) ns) \<longleftrightarrow> p @ n \<in> set (map fst db)" by (simp add: names[symmetric])
    then show ?thesis using ns_def by auto
  qed
  have "rows_sorted (table_of_db db n)" for n
    using assms(4) by (cases "map_of db n") (auto simp: table_of_db_def rows_sorted_def list_all_iff dest!: map_of_SomeD)
  then have "\<exists>db'. move_tables env p isStrictEqual chunkLength (map ((@) p) ns) db = Some db' \<and>
    map fst db' = map fst db \<and>
    (\<forall>m. table_of_db db' m = (if m \<in> set ns \<and> m \<in> set (map fst db)
       then moved_table env p isStrictEqual db m else table_of_db db m))"
  proof (intro move_tables_moves assms(1) p dist)
    have "\<not> prefix p n" if "main_name n" for n
      using name_prefix_in_main_name[OF that, of i] by (auto simp: p_def prefix_imp_sublist)
    then show "list_all (\<lambda>n. \<not> prefix p n) ns" by (auto simp: list_all_iff ns)
  qed (simp add: list_all_iff)
  then show ?thesis
    using p by (auto simp: moveTempTableDataToMain_def names ns p_def[symmetric] getTempTableName_def)
qed

theorem moveTemp_moves_all_witness:
  "\<exists>db'. moveTempTableDataToMain sample_temp_env (getNamePrefix 1) False 2 sample_db = Some (True, db') \<and>
    table_of_db db' ''ledgers'' =
      [(1, [(''id'', VNum 4)]), (2, [(''id'', VNum 5)]), (3, [(''id'', VNum 7)])]"
proof -
  have names: "''temp_s11_ledgers'' = getTempTableName ''ledgers'' 11"
    "''temp_s1_ledgers'' = getTempTableName ''ledgers'' 1" by code_simp+
  have main: "main_name ''ledgers''" by code_simp
  have "list_all (\<lambda>n. \<exists>m k. n = getTempTableName m k \<and> main_name m \<or> n = m \<and> main_name m) (map fst sample_db)"
    using names main by (auto simp: sample_db_def)
  moreover have "distinct (map fst sample_db)" "list_all (rows_sorted \<circ> snd) sample_db"
    by (simp_all add: sample_db_def rows_sorted_def)
  ultimately obtain db' where db': "moveTempTableDataToMain sample_temp_env (getNamePrefix 1) False 2 sample_db = Some (True, db')"
    "table_of_db db' ''ledgers'' =
      (if getTempTableName ''ledgers'' 1 \<in> set (map fst sample_db) \<and> main_name ''ledgers'' \<and> ''ledgers'' \<in> set (map fst sample_db)
       then moved_table sample_temp_env (getNamePrefix 1) False sample_db ''ledgers'' else table_of_db sample_db ''ledgers'')"
    using moveTemp_moves_all[of 2 sample_db sample_temp_env 1 False] by force
  moreover have "moved_table sample_temp_env (getNamePrefix 1) False sample_db ''ledgers'' =
      [(1, [(''id'', VNum 4)]), (2, [(''id'', VNum 5)]), (3, [(''id'', VNum 7)])]"
    by code_simp
  moreover have "getTempTableName ''ledgers'' 1 \<in> set (map fst sample_db)" "''ledgers'' \<in> set (map fst sample_db)"
    by code_simp+
  ultimately show ?thesis using main by auto
qed

end
