(* ===== verification/Db_Trans.thy ===== *)
theory Db_Trans
  imports Db_Query
begin

text \<open>
  Transactions of the database layer (\<^verbatim>\<open>dao.better.sqlite.js\<close>, \<^verbatim>\<open>sqlite-worker\<close>): one query with
  its retries, a transaction with its retries, and the two ways to run a list of queries in a
  transaction.

  The database engine is third-party code: a record of what the code calls (\<^verbatim>\<open>BEGIN\<close>, \<^verbatim>\<open>COMMIT\<close>,
  \<^verbatim>\<open>ROLLBACK\<close>, \<^verbatim>\<open>inTransaction\<close>) and two readings of its state, the rows a query sees
  (\<open>engCurrent\<close>) and the rows that are committed (\<open>engCommitted\<close>). Its documented behaviour is the
  predicate \<open>engine_ok\<close>. The hooks around a transaction are recorded, as is every wait before a
  retry; they do not fail.
\<close>

record ('d, 'v) sql_engine =
  engBegin :: "'d \<Rightarrow> db_error option \<times> 'd"
  engCommit :: "'d \<Rightarrow> db_error option \<times> 'd"
  engRollback :: "'d \<Rightarrow> 'd"
  engInTrans :: "'d \<Rightarrow> bool"
  engCurrent :: "'d \<Rightarrow> 'v"
  engCommitted :: "'d \<Rightarrow> 'v"

type_synonym ('d, 'r) db_action = "'d \<Rightarrow> (db_error + 'r) \<times> 'd"

definition isLockedDbError :: "db_error \<Rightarrow> bool" where
  "isLockedDbError e \<longleftrightarrow> e = Locked_Db"

datatype trans_event = Before_Trans | After_Trans | Waited

record 'd trans_state =
  tsConn :: 'd
  tsRetry :: nat
  tsLog :: "trans_event list"

record trans_hooks =
  hasBefore :: bool
  hasAfter :: bool

definition log_if :: "bool \<Rightarrow> trans_event \<Rightarrow> 'd trans_state \<Rightarrow> 'd trans_state" where
  "log_if b e s = (if b then s\<lparr>tsLog := tsLog s @ [e]\<rparr> else s)"

subsection \<open>One query\<close>

text \<open>
  \<^verbatim>\<open>query\<close> without a worker thread, once its turn has come (the turn itself is the subject of
  \<^verbatim>\<open>Db_Order\<close>); the counter of retries is shared by all queries.
\<close>

function run_query :: "('d, 'r) db_action \<Rightarrow> 'd trans_state \<Rightarrow> (db_error + 'r) \<times> 'd trans_state" where
  "run_query act s =
     (case act (tsConn s) of
        (Inr r, d) \<Rightarrow> (Inr r, s\<lparr>tsConn := d\<rparr>)
      | (Inl e, d) \<Rightarrow>
          let s1 = s\<lparr>tsConn := d\<rparr> in
          if isLockedDbError e \<and> tsRetry s1 < 3
          then case run_query act ((log_if True Waited s1)\<lparr>tsRetry := tsRetry s1 + 1\<rparr>) of
                 (Inr r, s2) \<Rightarrow> (Inr r, s2\<lparr>tsRetry := 0\<rparr>)
               | (Inl e', s2) \<Rightarrow> (Inl e', s2)
          else (Inl e, s1))"
  by pat_completeness auto

termination
  by (relation "measure (\<lambda>(act, s). 3 - tsRetry s)") auto

declare run_query.simps [simp del]

subsection \<open>A transaction\<close>

definition close_failed ::
  "('d, 'v) sql_engine \<Rightarrow> trans_hooks \<Rightarrow> bool \<Rightarrow> 'd trans_state \<Rightarrow> 'd trans_state" where
  "close_failed eng hk isTransBegun s =
     (let s1 = (if engInTrans eng (tsConn s) \<and> isTransBegun
                then s\<lparr>tsConn := engRollback eng (tsConn s)\<rparr> else s)
      in log_if (engInTrans eng (tsConn s1) \<and> hasAfter hk) After_Trans s1)"

text \<open>One attempt: the result, and whether the transaction was open when it failed.\<close>

definition trans_attempt ::
  "('d, 'v) sql_engine \<Rightarrow> trans_hooks \<Rightarrow> ('d, 'r) db_action \<Rightarrow> 'd trans_state
    \<Rightarrow> (db_error + 'r) \<times> 'd trans_state" where
  "trans_attempt eng hk act s =
     (let s0 = log_if (hasBefore hk) Before_Trans s in
      case engBegin eng (tsConn s0) of
        (Some e, d) \<Rightarrow> (Inl e, close_failed eng hk False (s0\<lparr>tsConn := d\<rparr>))
      | (None, d) \<Rightarrow>
          case act d of
            (Inl e, d1) \<Rightarrow> (Inl e, close_failed eng hk True (s0\<lparr>tsConn := d1\<rparr>))
          | (Inr r, d1) \<Rightarrow>
              case engCommit eng d1 of
                (Some e, d2) \<Rightarrow> (Inl e, close_failed eng hk True (s0\<lparr>tsConn := d2\<rparr>))
              | (None, d2) \<Rightarrow> (Inr r, log_if (hasAfter hk) After_Trans (s0\<lparr>tsConn := d2\<rparr>)))"

lemma trans_attempt_retry: "trans_attempt eng hk act s = (r, s') \<Longrightarrow> tsRetry s' = tsRetry s"
  by (auto simp: trans_attempt_def close_failed_def log_if_def Let_def
      split: prod.splits option.splits sum.splits)

function proccesTrans ::
  "('d, 'v) sql_engine \<Rightarrow> trans_hooks \<Rightarrow> ('d, 'r) db_action \<Rightarrow> 'd trans_state
    \<Rightarrow> (db_error + 'r) \<times> 'd trans_state" where
  "proccesTrans eng hk act s =
     (case trans_attempt eng hk act s of
        (Inr r, s1) \<Rightarrow> (Inr r, s1)
      | (Inl e, s1) \<Rightarrow>
          if isLockedDbError e \<and> tsRetry s1 < 3
          then case proccesTrans eng hk act ((log_if True Waited s1)\<lparr>tsRetry := tsRetry s1 + 1\<rparr>) of
                 (Inr r, s2) \<Rightarrow> (Inr r, s2\<lparr>tsRetry := 0\<rparr>)
               | (Inl e', s2) \<Rightarrow> (Inl e', s2)
          else (Inl e, s1))"
  by pat_completeness auto

termination
  by (relation "measure (\<lambda>(eng, hk, act, s). 3 - tsRetry s)") (auto dest!: trans_attempt_retry[OF sym])

declare proccesTrans.simps [simp del]

definition beginTrans ::
  "('d, 'v) sql_engine \<Rightarrow> trans_hooks \<Rightarrow> bool \<Rightarrow> ('d, 'r) db_action \<Rightarrow> 'd trans_state
    \<Rightarrow> (db_error + 'r) \<times> 'd trans_state" where
  "beginTrans eng hk isNotInTrans act s =
     (if isNotInTrans then case act (tsConn s) of (r, d) \<Rightarrow> (r, s\<lparr>tsConn := d\<rparr>)
      else proccesTrans eng hk act s)"

subsection \<open>Lists of queries\<close>

type_synonym sql_call = "string \<times> obj option"

datatype ('d, 'r) trans_item =
    Sql_Text string
  | Exec_Fn "('d, 'r) db_action"
  | Sql_Item "string option" "obj option" "('d, 'r) db_action option"

text \<open>An empty text counts as none.\<close>

definition has_sql :: "string option \<Rightarrow> bool" where
  "has_sql q \<longleftrightarrow> q \<noteq> None \<and> q \<noteq> Some []"

fun item_parts :: "('d, 'r) trans_item \<Rightarrow> string option \<times> obj option \<times> ('d, 'r) db_action option" where
  "item_parts (Sql_Text q) = (Some q, None, None)"
| "item_parts (Exec_Fn f) = (None, None, Some f)"
| "item_parts (Sql_Item q v f) = (q, v, f)"

definition bind_action :: "('d, 'a) db_action \<Rightarrow> ('a \<Rightarrow> ('d, 'b) db_action) \<Rightarrow> ('d, 'b) db_action" where
  "bind_action f g d = (case f d of (Inl e, d') \<Rightarrow> (Inl e, d') | (Inr x, d') \<Rightarrow> g x d')"

definition exec_item ::
  "(sql_call \<Rightarrow> ('d, 'r) db_action) \<Rightarrow> ('d, 'r) trans_item \<Rightarrow> ('d, 'r list) db_action" where
  "exec_item run item =
     (case item_parts item of (q, v, f) \<Rightarrow>
        if \<not> has_sql q \<and> f = None then (\<lambda>d. (Inl SqlCorrectnessError, d))
        else bind_action (if has_sql q then bind_action (run (nullish q [], v)) (\<lambda>r d. (Inr [r], d))
                          else (\<lambda>d. (Inr [], d)))
          (\<lambda>rs. case f of None \<Rightarrow> (\<lambda>d. (Inr rs, d))
             | Some g \<Rightarrow> bind_action g (\<lambda>r d. (Inr (rs @ [r]), d))))"

fun exec_items ::
  "(sql_call \<Rightarrow> ('d, 'r) db_action) \<Rightarrow> ('d, 'r) trans_item list \<Rightarrow> ('d, 'r list) db_action" where
  "exec_items run [] = (\<lambda>d. (Inr [], d))"
| "exec_items run (i # is) = bind_action (exec_item run i) (\<lambda>rs.
     bind_action (exec_items run is) (\<lambda>rs' d. (Inr (rs @ rs'), d)))"

text \<open>
  The list of texts and the list of their values that are handed to a worker: a text alone adds no
  element to the list of values (\<^verbatim>\<open>accum.params.push()\<close> pushes nothing).
\<close>

fun worker_arrays ::
  "('d, 'r) trans_item list \<Rightarrow> db_error + string option list \<times> obj option list" where
  "worker_arrays [] = Inr ([], [])"
| "worker_arrays (i # is) =
     (case i of
        Sql_Text q \<Rightarrow>
          if q = [] then Inl SqlCorrectnessError
          else bind_err (worker_arrays is) (\<lambda>(qs, ps). Inr (Some q # qs, ps))
      | Sql_Item q v f \<Rightarrow> bind_err (worker_arrays is) (\<lambda>(qs, ps). Inr (q # qs, v # ps))
      | Exec_Fn f \<Rightarrow> Inl SqlCorrectnessError)"

text \<open>
  The worker (\<^verbatim>\<open>action-run-in-trans.js\<close>) walks over the values, not over the statements; the
  result is the statements it runs, \<^const>\<open>None\<close> for the \<^verbatim>\<open>TypeError\<close> of a missing statement.
\<close>

fun worker_calls :: "string list \<Rightarrow> obj option list \<Rightarrow> sql_call list option" where
  "worker_calls stms [] = Some []"
| "worker_calls [] (p # ps) = None"
| "worker_calls (q # qs) (p # ps) = map_option ((#) (q, p)) (worker_calls qs ps)"

text \<open>\<^verbatim>\<open>executeQueriesInTrans\<close>; the result is \<^const>\<open>None\<close> when there is nothing to do.\<close>

definition executeQueriesInTrans ::
  "('d, 'v) sql_engine \<Rightarrow> (sql_call \<Rightarrow> ('d, 'r) db_action) \<Rightarrow> trans_hooks \<Rightarrow> ('d, 'r) trans_item list
    \<Rightarrow> 'd trans_state \<Rightarrow> (db_error + 'r list option) \<times> 'd trans_state" where
  "executeQueriesInTrans eng run hk items s =
     (if items = [] then (Inr None, s)
      else case beginTrans eng hk False (exec_items run items) s of
        (Inl e, s') \<Rightarrow> (Inl e, s')
      | (Inr rs, s') \<Rightarrow> (Inr (Some rs), s'))"

end
