(* ===== verification/Db_Trans_Props.thy ===== *)
theory Db_Trans_Props
  imports Db_Trans
begin

text \<open>
  A transaction is atomic and is tried at most four times; what the shared counter of retries does
  in the long run; and what the two ways to run a list of queries have in common.
\<close>

subsection \<open>The engine\<close>

text \<open>
  The documented behaviour of the engine: outside a transaction a query sees what is committed;
  \<^verbatim>\<open>BEGIN\<close> changes nothing and opens a transaction or fails; \<^verbatim>\<open>COMMIT\<close> commits what is seen or
  fails and commits nothing (it fails when no transaction is open); \<^verbatim>\<open>ROLLBACK\<close> closes the
  transaction.
\<close>

definition engine_ok :: "('d, 'v) sql_engine \<Rightarrow> bool" where
  "engine_ok eng \<longleftrightarrow>
     (\<forall>d. \<not> engInTrans eng d \<longrightarrow> engCurrent eng d = engCommitted eng d) \<and>
     (\<forall>d e d'. \<not> engInTrans eng d \<longrightarrow> engBegin eng d = (e, d') \<longrightarrow>
        engInTrans eng d' = (e = None) \<and> engCommitted eng d' = engCommitted eng d
        \<and> engCurrent eng d' = engCurrent eng d) \<and>
     (\<forall>d e d'. engCommit eng d = (e, d') \<longrightarrow>
        (if e = None then engInTrans eng d \<and> \<not> engInTrans eng d' \<and> engCommitted eng d' = engCurrent eng d
         else engCommitted eng d' = engCommitted eng d)) \<and>
     (\<forall>d. engInTrans eng d \<longrightarrow> \<not> engInTrans eng (engRollback eng d)
        \<and> engCommitted eng (engRollback eng d) = engCommitted eng d)"

text \<open>Queries inside a transaction commit nothing; the engine may roll back on its own.\<close>

definition action_ok :: "('d, 'v) sql_engine \<Rightarrow> ('d, 'r) db_action \<Rightarrow> bool" where
  "action_ok eng act \<longleftrightarrow> (\<forall>d r d'. engInTrans eng d \<longrightarrow> act d = (r, d') \<longrightarrow>
     engCommitted eng d' = engCommitted eng d)"

lemma engine_idle: "engine_ok eng \<Longrightarrow> \<not> engInTrans eng d \<Longrightarrow> engCurrent eng d = engCommitted eng d"
  by (simp add: engine_ok_def)

lemma engine_begin:
  "engine_ok eng \<Longrightarrow> \<not> engInTrans eng d \<Longrightarrow> engBegin eng d = (e, d') \<Longrightarrow>
   engInTrans eng d' = (e = None) \<and> engCommitted eng d' = engCommitted eng d
     \<and> engCurrent eng d' = engCurrent eng d"
  unfolding engine_ok_def by blast

lemma engine_commit:
  "engine_ok eng \<Longrightarrow> engCommit eng d = (None, d') \<Longrightarrow>
   engInTrans eng d \<and> \<not> engInTrans eng d' \<and> engCommitted eng d' = engCurrent eng d"
  "engine_ok eng \<Longrightarrow> engCommit eng d = (Some x, d') \<Longrightarrow> engCommitted eng d' = engCommitted eng d"
  unfolding engine_ok_def by (metis option.distinct(1))+

lemma engine_rollback:
  "engine_ok eng \<Longrightarrow> engInTrans eng d \<Longrightarrow>
   \<not> engInTrans eng (engRollback eng d) \<and> engCommitted eng (engRollback eng d) = engCommitted eng d"
  unfolding engine_ok_def by blast

subsection \<open>Atomic\<close>

lemma log_if_simps [simp]:
  "tsConn (log_if b e s) = tsConn s" "tsRetry (log_if b e s) = tsRetry s"
  "tsLog (log_if b e s) = tsLog s @ (if b then [e] else [])"
  by (simp_all add: log_if_def)

lemma close_failed_ok:
  assumes "engine_ok eng" "engInTrans eng (tsConn s) \<longrightarrow> begun"
  shows "\<not> engInTrans eng (tsConn (close_failed eng hk begun s))"
    "engCommitted eng (tsConn (close_failed eng hk begun s)) = engCommitted eng (tsConn s)"
    "tsLog (close_failed eng hk begun s) = tsLog s"
  using engine_rollback[OF assms(1)] assms(2)
  by (auto simp: close_failed_def Let_def)

text \<open>What an attempt does: it either does all of the action, or nothing and no hook after it.\<close>

lemma trans_attempt_outcome:
  assumes "engine_ok eng" "action_ok eng act" "\<not> engInTrans eng (tsConn s)"
    and "trans_attempt eng hk act s = (r, s')"
  shows "\<not> engInTrans eng (tsConn s') \<and>
    (case r of
       Inl e \<Rightarrow> engCurrent eng (tsConn s') = engCurrent eng (tsConn s)
         \<and> tsLog s' = tsLog s @ (if hasBefore hk then [Before_Trans] else [])
     | Inr v \<Rightarrow> (\<exists>d d'. engInTrans eng d \<and> engCurrent eng d = engCurrent eng (tsConn s)
         \<and> act d = (Inr v, d') \<and> engCurrent eng (tsConn s') = engCurrent eng d')
         \<and> tsLog s' = tsLog s @ (if hasBefore hk then [Before_Trans] else [])
             @ (if hasAfter hk then [After_Trans] else []))"
proof -
  define s0 where "s0 = log_if (hasBefore hk) Before_Trans s"
  obtain b d where bg: "engBegin eng (tsConn s0) = (b, d)" by fastforce
  have d: "engInTrans eng d = (b = None)" "engCommitted eng d = engCommitted eng (tsConn s)"
    "engCurrent eng d = engCurrent eng (tsConn s)"
    using engine_begin[OF assms(1) _ bg] assms(3) by (simp_all add: s0_def)
  note idle = engine_idle[OF assms(1)]
  show ?thesis
  proof (cases b)
    case (Some e)
    with assms(4) bg have "r = Inl e" "s' = close_failed eng hk False (s0\<lparr>tsConn := d\<rparr>)"
      by (auto simp: trans_attempt_def s0_def[symmetric] Let_def)
    with close_failed_ok[OF assms(1), of "s0\<lparr>tsConn := d\<rparr>" False hk] d Some show ?thesis
      using idle[of "tsConn s'"] idle[OF assms(3)] by (simp add: s0_def)
  next
    case None
    obtain x d1 where act: "act d = (x, d1)" by fastforce
    have d1: "engCommitted eng d1 = engCommitted eng (tsConn s)"
      using assms(2) act d None unfolding action_ok_def by metis
    show ?thesis
    proof (cases x)
      case (Inl e)
      with assms(4) bg None act have "r = Inl e" "s' = close_failed eng hk True (s0\<lparr>tsConn := d1\<rparr>)"
        by (auto simp: trans_attempt_def s0_def[symmetric] Let_def)
      with close_failed_ok[OF assms(1), of "s0\<lparr>tsConn := d1\<rparr>" True hk] d1 show ?thesis
        using idle[of "tsConn s'"] idle[OF assms(3)] by (simp add: s0_def)
    next
      case (Inr v)
      obtain c d2 where commit: "engCommit eng d1 = (c, d2)" by fastforce
      show ?thesis
      proof (cases c)
        case (Some e)
        with assms(4) bg None act Inr commit
        have "r = Inl e" "s' = close_failed eng hk True (s0\<lparr>tsConn := d2\<rparr>)"
          by (auto simp: trans_attempt_def s0_def[symmetric] Let_def)
        moreover have "engCommitted eng d2 = engCommitted eng d1"
          using engine_commit(2)[OF assms(1)] commit Some by simp
        ultimately show ?thesis
          using close_failed_ok[OF assms(1), of "s0\<lparr>tsConn := d2\<rparr>" True hk] d1
            idle[of "tsConn s'"] idle[OF assms(3)] by (simp add: s0_def)
      next
        case none: None
        with assms(4) bg None act Inr commit
        have r: "r = Inr v" "s' = log_if (hasAfter hk) After_Trans (s0\<lparr>tsConn := d2\<rparr>)"
          by (auto simp: trans_attempt_def s0_def[symmetric] Let_def)
        have d2: "\<not> engInTrans eng d2" "engCommitted eng d2 = engCurrent eng d1"
          using engine_commit(1)[OF assms(1)] commit none by auto
        have "engInTrans eng d \<and> engCurrent eng d = engCurrent eng (tsConn s) \<and> act d = (Inr v, d1)
            \<and> engCurrent eng d2 = engCurrent eng d1"
          using d None act Inr d2 idle[OF d2(1)] by simp
        with r d2(1) show ?thesis by (auto simp: s0_def)
      qed
    qed
  qed
qed

definition waits :: "'d trans_state \<Rightarrow> nat" where
  "waits s = length (filter (\<lambda>e. e = Waited) (tsLog s))"

definition after_runs :: "'d trans_state \<Rightarrow> nat" where
  "after_runs s = length (filter (\<lambda>e. e = After_Trans) (tsLog s))"

lemma retry_state_simps [simp]:
  "waits (s\<lparr>tsRetry := n\<rparr>) = waits s" "after_runs (s\<lparr>tsRetry := n\<rparr>) = after_runs s"
  "waits (log_if b e s) = waits s + (if b \<and> e = Waited then 1 else 0)"
  "after_runs (log_if b e s) = after_runs s + (if b \<and> e = After_Trans then 1 else 0)"
  by (simp_all add: waits_def after_runs_def log_if_def)

lemma attempt_counts:
  assumes "engine_ok eng" "action_ok eng act" "\<not> engInTrans eng (tsConn s)"
    and "trans_attempt eng hk act s = (r, s')"
  shows "waits s' = waits s" "isl r \<Longrightarrow> after_runs s' = after_runs s"
  using trans_attempt_outcome[OF assms] by (auto simp: waits_def after_runs_def split: sum.splits)

text \<open>
  The outcome of a transaction with all its retries, in one statement: the connection is idle
  again, the rows are those before or those of one complete run of the action that started from
  the rows before, it waits at most as often as retries are left, and the counter is left at 0, as
  it was, or used up.
\<close>

lemma trans_outcome:
  assumes "engine_ok eng" "action_ok eng act" "\<not> engInTrans eng (tsConn s)"
    and "proccesTrans eng hk act s = (r, s')"
  shows "\<not> engInTrans eng (tsConn s')
    \<and> (case r of
         Inl e \<Rightarrow> engCurrent eng (tsConn s') = engCurrent eng (tsConn s) \<and> after_runs s' = after_runs s
           \<and> (e = Locked_Db \<longrightarrow> 3 \<le> tsRetry s')
       | Inr v \<Rightarrow> \<exists>d d'. engInTrans eng d \<and> engCurrent eng d = engCurrent eng (tsConn s)
           \<and> act d = (Inr v, d') \<and> engCurrent eng (tsConn s') = engCurrent eng d')
    \<and> waits s' \<le> waits s + (3 - tsRetry s)
    \<and> (3 \<le> tsRetry s \<longrightarrow> tsRetry s' = tsRetry s)"
  using assms
proof (induction eng hk act s arbitrary: r s' rule: proccesTrans.induct)
  case (1 eng hk act s)
  obtain r1 s1 where att: "trans_attempt eng hk act s = (r1, s1)" by fastforce
  note out = trans_attempt_outcome[OF "1.prems"(1-3) att]
  note cnt = attempt_counts[OF "1.prems"(1-3) att]
  note ret = trans_attempt_retry[OF att]
  show ?case
  proof (cases r1)
    case (Inr v)
    with "1.prems"(4) att have "r = Inr v" "s' = s1" by (simp_all add: proccesTrans.simps)
    with out cnt(1) ret Inr show ?thesis by auto
  next
    case (Inl e)
    show ?thesis
    proof (cases "isLockedDbError e \<and> tsRetry s1 < 3")
      case False
      with "1.prems"(4) att Inl have "r = Inl e" "s' = s1" by (auto simp: proccesTrans.simps)
      with out cnt ret Inl False show ?thesis by (auto simp: isLockedDbError_def)
    next
      case True
      define s2 where "s2 = (log_if True Waited s1)\<lparr>tsRetry := tsRetry s1 + 1\<rparr>"
      obtain r3 s3 where rec: "proccesTrans eng hk act s2 = (r3, s3)" by fastforce
      have step: "proccesTrans eng hk act s = (case proccesTrans eng hk act s2 of
          (Inr r, s2) \<Rightarrow> (Inr r, s2\<lparr>tsRetry := 0\<rparr>) | (Inl e', s2) \<Rightarrow> (Inl e', s2))"
        unfolding proccesTrans.simps[of eng hk act s] att Inl s2_def
        by (simp only: prod.case sum.case True if_True simp_thms)
      have idle2: "\<not> engInTrans eng (tsConn s2)" using out by (simp add: s2_def)
      have IH: "\<not> engInTrans eng (tsConn s3)
        \<and> (case r3 of
             Inl e \<Rightarrow> engCurrent eng (tsConn s3) = engCurrent eng (tsConn s2) \<and> after_runs s3 = after_runs s2
               \<and> (e = Locked_Db \<longrightarrow> 3 \<le> tsRetry s3)
           | Inr v \<Rightarrow> \<exists>d d'. engInTrans eng d \<and> engCurrent eng d = engCurrent eng (tsConn s2)
               \<and> act d = (Inr v, d') \<and> engCurrent eng (tsConn s3) = engCurrent eng d')
        \<and> waits s3 \<le> waits s2 + (3 - tsRetry s2)
        \<and> (3 \<le> tsRetry s2 \<longrightarrow> tsRetry s3 = tsRetry s2)"
        by (rule "1.IH"[OF att[symmetric] Inl True "1.prems"(1,2) idle2[unfolded s2_def] rec[unfolded s2_def],
              folded s2_def])
      have s2: "engCurrent eng (tsConn s2) = engCurrent eng (tsConn s)" "after_runs s2 = after_runs s"
        "waits s2 = waits s + 1" "tsRetry s2 = tsRetry s + 1"
        using out cnt ret Inl by (simp_all add: s2_def)
      show ?thesis
      proof (cases r3)
        case (Inr v)
        with "1.prems"(4) step rec have "r = Inr v" "s' = s3\<lparr>tsRetry := 0\<rparr>"
          by simp_all
        with IH Inr s2 True ret show ?thesis by auto
      next
        case (Inl e')
        with "1.prems"(4) step rec have "r = Inl e'" "s' = s3"
          by simp_all
        with IH Inl s2 True ret show ?thesis by auto
      qed
    qed
  qed
qed

text \<open>
  C19: a list of queries runs in one transaction or not at all. When the call returns results, the
  rows are those of one complete run of all its items, in order, on the rows before; when it fails,
  no row has changed, however often it was tried in between; and no transaction is left open.
\<close>

theorem queries_in_trans_atomic:
  assumes "engine_ok eng" "action_ok eng (exec_items run items)" "\<not> engInTrans eng (tsConn s)"
    and "executeQueriesInTrans eng run hk items s = (r, s')" "items \<noteq> []"
  shows "\<not> engInTrans eng (tsConn s') \<and>
    (case r of
       Inl e \<Rightarrow> engCurrent eng (tsConn s') = engCurrent eng (tsConn s)
     | Inr rs \<Rightarrow> \<exists>d d' res. rs = Some res \<and> engCurrent eng d = engCurrent eng (tsConn s)
         \<and> exec_items run items d = (Inr res, d') \<and> engCurrent eng (tsConn s') = engCurrent eng d')"
proof -
  obtain r1 where t: "proccesTrans eng hk (exec_items run items) s = (r1, s')"
    "r = (case r1 of Inl e \<Rightarrow> Inl e | Inr rs \<Rightarrow> Inr (Some rs))"
    using assms(4,5) by (auto simp: executeQueriesInTrans_def beginTrans_def split: prod.splits sum.splits)
  from trans_outcome[OF assms(1-3) t(1)] show ?thesis
    unfolding t(2) by (cases r1) auto
qed

text \<open>An engine that keeps the committed rows beside the current ones.\<close>

definition snapshot_engine :: "(int \<times> int option, int) sql_engine" where
  "snapshot_engine = \<lparr>
     engBegin = (\<lambda>(c, sv). case sv of None \<Rightarrow> (None, (c, Some c)) | Some x \<Rightarrow> (Some (Other_Db ''open''), (c, sv))),
     engCommit = (\<lambda>(c, sv). case sv of None \<Rightarrow> (Some (Other_Db ''idle''), (c, sv)) | Some x \<Rightarrow> (None, (c, None))),
     engRollback = (\<lambda>(c, sv). case sv of None \<Rightarrow> (c, sv) | Some x \<Rightarrow> (x, None)),
     engInTrans = (\<lambda>(c, sv). sv \<noteq> None),
     engCurrent = fst,
     engCommitted = (\<lambda>(c, sv). case sv of None \<Rightarrow> c | Some x \<Rightarrow> x)\<rparr>"

lemma snapshot_engine_ok: "engine_ok snapshot_engine"
  by (auto simp: engine_ok_def snapshot_engine_def split: option.splits)

text \<open>A query adds one; the text \<^verbatim>\<open>bad\<close> is not understood.\<close>

definition counting_run :: "sql_call \<Rightarrow> (int \<times> int option, int) db_action" where
  "counting_run q = (\<lambda>(c, sv). if fst q = ''bad'' then (Inl (Other_Db ''syntax''), (c, sv))
     else (Inr (c + 1), (c + 1, sv)))"

definition no_hooks :: trans_hooks where
  "no_hooks = \<lparr>hasBefore = False, hasAfter = False\<rparr>"

definition idle_state :: "(int \<times> int option) trans_state" where
  "idle_state = \<lparr>tsConn = (5, None), tsRetry = 0, tsLog = []\<rparr>"

theorem queries_in_trans_atomic_witness:
  "\<exists>r s'. executeQueriesInTrans snapshot_engine counting_run no_hooks [Sql_Text ''a'', Sql_Text ''bad''] idle_state
     = (r, s') \<and> isl r \<and> engCurrent snapshot_engine (tsConn s') = 5"
proof -
  obtain r s' where ex: "executeQueriesInTrans snapshot_engine counting_run no_hooks
      [Sql_Text ''a'', Sql_Text ''bad''] idle_state = (r, s')" by fastforce
  have act: "action_ok snapshot_engine (exec_items counting_run [Sql_Text ''a'', Sql_Text ''bad''])"
    by (auto simp: action_ok_def snapshot_engine_def counting_run_def exec_item_def has_sql_def bind_action_def
        split: option.splits)
  have "isl r"
    using ex by (simp add: executeQueriesInTrans_def beginTrans_def proccesTrans.simps trans_attempt_def
        snapshot_engine_def counting_run_def no_hooks_def idle_state_def exec_item_def has_sql_def
        bind_action_def log_if_def close_failed_def isLockedDbError_def Let_def)
      auto
  moreover have "\<not> engInTrans snapshot_engine (tsConn idle_state)"
    by (simp add: snapshot_engine_def idle_state_def)
  moreover have "engCurrent snapshot_engine (tsConn idle_state) = 5"
    by (simp add: snapshot_engine_def idle_state_def)
  ultimately show ?thesis
    using queries_in_trans_atomic[OF snapshot_engine_ok act _ ex] ex by (auto simp: isl_def)
qed

subsection \<open>The counter of retries\<close>

definition run_all ::
  "('d, 'v) sql_engine \<Rightarrow> trans_hooks \<Rightarrow> ('d, 'r) db_action list \<Rightarrow> 'd trans_state \<Rightarrow> 'd trans_state" where
  "run_all eng hk acts s = foldl (\<lambda>s act. snd (proccesTrans eng hk act s)) s acts"

lemma run_all_no_retry:
  assumes "engine_ok eng" "list_all (action_ok eng) acts" "\<not> engInTrans eng (tsConn s)" "3 \<le> tsRetry s"
  shows "waits (run_all eng hk acts s) \<le> waits s"
  using assms
proof (induction acts arbitrary: s)
  case (Cons act acts)
  obtain r s1 where t: "proccesTrans eng hk act s = (r, s1)" by fastforce
  from trans_outcome[OF Cons.prems(1) _ Cons.prems(3) t] Cons.prems
  have "\<not> engInTrans eng (tsConn s1)" "3 \<le> tsRetry s1" "waits s1 \<le> waits s" by auto
  with Cons.IH[of s1] Cons.prems t show ?case by (simp add: run_all_def)
qed (simp add: run_all_def)

text \<open>
  C20: retries are bounded, and used up for good. A transaction on a locked database waits for a
  further attempt at most three times. But once one transaction has failed with a locked database,
  no transaction after it is ever tried again: the counter is reset only after a retry that
  succeeded, and it allows none any more.
\<close>

theorem retries_used_up:
  assumes "engine_ok eng" "list_all (action_ok eng) (act # acts)" "\<not> engInTrans eng (tsConn s)"
    and "proccesTrans eng hk act s = (r, s')"
  shows "waits s' \<le> waits s + 3 \<and>
    (r \<noteq> Inl Locked_Db \<or> waits (run_all eng hk acts s') \<le> waits s')"
  using trans_outcome[OF assms(1) _ assms(3,4)] assms(2) run_all_no_retry[OF assms(1), of acts s' hk]
  by auto

text \<open>A database that is locked when the transaction begins.\<close>

definition locked_engine :: "(int \<times> int option, int) sql_engine" where
  "locked_engine = snapshot_engine\<lparr>engBegin := (\<lambda>d. (if snd d = None then Some Locked_Db else Some (Other_Db ''open''), d))\<rparr>"

theorem retries_used_up_witness:
  "\<exists>s'. proccesTrans locked_engine no_hooks (counting_run (''a'', None)) idle_state = (Inl Locked_Db, s') \<and>
     waits s' = 3 \<and>
     waits (run_all locked_engine no_hooks [counting_run (''a'', None), counting_run (''b'', None)] s') \<le> waits s'"
proof -
  have eng: "engine_ok locked_engine"
    using snapshot_engine_ok
    by (auto simp: engine_ok_def locked_engine_def)
  have act: "action_ok locked_engine (counting_run q)" for q
    by (auto simp: action_ok_def locked_engine_def snapshot_engine_def counting_run_def split: option.splits)
  define s' where "s' = snd (proccesTrans locked_engine no_hooks (counting_run (''a'', None)) idle_state)"
  have run: "proccesTrans locked_engine no_hooks (counting_run (''a'', None)) idle_state = (Inl Locked_Db, s')"
    and "waits s' = 3"
    by (simp_all add: s'_def proccesTrans.simps trans_attempt_def locked_engine_def snapshot_engine_def
        no_hooks_def idle_state_def log_if_def close_failed_def isLockedDbError_def waits_def Let_def)
  moreover have "\<not> engInTrans locked_engine (tsConn idle_state)"
    by (simp add: locked_engine_def snapshot_engine_def idle_state_def)
  ultimately show ?thesis
    using retries_used_up[OF eng _ _ run, of "[counting_run (''a'', None), counting_run (''b'', None)]"] act
    by auto
qed

subsection \<open>Corners\<close>

text \<open>The hook after a transaction never runs after one that failed: by then it was rolled back.\<close>

lemma after_hook_skipped:
  assumes "engine_ok eng" "action_ok eng act" "\<not> engInTrans eng (tsConn s)"
    and "proccesTrans eng hk act s = (Inl e, s')"
  shows "after_runs s' = after_runs s"
  using trans_outcome[OF assms] by simp

text \<open>Texts without values are handed to a worker without an element that would run them.\<close>

lemma worker_skips_texts:
  "worker_arrays [Sql_Text ''DELETE FROM a'', Sql_Text ''DELETE FROM b''] =
     Inr ([Some ''DELETE FROM a'', Some ''DELETE FROM b''], [])"
  "worker_calls [''DELETE FROM a'', ''DELETE FROM b''] [] = Some []"
  by simp_all

lemma worker_shifts_values:
  "worker_arrays [Sql_Text ''DELETE FROM a'', Sql_Item (Some ''DELETE FROM b WHERE id = $id'') (Some [(''id'', VNum 1)]) None] =
     Inr ([Some ''DELETE FROM a'', Some ''DELETE FROM b WHERE id = $id''], [Some [(''id'', VNum 1)]])"
  "worker_calls [''DELETE FROM a'', ''DELETE FROM b WHERE id = $id''] [Some [(''id'', VNum 1)]] =
     Some [(''DELETE FROM a'', Some [(''id'', VNum 1)])]"
  by simp_all

text \<open>Without bare texts every statement runs, with its own values.\<close>

lemma worker_runs_items:
  "worker_arrays (map (\<lambda>(q, v). Sql_Item (Some q) v None) calls) = Inr (map (Some \<circ> fst) calls, map snd calls)"
  "worker_calls (map fst calls) (map snd calls) = Some calls"
  by (induction calls) auto

end
