(* ===== verification/Db_Order.thy ===== *)
theory Db_Order
  imports Js_Prelude
begin

text \<open>
  Who waits for whom: the order of queries and transactions on the one connection of the database
  layer (\<^verbatim>\<open>query\<close> and \<^verbatim>\<open>_beginTrans\<close> of \<^verbatim>\<open>dao.better.sqlite.js\<close>,
  \<^verbatim>\<open>helpers/manage-transaction/index.js\<close>).

  An operation is created when it is called. A query then waits for the transactions that are in
  \<^verbatim>\<open>_transQuerySet\<close> at that moment, a transaction for the queries in \<^verbatim>\<open>_querySet\<close>; a transaction
  then joins the module's set of transaction promises and waits for those it finds there. A settled
  operation is taken out of the sets a moment later (the continuation of its \<^verbatim>\<open>await\<close>). Each of
  these points is a step, and steps of different operations interleave in any order the waiting
  allows. Queries on worker threads and those that are told not to queue do not take part.
\<close>

datatype op_kind = Query_Op | Trans_Op

datatype op_status = Waiting | Queued | Running | Settled

record sched_op =
  opKind :: op_kind
  opStatus :: op_status
  waitsFor :: "nat list"
  queuedAfter :: "nat list"

text \<open>Operations are named by their place in the order of creation.\<close>

record sched =
  ops :: "sched_op list"
  querySet :: "nat list"
  transQuerySet :: "nat list"
  transactionPromisesSet :: "nat list"

definition empty_sched :: sched where
  "empty_sched = \<lparr>ops = [], querySet = [], transQuerySet = [], transactionPromisesSet = []\<rparr>"

definition call_query :: "sched \<Rightarrow> sched" where
  "call_query s = s\<lparr>ops := ops s @ [\<lparr>opKind = Query_Op, opStatus = Waiting,
       waitsFor = transQuerySet s, queuedAfter = []\<rparr>],
     querySet := querySet s @ [length (ops s)]\<rparr>"

definition call_beginTrans :: "sched \<Rightarrow> sched" where
  "call_beginTrans s = s\<lparr>ops := ops s @ [\<lparr>opKind = Trans_Op, opStatus = Waiting,
       waitsFor = querySet s, queuedAfter = []\<rparr>],
     transQuerySet := transQuerySet s @ [length (ops s)]\<rparr>"

definition set_status :: "nat \<Rightarrow> op_status \<Rightarrow> sched \<Rightarrow> sched" where
  "set_status i st s = s\<lparr>ops := (ops s)[i := (ops s ! i)\<lparr>opStatus := st\<rparr>]\<rparr>"

definition settled :: "sched \<Rightarrow> nat \<Rightarrow> bool" where
  "settled s i \<longleftrightarrow> i < length (ops s) \<and> opStatus (ops s ! i) = Settled"

text \<open>A transaction whose queries have settled goes on to \<^verbatim>\<open>manageTransaction\<close>.\<close>

definition join_transactions :: "nat \<Rightarrow> sched \<Rightarrow> sched" where
  "join_transactions i s = s\<lparr>
     ops := (ops s)[i := (ops s ! i)\<lparr>opStatus := Queued, queuedAfter := transactionPromisesSet s\<rparr>],
     transactionPromisesSet := transactionPromisesSet s @ [i]\<rparr>"

definition forget :: "nat \<Rightarrow> sched \<Rightarrow> sched" where
  "forget i s = s\<lparr>querySet := removeAll i (querySet s), transQuerySet := removeAll i (transQuerySet s),
     transactionPromisesSet := removeAll i (transactionPromisesSet s)\<rparr>"

definition may_leave_wait :: "op_kind \<Rightarrow> nat \<Rightarrow> sched \<Rightarrow> bool" where
  "may_leave_wait k i s \<longleftrightarrow> i < length (ops s) \<and> opKind (ops s ! i) = k
     \<and> opStatus (ops s ! i) = Waiting \<and> list_all (settled s) (waitsFor (ops s ! i))"

definition may_begin :: "nat \<Rightarrow> sched \<Rightarrow> bool" where
  "may_begin i s \<longleftrightarrow> i < length (ops s) \<and> opStatus (ops s ! i) = Queued
     \<and> list_all (settled s) (queuedAfter (ops s ! i))"

definition is_running :: "nat \<Rightarrow> sched \<Rightarrow> bool" where
  "is_running i s \<longleftrightarrow> i < length (ops s) \<and> opStatus (ops s ! i) = Running"

text \<open>The steps by which called operations get on.\<close>

inductive work_step :: "sched \<Rightarrow> sched \<Rightarrow> bool" where
  query_starts: "may_leave_wait Query_Op i s \<Longrightarrow> work_step s (set_status i Running s)"
| trans_joins: "may_leave_wait Trans_Op i s \<Longrightarrow> work_step s (join_transactions i s)"
| trans_starts: "may_begin i s \<Longrightarrow> work_step s (set_status i Running s)"
| op_settles: "is_running i s \<Longrightarrow> work_step s (set_status i Settled s)"

inductive sched_step :: "sched \<Rightarrow> sched \<Rightarrow> bool" where
  query_called: "sched_step s (call_query s)"
| trans_called: "sched_step s (call_beginTrans s)"
| works: "work_step s s' \<Longrightarrow> sched_step s s'"
| forgets: "settled s i \<Longrightarrow> sched_step s (forget i s)"

inductive sched_reachable :: "sched \<Rightarrow> bool" where
  sched_starts: "sched_reachable empty_sched"
| sched_goes_on: "sched_reachable s \<Longrightarrow> sched_step s s' \<Longrightarrow> sched_reachable s'"

inductive_cases work_stepE: "work_step s s'"
inductive_cases sched_stepE: "sched_step s s'"

subsection \<open>The invariant\<close>

text \<open>
  Of a query and a transaction that have not settled, one waits for the other; of two transactions
  that have joined and not settled, one is queued after the other; who has left a queue has nobody
  to wait for; waiting goes back in the order of creation, queueing back in the order of joining.
\<close>

definition kind_of :: "sched \<Rightarrow> nat \<Rightarrow> op_kind" where "kind_of s i = opKind (ops s ! i)"
definition status_of :: "sched \<Rightarrow> nat \<Rightarrow> op_status" where "status_of s i = opStatus (ops s ! i)"
definition waits_of :: "sched \<Rightarrow> nat \<Rightarrow> nat list" where "waits_of s i = waitsFor (ops s ! i)"
definition queued_of :: "sched \<Rightarrow> nat \<Rightarrow> nat list" where "queued_of s i = queuedAfter (ops s ! i)"
definition created :: "sched \<Rightarrow> nat" where "created s = length (ops s)"

lemma settled_iff: "settled s i \<longleftrightarrow> i < created s \<and> status_of s i = Settled"
  by (simp add: settled_def created_def status_of_def)

definition unsettled :: "sched \<Rightarrow> nat \<Rightarrow> bool" where
  "unsettled s i \<longleftrightarrow> i < created s \<and> status_of s i \<noteq> Settled"

definition joined :: "sched \<Rightarrow> nat \<Rightarrow> bool" where
  "joined s i \<longleftrightarrow> i < created s \<and> kind_of s i = Trans_Op
     \<and> (status_of s i = Queued \<or> status_of s i = Running)"

definition open_query :: "sched \<Rightarrow> nat \<Rightarrow> bool" where
  "open_query s i \<longleftrightarrow> unsettled s i \<and> kind_of s i = Query_Op"

definition open_trans :: "sched \<Rightarrow> nat \<Rightarrow> bool" where
  "open_trans s i \<longleftrightarrow> unsettled s i \<and> kind_of s i = Trans_Op"

definition left_wait :: "sched \<Rightarrow> nat \<Rightarrow> bool" where
  "left_wait s i \<longleftrightarrow> i < created s \<and> status_of s i \<noteq> Waiting"

definition running_trans :: "sched \<Rightarrow> nat \<Rightarrow> bool" where
  "running_trans s i \<longleftrightarrow> joined s i \<and> status_of s i = Running"

definition before_in :: "nat \<Rightarrow> nat \<Rightarrow> nat list \<Rightarrow> bool" where
  "before_in j i xs \<longleftrightarrow> (\<exists>as bs. xs = as @ i # bs \<and> j \<in> set as)"

definition sets_ok :: "sched \<Rightarrow> bool" where
  "sets_ok s \<longleftrightarrow>
     (\<forall>i. open_query s i \<longrightarrow> i \<in> set (querySet s)) \<and>
     (\<forall>i. open_trans s i \<longrightarrow> i \<in> set (transQuerySet s)) \<and>
     (\<forall>i. joined s i \<longrightarrow> i \<in> set (transactionPromisesSet s)) \<and>
     (\<forall>i. i \<in> set (querySet s) \<longrightarrow> i < created s) \<and>
     (\<forall>i. i \<in> set (transQuerySet s) \<longrightarrow> i < created s) \<and>
     (\<forall>i. i \<in> set (transactionPromisesSet s) \<longrightarrow> joined s i \<or> settled s i) \<and>
     distinct (transactionPromisesSet s)"

definition waits_ok :: "sched \<Rightarrow> bool" where
  "waits_ok s \<longleftrightarrow>
     (\<forall>q t. open_query s q \<longrightarrow> open_trans s t \<longrightarrow> q \<in> set (waits_of s t) \<or> t \<in> set (waits_of s q)) \<and>
     (\<forall>i j. i < created s \<longrightarrow> j \<in> set (waits_of s i) \<longrightarrow> j < i) \<and>
     (\<forall>i j. left_wait s i \<longrightarrow> j \<in> set (waits_of s i) \<longrightarrow> settled s j) \<and>
     (\<forall>i. i < created s \<longrightarrow> status_of s i = Queued \<longrightarrow> joined s i)"

definition queue_ok :: "sched \<Rightarrow> bool" where
  "queue_ok s \<longleftrightarrow>
     (\<forall>t u. joined s t \<longrightarrow> joined s u \<longrightarrow> t = u \<or> t \<in> set (queued_of s u) \<or> u \<in> set (queued_of s t)) \<and>
     (\<forall>i j. joined s i \<longrightarrow> j \<in> set (queued_of s i) \<longrightarrow>
        settled s j \<or> before_in j i (transactionPromisesSet s)) \<and>
     (\<forall>i j. running_trans s i \<longrightarrow> j \<in> set (queued_of s i) \<longrightarrow> settled s j)"

definition sched_inv :: "sched \<Rightarrow> bool" where
  "sched_inv s \<longleftrightarrow> sets_ok s \<and> waits_ok s \<and> queue_ok s"

text \<open>What the steps do to the parts of an operation.\<close>

lemma update_same_field: "f x = f (xs ! i) \<Longrightarrow> f (xs[i := x] ! j) = f (xs ! j)"
  by (cases "i < length xs") (auto simp: nth_list_update list_update_beyond)

lemma set_status_views [simp]:
  "created (set_status i st s) = created s"
  "kind_of (set_status i st s) j = kind_of s j"
  "waits_of (set_status i st s) j = waits_of s j"
  "queued_of (set_status i st s) j = queued_of s j"
  "i < created s \<Longrightarrow> status_of (set_status i st s) j = (if j = i then st else status_of s j)"
  "querySet (set_status i st s) = querySet s" "transQuerySet (set_status i st s) = transQuerySet s"
  "transactionPromisesSet (set_status i st s) = transactionPromisesSet s"
  by (simp_all add: set_status_def created_def kind_of_def waits_of_def queued_of_def status_of_def
      update_same_field nth_list_update)

lemma join_views [simp]:
  "created (join_transactions i s) = created s"
  "kind_of (join_transactions i s) j = kind_of s j"
  "waits_of (join_transactions i s) j = waits_of s j"
  "i < created s \<Longrightarrow> queued_of (join_transactions i s) j = (if j = i then transactionPromisesSet s else queued_of s j)"
  "i < created s \<Longrightarrow> status_of (join_transactions i s) j = (if j = i then Queued else status_of s j)"
  "querySet (join_transactions i s) = querySet s" "transQuerySet (join_transactions i s) = transQuerySet s"
  "transactionPromisesSet (join_transactions i s) = transactionPromisesSet s @ [i]"
  by (simp_all add: join_transactions_def created_def kind_of_def waits_of_def queued_of_def status_of_def
      update_same_field nth_list_update)

lemma forget_views [simp]:
  "created (forget i s) = created s" "kind_of (forget i s) j = kind_of s j"
  "waits_of (forget i s) j = waits_of s j" "queued_of (forget i s) j = queued_of s j"
  "status_of (forget i s) j = status_of s j"
  "querySet (forget i s) = removeAll i (querySet s)"
  "transQuerySet (forget i s) = removeAll i (transQuerySet s)"
  "transactionPromisesSet (forget i s) = removeAll i (transactionPromisesSet s)"
  by (simp_all add: forget_def created_def kind_of_def waits_of_def queued_of_def status_of_def)

lemma call_views [simp]:
  "created (call_query s) = Suc (created s)" "created (call_beginTrans s) = Suc (created s)"
  "j < created s \<Longrightarrow> kind_of (call_query s) j = kind_of s j" "kind_of (call_query s) (created s) = Query_Op"
  "j < created s \<Longrightarrow> kind_of (call_beginTrans s) j = kind_of s j" "kind_of (call_beginTrans s) (created s) = Trans_Op"
  "j < created s \<Longrightarrow> status_of (call_query s) j = status_of s j" "status_of (call_query s) (created s) = Waiting"
  "j < created s \<Longrightarrow> status_of (call_beginTrans s) j = status_of s j" "status_of (call_beginTrans s) (created s) = Waiting"
  "j < created s \<Longrightarrow> waits_of (call_query s) j = waits_of s j" "waits_of (call_query s) (created s) = transQuerySet s"
  "j < created s \<Longrightarrow> waits_of (call_beginTrans s) j = waits_of s j" "waits_of (call_beginTrans s) (created s) = querySet s"
  "j < created s \<Longrightarrow> queued_of (call_query s) j = queued_of s j"
  "j < created s \<Longrightarrow> queued_of (call_beginTrans s) j = queued_of s j"
  "querySet (call_query s) = querySet s @ [created s]" "querySet (call_beginTrans s) = querySet s"
  "transQuerySet (call_query s) = transQuerySet s" "transQuerySet (call_beginTrans s) = transQuerySet s @ [created s]"
  "transactionPromisesSet (call_query s) = transactionPromisesSet s"
  "transactionPromisesSet (call_beginTrans s) = transactionPromisesSet s"
  by (simp_all add: call_query_def call_beginTrans_def created_def kind_of_def waits_of_def queued_of_def
      status_of_def nth_append)

subsection \<open>Every step keeps it\<close>

lemmas sched_views = unsettled_def joined_def open_query_def open_trans_def left_wait_def
  running_trans_def settled_iff

lemma inv_empty: "sched_inv empty_sched"
  by (simp add: sched_inv_def sets_ok_def waits_ok_def queue_ok_def sched_views created_def empty_sched_def)

lemma in_range:
  "unsettled s i \<Longrightarrow> i < created s" "joined s i \<Longrightarrow> i < created s" "settled s i \<Longrightarrow> i < created s"
  "open_query s i \<Longrightarrow> i < created s" "open_trans s i \<Longrightarrow> i < created s" "left_wait s i \<Longrightarrow> i < created s"
  "running_trans s i \<Longrightarrow> i < created s"
  by (simp_all add: sched_views)

lemma called_views [simp]:
  "open_query (call_query s) i \<longleftrightarrow> open_query s i \<or> i = created s"
  "open_trans (call_query s) i \<longleftrightarrow> open_trans s i"
  "open_query (call_beginTrans s) i \<longleftrightarrow> open_query s i"
  "open_trans (call_beginTrans s) i \<longleftrightarrow> open_trans s i \<or> i = created s"
  "joined (call_query s) i \<longleftrightarrow> joined s i" "joined (call_beginTrans s) i \<longleftrightarrow> joined s i"
  "settled (call_query s) i \<longleftrightarrow> settled s i" "settled (call_beginTrans s) i \<longleftrightarrow> settled s i"
  "left_wait (call_query s) i \<longleftrightarrow> left_wait s i" "left_wait (call_beginTrans s) i \<longleftrightarrow> left_wait s i"
  "running_trans (call_query s) i \<longleftrightarrow> running_trans s i"
  "running_trans (call_beginTrans s) i \<longleftrightarrow> running_trans s i"
  by (cases "i = created s"; cases "i < created s"; simp add: sched_views)+

lemma forgotten_views [simp]:
  "open_query (forget i s) j \<longleftrightarrow> open_query s j" "open_trans (forget i s) j \<longleftrightarrow> open_trans s j"
  "joined (forget i s) j \<longleftrightarrow> joined s j" "settled (forget i s) j \<longleftrightarrow> settled s j"
  "left_wait (forget i s) j \<longleftrightarrow> left_wait s j" "running_trans (forget i s) j \<longleftrightarrow> running_trans s j"
  by (simp_all add: sched_views)

lemma inv_called_sets: "sets_ok s \<Longrightarrow> sets_ok (call_query s)" "sets_ok s \<Longrightarrow> sets_ok (call_beginTrans s)"
  unfolding sets_ok_def by (auto simp: less_Suc_eq)

lemma waits_okI:
  assumes "\<And>q t. open_query s q \<Longrightarrow> open_trans s t \<Longrightarrow> q \<in> set (waits_of s t) \<or> t \<in> set (waits_of s q)"
    "\<And>i j. i < created s \<Longrightarrow> j \<in> set (waits_of s i) \<Longrightarrow> j < i"
    "\<And>i j. left_wait s i \<Longrightarrow> j \<in> set (waits_of s i) \<Longrightarrow> settled s j"
    "\<And>i. i < created s \<Longrightarrow> status_of s i = Queued \<Longrightarrow> joined s i"
  shows "waits_ok s"
  using assms unfolding waits_ok_def by blast

lemma waits_okD:
  assumes "waits_ok s"
  shows "open_query s q \<Longrightarrow> open_trans s t \<Longrightarrow> q \<in> set (waits_of s t) \<or> t \<in> set (waits_of s q)"
    "i < created s \<Longrightarrow> j \<in> set (waits_of s i) \<Longrightarrow> j < i"
    "left_wait s i \<Longrightarrow> j \<in> set (waits_of s i) \<Longrightarrow> settled s j"
    "i < created s \<Longrightarrow> status_of s i = Queued \<Longrightarrow> joined s i"
  using assms unfolding waits_ok_def by blast+

lemma queue_okI:
  assumes "\<And>t u. joined s t \<Longrightarrow> joined s u \<Longrightarrow> t = u \<or> t \<in> set (queued_of s u) \<or> u \<in> set (queued_of s t)"
    "\<And>i j. joined s i \<Longrightarrow> j \<in> set (queued_of s i) \<Longrightarrow> settled s j \<or> before_in j i (transactionPromisesSet s)"
    "\<And>i j. running_trans s i \<Longrightarrow> j \<in> set (queued_of s i) \<Longrightarrow> settled s j"
  shows "queue_ok s"
  using assms unfolding queue_ok_def by blast

lemma queue_okD:
  assumes "queue_ok s"
  shows "joined s t \<Longrightarrow> joined s u \<Longrightarrow> t = u \<or> t \<in> set (queued_of s u) \<or> u \<in> set (queued_of s t)"
    "joined s i \<Longrightarrow> j \<in> set (queued_of s i) \<Longrightarrow> settled s j \<or> before_in j i (transactionPromisesSet s)"
    "running_trans s i \<Longrightarrow> j \<in> set (queued_of s i) \<Longrightarrow> settled s j"
  using assms unfolding queue_ok_def by blast+

lemma sets_okD:
  assumes "sets_ok s"
  shows "open_query s i \<Longrightarrow> i \<in> set (querySet s)" "open_trans s i \<Longrightarrow> i \<in> set (transQuerySet s)"
    "joined s i \<Longrightarrow> i \<in> set (transactionPromisesSet s)" "i \<in> set (querySet s) \<Longrightarrow> i < created s"
    "i \<in> set (transQuerySet s) \<Longrightarrow> i < created s"
    "i \<in> set (transactionPromisesSet s) \<Longrightarrow> joined s i \<or> settled s i"
    "distinct (transactionPromisesSet s)"
  using assms unfolding sets_ok_def by blast+

lemma sets_okI:
  assumes "\<And>i. open_query s i \<Longrightarrow> i \<in> set (querySet s)" "\<And>i. open_trans s i \<Longrightarrow> i \<in> set (transQuerySet s)"
    "\<And>i. joined s i \<Longrightarrow> i \<in> set (transactionPromisesSet s)" "\<And>i. i \<in> set (querySet s) \<Longrightarrow> i < created s"
    "\<And>i. i \<in> set (transQuerySet s) \<Longrightarrow> i < created s"
    "\<And>i. i \<in> set (transactionPromisesSet s) \<Longrightarrow> joined s i \<or> settled s i"
    "distinct (transactionPromisesSet s)"
  shows "sets_ok s"
  using assms unfolding sets_ok_def by blast

lemma inv_called_query:
  assumes "sets_ok s" "waits_ok s"
  shows "waits_ok (call_query s)"
proof (rule waits_okI)
  fix q t assume "open_query (call_query s) q" "open_trans (call_query s) t"
  then have t: "open_trans s t" and q: "open_query s q \<or> q = created s" by simp_all
  show "q \<in> set (waits_of (call_query s) t) \<or> t \<in> set (waits_of (call_query s) q)"
    using q
  proof
    assume "open_query s q"
    with waits_okD(1)[OF assms(2) this t] t show ?thesis by (simp add: in_range)
  next
    assume "q = created s"
    with sets_okD(2)[OF assms(1) t] show ?thesis by simp
  qed
next
  fix i j assume "i < created (call_query s)" "j \<in> set (waits_of (call_query s) i)"
  then show "j < i" using waits_okD(2)[OF assms(2)] sets_okD(5)[OF assms(1)] by (auto simp: less_Suc_eq)
next
  fix i j assume "left_wait (call_query s) i" "j \<in> set (waits_of (call_query s) i)"
  then show "settled (call_query s) j" using waits_okD(3)[OF assms(2)] by (simp add: in_range)
next
  fix i assume "i < created (call_query s)" "status_of (call_query s) i = Queued"
  then show "joined (call_query s) i" using waits_okD(4)[OF assms(2)] by (auto simp: less_Suc_eq)
qed

lemma inv_called_trans:
  assumes "sets_ok s" "waits_ok s"
  shows "waits_ok (call_beginTrans s)"
proof (rule waits_okI)
  fix q t assume "open_query (call_beginTrans s) q" "open_trans (call_beginTrans s) t"
  then have q: "open_query s q" and t: "open_trans s t \<or> t = created s" by simp_all
  show "q \<in> set (waits_of (call_beginTrans s) t) \<or> t \<in> set (waits_of (call_beginTrans s) q)"
    using t
  proof
    assume "open_trans s t"
    with waits_okD(1)[OF assms(2) q this] q show ?thesis by (simp add: in_range)
  next
    assume "t = created s"
    with sets_okD(1)[OF assms(1) q] show ?thesis by simp
  qed
next
  fix i j assume "i < created (call_beginTrans s)" "j \<in> set (waits_of (call_beginTrans s) i)"
  then show "j < i" using waits_okD(2)[OF assms(2)] sets_okD(4)[OF assms(1)] by (auto simp: less_Suc_eq)
next
  fix i j assume "left_wait (call_beginTrans s) i" "j \<in> set (waits_of (call_beginTrans s) i)"
  then show "settled (call_beginTrans s) j" using waits_okD(3)[OF assms(2)] by (simp add: in_range)
next
  fix i assume "i < created (call_beginTrans s)" "status_of (call_beginTrans s) i = Queued"
  then show "joined (call_beginTrans s) i" using waits_okD(4)[OF assms(2)] by (auto simp: less_Suc_eq)
qed

lemma inv_called_queue: "queue_ok s \<Longrightarrow> queue_ok (call_query s)" "queue_ok s \<Longrightarrow> queue_ok (call_beginTrans s)"
  by (rule queue_okI; use queue_okD in \<open>fastforce simp: in_range\<close>)+

text \<open>A status changes: forward, and to running only for whom nobody is in the way.\<close>

lemma status_views:
  assumes "i < created s" "status_of s i \<noteq> Settled" "st = Settled \<or> st = Running"
    and "kind_of s i = Trans_Op \<longrightarrow> joined s i"
  shows "open_query (set_status i st s) j \<longrightarrow> open_query s j"
    "open_trans (set_status i st s) j \<longrightarrow> open_trans s j"
    "joined (set_status i st s) j \<longrightarrow> joined s j"
    "settled s j \<longrightarrow> settled (set_status i st s) j"
    "joined s j \<longrightarrow> joined (set_status i st s) j \<or> settled (set_status i st s) j"
    "left_wait (set_status i st s) j \<longrightarrow> left_wait s j \<or> j = i"
    "running_trans (set_status i st s) j \<longrightarrow> running_trans s j \<or> j = i"
proof -
  note sv = sched_views set_status_views(1,2) set_status_views(5)[OF assms(1)]
  show "open_query (set_status i st s) j \<longrightarrow> open_query s j"
    by (cases "j = i") (simp_all add: sv assms(1,2))
  show "open_trans (set_status i st s) j \<longrightarrow> open_trans s j"
    by (cases "j = i") (simp_all add: sv assms(1,2))
  show "joined (set_status i st s) j \<longrightarrow> joined s j"
    using assms(4) by (cases "j = i") (auto simp add: sv)
  show "settled s j \<longrightarrow> settled (set_status i st s) j"
    using assms(2) by (cases "j = i") (simp_all add: sv)
  show "joined s j \<longrightarrow> joined (set_status i st s) j \<or> settled (set_status i st s) j"
    using assms(3) by (cases "j = i") (auto simp add: sv)
  show "left_wait (set_status i st s) j \<longrightarrow> left_wait s j \<or> j = i"
    by (cases "j = i") (simp_all add: sv)
  show "running_trans (set_status i st s) j \<longrightarrow> running_trans s j \<or> j = i"
    by (cases "j = i") (simp_all add: sv)
qed

lemma inv_status:
  assumes inv: "sched_inv s" and i: "i < created s" "status_of s i \<noteq> Settled" "st = Settled \<or> st = Running"
    and k: "kind_of s i = Trans_Op \<longrightarrow> joined s i"
    and free: "list_all (settled s) (waits_of s i)"
    and alone: "joined s i \<longrightarrow> st = Running \<longrightarrow> list_all (settled s) (queued_of s i)"
  shows "sched_inv (set_status i st s)"
proof -
  note v = status_views[OF i k]
  have ok: "sets_ok s" "waits_ok s" "queue_ok s" using inv by (simp_all add: sched_inv_def)
  have "sets_ok (set_status i st s)"
  proof (rule sets_okI)
    fix j assume "j \<in> set (transactionPromisesSet (set_status i st s))"
    then have "joined s j \<or> settled s j" using sets_okD(6)[OF ok(1)] by simp
    then show "joined (set_status i st s) j \<or> settled (set_status i st s) j" using v(4,5) by blast
  qed (use v(1-3) sets_okD(1-5,7)[OF ok(1)] in auto)
  moreover have "waits_ok (set_status i st s)"
  proof (rule waits_okI)
    fix j assume "j < created (set_status i st s)" "status_of (set_status i st s) j = Queued"
    then have "joined s j" "j \<noteq> i" using waits_okD(4)[OF ok(2)] i by (auto split: if_splits)
    then show "joined (set_status i st s) j" using i by (simp add: joined_def)
  next
    fix a j assume "left_wait (set_status i st s) a" "j \<in> set (waits_of (set_status i st s) a)"
    then have "settled s j"
      using v(6)[of a] waits_okD(3)[OF ok(2), of a] free by (auto simp: list_all_iff)
    then show "settled (set_status i st s) j" using v(4) by blast
  qed (use v waits_okD[OF ok(2)] in auto)
  moreover have "queue_ok (set_status i st s)"
  proof (rule queue_okI)
    fix a j assume a: "running_trans (set_status i st s) a" "j \<in> set (queued_of (set_status i st s) a)"
    show "settled (set_status i st s) j"
    proof (cases "a = i")
      case True
      with a(1) i have "st = Running" "joined s i"
        using v(3)[of i] by (auto simp: running_trans_def)
      with alone a(2) True v(4) show ?thesis by (auto simp: list_all_iff)
    next
      case False
      with a(1) v(7)[of a] have "running_trans s a" by blast
      with a(2) queue_okD(3)[OF ok(3)] v(4) show ?thesis by auto
    qed
  next
    fix a j assume "joined (set_status i st s) a" "j \<in> set (queued_of (set_status i st s) a)"
    then have "settled s j \<or> before_in j a (transactionPromisesSet s)"
      using v(3) queue_okD(2)[OF ok(3), of a j] by auto
    then show "settled (set_status i st s) j \<or> before_in j a (transactionPromisesSet (set_status i st s))"
      using v(4) by auto
  qed (use v(3) queue_okD(1)[OF ok(3)] in auto)
  ultimately show ?thesis by (simp add: sched_inv_def)
qed

text \<open>A transaction joins, or a settled operation is forgotten.\<close>

lemma before_in_append: "before_in j i xs \<Longrightarrow> before_in j i (xs @ ys)"
  unfolding before_in_def by (metis append.assoc append_Cons)

lemma before_in_remove: "before_in j i xs \<Longrightarrow> i \<noteq> k \<Longrightarrow> j \<noteq> k \<Longrightarrow> before_in j i (removeAll k xs)"
  unfolding before_in_def by force

lemma inv_join:
  assumes inv: "sched_inv s" and i: "i < created s" "status_of s i = Waiting" "kind_of s i = Trans_Op"
    and free: "list_all (settled s) (waits_of s i)"
  shows "sched_inv (join_transactions i s)"
proof -
  have ok: "sets_ok s" "waits_ok s" "queue_ok s" using inv by (simp_all add: sched_inv_def)
  note jv = sched_views join_views(1,2) join_views(5)[OF i(1)]
  have v: "open_query (join_transactions i s) j = open_query s j" "open_trans (join_transactions i s) j = open_trans s j"
    "joined (join_transactions i s) j = (joined s j \<or> j = i)" "settled (join_transactions i s) j = settled s j"
    "left_wait (join_transactions i s) j = (left_wait s j \<or> j = i)"
    "running_trans (join_transactions i s) j = running_trans s j" for j
    by (cases "j = i"; simp add: jv i)+
  have i_not: "\<not> joined s i" using i by (simp add: joined_def)
  have "sets_ok (join_transactions i s)"
  proof (rule sets_okI)
    fix j assume "j \<in> set (transactionPromisesSet (join_transactions i s))"
    then show "joined (join_transactions i s) j \<or> settled (join_transactions i s) j"
      using sets_okD(6)[OF ok(1), of j] by (auto simp: v)
  next
    have "i \<notin> set (transactionPromisesSet s)"
      using sets_okD(6)[OF ok(1), of i] i by (auto simp: sched_views)
    then show "distinct (transactionPromisesSet (join_transactions i s))" using sets_okD(7)[OF ok(1)] by simp
  qed (use sets_okD(1-5)[OF ok(1)] i in \<open>auto simp: v\<close>)
  moreover have "waits_ok (join_transactions i s)"
  proof (rule waits_okI)
    fix a j assume "left_wait (join_transactions i s) a" "j \<in> set (waits_of (join_transactions i s) a)"
    then show "settled (join_transactions i s) j"
      using waits_okD(3)[OF ok(2)] free by (auto simp: v list_all_iff)
  next
    fix j assume "j < created (join_transactions i s)" "status_of (join_transactions i s) j = Queued"
    then show "joined (join_transactions i s) j" using waits_okD(4)[OF ok(2)] i by (auto simp: v split: if_splits)
  qed (use waits_okD[OF ok(2)] in \<open>auto simp: v\<close>)
  moreover have "queue_ok (join_transactions i s)"
  proof (rule queue_okI)
    fix t u assume "joined (join_transactions i s) t" "joined (join_transactions i s) u"
    then show "t = u \<or> t \<in> set (queued_of (join_transactions i s) u) \<or> u \<in> set (queued_of (join_transactions i s) t)"
      using queue_okD(1)[OF ok(3), of t u] sets_okD(3)[OF ok(1)] i by (auto simp: v)
  next
    fix a j assume a: "joined (join_transactions i s) a" "j \<in> set (queued_of (join_transactions i s) a)"
    show "settled (join_transactions i s) j \<or> before_in j a (transactionPromisesSet (join_transactions i s))"
    proof (cases "a = i")
      case True
      with a i have "j \<in> set (transactionPromisesSet s)" by simp
      then show ?thesis using True by (auto simp: before_in_def)
    next
      case False
      with a i have "settled s j \<or> before_in j a (transactionPromisesSet s)"
        using queue_okD(2)[OF ok(3)] by (simp add: v)
      then show ?thesis by (auto simp: v before_in_append)
    qed
  next
    fix a j assume a: "running_trans (join_transactions i s) a" "j \<in> set (queued_of (join_transactions i s) a)"
    then have "a \<noteq> i" using i_not by (auto simp: v(6)) (simp add: running_trans_def)
    with a i show "settled (join_transactions i s) j" using queue_okD(3)[OF ok(3)] by (simp add: v)
  qed
  ultimately show ?thesis by (simp add: sched_inv_def)
qed

lemma inv_forget:
  assumes inv: "sched_inv s" and i: "settled s i"
  shows "sched_inv (forget i s)"
proof -
  have ok: "sets_ok s" "waits_ok s" "queue_ok s" using inv by (simp_all add: sched_inv_def)
  have not_i: "\<not> open_query s i" "\<not> open_trans s i" "\<not> joined s i" using i by (auto simp: sched_views)
  have "sets_ok (forget i s)"
    using sets_okD[OF ok(1)] not_i by (intro sets_okI) (auto simp: distinct_removeAll)
  moreover have "waits_ok (forget i s)"
    using waits_okD[OF ok(2)] by (intro waits_okI) auto
  moreover have "queue_ok (forget i s)"
  proof (rule queue_okI)
    fix a j assume "joined (forget i s) a" "j \<in> set (queued_of (forget i s) a)"
    then have a: "joined s a" "settled s j \<or> before_in j a (transactionPromisesSet s)"
      using queue_okD(2)[OF ok(3)] by simp_all
    then have "a \<noteq> i" using not_i by auto
    with a show "settled (forget i s) j \<or> before_in j a (transactionPromisesSet (forget i s))"
      using i by (cases "j = i") (auto intro: before_in_remove)
  qed (use queue_okD(1,3)[OF ok(3)] in auto)
  ultimately show ?thesis by (simp add: sched_inv_def)
qed

lemma queued_joined: "waits_ok s \<Longrightarrow> i < created s \<Longrightarrow> status_of s i = Queued \<Longrightarrow> joined s i"
  by (rule waits_okD(4))

lemma inv_work: "work_step s s' \<Longrightarrow> sched_inv s \<Longrightarrow> sched_inv s'"
proof (induction rule: work_step.induct)
  case (query_starts i s)
  then show ?case
    by (intro inv_status) (auto simp: may_leave_wait_def created_def status_of_def kind_of_def waits_of_def joined_def)
next
  case (trans_joins i s)
  then show ?case
    by (intro inv_join) (auto simp: may_leave_wait_def created_def status_of_def kind_of_def waits_of_def)
next
  case (trans_starts i s)
  then have i: "i < created s" "status_of s i = Queued" "list_all (settled s) (queued_of s i)"
    and w: "waits_ok s"
    by (simp_all add: may_begin_def created_def status_of_def queued_of_def sched_inv_def)
  have "list_all (settled s) (waits_of s i)"
    using waits_okD(3)[OF w, of i] i by (auto simp: list_all_iff left_wait_def)
  with i queued_joined[OF w i(1,2)] trans_starts(2) show ?case by (intro inv_status) auto
next
  case (op_settles i s)
  then have i: "i < created s" "status_of s i = Running" and w: "waits_ok s"
    by (simp_all add: is_running_def created_def status_of_def sched_inv_def)
  have "list_all (settled s) (waits_of s i)"
    using waits_okD(3)[OF w, of i] i by (auto simp: list_all_iff left_wait_def)
  with i op_settles(2) show ?case by (intro inv_status) (auto simp: joined_def)
qed

lemma sched_invariant: "sched_reachable s \<Longrightarrow> sched_inv s"
proof (induction rule: sched_reachable.induct)
  case (sched_goes_on s s')
  note ih = sched_goes_on.IH[unfolded sched_inv_def]
  from sched_goes_on(2) show ?case
  proof (cases rule: sched_step.cases)
    case (works)
    then show ?thesis using inv_work sched_goes_on.IH by blast
  next
    case (forgets i)
    then show ?thesis using inv_forget sched_goes_on.IH by blast
  qed (use ih in \<open>auto simp: sched_inv_def inv_called_sets inv_called_query inv_called_trans inv_called_queue\<close>)
qed (rule inv_empty)

subsection \<open>No overlap, no deadlock\<close>

text \<open>
  C21: a transaction has the connection for itself. Whatever is called in whatever order, while a
  transaction runs no queued query and no other transaction runs.
\<close>

theorem transaction_runs_alone:
  assumes "sched_reachable s" "is_running t s" "opKind (ops s ! t) = Trans_Op" "is_running i s"
  shows "i = t"
proof -
  have inv: "sets_ok s" "waits_ok s" "queue_ok s"
    using sched_invariant[OF assms(1)] by (simp_all add: sched_inv_def)
  have t: "joined s t" "open_trans s t" "left_wait s t" "running_trans s t"
    using assms(2,3) by (simp_all add: is_running_def sched_views created_def kind_of_def status_of_def)
  show ?thesis
  proof (cases "opKind (ops s ! i)")
    case Query_Op
    then have i: "open_query s i" "left_wait s i"
      using assms(4) by (simp_all add: is_running_def sched_views created_def kind_of_def status_of_def)
    from waits_okD(1)[OF inv(2) i(1) t(2)] waits_okD(3)[OF inv(2)] i t
    have "settled s i \<or> settled s t" by blast
    with i t show ?thesis by (auto simp: sched_views)
  next
    case Trans_Op
    then have i: "joined s i" "running_trans s i"
      using assms(4) by (simp_all add: is_running_def sched_views created_def kind_of_def status_of_def)
    from queue_okD(1)[OF inv(3) i(1) t(1)] queue_okD(3)[OF inv(3)] i t
    have "i = t \<or> settled s i \<or> settled s t" by blast
    with i t show ?thesis by (auto simp: sched_views)
  qed
qed

lemma ready_ops_work:
  assumes "unsettled s i" "list_all (settled s) (waits_of s i)"
    and "status_of s i = Queued \<longrightarrow> list_all (settled s) (queued_of s i)"
  shows "\<exists>s'. work_step s s'"
proof (cases "status_of s i")
  case Waiting
  with assms show ?thesis
    using query_starts[of i s] trans_joins[of i s]
    by (cases "kind_of s i") (auto simp: may_leave_wait_def unsettled_def created_def status_of_def
        kind_of_def waits_of_def)
next
  case Queued
  with assms show ?thesis
    using trans_starts[of i s] by (auto simp: may_begin_def unsettled_def created_def status_of_def queued_of_def)
next
  case Running
  with assms show ?thesis
    using op_settles[of i s] by (auto simp: is_running_def unsettled_def created_def status_of_def)
next
  case Settled
  with assms show ?thesis by (simp add: unsettled_def)
qed

text \<open>
  Nobody waits for ever. As long as a called operation has not settled, some called operation
  can take its next step; no two operations wait for each other, even around longer circles.
\<close>

theorem some_operation_goes_on:
  assumes "sched_reachable s" "unsettled s i"
  shows "\<exists>s'. work_step s s'"
proof -
  have inv: "sets_ok s" "waits_ok s" "queue_ok s"
    using sched_invariant[OF assms(1)] by (simp_all add: sched_inv_def)
  show ?thesis
  proof (cases "\<exists>t\<in>set (transactionPromisesSet s). joined s t")
    case True
    from split_list_first_prop[OF this] obtain as t bs where
      split: "transactionPromisesSet s = as @ t # bs" "joined s t" "\<forall>a\<in>set as. \<not> joined s a" by blast
    have "settled s j" if "j \<in> set (queued_of s t)" for j
    proof (rule ccontr)
      assume unset: "\<not> settled s j"
      with queue_okD(2)[OF inv(3) split(2) that] obtain cs ds where
        cs: "transactionPromisesSet s = cs @ t # ds" "j \<in> set cs" by (auto simp: before_in_def)
      have "as = cs"
        using split(1) cs(1) sets_okD(7)[OF inv(1)] by (metis append_Cons_eq_iff distinct.simps(2)
            distinct_append not_distinct_conv_prefix)
      with cs split(3) have "\<not> joined s j" by blast
      moreover have "joined s j" using sets_okD(6)[OF inv(1), of j] unset cs by simp
      ultimately show False by simp
    qed
    moreover have "left_wait s t" "unsettled s t" using split(2) by (auto simp: sched_views)
    ultimately show ?thesis
      using waits_okD(3)[OF inv(2)] by (intro ready_ops_work[of s t]) (auto simp: list_all_iff)
  next
    case False
    define m where "m = (LEAST j. unsettled s j)"
    have m: "unsettled s m" "\<And>j. j < m \<Longrightarrow> \<not> unsettled s j"
      unfolding m_def by (rule LeastI[of _ i], rule assms(2)) (rule not_less_Least)
    have "m < created s" using m(1) by (rule in_range)
    have "settled s j" if "j \<in> set (waits_of s m)" for j
    proof -
      have "j < m" using waits_okD(2)[OF inv(2) \<open>m < created s\<close> that] .
      with m(2)[OF this] \<open>m < created s\<close> show ?thesis by (auto simp: unsettled_def settled_iff)
    qed
    moreover have "status_of s m \<noteq> Queued"
      using waits_okD(4)[OF inv(2) \<open>m < created s\<close>] sets_okD(3)[OF inv(1)] False by blast
    ultimately show ?thesis using m(1) by (intro ready_ops_work[of s m]) (auto simp: list_all_iff)
  qed
qed

subsection \<open>A run\<close>

text \<open>
  A query, a transaction behind it, a query behind that: when the first query is done the
  transaction runs, and the second query has to wait for it.
\<close>

definition sample_sched :: sched where
  "sample_sched = set_status 1 Running (join_transactions 1 (set_status 0 Settled
     (set_status 0 Running (call_query (call_beginTrans (call_query empty_sched))))))"

lemma sample_sched_reachable: "sched_reachable sample_sched"
proof -
  define s0 where "s0 = call_query (call_beginTrans (call_query empty_sched))"
  define s1 where "s1 = set_status 0 Running s0"
  define s2 where "s2 = set_status 0 Settled s1"
  define s3 where "s3 = join_transactions 1 s2"
  have "sched_reachable s0"
    unfolding s0_def by (intro sched_goes_on[OF _ query_called] sched_goes_on[OF _ trans_called] sched_starts)
  moreover have "work_step s0 s1"
    unfolding s1_def by (rule query_starts) (unfold s0_def, code_simp)
  moreover have "work_step s1 s2"
    unfolding s2_def by (rule op_settles) (unfold s1_def s0_def, code_simp)
  moreover have "work_step s2 s3"
    unfolding s3_def by (rule trans_joins) (unfold s2_def s1_def s0_def, code_simp)
  moreover have "work_step s3 (set_status 1 Running s3)"
    by (rule trans_starts) (unfold s3_def s2_def s1_def s0_def, code_simp)
  ultimately show ?thesis
    unfolding sample_sched_def s0_def[symmetric] s1_def[symmetric] s2_def[symmetric] s3_def[symmetric]
    using sched_goes_on[OF _ works] by blast
qed

theorem transaction_runs_alone_witness:
  "is_running 1 sample_sched \<and> \<not> is_running 0 sample_sched \<and> \<not> is_running 2 sample_sched"
proof -
  have t: "is_running 1 sample_sched" "opKind (ops sample_sched ! 1) = Trans_Op" by code_simp+
  show ?thesis
    using transaction_runs_alone[OF sample_sched_reachable t, of 0]
      transaction_runs_alone[OF sample_sched_reachable t, of 2] t(1) by auto
qed

theorem some_operation_goes_on_witness: "\<exists>s'. work_step sample_sched s'"
proof (rule some_operation_goes_on[OF sample_sched_reachable])
  show "unsettled sample_sched 2" by code_simp
qed

text \<open>
  A query that is called from inside a running transaction and not told to skip the queue waits for
  that very transaction, so it cannot start before the transaction has settled.
\<close>

lemma inner_query_waits:
  assumes "sched_reachable s" "is_running t s" "opKind (ops s ! t) = Trans_Op"
  shows "t \<in> set (waitsFor (ops (call_query s) ! length (ops s)))"
    "\<not> may_leave_wait Query_Op (length (ops s)) (call_query s)"
proof -
  have "open_trans s t"
    using assms(2,3) by (simp add: is_running_def sched_views created_def kind_of_def status_of_def)
  then have "t \<in> set (transQuerySet s)"
    using sched_invariant[OF assms(1)] by (simp add: sched_inv_def sets_okD)
  then show wait: "t \<in> set (waitsFor (ops (call_query s) ! length (ops s)))"
    by (simp add: call_query_def)
  have "\<not> settled s t" using assms(2) by (auto simp: is_running_def settled_def)
  then have "\<not> settled (call_query s) t" by simp
  with wait show "\<not> may_leave_wait Query_Op (length (ops s)) (call_query s)"
    by (auto simp: may_leave_wait_def list_all_iff)
qed

end
