(* ===== verification/Db_Query_Props.thy ===== *)
theory Db_Query_Props
  imports Db_Query
begin

text \<open>
  Whose rows a query for a private collection reads, and when it is refused.
\<close>

lemma get_fold_merge_other:
  "list_all (\<lambda>b. k \<notin> fst ` set b) bs \<Longrightarrow> get (foldl merge_obj a bs) k = get a k"
  by (induction bs arbitrary: a) (simp_all add: get_merge_other)

lemma fst_set_fold_put:
  assumes "\<And>accum x. fst ` set (f accum x) \<subseteq> fst ` set accum \<union> N"
  shows "fst ` set (foldl f a xs) \<subseteq> fst ` set a \<union> N"
proof (induction xs arbitrary: a)
  case (Cons x xs)
  from Cons[of "f a x"] assms[of a x] show ?case by auto
qed simp

lemma fields_filters_names: "k \<in> fst ` set (getFieldsFilters names ps fs) \<Longrightarrow> hd k = CHR ''_''"
proof -
  have "fst ` set (getFieldsFilters names ps fs) \<subseteq> fst ` set ([] :: obj) \<union> {k. hd k = CHR ''_''}"
    unfolding getFieldsFilters_def
    by (rule fst_set_fold_put) (auto simp: Let_def put_def keys_list_update split: jsval.splits)
  then show "k \<in> fst ` set (getFieldsFilters names ps fs) \<Longrightarrow> hd k = CHR ''_''" by auto
qed

lemma symbol_filter_names: "k \<in> fst ` set (getSymbolFilter v f) \<Longrightarrow> k = f"
  by (auto simp: getSymbolFilter_def split: jsval.splits)

lemma timeframe_filter_names: "k \<in> fst ` set (getTimeframeFilter v f) \<Longrightarrow> k = ''$in'' \<or> k = ''$eq''"
  unfolding getTimeframeFilter_def timeframe_filter_def
  by (cases f; cases v) (simp_all split: if_splits)

text \<open>A collection other than the (public) status messages, whose schema has no \<^verbatim>\<open>$or\<close> of its own.\<close>

definition plain_coll :: "coll_model \<Rightarrow> bool" where
  "plain_coll coll \<longleftrightarrow> cmName coll \<noteq> ''statusMessages'' \<and> ''$or'' \<notin> fst ` set (cmAdditional coll) \<and> cmSymbolField coll \<noteq> Some ''$or''"

lemma insertable_filter_or:
  assumes "plain_coll coll" "isInsertableArrObj (cmType coll)"
  shows "get (getInsertableArrayObjectsFilter now coll ps) ''$or'' =
    get (spread (or_default (get ps ''filter'') (VObj []))) ''$or''"
proof -
  have "''$or'' \<notin> fst ` set (getSymbolFilter (get ps ''symbol'') (nullish (cmSymbolField coll) ''null''))"
    using symbol_filter_names[of "''$or''" "get ps ''symbol''"] assms(1)
    by (cases "cmSymbolField coll") (auto simp: plain_coll_def)
  moreover have "''$or'' \<notin> fst ` set (getTimeframeFilter (get ps ''timeframe'') (cmTimeframeField coll))"
    using timeframe_filter_names[of "''$or''"] by auto
  moreover have "''$or'' \<notin> fst ` set (getFieldsFilters names ps (cmFields coll))" for names
    using fields_filters_names[of "''$or''"] by auto
  ultimately show ?thesis
    using assms by (simp add: getInsertableArrayObjectsFilter_def Let_def get_fold_merge_other plain_coll_def
        del: foldl_Cons)
qed

text \<open>The conditions of a request that reach the database have an \<^verbatim>\<open>$or\<close>.\<close>

definition asks_or :: "obj \<Rightarrow> bool" where
  "asks_or ps \<longleftrightarrow> isOrOp (spread (or_default (get ps ''filter'') (VObj [])))"

lemma filter_params_private:
  assumes "getFilterParams now auth ps coll False = Inr (rf, flt)"
  shows "get flt ''user_id'' = get (spread auth) ''_id''" "is_integer (get (spread auth) ''_id'')"
    "rf = get ps ''filter''"
  using assms by (auto simp: getFilterParams_def Let_def split: if_splits)

lemma filter_params_or:
  assumes "plain_coll coll" "getFilterParams now auth ps coll False = Inr (rf, flt)"
  shows "isOrOp flt \<longleftrightarrow> isInsertableArrObj (cmType coll) \<and> asks_or ps"
proof -
  have "get flt ''$or'' = get (getInsertableArrayObjectsFilter now coll ps) ''$or''"
    using assms by (auto simp: getFilterParams_def Let_def plain_coll_def getStatusMessagesFilter_def
        split: if_splits)
  then show ?thesis
    using insertable_filter_or[OF assms(1), of now ps]
    by (cases "isInsertableArrObj (cmType coll)")
      (simp_all add: isOrOp_def asks_or_def getInsertableArrayObjectsFilter_def)
qed

lemma where_in_select: "sublist w (select_text g p q w h s l)"
proof -
  define pre where "pre = ''SELECT '' @ g @ (if g \<noteq> [] \<and> p \<noteq> [] then '', '' else []) @ p @ '' FROM '' @ q
    @ newline_indent"
  define post where "post = newline_indent @ h @ newline_indent @ s @ newline_indent @ l"
  have "select_text g p q w h s l = pre @ w @ post"
    by (simp add: select_text_def pre_def post_def Let_def)
  then show ?thesis by simp
qed

lemma getQuery_where:
  assumes "getQuery ns now auth ps coll qo = Inr (sql, vals)"
  obtains rf flt w wv where "getFilterParams now auth ps coll (qoPublic qo) = Inr (rf, flt)"
    "getWhereQuery ns flt (default_opts\<lparr>requestedFilter := rf\<rparr>) = Some (w, wv)" "sublist w sql"
proof -
  from assms obtain rf flt where f: "getFilterParams now auth ps coll (qoPublic qo) = Inr (rf, flt)"
    by (auto simp: getQuery_def bind_err_eq_Inr)
  with assms obtain w wv where w: "getWhereQuery ns flt (default_opts\<lparr>requestedFilter := rf\<rparr>) = Some (w, wv)"
    by (auto simp: getQuery_def Let_def split: prod.splits option.splits)
  have "sublist w sql"
    using assms unfolding getQuery_def f
    by (auto simp: w Let_def where_in_select split: prod.splits option.splits)
  with f w that show thesis by blast
qed

subsection \<open>Whose rows are read\<close>


definition trades_coll :: coll_model where
  "trades_coll = \<lparr>cmName = ''trades'', cmType = ''insertable:array:object'',
     cmDateField = Some ''mtsCreate'', cmSymbolField = Some ''symbol'', cmTimeframeField = None,
     cmAdditional = [], cmFields = [''_id'', ''id'', ''symbol'', ''mtsCreate'', ''user_id''],
     cmSort = VArr [VArr [VStr ''mtsCreate'', VNum (- 1)]], cmGroupFns = [], cmGroupResBy = [],
     cmMaxLimit = Some 2500\<rparr>"

definition private_opts :: query_opts where
  "private_opts = \<lparr>qoPublic = False, qoAdditionalFields = [], qoExcludePrivate = True\<rparr>"

definition user_auth :: "rat \<Rightarrow> jsval" where
  "user_auth u = VObj [(''_id'', VNum u)]"

definition plain_request :: obj where
  "plain_request = [(''start'', VNum 1), (''symbol'', VStr ''tBTCUSD''),
     (''filter'', VObj [(''$gt'', VObj [(''id'', VNum 5)])])]"


subsection \<open>A requested \<^verbatim>\<open>$or\<close>\<close>

lemma reduce_opt_cong:
  "(\<And>i x s. x \<in> set xs \<Longrightarrow> f i x s = g i x s) \<Longrightarrow> reduce_opt f i xs s = reduce_opt g i xs s"
  by (induction xs arbitrary: i s) (auto split: option.splits)

lemma where_of_or:
  assumes "isOrOp flt" "get flt2 ''$or'' = get flt ''$or''"
    and "list_all (\<lambda>k. k \<in> set value_conditions) (visible_keys (spread (get flt ''$or'')))"
  shows "getWhereQuery ns flt2 opts = getWhereQuery ns flt opts"
proof -
  have or2: "isOrOp flt2" using assms(1,2) by (simp add: isOrOp_def)
  have "where_step ns opts nc operator flt2 flt' i k s = where_step ns opts nc operator flt flt' i k s"
    if "k \<in> set value_conditions" for nc operator flt' i k s
    using that by (cases s) (simp add: where_step_def Let_def cong: option.case_cong)
  then have "reduce_opt (where_step ns opts nc operator flt2 flt') 0 (visible_keys (spread (get flt ''$or''))) s
    = reduce_opt (where_step ns opts nc operator flt flt') 0 (visible_keys (spread (get flt ''$or''))) s"
    for nc operator flt' s
    using assms(3) by (intro reduce_opt_cong) (auto simp: list_all_iff)
  then show ?thesis using assms(1,2) or2 by (simp add: getWhereQuery_def Let_def)
qed

lemma filter_params_or_same:
  assumes "plain_coll coll" "getFilterParams now auth ps coll False = Inr (rf, flt)"
  shows "get flt ''$or'' = get (getInsertableArrayObjectsFilter now coll ps) ''$or''"
  using assms by (auto simp: getFilterParams_def Let_def plain_coll_def getStatusMessagesFilter_def
      split: if_splits)

definition or_of_conditions :: "obj \<Rightarrow> bool" where
  "or_of_conditions ps \<longleftrightarrow> asks_or ps \<and> list_all (\<lambda>k. k \<in> set value_conditions)
     (visible_keys (spread (get (spread (or_default (get ps ''filter'') (VObj []))) ''$or'')))"

text \<open>
  A requested \<^verbatim>\<open>$or\<close> makes the query forget its caller. When the filter of a request has an
  \<^verbatim>\<open>$or\<close> of conditions (\<^verbatim>\<open>filter: { $or: { $eq: ..., $lt: ... } }\<close>), the query for a private
  collection is the same, text and values, whoever asks: the condition on \<^verbatim>\<open>user_id\<close>, put beside
  the \<^verbatim>\<open>$or\<close>, is not part of it.
\<close>

theorem or_filter_ignores_owner:
  assumes "plain_coll coll" "isInsertableArrObj (cmType coll)" "or_of_conditions ps"
    and "is_integer (get (spread auth) ''_id'')" "is_integer (get (spread auth') ''_id'')"
  shows "getQuery ns now auth ps coll qo = getQuery ns now auth' ps coll qo"
proof (cases "qoPublic qo")
  case True
  then show ?thesis by (simp add: getQuery_def getFilterParams_def Let_def)
next
  case False
  obtain flt flt' where f: "getFilterParams now auth ps coll False = Inr (get ps ''filter'', flt)"
    "getFilterParams now auth' ps coll False = Inr (get ps ''filter'', flt')"
    using assms(4,5) by (simp add: getFilterParams_def Let_def)
  have same: "get flt' ''$or'' = get flt ''$or''"
    using filter_params_or_same[OF assms(1) f(1)] filter_params_or_same[OF assms(1) f(2)] by simp
  have "isOrOp flt" using filter_params_or[OF assms(1) f(1)] assms(2,3) by (simp add: or_of_conditions_def)
  moreover have "get flt ''$or'' = get (spread (or_default (get ps ''filter'') (VObj []))) ''$or''"
    using filter_params_or_same[OF assms(1) f(1)] insertable_filter_or[OF assms(1,2)] by simp
  ultimately have "getWhereQuery ns flt' opts = getWhereQuery ns flt opts" for opts
    using where_of_or[OF _ same] assms(3) by (simp add: or_of_conditions_def)
  then show ?thesis using False by (simp add: getQuery_def f)
qed

definition or_request :: obj where
  "or_request = [(''filter'', VObj [(''$or'', VObj [(''$eq'', VObj [(''id'', VNum 12346)]),
     (''$lt'', VObj [(''mtsCreate'', VNum 5)])])])]"

theorem or_filter_ignores_owner_witness:
  "getQuery plain_num 9 (user_auth 7) or_request trades_coll private_opts =
   getQuery plain_num 9 (user_auth 8) or_request trades_coll private_opts"
proof (rule or_filter_ignores_owner)
  show "plain_coll trades_coll" "isInsertableArrObj (cmType trades_coll)" "or_of_conditions or_request"
    "is_integer (get (spread (user_auth 7)) ''_id'')" "is_integer (get (spread (user_auth 8)) ''_id'')"
    by code_simp+
qed

text \<open>The query of that request, as it is sent.\<close>

lemma or_request_query:
  "map_option fst (getWhereQuery plain_num (snd (projr (getFilterParams 9 (user_auth 7) or_request trades_coll False)))
     default_opts) = Some ''WHERE id = $id_$eq  OR mtsCreate < $mtsCreate_$lt''"
  by code_simp

text \<open>C1: without an integer id no query for a private collection is made.\<close>

theorem private_query_needs_user:
  assumes "\<not> qoPublic qo" "\<not> is_integer (get (spread auth) ''_id'')"
  shows "getQuery ns now auth ps coll qo = Inl AuthError"
  using assms by (simp add: getQuery_def getFilterParams_def Let_def)

theorem private_query_needs_user_witness:
  "getQuery plain_num 9 VNull plain_request trades_coll private_opts = Inl AuthError"
  by (rule private_query_needs_user) (simp_all add: private_opts_def)

subsection \<open>Corners of the condition\<close>

lemma empty_condition_first:
  "getWhereQuery plain_num [(''$gt'', VObj []), (''user_id'', VNum 7)] default_opts =
   Some (''WHERE  AND user_id = $user_id '', [(''user_id'', VNum 7)])"
  by code_simp

lemma null_value_unbound:
  "getWhereQuery plain_num [(''note'', VNull), (''$ne'', VObj [(''fee'', VNull)])] default_opts =
   Some (''WHERE note = $note  AND fee != $fee_$ne '', [])"
  by code_simp

lemma empty_null_list:
  "getWhereQuery plain_num [(''$isNull'', VArr [])] default_opts = Some (''WHERE $isNull  IN ()'', [])"
  by code_simp

lemma or_reads_outer_value:
  "getWhereQuery plain_num [(''$or'', VObj [(''id'', VNum 1), (''type'', VNum 2)])] default_opts =
   Some (''WHERE id = $id  OR type = $type '', [(''id'', VUndef), (''type'', VUndef)])"
  by code_simp

lemma null_condition_resets_nocase:
  "nocase_val None [] (VObj [(''$eq'', VObj [(''symbol'', VStr ''BTC'')])]) = [(''$eq'', [''symbol''])]"
  "nocase_val None [] (VObj [(''$eq'', VObj [(''symbol'', VStr ''BTC'')]), (''$isNull'', VArr [VStr ''fee''])]) = []"
  by code_simp+

lemma plain_names_not_ordered:
  "getOrderQuery (VArr [VStr ''_id'']) = []" "getOrderQuery (VArr [VArr [VStr ''_id'', VNum 1]]) = ''ORDER BY _id ASC''"
  by code_simp+

end
