(* ===== verification/Db_Dml.thy ===== *)
theory Db_Dml
  imports Db_Query_Props
begin

text \<open>
  The statements of the database layer that insert, change, remove and look up rows
  (\<^verbatim>\<open>dao.better.sqlite.js\<close>), the queries for users (\<^verbatim>\<open>dao/helpers/users\<close>), and reading a page
  of a collection (\<^verbatim>\<open>findInCollBy\<close>, \<^verbatim>\<open>find-in-coll-by/get-args.js\<close>,
  \<^verbatim>\<open>find-in-coll-by/prepare-db-response.js\<close>). A statement is its text with the values of its
  placeholders; running it is the business of \<^verbatim>\<open>Db_Trans\<close>. A line break with its indentation is
  one space here.
\<close>

type_synonym statement = "string \<times> obj"

definition where_or_error ::
  "(rat \<Rightarrow> string) \<Rightarrow> obj \<Rightarrow> where_opts \<Rightarrow> db_error + string \<times> obj" where
  "where_or_error ns flt opts = (case getWhereQuery ns flt opts of None \<Rightarrow> Inl TypeError | Some r \<Rightarrow> Inr r)"

definition keys_of :: "obj \<Rightarrow> string list" where
  "keys_of ob = map fst ob"

definition serializeObj :: "(rat \<Rightarrow> string) \<Rightarrow> obj \<Rightarrow> string list \<Rightarrow> obj" where
  "serializeObj ns ob keys = foldl (\<lambda>accum k. put accum k (serializeVal ns (get ob k))) [] keys"

subsection \<open>Rows of a user\<close>

text \<open>\<^verbatim>\<open>mixUserIdToArrData\<close> for one row; without \<open>auth\<close> (\<^verbatim>\<open>null\<close>) the row stays as it is.\<close>

definition mixUserIdToArrData :: "jsval \<Rightarrow> obj \<Rightarrow> db_error + obj" where
  "mixUserIdToArrData auth row =
     (if \<not> truthy auth then Inr row
      else let au = spread auth; subUserId = get (spread (get au ''subUser'')) ''_id'' in
        if \<not> is_integer (get au ''_id'') then Inl AuthError
        else let row' = (if is_integer subUserId then put row ''subUserId'' subUserId else row)
             in Inr (put row' ''user_id'' (get au ''_id'')))"

text \<open>A schema is the list of pairs of a new name and the name it is read from.\<close>

fun mapObjBySchema :: "obj \<Rightarrow> (string \<times> string option) list \<Rightarrow> db_error + obj" where
  "mapObjBySchema ob [] = Inr []"
| "mapObjBySchema ob ((key, val) # schema) =
     (let name = (case val of Some v \<Rightarrow> if v = [] then key else v | None \<Rightarrow> key) in
      if key = [] \<or> get ob name = VUndef then Inl ObjectMappingError
      else bind_err (mapObjBySchema ob schema) (\<lambda>rest. Inr ((key, get ob name) # rest)))"

subsection \<open>Inserting\<close>

definition insert_text :: "bool \<Rightarrow> string \<Rightarrow> string \<Rightarrow> string \<Rightarrow> string" where
  "insert_text isReplacedIfExists name projection placeholders =
     ''INSERT'' @ (if isReplacedIfExists then '' OR REPLACE'' else []) @ '' INTO '' @ name @ ''('' @ projection
     @ '') VALUES ('' @ placeholders @ '')''"

definition insertElemToDb :: "(rat \<Rightarrow> string) \<Rightarrow> string \<Rightarrow> obj \<Rightarrow> bool \<Rightarrow> statement" where
  "insertElemToDb ns name ob isReplacedIfExists =
     (let keys = keys_of ob; (placeholders, vals) = getPlaceholdersQuery ns ob keys
      in (insert_text isReplacedIfExists name (getProjectionQuery keys [] False) placeholders, vals))"

text \<open>The statements \<^verbatim>\<open>insertElemsToDb\<close> runs in one transaction.\<close>

fun insert_statements :: "(rat \<Rightarrow> string) \<Rightarrow> string \<Rightarrow> jsval \<Rightarrow> bool \<Rightarrow> obj list \<Rightarrow> db_error + statement list" where
  "insert_statements ns name auth isReplacedIfExists [] = Inr []"
| "insert_statements ns name auth isReplacedIfExists (ob # data) =
     bind_err (mixUserIdToArrData auth ob) (\<lambda>ob'.
     bind_err (insert_statements ns name auth isReplacedIfExists data) (\<lambda>rest.
       Inr (if ob' = [] then rest else insertElemToDb ns name ob' isReplacedIfExists # rest)))"

definition insertElemsToDb ::
  "(rat \<Rightarrow> string) \<Rightarrow> string \<Rightarrow> jsval \<Rightarrow> obj list \<Rightarrow> bool \<Rightarrow> bool \<Rightarrow> db_error + statement list" where
  "insertElemsToDb ns name auth data isReplacedIfExists isStrictEqual =
     bind_err (insert_statements ns name auth isReplacedIfExists data) (\<lambda>qs.
       Inr ((if isStrictEqual then [(''DELETE FROM '' @ name, [])] else []) @ qs))"

subsection \<open>Changing\<close>

definition new_name :: "string \<Rightarrow> string" where
  "new_name item = ''new_'' @ item"

definition set_text :: "string list \<Rightarrow> string" where
  "set_text items = join '', '' (map (\<lambda>item. item @ '' = '' @ hole (new_name item)) items)"

definition with_new :: "obj \<Rightarrow> obj \<Rightarrow> string list \<Rightarrow> obj" where
  "with_new ps data items = foldl (\<lambda>vals item. put vals (new_name item) (get data item)) ps items"

definition updateCollBy :: "(rat \<Rightarrow> string) \<Rightarrow> string \<Rightarrow> obj \<Rightarrow> obj \<Rightarrow> db_error + statement" where
  "updateCollBy ns name flt data =
     bind_err (where_or_error ns flt default_opts) (\<lambda>(w, ps).
       let dataKeys = keys_of data
       in Inr (''UPDATE '' @ name @ '' SET '' @ set_text dataKeys @ '' '' @ w,
            with_new ps (serializeObj ns data dataKeys) dataKeys))"

text \<open>Here the new values are not serialised.\<close>

definition update_elem ::
  "(rat \<Rightarrow> string) \<Rightarrow> string \<Rightarrow> (string \<times> string option) list \<Rightarrow> (string \<times> string option) list \<Rightarrow> obj
    \<Rightarrow> db_error + statement" where
  "update_elem ns name filterPropNames upPropNames ob =
     bind_err (mapObjBySchema ob filterPropNames) (\<lambda>flt.
     bind_err (mapObjBySchema ob upPropNames) (\<lambda>newItem.
     bind_err (where_or_error ns flt default_opts) (\<lambda>(w, ps).
       Inr (''UPDATE '' @ name @ '' SET '' @ set_text (keys_of newItem) @ '' '' @ w,
         with_new ps newItem (keys_of newItem)))))"

fun updateElemsInCollBy ::
  "(rat \<Rightarrow> string) \<Rightarrow> string \<Rightarrow> (string \<times> string option) list \<Rightarrow> (string \<times> string option) list \<Rightarrow> obj list
    \<Rightarrow> db_error + statement list" where
  "updateElemsInCollBy ns name filterPropNames upPropNames [] = Inr []"
| "updateElemsInCollBy ns name filterPropNames upPropNames (ob # data) =
     bind_err (update_elem ns name filterPropNames upPropNames ob) (\<lambda>st.
     bind_err (updateElemsInCollBy ns name filterPropNames upPropNames data) (\<lambda>rest. Inr (st # rest)))"

text \<open>
  \<^verbatim>\<open>updateRecordOf\<close>: the statements that leave a table with one record; \<open>elems\<close> are the rows it
  found.
\<close>

definition updateRecordOf :: "(rat \<Rightarrow> string) \<Rightarrow> string \<Rightarrow> obj \<Rightarrow> obj list \<Rightarrow> statement list" where
  "updateRecordOf ns name rec elems =
     (let data = serializeObj ns rec (keys_of rec) in
      case elems of
        [] \<Rightarrow> let (placeholders, vals) = getPlaceholdersQuery ns data (keys_of data)
              in [(insert_text False name (getProjectionQuery (keys_of data) [] False) placeholders, vals)]
      | e # rest \<Rightarrow>
          (if rest \<noteq> [] then [(''DELETE FROM '' @ name @ '' WHERE _id != $_id'', [(''_id'', get e ''_id'')])] else [])
          @ [(''UPDATE '' @ name @ '' SET '' @ set_text (keys_of data) @ '' WHERE _id = $_id'',
              with_new [(''_id'', get e ''_id'')] data (keys_of data))])"

subsection \<open>Removing\<close>

text \<open>The filter of \<^verbatim>\<open>removeElemsFromDb\<close>: the data, and the user when there is one.\<close>

definition remove_filter :: "jsval \<Rightarrow> obj \<Rightarrow> db_error + obj" where
  "remove_filter auth data =
     (if \<not> truthy auth then Inr data
      else if \<not> is_integer (get (spread auth) ''_id'') then Inl AuthError
      else Inr (put data ''user_id'' (get (spread auth) ''_id'')))"

definition removeElemsFromDb :: "(rat \<Rightarrow> string) \<Rightarrow> string \<Rightarrow> jsval \<Rightarrow> obj \<Rightarrow> db_error + statement" where
  "removeElemsFromDb ns name auth data =
     bind_err (remove_filter auth data) (\<lambda>flt.
     bind_err (where_or_error ns flt default_opts) (\<lambda>(w, ps).
       Inr (''DELETE FROM '' @ name @ '' '' @ w, ps)))"

definition removeElemsLeaveLastNRecords ::
  "(rat \<Rightarrow> string) \<Rightarrow> string \<Rightarrow> obj \<Rightarrow> jsval \<Rightarrow> jsval \<Rightarrow> db_error + statement" where
  "removeElemsLeaveLastNRecords ns name flt limit srt =
     (if \<not> is_integer limit \<or> (case limit of VNum x \<Rightarrow> x < 0 | _ \<Rightarrow> False)
      then Inl RemoveElemsLeaveLastNRecordsError
      else bind_err (where_or_error ns flt (default_opts\<lparr>isNotSetWhereClause := True\<rparr>)) (\<lambda>(w, vals).
        let (lim, limitVal) = getLimitQuery limit False;
            restriction = ''WHERE _id NOT IN (SELECT _id FROM '' @ name @ '' WHERE '' @ w @ '' ''
              @ getOrderQuery srt @ '' '' @ lim @ '')''
        in Inr (''DELETE FROM '' @ name @ '' '' @ join '' AND '' (filter (\<lambda>q. q \<noteq> []) [restriction, w]),
             merge_obj vals limitVal)))"

subsection \<open>Looking up\<close>

record elems_params =
  epFilter :: obj
  epSort :: jsval
  epSubFilter :: obj
  epSubSort :: jsval
  epGroupFns :: "string list"
  epGroupResBy :: "string list"
  epDistinct :: bool
  epProjection :: "string list"
  epExclude :: "string list"
  epExcludePrivate :: bool
  epLimit :: jsval

definition default_elems :: elems_params where
  "default_elems = \<lparr>epFilter = [], epSort = VArr [], epSubFilter = [], epSubSort = VArr [], epGroupFns = [],
     epGroupResBy = [], epDistinct = False, epProjection = [], epExclude = [], epExcludePrivate = False,
     epLimit = VNull\<rparr>"

definition sub_or_error ::
  "(rat \<Rightarrow> string) \<Rightarrow> string \<Rightarrow> obj \<Rightarrow> jsval \<Rightarrow> db_error + string \<times> obj" where
  "sub_or_error ns name flt srt = (case getSubQuery ns name flt srt of None \<Rightarrow> Inl TypeError | Some r \<Rightarrow> Inr r)"

definition getElemsInCollBy :: "(rat \<Rightarrow> string) \<Rightarrow> string \<Rightarrow> elems_params \<Rightarrow> db_error + statement" where
  "getElemsInCollBy ns collName ps =
     (let (grp, groupProj) = getGroupQuery (epGroupFns ps) (epGroupResBy ps) in
      bind_err (sub_or_error ns collName (epSubFilter ps) (epSubSort ps)) (\<lambda>(subQuery, subQueryValues).
      bind_err (where_or_error ns (epFilter ps) default_opts) (\<lambda>(w, vals).
        let projection = getProjectionQuery (epProjection ps) (epExclude ps) (epExcludePrivate ps);
            (limit, limitVal) = getLimitQuery (epLimit ps) False;
            delimiter = (if groupProj \<noteq> [] \<and> projection \<noteq> [] then '', '' else [])
        in Inr (''SELECT '' @ (if epDistinct ps then ''DISTINCT '' else []) @ groupProj @ delimiter @ projection
             @ '' FROM '' @ subQuery @ '' '' @ w @ '' '' @ grp @ '' '' @ getOrderQuery (epSort ps) @ '' '' @ limit,
             merge_obj (merge_obj vals subQueryValues) limitVal))))"

definition getElemInCollBy ::
  "(rat \<Rightarrow> string) \<Rightarrow> string \<Rightarrow> obj \<Rightarrow> jsval \<Rightarrow> obj \<Rightarrow> jsval \<Rightarrow> db_error + statement" where
  "getElemInCollBy ns name flt srt subFilter subSort =
     bind_err (sub_or_error ns name subFilter subSort) (\<lambda>(subQuery, subQueryValues).
     bind_err (where_or_error ns flt default_opts) (\<lambda>(w, vals).
       Inr (''SELECT * FROM '' @ subQuery @ '' '' @ w @ '' '' @ getOrderQuery srt, merge_obj vals subQueryValues)))"

definition getLastFinishedSyncQueueJob :: "jsval \<Rightarrow> db_error + statement" where
  "getLastFinishedSyncQueueJob userId =
     (if \<not> is_integer userId then Inl AuthError
      else Inr (''SELECT * FROM syncQueue WHERE collName = '' @ [CHR 0x27] @ ''_ALL'' @ [CHR 0x27]
          @ '' AND state = '' @ [CHR 0x27] @ ''FINISHED'' @ [CHR 0x27]
          @ '' AND (ownerUserId = $ownerUserId  OR isOwnerScheduler = 1) ''
          @ getOrderQuery (VArr [VArr [VStr ''updatedAt'', VNum (- 1)]]),
        [(''ownerUserId'', userId)]))"

subsection \<open>Users\<close>

definition getUsersQuery ::
  "(rat \<Rightarrow> string) \<Rightarrow> obj \<Rightarrow> bool \<Rightarrow> bool \<Rightarrow> bool \<Rightarrow> jsval \<Rightarrow> jsval \<Rightarrow> db_error + statement" where
  "getUsersQuery ns flt isFoundOne haveNotSubUsers haveSubUsers srt limit =
     (let (lim, limitVal) = getLimitQuery (if isFoundOne then VNull else limit) False in
      bind_err (where_or_error ns flt (default_opts\<lparr>isNotSetWhereClause := True, tableAlias := ''u''\<rparr>))
        (\<lambda>(w, vals).
        let whereQueries = join '' AND '' (filter (\<lambda>q. q \<noteq> []) [w,
              if haveSubUsers then ''sa.subUserId IS NOT NULL'' else [],
              if haveNotSubUsers then ''sa.subUserId IS NULL'' else []]);
            w' = (if whereQueries \<noteq> [] then ''WHERE '' @ whereQueries else [])
        in Inr (''SELECT u.*, sa.subUserId as haveSubUsers FROM users AS u LEFT JOIN subAccounts AS sa ON u._id = sa.masterUserId ''
             @ w' @ '' GROUP BY u._id '' @ getOrderQuery srt @ '' '' @ lim, merge_obj vals limitVal)))"

definition getSubUsersQuery :: "(rat \<Rightarrow> string) \<Rightarrow> obj \<Rightarrow> jsval \<Rightarrow> db_error + statement" where
  "getSubUsersQuery ns masterUser srt =
     bind_err (where_or_error ns masterUser (default_opts\<lparr>tableAlias := ''mu''\<rparr>)) (\<lambda>(w, vals).
       Inr (''SELECT su.*, mu._id AS masterUserId FROM users AS su INNER JOIN subAccounts AS sa ON su._id = sa.subUserId ''
         @ ''INNER JOIN users AS mu ON mu._id = sa.masterUserId '' @ w @ '' '' @ getOrderQuery srt, vals))"

definition user_flags :: "string list" where
  "user_flags = [''active'', ''isDataFromDb'', ''isSubAccount'', ''isSubUser'', ''haveSubUsers'', ''isNotProtected'',
     ''shouldNotSyncOnStartupAfterUpdate'', ''isSyncOnStartupRequired'', ''isStagingBfxApi'', ''isUserMerchant'']"

definition normalizeUser :: "obj \<Rightarrow> obj" where
  "normalizeUser user = foldl (\<lambda>u flag. put u flag (VBool (truthy (get user flag)))) user user_flags"

definition normalizeUserData :: "obj list \<Rightarrow> obj list" where
  "normalizeUserData users = map normalizeUser users"

definition getUsersIds :: "obj list \<Rightarrow> jsval list" where
  "getUsersIds users = filter is_integer (map (\<lambda>u. get u ''_id'') users)"

definition fillSubUsers :: "obj list \<Rightarrow> obj list \<Rightarrow> obj list" where
  "fillSubUsers users subUsers = map (\<lambda>user. put user ''subUsers'' (VArr (map VObj
     (filter (\<lambda>su. is_integer (get su ''masterUserId'') \<and> get su ''masterUserId'' = get user ''_id'') subUsers)))) users"

text \<open>
  The rows of the two queries of \<^verbatim>\<open>action-get-users.js\<close> for a list of users: \<open>read\<close> runs a
  statement.
\<close>

definition getUsers ::
  "(rat \<Rightarrow> string) \<Rightarrow> (statement \<Rightarrow> obj list) \<Rightarrow> obj \<Rightarrow> bool \<Rightarrow> bool \<Rightarrow> bool \<Rightarrow> jsval \<Rightarrow> jsval
    \<Rightarrow> db_error + obj list" where
  "getUsers ns read flt haveNotSubUsers haveSubUsers isFilledSubUsers srt limit =
     bind_err (getUsersQuery ns flt False haveNotSubUsers haveSubUsers srt limit) (\<lambda>q.
       let users = normalizeUserData (read q) in
       if \<not> isFilledSubUsers \<or> getUsersIds users = [] then Inr users
       else bind_err (getSubUsersQuery ns [(''$in'', VObj [(''_id'', VArr (getUsersIds users))])] (VArr [VStr ''_id'']))
         (\<lambda>q2. Inr (fillSubUsers users (normalizeUserData (read q2)))))"

subsection \<open>A page of a collection\<close>

text \<open>
  The report package's \<^verbatim>\<open>getLimitNotMoreThan\<close> and \<^verbatim>\<open>prepareResponse\<close> are parameters, as is the
  conversion of rows; the answer is what \<open>prepareResponse\<close> makes of the rows.
\<close>

record 'a find_env =
  feRead :: "statement \<Rightarrow> obj list"
  feLimit :: "jsval \<Rightarrow> int \<Rightarrow> jsval"
  feConvert :: "obj list \<Rightarrow> obj list"
  fePrepare :: "obj list \<Rightarrow> coll_model \<Rightarrow> obj \<Rightarrow> jsval list \<Rightarrow> 'a"

datatype 'a found = Rows "obj list" | Prepared 'a

definition getArgs :: "'a find_env \<Rightarrow> obj \<Rightarrow> coll_model \<Rightarrow> obj" where
  "getArgs env ps coll = put ps ''limit''
     (case cmMaxLimit coll of
        Some m \<Rightarrow> if m = 0 then VNull else feLimit env (get ps ''limit'') m
      | None \<Rightarrow> VNull)"

definition isContainedSameMts :: "obj list \<Rightarrow> string \<Rightarrow> jsval \<Rightarrow> bool" where
  "isContainedSameMts res dateFieldName limit \<longleftrightarrow>
     2 \<le> length res \<and> (\<not> is_integer limit \<or> limit = VNum (of_nat (length res)))
     \<and> is_integer (get (res ! (length res - 1)) dateFieldName)
     \<and> is_integer (get (res ! (length res - 2)) dateFieldName)
     \<and> get (res ! (length res - 1)) dateFieldName = get (res ! (length res - 2)) dateFieldName"

definition read_page ::
  "(rat \<Rightarrow> string) \<Rightarrow> rat \<Rightarrow> 'a find_env \<Rightarrow> jsval \<Rightarrow> obj \<Rightarrow> coll_model \<Rightarrow> query_opts \<Rightarrow> bool
    \<Rightarrow> db_error + obj list" where
  "read_page ns now env auth ps coll qo isNotDataConverted =
     bind_err (getQuery ns now auth ps coll qo) (\<lambda>q.
       let res = feRead env q in Inr (if isNotDataConverted then res else feConvert env res))"

definition prepare_page ::
  "'a find_env \<Rightarrow> obj list \<Rightarrow> obj \<Rightarrow> coll_model \<Rightarrow> 'a found" where
  "prepare_page env res ps coll = Prepared (fePrepare env res coll ps
     (case get ps ''symbol'' of VArr xs \<Rightarrow> if 1 < length xs then xs else [] | _ \<Rightarrow> []))"

definition findInCollBy ::
  "(rat \<Rightarrow> string) \<Rightarrow> rat \<Rightarrow> 'a find_env \<Rightarrow> jsval \<Rightarrow> obj \<Rightarrow> coll_model \<Rightarrow> query_opts \<Rightarrow> bool \<Rightarrow> bool \<Rightarrow> bool
    \<Rightarrow> db_error + 'a found" where
  "findInCollBy ns now env auth ps coll qo isNotDataConverted isPrepareResponse isNotConsideredSameMts =
     (let args = getArgs env ps coll in
      bind_err (read_page ns now env auth args coll qo isNotDataConverted) (\<lambda>res.
        if \<not> isPrepareResponse then Inr (Rows res)
        else if isNotConsideredSameMts
            \<or> \<not> isContainedSameMts res (nullish (cmDateField coll) ''null'') (get args ''limit'')
          then Inr (prepare_page env res args coll)
        else
          let args' = getArgs env (put args ''limit''
                (case cmMaxLimit coll of Some m \<Rightarrow> VNum (of_int m) | None \<Rightarrow> VNull)) coll
          in bind_err (read_page ns now env auth args' coll qo isNotDataConverted) (\<lambda>res'.
               Inr (prepare_page env res' args' coll))))"

end
