(* ===== verification/Db_Dml_Props.thy ===== *)
theory Db_Dml_Props
  imports Db_Dml
begin

text \<open>
  What the statements touch: rows of the caller only, with every placeholder bound; what the data of
  a user look like; and which rows a page is made of.
\<close>

lemma get_fold_put:
  "get (foldl (\<lambda>vals k. put vals (f k) (g k)) ps ks) n =
    (if n \<in> f ` set ks then g (last (filter (\<lambda>k. f k = n) ks)) else get ps n)"
  by (induction ks rule: rev_induct) (auto simp: image_iff)

lemma fst_set_fold_puts: "fst ` set (foldl (\<lambda>vals k. put vals (f k) (g k)) ps ks) = fst ` set ps \<union> f ` set ks"
  by (induction ks rule: rev_induct) auto

lemma last_filter_in: "n \<in> set ks \<Longrightarrow> last (filter (\<lambda>k. k = n) ks) = n"
proof -
  assume "n \<in> set ks"
  then have "filter (\<lambda>k. k = n) ks \<noteq> []" by (auto simp: filter_empty_conv)
  from last_in_set[OF this] show ?thesis by auto
qed

lemma get_placeholders:
  "get (snd (getPlaceholdersQuery ns ob keys)) k =
    (if k \<in> set keys then serializeVal ns (get ob k) else VUndef)"
  using get_fold_put[of "\<lambda>k. k" "\<lambda>k. serializeVal ns (get ob k)" "[]" keys k]
  by (auto simp: getPlaceholdersQuery_def last_filter_in)

lemma get_serializeObj:
  "get (serializeObj ns ob keys) k = (if k \<in> set keys then serializeVal ns (get ob k) else VUndef)"
  using get_fold_put[of "\<lambda>k. k" "\<lambda>k. serializeVal ns (get ob k)" "[]" keys k]
  by (auto simp: serializeObj_def last_filter_in)

subsection \<open>Inserting\<close>

lemma is_integer_number: "is_integer v \<Longrightarrow> \<exists>u. v = VNum u"
  by (cases v) auto

lemma mix_owner:
  assumes "truthy auth" "mixUserIdToArrData auth ob = Inr ob'"
  shows "get ob' ''user_id'' = get (spread auth) ''_id''" "''user_id'' \<in> fst ` set ob'"
    "is_integer (get (spread auth) ''_id'')"
  using assms by (auto simp: mixUserIdToArrData_def Let_def split: if_splits)

lemma insert_vals:
  "k \<in> fst ` set ob \<Longrightarrow> get (snd (insertElemToDb ns name ob r)) k = serializeVal ns (get ob k)"
  using get_placeholders[of ns ob "keys_of ob" k]
  by (auto simp: insertElemToDb_def keys_of_def Let_def split: prod.splits)

text \<open>
  What is inserted for a user belongs to the user. Every row that is written with the
  authentication of a user carries the id of this user, also when the row came with another one.
\<close>

theorem insert_rows_owned:
  assumes "truthy auth" "insert_statements ns name auth isReplacedIfExists data = Inr qs"
  shows "list_all (\<lambda>q. get (snd q) ''user_id'' = get (spread auth) ''_id'') qs"
  using assms(2)
proof (induction data arbitrary: qs)
  case (Cons ob data)
  then obtain ob' rest where ob': "mixUserIdToArrData auth ob = Inr ob'"
    and rest: "insert_statements ns name auth isReplacedIfExists data = Inr rest"
    and qs: "qs = (if ob' = [] then rest else insertElemToDb ns name ob' isReplacedIfExists # rest)"
    by (auto simp: bind_err_eq_Inr)
  obtain u where "get (spread auth) ''_id'' = VNum u"
    using mix_owner(3)[OF assms(1) ob'] is_integer_number by blast
  with insert_vals[OF mix_owner(2)[OF assms(1) ob']] mix_owner(1)[OF assms(1) ob']
  have "get (snd (insertElemToDb ns name ob' isReplacedIfExists)) ''user_id'' = get (spread auth) ''_id''"
    by simp
  with Cons.IH[OF rest] qs show ?case by simp
qed simp

theorem insert_rows_owned_witness:
  "\<exists>qs. insert_statements plain_num ''trades'' (user_auth 7) False
     [[(''id'', VNum 1)], [(''id'', VNum 2), (''user_id'', VNum 9)]] = Inr qs \<and> length qs = 2
   \<and> list_all (\<lambda>q. get (snd q) ''user_id'' = VNum 7) qs"
proof -
  define r where "r = insert_statements plain_num ''trades'' (user_auth 7) False
     [[(''id'', VNum 1)], [(''id'', VNum 2), (''user_id'', VNum 9)]]"
  have "\<not> isl r \<and> length (projr r) = 2" unfolding r_def by code_simp
  then obtain qs where qs: "r = Inr qs" "length qs = 2" by (cases r) auto
  have "truthy (user_auth 7)" "get (spread (user_auth 7)) ''_id'' = VNum 7" by (simp_all add: user_auth_def)
  with insert_rows_owned[OF _ qs(1)[unfolded r_def]] qs show ?thesis by (auto simp: r_def)
qed

text \<open>A statement that inserts binds exactly its placeholders.\<close>

lemma insert_placeholders_bound:
  "fst ` set (snd (insertElemToDb ns name ob r)) = fst ` set ob"
  using fst_set_fold_puts[of "\<lambda>k. k" "\<lambda>k. serializeVal ns (get ob k)" "[]" "keys_of ob"]
  by (simp add: insertElemToDb_def getPlaceholdersQuery_def Let_def keys_of_def)

subsection \<open>Changing and removing\<close>

text \<open>New values do not get in the way of the values of the condition.\<close>

lemma with_new_vals:
  "i \<in> set items \<Longrightarrow> get (with_new ps data items) (new_name i) = get data i"
  "\<not> prefix ''new_'' n \<Longrightarrow> get (with_new ps data items) n = get ps n"
proof -
  assume i: "i \<in> set items"
  have "last (filter (\<lambda>k. new_name k = new_name i) items) = i"
    using last_filter_in[OF i] by (simp add: new_name_def)
  with i show "get (with_new ps data items) (new_name i) = get data i"
    unfolding with_new_def get_fold_put by simp
next
  assume "\<not> prefix ''new_'' n"
  then show "get (with_new ps data items) n = get ps n"
    unfolding with_new_def get_fold_put by (auto simp: new_name_def)
qed

text \<open>
  Removing rows of a user removes no row of anybody else. The condition of the statement selects
  only rows with the id of the user, whatever else it asks for.
\<close>

theorem remove_own_rows:
  assumes "removeElemsFromDb ns name auth data = Inr (sql, ps)" "truthy auth" "\<not> isOrOp data"
  shows "\<exists>flt w. getWhereQuery ns flt default_opts = Some (w, ps) \<and> sql = ''DELETE FROM '' @ name @ '' '' @ w
    \<and> (\<nexists>sem row. where_selects sem ns flt default_opts row \<and> row ''user_id'' \<noteq> get (spread auth) ''_id'')"
proof -
  define flt where "flt = put data ''user_id'' (get (spread auth) ''_id'')"
  from assms(1,2) obtain w where w: "getWhereQuery ns flt default_opts = Some (w, ps)"
    and sql: "sql = ''DELETE FROM '' @ name @ '' '' @ w" and int: "is_integer (get (spread auth) ''_id'')"
    by (auto simp: removeElemsFromDb_def remove_filter_def where_or_error_def flt_def bind_err_eq_Inr
        split: option.splits if_splits)
  obtain u where u: "get (spread auth) ''_id'' = VNum u" using is_integer_number[OF int] by blast
  have "\<not> isOrOp flt" using assms(3) by (simp add: flt_def isOrOp_def)
  then have "row ''user_id'' = VNum u" if "where_selects sem ns flt default_opts row" for sem row
    using where_owner_rows[OF _ _ _ _ that] u by (simp add: flt_def default_opts_def)
  with w sql u show ?thesis by metis
qed

theorem remove_own_rows_witness:
  "\<exists>sql ps flt w. removeElemsFromDb plain_num ''ledgers'' (user_auth 7) [(''id'', VNum 3)] = Inr (sql, ps)
    \<and> getWhereQuery plain_num flt default_opts = Some (w, ps) \<and> sql = ''DELETE FROM ledgers '' @ w
    \<and> (\<nexists>sem row. where_selects sem plain_num flt default_opts row \<and> row ''user_id'' \<noteq> get (spread (user_auth 7)) ''_id'')"
proof -
  have "\<not> isl (removeElemsFromDb plain_num ''ledgers'' (user_auth 7) [(''id'', VNum 3)])" by code_simp
  then obtain sql ps where r: "removeElemsFromDb plain_num ''ledgers'' (user_auth 7) [(''id'', VNum 3)] = Inr (sql, ps)"
    by (metis isl_def old.sum.exhaust prod.exhaust)
  have "truthy (user_auth 7)" "\<not> isOrOp [(''id'', VNum 3)]" by code_simp+
  from remove_own_rows[OF r this] r show ?thesis by force
qed

text \<open>
  The condition is put after the one that spares the last records without parentheses: an \<^verbatim>\<open>OR\<close> in
  it reaches beyond.
\<close>

lemma leave_last_or:
  "map_sum id fst (removeElemsLeaveLastNRecords plain_num ''syncQueue''
     [(''$or'', VObj [(''$eq'', VObj [(''a'', VNum 1), (''b'', VNum 2)])])] (VNum 100) (VArr [])) =
   Inr ''DELETE FROM syncQueue WHERE _id NOT IN (SELECT _id FROM syncQueue WHERE a = $a_$eq  OR b = $b_$eq   LIMIT $_limit) AND a = $a_$eq  OR b = $b_$eq ''"
  by code_simp

subsection \<open>Users\<close>

lemma get_normalizeUser:
  "get (normalizeUser user) k = (if k \<in> set user_flags then VBool (truthy (get user k)) else get user k)"
  using get_fold_put[of "\<lambda>k. k" "\<lambda>f. VBool (truthy (get user f))" user user_flags k]
  by (auto simp: normalizeUser_def last_filter_in)


definition one_user :: "statement \<Rightarrow> obj list" where
  "one_user q = [[(''_id'', VNum 1), (''active'', VNum 1), (''isSubAccount'', VNull)]]"


text \<open>Every user gets exactly the sub-users that name it as their master.\<close>

lemma fillSubUsers_exact:
  assumes "i < length users"
  shows "get (fillSubUsers users subs ! i) ''subUsers'' = VArr (map VObj (filter (\<lambda>su.
      is_integer (get su ''masterUserId'') \<and> get su ''masterUserId'' = get (users ! i) ''_id'') subs))"
    "k \<noteq> ''subUsers'' \<Longrightarrow> get (fillSubUsers users subs ! i) k = get (users ! i) k"
  using assms by (simp_all add: fillSubUsers_def)

text \<open>The order that is asked for is not one: bare names are ignored, so users come as they are.\<close>

lemma users_not_ordered:
  "map_sum id fst (getUsersQuery plain_num [] False False False (VArr [VStr ''_id'']) VNull) =
   Inr ''SELECT u.*, sa.subUserId as haveSubUsers FROM users AS u LEFT JOIN subAccounts AS sa ON u._id = sa.masterUserId  GROUP BY u._id  ''"
  by code_simp

subsection \<open>Pages\<close>

text \<open>
  When a full page ends between two rows of the same time, the rows are read once more, with the
  largest limit of the collection, and no third time.
\<close>

lemma page_read_again:
  assumes "read_page ns now env auth (getArgs env ps coll) coll qo c = Inr res"
    and "isContainedSameMts res (nullish (cmDateField coll) ''null'') (get (getArgs env ps coll) ''limit'')"
    and "cmMaxLimit coll = Some m"
  shows "findInCollBy ns now env auth ps coll qo c True False =
    bind_err (read_page ns now env auth
        (getArgs env (put (getArgs env ps coll) ''limit'' (VNum (of_int m))) coll) coll qo c)
      (\<lambda>res'. Inr (prepare_page env res'
        (getArgs env (put (getArgs env ps coll) ''limit'' (VNum (of_int m))) coll) coll))"
  using assms by (simp add: findInCollBy_def Let_def)

end
