(* ===== verification/Js_Action.thy ===== *)
theory Js_Action
  imports Js_Value
begin

text \<open>
  Operations on a state that may throw. An exception does not undo what was done before it, so the
  state is returned in either case.
\<close>

type_synonym ('s, 'e, 'a) action = "'s \<Rightarrow> ('e + 'a) \<times> 's"

definition give :: "'a \<Rightarrow> ('s, 'e, 'a) action" where
  "give x s = (Inr x, s)"

definition throw :: "'e \<Rightarrow> ('s, 'e, 'a) action" where
  "throw e s = (Inl e, s)"

definition and_then :: "('s, 'e, 'a) action \<Rightarrow> ('a \<Rightarrow> ('s, 'e, 'b) action) \<Rightarrow> ('s, 'e, 'b) action" where
  "and_then m f s = (case m s of (Inl e, s') \<Rightarrow> (Inl e, s') | (Inr x, s') \<Rightarrow> f x s')"

definition read_state :: "('s \<Rightarrow> 'a) \<Rightarrow> ('s, 'e, 'a) action" where
  "read_state f s = (Inr (f s), s)"

definition change_state :: "('s \<Rightarrow> 's) \<Rightarrow> ('s, 'e, unit) action" where
  "change_state f s = (Inr (), f s)"

text \<open>A result of a function without effects.\<close>

definition lift_result :: "'e + 'a \<Rightarrow> ('s, 'e, 'a) action" where
  "lift_result r s = (r, s)"

text \<open>\<^verbatim>\<open>if (bad) throw e\<close>\<close>

definition throw_if :: "bool \<Rightarrow> 'e \<Rightarrow> ('s, 'e, unit) action" where
  "throw_if bad e s = (if bad then Inl e else Inr (), s)"

definition try_catch :: "('s, 'e, 'a) action \<Rightarrow> ('e \<Rightarrow> ('s, 'e, 'a) action) \<Rightarrow> ('s, 'e, 'a) action" where
  "try_catch m h s = (case m s of (Inl e, s') \<Rightarrow> h e s' | (Inr x, s') \<Rightarrow> (Inr x, s'))"

text \<open>A \<^verbatim>\<open>for\<close> loop that carries a value.\<close>

fun for_each :: "('i \<Rightarrow> 'a \<Rightarrow> ('s, 'e, 'a) action) \<Rightarrow> 'i list \<Rightarrow> 'a \<Rightarrow> ('s, 'e, 'a) action" where
  "for_each body [] x = give x"
| "for_each body (i # is) x = and_then (body i x) (for_each body is)"

lemma action_simps [simp]:
  "give x s = (Inr x, s)" "throw e s = (Inl e, s)" "read_state f s = (Inr (f s), s)"
  "change_state g s = (Inr (), g s)" "lift_result r s = (r, s)"
  "throw_if bad e s = (if bad then Inl e else Inr (), s)"
  by (simp_all add: give_def throw_def read_state_def change_state_def lift_result_def throw_if_def)

lemma and_then_simps [simp]:
  "m s = (Inl e, s') \<Longrightarrow> and_then m f s = (Inl e, s')"
  "m s = (Inr x, s') \<Longrightarrow> and_then m f s = f x s'"
  by (simp_all add: and_then_def)

text \<open>
  Running an operation on a concrete state: what comes after it is not looked at before its result is
  there.
\<close>

definition continue :: "('a \<Rightarrow> ('s, 'e, 'b) action) \<Rightarrow> ('e + 'a) \<times> 's \<Rightarrow> ('e + 'b) \<times> 's" where
  "continue f r = (case r of (Inl e, s) \<Rightarrow> (Inl e, s) | (Inr x, s) \<Rightarrow> f x s)"

definition rescue :: "('e \<Rightarrow> ('s, 'e, 'a) action) \<Rightarrow> ('e + 'a) \<times> 's \<Rightarrow> ('e + 'a) \<times> 's" where
  "rescue h r = (case r of (Inl e, s) \<Rightarrow> h e s | (Inr x, s) \<Rightarrow> (Inr x, s))"

lemma run_action:
  "and_then m f s = continue f (m s)" "continue f (Inl e, s) = (Inl e, s)" "continue f (Inr x, s) = f x s"
  "try_catch m h s = rescue h (m s)" "rescue h (Inl e, s) = h e s" "rescue h (Inr x, s) = (Inr x, s)"
  by (simp_all add: and_then_def try_catch_def continue_def rescue_def)

lemma run_action_cong:
  "s = s' \<Longrightarrow> and_then m f s = and_then m f s'" "r = r' \<Longrightarrow> continue f r = continue f r'"
  "s = s' \<Longrightarrow> try_catch m h s = try_catch m h s'" "r = r' \<Longrightarrow> rescue h r = rescue h r'"
  by simp_all

lemma and_then_Inr: "and_then m f s = (Inr y, s'') \<longleftrightarrow> (\<exists>x s'. m s = (Inr x, s') \<and> f x s' = (Inr y, s''))"
  by (auto simp: and_then_def split: prod.splits sum.splits)

lemma and_then_cases:
  assumes "and_then m f s = (r, s'')"
  obtains (threw) e where "m s = (Inl e, s'')" "r = Inl e"
    | (went_on) x s' where "m s = (Inr x, s')" "f x s' = (r, s'')"
  using assms by (auto simp: and_then_def split: prod.splits sum.splits)

lemma not_isl_result: "\<not> isl (fst p) \<Longrightarrow> \<exists>x s. p = (Inr x, s)"
  by (cases p; cases "fst p") auto

text \<open>A property of the state that no part of an operation breaks.\<close>

definition keeps :: "('s \<Rightarrow> bool) \<Rightarrow> ('s, 'e, 'a) action \<Rightarrow> bool" where
  "keeps P m \<longleftrightarrow> (\<forall>s. P s \<longrightarrow> P (snd (m s)))"

lemma keepsD: "keeps P m \<Longrightarrow> P s \<Longrightarrow> P (snd (m s))"
  by (simp add: keeps_def)

named_theorems keeps_rules

lemma keeps_basic [keeps_rules]:
  "keeps P (give x)" "keeps P (throw e)" "keeps P (read_state f)" "keeps P (lift_result r)"
  "keeps P (throw_if bad e)"
  by (simp_all add: keeps_def)

lemma keeps_change: "(\<And>s. P s \<Longrightarrow> P (f s)) \<Longrightarrow> keeps P (change_state f)"
  by (simp add: keeps_def)

lemma keeps_and_then [keeps_rules]:
  "keeps P m \<Longrightarrow> (\<And>x. keeps P (f x)) \<Longrightarrow> keeps P (and_then m f)"
  by (fastforce simp: keeps_def and_then_def split: prod.splits sum.splits)

lemma keeps_try_catch [keeps_rules]:
  "keeps P m \<Longrightarrow> (\<And>e. keeps P (h e)) \<Longrightarrow> keeps P (try_catch m h)"
  by (fastforce simp: keeps_def try_catch_def split: prod.splits sum.splits)

lemma keeps_for_each [keeps_rules]:
  "(\<And>i x. keeps P (body i x)) \<Longrightarrow> keeps P (for_each body is x)"
  by (induction "is" arbitrary: x) (auto intro!: keeps_rules)

lemma keeps_if [keeps_rules]: "(b \<Longrightarrow> keeps P m) \<Longrightarrow> (\<not> b \<Longrightarrow> keeps P n) \<Longrightarrow> keeps P (if b then m else n)"
  by simp

end
