(* ===== verification/Js_Util.thy ===== *)
theory Js_Util
  imports Js_Action "HOL-Library.Multiset"
begin

text \<open>The helpers of \<^verbatim>\<open>loc.api/helpers/utils/\<close>: sorting, sums over objects, checks of arguments.\<close>

text \<open>\<^verbatim>\<open>s.split('.')\<close>\<close>

fun split_dot :: "string \<Rightarrow> string list" where
  "split_dot [] = [[]]"
| "split_dot (c # s) = (if c = CHR ''.'' then [] # split_dot s
     else (c # hd (split_dot s)) # tl (split_dot s))"

lemma split_dot_not_Nil [simp]: "split_dot s \<noteq> []"
  by (cases s) simp_all

lemma split_dot_append:
  "CHR ''.'' \<notin> set a \<Longrightarrow> split_dot (a @ CHR ''.'' # s) = a # split_dot s"
  by (induction a) auto

lemma split_dot_plain: "CHR ''.'' \<notin> set a \<Longrightarrow> split_dot a = [a]"
  by (induction a) auto

subsection \<open>\<^verbatim>\<open>orderBy\<close>\<close>

definition nullish_val :: "jsval \<Rightarrow> bool" where
  "nullish_val v \<longleftrightarrow> v = VUndef \<or> v = VNull"

definition getValue :: "jsval \<Rightarrow> string \<Rightarrow> jsval" where
  "getValue ob path = (if nullish_val ob then ob
     else foldl (\<lambda>accum key. if nullish_val accum then VUndef else get (spread accum) key) ob (split_dot path))"

datatype iteratee = By_Path string | By_Fn "jsval \<Rightarrow> jsval"

fun iteratee_value :: "iteratee \<Rightarrow> jsval \<Rightarrow> jsval" where
  "iteratee_value (By_Path path) v = getValue v path"
| "iteratee_value (By_Fn f) v = f v"

fun text_less :: "string \<Rightarrow> string \<Rightarrow> bool" where
  "text_less s [] = False"
| "text_less [] (d # t) = True"
| "text_less (c # s) (d # t) = ((of_char c :: nat) < of_char d \<or> c = d \<and> text_less s t)"

text \<open>\<^verbatim>\<open>a < b\<close> for numbers, texts and booleans; values of different kinds are left incomparable.\<close>

fun js_less :: "jsval \<Rightarrow> jsval \<Rightarrow> bool" where
  "js_less (VNum x) (VNum y) = (x < y)"
| "js_less (VStr s) (VStr t) = text_less s t"
| "js_less (VBool a) (VBool b) = (\<not> a \<and> b)"
| "js_less v w = False"

fun order_cmp :: "(iteratee \<times> int) list \<Rightarrow> jsval \<Rightarrow> jsval \<Rightarrow> int" where
  "order_cmp [] a b = 0"
| "order_cmp ((it, direction) # its) a b =
     (let valA = iteratee_value it a; valB = iteratee_value it b in
      if valA = valB then order_cmp its a b
      else if nullish_val valA then 1
      else if nullish_val valB then - 1
      else if js_less valB valA then direction
      else if js_less valA valB then - direction
      else order_cmp its a b)"

definition directions :: "iteratee list \<Rightarrow> string list \<Rightarrow> (iteratee \<times> int) list" where
  "directions iteratees orders = map (\<lambda>(i, it). (it, if i < length orders \<and> orders ! i = ''desc'' then - 1 else 1))
     (enumerate 0 iteratees)"

text \<open>\<^verbatim>\<open>Array.prototype.sort\<close> is stable; for a comparison that is an order its result is this one.\<close>

fun insert_by :: "('a \<Rightarrow> 'a \<Rightarrow> int) \<Rightarrow> 'a \<Rightarrow> 'a list \<Rightarrow> 'a list" where
  "insert_by cmp x [] = [x]"
| "insert_by cmp x (y # ys) = (if cmp x y \<le> 0 then x # y # ys else y # insert_by cmp x ys)"

definition sort_by :: "('a \<Rightarrow> 'a \<Rightarrow> int) \<Rightarrow> 'a list \<Rightarrow> 'a list" where
  "sort_by cmp xs = foldr (insert_by cmp) xs []"

definition orderBy :: "jsval list \<Rightarrow> iteratee list \<Rightarrow> string list \<Rightarrow> jsval list" where
  "orderBy collection iteratees orders = sort_by (order_cmp (directions iteratees orders)) collection"

lemma mset_insert_by: "mset (insert_by cmp x ys) = add_mset x (mset ys)"
  by (induction ys) auto

lemma mset_sort_by [simp]: "mset (sort_by cmp xs) = mset xs"
  by (induction xs) (simp_all add: sort_by_def mset_insert_by)

lemma set_sort_by [simp]: "set (sort_by cmp xs) = set xs"
  by (metis mset_sort_by set_mset_mset)

text \<open>A comparison that is total and transitive on a set of values.\<close>

definition orders :: "('a \<Rightarrow> 'a \<Rightarrow> int) \<Rightarrow> 'a set \<Rightarrow> bool" where
  "orders cmp A \<longleftrightarrow> (\<forall>x\<in>A. \<forall>y\<in>A. cmp x y \<le> 0 \<or> cmp y x \<le> 0) \<and>
     (\<forall>x\<in>A. \<forall>y\<in>A. \<forall>z\<in>A. cmp x y \<le> 0 \<longrightarrow> cmp y z \<le> 0 \<longrightarrow> cmp x z \<le> 0)"

lemma set_insert_by: "set (insert_by cmp x ys) = insert x (set ys)"
  by (induction ys) auto

lemma sorted_insert_by:
  assumes "orders cmp A" "x \<in> A" "set ys \<subseteq> A" "sorted_wrt (\<lambda>a b. cmp a b \<le> 0) ys"
  shows "sorted_wrt (\<lambda>a b. cmp a b \<le> 0) (insert_by cmp x ys)"
  using assms(3,4)
proof (induction ys)
  case (Cons y ys)
  have y: "y \<in> A" "set ys \<subseteq> A" using Cons.prems(1) by auto
  have "cmp x z \<le> 0" if "cmp x y \<le> 0" "z \<in> set ys" for z
  proof -
    have "cmp y z \<le> 0" "z \<in> A" using that(2) Cons.prems(2) y(2) by auto
    then show ?thesis using that(1) assms(1,2) y(1) unfolding orders_def by blast
  qed
  moreover have "cmp y x \<le> 0" if "\<not> cmp x y \<le> 0" using that assms(1,2) y unfolding orders_def by blast
  ultimately show ?case using Cons by (auto simp: set_insert_by)
qed simp

lemma sorted_sort_by:
  assumes "orders cmp (set xs)"
  shows "sorted_wrt (\<lambda>a b. cmp a b \<le> 0) (sort_by cmp xs)"
proof -
  have "orders cmp A \<Longrightarrow> set xs \<subseteq> A \<Longrightarrow> sorted_wrt (\<lambda>a b. cmp a b \<le> 0) (foldr (insert_by cmp) xs [])" for A
  proof (induction xs)
    case (Cons x xs)
    moreover have "set (foldr (insert_by cmp) xs []) = set xs" using set_sort_by[of cmp xs] by (simp add: sort_by_def)
    ultimately show ?case using sorted_insert_by[of cmp A x] by simp
  qed simp
  then show ?thesis using assms by (simp add: sort_by_def)
qed

subsection \<open>Numbers in objects\<close>

definition is_number :: "jsval \<Rightarrow> bool" where
  "is_number v = (case v of VNum x \<Rightarrow> True | _ \<Rightarrow> False)"

definition number_or_0 :: "jsval \<Rightarrow> rat" where
  "number_or_0 v = (case v of VNum x \<Rightarrow> x | _ \<Rightarrow> 0)"

definition sumObjectsNumbers :: "string \<Rightarrow> obj list \<Rightarrow> rat" where
  "sumObjectsNumbers propName objects = foldl (\<lambda>accum cur.
     if is_number (get cur propName) then accum + number_or_0 (get cur propName) else accum) 0 objects"

definition pickLowerObjectsNumbers :: "string \<Rightarrow> obj list \<Rightarrow> rat option" where
  "pickLowerObjectsNumbers propName objects = foldl (\<lambda>accum cur. case get cur propName of
       VNum x \<Rightarrow> (case accum of None \<Rightarrow> Some x | Some a \<Rightarrow> if x < a then Some x else Some a)
     | _ \<Rightarrow> accum) None objects"

definition add_entries :: "obj \<Rightarrow> obj \<Rightarrow> obj" where
  "add_entries = foldl (\<lambda>accum (key, val). put accum key (VNum (number_or_0 (get accum key) + number_or_0 val)))"

definition sumAllObjectsNumbers :: "string \<Rightarrow> obj list \<Rightarrow> obj" where
  "sumAllObjectsNumbers propName objects = foldl (\<lambda>accum cur.
     if \<not> is_object (get cur propName) then accum else add_entries accum (spread (get cur propName))) [] objects"

definition lower_entries :: "obj \<Rightarrow> obj \<Rightarrow> obj" where
  "lower_entries = foldl (\<lambda>accum (key, val). case (val, get accum key) of
       (VNum x, VNum a) \<Rightarrow> put accum key (VNum (if x < a then x else a))
     | (VNum x, _) \<Rightarrow> put accum key val
     | _ \<Rightarrow> accum)"

definition pickAllLowerObjectsNumbers :: "string \<Rightarrow> obj list \<Rightarrow> obj" where
  "pickAllLowerObjectsNumbers propName objects = foldl (\<lambda>accum cur.
     if \<not> is_object (get cur propName) then accum else lower_entries accum (spread (get cur propName))) [] objects"

text \<open>Volumes by currency: a currency that gets a volume goes to the end.\<close>

fun take_out :: "('a \<Rightarrow> bool) \<Rightarrow> 'a list \<Rightarrow> ('a \<times> 'a list) option" where
  "take_out P [] = None"
| "take_out P (x # xs) = (if P x then Some (x, xs) else map_option (map_prod id ((#) x)) (take_out P xs))"

definition add_volume :: "obj list \<Rightarrow> obj \<Rightarrow> obj list" where
  "add_volume accum ob =
     (let entries = filter (\<lambda>(k, v). k \<noteq> ''curr'') ob in
      case get ob ''curr'' of
        VStr c \<Rightarrow>
          if entries = [] then accum
          else (case take_out (\<lambda>item. get item ''curr'' = VStr c) accum of
                  None \<Rightarrow> accum @ [ob]
                | Some (item, rest) \<Rightarrow> rest @ [add_entries item entries])
      | _ \<Rightarrow> accum)"

definition sumArrayVolumes :: "string \<Rightarrow> obj list \<Rightarrow> obj list" where
  "sumArrayVolumes propName objects = foldl (\<lambda>accum cur. case get cur propName of
       VArr xs \<Rightarrow> foldl (\<lambda>acc v. add_volume acc (spread v)) accum xs
     | _ \<Rightarrow> accum) [] objects"

subsection \<open>Sums\<close>

lemma get_add_entries:
  assumes "distinct (map fst entries)"
  shows "get (add_entries accum entries) k = (if k \<in> fst ` set entries
     then VNum (number_or_0 (get accum k) + number_or_0 (get entries k)) else get accum k)"
  using assms
proof (induction entries arbitrary: accum)
  case (Cons e entries)
  obtain k' v where e: "e = (k', v)" by (cases e)
  have "add_entries accum (e # entries) =
      add_entries (put accum k' (VNum (number_or_0 (get accum k') + number_or_0 v))) entries"
    by (simp add: add_entries_def e)
  then show ?case using Cons by (auto simp: e)
qed (simp add: add_entries_def)

text \<open>
  The sum over the objects of a field, field by field: a field that any of them has is the sum of what
  they all have there, where what is no number counts as nothing.
\<close>

theorem sumAllObjectsNumbers_sums:
  assumes "list_all (\<lambda>ob. distinct (map fst (spread (get ob propName)))) objects"
  shows "number_or_0 (get (sumAllObjectsNumbers propName objects) k) =
    sum_list (map (\<lambda>ob. if is_object (get ob propName) then number_or_0 (get (spread (get ob propName)) k) else 0) objects)"
proof -
  define step where "step = (\<lambda>accum cur. if \<not> is_object (get cur propName) then accum
     else add_entries accum (spread (get cur propName)))"
  have one: "number_or_0 (get (step accum ob) k) = number_or_0 (get accum k) +
      (if is_object (get ob propName) then number_or_0 (get (spread (get ob propName)) k) else 0)"
    if "distinct (map fst (spread (get ob propName)))" for accum ob
  proof (cases "k \<in> fst ` set (spread (get ob propName))")
    case True
    then show ?thesis using that by (simp add: step_def get_add_entries) (simp add: number_or_0_def)
  next
    case False
    then show ?thesis using that by (simp add: step_def get_add_entries get_absent) (simp add: number_or_0_def)
  qed
  have "number_or_0 (get (foldl step accum objects) k) = number_or_0 (get accum k) +
    sum_list (map (\<lambda>ob. if is_object (get ob propName) then number_or_0 (get (spread (get ob propName)) k) else 0) objects)"
    for accum using assms by (induction objects arbitrary: accum) (simp_all add: one)
  from this[of "[]"] show ?thesis by (simp add: sumAllObjectsNumbers_def step_def number_or_0_def)
qed

subsection \<open>Arguments\<close>

text \<open>\<^verbatim>\<open>checkParamsAuth\<close>: whether the keys of the arguments will do.\<close>

definition checkParamsAuth :: "obj \<Rightarrow> bool" where
  "checkParamsAuth auth \<longleftrightarrow> \<not> truthy (get auth ''isSubAccount'') \<and> truthy (get auth ''authToken'')
     \<or> (\<exists>k s. get auth ''apiKey'' = VStr k \<and> k \<noteq> [] \<and> get auth ''apiSecret'' = VStr s \<and> s \<noteq> [])"

definition isNotSyncRequired :: "obj \<Rightarrow> bool" where
  "isNotSyncRequired params = truthy (get params ''isNotSyncRequired'')"

definition pushLargeArr :: "'a list \<Rightarrow> 'a list \<Rightarrow> 'a list" where
  "pushLargeArr dest src = foldl (\<lambda>d item. d @ [item]) dest src"

end
