(* ===== verification/Auth_Crypto.thy ===== *)
theory Auth_Crypto
  imports Js_Util
begin

text \<open>
  \<^verbatim>\<open>sync/crypto/index.js\<close>: password hashes and the encryption of keys. Node's \<^verbatim>\<open>crypto\<close> module is a
  parameter; its buffers appear as the hexadecimal texts the code converts them to, random bytes are
  arguments.
\<close>

datatype auth_error = Auth_Error | Type_Error | Cipher_Error | Constraint_Error | Api_Error string
  | Args_Params_Error | User_Was_Previously_Stored_In_Db_Error | Auth_Token_TTL_Setting_Error
  | Auth_Token_Generation_Error | User_Updating_Error | User_Removing_Error
  | User_Removing_During_Sync_Error | Sub_Account_Creating_Error | Sub_Account_Updating_Error

record node_crypto =
  ncPbkdf2 :: "string \<Rightarrow> string \<Rightarrow> string"
  ncScrypt :: "string \<Rightarrow> string \<Rightarrow> string"
  ncCipher :: "string \<Rightarrow> string \<Rightarrow> string \<Rightarrow> string \<times> string"
  ncDecipher :: "string \<Rightarrow> string \<Rightarrow> string \<Rightarrow> string \<Rightarrow> string option option"
  ncSecretKey :: string

text \<open>\<^verbatim>\<open>Buffer.from(s, 'hex').toString('hex')\<close>: whole bytes up to the first character that is no digit.\<close>

definition lower_hex :: "char \<Rightarrow> char" where
  "lower_hex c = (let n = of_char c :: nat in if 65 \<le> n \<and> n \<le> 70 then char_of (n + 32) else c)"

definition hex_chars :: string where
  "hex_chars = ''0123456789abcdef''"

fun buffer_hex :: "string \<Rightarrow> string" where
  "buffer_hex (a # b # s) =
     (if lower_hex a \<in> set hex_chars \<and> lower_hex b \<in> set hex_chars
      then lower_hex a # lower_hex b # buffer_hex s else [])"
| "buffer_hex s = []"

text \<open>An element that is not there is \<^verbatim>\<open>undefined\<close>, which the code treats as the empty text.\<close>

definition part :: "string list \<Rightarrow> nat \<Rightarrow> string" where
  "part xs i = (if i < length xs then xs ! i else [])"

fun dot_parts :: "jsval \<Rightarrow> string list" where
  "dot_parts (VStr s) = split_dot s"
| "dot_parts v = []"

definition hashPassword :: "node_crypto \<Rightarrow> string \<Rightarrow> string \<Rightarrow> string \<Rightarrow> string" where
  "hashPassword nc password strSalt randomHex =
     (let salt = (if strSalt \<noteq> [] then buffer_hex strSalt else randomHex)
      in salt @ ''.'' @ ncPbkdf2 nc password salt)"

definition verifyPassword :: "node_crypto \<Rightarrow> string \<Rightarrow> jsval \<Rightarrow> auth_error + unit" where
  "verifyPassword nc password combinedHash =
     (let salt = part (dot_parts combinedHash) 0; hash = part (dot_parts combinedHash) 1 in
      if salt = [] \<or> hash = [] then Inl Auth_Error
      else if VStr (hashPassword nc password salt []) \<noteq> combinedHash then Inl Auth_Error
      else Inr ())"

definition encrypt :: "node_crypto \<Rightarrow> string \<Rightarrow> string \<Rightarrow> string \<Rightarrow> string" where
  "encrypt nc decryptedStr password iv =
     (let key = ncScrypt nc password (ncSecretKey nc); (encrypted, tag) = ncCipher nc key iv decryptedStr
      in iv @ ''.'' @ encrypted @ ''.'' @ tag)"

text \<open>
  The decipher may throw on a malformed initialisation vector or tag (\<open>None\<close>); only a text that does
  not belong to the key (\<open>Some None\<close>) is an \<^verbatim>\<open>AuthError\<close>.
\<close>

definition decrypt :: "node_crypto \<Rightarrow> jsval \<Rightarrow> string \<Rightarrow> auth_error + string" where
  "decrypt nc encryptedStr password =
     (let parts = dot_parts encryptedStr; strIV = part parts 0; str = part parts 1; strTag = part parts 2 in
      if str = [] \<or> strIV = [] \<or> strTag = [] then Inl Auth_Error
      else case ncDecipher nc (ncScrypt nc password (ncSecretKey nc)) (buffer_hex strIV) (buffer_hex strTag) str of
          None \<Rightarrow> Inl Cipher_Error
        | Some None \<Rightarrow> Inl Auth_Error
        | Some (Some s) \<Rightarrow> Inr s)"

subsection \<open>What is documented of Node's functions\<close>

text \<open>The text of a buffer: a whole number of bytes, two lower-case digits each.\<close>

definition hex_text :: "string \<Rightarrow> bool" where
  "hex_text s \<longleftrightarrow> even (length s) \<and> set s \<subseteq> set hex_chars"

text \<open>
  Hashes, cipher texts and tags are buffers; the tag has sixteen bytes, a hash thirty-two, the cipher
  text is as long as the text. What was enciphered is deciphered under the same key, and not under
  another one.
\<close>

definition crypto_ok :: "node_crypto \<Rightarrow> bool" where
  "crypto_ok nc \<longleftrightarrow>
     (\<forall>p s. hex_text (ncPbkdf2 nc p s) \<and> ncPbkdf2 nc p s \<noteq> []) \<and>
     (\<forall>k iv x. hex_text (fst (ncCipher nc k iv x)) \<and> (x \<noteq> [] \<longrightarrow> fst (ncCipher nc k iv x) \<noteq> [])
        \<and> hex_text (snd (ncCipher nc k iv x)) \<and> snd (ncCipher nc k iv x) \<noteq> []) \<and>
     (\<forall>k k' iv x. ncDecipher nc k' iv (snd (ncCipher nc k iv x)) (fst (ncCipher nc k iv x)) =
        Some (if k' = k then Some x else None))"

subsection \<open>Texts of buffers\<close>

lemma lower_hex_digit: "c \<in> set hex_chars \<Longrightarrow> lower_hex c = c"
  by (auto simp: hex_chars_def lower_hex_def)

lemma hex_text_Cons2: "hex_text (a # b # s) \<longleftrightarrow> a \<in> set hex_chars \<and> b \<in> set hex_chars \<and> hex_text s"
  by (auto simp: hex_text_def)

lemma buffer_hex_text: "hex_text s \<Longrightarrow> buffer_hex s = s"
proof (induction s rule: buffer_hex.induct)
  case (1 a b s)
  then show ?case by (simp add: hex_text_Cons2 lower_hex_digit)
next
  case "2_2" then show ?case by (simp add: hex_text_def)
qed simp

lemma hex_no_dot: "hex_text s \<Longrightarrow> CHR ''.'' \<notin> set s"
  by (auto simp: hex_text_def hex_chars_def)

lemma part_simps [simp]: "part (x # xs) 0 = x" "part (x # xs) (Suc i) = part xs i" "part [] i = []"
  "part (x # y # xs) 2 = part xs 0"
  by (simp_all add: part_def)

lemma crypto_okD:
  assumes "crypto_ok nc"
  shows "hex_text (ncPbkdf2 nc p s)" "ncPbkdf2 nc p s \<noteq> []"
    "hex_text (fst (ncCipher nc k iv x))" "x \<noteq> [] \<Longrightarrow> fst (ncCipher nc k iv x) \<noteq> []"
    "hex_text (snd (ncCipher nc k iv x))" "snd (ncCipher nc k iv x) \<noteq> []"
    "ncDecipher nc k' iv (snd (ncCipher nc k iv x)) (fst (ncCipher nc k iv x)) = Some (if k' = k then Some x else None)"
  using assms by (auto simp: crypto_ok_def)

lemma split_hash:
  assumes "crypto_ok nc" "hex_text salt"
  shows "split_dot (salt @ ''.'' @ ncPbkdf2 nc p salt) = [salt, ncPbkdf2 nc p salt]"
  using assms by (simp add: split_dot_append split_dot_plain hex_no_dot crypto_okD)

text \<open>
  A password is accepted for a stored hash exactly when it has the same digest under the salt of the
  hash.
\<close>

theorem verifyPassword_hash:
  assumes "crypto_ok nc" "hex_text randomHex" "randomHex \<noteq> []"
  shows "verifyPassword nc p (VStr (hashPassword nc q [] randomHex)) =
    (if ncPbkdf2 nc p randomHex = ncPbkdf2 nc q randomHex then Inr () else Inl Auth_Error)"
  using assms split_hash[OF assms(1,2)]
  by (simp add: verifyPassword_def hashPassword_def Let_def buffer_hex_text crypto_okD)

text \<open>
  What was encrypted is read back under the same key, and an \<^verbatim>\<open>AuthError\<close> under another one. Only the
  empty text is not: \<open>decrypt\<close> takes its empty middle part for a missing one.
\<close>

theorem decrypt_encrypt:
  assumes "crypto_ok nc" "hex_text iv" "iv \<noteq> []" "x \<noteq> []"
  shows "decrypt nc (VStr (encrypt nc x p iv)) p' =
    (if ncScrypt nc p' (ncSecretKey nc) = ncScrypt nc p (ncSecretKey nc) then Inr x else Inl Auth_Error)"
proof -
  obtain encrypted tag where c: "ncCipher nc (ncScrypt nc p (ncSecretKey nc)) iv x = (encrypted, tag)"
    by (cases "ncCipher nc (ncScrypt nc p (ncSecretKey nc)) iv x")
  note ok = crypto_okD(3-7)[OF assms(1), where k = "ncScrypt nc p (ncSecretKey nc)" and iv = iv and x = x,
    unfolded c fst_conv snd_conv]
  have "split_dot (iv @ ''.'' @ encrypted @ ''.'' @ tag) = [iv, encrypted, tag]"
    using ok(1,3) assms(2) by (simp add: split_dot_append split_dot_plain hex_no_dot)
  then show ?thesis
    using c ok assms(2-4) by (simp add: decrypt_def encrypt_def Let_def buffer_hex_text)
qed

lemma decrypt_encrypt_empty:
  assumes "crypto_ok nc" "hex_text iv" "fst (ncCipher nc (ncScrypt nc p (ncSecretKey nc)) iv []) = []"
  shows "decrypt nc (VStr (encrypt nc [] p iv)) p = Inl Auth_Error"
proof -
  obtain tag where c: "ncCipher nc (ncScrypt nc p (ncSecretKey nc)) iv [] = ([], tag)"
    using assms(3) by (cases "ncCipher nc (ncScrypt nc p (ncSecretKey nc)) iv []") auto
  then show ?thesis
    using assms(2) split_dot_append[of "[]" tag]
    by (simp add: decrypt_def encrypt_def Let_def split_dot_append hex_no_dot)
qed

subsection \<open>A transparent instance\<close>

text \<open>Key and text are written out; the tag is the key.\<close>

fun to_hex :: "string \<Rightarrow> string" where
  "to_hex [] = []"
| "to_hex (c # s) = hex_digit (of_char c div 16) # hex_digit (of_char c mod 16) # to_hex s"

definition unhex_digit :: "char \<Rightarrow> nat" where
  "unhex_digit c = (let n = of_char c :: nat in if n < 58 then n - 48 else n - 87)"

fun of_hex :: "string \<Rightarrow> string" where
  "of_hex (a # b # s) = char_of (unhex_digit a * 16 + unhex_digit b) # of_hex s"
| "of_hex s = []"

definition sample_crypto :: node_crypto where
  "sample_crypto = \<lparr>ncPbkdf2 = \<lambda>p s. to_hex p @ ''00'', ncScrypt = \<lambda>p s. p,
     ncCipher = \<lambda>k iv x. (to_hex x, to_hex k @ ''00''),
     ncDecipher = \<lambda>k iv tag s. Some (if tag = to_hex k @ ''00'' then Some (of_hex s) else None),
     ncSecretKey = ''secretKey''\<rparr>"

lemma hex_digit_facts:
  assumes "n < 16"
  shows "hex_digit n \<in> set hex_chars \<and> unhex_digit (hex_digit n) = n"
proof -
  have "list_all (\<lambda>n. hex_digit n \<in> set hex_chars \<and> unhex_digit (hex_digit n) = n) [0..<16]" by code_simp
  then show ?thesis using assms by (simp add: list_all_iff)
qed

lemma hex_halves: "(of_char c :: nat) div 16 < 16" "(of_char c :: nat) mod 16 < 16"
proof -
  have "(of_char c :: nat) < 256" by (rule nat_of_char_less_256)
  then show "(of_char c :: nat) div 16 < 16" by (simp add: less_mult_imp_div_less)
qed simp

lemma to_hex_text: "hex_text (to_hex s)"
  by (induction s) (auto simp: hex_text_def hex_digit_facts hex_halves)

lemma of_hex_to_hex: "of_hex (to_hex s) = s"
proof (induction s)
  case (Cons c s)
  then show ?case by (simp add: hex_digit_facts hex_halves)
qed simp

lemma to_hex_inj: "to_hex s = to_hex t \<longleftrightarrow> s = t"
  by (metis of_hex_to_hex)

lemma sample_crypto_ok: "crypto_ok sample_crypto"
proof -
  have "hex_text (to_hex p @ ''00'')" for p using to_hex_text[of p] by (auto simp: hex_text_def hex_chars_def)
  moreover have "to_hex x \<noteq> []" if "x \<noteq> []" for x using that by (cases x) simp_all
  ultimately show ?thesis
    by (auto simp: crypto_ok_def sample_crypto_def to_hex_text of_hex_to_hex to_hex_inj)
qed

theorem verifyPassword_hash_witness:
  "verifyPassword sample_crypto ''pass'' (VStr (hashPassword sample_crypto ''pass'' [] ''0a'')) = Inr ()"
  by (subst verifyPassword_hash[OF sample_crypto_ok]) (simp_all add: hex_text_def hex_chars_def)

theorem decrypt_encrypt_witness:
  "decrypt sample_crypto (VStr (encrypt sample_crypto ''key'' ''pass'' ''0a'')) ''pass'' = Inr ''key'' \<and>
   decrypt sample_crypto (VStr (encrypt sample_crypto ''key'' ''pass'' ''0a'')) ''other'' = Inl Auth_Error"
proof -
  have "hex_text ''0a''" by (simp add: hex_text_def hex_chars_def)
  note r = decrypt_encrypt[OF sample_crypto_ok this, of "''key''" "''pass''"]
  show ?thesis using r[of "''pass''"] r[of "''other''"] by (simp add: sample_crypto_def)
qed

end
