(* ===== verification/Auth_Session.thy ===== *)
theory Auth_Session
  imports Auth_Crypto Db_Dml "HOL-Library.Sublist"
begin

text \<open>
  The sessions of \<^verbatim>\<open>sync/authenticator/index.js\<close>: the two maps it keeps in memory, the timers that
  refresh and invalidate tokens, the interrupters of a session, and what of a session is handed out.
  The functions of the interface of the exchange, \<^verbatim>\<open>pick\<close> of the utility package, identifiers and random
  bytes are parameters. An operation runs without another one in between.
\<close>

record auth_env =
  aePick :: "obj \<Rightarrow> string list \<Rightarrow> obj"
  aeNum :: "rat \<Rightarrow> string"
  aeCrypto :: node_crypto
  aeRandom :: "nat \<Rightarrow> string"
  aeUuid :: "nat \<Rightarrow> string"
  aeRestUrl :: string
  aeCheckAuth :: "obj \<Rightarrow> auth_error + obj"
  aeCheckAuthRetried :: "obj \<Rightarrow> auth_error + obj"
  aeGenerateToken :: "obj \<Rightarrow> jsval \<Rightarrow> auth_error + jsval"
  aeInvalidateToken :: "obj \<Rightarrow> jsval \<Rightarrow> bool"
  aeIsENetError :: "auth_error \<Rightarrow> bool"
  aeIsAuthError :: "auth_error \<Rightarrow> bool"
  aeSyncInProgress :: bool

text \<open>\<^verbatim>\<open>pick\<close> keeps the named properties and has no others.\<close>

definition pick_ok :: "(obj \<Rightarrow> string list \<Rightarrow> obj) \<Rightarrow> bool" where
  "pick_ok pick \<longleftrightarrow> (\<forall>ob ks. distinct (map fst (pick ob ks)) \<and> fst ` set (pick ob ks) \<subseteq> set ks
     \<and> (\<forall>k\<in>set ks. get (pick ob ks) k = get ob k))"

subsection \<open>State\<close>

record interrupter =
  intId :: nat
  intName :: string

text \<open>
  \<open>seData\<close> holds the user's fields; \<^verbatim>\<open>authTokenFn\<close>, a function that reads the field \<^verbatim>\<open>authToken\<close> of the
  session under the same token, is left out.
\<close>

record session =
  seData :: obj
  seRefresh :: "nat option"
  seInvalidate :: "(jsval \<times> nat) list"
  seInterrupters :: "interrupter list option"

datatype timer =
    Refresh_Timer jsval obj
  | Invalidate_Timer jsval jsval session nat

record auth_state =
  userSessions :: "(jsval, session) jsmap"
  userTokenMapByEmail :: "(string, jsval) jsmap"
  timers :: "(nat, timer) jsmap"
  nextTimer :: nat
  drawn :: nat
  interruptedIds :: "nat list"
  invalidated :: "jsval list"
  authRequired :: "obj list"
  usersTable :: "obj list"
  subAccountsTable :: "obj list"
  nextUserId :: nat
  schedulerEnabled :: bool
  syncStops :: nat
  syncStarts :: "jsval list"
  ledgersReset :: "jsval list"

type_synonym 'a auth_action = "(auth_state, auth_error, 'a) action"

definition empty_auth_state :: auth_state where
  "empty_auth_state = \<lparr>userSessions = [], userTokenMapByEmail = [], timers = [], nextTimer = 0, drawn = 0,
     interruptedIds = [], invalidated = [], authRequired = [], usersTable = [], subAccountsTable = [],
     nextUserId = 1, schedulerEnabled = True, syncStops = 0, syncStarts = [], ledgersReset = []\<rparr>"

definition new_session :: session where
  "new_session = \<lparr>seData = [], seRefresh = None, seInvalidate = [], seInterrupters = None\<rparr>"

text \<open>\<^verbatim>\<open>x && typeof x === 'string'\<close>\<close>

definition is_text :: "jsval \<Rightarrow> bool" where
  "is_text v \<longleftrightarrow> (case v of VStr s \<Rightarrow> s \<noteq> [] | _ \<Rightarrow> False)"

definition text_of :: "jsval \<Rightarrow> string" where
  "text_of v = (case v of VStr s \<Rightarrow> s | _ \<Rightarrow> [])"

text \<open>\<^verbatim>\<open>x ?? y\<close>\<close>

definition coalesce :: "jsval \<Rightarrow> jsval \<Rightarrow> jsval" where
  "coalesce v d = (case v of VUndef \<Rightarrow> d | VNull \<Rightarrow> d | _ \<Rightarrow> v)"

subsection \<open>What of a user is handed out\<close>

definition pick_item :: "auth_env \<Rightarrow> string list \<Rightarrow> bool \<Rightarrow> string list \<Rightarrow> jsval \<Rightarrow> jsval" where
  "pick_item env projection isAppliedProjectionToSubUser subUsersProjection item =
     (if \<not> is_object item then item
      else case get (spread item) ''subUsers'' of
          VArr (su # sus) \<Rightarrow>
            if \<not> isAppliedProjectionToSubUser \<or> subUsersProjection = [] then VObj (aePick env (spread item) projection)
            else VObj (aePick env (put (spread item) ''subUsers'' (VArr (map (\<lambda>su.
              if is_object su then VObj (aePick env (spread su) subUsersProjection) else su) (su # sus)))) projection)
        | _ \<Rightarrow> VObj (aePick env (spread item) projection))"

definition pickProps :: "auth_env \<Rightarrow> jsval \<Rightarrow> string list \<Rightarrow> bool \<Rightarrow> string list \<Rightarrow> jsval" where
  "pickProps env data projection isApplied subUsersProjection =
     (if projection = [] then data
      else case data of
          VArr xs \<Rightarrow> VArr (map (pick_item env projection isApplied subUsersProjection) xs)
        | _ \<Rightarrow> pick_item env projection isApplied subUsersProjection data)"

definition session_props :: "bool \<Rightarrow> string list" where
  "session_props isReturnedPassword = [''_id'', ''id'', ''email'', ''authToken'', ''authTokenFn'', ''apiKey'',
     ''apiSecret'', ''active'', ''isDataFromDb'', ''timezone'', ''username'', ''localUsername'', ''isSubAccount'',
     ''isSubUser'', ''subUsers'', ''token'', ''shouldNotSyncOnStartupAfterUpdate'', ''isSyncOnStartupRequired'',
     ''authTokenTTLSec'', ''isStagingBfxApi'', ''isUserMerchant'']
     @ (if isReturnedPassword then [''password'', ''isNotProtected''] else [])"

definition pickSessionProps :: "auth_env \<Rightarrow> obj \<Rightarrow> bool \<Rightarrow> obj" where
  "pickSessionProps env data isReturnedPassword =
     (let allowedProps = session_props isReturnedPassword;
          subUsers = pickProps env (get data ''subUsers'') allowedProps False allowedProps
      in spread (pickProps env (VObj (put data ''subUsers'' subUsers)) allowedProps False allowedProps))"

definition generateSubUserName :: "auth_env \<Rightarrow> jsval \<Rightarrow> jsval \<Rightarrow> bool \<Rightarrow> bool \<Rightarrow> string" where
  "generateSubUserName env uName masterUserId isSubAccount isSubUser =
     to_text (aeNum env) uName @ (if isSubAccount then ''-sub-account'' else [])
       @ (if isSubUser then ''-sub-user-'' @ to_text (aeNum env) masterUserId else [])"

definition getTokenKeyByEmailField :: "auth_env \<Rightarrow> obj \<Rightarrow> string" where
  "getTokenKeyByEmailField env user =
     to_text (aeNum env) (get user ''email'') @ (if truthy (get user ''isSubAccount'') then '':sub-account'' else [])"

subsection \<open>Checks of the arguments\<close>

definition hasNotCredentials :: "jsval \<Rightarrow> jsval \<Rightarrow> jsval \<Rightarrow> jsval \<Rightarrow> bool \<Rightarrow> bool \<Rightarrow> bool" where
  "hasNotCredentials authToken apiKey apiSecret password isSubAccount isSubUser \<longleftrightarrow>
     (\<not> is_text apiKey \<or> \<not> is_text apiSecret) \<and> \<not> truthy authToken
     \<or> \<not> is_text password \<or> isSubAccount \<and> isSubUser"

definition minAuthTokenTTLSec :: rat where "minAuthTokenTTLSec = 24 * 60 * 60"
definition maxAuthTokenTTLSec :: rat where "maxAuthTokenTTLSec = 7 * 24 * 60 * 60"

definition isAuthTokenTTLInvalid :: "jsval \<Rightarrow> bool" where
  "isAuthTokenTTLInvalid v = (case v of
       VUndef \<Rightarrow> False
     | VNull \<Rightarrow> False
     | VNum x \<Rightarrow> \<not> is_integer v \<or> x < minAuthTokenTTLSec \<or> x > maxAuthTokenTTLSec
     | _ \<Rightarrow> True)"

definition isLocalUsernameInvalid :: "jsval \<Rightarrow> bool" where
  "isLocalUsernameInvalid v \<longleftrightarrow> v \<noteq> VUndef \<and> v \<noteq> VNull \<and> \<not> is_text v"

definition isStagingBfxApi :: "auth_env \<Rightarrow> bool" where
  "isStagingBfxApi env = sublist ''staging'' (map lower_char (aeRestUrl env))"

subsection \<open>Timers\<close>

definition clear_timer :: "nat option \<Rightarrow> auth_state \<Rightarrow> auth_state" where
  "clear_timer t s = (case t of None \<Rightarrow> s | Some i \<Rightarrow> s\<lparr>timers := AList.delete i (timers s)\<rparr>)"

definition start_timer :: "timer \<Rightarrow> auth_state \<Rightarrow> auth_state" where
  "start_timer t s = s\<lparr>timers := AList.update (nextTimer s) t (timers s), nextTimer := Suc (nextTimer s)\<rparr>"

definition setupAuthTokenRefreshInterval :: "obj \<Rightarrow> auth_state \<Rightarrow> nat \<times> auth_state" where
  "setupAuthTokenRefreshInterval user s =
     (let token = get user ''token'';
          running = Option.bind (map_of (userSessions s) token) seRefresh
      in (nextTimer s, start_timer (Refresh_Timer token user) (clear_timer running s)))"

definition set_session :: "jsval \<Rightarrow> session \<Rightarrow> auth_state \<Rightarrow> auth_state" where
  "set_session token se s = s\<lparr>userSessions := AList.update token se (userSessions s)\<rparr>"

text \<open>Without a session under the token the code fails on reading a property of \<^verbatim>\<open>undefined\<close>.\<close>

definition setupAuthTokenInvalidateInterval :: "jsval \<Rightarrow> jsval \<Rightarrow> unit auth_action" where
  "setupAuthTokenInvalidateInterval token authToken s =
     (case map_of (userSessions s) token of
        None \<Rightarrow> (Inl Type_Error, s)
      | Some se \<Rightarrow>
          if map_of (seInvalidate se) authToken \<noteq> None then (Inr (), s)
          else (Inr (), set_session token (se\<lparr>seInvalidate := AList.update authToken (nextTimer s) (seInvalidate se)\<rparr>)
                 (start_timer (Invalidate_Timer token authToken se 0) s)))"

subsection \<open>Sessions\<close>

definition setUserSession :: "auth_env \<Rightarrow> obj \<Rightarrow> auth_state \<Rightarrow> auth_state" where
  "setUserSession env user s =
     (let token = get user ''token'';
          se = nullish (map_of (userSessions s) token) new_session;
          (interval, s1) = (if truthy (get user ''authToken'')
             then map_prod Some id (setupAuthTokenRefreshInterval user s) else (None, s));
          s2 = set_session token (se\<lparr>seData := merge_obj (seData se) user, seRefresh := interval\<rparr>) s1
      in s2\<lparr>userTokenMapByEmail := AList.update (getTokenKeyByEmailField env user) token (userTokenMapByEmail s2)\<rparr>)"

definition session_data :: "auth_state \<Rightarrow> jsval \<Rightarrow> obj" where
  "session_data s token = (case map_of (userSessions s) token of None \<Rightarrow> [] | Some se \<Rightarrow> seData se)"

definition getUserSessionByToken :: "auth_env \<Rightarrow> jsval \<Rightarrow> bool \<Rightarrow> auth_state \<Rightarrow> obj" where
  "getUserSessionByToken env token isReturnedPassword s = pickSessionProps env (session_data s token) isReturnedPassword"

definition token_by_email :: "auth_env \<Rightarrow> obj \<Rightarrow> auth_state \<Rightarrow> jsval" where
  "token_by_email env user s = nullish (map_of (userTokenMapByEmail s) (getTokenKeyByEmailField env user)) VUndef"

definition getUserSessionByEmail :: "auth_env \<Rightarrow> obj \<Rightarrow> bool \<Rightarrow> auth_state \<Rightarrow> obj" where
  "getUserSessionByEmail env user isReturnedPassword s =
     pickSessionProps env (session_data s (token_by_email env user s)) isReturnedPassword"

definition getUserSessions :: "auth_env \<Rightarrow> auth_state \<Rightarrow> (jsval \<times> obj) list" where
  "getUserSessions env s = map (\<lambda>(token, se). (token, pickSessionProps env (seData se) False)) (userSessions s)"

text \<open>Every token of the session that waits for its invalidation is invalidated at once, awaited by nobody.\<close>

definition removeUserSession :: "auth_env \<Rightarrow> obj \<Rightarrow> auth_state \<Rightarrow> bool \<times> auth_state" where
  "removeUserSession env user s =
     (let token = (if is_text (get user ''token'') then get user ''token'' else token_by_email env user s);
          se = nullish (map_of (userSessions s) token) new_session;
          s1 = s\<lparr>userTokenMapByEmail := AList.delete (getTokenKeyByEmailField env (seData se)) (userTokenMapByEmail s)\<rparr>;
          s2 = clear_timer (seRefresh se) s1;
          s3 = foldl (\<lambda>st (authToken, i). (clear_timer (Some i) st)\<lparr>invalidated := invalidated st @ [authToken]\<rparr>)
                 s2 (seInvalidate se)
      in (map_of (userSessions s) token \<noteq> None, s3\<lparr>userSessions := AList.delete token (userSessions s3)\<rparr>))"

subsection \<open>Interrupters\<close>

text \<open>\<open>None\<close> stands for an argument that is no interrupter.\<close>

definition setInterrupterToUserSession :: "auth_env \<Rightarrow> obj \<Rightarrow> interrupter option \<Rightarrow> unit auth_action" where
  "setInterrupterToUserSession env user interrupter s =
     (let token = token_by_email env user s in
      case map_of (userSessions s) token of
        None \<Rightarrow> (Inl Auth_Error, s)
      | Some se \<Rightarrow>
          let ints = nullish (seInterrupters se) [];
              ints' = (case interrupter of None \<Rightarrow> ints | Some i \<Rightarrow> List.insert i ints)
          in (Inr (), set_session token (se\<lparr>seInterrupters := Some ints'\<rparr>) s))"

definition asked_names :: "jsval \<Rightarrow> string list" where
  "asked_names names = map text_of (filter is_text (case names of VArr xs \<Rightarrow> xs | v \<Rightarrow> [v]))"

definition processInterrupters :: "auth_env \<Rightarrow> obj \<Rightarrow> jsval \<Rightarrow> auth_state \<Rightarrow> auth_state" where
  "processInterrupters env user names s =
     (let filteredName = asked_names names; token = token_by_email env user s in
      case map_of (userSessions s) token of
        None \<Rightarrow> s
      | Some se \<Rightarrow>
          let hit = (\<lambda>i. filteredName = [] \<or> intName i \<in> set filteredName);
              ints = nullish (seInterrupters se) []
          in if ints = [] then s
             else (set_session token (se\<lparr>seInterrupters := Some (filter (\<lambda>i. \<not> hit i) ints)\<rparr>) s)
                    \<lparr>interruptedIds := interruptedIds s @ map intId (filter hit ints)\<rparr>)"

definition interruptOperations :: "auth_env \<Rightarrow> obj \<Rightarrow> jsval \<Rightarrow> bool auth_action" where
  "interruptOperations env auth names s = (Inr True, processInterrupters env auth names s)"

end
