(* ===== verification/Auth_Users.thy ===== *)
theory Auth_Users
  imports Auth_Session
begin

text \<open>
  The operations of \<^verbatim>\<open>sync/authenticator/index.js\<close> on the table of users. The database is the list of
  its rows; its unique index, its triggers and its cascading keys (\<^verbatim>\<open>schema/models/users.js\<close>,
  \<^verbatim>\<open>common.triggers.js\<close>, \<^verbatim>\<open>common.constraints.js\<close>) are part of the model.
\<close>

subsection \<open>The table of users\<close>

definition user_columns :: "string list" where
  "user_columns = [''_id'', ''id'', ''email'', ''apiKey'', ''apiSecret'', ''authToken'', ''active'', ''isDataFromDb'',
     ''timezone'', ''username'', ''localUsername'', ''passwordHash'', ''isNotProtected'', ''isSubAccount'', ''isSubUser'',
     ''shouldNotSyncOnStartupAfterUpdate'', ''isSyncOnStartupRequired'', ''authTokenTTLSec'', ''isStagingBfxApi'',
     ''isUserMerchant'']"

text \<open>A value as a column takes it: what is not defined is \<^verbatim>\<open>NULL\<close>.\<close>

definition column :: "auth_env \<Rightarrow> jsval \<Rightarrow> jsval" where
  "column env v = (case serializeVal (aeNum env) v of VUndef \<Rightarrow> VNull | w \<Rightarrow> w)"

definition user_row :: "auth_env \<Rightarrow> jsval \<Rightarrow> obj \<Rightarrow> obj" where
  "user_row env userId data = map (\<lambda>c. (c, if c = ''_id'' then userId else column env (get data c))) user_columns"

text \<open>A condition that is all equalities; \<^verbatim>\<open>NULL\<close> equals nothing.\<close>

definition user_matches :: "auth_env \<Rightarrow> obj \<Rightarrow> obj \<Rightarrow> bool" where
  "user_matches env flt row \<longleftrightarrow> list_all (\<lambda>(k, v). column env v \<noteq> VNull \<and> get row k = column env v) flt"

text \<open>The trigger on keys: a token, or both keys, and never one key alone.\<close>

definition keys_valid :: "obj \<Rightarrow> bool" where
  "keys_valid row \<longleftrightarrow>
     \<not> (get row ''authToken'' = VNull \<and> get row ''apiKey'' = VNull
        \<or> get row ''apiKey'' = VNull \<and> get row ''apiSecret'' \<noteq> VNull)
     \<and> \<not> (get row ''authToken'' = VNull \<and> get row ''apiSecret'' = VNull
        \<or> get row ''apiSecret'' = VNull \<and> get row ''apiKey'' \<noteq> VNull)"

definition names_unique :: "obj list \<Rightarrow> bool" where
  "names_unique rows = distinct (filter (\<lambda>(e, u). e \<noteq> VNull \<and> u \<noteq> VNull)
     (map (\<lambda>row. (get row ''email'', get row ''username'')) rows))"

definition insert_user :: "auth_env \<Rightarrow> obj \<Rightarrow> jsval auth_action" where
  "insert_user env data s =
     (let userId = VNum (of_nat (nextUserId s)); row = user_row env userId data in
      if \<not> keys_valid row \<or> \<not> names_unique (usersTable s @ [row]) then (Inl Constraint_Error, s)
      else (Inr userId, s\<lparr>usersTable := usersTable s @ [row], nextUserId := Suc (nextUserId s)\<rparr>))"

definition write_row :: "auth_env \<Rightarrow> obj \<Rightarrow> obj \<Rightarrow> obj" where
  "write_row env data row = foldl (\<lambda>r (k, v). put r k (column env v)) row data"

text \<open>\<^verbatim>\<open>updateCollBy(USERS, filter, data)\<close>: the number of changed rows.\<close>

definition update_users :: "auth_env \<Rightarrow> (obj \<Rightarrow> bool) \<Rightarrow> obj \<Rightarrow> nat auth_action" where
  "update_users env hit data s =
     (let rows = map (\<lambda>row. if hit row then write_row env data row else row) (usersTable s) in
      if \<not> list_all keys_valid (map (write_row env data) (filter hit (usersTable s))) \<or> \<not> names_unique rows
      then (Inl Constraint_Error, s)
      else (Inr (length (filter hit (usersTable s))), s\<lparr>usersTable := rows\<rparr>))"

text \<open>Deleting a user deletes the links of its sub-accounts, and with them the sub-users.\<close>

definition delete_users :: "(obj \<Rightarrow> bool) \<Rightarrow> nat auth_action" where
  "delete_users hit s =
     (let ids = map (\<lambda>r. get r ''_id'') (filter hit (usersTable s));
          touched = (\<lambda>l. get l ''masterUserId'' \<in> set ids \<or> get l ''subUserId'' \<in> set ids);
          allIds = ids @ map (\<lambda>l. get l ''subUserId'') (filter touched (subAccountsTable s))
      in (Inr (length ids), s\<lparr>
           usersTable := filter (\<lambda>r. get r ''_id'' \<notin> set allIds) (usersTable s),
           subAccountsTable := filter (\<lambda>l. get l ''masterUserId'' \<notin> set allIds \<and> get l ''subUserId'' \<notin> set allIds)
             (subAccountsTable s)\<rparr>))"

subsection \<open>Reading users\<close>

text \<open>The rows of \<^verbatim>\<open>getUsersQuery\<close> and \<^verbatim>\<open>getSubUsersQuery\<close> for them.\<close>

definition sub_user_rows :: "auth_state \<Rightarrow> jsval \<Rightarrow> obj list" where
  "sub_user_rows s masterId = concat (map (\<lambda>l. map (\<lambda>r. put r ''masterUserId'' masterId)
     (filter (\<lambda>r. get r ''_id'' = get l ''subUserId'') (usersTable s)))
     (filter (\<lambda>l. get l ''masterUserId'' = masterId) (subAccountsTable s)))"

definition joined_user :: "auth_state \<Rightarrow> bool \<Rightarrow> obj \<Rightarrow> obj" where
  "joined_user s isFilledSubUsers row =
     (let links = filter (\<lambda>l. get l ''masterUserId'' = get row ''_id'') (subAccountsTable s);
          user = normalizeUser (put row ''haveSubUsers'' (if links = [] then VNull else get (hd links) ''subUserId''))
      in if isFilledSubUsers
         then hd (fillSubUsers [user] (normalizeUserData (sub_user_rows s (get row ''_id''))))
         else user)"

definition dao_users :: "auth_env \<Rightarrow> obj \<Rightarrow> bool \<Rightarrow> auth_state \<Rightarrow> obj list" where
  "dao_users env flt isFilledSubUsers s =
     map (joined_user s isFilledSubUsers) (filter (user_matches env flt) (usersTable s))"

fun first_user :: "obj list \<Rightarrow> jsval" where
  "first_user [] = VUndef"
| "first_user (u # us) = VObj u"

subsection \<open>Keys\<close>

definition decrypt_user :: "auth_env \<Rightarrow> string \<Rightarrow> jsval \<Rightarrow> auth_error + jsval" where
  "decrypt_user env password user =
     (let ob = spread user; apiKey = get ob ''apiKey''; apiSecret = get ob ''apiSecret'';
          dec = (\<lambda>v. bind_err (decrypt (aeCrypto env) v password) (\<lambda>x. Inr (VStr x)));
          hasKeys = is_text apiKey \<and> is_text apiSecret
      in bind_err (if truthy (get ob ''authToken'') then dec (get ob ''authToken'') else Inr VNull) (\<lambda>authToken.
         bind_err (if hasKeys then dec apiKey else Inr VNull) (\<lambda>key.
         bind_err (if hasKeys then dec apiSecret else Inr VNull) (\<lambda>secret.
           Inr (VObj (merge_obj ob [(''authToken'', authToken), (''apiKey'', key), (''apiSecret'', secret)]))))))"

fun decrypt_all :: "auth_env \<Rightarrow> string \<Rightarrow> jsval list \<Rightarrow> auth_error + jsval list" where
  "decrypt_all env password [] = Inr []"
| "decrypt_all env password (u # us) =
     bind_err (decrypt_user env password u) (\<lambda>u'. bind_err (decrypt_all env password us) (\<lambda>us'. Inr (u' # us')))"

definition decryptApiKeys :: "auth_env \<Rightarrow> string \<Rightarrow> jsval \<Rightarrow> auth_error + jsval" where
  "decryptApiKeys env password users = (case users of
       VArr us \<Rightarrow> bind_err (decrypt_all env password us) (\<lambda>us'. Inr (VArr us'))
     | u \<Rightarrow> decrypt_user env password u)"

text \<open>Random bytes for a salt or an initialisation vector.\<close>

definition draw :: "auth_env \<Rightarrow> string auth_action" where
  "draw env s = (Inr (aeRandom env (drawn s)), s\<lparr>drawn := Suc (drawn s)\<rparr>)"

definition draw_uuid :: "auth_env \<Rightarrow> jsval auth_action" where
  "draw_uuid env s = (Inr (VStr (aeUuid env (drawn s))), s\<lparr>drawn := Suc (drawn s)\<rparr>)"

definition encrypt_val :: "auth_env \<Rightarrow> jsval \<Rightarrow> string \<Rightarrow> jsval auth_action" where
  "encrypt_val env v password = and_then (draw env) (\<lambda>iv. give (VStr (encrypt (aeCrypto env) (text_of v) password iv)))"

text \<open>The credentials as they are stored: the hash, the token, the key, the secret.\<close>

definition getEncryptedCredentials ::
  "auth_env \<Rightarrow> jsval \<Rightarrow> jsval \<Rightarrow> jsval \<Rightarrow> string \<Rightarrow> (jsval \<times> jsval \<times> jsval \<times> jsval) auth_action" where
  "getEncryptedCredentials env authToken apiKey apiSecret password =
     (let hasKeys = is_text apiKey \<and> is_text apiSecret in
      and_then (draw env) (\<lambda>salt.
      and_then (if truthy authToken then encrypt_val env authToken password else give VNull) (\<lambda>token.
      and_then (if hasKeys then encrypt_val env apiKey password else give VNull) (\<lambda>key.
      and_then (if hasKeys then encrypt_val env apiSecret password else give VNull) (\<lambda>secret.
        give (VStr (hashPassword (aeCrypto env) password [] salt), token, key, secret))))))"

subsection \<open>Getting users\<close>

record user_opts =
  uoProjection :: "string list"
  uoFilled :: bool
  uoPassword :: jsval
  uoAppliedToSubUser :: bool
  uoSubProjection :: "string list"

definition user_opts0 :: user_opts where
  "user_opts0 = \<lparr>uoProjection = [], uoFilled = False, uoPassword = VUndef, uoAppliedToSubUser = False, uoSubProjection = []\<rparr>"

text \<open>\<^verbatim>\<open>subUsersProjection = projection\<close> is meant here: the caller passes the same list when there is no other.\<close>

definition pick_user :: "auth_env \<Rightarrow> user_opts \<Rightarrow> jsval \<Rightarrow> jsval" where
  "pick_user env uo data = pickProps env data (uoProjection uo) (uoAppliedToSubUser uo) (uoSubProjection uo)"

definition getUser :: "auth_env \<Rightarrow> obj \<Rightarrow> user_opts \<Rightarrow> jsval auth_action" where
  "getUser env flt uo s =
     (let user = pick_user env uo (first_user (dao_users env flt (uoFilled uo) s)) in
      if \<not> is_text (uoPassword uo) then (Inr user, s)
      else (bind_err (decryptApiKeys env (text_of (uoPassword uo)) user) (\<lambda>decryptedUser.
              if \<not> uoFilled uo then Inr decryptedUser
              else bind_err (decryptApiKeys env (text_of (uoPassword uo)) (get (spread decryptedUser) ''subUsers''))
                (\<lambda>decryptedSubUsers. Inr (VObj (put (spread decryptedUser) ''subUsers'' decryptedSubUsers)))), s))"

definition remap_user :: "obj \<Rightarrow> obj" where
  "remap_user user = put (put user ''isRestrictedToBeAddedToSubAccount''
       (VBool (truthy (get user ''authToken'') \<or> truthy (get user ''isSubAccount''))))
     ''isApiKeysAuth'' (VBool (is_text (get user ''apiKey'') \<and> is_text (get user ''apiSecret'')))"

text \<open>The sub-users of every user, with the password given for the user's e-mail.\<close>

fun decrypt_sub_users :: "auth_env \<Rightarrow> (string \<times> string) list \<Rightarrow> jsval list \<Rightarrow> auth_error + jsval list" where
  "decrypt_sub_users env pwds [] = Inr []"
| "decrypt_sub_users env pwds (u # us) =
     (case find (\<lambda>p. VStr (fst p) = get (spread u) ''email'') pwds of
        None \<Rightarrow> Inl Type_Error
      | Some p \<Rightarrow>
          bind_err (decryptApiKeys env (snd p) (get (spread u) ''subUsers'')) (\<lambda>subUsers.
          bind_err (decrypt_sub_users env pwds us) (\<lambda>us'.
            Inr (VObj (put (spread u) ''subUsers'' subUsers) # us'))))"

definition email_pwds :: "jsval \<Rightarrow> (string \<times> string) list" where
  "email_pwds emailPasswordsMap = map (\<lambda>v. (text_of (get (spread v) ''email''), text_of (get (spread v) ''password'')))
     (filter (\<lambda>v. is_text (get (spread v) ''password'') \<and> is_text (get (spread v) ''email''))
       (case emailPasswordsMap of VArr xs \<Rightarrow> xs | v \<Rightarrow> [v]))"

definition getUsersOf :: "auth_env \<Rightarrow> obj \<Rightarrow> user_opts \<Rightarrow> jsval \<Rightarrow> jsval auth_action" where
  "getUsersOf env flt uo emailPasswordsMap s =
     (let users = pick_user env uo (VArr (map (VObj \<circ> remap_user) (dao_users env flt (uoFilled uo) s))) in
      if \<not> is_text (uoPassword uo) then (Inr users, s)
      else (bind_err (decryptApiKeys env (text_of (uoPassword uo)) users) (\<lambda>decryptedUsers.
              if \<not> uoFilled uo then Inr decryptedUsers
              else bind_err (decrypt_sub_users env (email_pwds emailPasswordsMap)
                       (case decryptedUsers of VArr us \<Rightarrow> us | u \<Rightarrow> []))
                     (\<lambda>us. Inr (VArr us))), s))"

definition has_integer_id :: "jsval \<Rightarrow> bool" where
  "has_integer_id user \<longleftrightarrow> is_object user \<and> is_integer (get (spread user) ''_id'')"

definition createUser :: "auth_env \<Rightarrow> obj \<Rightarrow> obj auth_action" where
  "createUser env data =
     and_then (insert_user env data) (\<lambda>userId.
     and_then (throw_if (\<not> is_integer userId) Auth_Error) (\<lambda>_.
     and_then (getUser env [(''_id'', userId)] user_opts0) (\<lambda>user.
     and_then (throw_if (\<not> has_integer_id user) Auth_Error) (\<lambda>_.
       give (spread user)))))"

end
