(* ===== verification/Auth_Ops.thy ===== *)
theory Auth_Ops
  imports Auth_Users
begin

text \<open>
  Signing up, in and out, recovery, updates and removal of users, the verification of requests and
  the timers that renew tokens (\<^verbatim>\<open>sync/authenticator/index.js\<close>), with the suffix that marks the keys of a
  sub-account (\<^verbatim>\<open>helpers/sub-account-auth.js\<close>).
\<close>

subsection \<open>Keys of sub-accounts\<close>

definition sub_account_ending :: string where
  "sub_account_ending = ''-sub-account''"

definition ends_with :: "string \<Rightarrow> string \<Rightarrow> bool" where
  "ends_with e s \<longleftrightarrow> length e \<le> length s \<and> drop (length s - length e) s = e"

definition isSubAccountApiKeys :: "obj \<Rightarrow> bool" where
  "isSubAccountApiKeys auth \<longleftrightarrow> is_string (get auth ''apiKey'') \<and> is_string (get auth ''apiSecret'')
     \<and> ends_with sub_account_ending (text_of (get auth ''apiKey''))
     \<and> ends_with sub_account_ending (text_of (get auth ''apiSecret''))"

definition cut_ending :: "string \<Rightarrow> string" where
  "cut_ending s = (if ends_with sub_account_ending s then take (length s - length sub_account_ending) s else s)"

definition getAuthFromSubAccountAuth :: "obj \<Rightarrow> obj" where
  "getAuthFromSubAccountAuth auth =
     (if \<not> truthy (get auth ''isSubAccount'') \<and> truthy (get auth ''authToken'')
      then [(''authToken'', get auth ''authToken''), (''isSubAccount'', VBool False)]
      else if \<not> is_string (get auth ''apiKey'') \<or> \<not> is_string (get auth ''apiSecret'') then auth
      else [(''apiKey'', VStr (cut_ending (text_of (get auth ''apiKey'')))),
            (''apiSecret'', VStr (cut_ending (text_of (get auth ''apiSecret''))))])"

definition getSubAccountAuthFromAuth :: "obj \<Rightarrow> obj" where
  "getSubAccountAuthFromAuth auth =
     (if \<not> is_string (get auth ''apiKey'') \<or> \<not> is_string (get auth ''apiSecret'') \<or> isSubAccountApiKeys auth then auth
      else [(''apiKey'', VStr (text_of (get auth ''apiKey'') @ sub_account_ending)),
            (''apiSecret'', VStr (text_of (get auth ''apiSecret'') @ sub_account_ending))])"

subsection \<open>Tokens of the exchange\<close>

text \<open>Whatever goes wrong is reported as a failed generation.\<close>

definition generateAuthToken :: "auth_env \<Rightarrow> obj \<Rightarrow> auth_error + jsval" where
  "generateAuthToken env auth =
     (let ttl = coalesce (get auth ''authTokenTTLSec'') (VNum minAuthTokenTTLSec) in
      case aeGenerateToken env (pickSessionProps env auth False) ttl of
        Inl e \<Rightarrow> Inl Auth_Token_Generation_Error
      | Inr (VArr (t # ts)) \<Rightarrow> if truthy t then Inr t else Inl Auth_Token_Generation_Error
      | Inr v \<Rightarrow> Inl Auth_Token_Generation_Error)"

definition invalidateAuthToken :: "auth_env \<Rightarrow> obj \<Rightarrow> jsval \<Rightarrow> bool" where
  "invalidateAuthToken env auth authToken = aeInvalidateToken env (pickSessionProps env auth False) authToken"

subsection \<open>Verifying a user\<close>

record verify_opts =
  voUser :: user_opts
  voDecrypted :: bool
  voReturnedPassword :: bool
  voSubUser :: bool

definition verify_opts0 :: verify_opts where
  "verify_opts0 = \<lparr>voUser = user_opts0, voDecrypted = False, voReturnedPassword = False, voSubUser = False\<rparr>"

text \<open>\<^verbatim>\<open>isSubAccount = false\<close>: a default stands in for \<^verbatim>\<open>undefined\<close> only.\<close>

definition default_val :: "jsval \<Rightarrow> jsval \<Rightarrow> jsval" where
  "default_val d v = (if v = VUndef then d else v)"

text \<open>
  The row is read without a projection; the projection is applied to the verified user. The options
  with the secret key have no other effect on the reading.
\<close>

definition verifyUser :: "auth_env \<Rightarrow> obj \<Rightarrow> verify_opts \<Rightarrow> obj auth_action" where
  "verifyUser env auth vo =
     (let password = (if is_text (get auth ''password'') then text_of (get auth ''password'')
                      else ncSecretKey (aeCrypto env)) in
      if is_text (get auth ''email'') \<and> password \<noteq> [] then
        and_then (getUser env [(''email'', get auth ''email''),
             (''isSubAccount'', default_val (VBool False) (get auth ''isSubAccount'')),
             (''isSubUser'', VBool (voSubUser vo))]
             (user_opts0\<lparr>uoFilled := uoFilled (voUser vo),
                uoPassword := (if voDecrypted vo then VStr password else VUndef)\<rparr>)) (\<lambda>user.
        and_then (lift_result (verifyPassword (aeCrypto env) password (get (spread user) ''passwordHash''))) (\<lambda>_.
          give (spread (pick_user env (voUser vo) (VObj (put (spread user) ''password''
            (if voReturnedPassword vo then VStr password else VNull)))))))
      else if is_text (get auth ''token'') then
        and_then (read_state (getUserSessionByToken env (get auth ''token'') (voReturnedPassword vo))) (\<lambda>session.
        and_then (throw_if ((\<not> is_text (get session ''apiKey'') \<or> \<not> is_text (get session ''apiSecret''))
            \<and> \<not> truthy (get session ''authToken'')) Auth_Error) (\<lambda>_.
          give (spread (pick_user env (voUser vo) (VObj session)))))
      else throw Auth_Error)"

definition verifyRequestUser :: "auth_env \<Rightarrow> obj \<Rightarrow> bool \<Rightarrow> obj auth_action" where
  "verifyRequestUser env auth isForcedVerification =
     (if isForcedVerification \<or> \<not> is_integer (get auth ''_id'')
      then verifyUser env auth (verify_opts0\<lparr>voUser := user_opts0\<lparr>uoFilled := True\<rparr>, voDecrypted := True,
             voReturnedPassword := True\<rparr>)
      else give auth)"

definition own_auth :: "obj \<Rightarrow> obj" where
  "own_auth auth = map (\<lambda>k. (k, get auth k)) [''email'', ''password'', ''isSubAccount'', ''token'']"

subsection \<open>Signing up\<close>

record sign_opts =
  soActive :: jsval
  soDataFromDb :: jsval
  soSubAccount :: bool
  soSubUser :: bool
  soNoKeyCheck :: bool
  soFullUser :: bool
  soNotSetSession :: bool
  soMasterUserId :: jsval

definition sign_opts0 :: sign_opts where
  "sign_opts0 = \<lparr>soActive = VBool True, soDataFromDb = VBool True, soSubAccount = False, soSubUser = False,
     soNoKeyCheck = False, soFullUser = False, soNotSetSession = False, soMasterUserId = VUndef\<rparr>"

definition new_user_data ::
  "auth_env \<Rightarrow> sign_opts \<Rightarrow> obj \<Rightarrow> obj \<Rightarrow> obj \<Rightarrow> string \<Rightarrow> jsval \<times> jsval \<times> jsval \<times> jsval \<Rightarrow> obj" where
  "new_user_data env so auth params apiUser username creds =
     (case creds of (passwordHash, token, key, secret) \<Rightarrow>
       [(''email'', get apiUser ''email''), (''timezone'', get apiUser ''timezone''), (''username'', VStr username),
        (''id'', get apiUser ''id''), (''isUserMerchant'', get apiUser ''isUserMerchant''),
        (''authToken'', token), (''apiKey'', key), (''apiSecret'', secret), (''active'', soActive so),
        (''isDataFromDb'', soDataFromDb so), (''isSubAccount'', VBool (soSubAccount so)),
        (''isSubUser'', VBool (soSubUser so)), (''passwordHash'', passwordHash),
        (''isNotProtected'', default_val (VBool False) (get auth ''isNotProtected'')),
        (''shouldNotSyncOnStartupAfterUpdate'', VNum 0), (''isSyncOnStartupRequired'', VNum 0),
        (''authTokenTTLSec'', default_val VNull (get params ''authTokenTTLSec'')),
        (''localUsername'', default_val VNull (get params ''localUsername'')),
        (''isStagingBfxApi'', VBool (isStagingBfxApi env))])"

definition secret_or :: "auth_env \<Rightarrow> jsval \<Rightarrow> jsval \<Rightarrow> jsval" where
  "secret_or env isNotProtected password = (if truthy isNotProtected then VStr (ncSecretKey (aeCrypto env)) else password)"

definition store_new_user ::
  "auth_env \<Rightarrow> obj \<Rightarrow> obj \<Rightarrow> sign_opts \<Rightarrow> jsval \<Rightarrow> jsval \<Rightarrow> obj \<Rightarrow> string \<Rightarrow> obj auth_action" where
  "store_new_user env auth params so password authToken apiUser username =
     and_then (if soNoKeyCheck so then give VNull
       else getUser env [(''email'', get apiUser ''email''), (''username'', VStr username),
              (''isSubAccount'', VBool (soSubAccount so)), (''isSubUser'', VBool (soSubUser so))] user_opts0) (\<lambda>userFromDb.
     and_then (throw_if (has_integer_id userFromDb) User_Was_Previously_Stored_In_Db_Error) (\<lambda>_.
     and_then (getEncryptedCredentials env authToken (get auth ''apiKey'') (get auth ''apiSecret'') (text_of password)) (\<lambda>creds.
     and_then (createUser env (new_user_data env so auth params apiUser username creds)) (\<lambda>user.
     and_then (draw_uuid env) (\<lambda>token.
     let fullUserData = merge_obj user [(''subUsers'', VArr []), (''authToken'', authToken), (''apiKey'', get auth ''apiKey''),
           (''apiSecret'', get auth ''apiSecret''), (''password'', password), (''token'', token)] in
     and_then (if soNotSetSession so then give () else change_state (setUserSession env fullUserData)) (\<lambda>_.
       give (if soFullUser so then fullUserData
             else [(''email'', get apiUser ''email''), (''isSubAccount'', get user ''isSubAccount''), (''token'', token),
                   (''isUserMerchant'', get user ''isUserMerchant'')])))))))"

definition signUp :: "auth_env \<Rightarrow> obj \<Rightarrow> obj \<Rightarrow> sign_opts \<Rightarrow> obj auth_action" where
  "signUp env auth params so =
     (let password = secret_or env (get auth ''isNotProtected'') (get auth ''password'');
          localUsername = get params ''localUsername''
      in
      and_then (throw_if (hasNotCredentials (get auth ''authToken'') (get auth ''apiKey'') (get auth ''apiSecret'') password
          (soSubAccount so) (soSubUser so) \<or> \<not> soNoKeyCheck so \<and> isSubAccountApiKeys auth) Auth_Error) (\<lambda>_.
      and_then (throw_if (isAuthTokenTTLInvalid (get params ''authTokenTTLSec'')) Auth_Token_TTL_Setting_Error) (\<lambda>_.
      and_then (throw_if (truthy localUsername \<and> \<not> soSubAccount so \<or> isLocalUsernameInvalid localUsername) Args_Params_Error) (\<lambda>_.
      and_then (lift_result (if truthy (get auth ''authToken'')
          then generateAuthToken env [(''authToken'', get auth ''authToken''),
                 (''authTokenTTLSec'', default_val VNull (get params ''authTokenTTLSec''))]
          else Inr (get auth ''authToken''))) (\<lambda>authToken.
      and_then (lift_result (if soNoKeyCheck so then Inr auth else aeCheckAuthRetried env auth)) (\<lambda>apiUser.
      and_then (throw_if (\<not> is_text (get apiUser ''email'')) Auth_Error) (\<lambda>_.
        store_new_user env auth params so password authToken apiUser
          (generateSubUserName env (get apiUser ''username'') (soMasterUserId so) (soSubAccount so) (soSubUser so)))))))))"

end
