(* ===== verification/Auth_Flows.thy ===== *)
theory Auth_Flows
  imports Auth_Ops
begin

text \<open>
  \<^verbatim>\<open>sync/authenticator/index.js\<close>, continued: signing in and out, recovery of a password, updates and
  removal of a user, and what the timers do.
\<close>

subsection \<open>Signing in\<close>

definition emit_auth_required :: "obj \<Rightarrow> auth_state \<Rightarrow> auth_state" where
  "emit_auth_required user s = s\<lparr>authRequired := authRequired s @ [user]\<rparr>"

definition own_row :: "auth_env \<Rightarrow> obj \<Rightarrow> obj \<Rightarrow> bool" where
  "own_row env user row = user_matches env [(''_id'', get user ''_id''), (''email'', get user ''email'')] row"

text \<open>Node's \<^verbatim>\<open>scrypt\<close> refuses a password that is no text.\<close>

definition encrypt_checked :: "auth_env \<Rightarrow> jsval \<Rightarrow> jsval \<Rightarrow> jsval auth_action" where
  "encrypt_checked env v password =
     (if is_string password then encrypt_val env v (text_of password) else throw Type_Error)"

definition fresh_user_data :: "auth_env \<Rightarrow> sign_opts \<Rightarrow> obj \<Rightarrow> obj \<Rightarrow> jsval \<Rightarrow> obj" where
  "fresh_user_data env so user userData newAuthToken =
     [(''id'', get userData ''id''), (''timezone'', get userData ''timezone''),
      (''username'', VStr (generateSubUserName env (get userData ''username'') VUndef (truthy (get user ''isSubAccount'')) False)),
      (''email'', get userData ''email''),
      (''active'', if soActive so = VNull then get user ''active'' else soActive so),
      (''isDataFromDb'', if soDataFromDb so = VNull then get user ''isDataFromDb'' else soDataFromDb so),
      (''isStagingBfxApi'', get userData ''isStagingBfxApi''),
      (''isUserMerchant'', VBool (truthy (get userData ''isUserMerchant'')))]
     @ (if truthy newAuthToken then [(''authToken'', newAuthToken)] else [])"

definition sub_user_ids :: "obj \<Rightarrow> jsval list" where
  "sub_user_ids user = (case get user ''subUsers'' of
       VArr sus \<Rightarrow> map (\<lambda>su. get (spread su) ''_id'') sus | _ \<Rightarrow> [])"

text \<open>A network error leaves the stored data in place of the fresh ones.\<close>

definition check_or_stored :: "auth_env \<Rightarrow> obj \<Rightarrow> obj \<Rightarrow> auth_error + obj" where
  "check_or_stored env user keys = (case aeCheckAuth env keys of
       Inr d \<Rightarrow> Inr (put d ''isStagingBfxApi'' (VBool (isStagingBfxApi env)))
     | Inl e \<Rightarrow> if aeIsENetError env e then Inr user else Inl e)"

definition existed_token :: "auth_env \<Rightarrow> obj \<Rightarrow> auth_state \<Rightarrow> jsval" where
  "existed_token env auth s = (if is_text (get auth ''token'') then get auth ''token''
     else get (getUserSessionByEmail env auth False s) ''token'')"

definition token_or_new :: "auth_env \<Rightarrow> jsval \<Rightarrow> jsval auth_action" where
  "token_or_new env existed = (if is_text existed then give existed else draw_uuid env)"

definition set_session_token :: "jsval \<Rightarrow> jsval \<Rightarrow> unit auth_action" where
  "set_session_token token authToken s = (case map_of (userSessions s) token of
       None \<Rightarrow> (Inl Type_Error, s)
     | Some se \<Rightarrow> (Inr (), set_session token (se\<lparr>seData := put (seData se) ''authToken'' authToken\<rparr>) s))"

definition store_session :: "auth_env \<Rightarrow> sign_opts \<Rightarrow> obj \<Rightarrow> jsval \<Rightarrow> jsval \<Rightarrow> bool \<Rightarrow> jsval \<Rightarrow> unit auth_action" where
  "store_session env so refreshedUser createdToken newAuthToken isTokenExisted authToken =
     and_then (if soNotSetSession so then give ()
        else change_state (setUserSession env (put refreshedUser ''token'' createdToken))) (\<lambda>_.
     and_then (if truthy newAuthToken \<and> isTokenExisted \<and> soNotSetSession so
        then set_session_token createdToken newAuthToken else give ()) (\<lambda>_.
       if truthy authToken then setupAuthTokenInvalidateInterval createdToken authToken else give ()))"

definition new_token :: "auth_env \<Rightarrow> obj \<Rightarrow> obj \<Rightarrow> jsval auth_action" where
  "new_token env auth user =
     (if truthy (get user ''authToken'')
      then try_catch (lift_result (generateAuthToken env
               (put user ''authToken'' (coalesce (get auth ''authToken'') (get user ''authToken'')))))
             (\<lambda>e. and_then (change_state (emit_auth_required user)) (\<lambda>_. throw e))
      else give VNull)"

definition signIn :: "auth_env \<Rightarrow> obj \<Rightarrow> sign_opts \<Rightarrow> obj auth_action" where
  "signIn env auth so =
     and_then (verifyUser env (own_auth auth) (verify_opts0\<lparr>voUser := user_opts0\<lparr>uoFilled := True\<rparr>,
        voDecrypted := True, voReturnedPassword := True\<rparr>)) (\<lambda>user.
     and_then (new_token env auth user) (\<lambda>newAuthToken.
     and_then (if truthy (get user ''authToken'') then encrypt_checked env newAuthToken (get user ''password'')
        else give VNull) (\<lambda>encryptedAuthToken.
     and_then (lift_result (check_or_stored env user [(''authToken'', newAuthToken), (''apiKey'', get user ''apiKey''),
        (''apiSecret'', get user ''apiSecret'')])) (\<lambda>userData.
     let freshUserData = fresh_user_data env so user userData newAuthToken in
     and_then (update_users env (own_row env user) (merge_obj freshUserData
        (if truthy encryptedAuthToken then [(''authToken'', encryptedAuthToken)] else []))) (\<lambda>changes.
     and_then (if truthy (get auth ''isSubAccount'') \<and> sub_user_ids user \<noteq> []
        then update_users env (\<lambda>row. get row ''_id'' \<in> set (sub_user_ids user))
               [(''isStagingBfxApi'', get userData ''isStagingBfxApi'')]
        else give 0) (\<lambda>_.
     and_then (throw_if (changes < 1) Auth_Error) (\<lambda>_.
     let refreshedUser = merge_obj user freshUserData in
     and_then (read_state (existed_token env auth)) (\<lambda>existed.
     and_then (token_or_new env existed) (\<lambda>createdToken.
     and_then (store_session env so refreshedUser createdToken newAuthToken (is_text existed) (get user ''authToken'')) (\<lambda>_.
       give (merge_obj (if soFullUser so then refreshedUser else [])
         [(''email'', get userData ''email''), (''isUserMerchant'', VBool (truthy (get userData ''isUserMerchant''))),
          (''isSubAccount'', get user ''isSubAccount''), (''token'', createdToken),
          (''shouldNotSyncOnStartupAfterUpdate'', get user ''shouldNotSyncOnStartupAfterUpdate''),
          (''isSyncOnStartupRequired'', get user ''isSyncOnStartupRequired''),
          (''authTokenTTLSec'', get user ''authTokenTTLSec''), (''localUsername'', get user ''localUsername'')])))))))))))"

subsection \<open>Signing out\<close>

definition disable_sync :: "unit auth_action" where
  "disable_sync = change_state (\<lambda>s. s\<lparr>schedulerEnabled := False, syncStops := Suc (syncStops s)\<rparr>)"

definition signOut :: "auth_env \<Rightarrow> obj \<Rightarrow> jsval \<Rightarrow> bool auth_action" where
  "signOut env auth active =
     and_then (verifyUser env (own_auth auth) verify_opts0) (\<lambda>user.
     and_then (read_state schedulerEnabled) (\<lambda>isSchedulerEnabled.
     and_then disable_sync (\<lambda>_.
     and_then (update_users env (own_row env user) [(''active'', active)]) (\<lambda>changes.
     and_then (throw_if (changes < 1) Auth_Error) (\<lambda>_.
     and_then (change_state (processInterrupters env user VUndef)) (\<lambda>_.
     and_then (change_state (\<lambda>s. snd (removeUserSession env auth s))) (\<lambda>_.
     and_then (if isSchedulerEnabled then change_state (\<lambda>s. s\<lparr>schedulerEnabled := True\<rparr>) else give ()) (\<lambda>_.
       give True))))))))"

subsection \<open>Recovery\<close>

definition recover_data :: "auth_env \<Rightarrow> sign_opts \<Rightarrow> obj \<Rightarrow> obj \<Rightarrow> obj \<Rightarrow> jsval \<Rightarrow> obj" where
  "recover_data env so auth apiUser userFromDb passwordHash =
     [(''id'', get apiUser ''id''), (''timezone'', get apiUser ''timezone''),
      (''username'', VStr (generateSubUserName env (get apiUser ''username'') VUndef
         (truthy (get auth ''isSubAccount'')) (soSubUser so))),
      (''email'', get apiUser ''email''), (''isUserMerchant'', VBool (truthy (get apiUser ''isUserMerchant''))),
      (''authToken'', get auth ''authToken''), (''apiKey'', get auth ''apiKey''), (''apiSecret'', get auth ''apiSecret''),
      (''passwordHash'', passwordHash),
      (''active'', if soActive so = VNull then get userFromDb ''active'' else soActive so),
      (''isDataFromDb'', if soDataFromDb so = VNull then get userFromDb ''isDataFromDb'' else soDataFromDb so)]"

definition recoverPassword :: "auth_env \<Rightarrow> obj \<Rightarrow> sign_opts \<Rightarrow> obj auth_action" where
  "recoverPassword env auth so =
     (let password = secret_or env (get auth ''isNotProtected'') (get auth ''newPassword'');
          isSubAccount = default_val (VBool False) (get auth ''isSubAccount'')
      in
      and_then (throw_if (hasNotCredentials (get auth ''authToken'') (get auth ''apiKey'') (get auth ''apiSecret'') password
         (truthy isSubAccount) (soSubUser so)) Auth_Error) (\<lambda>_.
      and_then (lift_result (aeCheckAuthRetried env auth)) (\<lambda>apiUser.
      and_then (throw_if (\<not> is_text (get apiUser ''email'')) Auth_Error) (\<lambda>_.
      and_then (getUser env [(''email'', get apiUser ''email''), (''isSubAccount'', isSubAccount),
         (''isSubUser'', VBool (soSubUser so))] (user_opts0\<lparr>uoFilled := True\<rparr>)) (\<lambda>fromDb.
      and_then (throw_if (\<not> has_integer_id fromDb) Auth_Error) (\<lambda>_.
      and_then (getEncryptedCredentials env (get auth ''authToken'') (get auth ''apiKey'') (get auth ''apiSecret'')
         (text_of password)) (\<lambda>(passwordHash, token, key, secret).
      let userFromDb = spread fromDb; freshUserData = recover_data env so auth apiUser userFromDb passwordHash in
      and_then (update_users env (user_matches env [(''_id'', get userFromDb ''_id''), (''email'', get apiUser ''email'')])
         (merge_obj freshUserData [(''isNotProtected'', default_val (VBool False) (get auth ''isNotProtected'')),
            (''authToken'', token), (''apiKey'', key), (''apiSecret'', secret)])) (\<lambda>changes.
      and_then (throw_if (changes < 1) Auth_Error) (\<lambda>_.
      let refreshedUser = merge_obj userFromDb freshUserData; returnedUser = (if soFullUser so then refreshedUser else []) in
      if soSubUser so then give returnedUser
      else
      and_then (read_state (\<lambda>s. get (getUserSessionByEmail env
         [(''email'', get apiUser ''email''), (''isSubAccount'', isSubAccount)] False s) ''token'')) (\<lambda>existed.
      and_then (token_or_new env existed) (\<lambda>createdToken.
      and_then (change_state (setUserSession env (put refreshedUser ''token'' createdToken))) (\<lambda>_.
        give (merge_obj returnedUser [(''email'', get apiUser ''email''), (''isSubAccount'', isSubAccount),
          (''token'', createdToken)])))))))))))))"

subsection \<open>Updating and removing\<close>

definition removeUser :: "auth_env \<Rightarrow> obj \<Rightarrow> bool auth_action" where
  "removeUser env auth =
     and_then (verifyUser env (own_auth auth) verify_opts0) (\<lambda>user.
     and_then (throw_if (aeSyncInProgress env) User_Removing_During_Sync_Error) (\<lambda>_.
     and_then (delete_users (own_row env user)) (\<lambda>changes.
     and_then (throw_if (changes < 1) User_Removing_Error) (\<lambda>_.
     and_then (change_state (\<lambda>s. snd (removeUserSession env auth s))) (\<lambda>_. give True)))))"

definition updatable_props :: "string list" where
  "updatable_props = [''shouldNotSyncOnStartupAfterUpdate'', ''isSyncOnStartupRequired'', ''authTokenTTLSec'', ''localUsername'']"

text \<open>A session that is not there makes \<^verbatim>\<open>Object.assign(undefined, ...)\<close> fail.\<close>

definition assign_session :: "jsval \<Rightarrow> obj \<Rightarrow> unit auth_action" where
  "assign_session token data s = (case map_of (userSessions s) token of
       None \<Rightarrow> (Inl Type_Error, s)
     | Some se \<Rightarrow> (Inr (), set_session token (se\<lparr>seData := merge_obj (seData se) data\<rparr>) s))"

definition updateUser :: "auth_env \<Rightarrow> obj \<Rightarrow> obj \<Rightarrow> bool auth_action" where
  "updateUser env auth params =
     (let freshUserData = aePick env params updatable_props; localUsername = get freshUserData ''localUsername'' in
      and_then (verifyUser env (own_auth auth) verify_opts0) (\<lambda>user.
      if freshUserData = [] then give False
      else
      and_then (throw_if (isAuthTokenTTLInvalid (get freshUserData ''authTokenTTLSec'')) Auth_Token_TTL_Setting_Error) (\<lambda>_.
      and_then (throw_if (truthy localUsername \<and> \<not> truthy (get user ''isSubAccount'')
         \<or> isLocalUsernameInvalid localUsername) Args_Params_Error) (\<lambda>_.
      and_then (update_users env (own_row env user) freshUserData) (\<lambda>changes.
      and_then (throw_if (changes < 1) User_Updating_Error) (\<lambda>_.
      and_then (read_state (existed_token env auth)) (\<lambda>existed.
      and_then (if is_text existed then assign_session existed freshUserData else give ()) (\<lambda>_.
        give True))))))))"

subsection \<open>What the timers do\<close>

definition session_password :: "auth_env \<Rightarrow> obj \<Rightarrow> string" where
  "session_password env data = (if is_text (get data ''password'') then text_of (get data ''password'')
     else ncSecretKey (aeCrypto env))"

definition refresh_body :: "auth_env \<Rightarrow> jsval \<Rightarrow> unit auth_action" where
  "refresh_body env token =
     and_then (read_state (\<lambda>s. session_data s token)) (\<lambda>data.
     and_then (lift_result (generateAuthToken env data)) (\<lambda>newAuthToken.
     and_then (encrypt_val env newAuthToken (session_password env data)) (\<lambda>encryptedAuthToken.
     and_then (update_users env (own_row env data) [(''authToken'', encryptedAuthToken)]) (\<lambda>changes.
     and_then (throw_if (changes < 1) Auth_Token_Generation_Error) (\<lambda>_.
     and_then (set_session_token token newAuthToken) (\<lambda>_.
       if truthy (get data ''authToken'') then setupAuthTokenInvalidateInterval token (get data ''authToken'')
       else give ()))))))"

definition refresh_tick :: "auth_env \<Rightarrow> nat \<Rightarrow> jsval \<Rightarrow> obj \<Rightarrow> unit auth_action" where
  "refresh_tick env i token user = try_catch (refresh_body env token) (\<lambda>e.
     change_state (\<lambda>s. emit_auth_required user (if aeIsAuthError env e then clear_timer (Some i) s else s)))"

text \<open>Three attempts; then the timer gives up.\<close>

definition invalidate_tick :: "auth_env \<Rightarrow> nat \<Rightarrow> jsval \<Rightarrow> jsval \<Rightarrow> session \<Rightarrow> nat \<Rightarrow> auth_state \<Rightarrow> auth_state" where
  "invalidate_tick env i token authToken userSession attempts s =
     (let se = nullish (map_of (userSessions s) token) userSession;
          s1 = s\<lparr>invalidated := invalidated s @ [authToken]\<rparr>;
          forget = (\<lambda>st. case map_of (userSessions st) token of None \<Rightarrow> st
             | Some se \<Rightarrow> set_session token (se\<lparr>seInvalidate := AList.delete authToken (seInvalidate se)\<rparr>) st)
      in if invalidateAuthToken env (seData se) authToken \<or> Suc attempts \<ge> 3 then forget (clear_timer (Some i) s1)
         else s1\<lparr>timers := AList.update i (Invalidate_Timer token authToken userSession (Suc attempts)) (timers s1)\<rparr>)"

definition run_timer :: "auth_env \<Rightarrow> nat \<Rightarrow> auth_state \<Rightarrow> auth_state" where
  "run_timer env i s = (case map_of (timers s) i of
       None \<Rightarrow> s
     | Some (Refresh_Timer token user) \<Rightarrow> snd (refresh_tick env i token user s)
     | Some (Invalidate_Timer token authToken se attempts) \<Rightarrow> invalidate_tick env i token authToken se attempts s)"

end
