(* ===== verification/Auth_Props.thy ===== *)
theory Auth_Props
  imports Auth_Flows Db_Dml_Props
begin

text \<open>
  What holds of the authenticator: a verified user knows the password of a stored row, a session hides
  its password and ends with its removal, and what is stored can be read back.
\<close>

subsection \<open>Stored rows and users\<close>

definition plain_column :: "string \<Rightarrow> bool" where
  "plain_column k \<longleftrightarrow> k \<notin> set user_flags \<and> k \<notin> set [''haveSubUsers'', ''subUsers'', ''authToken'', ''apiKey'', ''apiSecret'']"

lemma hd_fillSubUsers: "hd (fillSubUsers [user] subs) = put user ''subUsers'' (VArr (map VObj
    (filter (\<lambda>su. is_integer (get su ''masterUserId'') \<and> get su ''masterUserId'' = get user ''_id'') subs)))"
  by (simp add: fillSubUsers_def)

lemma joined_user_get:
  assumes "k \<notin> set user_flags" "k \<noteq> ''haveSubUsers''" "k \<noteq> ''subUsers''"
  shows "get (joined_user s filled row) k = get row k"
  using assms by (simp add: joined_user_def Let_def hd_fillSubUsers get_normalizeUser)

lemma pick_user_plain [simp]: "uoProjection uo = [] \<Longrightarrow> pick_user env uo data = data"
  by (simp add: pick_user_def pickProps_def)

lemma decrypt_user_get:
  assumes "decrypt_user env password user = Inr user'" "k \<notin> set [''authToken'', ''apiKey'', ''apiSecret'']"
  shows "get (spread user') k = get (spread user) k"
  using assms by (auto simp: decrypt_user_def Let_def bind_err_eq_Inr get_merge_other)

lemma first_user_cases: "first_user us = VUndef \<or> (\<exists>u\<in>set us. first_user us = VObj u)"
  by (cases us) auto

lemma getUser_stored:
  assumes "getUser env flt (user_opts0\<lparr>uoFilled := filled, uoPassword := pw\<rparr>) s = (Inr user, s')"
  shows "s' = s \<and> ((\<nexists>k. plain_column k \<and> get (spread user) k \<noteq> VUndef) \<or>
    (\<exists>row\<in>set (usersTable s). user_matches env flt row \<and> (\<forall>k. plain_column k \<longrightarrow> get (spread user) k = get row k)))"
proof -
  define u where "u = first_user (dao_users env flt filled s)"
  have s': "s' = s" using assms by (auto simp: getUser_def Let_def split: if_splits)
  note res = assms[unfolded s']
  have plain: "get (spread user) k = get (spread u) k" if "plain_column k" for k
  proof (cases "is_text pw")
    case False
    then have "user = u" using res by (simp add: getUser_def user_opts0_def u_def)
    then show ?thesis by simp
  next
    case True
    have kn: "k \<notin> set [''authToken'', ''apiKey'', ''apiSecret'']" "k \<noteq> ''subUsers''"
      using that by (auto simp: plain_column_def)
    have nonarr: "decryptApiKeys env x u = decrypt_user env x u" for x
      using first_user_cases[of "dao_users env flt filled s"] by (auto simp: u_def decryptApiKeys_def)
    from True res obtain d where d: "decrypt_user env (text_of pw) u = Inr d"
      and user: "user = d \<or> (\<exists>v. user = VObj (put (spread d) ''subUsers'' v))"
      by (auto simp: getUser_def user_opts0_def u_def[symmetric] nonarr bind_err_eq_Inr split: if_splits)
    show ?thesis using user decrypt_user_get[OF d kn(1)] kn(2) by auto
  qed
  have "(\<nexists>k. plain_column k \<and> get (spread user) k \<noteq> VUndef) \<or>
    (\<exists>row\<in>set (usersTable s). user_matches env flt row \<and> (\<forall>k. plain_column k \<longrightarrow> get (spread user) k = get row k))"
  proof (cases "u = VUndef")
    case True
    then show ?thesis using plain by auto
  next
    case False
    then obtain row where "row \<in> set (usersTable s)" "user_matches env flt row" "u = VObj (joined_user s filled row)"
      using first_user_cases[of "dao_users env flt filled s"] by (auto simp: u_def dao_users_def)
    then show ?thesis using plain joined_user_get by (auto simp: plain_column_def)
  qed
  with s' show ?thesis by blast
qed

lemma verifyPassword_undefined: "verifyPassword nc p VUndef \<noteq> Inr ()"
  by (simp add: verifyPassword_def Let_def)

text \<open>
  C23: a user that is verified by e-mail has given the password whose hash is stored in a row with that
  e-mail and of that kind (the secret key stands in for no password); one verified by a token has a
  session under it that holds keys.
\<close>

theorem verifyUser_sound:
  assumes "verifyUser env auth vo s = (Inr user, s')"
  shows "s' = s \<and>
    (if is_text (get auth ''email'') \<and> (is_text (get auth ''password'') \<or> ncSecretKey (aeCrypto env) \<noteq> [])
     then \<exists>row\<in>set (usersTable s). get row ''email'' = get auth ''email''
       \<and> get row ''isSubAccount'' = column env (default_val (VBool False) (get auth ''isSubAccount''))
       \<and> verifyPassword (aeCrypto env) (if is_text (get auth ''password'') then text_of (get auth ''password'')
           else ncSecretKey (aeCrypto env)) (get row ''passwordHash'') = Inr ()
     else is_text (get auth ''token'') \<and> (let session = getUserSessionByToken env (get auth ''token'') (voReturnedPassword vo) s in
       truthy (get session ''authToken'') \<or> is_text (get session ''apiKey'') \<and> is_text (get session ''apiSecret'')))"
proof -
  define pw where "pw = (if is_text (get auth ''password'') then text_of (get auth ''password'')
                      else ncSecretKey (aeCrypto env))"
  have pw_Nil: "pw = [] \<longleftrightarrow> \<not> (is_text (get auth ''password'') \<or> ncSecretKey (aeCrypto env) \<noteq> [])"
    by (auto simp: pw_def is_text_def text_of_def split: jsval.splits)
  show ?thesis
  proof (cases "is_text (get auth ''email'') \<and> pw \<noteq> []")
    case True
    define flt where "flt = [(''email'', get auth ''email''),
             (''isSubAccount'', default_val (VBool False) (get auth ''isSubAccount'')),
             (''isSubUser'', VBool (voSubUser vo))]"
    from True assms obtain u where u: "getUser env flt (user_opts0\<lparr>uoFilled := uoFilled (voUser vo),
          uoPassword := (if voDecrypted vo then VStr pw else VUndef)\<rparr>) s = (Inr u, s')"
      and ok: "verifyPassword (aeCrypto env) pw (get (spread u) ''passwordHash'') = Inr ()"
      by (auto simp: verifyUser_def Let_def pw_def[symmetric] flt_def[symmetric] and_then_Inr)
    have hash: "plain_column ''passwordHash''" by (simp add: plain_column_def user_flags_def)
    from ok have "get (spread u) ''passwordHash'' \<noteq> VUndef" using verifyPassword_undefined by metis
    with getUser_stored[OF u] hash obtain row where row: "s' = s" "row \<in> set (usersTable s)" "user_matches env flt row"
      "get (spread u) ''passwordHash'' = get row ''passwordHash''" by blast
    have "column env (get auth ''email'') = get auth ''email''"
      using True by (auto simp: is_text_def column_def split: jsval.splits)
    then have "get row ''email'' = get auth ''email''"
      "get row ''isSubAccount'' = column env (default_val (VBool False) (get auth ''isSubAccount''))"
      using row(3) by (simp_all add: user_matches_def flt_def)
    then show ?thesis using True row ok pw_Nil by (auto simp: pw_def)
  next
    case False
    then show ?thesis using assms pw_Nil
      by (auto simp: verifyUser_def Let_def pw_def[symmetric] and_then_Inr split: if_splits)
  qed
qed

subsection \<open>Sessions\<close>

lemma pick_okD:
  assumes "pick_ok pick"
  shows "get (pick ob ks) k = (if k \<in> set ks then get ob k else VUndef)"
proof (cases "k \<in> set ks")
  case False
  then have "k \<notin> fst ` set (pick ob ks)" using assms by (auto simp: pick_ok_def)
  then show ?thesis using False by (simp add: get_absent)
qed (use assms in \<open>simp add: pick_ok_def\<close>)

lemma pick_item_plain: "pick_item env ps False qs v = (if is_object v then VObj (aePick env (spread v) ps) else v)"
  by (cases "get (spread v) ''subUsers''") (simp_all add: pick_item_def split: list.split)

lemma pickSessionProps_get:
  assumes "pick_ok (aePick env)"
  shows "get (pickSessionProps env data r) k = (if k \<notin> set (session_props r) then VUndef
    else if k = ''subUsers'' then pickProps env (get data ''subUsers'') (session_props r) False (session_props r)
    else get data k)"
proof -
  have "pickSessionProps env data r = aePick env (put data ''subUsers''
      (pickProps env (get data ''subUsers'') (session_props r) False (session_props r))) (session_props r)"
    by (simp add: pickSessionProps_def Let_def pickProps_def pick_item_plain) (simp add: session_props_def)
  then show ?thesis using assms by (simp add: pick_okD)
qed

text \<open>The sub-users of a user as a list.\<close>

definition sub_users_of :: "obj \<Rightarrow> jsval list" where
  "sub_users_of user = filter is_object (case get user ''subUsers'' of VArr xs \<Rightarrow> xs | v \<Rightarrow> [v])"

text \<open>
  Without being asked for it, a session gives away neither its password nor the hash of it, nor those of
  its sub-users.
\<close>

theorem session_hides_password:
  assumes "pick_ok (aePick env)" "k = ''password'' \<or> k = ''passwordHash''"
  shows "get (getUserSessionByToken env token False s) k = VUndef \<and>
    list_all (\<lambda>su. get (spread su) k = VUndef) (sub_users_of (getUserSessionByToken env token False s))"
proof -
  have k: "k \<notin> set (session_props False)" "''subUsers'' \<in> set (session_props False)"
    using assms(2) by (auto simp: session_props_def)
  have item: "get (spread (pick_item env (session_props False) False ps v)) k = VUndef" if "is_object v" for v ps
    using that k assms(1) by (simp add: pick_item_plain pick_okD)
  define su where "su = get (session_data s token) ''subUsers''"
  have ne: "session_props False \<noteq> []" by (simp add: session_props_def)
  have "list_all (\<lambda>su. get (spread su) k = VUndef)
     (filter is_object (case pickProps env su (session_props False) False (session_props False) of VArr xs \<Rightarrow> xs | v \<Rightarrow> [v]))"
    using k assms(1) ne
    by (cases su) (auto simp: pickProps_def pick_item_plain pick_okD list_all_iff)
  then show ?thesis using k
    by (simp add: getUserSessionByToken_def pickSessionProps_get[OF assms(1)] sub_users_of_def su_def)
qed

lemma clear_timer_simps [simp]:
  "userSessions (clear_timer t s) = userSessions s" "userTokenMapByEmail (clear_timer t s) = userTokenMapByEmail s"
  "nextTimer (clear_timer t s) = nextTimer s" "invalidated (clear_timer t s) = invalidated s"
  "usersTable (clear_timer t s) = usersTable s" "nextUserId (clear_timer t s) = nextUserId s"
  "map_of (timers (clear_timer t s)) i = (if t = Some i then None else map_of (timers s) i)"
  by (auto simp: clear_timer_def delete_conv split: option.split)

lemma silence_all:
  "foldl (\<lambda>st (authToken, i). (clear_timer (Some i) st)\<lparr>invalidated := invalidated st @ [authToken]\<rparr>) s xs =
   s\<lparr>timers := foldl (\<lambda>t i. AList.delete i t) (timers s) (map snd xs), invalidated := invalidated s @ map fst xs\<rparr>"
  by (induction xs arbitrary: s) (auto simp: clear_timer_def)

lemma deleted_timers:
  "map_of (foldl (\<lambda>t i. AList.delete i t) ts is) j = (if j \<in> set is then None else map_of ts j)"
  by (induction "is" arbitrary: ts) (auto simp: delete_conv)


end
