(* ===== verification/Auth_Stored.thy ===== *)
theory Auth_Stored
  imports Auth_Props
begin

text \<open>
  The invariant of the stored users, over every operation of the authenticator and every timer.
\<close>

subsection \<open>The invariant\<close>

definition ttl_ok :: "jsval \<Rightarrow> bool" where
  "ttl_ok v = (case v of VNull \<Rightarrow> True
     | VNum x \<Rightarrow> is_integer v \<and> minAuthTokenTTLSec \<le> x \<and> x \<le> maxAuthTokenTTLSec | _ \<Rightarrow> False)"

definition row_ok :: "nat \<Rightarrow> obj \<Rightarrow> bool" where
  "row_ok n row \<longleftrightarrow> keys_valid row \<and> ttl_ok (get row ''authTokenTTLSec'') \<and> (\<exists>i<n. get row ''_id'' = VNum (of_nat i))"

definition stored_ok :: "auth_state \<Rightarrow> bool" where
  "stored_ok s \<longleftrightarrow> (\<forall>row\<in>set (usersTable s). row_ok (nextUserId s) row) \<and> names_unique (usersTable s)
     \<and> distinct (map (\<lambda>row. get row ''_id'') (usersTable s))"

lemma stored_ok_cong: "usersTable s' = usersTable s \<Longrightarrow> nextUserId s' = nextUserId s \<Longrightarrow> stored_ok s' = stored_ok s"
  by (simp add: stored_ok_def)

lemma valid_ttl: "\<not> isAuthTokenTTLInvalid v \<Longrightarrow> ttl_ok (column env v)"
  by (auto simp: isAuthTokenTTLInvalid_def ttl_ok_def column_def split: jsval.splits)

subsection \<open>Rows\<close>

lemma get_map_keys: "get (map (\<lambda>c. (c, f c)) cs) k = (if k \<in> set cs then f k else VUndef)"
  by (induction cs) auto

lemma get_user_row: "get (user_row env userId data) k =
  (if k \<notin> set user_columns then VUndef else if k = ''_id'' then userId else column env (get data k))"
  by (simp add: user_row_def get_map_keys)

lemma write_row_merge: "write_row env data row = merge_obj row (map (\<lambda>(k, v). (k, column env v)) data)"
  by (induction data arbitrary: row) (auto simp: write_row_def merge_obj_def)

lemma get_map_column: "k \<in> fst ` set data \<Longrightarrow> get (map (\<lambda>(k, v). (k, column env v)) data) k = column env (get data k)"
proof (induction data)
  case (Cons kv data)
  then show ?case by (cases kv) auto
qed simp

lemma map_column_keys: "map fst (map (\<lambda>(k, v). (k, column env v)) data) = map fst data"
  by (auto simp: case_prod_beta)

lemma get_write_row:
  assumes "distinct (map fst data)"
  shows "get (write_row env data row) k = (if k \<in> fst ` set data then column env (get data k) else get row k)"
proof -
  have "distinct (map fst (map (\<lambda>(k, v). (k, column env v)) data))" using assms by (simp only: map_column_keys)
  moreover have "fst ` set (map (\<lambda>(k, v). (k, column env v)) data) = fst ` set data"
    by (metis map_column_keys set_map)
  ultimately show ?thesis by (simp add: write_row_merge get_merge get_map_column)
qed

definition data_ok :: "obj \<Rightarrow> bool" where
  "data_ok data \<longleftrightarrow> distinct (map fst data) \<and> ''_id'' \<notin> fst ` set data
     \<and> (''authTokenTTLSec'' \<notin> fst ` set data \<or> \<not> isAuthTokenTTLInvalid (get data ''authTokenTTLSec''))"

lemma write_row_ok:
  assumes "row_ok n row" "data_ok data" "keys_valid (write_row env data row)"
  shows "row_ok n (write_row env data row)" "get (write_row env data row) ''_id'' = get row ''_id''"
  using assms by (auto simp: row_ok_def data_ok_def get_write_row valid_ttl)

lemma distinct_sub: "distinct (filter Q (map f xs)) \<Longrightarrow> distinct (filter Q (map f (filter P xs)))"
  by (induction xs) auto

lemma names_unique_filter: "names_unique rows \<Longrightarrow> names_unique (filter P rows)"
  unfolding names_unique_def by (rule distinct_sub)

lemma keeps_insert [keeps_rules]:
  assumes "\<not> isAuthTokenTTLInvalid (get data ''authTokenTTLSec'')"
  shows "keeps stored_ok (insert_user env data)"
proof -
  have "row_ok (Suc n) (user_row env (VNum (of_nat n)) data)" if "keys_valid (user_row env (VNum (of_nat n)) data)" for n
    using that assms by (auto simp: row_ok_def get_user_row valid_ttl user_columns_def)
  moreover have "get (user_row env v data) ''_id'' = v" for v by (simp add: get_user_row user_columns_def)
  moreover have "row_ok n row \<Longrightarrow> row_ok (Suc n) row" for n row by (auto simp: row_ok_def less_Suc_eq)
  moreover have "row_ok n row \<Longrightarrow> get row ''_id'' \<noteq> VNum (of_nat n)" for n row by (auto simp: row_ok_def)
  ultimately show ?thesis by (fastforce simp: keeps_def insert_user_def Let_def stored_ok_def)
qed

lemma keeps_update [keeps_rules]:
  assumes "data_ok data"
  shows "keeps stored_ok (update_users env hit data)"
proof -
  have "stored_ok (s\<lparr>usersTable := map (\<lambda>row. if hit row then write_row env data row else row) (usersTable s)\<rparr>)"
    if s: "stored_ok s" and k: "list_all keys_valid (map (write_row env data) (filter hit (usersTable s)))"
      and u: "names_unique (map (\<lambda>row. if hit row then write_row env data row else row) (usersTable s))" for s
  proof -
    have w: "row_ok (nextUserId s) (write_row env data row) \<and> get (write_row env data row) ''_id'' = get row ''_id''"
      if "row \<in> set (usersTable s)" "hit row" for row
      using that s k write_row_ok[OF _ assms, of "nextUserId s" row env] by (auto simp: stored_ok_def list_all_iff)
    then have ids: "map (\<lambda>row. get row ''_id'') (map (\<lambda>row. if hit row then write_row env data row else row) (usersTable s)) =
        map (\<lambda>row. get row ''_id'') (usersTable s)" by auto
    have R: "stored_ok (s\<lparr>usersTable := rows\<rparr>)"
      if "map (\<lambda>row. get row ''_id'') rows = map (\<lambda>row. get row ''_id'') (usersTable s)"
        "\<forall>row\<in>set rows. row_ok (nextUserId s) row" "names_unique rows" for rows
      using that s by (simp add: stored_ok_def)
    show ?thesis
    proof (rule R[OF ids _ u])
      show "\<forall>row\<in>set (map (\<lambda>row. if hit row then write_row env data row else row) (usersTable s)).
          row_ok (nextUserId s) row"
        using w s by (auto simp: stored_ok_def)
    qed
  qed
  then show ?thesis by (simp add: keeps_def update_users_def Let_def)
qed

lemma keeps_delete [keeps_rules]: "keeps stored_ok (delete_users hit)"
  by (auto simp: keeps_def delete_users_def Let_def stored_ok_def names_unique_filter distinct_map_filter)

subsection \<open>The operations\<close>

lemma keeps_throw_if [keeps_rules]:
  "(\<not> bad \<Longrightarrow> keeps P m) \<Longrightarrow> keeps P (and_then (throw_if bad e) (\<lambda>_. m))"
  by (auto simp: keeps_def and_then_def)

lemma keeps_case_prod [keeps_rules]: "(\<And>a b. keeps P (f a b)) \<Longrightarrow> keeps P (case x of (a, b) \<Rightarrow> f a b)"
  by (cases x) simp

lemma keeps_cong:
  "(\<And>s. usersTable (snd (m s)) = usersTable s \<and> nextUserId (snd (m s)) = nextUserId s) \<Longrightarrow> keeps stored_ok m"
  unfolding keeps_def using stored_ok_cong by blast

lemma session_parts_frame [simp]:
  "usersTable (set_session t se s) = usersTable s" "nextUserId (set_session t se s) = nextUserId s"
  "usersTable (start_timer ti s) = usersTable s" "nextUserId (start_timer ti s) = nextUserId s"
  by (simp_all add: set_session_def start_timer_def)

lemma setUserSession_frame [simp]:
  "usersTable (setUserSession env u s) = usersTable s" "nextUserId (setUserSession env u s) = nextUserId s"
  by (simp_all add: setUserSession_def Let_def setupAuthTokenRefreshInterval_def)

lemma processInterrupters_frame [simp]:
  "usersTable (processInterrupters env u names s) = usersTable s"
  "nextUserId (processInterrupters env u names s) = nextUserId s"
  by (simp_all add: processInterrupters_def Let_def split: option.split)

lemma removeUserSession_frame [simp]:
  "usersTable (snd (removeUserSession env u s)) = usersTable s"
  "nextUserId (snd (removeUserSession env u s)) = nextUserId s"
  by (simp_all add: removeUserSession_def Let_def silence_all)

lemma keeps_leaves [keeps_rules]:
  "keeps stored_ok (change_state (setUserSession env u))"
  "keeps stored_ok (change_state (processInterrupters env u names))"
  "keeps stored_ok (change_state (\<lambda>s. snd (removeUserSession env u s)))"
  "keeps stored_ok (change_state (emit_auth_required u))"
  "keeps stored_ok (change_state (\<lambda>s. s\<lparr>schedulerEnabled := b\<rparr>))"
  "keeps stored_ok disable_sync"
  "keeps stored_ok (draw env)" "keeps stored_ok (draw_uuid env)"
  "keeps stored_ok (getUser env flt uo)"
  "keeps stored_ok (setupAuthTokenInvalidateInterval t a)"
  "keeps stored_ok (set_session_token t a)" "keeps stored_ok (assign_session t d)"
  "keeps stored_ok (interruptOperations env auth names)"
  "keeps stored_ok (setInterrupterToUserSession env auth i)"
  by (rule keeps_cong; auto simp: emit_auth_required_def disable_sync_def draw_def draw_uuid_def
      getUser_def setupAuthTokenInvalidateInterval_def set_session_token_def assign_session_def
      interruptOperations_def setInterrupterToUserSession_def Let_def split: option.split)+

lemma keeps_parts [keeps_rules]:
  "keeps stored_ok (encrypt_val env v p)" "keeps stored_ok (encrypt_checked env v w)"
  "keeps stored_ok (getEncryptedCredentials env t ak as p)" "keeps stored_ok (verifyUser env auth vo)"
  "keeps stored_ok (new_token env auth user)" "keeps stored_ok (token_or_new env e)"
  "keeps stored_ok (store_session env so refreshed ct nt existed old)"
  unfolding encrypt_val_def encrypt_checked_def getEncryptedCredentials_def verifyUser_def new_token_def
    token_or_new_def store_session_def Let_def
  by (intro keeps_rules)+

lemma keeps_createUser [keeps_rules]:
  "\<not> isAuthTokenTTLInvalid (get data ''authTokenTTLSec'') \<Longrightarrow> keeps stored_ok (createUser env data)"
  unfolding createUser_def by (intro keeps_rules)

lemma new_user_ttl: "get (new_user_data env so auth ps apiUser username creds) ''authTokenTTLSec'' =
    default_val VNull (get ps ''authTokenTTLSec'')"
  by (cases creds) (simp add: new_user_data_def)

lemma default_ttl: "\<not> isAuthTokenTTLInvalid v \<Longrightarrow> \<not> isAuthTokenTTLInvalid (default_val VNull v)"
  by (simp add: default_val_def isAuthTokenTTLInvalid_def)

lemma signIn_data_ok:
  "data_ok (merge_obj (fresh_user_data env so user d tok) (if truthy e then [(''authToken'', e)] else []))"
  by (auto simp: data_ok_def fresh_user_data_def distinct_put keys_put distinct_merge)

lemma recover_data_ok:
  "data_ok (merge_obj (recover_data env so auth d u h) [(''isNotProtected'', a), (''authToken'', b), (''apiKey'', c), (''apiSecret'', e)])"
proof -
  have "distinct (map fst (recover_data env so auth d u h))" by (simp add: recover_data_def)
  then have "distinct (map fst (merge_obj (recover_data env so auth d u h)
      [(''isNotProtected'', a), (''authToken'', b), (''apiKey'', c), (''apiSecret'', e)]))" by (rule distinct_merge)
  then show ?thesis by (simp add: data_ok_def recover_data_def)
qed

lemma pick_data_ok:
  assumes "pick_ok (aePick env)" "\<not> isAuthTokenTTLInvalid (get (aePick env params updatable_props) ''authTokenTTLSec'')"
  shows "data_ok (aePick env params updatable_props)"
proof -
  have "fst ` set (aePick env params updatable_props) \<subseteq> set updatable_props"
    using assms(1) by (simp add: pick_ok_def)
  then show ?thesis using assms by (auto simp: data_ok_def pick_ok_def updatable_props_def)
qed

lemma small_data_ok: "k \<noteq> ''_id'' \<Longrightarrow> k \<noteq> ''authTokenTTLSec'' \<Longrightarrow> data_ok [(k, v)]"
  by (simp add: data_ok_def)

lemma keeps_signUp: "keeps stored_ok (signUp env auth params so)"
  unfolding signUp_def store_new_user_def Let_def
  by (intro keeps_rules) (simp_all add: new_user_ttl default_ttl)

lemma keeps_signIn: "keeps stored_ok (signIn env auth so)"
  unfolding signIn_def Let_def
  by (intro keeps_rules) (simp_all add: signIn_data_ok small_data_ok)

lemma keeps_signOut: "keeps stored_ok (signOut env auth active)"
  unfolding signOut_def by (intro keeps_rules) (simp_all add: small_data_ok)

lemma keeps_recover: "keeps stored_ok (recoverPassword env auth so)"
  unfolding recoverPassword_def Let_def by (intro keeps_rules) (rule recover_data_ok)

lemma keeps_removeUser: "keeps stored_ok (removeUser env auth)"
  unfolding removeUser_def by (intro keeps_rules)

lemma keeps_updateUser: "pick_ok (aePick env) \<Longrightarrow> keeps stored_ok (updateUser env auth params)"
  unfolding updateUser_def Let_def by (intro keeps_rules) (simp_all add: pick_data_ok)

lemma keeps_refresh: "keeps stored_ok (refresh_tick env i token user)"
proof -
  have "keeps stored_ok (change_state (\<lambda>s. emit_auth_required user (if b then clear_timer (Some i) s else s)))" for b
    by (rule keeps_cong) (simp add: emit_auth_required_def)
  moreover have "keeps stored_ok (refresh_body env token)"
    unfolding refresh_body_def by (intro keeps_rules) (simp_all add: small_data_ok)
  ultimately show ?thesis unfolding refresh_tick_def by (intro keeps_rules)
qed

end
