(* ===== verification/Auth_Life.thy ===== *)
theory Auth_Life
  imports Auth_Stored
begin

text \<open>
  The authenticator over its life: what any sequence of operations keeps, what a new user can rely on,
  and where a recovery or a sign-in without the exchange leaves a user.
\<close>

subsection \<open>Any sequence of operations\<close>

datatype auth_call =
    Sign_Up obj obj sign_opts
  | Sign_In obj sign_opts
  | Sign_Out obj jsval
  | Recover_Password obj sign_opts
  | Remove_User obj
  | Update_User obj obj
  | Interrupt_Operations obj jsval
  | Timer_Fires nat

fun auth_step :: "auth_env \<times> auth_call \<Rightarrow> auth_state \<Rightarrow> auth_state" where
  "auth_step (env, Sign_Up auth params so) s = snd (signUp env auth params so s)"
| "auth_step (env, Sign_In auth so) s = snd (signIn env auth so s)"
| "auth_step (env, Sign_Out auth active) s = snd (signOut env auth active s)"
| "auth_step (env, Recover_Password auth so) s = snd (recoverPassword env auth so s)"
| "auth_step (env, Remove_User auth) s = snd (removeUser env auth s)"
| "auth_step (env, Update_User auth params) s = snd (updateUser env auth params s)"
| "auth_step (env, Interrupt_Operations auth names) s = snd (interruptOperations env auth names s)"
| "auth_step (env, Timer_Fires i) s = run_timer env i s"

lemma invalidate_tick_frame [simp]:
  "usersTable (invalidate_tick env i t a se n s) = usersTable s"
  "nextUserId (invalidate_tick env i t a se n s) = nextUserId s"
  by (simp_all add: invalidate_tick_def Let_def split: option.split)

lemma auth_step_stored:
  assumes "stored_ok s" "pick_ok (aePick (fst c))"
  shows "stored_ok (auth_step c s)"
proof -
  obtain env call where c: "c = (env, call)" by (cases c)
  note keep = keepsD[OF keeps_signUp assms(1)] keepsD[OF keeps_signIn assms(1)] keepsD[OF keeps_signOut assms(1)]
    keepsD[OF keeps_recover assms(1)] keepsD[OF keeps_removeUser assms(1)] keepsD[OF keeps_refresh assms(1)]
    keepsD[OF keeps_updateUser[OF assms(2)[unfolded c fst_conv]] assms(1)]
    keepsD[OF keeps_leaves(13) assms(1)]
  have "stored_ok (run_timer env i s)" for i
  proof (cases "map_of (timers s) i")
    case (Some t)
    then show ?thesis
      by (cases t) (simp_all add: run_timer_def keep stored_ok_cong[OF invalidate_tick_frame] assms(1))
  qed (simp add: run_timer_def assms(1))
  then show ?thesis using keep by (cases call) (simp_all add: c)
qed

subsection \<open>A new user\<close>

lemma and_then_throw_if: "and_then (throw_if bad e) f s = (Inr y, s') \<longleftrightarrow> \<not> bad \<and> f () s = (Inr y, s')"
  by (simp add: and_then_def)

lemma and_then_lift: "and_then (lift_result r) f s = (Inr y, s') \<longleftrightarrow> (\<exists>x. r = Inr x \<and> f x s = (Inr y, s'))"
  by (auto simp: and_then_def split: sum.split)

lemma encrypt_val_eq: "encrypt_val env v p s =
    (Inr (VStr (encrypt (aeCrypto env) (text_of v) p (aeRandom env (drawn s)))), s\<lparr>drawn := Suc (drawn s)\<rparr>)"
  by (simp add: encrypt_val_def and_then_def draw_def)

lemma encrypted_keys:
  assumes "\<not> truthy authToken" "is_text key" "is_text secret"
  shows "getEncryptedCredentials env authToken key secret p s =
    (Inr (VStr (hashPassword (aeCrypto env) p [] (aeRandom env (drawn s))), VNull,
       VStr (encrypt (aeCrypto env) (text_of key) p (aeRandom env (drawn s + 1))),
       VStr (encrypt (aeCrypto env) (text_of secret) p (aeRandom env (drawn s + 2)))), s\<lparr>drawn := drawn s + 3\<rparr>)"
  using assms by (simp add: getEncryptedCredentials_def and_then_def encrypt_val_eq draw_def)

lemma createUser_effect:
  assumes "createUser env data s = (Inr user, s')"
  shows "s' = s\<lparr>usersTable := usersTable s @ [user_row env (VNum (of_nat (nextUserId s))) data],
    nextUserId := Suc (nextUserId s)\<rparr>"
  using assms by (auto simp: createUser_def and_then_Inr insert_user_def Let_def getUser_def user_opts0_def split: if_splits)

lemma set_session_or_not:
  "(if b then give () else change_state (setUserSession env u)) s = (Inr x, s') \<Longrightarrow>
     usersTable s' = usersTable s \<and> subAccountsTable s' = subAccountsTable s"
  by (auto simp: setUserSession_def Let_def set_session_def setupAuthTokenRefreshInterval_def start_timer_def clear_timer_def
      split: if_splits option.splits)

lemma look_up_or_not:
  "(if b then give VNull else getUser env flt uo) s = (Inr x, s') \<Longrightarrow> s' = s"
  by (auto simp: getUser_def Let_def split: if_splits)

lemma signUp_effect:
  assumes "signUp env auth params so s = (Inr r, s')" "\<not> truthy (get auth ''authToken'')"
  defines "password \<equiv> secret_or env (get auth ''isNotProtected'') (get auth ''password'')"
  shows "is_text (get auth ''apiKey'') \<and> is_text (get auth ''apiSecret'') \<and> is_text password
    \<and> (\<exists>apiUser username. (if soNoKeyCheck so then Inr auth else aeCheckAuthRetried env auth) = Inr apiUser
      \<and> is_text (get apiUser ''email'') \<and> subAccountsTable s' = subAccountsTable s
      \<and> usersTable s' = usersTable s @ [user_row env (VNum (of_nat (nextUserId s)))
         (new_user_data env so auth params apiUser username
           (VStr (hashPassword (aeCrypto env) (text_of password) [] (aeRandom env (drawn s))), VNull,
            VStr (encrypt (aeCrypto env) (text_of (get auth ''apiKey'')) (text_of password) (aeRandom env (drawn s + 1))),
            VStr (encrypt (aeCrypto env) (text_of (get auth ''apiSecret'')) (text_of password) (aeRandom env (drawn s + 2)))))])"
proof -
  have cred: "is_text (get auth ''apiKey'')" "is_text (get auth ''apiSecret'')" "is_text password"
    using assms(1,2) by (auto simp: signUp_def Let_def and_then_throw_if hasNotCredentials_def password_def)
  note creds = encrypted_keys[OF assms(2) cred(1,2)]
  have "\<exists>apiUser username. (if soNoKeyCheck so then Inr auth else aeCheckAuthRetried env auth) = Inr apiUser
      \<and> is_text (get apiUser ''email'')
      \<and> store_new_user env auth params so password (get auth ''authToken'') apiUser username s = (Inr r, s')"
    using assms(1,2) unfolding signUp_def Let_def password_def and_then_throw_if and_then_lift
    by (auto simp: and_then_throw_if split del: if_split)
  then obtain apiUser username where r: "(if soNoKeyCheck so then Inr auth else aeCheckAuthRetried env auth) = Inr apiUser"
      "is_text (get apiUser ''email'')"
    and st: "store_new_user env auth params so password (get auth ''authToken'') apiUser username s = (Inr r, s')" by blast
  from st obtain s1 s2 user c
    where c: "getEncryptedCredentials env (get auth ''authToken'') (get auth ''apiKey'') (get auth ''apiSecret'')
          (text_of password) s = (Inr c, s1)"
      and new: "createUser env (new_user_data env so auth params apiUser username c) s1 = (Inr user, s2)"
      and se: "usersTable s' = usersTable s2" "subAccountsTable s' = subAccountsTable s2"
    by (auto simp: store_new_user_def Let_def and_then_Inr and_then_throw_if draw_uuid_def
        dest!: look_up_or_not set_session_or_not split del: if_split)
  have "c = (VStr (hashPassword (aeCrypto env) (text_of password) [] (aeRandom env (drawn s))), VNull,
       VStr (encrypt (aeCrypto env) (text_of (get auth ''apiKey'')) (text_of password) (aeRandom env (drawn s + 1))),
       VStr (encrypt (aeCrypto env) (text_of (get auth ''apiSecret'')) (text_of password) (aeRandom env (drawn s + 2))))"
    "s1 = s\<lparr>drawn := drawn s + 3\<rparr>" using c creds by simp_all
  then show ?thesis using createUser_effect[OF new] se cred r by auto
qed

definition random_ok :: "auth_env \<Rightarrow> bool" where
  "random_ok env \<longleftrightarrow> (\<forall>n. hex_text (aeRandom env n) \<and> aeRandom env n \<noteq> [])"

lemma column_simps [simp]:
  "column env (VStr s) = VStr s" "column env (VBool b) = VNum (if b then 1 else 0)" "column env VNull = VNull"
  by (simp_all add: column_def)

lemma is_text_VStr: "is_text v \<longleftrightarrow> (\<exists>s. v = VStr s \<and> s \<noteq> [])"
  by (auto simp: is_text_def split: jsval.split)

lemma encrypted_text: "is_text (VStr (encrypt nc x p (aeRandom env n)))"
  by (simp add: is_text_def encrypt_def Let_def split: prod.split)

text \<open>
  C25: who has signed up with keys and a password can sign in: the verification with that e-mail and that
  password succeeds, and gives back the keys in clear. It takes that no older row has the e-mail: the
  look-up before a sign-up asks for the name too, so it does not find one whose name has changed.
\<close>

theorem signUp_verifyUser:
  assumes ok: "crypto_ok (aeCrypto env)" "random_ok env"
    and up: "signUp env auth params so s = (Inr r, s')" "\<not> truthy (get auth ''authToken'')" "\<not> soSubUser so"
    and api: "(if soNoKeyCheck so then Inr auth else aeCheckAuthRetried env auth) = Inr apiUser"
    and new: "\<not> list_ex (user_matches env [(''email'', get apiUser ''email''), (''isSubAccount'', VBool (soSubAccount so)),
      (''isSubUser'', VBool False)]) (usersTable s)"
  shows "\<exists>u. verifyUser env [(''email'', get apiUser ''email''),
      (''password'', secret_or env (get auth ''isNotProtected'') (get auth ''password'')),
      (''isSubAccount'', VBool (soSubAccount so))] (verify_opts0\<lparr>voDecrypted := True\<rparr>) s' = (Inr u, s')
    \<and> get u ''apiKey'' = get auth ''apiKey'' \<and> get u ''apiSecret'' = get auth ''apiSecret''
    \<and> get u ''_id'' = VNum (of_nat (nextUserId s))"
proof -
  define flt where "flt = [(''email'', get apiUser ''email''), (''isSubAccount'', VBool (soSubAccount so)),
      (''isSubUser'', VBool False)]"
  note eff = signUp_effect[OF up(1,2)]
  from eff obtain k sk p where cr: "get auth ''apiKey'' = VStr k" "get auth ''apiSecret'' = VStr sk"
    "secret_or env (get auth ''isNotProtected'') (get auth ''password'') = VStr p" "k \<noteq> []" "sk \<noteq> []" "p \<noteq> []"
    by (auto simp: is_text_VStr)
  let ?c = "aeCrypto env"
  let ?k = "VStr (encrypt ?c k p (aeRandom env (drawn s + 1)))"
  let ?s = "VStr (encrypt ?c sk p (aeRandom env (drawn s + 2)))"
  let ?h = "VStr (hashPassword ?c p [] (aeRandom env (drawn s)))"
  from eff[unfolded api cr] obtain username row where e: "is_text (get apiUser ''email'')"
    and row: "row = user_row env (VNum (of_nat (nextUserId s))) (new_user_data env so auth params apiUser username (?h, VNull, ?k, ?s))"
    and tab: "usersTable s' = usersTable s @ [row]"
    by (auto simp: text_of_def)
  have fields: "get row ''apiKey'' = ?k" "get row ''apiSecret'' = ?s" "get row ''authToken'' = VNull"
    "get row ''passwordHash'' = ?h" "get row ''_id'' = VNum (of_nat (nextUserId s))"
    "get row ''email'' = get apiUser ''email''" "get row ''isSubAccount'' = column env (VBool (soSubAccount so))"
    "get row ''isSubUser'' = column env (VBool False)"
    using e up(3) by (auto simp: row get_user_row user_columns_def new_user_data_def is_text_VStr)
  have m: "user_matches env flt row" using e fields by (auto simp: user_matches_def flt_def is_text_VStr)
  have "filter (user_matches env flt) (usersTable s) = []"
    using new by (simp add: flt_def list_ex_iff filter_empty_conv)
  then have dao: "dao_users env flt False s' = [joined_user s' False row]" using m by (simp add: dao_users_def tab)
  define u where "u = joined_user s' False row"
  have uf: "get u ''apiKey'' = ?k" "get u ''apiSecret'' = ?s" "get u ''authToken'' = VNull" "get u ''passwordHash'' = ?h"
    "get u ''_id'' = VNum (of_nat (nextUserId s))"
    using fields by (simp_all add: u_def joined_user_get user_flags_def)
  have rnd: "hex_text (aeRandom env n)" "aeRandom env n \<noteq> []" for n using ok(2) by (auto simp: random_ok_def)
  have dec: "decrypt ?c ?k p = Inr k" "decrypt ?c ?s p = Inr sk"
    using decrypt_encrypt[OF ok(1) rnd] cr by simp_all
  have "decrypt_user env p (VObj u) = Inr (VObj (merge_obj u [(''authToken'', VNull), (''apiKey'', VStr k), (''apiSecret'', VStr sk)]))"
    using dec by (simp add: decrypt_user_def Let_def uf encrypted_text)
  then have get_user: "getUser env flt (user_opts0\<lparr>uoFilled := False, uoPassword := VStr p\<rparr>) s' =
      (Inr (VObj (merge_obj u [(''authToken'', VNull), (''apiKey'', VStr k), (''apiSecret'', VStr sk)])), s')"
    using cr(6) by (simp add: getUser_def user_opts0_def dao u_def[symmetric] decryptApiKeys_def is_text_def text_of_def)
  have "verifyPassword ?c p ?h = Inr ()" using verifyPassword_hash[OF ok(1) rnd] by simp
  then have "verifyUser env [(''email'', get apiUser ''email''), (''password'', VStr p),
      (''isSubAccount'', VBool (soSubAccount so))] (verify_opts0\<lparr>voDecrypted := True\<rparr>) s' =
     (Inr (put (merge_obj u [(''authToken'', VNull), (''apiKey'', VStr k), (''apiSecret'', VStr sk)]) ''password'' VNull), s')"
    using e cr(6) get_user[unfolded flt_def]
    by (simp add: verifyUser_def verify_opts0_def and_then_def default_val_def is_text_VStr text_of_def uf user_opts0_def)
  then show ?thesis by (simp add: cr uf)
qed

subsection \<open>Corners\<close>

text \<open>A session that loses its token forgets the timer of the renewal, but does not stop it.\<close>

lemma stale_timer:
  assumes "map_of (userSessions s) (get user ''token'') = Some se" "seRefresh se = Some i"
    "map_of (timers s) i = Some t" "\<not> truthy (get user ''authToken'')"
  shows "map_of (timers (setUserSession env user s)) i = Some t \<and>
    map_option seRefresh (map_of (userSessions (setUserSession env user s)) (get user ''token'')) = Some None"
  using assms by (simp add: setUserSession_def set_session_def update_conv Let_def)

text \<open>A sign-out that fails leaves the scheduler off.\<close>

lemma failed_sign_out_stops_scheduler:
  assumes "verifyUser env (own_auth auth) verify_opts0 s = (Inr user, s)" "filter (own_row env user) (usersTable s) = []"
  shows "\<exists>e s'. signOut env auth active s = (Inl e, s') \<and> \<not> schedulerEnabled s'"
  using assms by (simp add: signOut_def and_then_def disable_sync_def update_users_def Let_def split: prod.split sum.split)

text \<open>The recovery of a sub-user does not pass the master's id on, so the name ends in \<^verbatim>\<open>undefined\<close>.\<close>

lemma recovered_sub_user_name:
  "get (recover_data env so auth [(''username'', VStr u)] userFromDb h) ''username'' =
   VStr (u @ (if truthy (get auth ''isSubAccount'') then ''-sub-account'' else [])
     @ (if soSubUser so then ''-sub-user-undefined'' else []))"
  by (simp add: recover_data_def generateSubUserName_def)

end
