(* ===== verification/Sub_Account.thy ===== *)
theory Sub_Account
  imports Auth_Life
begin

text \<open>
  Sub-accounts (\<^verbatim>\<open>sync/sub.account/index.js\<close>): a user of their own with a sub-user for each pair of keys,
  linked to it by rows of \<^verbatim>\<open>subAccounts\<close>. The operations run in a transaction of the database, which
  takes back the tables when they fail, but not the sessions.
\<close>

definition in_trans :: "'a auth_action \<Rightarrow> 'a auth_action" where
  "in_trans m s = (case m s of
       (Inl e, s') \<Rightarrow> (Inl e, s'\<lparr>usersTable := usersTable s, subAccountsTable := subAccountsTable s,
          nextUserId := nextUserId s, ledgersReset := ledgersReset s\<rparr>)
     | (Inr x, s') \<Rightarrow> (Inr x, s'))"

definition elements :: "jsval \<Rightarrow> obj list" where
  "elements v = (case v of VArr xs \<Rightarrow> map spread xs | _ \<Rightarrow> [])"

definition same_keys :: "obj \<Rightarrow> obj \<Rightarrow> bool" where
  "same_keys a b \<longleftrightarrow> get a ''apiKey'' = get b ''apiKey'' \<and> get a ''apiSecret'' = get b ''apiSecret''"

definition link_sub_user :: "jsval \<Rightarrow> jsval \<Rightarrow> unit auth_action" where
  "link_sub_user masterUserId subUserId = change_state (\<lambda>s. s\<lparr>subAccountsTable :=
     subAccountsTable s @ [[(''masterUserId'', masterUserId), (''subUserId'', subUserId)]]\<rparr>)"

subsection \<open>Creating\<close>

definition sub_user_projection :: "string list" where
  "sub_user_projection = [''_id'', ''id'', ''email'', ''apiKey'', ''apiSecret'', ''timezone'', ''username'', ''isUserMerchant'']"

definition master_projection :: "string list" where
  "master_projection = [''id'', ''email'', ''apiKey'', ''apiSecret'', ''timezone'', ''username'', ''password'',
     ''isNotProtected'', ''isUserMerchant'']"

definition checked_in_db :: "obj \<Rightarrow> bool" where
  "checked_in_db auth \<longleftrightarrow> is_text (get auth ''email'') \<or> is_text (get auth ''token'')"

definition sub_user_auth :: "auth_env \<Rightarrow> obj \<Rightarrow> obj auth_action" where
  "sub_user_auth env auth =
     (if checked_in_db auth
      then verifyUser env [(''email'', get auth ''email''), (''password'', get auth ''password''), (''token'', get auth ''token'')]
             (verify_opts0\<lparr>voUser := user_opts0\<lparr>uoProjection := sub_user_projection\<rparr>, voDecrypted := True\<rparr>)
      else give [(''apiKey'', get auth ''apiKey''), (''apiSecret'', get auth ''apiSecret'')])"

definition sign_up_sub_user ::
  "auth_env \<Rightarrow> obj \<Rightarrow> jsval \<Rightarrow> jsval \<Rightarrow> bool \<Rightarrow> jsval \<Rightarrow> obj auth_action" where
  "sign_up_sub_user env auth password isNotProtected inDb masterUserId =
     signUp env (merge_obj auth [(''password'', password), (''isNotProtected'', isNotProtected)]) []
       (sign_opts0\<lparr>soNoKeyCheck := inDb, soFullUser := True, soNotSetSession := True, soSubUser := True,
          soMasterUserId := masterUserId\<rparr>)"

text \<open>
  One pair of keys; the accumulator has the sub-users so far and whether one has the master's keys.
  The look-up of the keys keeps no token, so the check for one can not fail.
\<close>

definition create_body ::
  "auth_env \<Rightarrow> obj \<Rightarrow> jsval \<Rightarrow> jsval \<Rightarrow> jsval \<Rightarrow> bool \<times> obj \<Rightarrow> obj list \<times> bool \<Rightarrow> (obj list \<times> bool) auth_action" where
  "create_body env masterUser password isNotProtected accountId item acc =
     (case (item, acc) of ((isLastSubUser, subUserAuth), (subUsers, fromMaster)) \<Rightarrow>
       and_then (sub_user_auth env subUserAuth) (\<lambda>auth.
       and_then (throw_if (isLastSubUser \<and> fromMaster \<and> same_keys masterUser auth \<and> length subUsers = 1)
         Sub_Account_Creating_Error) (\<lambda>_.
       if list_ex (\<lambda>su. same_keys auth su) subUsers then give (subUsers, fromMaster)
       else
       and_then (throw_if (truthy (get auth ''authToken'')) Sub_Account_Creating_Error) (\<lambda>_.
       and_then (sign_up_sub_user env auth password isNotProtected (checked_in_db subUserAuth) (get masterUser ''id'')) (\<lambda>subUser.
       and_then (link_sub_user accountId (get subUser ''_id'')) (\<lambda>_.
         give (subUsers @ [subUser], fromMaster \<or> same_keys masterUser subUser)))))))"

definition with_last :: "'a list \<Rightarrow> (bool \<times> 'a) list" where
  "with_last xs = map (\<lambda>(i, x). (Suc i = length xs, x)) (enumerate 0 xs)"

definition create_in_trans ::
  "auth_env \<Rightarrow> obj \<Rightarrow> jsval \<Rightarrow> jsval \<Rightarrow> obj list \<Rightarrow> jsval \<Rightarrow> obj auth_action" where
  "create_in_trans env masterUser password isNotProtected subAccountApiKeys localUsername =
     and_then (signUp env (merge_obj (merge_obj masterUser (getSubAccountAuthFromAuth masterUser))
          [(''password'', password), (''isNotProtected'', isNotProtected)]) [(''localUsername'', localUsername)]
        (sign_opts0\<lparr>soNoKeyCheck := True, soFullUser := True, soNotSetSession := True, soSubAccount := True\<rparr>)) (\<lambda>subAccountUser.
     and_then (for_each (create_body env masterUser password isNotProtected (get subAccountUser ''_id''))
        (with_last (subAccountApiKeys @ [masterUser])) ([], False)) (\<lambda>(subUsers, _).
     and_then (change_state (setUserSession env (put subAccountUser ''subUsers'' (VArr (map VObj subUsers))))) (\<lambda>_.
       give [(''email'', get subAccountUser ''email''), (''isSubAccount'', VBool True),
             (''token'', get subAccountUser ''token'')])))"

definition createSubAccount :: "auth_env \<Rightarrow> obj \<Rightarrow> obj \<Rightarrow> obj auth_action" where
  "createSubAccount env auth params =
     and_then (verifyUser env [(''email'', get auth ''email''), (''password'', get auth ''password''), (''token'', get auth ''token'')]
        (verify_opts0\<lparr>voUser := user_opts0\<lparr>uoProjection := master_projection\<rparr>, voDecrypted := True,
           voReturnedPassword := True\<rparr>)) (\<lambda>masterUser.
     let entered = is_text (get params ''subAccountPassword'');
         password = (if entered then get params ''subAccountPassword'' else get masterUser ''password'');
         isNotProtected = (if entered then VBool False else get masterUser ''isNotProtected'');
         subAccountApiKeys = elements (get params ''subAccountApiKeys'')
     in
     and_then (throw_if (isSubAccountApiKeys masterUser \<or> truthy (get masterUser ''authToken'') \<or> subAccountApiKeys = []
        \<or> list_ex (\<lambda>a. isSubAccountApiKeys a \<or> truthy (get a ''authToken'')) subAccountApiKeys) Sub_Account_Creating_Error) (\<lambda>_.
       in_trans (create_in_trans env masterUser password isNotProtected subAccountApiKeys (get params ''localUsername''))))"

subsection \<open>Recovery\<close>

definition recover_body :: "auth_env \<Rightarrow> jsval \<Rightarrow> jsval \<Rightarrow> obj list \<Rightarrow> obj \<Rightarrow> unit \<Rightarrow> unit auth_action" where
  "recover_body env newPassword isNotProtected subUsers subUserAuth _ =
     and_then (recoverPassword env [(''apiKey'', get subUserAuth ''apiKey''), (''apiSecret'', get subUserAuth ''apiSecret''),
          (''newPassword'', newPassword), (''isNotProtected'', isNotProtected)]
        (sign_opts0\<lparr>soFullUser := True, soSubUser := True\<rparr>)) (\<lambda>refreshedSubUser.
       throw_if (list_all (\<lambda>su. get refreshedSubUser ''_id'' \<noteq> get su ''_id'') subUsers) Auth_Error)"

definition recoverSubAccount :: "auth_env \<Rightarrow> obj \<Rightarrow> obj \<Rightarrow> obj auth_action" where
  "recoverSubAccount env auth params =
     (let subAccountApiKeys = elements (get params ''subAccountApiKeys'') in
      and_then (throw_if (truthy (get auth ''authToken'') \<or> \<not> truthy (get auth ''isSubAccount'') \<or> subAccountApiKeys = []
         \<or> list_ex (\<lambda>a. truthy (get a ''authToken'')) subAccountApiKeys) Auth_Error) (\<lambda>_.
      in_trans (
        and_then (recoverPassword env auth (sign_opts0\<lparr>soFullUser := True\<rparr>)) (\<lambda>subAccount.
        and_then (throw_if (elements (get subAccount ''subUsers'') = []) Auth_Error) (\<lambda>_.
        and_then (for_each (recover_body env (get auth ''newPassword'') (get auth ''isNotProtected'')
             (elements (get subAccount ''subUsers''))) (subAccountApiKeys @ [[(''apiKey'', get auth ''apiKey''),
             (''apiSecret'', get auth ''apiSecret'')]]) ()) (\<lambda>_.
          give [(''email'', get subAccount ''email''), (''isSubAccount'', get subAccount ''isSubAccount''),
                (''token'', get subAccount ''token'')]))))))"

subsection \<open>Updating\<close>

text \<open>
  The master among the sub-users is the one with the e-mail of the sub-account; it is given the
  password in place, in the list of sub-users.
\<close>

fun give_password :: "jsval \<Rightarrow> jsval \<Rightarrow> obj list \<Rightarrow> obj list" where
  "give_password email password [] = []"
| "give_password email password (su # sus) =
     (if get su ''email'' = email then put su ''password'' password # sus else su # give_password email password sus)"

record update_acc =
  uaProcessed :: "obj list"
  uaAdded :: "obj list"

text \<open>\<open>None\<close> for the element that is \<^verbatim>\<open>undefined\<close>: no sub-user has the e-mail of the sub-account.\<close>

definition update_body ::
  "auth_env \<Rightarrow> obj \<Rightarrow> obj list \<Rightarrow> obj option \<Rightarrow> obj option \<Rightarrow> update_acc \<Rightarrow> update_acc auth_action" where
  "update_body env subAccountUser subUsers masterUser subUserAuth acc =
     (let given = nullish subUserAuth [] in
      and_then (sub_user_auth env given) (\<lambda>auth.
      case find (\<lambda>su. same_keys auth su) subUsers of
        Some existed \<Rightarrow> give (acc\<lparr>uaProcessed := uaProcessed acc @ [existed]\<rparr>)
      | None \<Rightarrow>
          (case masterUser of
             None \<Rightarrow> throw Type_Error
           | Some master \<Rightarrow>
               if same_keys master auth \<or> list_ex (\<lambda>su. same_keys auth su) (uaProcessed acc) then give acc
               else
               and_then (throw_if (truthy (get auth ''authToken'')) Sub_Account_Updating_Error) (\<lambda>_.
               and_then (sign_up_sub_user env auth (get subAccountUser ''password'') (get subAccountUser ''isNotProtected'')
                  (checked_in_db given) (get master ''id'')) (\<lambda>subUser.
               and_then (link_sub_user (get subAccountUser ''_id'') (get subUser ''_id'')) (\<lambda>_.
                 give (acc\<lparr>uaProcessed := uaProcessed acc @ [subUser], uaAdded := uaAdded acc @ [subUser]\<rparr>)))))))"

definition reset_ledgers :: "jsval \<Rightarrow> unit auth_action" where
  "reset_ledgers userId = change_state (\<lambda>s. s\<lparr>ledgersReset := ledgersReset s @ [userId]\<rparr>)"

definition update_in_trans :: "auth_env \<Rightarrow> obj \<Rightarrow> obj \<Rightarrow> (obj \<times> obj) auth_action" where
  "update_in_trans env auth params =
     (let adding = elements (get params ''addingSubUsers''); removing = elements (get params ''removingSubUsersByEmails'') in
      and_then (signIn env (put auth ''isSubAccount'' (VBool True))
         (sign_opts0\<lparr>soFullUser := True, soNotSetSession := True\<rparr>)) (\<lambda>subAccountUser.
      and_then (throw_if (truthy (get subAccountUser ''authToken'') \<or> \<not> isSubAccountApiKeys subAccountUser
         \<or> \<not> (is_array (get params ''addingSubUsers'') \<or> get params ''addingSubUsers'' = VUndef)
         \<or> \<not> (is_array (get params ''removingSubUsersByEmails'') \<or> get params ''removingSubUsersByEmails'' = VUndef)
         \<or> adding = [] \<and> removing = []
         \<or> list_ex (\<lambda>a. isSubAccountApiKeys a \<or> truthy (get a ''authToken'')) adding
         \<or> list_ex (\<lambda>a. \<not> is_string (get a ''email'')) removing) Sub_Account_Updating_Error) (\<lambda>_.
      let email = get subAccountUser ''email''; password = get subAccountUser ''password'';
          found = find (\<lambda>su. get su ''email'' = email) (elements (get subAccountUser ''subUsers'')) in
      and_then (throw_if (truthy password \<and> found = None) Type_Error) (\<lambda>_.
      let subUsers = (if truthy password then give_password email password (elements (get subAccountUser ''subUsers''))
                      else elements (get subAccountUser ''subUsers''));
          masterUser = find (\<lambda>su. get su ''email'' = email) subUsers in
      and_then (for_each (update_body env subAccountUser subUsers masterUser) (map Some adding @ [masterUser])
         \<lparr>uaProcessed = [], uaAdded = []\<rparr>) (\<lambda>acc.
      let removed = filter (\<lambda>su. list_ex (\<lambda>r. get r ''email'' = get su ''email'') removing) subUsers in
      and_then (if removed = [] then give 1
         else delete_users (\<lambda>row. get row ''_id'' \<in> set (map (\<lambda>su. get su ''_id'') removed))) (\<lambda>changes.
      and_then (throw_if (changes < 1) User_Removing_Error) (\<lambda>_.
      and_then (if uaAdded acc \<noteq> [] \<or> removed \<noteq> [] then reset_ledgers (get subAccountUser ''_id'') else give ()) (\<lambda>_.
      let refreshed = filter (\<lambda>v. list_all (\<lambda>r. get r ''_id'' \<noteq> get (spread v) ''_id'') removed)
            (orderBy (map VObj (subUsers @ uaAdded acc)) [By_Path ''_id''] [''asc'']);
          refreshedUser = put subAccountUser ''subUsers'' (VArr refreshed) in
      and_then (change_state (setUserSession env refreshedUser)) (\<lambda>_.
        give (refreshedUser, [(''email'', email), (''isSubAccount'', VBool True), (''token'', get subAccountUser ''token'')]))))))))))"

text \<open>When the transaction fails, the scheduler stays disabled.\<close>

definition updateSubAccount :: "auth_env \<Rightarrow> obj \<Rightarrow> obj \<Rightarrow> obj auth_action" where
  "updateSubAccount env auth params =
     and_then disable_sync (\<lambda>_.
     and_then (in_trans (update_in_trans env auth params)) (\<lambda>(subAccountUser, res).
     and_then (change_state (\<lambda>s. s\<lparr>schedulerEnabled := True, syncStarts := syncStarts s @ [get subAccountUser ''_id'']\<rparr>)) (\<lambda>_.
       give res)))"

end
