(* ===== verification/Sub_Account_Props.thy ===== *)
theory Sub_Account_Props
  imports Sub_Account
begin

text \<open>What holds of sub-accounts: the stored users stay valid, and a new one is linked to all its sub-users.\<close>

subsection \<open>Stored users\<close>

lemma keeps_in_trans [keeps_rules]:
  assumes "keeps stored_ok m"
  shows "keeps stored_ok (in_trans m)"
proof -
  have "stored_ok (s'\<lparr>usersTable := usersTable s, subAccountsTable := subAccountsTable s,
      nextUserId := nextUserId s, ledgersReset := ledgersReset s\<rparr>)" if "stored_ok s" for s s' :: auth_state
    using that by (simp add: stored_ok_def)
  then show ?thesis using assms
    by (auto simp: keeps_def in_trans_def split: prod.split sum.split)
qed

lemma keeps_sub_leaves [keeps_rules]:
  "keeps stored_ok (link_sub_user a b)" "keeps stored_ok (reset_ledgers a)"
  "keeps stored_ok (change_state (\<lambda>s. s\<lparr>schedulerEnabled := c, syncStarts := f s\<rparr>))"
  by (rule keeps_cong; simp add: link_sub_user_def reset_ledgers_def)+

lemma keeps_sub_parts [keeps_rules]:
  "keeps stored_ok (sub_user_auth env auth)" "keeps stored_ok (sign_up_sub_user env auth p n inDb m)"
  "keeps stored_ok (recover_body env p n sus a u)"
  unfolding sub_user_auth_def sign_up_sub_user_def recover_body_def
  by (intro keeps_rules keeps_signUp keeps_recover)+

lemma keeps_case_option [keeps_rules]:
  "keeps P m \<Longrightarrow> (\<And>x. keeps P (f x)) \<Longrightarrow> keeps P (case v of None \<Rightarrow> m | Some x \<Rightarrow> f x)"
  by (cases v) simp_all

lemma keeps_bodies [keeps_rules]:
  "keeps stored_ok (create_body env m p n i item acc)"
  "keeps stored_ok (update_body env u sus master given uacc)"
  unfolding create_body_def update_body_def Let_def
  by (intro keeps_rules)+

lemma keeps_create: "keeps stored_ok (createSubAccount env auth params)"
  unfolding createSubAccount_def create_in_trans_def Let_def by (intro keeps_rules keeps_signUp)

lemma keeps_recover_sub: "keeps stored_ok (recoverSubAccount env auth params)"
  unfolding recoverSubAccount_def Let_def by (intro keeps_rules keeps_recover)

lemma keeps_update_sub: "keeps stored_ok (updateSubAccount env auth params)"
  unfolding updateSubAccount_def update_in_trans_def Let_def by (intro keeps_rules keeps_signIn)

datatype account_call =
    User_Call auth_call
  | Create_Sub_Account obj obj
  | Recover_Sub_Account obj obj
  | Update_Sub_Account obj obj

fun account_step :: "auth_env \<times> account_call \<Rightarrow> auth_state \<Rightarrow> auth_state" where
  "account_step (env, User_Call call) s = auth_step (env, call) s"
| "account_step (env, Create_Sub_Account auth params) s = snd (createSubAccount env auth params s)"
| "account_step (env, Recover_Sub_Account auth params) s = snd (recoverSubAccount env auth params s)"
| "account_step (env, Update_Sub_Account auth params) s = snd (updateSubAccount env auth params s)"

lemma account_step_stored:
  assumes "stored_ok s" "pick_ok (aePick (fst c))"
  shows "stored_ok (account_step c s)"
proof -
  obtain env call where c: "c = (env, call)" by (cases c)
  then show ?thesis
    using assms auth_step_stored keepsD[OF keeps_create assms(1)] keepsD[OF keeps_recover_sub assms(1)]
      keepsD[OF keeps_update_sub assms(1)]
    by (cases call) auto
qed

text \<open>
  C26: whatever is called on users and sub-accounts, in whatever order, with whatever the exchange answers:
  the stored users have different identifiers, no two have the same e-mail and name, each has a token
  or both keys, and the time to live of tokens is between a day and a week when it is set.
\<close>

theorem stored_users_valid:
  assumes "list_all (\<lambda>c. pick_ok (aePick (fst c))) calls" "stored_ok s"
  shows "stored_ok (fold account_step calls s)"
  using assms by (induction calls arbitrary: s) (auto intro: account_step_stored)

subsection \<open>The links of a new sub-account\<close>

definition link_row :: "jsval \<Rightarrow> obj \<Rightarrow> obj" where
  "link_row accountId su = [(''masterUserId'', accountId), (''subUserId'', get su ''_id'')]"

definition keys_of_user :: "obj \<Rightarrow> jsval \<times> jsval" where
  "keys_of_user su = (get su ''apiKey'', get su ''apiSecret'')"

lemma keeps_links_leaves [keeps_rules]:
  fixes L :: "obj list"
  defines "P \<equiv> \<lambda>s. subAccountsTable s = L"
  shows "keeps P (insert_user env data)" "keeps P (getUser env flt uo)" "keeps P (draw env)" "keeps P (draw_uuid env)"
    "keeps P (change_state (setUserSession env user))"
  by (simp_all add: P_def keeps_def insert_user_def getUser_def draw_def draw_uuid_def Let_def setUserSession_def
      set_session_def setupAuthTokenRefreshInterval_def start_timer_def clear_timer_def split: option.split)

lemma keeps_links [keeps_rules]:
  fixes L :: "obj list"
  shows "keeps (\<lambda>s. subAccountsTable s = L) (signUp env auth ps so)"
    "keeps (\<lambda>s. subAccountsTable s = L) (verifyUser env auth vo)"
  unfolding signUp_def store_new_user_def getEncryptedCredentials_def encrypt_val_def createUser_def verifyUser_def Let_def
  by (intro keeps_rules)+

lemma links_kept:
  assumes "m s = (r, s')" "\<And>L. keeps (\<lambda>s. subAccountsTable s = L) m"
  shows "subAccountsTable s' = subAccountsTable s"
  using keepsD[OF assms(2), of s "subAccountsTable s"] assms(1) by simp

lemma verify_unchanged: "verifyUser env auth vo s = (r, s') \<Longrightarrow> s' = s"
  by (auto simp: verifyUser_def Let_def getUser_def and_then_def split: if_splits prod.splits sum.splits)

lemma signUp_full_keys:
  assumes "signUp env auth ps so s = (Inr r, s')" "soFullUser so"
  shows "keys_of_user r = keys_of_user auth"
  using assms by (auto simp: signUp_def store_new_user_def Let_def and_then_Inr keys_of_user_def split del: if_split)

lemma same_keys_iff: "same_keys a b \<longleftrightarrow> keys_of_user a = keys_of_user b"
  by (simp add: same_keys_def keys_of_user_def)

lemma create_body_links:
  assumes "create_body env m p n acct item (sus, b) s = (Inr (sus', b'), s')"
  shows "\<exists>new. sus' = sus @ new \<and> subAccountsTable s' = subAccountsTable s @ map (link_row acct) new
    \<and> (distinct (map keys_of_user sus) \<longrightarrow> distinct (map keys_of_user sus'))"
proof -
  obtain l a where item: "item = (l, a)" by (cases item)
  from assms obtain auth s1 where v: "sub_user_auth env a s = (Inr auth, s1)"
    and rest: "(if list_ex (\<lambda>su. same_keys auth su) sus then give (sus, b)
       else
       and_then (throw_if (truthy (get auth ''authToken'')) Sub_Account_Creating_Error) (\<lambda>_.
       and_then (sign_up_sub_user env auth p n (checked_in_db a) (get m ''id'')) (\<lambda>subUser.
       and_then (link_sub_user acct (get subUser ''_id'')) (\<lambda>_.
         give (sus @ [subUser], b \<or> same_keys m subUser))))) s1 = (Inr (sus', b'), s')"
    by (auto simp: create_body_def item and_then_Inr and_then_throw_if split del: if_split)
  have s1: "subAccountsTable s1 = subAccountsTable s"
    using v links_kept[of "verifyUser env _ _"] keeps_links(2) by (auto simp: sub_user_auth_def split: if_splits)
  show ?thesis
  proof (cases "list_ex (\<lambda>su. same_keys auth su) sus")
    case True
    then show ?thesis using rest s1 by auto
  next
    case False
    with rest obtain u s2 where u: "sign_up_sub_user env auth p n (checked_in_db a) (get m ''id'') s1 = (Inr u, s2)"
      and sus': "sus' = sus @ [u]" "subAccountsTable s' = subAccountsTable s2 @ [link_row acct u]"
      by (auto simp: and_then_Inr and_then_throw_if link_sub_user_def link_row_def)
    have "subAccountsTable s2 = subAccountsTable s1"
      using u links_kept keeps_links(1) unfolding sign_up_sub_user_def by blast
    moreover have "keys_of_user u = keys_of_user auth"
      using signUp_full_keys[OF u[unfolded sign_up_sub_user_def]] by (simp add: keys_of_user_def)
    moreover have "keys_of_user auth \<notin> keys_of_user ` set sus" using False by (auto simp: list_ex_iff same_keys_iff)
    ultimately show ?thesis using sus' s1 by auto
  qed
qed

lemma create_loop_links:
  assumes "for_each (create_body env m p n acct) items (sus, b) s = (Inr (sus', b'), s')"
  shows "\<exists>new. sus' = sus @ new \<and> subAccountsTable s' = subAccountsTable s @ map (link_row acct) new
    \<and> (distinct (map keys_of_user sus) \<longrightarrow> distinct (map keys_of_user sus'))"
  using assms
proof (induction items arbitrary: sus b s)
  case (Cons i items)
  then obtain sus1 b1 s1 where one: "create_body env m p n acct i (sus, b) s = (Inr (sus1, b1), s1)"
    and rest: "for_each (create_body env m p n acct) items (sus1, b1) s1 = (Inr (sus', b'), s')"
    by (auto simp: and_then_Inr)
  from create_body_links[OF one] Cons.IH[OF rest] show ?case by fastforce
qed simp

lemma create_in_trans_links:
  assumes "create_in_trans env m p n keys name s = (Inr r, s')"
  shows "\<exists>acct new. subAccountsTable s' = subAccountsTable s @ map (link_row acct) new \<and> distinct (map keys_of_user new)"
proof -
  from assms obtain a ps so acct s2 subUsers b s3
    where acct: "signUp env a ps so s = (Inr acct, s2)"
      and loop: "for_each (create_body env m p n (get acct ''_id'')) (with_last (keys @ [m])) ([], False) s2 = (Inr (subUsers, b), s3)"
      and s': "s' = setUserSession env (put acct ''subUsers'' (VArr (map VObj subUsers))) s3"
    unfolding create_in_trans_def by (auto simp: and_then_Inr)
  have "subAccountsTable s2 = subAccountsTable s" using links_kept[OF acct keeps_links(1)] .
  moreover from create_loop_links[OF loop]
  have "subAccountsTable s3 = subAccountsTable s2 @ map (link_row (get acct ''_id'')) subUsers" "distinct (map keys_of_user subUsers)"
    by auto
  moreover have "subAccountsTable s' = subAccountsTable s3"
    by (simp add: s' setUserSession_def set_session_def Let_def setupAuthTokenRefreshInterval_def start_timer_def clear_timer_def
        split: option.split)
  ultimately show ?thesis by auto
qed

lemma create_links_cases:
  assumes "createSubAccount env auth params s = (r, s')"
  shows "if isl r then subAccountsTable s' = subAccountsTable s \<and> usersTable s' = usersTable s
    else \<exists>acct new. subAccountsTable s' = subAccountsTable s @ map (link_row acct) new \<and> distinct (map keys_of_user new)"
  using assms unfolding createSubAccount_def Let_def
proof (cases rule: and_then_cases)
  case (threw e)
  then have "s' = s" using verify_unchanged by blast
  then show ?thesis using threw by simp
next
  case (went_on masterUser s1)
  from went_on(1) have s1: "s1 = s" using verify_unchanged by blast
  from went_on(2) show ?thesis
  proof (cases rule: and_then_cases)
    case (went_on u s2)
    then have "s2 = s" using s1 by (simp split: if_splits)
    with went_on(2) show ?thesis
      using create_in_trans_links by (fastforce simp: in_trans_def split: prod.splits sum.splits)
  qed (auto simp: s1 split: if_splits)
qed

text \<open>
  A new sub-account is linked to exactly the users that are made for it, one for each pair of keys: the
  links added all belong to one account, and no two of its sub-users have the same keys. When the
  creation fails, no link and no user is left of it.
\<close>

theorem createSubAccount_links:
  "let r = fst (createSubAccount env auth params s); s' = snd (createSubAccount env auth params s) in
    if isl r then subAccountsTable s' = subAccountsTable s \<and> usersTable s' = usersTable s
    else \<exists>acct new. subAccountsTable s' = subAccountsTable s @ map (link_row acct) new \<and> distinct (map keys_of_user new)"
  unfolding Let_def by (rule create_links_cases) (rule surjective_pairing)

subsection \<open>Corners\<close>

text \<open>
  An update verifies the master by the e-mail of the sub-account and the password of the sub-account: a
  sub-account with a password of its own can not be updated.
\<close>

lemma update_verifies_master:
  assumes "is_text (get m ''email'')"
    and "verifyUser env [(''email'', get m ''email''), (''password'', get m ''password''), (''token'', get m ''token'')]
        (verify_opts0\<lparr>voUser := user_opts0\<lparr>uoProjection := sub_user_projection\<rparr>, voDecrypted := True\<rparr>) s = (Inl e, s1)"
  shows "update_body env user subUsers (Some m) (Some m) acc s = (Inl e, s1)"
  using assms by (simp add: update_body_def sub_user_auth_def checked_in_db_def)

text \<open>An update that fails leaves the scheduler off.\<close>

lemma failed_update_stops_scheduler:
  assumes "verifyUser env (own_auth (put auth ''isSubAccount'' (VBool True))) (verify_opts0\<lparr>voUser := user_opts0\<lparr>uoFilled := True\<rparr>,
        voDecrypted := True, voReturnedPassword := True\<rparr>)
      (s\<lparr>schedulerEnabled := False, syncStops := Suc (syncStops s)\<rparr>) = (Inl e, s1)"
  shows "fst (updateSubAccount env auth params s) = Inl e \<and> \<not> schedulerEnabled (snd (updateSubAccount env auth params s))"
proof -
  define s0 where "s0 = s\<lparr>schedulerEnabled := False, syncStops := Suc (syncStops s)\<rparr>"
  have "s1 = s0" using assms verify_unchanged unfolding s0_def by blast
  with assms have v: "verifyUser env (own_auth (put auth ''isSubAccount'' (VBool True)))
      (verify_opts0\<lparr>voUser := user_opts0\<lparr>uoFilled := True\<rparr>, voDecrypted := True, voReturnedPassword := True\<rparr>) s0 = (Inl e, s0)"
    by (simp add: s0_def)
  have "signIn env (put auth ''isSubAccount'' (VBool True)) so s0 = (Inl e, s0)" for so
    unfolding signIn_def by (rule and_then_simps(1)) (rule v)
  then have "update_in_trans env auth params s0 = (Inl e, s0)"
    unfolding update_in_trans_def Let_def by (rule and_then_simps(1))
  then have "in_trans (update_in_trans env auth params) s0 = (Inl e, s0)" by (simp add: in_trans_def)
  then have "updateSubAccount env auth params s = (Inl e, s0)"
    unfolding updateSubAccount_def by (simp add: disable_sync_def s0_def[symmetric] and_then_def)
  then show ?thesis by (simp add: s0_def)
qed

end
