(* ===== verification/Auth_Samples.thy ===== *)
theory Auth_Samples
  imports Sub_Account_Props
begin

text \<open>The authenticator on concrete users: the properties applied, and corners that the code gets wrong.\<close>

definition sample_pick :: "obj \<Rightarrow> string list \<Rightarrow> obj" where
  "sample_pick ob ks = map (\<lambda>k. (k, get ob k)) (remdups (filter (\<lambda>k. k \<in> fst ` set ob) ks))"

lemma sample_pick_ok: "pick_ok sample_pick"
proof -
  have "get (sample_pick ob ks) k = get ob k" if "k \<in> set ks" for ob ks k
    using that get_absent[of k ob] by (auto simp: sample_pick_def get_map_keys)
  then show ?thesis by (auto simp: pick_ok_def sample_pick_def o_def)
qed

definition sample_user :: obj where
  "sample_user = [(''email'', VStr ''u@b.c''), (''username'', VStr ''user''), (''id'', VNum 5), (''timezone'', VStr ''UTC'')]"

definition sample_auth_env :: auth_env where
  "sample_auth_env = \<lparr>aePick = sample_pick, aeNum = plain_num, aeCrypto = sample_crypto, aeRandom = \<lambda>n. ''0a'',
     aeUuid = \<lambda>n. ''session1'', aeRestUrl = ''https://api.bitfinex.com'',
     aeCheckAuth = \<lambda>auth. Inr sample_user, aeCheckAuthRetried = \<lambda>auth. Inr sample_user,
     aeGenerateToken = \<lambda>auth ttl. Inr (VArr [VStr ''token2'']), aeInvalidateToken = \<lambda>auth t. True,
     aeIsENetError = \<lambda>e. e = Api_Error ''ENET'', aeIsAuthError = \<lambda>e. e = Auth_Error, aeSyncInProgress = False\<rparr>"

definition offline_env :: auth_env where
  "offline_env = sample_auth_env\<lparr>aeCheckAuth := \<lambda>auth. Inl (Api_Error ''ENET'')\<rparr>"

definition key_auth :: obj where
  "key_auth = [(''apiKey'', VStr ''key''), (''apiSecret'', VStr ''secret''), (''password'', VStr ''pass'')]"

definition signed_up :: auth_state where
  "signed_up = snd (signUp sample_auth_env key_auth [] sign_opts0 empty_auth_state)"


lemma sample_env_simps [simp]:
  "aePick sample_auth_env = sample_pick" "aeNum sample_auth_env = plain_num" "aeCrypto sample_auth_env = sample_crypto"
  "aeRandom sample_auth_env n = ''0a''" "aeUuid sample_auth_env n = ''session1''"
  "aeCheckAuth sample_auth_env a = Inr sample_user" "aeCheckAuthRetried sample_auth_env a = Inr sample_user"
  "aeGenerateToken sample_auth_env a t = Inr (VArr [VStr ''token2''])" "aeInvalidateToken sample_auth_env a v"
  "\<not> aeSyncInProgress sample_auth_env" "aeIsENetError sample_auth_env e \<longleftrightarrow> e = Api_Error ''ENET''"
  by (simp_all add: sample_auth_env_def)

lemma not_staging [simp]: "\<not> isStagingBfxApi sample_auth_env" by code_simp

lemmas auth_eval = run_action Let_def is_text_def text_of_def default_val_def secret_or_def coalesce_def

lemma user_row_eval: "user_row env v data = [(''_id'', v), (''id'', column env (get data ''id'')), (''email'', column env (get data ''email'')),
  (''apiKey'', column env (get data ''apiKey'')), (''apiSecret'', column env (get data ''apiSecret'')), (''authToken'', column env (get data ''authToken'')),
  (''active'', column env (get data ''active'')), (''isDataFromDb'', column env (get data ''isDataFromDb'')),
  (''timezone'', column env (get data ''timezone'')), (''username'', column env (get data ''username'')), (''localUsername'', column env (get data ''localUsername'')), (''passwordHash'', column env (get data ''passwordHash'')),
  (''isNotProtected'', column env (get data ''isNotProtected'')), (''isSubAccount'', column env (get data ''isSubAccount'')), (''isSubUser'', column env (get data ''isSubUser'')),
  (''shouldNotSyncOnStartupAfterUpdate'', column env (get data ''shouldNotSyncOnStartupAfterUpdate'')), (''isSyncOnStartupRequired'', column env (get data ''isSyncOnStartupRequired'')),
  (''authTokenTTLSec'', column env (get data ''authTokenTTLSec'')), (''isStagingBfxApi'', column env (get data ''isStagingBfxApi'')),
  (''isUserMerchant'', column env (get data ''isUserMerchant''))]"
  by (simp add: user_row_def user_columns_def)

lemma column_num [simp]: "column env (VNum x) = VNum x" "column env VUndef = VNull" by (simp_all add: column_def)

lemma sample_decrypt [simp]:
  "x \<noteq> [] \<Longrightarrow> decrypt sample_crypto (VStr (encrypt sample_crypto x p ''0a'')) p' = (if p' = p then Inr x else Inl Auth_Error)"
proof -
  assume "x \<noteq> []"
  moreover have "hex_text ''0a''" by (simp add: hex_text_def hex_chars_def)
  ultimately show ?thesis using decrypt_encrypt[OF sample_crypto_ok] by (simp add: sample_crypto_def)
qed

lemma sample_verify [simp]:
  "verifyPassword sample_crypto p (VStr (hashPassword sample_crypto q [] ''0a'')) = (if p = q then Inr () else Inl Auth_Error)"
proof -
  have "hex_text ''0a''" by (simp add: hex_text_def hex_chars_def)
  then show ?thesis using verifyPassword_hash[OF sample_crypto_ok] by (auto simp: sample_crypto_def to_hex_inj)
qed

lemma encrypted_not_empty [simp]: "encrypt sample_crypto x p ''0a'' \<noteq> []"
  by (simp add: encrypt_def Let_def split: prod.split)

lemmas sign_up_run = signUp_def store_new_user_def auth_eval hasNotCredentials_def isSubAccountApiKeys_def
  isAuthTokenTTLInvalid_def isLocalUsernameInvalid_def sample_user_def ends_with_def sub_account_ending_def
  generateSubUserName_def getUser_def dao_users_def user_opts0_def has_integer_id_def getEncryptedCredentials_def
  encrypt_val_def draw_def createUser_def insert_user_def user_row_eval new_user_data_def keys_valid_def names_unique_def
  user_matches_def joined_user_def normalizeUser_def user_flags_def draw_uuid_def setUserSession_def set_session_def
  getTokenKeyByEmailField_def new_session_def pick_user_def pickProps_def put_def sign_opts0_def generateAuthToken_def
  pickSessionProps_def session_props_def pick_item_def sample_pick_def setupAuthTokenRefreshInterval_def
  clear_timer_def start_timer_def

lemmas verify_run = verifyUser_def verify_opts0_def decryptApiKeys_def decrypt_user_def fillSubUsers_def
  sub_user_rows_def normalizeUserData_def

lemmas recover_run = recoverPassword_def recover_data_def update_users_def write_row_def token_or_new_def
  getUserSessionByEmail_def token_by_email_def session_data_def set_session_token_def fillSubUsers_def
  sub_user_rows_def normalizeUserData_def

lemmas timer_run = run_timer_def refresh_tick_def refresh_body_def session_password_def own_row_def
  setupAuthTokenInvalidateInterval_def

definition stored_row :: "string \<Rightarrow> rat \<Rightarrow> jsval \<Rightarrow> jsval \<Rightarrow> obj" where
  "stored_row password isSubAccount token apiKey = [(''_id'', VNum 1), (''email'', VStr ''u@b.c''), (''apiKey'', apiKey),
     (''apiSecret'', apiKey), (''authToken'', token), (''isSubAccount'', VNum isSubAccount), (''isSubUser'', VNum 0),
     (''username'', VStr ''user-sub-account''),
     (''passwordHash'', VStr (hashPassword sample_crypto password [] ''0a''))]"

definition encrypted_key :: "string \<Rightarrow> string \<Rightarrow> jsval" where
  "encrypted_key x password = VStr (encrypt sample_crypto x password ''0a'')"

definition old_session :: session where
  "old_session = new_session\<lparr>seData := [(''_id'', VNum 1), (''email'', VStr ''u@b.c''), (''authToken'', VStr ''token1''),
     (''password'', VStr ''old''), (''token'', VStr ''session1'')]\<rparr>"

definition single_user :: "obj \<Rightarrow> auth_state" where
  "single_user row = empty_auth_state\<lparr>usersTable := [row], userSessions := [(VStr ''session1'', old_session)],
     userTokenMapByEmail := [(''u@b.c'', VStr ''session1'')]\<rparr>"

definition new_login :: obj where
  "new_login = [(''email'', VStr ''u@b.c''), (''password'', VStr ''new'')]"

text \<open>
  A recovered password is lost again with the next renewal of the token: the session keeps the old
  password, and the renewed token is encrypted with it, so the new password does not decrypt it.
\<close>

lemma recovery_keeps_session_password:
  "get (session_data (snd (recoverPassword sample_auth_env [(''authToken'', VStr ''token3''), (''newPassword'', VStr ''new'')]
     sign_opts0 (single_user (stored_row ''old'' 0 (encrypted_key ''token1'' ''old'') VNull)))) (VStr ''session1'')) ''password'' =
   VStr ''old''"
  by (simp add: single_user_def stored_row_def encrypted_key_def old_session_def empty_auth_state_def sign_up_run recover_run
      cong: run_action_cong let_weak_cong)

lemma renewal_locks_out:
  "fst (verifyUser sample_auth_env new_login (verify_opts0\<lparr>voDecrypted := True\<rparr>)
     (snd (refresh_body sample_auth_env (VStr ''session1'')
        (single_user (stored_row ''new'' 0 (encrypted_key ''token3'' ''new'') VNull))))) = Inl Auth_Error"
  by (simp add: single_user_def stored_row_def encrypted_key_def old_session_def new_login_def empty_auth_state_def
      sign_up_run verify_run recover_run timer_run cong: run_action_cong let_weak_cong)

text \<open>Signing in to a sub-account while the exchange cannot be reached adds the ending to its name again.\<close>

lemma offline_sign_in_renames:
  "map (\<lambda>row. get row ''username'') (usersTable (snd (signIn offline_env [(''email'', VStr ''u@b.c''),
     (''password'', VStr ''pass''), (''isSubAccount'', VBool True)] (sign_opts0\<lparr>soNotSetSession := True\<rparr>)
     (single_user (stored_row ''pass'' 1 VNull (encrypted_key ''key'' ''pass'')))))) =
   [VStr ''user-sub-account-sub-account'']"
  by (simp add: single_user_def stored_row_def encrypted_key_def old_session_def empty_auth_state_def sign_up_run verify_run
      recover_run signIn_def offline_env_def own_auth_def new_token_def encrypt_checked_def check_or_stored_def
      fresh_user_data_def sub_user_ids_def existed_token_def store_session_def own_row_def
      cong: run_action_cong let_weak_cong)

subsection \<open>The properties applied\<close>

definition one_row_state :: auth_state where
  "one_row_state = single_user (stored_row ''new'' 0 VNull VNull)"

theorem verifyUser_sound_witness:
  "list_ex (\<lambda>row. get row ''email'' = VStr ''u@b.c'' \<and>
     verifyPassword sample_crypto ''new'' (get row ''passwordHash'') = Inr ()) (usersTable one_row_state)"
proof -
  have "\<not> isl (fst (verifyUser sample_auth_env new_login verify_opts0 one_row_state))"
    by (simp add: new_login_def one_row_state_def single_user_def stored_row_def empty_auth_state_def sign_up_run verify_run
        cong: run_action_cong let_weak_cong)
  then obtain user s' where v: "verifyUser sample_auth_env new_login verify_opts0 one_row_state = (Inr user, s')"
    using not_isl_result by blast
  show ?thesis using verifyUser_sound[OF v] by (auto simp: new_login_def is_text_def text_of_def list_ex_iff)
qed

theorem session_hides_password_witness:
  "get (getUserSessionByToken sample_auth_env (VStr ''session1'') False one_row_state) ''password'' = VUndef"
  using session_hides_password[of sample_auth_env "''password''" "VStr ''session1''" one_row_state] sample_pick_ok by simp


theorem stored_users_valid_witness:
  "stored_ok (fold account_step [(sample_auth_env, User_Call (Sign_Up key_auth [] sign_opts0)),
     (sample_auth_env, Create_Sub_Account key_auth [(''subAccountApiKeys'', VArr [VObj key_auth])]),
     (sample_auth_env, User_Call (Update_User key_auth [(''authTokenTTLSec'', VNum 90000)]))] empty_auth_state)"
  by (rule stored_users_valid) (simp_all add: sample_pick_ok stored_ok_def empty_auth_state_def names_unique_def)

theorem signUp_verifyUser_witness:
  "\<exists>u s'. verifyUser sample_auth_env [(''email'', VStr ''u@b.c''), (''password'', VStr ''pass''), (''isSubAccount'', VBool False)]
     (verify_opts0\<lparr>voDecrypted := True\<rparr>) s' = (Inr u, s') \<and> get u ''apiKey'' = VStr ''key''"
proof -
  have "\<not> isl (fst (signUp sample_auth_env key_auth [] sign_opts0 empty_auth_state))"
    by (simp add: key_auth_def empty_auth_state_def sign_up_run cong: run_action_cong let_weak_cong)
  then obtain r s' where up: "signUp sample_auth_env key_auth [] sign_opts0 empty_auth_state = (Inr r, s')"
    using not_isl_result by blast
  have "crypto_ok (aeCrypto sample_auth_env)" "random_ok sample_auth_env" "\<not> truthy (get key_auth ''authToken'')"
    "\<not> soSubUser sign_opts0"
    "(if soNoKeyCheck sign_opts0 then Inr key_auth else aeCheckAuthRetried sample_auth_env key_auth) = Inr sample_user"
    "\<not> list_ex (user_matches sample_auth_env [(''email'', get sample_user ''email''),
       (''isSubAccount'', VBool (soSubAccount sign_opts0)), (''isSubUser'', VBool False)]) (usersTable empty_auth_state)"
    by (simp_all add: sample_crypto_ok random_ok_def hex_text_def hex_chars_def key_auth_def sign_opts0_def empty_auth_state_def)
  from signUp_verifyUser[OF this(1,2) up this(3-6)] show ?thesis
    by (auto simp: sample_user_def key_auth_def secret_or_def sign_opts0_def)
qed

end
