(* ===== verification/Ccy_Convert.thy ===== *)
theory Ccy_Convert
  imports Js_Util
begin

text \<open>
  \<^verbatim>\<open>sync/currency.converter/index.js\<close>: prices of currencies from daily candles or public trades, and the
  conversion of rows. A price that is not finite is \<open>None\<close>. The splitting of pairs, the list of forex
  currencies, the answers of the exchange, the parsing of JSON and rounding are parameters; the tables
  of candles are lists of rows.
\<close>

datatype conv_error = Api_Failure string | Find_Method_Error | Currency_Conversion_Data_Finding_Error

record candle =
  cMts :: int
  cClose :: "rat option"
  cSymbol :: string
  cTimeframe :: string

record public_trade =
  ctMts :: int
  ctPrice :: "rat option"
  ctSymbol :: string

type_synonym synonyms = "(string, (string \<times> rat) list) jsmap"

record ccy_env =
  ccSplit :: "string \<Rightarrow> string \<times> string"
  ccForex :: "string list"
  ccFl :: "rat \<Rightarrow> rat"
  ccTrades :: "string \<Rightarrow> int \<Rightarrow> conv_error + rat option"
  ccCandles :: "candle list"
  ccTempCandles :: "candle list list"
  ccParse :: "string \<Rightarrow> jsval"
  ccDbCurrencies :: "obj list"
  ccApiCurrencies :: "conv_error + obj list"
  ccNow :: int

subsection \<open>Synonyms of currencies\<close>

record synonyms_state =
  syUpdatedAt :: int
  syCurrencies :: "obj list"
  sySynonyms :: synonyms

definition walletFx_pairs :: "ccy_env \<Rightarrow> jsval \<Rightarrow> (string \<times> rat) list" where
  "walletFx_pairs env walletFx =
     (case (case walletFx of VArr xs \<Rightarrow> walletFx | VStr s \<Rightarrow> ccParse env s | _ \<Rightarrow> VNull) of
        VArr items \<Rightarrow> concat (map (\<lambda>item. case item of
            VArr (VStr s # VNum x # rest) \<Rightarrow> if s \<noteq> [] then [(s, x)] else []
          | _ \<Rightarrow> []) items)
      | _ \<Rightarrow> [])"

definition synonyms_of :: "ccy_env \<Rightarrow> obj list \<Rightarrow> synonyms" where
  "synonyms_of env currencies = foldl (\<lambda>accum cur. case get cur ''id'' of
       VStr i \<Rightarrow> if i = [] \<or> walletFx_pairs env (get cur ''walletFx'') = [] then accum
                 else AList.update i (walletFx_pairs env (get cur ''walletFx'')) accum
     | _ \<Rightarrow> accum) [] currencies"

text \<open>The map is kept for twenty minutes; when neither the table nor the exchange has currencies, the last one stays.\<close>

definition getCurrenciesSynonymous :: "ccy_env \<Rightarrow> synonyms_state \<Rightarrow> synonyms \<times> synonyms_state" where
  "getCurrenciesSynonymous env s =
     (if ccNow env - syUpdatedAt s < 20 * 60 * 1000 \<and> syCurrencies s \<noteq> [] then (sySynonyms s, s)
      else
        let found = (if ccDbCurrencies env \<noteq> [] then ccDbCurrencies env
                     else (case ccApiCurrencies env of Inr cs \<Rightarrow> cs | Inl e \<Rightarrow> []));
            syn = synonyms_of env found
        in if found = [] then (sySynonyms s, s\<lparr>syCurrencies := []\<rparr>)
           else (syn, \<lparr>syUpdatedAt = ccNow env, syCurrencies = found, sySynonyms = syn\<rparr>))"

definition getCurrenciesSynonymousIfEmpty :: "ccy_env \<Rightarrow> synonyms \<Rightarrow> synonyms_state \<Rightarrow> synonyms \<times> synonyms_state" where
  "getCurrenciesSynonymousIfEmpty env syn s = (if syn \<noteq> [] then (syn, s) else getCurrenciesSynonymous env s)"

subsection \<open>Names of pairs\<close>

definition ends_F0 :: "string \<Rightarrow> bool" where
  "ends_F0 s \<longleftrightarrow> 2 \<le> length s \<and> s ! (length s - 2) \<in> {CHR ''F'', CHR ''f''} \<and> last s = CHR ''0''"

definition getConvertingSymb :: "string \<Rightarrow> string" where
  "getConvertingSymb symb = (if length symb < 4 then symb
     else if ends_F0 symb then take (length symb - 2) symb else symb)"

definition flag_of :: "string \<Rightarrow> string" where
  "flag_of symb = (case symb of c # cs \<Rightarrow> if c = CHR ''t'' \<or> c = CHR ''f'' then [c] else [] | [] \<Rightarrow> [])"

definition colon_if :: "bool \<Rightarrow> string" where
  "colon_if b = (if b then '':'' else [])"

definition getPair :: "string \<Rightarrow> string \<Rightarrow> string" where
  "getPair itemSymbol convertTo =
     (let symb = getConvertingSymb itemSymbol in ''t'' @ symb @ colon_if (3 < length symb) @ convertTo)"

definition getPairFromPair :: "ccy_env \<Rightarrow> string \<Rightarrow> string" where
  "getPairFromPair env symb =
     (if length symb < 8 \<or> flag_of symb = [] then symb
      else let (firstSymb, lastSymb) = ccSplit env symb;
               f = getConvertingSymb firstSymb; l = getConvertingSymb lastSymb
           in flag_of symb @ f @ colon_if (3 < length f \<or> 3 < length l) @ l)"

definition getSynonymous :: "ccy_env \<Rightarrow> string \<Rightarrow> synonyms \<Rightarrow> (string \<times> rat) list" where
  "getSynonymous env symb syn =
     (let (firstSymb, lastSymb) = ccSplit env symb; prefix = flag_of symb;
          pair = (\<lambda>s. prefix @ s @ colon_if (s \<noteq> [] \<and> lastSymb \<noteq> [] \<and> (3 < length s \<or> 3 < length lastSymb)) @ lastSymb)
      in concat (map (\<lambda>(s, conversion). (pair s, conversion) #
           (if 4 \<le> length s \<and> ends_F0 s then [(pair (getConvertingSymb s), conversion)] else []))
         (nullish (map_of syn firstSymb) [])))"

subsection \<open>Finding a price, also by synonyms\<close>

fun first_synonym_price ::
  "ccy_env \<Rightarrow> (string \<Rightarrow> conv_error + rat option) \<Rightarrow> (string \<times> rat) list \<Rightarrow> conv_error + rat option" where
  "first_synonym_price env finderFn [] = Inr None"
| "first_synonym_price env finderFn ((symb, conversion) # syns) =
     bind_err (finderFn symb) (\<lambda>price. case price of
         Some p \<Rightarrow> Inr (Some (ccFl env (p * conversion)))
       | None \<Rightarrow> first_synonym_price env finderFn syns)"

definition priceFinder ::
  "ccy_env \<Rightarrow> (string \<Rightarrow> conv_error + rat option) \<Rightarrow> string \<Rightarrow> synonyms \<Rightarrow> conv_error + rat option" where
  "priceFinder env finderFn reqSymb syn =
     (let symb = getPairFromPair env reqSymb in
      bind_err (finderFn symb) (\<lambda>price. case price of
          Some p \<Rightarrow> Inr (Some p)
        | None \<Rightarrow> first_synonym_price env finderFn (getSynonymous env symb syn)))"

definition syncPriceFinder :: "ccy_env \<Rightarrow> (string \<Rightarrow> rat option) \<Rightarrow> string \<Rightarrow> synonyms \<Rightarrow> rat option" where
  "syncPriceFinder env finderFn reqSymb syn =
     (let symb = getPairFromPair env reqSymb in
      case finderFn symb of
        Some p \<Rightarrow> Some p
      | None \<Rightarrow> (case find (\<lambda>(s, conversion). finderFn s \<noteq> None) (getSynonymous env symb syn) of
            None \<Rightarrow> None
          | Some (s, conversion) \<Rightarrow> map_option (\<lambda>p. ccFl env (p * conversion)) (finderFn s)))"

subsection \<open>Prices from the tables and the exchange\<close>

definition getPublicTradesPrice :: "ccy_env \<Rightarrow> string \<Rightarrow> int option \<Rightarrow> conv_error + rat option" where
  "getPublicTradesPrice env reqSymb endMts =
     (case endMts of
        None \<Rightarrow> Inr None
      | Some e \<Rightarrow> if reqSymb = [] then Inr None else ccTrades env (getPairFromPair env reqSymb) e)"

text \<open>The first row in the order of a collection: the newest one.\<close>

definition latest_first :: "candle list \<Rightarrow> candle list" where
  "latest_first = sort_by (\<lambda>a b. if cMts a = cMts b then 0 else if cMts a > cMts b then - 1 else 1)"

definition newest_candle :: "string \<Rightarrow> int \<Rightarrow> candle list \<Rightarrow> candle option" where
  "newest_candle symb e candles = find (\<lambda>c. True) (latest_first (filter (\<lambda>c. cSymbol c = symb \<and> cMts c \<le> e) candles))"

definition close_of :: "candle option \<Rightarrow> rat option" where
  "close_of c = Option.bind c cClose"

definition getCandleClosedPrice :: "ccy_env \<Rightarrow> bool \<Rightarrow> string \<Rightarrow> int option \<Rightarrow> rat option" where
  "getCandleClosedPrice env shouldTempTablesBeIncluded reqSymb endMts =
     (case endMts of
        None \<Rightarrow> None
      | Some e \<Rightarrow>
          if reqSymb = [] then None
          else
            let symb = getPairFromPair env reqSymb; candle = newest_candle symb e (ccCandles env) in
            if \<not> shouldTempTablesBeIncluded then close_of candle
            else close_of (find (\<lambda>c. True) (latest_first
                   (List.map_filter id (candle # map (newest_candle symb e) (ccTempCandles env))))))"

datatype price_coll = Candles_Coll | Public_Trades_Coll

definition getPriceMethod :: "ccy_env \<Rightarrow> price_coll \<Rightarrow> bool \<Rightarrow> string \<Rightarrow> int option \<Rightarrow> conv_error + rat option" where
  "getPriceMethod env collName temps reqSymb e = (case collName of
       Candles_Coll \<Rightarrow> Inr (getCandleClosedPrice env temps reqSymb e)
     | Public_Trades_Coll \<Rightarrow> getPublicTradesPrice env reqSymb e)"

definition isRequiredConvFromForex :: "ccy_env \<Rightarrow> string \<Rightarrow> string \<Rightarrow> bool" where
  "isRequiredConvFromForex env convertTo symb \<longleftrightarrow> symb \<in> set (filter (\<lambda>s. s \<noteq> convertTo) (ccForex env))"

definition isRequiredConvToForex :: "ccy_env \<Rightarrow> string \<Rightarrow> bool" where
  "isRequiredConvToForex env convertTo \<longleftrightarrow> convertTo \<in> set (ccForex env)"

text \<open>A quotient of two prices; a price of zero is none.\<close>

definition quotient :: "ccy_env \<Rightarrow> rat option \<Rightarrow> rat option \<Rightarrow> rat option" where
  "quotient env a b = (case (a, b) of
       (Some x, Some y) \<Rightarrow> if x = 0 \<or> y = 0 then None else Some (ccFl env (x / y))
     | _ \<Rightarrow> None)"

record conv_schema =
  csConvertTo :: string
  csSymbolField :: string
  csDateField :: string
  csMts :: "int option"
  csTemps :: bool
  csConvFields :: "(string \<times> string list) list"
  csSynonyms :: synonyms

definition getPriceOf :: "ccy_env \<Rightarrow> price_coll \<Rightarrow> bool \<Rightarrow> string \<Rightarrow> string \<Rightarrow> int option \<Rightarrow> conv_error + rat option" where
  "getPriceOf env collName temps symb convertTo e =
     (let price = (\<lambda>s. getPriceMethod env collName temps s e) in
      if isRequiredConvFromForex env convertTo symb then
        bind_err (price (''tBTC'' @ symb)) (\<lambda>btcPriceIn.
        bind_err (price (''tBTC'' @ convertTo)) (\<lambda>btcPriceOut. Inr (quotient env btcPriceOut btcPriceIn)))
      else if \<not> isRequiredConvToForex env convertTo then
        bind_err (price (''t'' @ symb @ ''USD'')) (\<lambda>usdPriceIn.
        bind_err (price (''t'' @ convertTo @ ''USD'')) (\<lambda>usdPriceOut. Inr (quotient env usdPriceIn usdPriceOut)))
      else price (getPair symb convertTo))"

subsection \<open>Converting rows\<close>

text \<open>\<^verbatim>\<open>Number.isInteger(v) ? v\<close>: times are whole numbers.\<close>

definition int_val :: "jsval \<Rightarrow> int option" where
  "int_val v = (case v of VNum x \<Rightarrow> if x = of_int \<lfloor>x\<rfloor> then Some \<lfloor>x\<rfloor> else None | _ \<Rightarrow> None)"

definition text_val :: "jsval \<Rightarrow> string" where
  "text_val v = (case v of VStr s \<Rightarrow> s | _ \<Rightarrow> [])"

definition apply_field :: "ccy_env \<Rightarrow> rat \<Rightarrow> obj \<Rightarrow> string \<times> string list \<Rightarrow> obj" where
  "apply_field env price item field = (case field of (inputField, outputField) \<Rightarrow>
     if inputField = [] \<or> outputField = [] \<or> [] \<in> set outputField then item
     else foldl (\<lambda>it fieldName. case get it inputField of
            VNum x \<Rightarrow> put it fieldName (VNum (ccFl env (x * price)))
          | _ \<Rightarrow> it) item outputField)"

definition apply_price :: "ccy_env \<Rightarrow> (string \<times> string list) list \<Rightarrow> rat \<Rightarrow> obj \<Rightarrow> obj" where
  "apply_price env convFields price item = foldl (apply_field env price) item convFields"

definition convert_item :: "ccy_env \<Rightarrow> price_coll \<Rightarrow> conv_schema \<Rightarrow> synonyms \<Rightarrow> jsval \<Rightarrow> conv_error + jsval" where
  "convert_item env collName cs syn ob =
     (if \<not> is_object ob then Inr ob
      else
        let item = spread ob; itemSymbol = text_val (get item (csSymbolField cs)) in
        if csConvertTo cs = [] \<or> csSymbolField cs = [] \<or> itemSymbol = [] \<or> csConvFields cs = [] then Inr (VObj item)
        else
          let symb = getConvertingSymb itemSymbol;
              e = (if csMts cs \<noteq> None then csMts cs else int_val (get item (csDateField cs)))
          in bind_err (if csConvertTo cs = symb then Inr (Some 1)
               else priceFinder env (\<lambda>s. getPriceOf env collName (csTemps cs) s (csConvertTo cs) e) symb syn) (\<lambda>price.
             case price of
               None \<Rightarrow> Inr (VObj item)
             | Some p \<Rightarrow> Inr (VObj (apply_price env (csConvFields cs) p item))))"

fun map_err :: "('a \<Rightarrow> 'e + 'b) \<Rightarrow> 'a list \<Rightarrow> 'e + 'b list" where
  "map_err f [] = Inr []"
| "map_err f (x # xs) = bind_err (f x) (\<lambda>y. bind_err (map_err f xs) (\<lambda>ys. Inr (y # ys)))"

definition over_data :: "(jsval \<Rightarrow> 'e + jsval) \<Rightarrow> jsval \<Rightarrow> 'e + jsval" where
  "over_data f data = (case data of
       VArr elems \<Rightarrow> bind_err (map_err f elems) (\<lambda>res. Inr (VArr res))
     | _ \<Rightarrow> f data)"

definition convertBy :: "ccy_env \<Rightarrow> price_coll \<Rightarrow> jsval \<Rightarrow> conv_schema \<Rightarrow> synonyms_state \<Rightarrow> (conv_error + jsval) \<times> synonyms_state" where
  "convertBy env collName data cs s =
     (let (syn, s') = getCurrenciesSynonymousIfEmpty env (csSynonyms cs) s
      in (over_data (convert_item env collName cs syn) data, s'))"

text \<open>One way, and when it throws, the other.\<close>

definition other_coll :: "price_coll \<Rightarrow> price_coll" where
  "other_coll c = (case c of Candles_Coll \<Rightarrow> Public_Trades_Coll | Public_Trades_Coll \<Rightarrow> Candles_Coll)"

definition first_coll :: "bool \<Rightarrow> price_coll" where
  "first_coll shouldTryPublicTradesFirst = (if shouldTryPublicTradesFirst then Public_Trades_Coll else Candles_Coll)"

definition convert :: "ccy_env \<Rightarrow> bool \<Rightarrow> jsval \<Rightarrow> conv_schema \<Rightarrow> synonyms_state \<Rightarrow> (conv_error + jsval) \<times> synonyms_state" where
  "convert env shouldTryPublicTradesFirst data cs s =
     (let c = first_coll shouldTryPublicTradesFirst in
      case convertBy env c data cs s of
        (Inr res, s') \<Rightarrow> (Inr res, s')
      | (Inl e, s') \<Rightarrow> convertBy env (other_coll c) data cs s')"

subsection \<open>One price\<close>

definition selectGettingPriceWay ::
  "ccy_env \<Rightarrow> price_coll \<Rightarrow> string \<Rightarrow> int option \<Rightarrow> synonyms_state \<Rightarrow> (conv_error + rat option) \<times> synonyms_state" where
  "selectGettingPriceWay env c reqSymb mts s = (case c of
       Public_Trades_Coll \<Rightarrow> (getPublicTradesPrice env reqSymb mts, s)
     | Candles_Coll \<Rightarrow>
         let finderFn = (\<lambda>symb. let (firstSymb, lastSymb) = ccSplit env symb
               in getPriceOf env Candles_Coll False firstSymb lastSymb mts) in
         case finderFn (getPairFromPair env reqSymb) of
           Inr None \<Rightarrow> let (syn, s') = getCurrenciesSynonymous env s in (priceFinder env finderFn reqSymb syn, s')
         | r \<Rightarrow> (r, s))"

text \<open>No price is an error of the first way; then the second one is tried, and the first error stands when it has none.\<close>

definition getPrice ::
  "ccy_env \<Rightarrow> bool \<Rightarrow> string \<Rightarrow> int option \<Rightarrow> synonyms_state \<Rightarrow> (conv_error + rat) \<times> synonyms_state" where
  "getPrice env shouldTryPublicTradesFirst reqSymb mts s =
     (let c = first_coll shouldTryPublicTradesFirst; (r, s') = selectGettingPriceWay env c reqSymb mts s in
      case r of
        Inr (Some p) \<Rightarrow> (Inr p, s')
      | _ \<Rightarrow>
          let err = (case r of Inl e \<Rightarrow> e | Inr _ \<Rightarrow> Currency_Conversion_Data_Finding_Error);
              (r2, s2) = selectGettingPriceWay env (other_coll c) reqSymb mts s'
          in (case r2 of Inl e \<Rightarrow> Inl e | Inr None \<Rightarrow> Inl err | Inr (Some p) \<Rightarrow> Inr p, s2))"

subsection \<open>Prices from given rows\<close>

definition findCandlesPrice :: "candle list \<Rightarrow> string \<Rightarrow> int \<Rightarrow> rat option" where
  "findCandlesPrice candles symb e =
     close_of (find (\<lambda>c. symb = cSymbol c \<and> cClose c \<noteq> None \<and> cMts c \<le> e) candles)"

definition findPublicTradesPrice :: "public_trade list \<Rightarrow> string \<Rightarrow> int \<Rightarrow> rat option" where
  "findPublicTradesPrice publicTrades symb e =
     Option.bind (find (\<lambda>t. symb = ctSymbol t \<and> ctPrice t \<noteq> None \<and> ctMts t \<le> e) publicTrades) ctPrice"

definition price_from_data :: "ccy_env \<Rightarrow> (string \<Rightarrow> rat option) \<Rightarrow> string \<Rightarrow> rat option" where
  "price_from_data env findPrice symb =
     (let (firstSymb, lastSymb) = ccSplit env symb in
      if firstSymb \<noteq> [] \<and> firstSymb = lastSymb then Some 1
      else if firstSymb \<in> set (filter (\<lambda>s. s \<noteq> lastSymb) (ccForex env))
        then quotient env (findPrice (''tBTC'' @ lastSymb)) (findPrice (''tBTC'' @ firstSymb))
      else findPrice symb)"

definition getCandlesPriceFromData :: "ccy_env \<Rightarrow> candle list \<Rightarrow> string \<Rightarrow> int \<Rightarrow> rat option" where
  "getCandlesPriceFromData env candles symb e = price_from_data env (\<lambda>s. findCandlesPrice candles s e) symb"

definition getPublicTradesPriceFromData :: "ccy_env \<Rightarrow> public_trade list \<Rightarrow> string \<Rightarrow> int \<Rightarrow> rat option" where
  "getPublicTradesPriceFromData env publicTrades symb e =
     price_from_data env (\<lambda>s. findPublicTradesPrice publicTrades s e) symb"

definition getPriceFromData ::
  "ccy_env \<Rightarrow> string \<Rightarrow> int \<Rightarrow> candle list option \<Rightarrow> public_trade list option \<Rightarrow> synonyms \<Rightarrow> conv_error + rat option" where
  "getPriceFromData env reqSymb e candles publicTrades syn = (case candles of
       Some cs \<Rightarrow> Inr (syncPriceFinder env (\<lambda>s. getCandlesPriceFromData env cs s e) reqSymb syn)
     | None \<Rightarrow> (case publicTrades of
         Some ts \<Rightarrow> Inr (syncPriceFinder env (\<lambda>s. getPublicTradesPriceFromData env ts s e) reqSymb syn)
       | None \<Rightarrow> Inl Currency_Conversion_Data_Finding_Error))"

text \<open>The daily candles from a day before the start, the newest first.\<close>

definition getCandles :: "ccy_env \<Rightarrow> int \<Rightarrow> int \<Rightarrow> candle list" where
  "getCandles env startMts endMts =
     (let start = (if startMts \<noteq> 0 then startMts - 24 * 60 * 60 * 1000 else startMts) in
      latest_first (filter (\<lambda>c. cTimeframe c = ''1D'' \<and> cMts c \<le> endMts \<and> start \<le> cMts c) (ccCandles env)))"

subsection \<open>Many rows at once\<close>

definition convert_many_item :: "ccy_env \<Rightarrow> candle list \<Rightarrow> conv_schema \<Rightarrow> synonyms \<Rightarrow> jsval \<Rightarrow> conv_error + jsval" where
  "convert_many_item env candles cs syn ob =
     (if \<not> is_object ob then Inr ob
      else
        let item = spread ob; itemSymbol = text_val (get item (csSymbolField cs)) in
        case (itemSymbol, int_val (get item (csDateField cs))) of
          (c # cs', Some mts) \<Rightarrow>
            let symb = getConvertingSymb (snd (ccSplit env itemSymbol)) in
            bind_err (if csConvertTo cs = symb then Inr (Some 1)
               else priceFinder env (\<lambda>s. Inr (getCandlesPriceFromData env candles s mts)) (''t'' @ symb @ csConvertTo cs) syn)
              (\<lambda>price. case price of
                 None \<Rightarrow> Inr (VObj item)
               | Some p \<Rightarrow> Inr (VObj (apply_price env (csConvFields cs) p item)))
        | _ \<Rightarrow> Inr (VObj item))"

definition edge_mts :: "string \<Rightarrow> jsval \<Rightarrow> int option" where
  "edge_mts dateField v = (if is_object v then int_val (get (spread v) dateField) else None)"

definition convertManyByCandles :: "ccy_env \<Rightarrow> jsval \<Rightarrow> conv_schema \<Rightarrow> synonyms_state \<Rightarrow> (conv_error + jsval) \<times> synonyms_state" where
  "convertManyByCandles env data cs s =
     (let elems = (case data of VArr xs \<Rightarrow> xs | v \<Rightarrow> [v]) in
      if csConvFields cs = [] \<or> csConvertTo cs = [] \<or> csSymbolField cs = [] \<or> csDateField cs = [] \<or> elems = []
      then (Inr data, s)
      else case (edge_mts (csDateField cs) (hd elems), edge_mts (csDateField cs) (last elems)) of
          (Some endMts, Some startMts) \<Rightarrow>
            let (syn, s') = getCurrenciesSynonymousIfEmpty env (csSynonyms cs) s;
                candles = getCandles env startMts endMts
            in (over_data (convert_many_item env candles cs syn) data, s')
        | _ \<Rightarrow> (Inr data, s))"

end
