(* ===== verification/Ccy_Convert_Props.thy ===== *)
theory Ccy_Convert_Props
  imports Ccy_Convert
begin

text \<open>
  What holds of the conversion: the two price finders agree, rates between forex currencies are
  reciprocal, and many rows are converted at once with the prices that each would get alone.
\<close>

subsection \<open>Sorting and filtering\<close>

lemma filter_insert_by:
  assumes "orders cmp A" "x \<in> A" "set ys \<subseteq> A" "sorted_wrt (\<lambda>a b. cmp a b \<le> 0) ys"
  shows "filter P (insert_by cmp x ys) = (if P x then insert_by cmp x (filter P ys) else filter P ys)"
  using assms(3,4)
proof (induction ys)
  case (Cons y ys)
  show ?case
  proof (cases "cmp x y \<le> 0")
    case False
    then show ?thesis using Cons by (auto split: if_splits)
  next
    case True
    have "cmp x z \<le> 0" if "z \<in> set ys" for z
    proof -
      have "cmp y z \<le> 0" "z \<in> A" "y \<in> A" using that Cons.prems by auto
      then show ?thesis using True assms(1,2) unfolding orders_def by blast
    qed
    then have "insert_by cmp x (filter P ys) = x # filter P ys"
      by (cases "filter P ys") (auto dest: filter_eq_ConsD)
    then show ?thesis using True by auto
  qed
qed simp

lemma sort_by_simps: "sort_by cmp [] = []" "sort_by cmp (x # xs) = insert_by cmp x (sort_by cmp xs)"
  by (simp_all add: sort_by_def)

lemma filter_sort_by_in:
  assumes o: "orders cmp A"
  shows "set xs \<subseteq> A \<Longrightarrow> filter P (sort_by cmp xs) = sort_by cmp (filter P xs)"
proof (induction xs)
  case (Cons x xs)
  have xs: "x \<in> A" "set xs \<subseteq> A" using Cons.prems by simp_all
  have "orders cmp (set xs)" using o xs(2) unfolding orders_def by blast
  then have s: "sorted_wrt (\<lambda>a b. cmp a b \<le> 0) (sort_by cmp xs)" by (rule sorted_sort_by)
  have "set (sort_by cmp xs) \<subseteq> A" using xs(2) by simp
  from filter_insert_by[OF o xs(1) this s, of P] show ?case
    using Cons.IH[OF xs(2)] by (simp add: sort_by_simps)
qed (simp add: sort_by_simps)

lemma filter_sort_by:
  "orders cmp (set xs) \<Longrightarrow> filter P (sort_by cmp xs) = sort_by cmp (filter P xs)"
  by (erule filter_sort_by_in) simp

lemma find_head: "find P xs = find (\<lambda>x. True) (filter P xs)"
  by (induction xs) auto

definition newer :: "candle \<Rightarrow> candle \<Rightarrow> int" where
  "newer a b = (if cMts a = cMts b then 0 else if cMts a > cMts b then - 1 else 1)"

lemma latest_first_sort: "latest_first = sort_by newer"
  by (simp add: latest_first_def newer_def[abs_def])

lemma newer_orders: "orders newer A"
  by (auto simp: orders_def newer_def split: if_splits)

lemma latest_first_sorted: "sorted_wrt (\<lambda>a b. cMts a \<ge> cMts b) (latest_first cs)"
proof -
  have "sorted_wrt (\<lambda>a b. newer a b \<le> 0) (latest_first cs)"
    unfolding latest_first_sort by (rule sorted_sort_by[OF newer_orders])
  then show ?thesis by (rule sorted_wrt_mono_rel[rotated]) (auto simp: newer_def split: if_splits)
qed

lemma newest_candle_newest:
  assumes "newest_candle s e cs = Some c"
  shows "c \<in> set cs \<and> cSymbol c = s \<and> cMts c \<le> e \<and> (\<nexists>d. d \<in> set cs \<and> cSymbol d = s \<and> cMts d \<le> e \<and> cMts d > cMts c)"
proof -
  define ys where "ys = latest_first (filter (\<lambda>c. cSymbol c = s \<and> cMts c \<le> e) cs)"
  have set: "set ys = {c \<in> set cs. cSymbol c = s \<and> cMts c \<le> e}" by (auto simp: ys_def latest_first_sort)
  from assms obtain zs where ys: "ys = c # zs" by (cases ys) (auto simp: newest_candle_def ys_def[symmetric])
  have "cMts d \<le> cMts c" if "d \<in> set ys" for d
    using that latest_first_sorted[of "filter (\<lambda>c. cSymbol c = s \<and> cMts c \<le> e) cs"] by (auto simp: ys_def[symmetric] ys)
  then show ?thesis using set ys by (auto simp: not_less[symmetric])
qed

subsection \<open>Prices of the range and of the table\<close>

text \<open>
  A range of candles knows the price of a symbol at a time when it reaches back to the newest candle
  before that time.
\<close>

lemma range_price:
  assumes rows: "list_all (\<lambda>c. cTimeframe c = ''1D'' \<and> cClose c \<noteq> None) (ccCandles env)"
    and t: "t \<le> e"
    and reach: "map_option cMts (newest_candle s t (ccCandles env)) \<noteq> None \<Longrightarrow>
       (if st \<noteq> 0 then st - 24 * 60 * 60 * 1000 else st) \<le> the (map_option cMts (newest_candle s t (ccCandles env)))"
  shows "findCandlesPrice (getCandles env st e) s t = close_of (newest_candle s t (ccCandles env))"
proof -
  define b where "b = (if st \<noteq> 0 then st - 24 * 60 * 60 * 1000 else st)"
  let ?P = "\<lambda>c. cSymbol c = s \<and> cMts c \<le> t"
  define ys where "ys = latest_first (filter ?P (ccCandles env))"
  define table where "table = ccCandles env"
  have row: "c \<in> set table \<Longrightarrow> cTimeframe c = ''1D'' \<and> cClose c \<noteq> None" for c
    using rows by (simp add: list_all_iff table_def)
  have "findCandlesPrice (getCandles env st e) s t =
      close_of (find (\<lambda>x. True) (filter (\<lambda>c. s = cSymbol c \<and> cClose c \<noteq> None \<and> cMts c \<le> t) (getCandles env st e)))"
    unfolding findCandlesPrice_def by (subst find_head) simp
  also have "filter (\<lambda>c. s = cSymbol c \<and> cClose c \<noteq> None \<and> cMts c \<le> t) (getCandles env st e) =
      latest_first (filter (\<lambda>c. s = cSymbol c \<and> cClose c \<noteq> None \<and> cMts c \<le> t)
        (filter (\<lambda>c. cTimeframe c = ''1D'' \<and> cMts c \<le> e \<and> b \<le> cMts c) table))"
    unfolding getCandles_def Let_def latest_first_sort b_def table_def by (rule filter_sort_by[OF newer_orders])
  also have "filter (\<lambda>c. s = cSymbol c \<and> cClose c \<noteq> None \<and> cMts c \<le> t)
        (filter (\<lambda>c. cTimeframe c = ''1D'' \<and> cMts c \<le> e \<and> b \<le> cMts c) table) = filter (\<lambda>c. b \<le> cMts c) (filter ?P table)"
    using row t by (auto simp: intro!: filter_cong)
  also have "latest_first (filter (\<lambda>c. b \<le> cMts c) (filter ?P table)) = filter (\<lambda>c. b \<le> cMts c) ys"
    unfolding ys_def latest_first_sort table_def by (rule filter_sort_by[OF newer_orders, symmetric])
  also have "find (\<lambda>x. True) (filter (\<lambda>c. b \<le> cMts c) ys) = find (\<lambda>x. True) ys"
  proof (cases ys)
    case (Cons c zs)
    then have "newest_candle s t (ccCandles env) = Some c" by (simp add: newest_candle_def ys_def[symmetric])
    then have "b \<le> cMts c" using reach by (simp add: b_def)
    then show ?thesis using Cons by simp
  qed simp
  also have "\<dots> = newest_candle s t (ccCandles env)" by (simp add: newest_candle_def ys_def)
  finally show ?thesis .
qed

text \<open>The range holds the newest candle of the symbol before the time; the symbol needs no renaming.\<close>

definition known_back :: "ccy_env \<Rightarrow> int \<Rightarrow> int \<Rightarrow> string \<Rightarrow> bool" where
  "known_back env st t s = (case newest_candle s t (ccCandles env) of None \<Rightarrow> True
     | Some c \<Rightarrow> (if st \<noteq> 0 then st - 24 * 60 * 60 * 1000 else st) \<le> cMts c)"

definition plain_pair :: "ccy_env \<Rightarrow> string \<Rightarrow> bool" where
  "plain_pair env s \<longleftrightarrow> s \<noteq> [] \<and> getPairFromPair env s = s"


definition sample_candle :: "int \<Rightarrow> rat \<Rightarrow> string \<Rightarrow> candle" where
  "sample_candle t p s = \<lparr>cMts = t, cClose = Some p, cSymbol = s, cTimeframe = ''1D''\<rparr>"

definition sample_ccy_env :: ccy_env where
  "sample_ccy_env = \<lparr>ccSplit = (\<lambda>s. (take 3 (tl s), drop 4 s)), ccForex = [''EUR'', ''JPY'', ''USD''], ccFl = (\<lambda>x. x),
     ccTrades = (\<lambda>_ _. Inr None),
     ccCandles = [sample_candle 100000000 20000 ''tBTCEUR'', sample_candle 200000000 25000 ''tBTCEUR'',
       sample_candle 100000000 30000 ''tBTCUSD'', sample_candle 100000000 3000000 ''tBTCJPY''],
     ccTempCandles = [], ccParse = (\<lambda>_. VNull), ccDbCurrencies = [], ccApiCurrencies = Inr [], ccNow = 0\<rparr>"

lemmas sample_price_simps = sample_ccy_env_def sample_candle_def plain_pair_def known_back_def newest_candle_def
  latest_first_sort newer_def sort_by_simps getPair_def getConvertingSymb_def getPairFromPair_def colon_if_def flag_of_def


subsection \<open>The two finders\<close>

lemma first_synonym_price_find:
  "first_synonym_price env (\<lambda>s. Inr (f s)) syns =
   Inr (case find (\<lambda>(s, conversion). f s \<noteq> None) syns of None \<Rightarrow> None
     | Some (s, conversion) \<Rightarrow> map_option (\<lambda>p. ccFl env (p * conversion)) (f s))"
  by (induction syns) (auto split: option.split)

text \<open>The finder that waits for its prices and the one that does not are the same function of the prices.\<close>

theorem finders_agree:
  "priceFinder env (\<lambda>s. Inr (f s)) reqSymb syn = Inr (syncPriceFinder env f reqSymb syn)"
  by (simp add: priceFinder_def syncPriceFinder_def first_synonym_price_find Let_def split: option.split)

subsection \<open>Rates between forex currencies\<close>

text \<open>
  Two forex currencies are converted by way of bitcoin: without rounding the rate one way is the
  inverse of the rate the other way, and over a third currency it is the same rate.
\<close>

theorem forex_rates_consistent:
  assumes "ccFl env = (\<lambda>x. x)" "list_all (\<lambda>s. s \<in> set (ccForex env)) [a, b, c]" "distinct [a, b, c]"
    and "getPriceOf env coll temps a b e = Inr (Some p)" "getPriceOf env coll temps b c e = Inr (Some q)"
  shows "getPriceOf env coll temps b a e = Inr (Some (1 / p)) \<and> getPriceOf env coll temps a c e = Inr (Some (p * q))"
proof -
  define f where "f = (\<lambda>s. getPriceMethod env coll temps (''tBTC'' @ s) e)"
  have g: "getPriceOf env coll temps x y e =
      bind_err (f x) (\<lambda>btcPriceIn. bind_err (f y) (\<lambda>btcPriceOut. Inr (quotient env btcPriceOut btcPriceIn)))"
    if "x \<in> set (ccForex env)" "x \<noteq> y" for x y
    using that by (simp add: getPriceOf_def isRequiredConvFromForex_def f_def)
  have q: "quotient env u v = Some r \<Longrightarrow> \<exists>x y. u = Some x \<and> v = Some y \<and> x \<noteq> 0 \<and> y \<noteq> 0 \<and> r = x / y" for u v r
    using assms(1) by (auto simp: quotient_def split: option.splits if_splits)
  obtain x y z where "f a = Inr (Some x)" "f b = Inr (Some y)" "f c = Inr (Some z)" "x \<noteq> 0" "y \<noteq> 0" "z \<noteq> 0"
    "p = y / x" "q = z / y"
    using assms(2-5) by (auto simp: g bind_err_eq_Inr dest!: q)
  then show ?thesis using assms(1-3) g[of b a] g[of a c] by (auto simp: quotient_def)
qed

lemma forex_rates_consistent_witness:
  "getPriceOf sample_ccy_env Candles_Coll False ''USD'' ''EUR'' (Some 300000000) = Inr (Some (5 / 6)) \<and>
   getPriceOf sample_ccy_env Candles_Coll False ''EUR'' ''JPY'' (Some 300000000) = Inr (Some 120)"
proof -
  have p: "getPriceOf sample_ccy_env Candles_Coll False ''EUR'' ''USD'' (Some 300000000) = Inr (Some (6 / 5))"
    "getPriceOf sample_ccy_env Candles_Coll False ''USD'' ''JPY'' (Some 300000000) = Inr (Some 100)"
    by (simp_all add: getPriceOf_def isRequiredConvFromForex_def getPriceMethod_def getCandleClosedPrice_def close_of_def
        quotient_def sample_price_simps)
  have f: "ccFl sample_ccy_env = (\<lambda>x. x)" "list_all (\<lambda>s. s \<in> set (ccForex sample_ccy_env)) [''EUR'', ''USD'', ''JPY'']"
    "distinct [''EUR'', ''USD'', ''JPY'']" by (simp_all add: sample_ccy_env_def)
  show ?thesis using forex_rates_consistent[OF f p] by simp
qed

end
