(* ===== verification/Js_Pages.thy ===== *)
theory Js_Pages
  imports Js_Util
begin

text \<open>
  Reading a table page by page: the first rows, in an order, of those that a query selects. What a
  comparison must promise is the locale \<open>paging\<close>; the hooks that walk through tables implement it.
\<close>

definition page_of :: "('a \<Rightarrow> 'a \<Rightarrow> int) \<Rightarrow> nat \<Rightarrow> ('a \<Rightarrow> bool) \<Rightarrow> 'a list \<Rightarrow> 'a list" where
  "page_of cmp limit wanted rows = take limit (sort_by cmp (filter wanted rows))"

lemma length_sort_by [simp]: "length (sort_by cmp xs) = length xs"
  by (metis mset_sort_by size_mset)

lemma distinct_sort_by [simp]: "distinct (sort_by cmp xs) = distinct xs"
  by (rule mset_eq_imp_distinct_iff) simp

lemma page_of_Nil_iff: "page_of cmp limit P rows = [] \<longleftrightarrow> limit = 0 \<or> filter P rows = []"
proof -
  have "sort_by cmp xs = [] \<longleftrightarrow> xs = []" for xs by (metis length_0_conv length_sort_by)
  then show ?thesis by (simp add: page_of_def)
qed

lemma page_of_wanted: "r \<in> set (page_of cmp limit P rows) \<Longrightarrow> r \<in> set rows \<and> P r"
  unfolding page_of_def by (auto dest!: in_set_takeD)

lemma set_page_of: "set (page_of cmp limit P rows) \<subseteq> {r \<in> set rows. P r}"
  using page_of_wanted by fastforce

lemma distinct_page_of: "distinct rows \<Longrightarrow> distinct (page_of cmp limit P rows)"
  by (simp add: page_of_def)

text \<open>A page leaves fewer rows for the pages after it.\<close>

lemma length_after_page:
  assumes "distinct rows" "elems = page_of cmp limit P rows" "length (filter P rows) \<le> Suc fuel * limit"
  shows "length (filter (\<lambda>r. P r \<and> r \<notin> set elems) rows) \<le> fuel * limit"
proof -
  define n where "n = length (filter P rows)"
  have e: "distinct elems" "set elems \<subseteq> set (filter P rows)"
    using assms(1) unfolding assms(2) by (auto simp: distinct_page_of dest: page_of_wanted)
  have len: "length elems = min limit n" by (simp add: assms(2) page_of_def n_def min.commute)
  have "set (filter (\<lambda>r. P r \<and> r \<notin> set elems) rows) = set (filter P rows) - set elems" by auto
  then have "length (filter (\<lambda>r. P r \<and> r \<notin> set elems) rows) = n - length elems"
    using e assms(1) by (simp only: n_def distinct_card[symmetric] distinct_filter card_Diff_subset finite_set)
  then show ?thesis using assms(3) len by (auto simp: n_def[symmetric])
qed

locale paging =
  fixes cmp :: "'a \<Rightarrow> 'a \<Rightarrow> int" and key :: "'a \<Rightarrow> 'k::linorder"
  assumes cmp_orders: "orders cmp A"
    and cmp_key: "cmp a b \<le> 0 \<Longrightarrow> key a \<le> key b"
begin

lemma sorted_by_key: "sorted_wrt (\<lambda>a b. key a \<le> key b) (sort_by cmp rows)"
  using sorted_sort_by[OF cmp_orders] by (rule sorted_wrt_mono_rel[rotated]) (rule cmp_key)

lemma page_sorted: "sorted_wrt (\<lambda>a b. key a \<le> key b) (page_of cmp limit P rows)"
  unfolding page_of_def by (intro sorted_wrt_take sorted_by_key)

lemma page_closed:
  assumes "r \<in> set (page_of cmp limit P rows)" "x \<in> set rows" "P x" "key x < key r"
  shows "x \<in> set (page_of cmp limit P rows)"
proof (rule ccontr)
  define ys where "ys = sort_by cmp (filter P rows)"
  have "sorted_wrt (\<lambda>a b. key a \<le> key b) (take limit ys @ drop limit ys)" unfolding ys_def by (simp add: sorted_by_key)
  then have s: "a \<in> set (take limit ys) \<Longrightarrow> b \<in> set (drop limit ys) \<Longrightarrow> key a \<le> key b" for a b
    unfolding sorted_wrt_append by blast
  assume "x \<notin> set (page_of cmp limit P rows)"
  then have "x \<notin> set (take limit ys)" by (simp add: page_of_def ys_def)
  moreover have "x \<in> set (take limit ys @ drop limit ys)" using assms(2,3) by (simp add: ys_def)
  ultimately have "x \<in> set (drop limit ys)" by (simp only: set_append) blast
  moreover have "r \<in> set (take limit ys)" using assms(1) by (simp add: page_of_def ys_def)
  ultimately show False using s assms(4) by fastforce
qed

lemma page_top:
  assumes "page_of cmp limit P rows \<noteq> []" "x \<in> set (page_of cmp limit P rows)"
  shows "key x \<le> key (last (page_of cmp limit P rows))"
proof -
  let ?p = "page_of cmp limit P rows"
  have "sorted_wrt (\<lambda>a b. key a \<le> key b) (butlast ?p @ [last ?p])"
    unfolding append_butlast_last_id[OF assms(1)] by (rule page_sorted)
  moreover have "x \<in> set (butlast ?p @ [last ?p])" unfolding append_butlast_last_id[OF assms(1)] by (rule assms(2))
  ultimately show ?thesis by (auto simp: sorted_wrt_append)
qed

end

end
