(* ===== verification/Hook_Recalc.thy ===== *)
theory Hook_Recalc
  imports Js_Pages
begin

text \<open>
  \<^verbatim>\<open>sync/data.inserter/hooks/recalc.sub.account.ledgers.balances.hook.js\<close>: the balance of a sub-account in a
  ledger is what its sub-users have together at that time. A row of the ledgers is a record; a value that
  is no finite number is \<open>None\<close>, and so is the identifier of a row that is not from the table.
\<close>

record ledger =
  lRow :: nat
  lId :: "int option"
  lMts :: int
  lWallet :: string
  lCurrency :: string
  lUser :: int
  lSub :: "int option"
  lNative :: "rat option"
  lNativeUsd :: "rat option"
  lBalance :: "rat option"
  lBalanceUsd :: "rat option"
  lRecalced :: bool

text \<open>An entry of the authorisations: the user, whether it is a sub-account, and the sub-user.\<close>

record rc_auth =
  raId :: "int option"
  raIsSub :: bool
  raSubUser :: "int option"

definition getSubUsersIdsByMasterUserId :: "rc_auth list \<Rightarrow> int \<Rightarrow> int list" where
  "getSubUsersIdsByMasterUserId auth userId =
     List.map_filter raSubUser (filter (\<lambda>a. raIsSub a \<and> raId a = Some userId) auth)"

definition same_pocket :: "ledger \<Rightarrow> ledger \<Rightarrow> bool" where
  "same_pocket a b \<longleftrightarrow> lUser a = lUser b \<and> lWallet a = lWallet b \<and> lCurrency a = lCurrency b"

definition not_later :: "ledger \<Rightarrow> ledger \<Rightarrow> bool" where
  "not_later a b \<longleftrightarrow> (case (lId a, lId b) of (Some x, Some y) \<Rightarrow> x \<le> y | _ \<Rightarrow> False) \<and> lMts a \<le> lMts b"

definition sub_balances :: "(ledger \<Rightarrow> rat option) \<Rightarrow> int list \<Rightarrow> ledger list \<Rightarrow> rat list" where
  "sub_balances native subUsersIds elems =
     List.map_filter (\<lambda>sub. Option.bind (find (\<lambda>x. Some sub = lSub x) elems) native) subUsersIds"

definition total_or :: "rat option \<Rightarrow> rat list \<Rightarrow> rat option" where
  "total_or d balances = (if balances = [] then d else Some (foldl (+) 0 balances))"

text \<open>The new \<^verbatim>\<open>balance\<close>, \<^verbatim>\<open>balanceUsd\<close> and \<^verbatim>\<open>_isBalanceRecalced\<close> of a row.\<close>

definition getRecalcBalance :: "rc_auth list \<Rightarrow> ledger list \<Rightarrow> ledger \<Rightarrow> rat option \<times> rat option \<times> bool" where
  "getRecalcBalance auth elems item =
     (let subUsersIds = getSubUsersIdsByMasterUserId auth (lUser item) in
      if subUsersIds = [] then (lNative item, lNativeUsd item, False)
      else
        let es = filter (\<lambda>x. lSub x \<noteq> None \<and> not_later x item \<and> same_pocket x item) elems
        in (total_or (lNative item) (sub_balances lNative subUsersIds es),
            total_or (lNativeUsd item) (sub_balances lNativeUsd subUsersIds es), True))"

definition getFirstGroupedRecords :: "ledger list \<Rightarrow> ledger list" where
  "getFirstGroupedRecords elems = foldl (\<lambda>accum cur.
     if list_all (\<lambda>x. \<not> (same_pocket cur x \<and> lSub cur = lSub x)) accum then accum @ [cur] else accum) [] elems"

text \<open>\<^verbatim>\<open>orderBy\<close> by \<^verbatim>\<open>mts\<close> and \<^verbatim>\<open>id\<close>, both descending; a missing identifier comes last.\<close>

definition newer_ledger :: "ledger \<Rightarrow> ledger \<Rightarrow> int" where
  "newer_ledger a b =
     (if lMts a \<noteq> lMts b then (if lMts a > lMts b then - 1 else 1)
      else if lId a = lId b then 0
      else case (lId a, lId b) of (None, _) \<Rightarrow> 1 | (_, None) \<Rightarrow> - 1
        | (Some x, Some y) \<Rightarrow> if x > y then - 1 else 1)"

definition sort_newest :: "ledger list \<Rightarrow> ledger list" where
  "sort_newest = sort_by newer_ledger"

definition older_ledger :: "ledger \<Rightarrow> ledger \<Rightarrow> int" where
  "older_ledger a b = newer_ledger b a"

definition sort_oldest :: "ledger list \<Rightarrow> ledger list" where
  "sort_oldest = sort_by older_ledger"

definition first_of :: "'a list \<Rightarrow> 'a option" where
  "first_of xs = (case xs of [] \<Rightarrow> None | x # _ \<Rightarrow> Some x)"

definition newest_of_sub :: "ledger \<Rightarrow> int \<Rightarrow> ledger list \<Rightarrow> ledger option" where
  "newest_of_sub elem sub rows =
     first_of (sort_newest (filter (\<lambda>x. same_pocket x elem \<and> lSub x = Some sub \<and> lMts x \<le> lMts elem) rows))"

definition empty_res :: "ledger \<Rightarrow> ledger" where
  "empty_res elem = \<lparr>lRow = 0, lId = None, lMts = lMts elem, lWallet = lWallet elem, lCurrency = lCurrency elem,
     lUser = lUser elem, lSub = None, lNative = None, lNativeUsd = None, lBalance = None, lBalanceUsd = None,
     lRecalced = False\<rparr>"

text \<open>The state: the rows of the main table and of the temporary table of the job, when there is one.\<close>

record rc_tables =
  rcMain :: "ledger list"
  rcTemp :: "ledger list option"

definition initial_elem :: "rc_tables \<Rightarrow> bool \<Rightarrow> ledger \<Rightarrow> int \<Rightarrow> ledger" where
  "initial_elem s shouldTempTableBeUsed elem sub =
     (let itemFromMainTable = newest_of_sub elem sub (rcMain s);
          itemFromTempTable = (if shouldTempTableBeUsed then newest_of_sub elem sub (nullish (rcTemp s) []) else None);
          itemsFromDb = filter (\<lambda>x. lId x \<noteq> None) (List.map_filter id [itemFromMainTable, itemFromTempTable])
      in (nullish (first_of (sort_newest itemsFromDb)) (empty_res elem))\<lparr>lSub := Some sub\<rparr>)"

definition getInitialElems :: "rc_tables \<Rightarrow> bool \<Rightarrow> rc_auth list \<Rightarrow> ledger list \<Rightarrow> ledger list" where
  "getInitialElems s shouldTempTableBeUsed auth firstGroupedRecords =
     concat (map (\<lambda>elem. map (initial_elem s shouldTempTableBeUsed elem)
         (filter (\<lambda>sub. Some sub \<noteq> lSub elem) (getSubUsersIdsByMasterUserId auth (lUser elem))))
       firstGroupedRecords)"

text \<open>One page of rows: their new balances.\<close>

definition recalc_page :: "rc_tables \<Rightarrow> bool \<Rightarrow> rc_auth list \<Rightarrow> ledger list \<Rightarrow> ledger list" where
  "recalc_page s shouldTempTableBeUsed auth elems =
     (let initialElems = getInitialElems s shouldTempTableBeUsed auth (getFirstGroupedRecords elems);
          recordsToGetBalances = sort_newest (initialElems @ elems)
      in map (\<lambda>elem. case getRecalcBalance auth recordsToGetBalances elem of (balance, balanceUsd, recalced) \<Rightarrow>
             elem\<lparr>lBalance := balance, lBalanceUsd := balanceUsd, lRecalced := recalced\<rparr>) elems)"

text \<open>\<^verbatim>\<open>updateElemsInCollBy\<close> for \<^verbatim>\<open>_id\<close> and the three columns.\<close>

definition update_one :: "ledger list \<Rightarrow> ledger \<Rightarrow> ledger list" where
  "update_one rows e = map (\<lambda>r. if lRow r = lRow e
     then r\<lparr>lBalance := lBalance e, lBalanceUsd := lBalanceUsd e, lRecalced := lRecalced e\<rparr> else r) rows"

definition update_ledgers :: "ledger list \<Rightarrow> ledger list \<Rightarrow> ledger list" where
  "update_ledgers recalcElems rows = foldl update_one rows recalcElems"

definition ledger_rows :: "bool \<Rightarrow> rc_tables \<Rightarrow> ledger list" where
  "ledger_rows temp s = (if temp then nullish (rcTemp s) [] else rcMain s)"

definition set_ledger_rows :: "bool \<Rightarrow> ledger list \<Rightarrow> rc_tables \<Rightarrow> rc_tables" where
  "set_ledger_rows temp rows s = (if temp then s\<lparr>rcTemp := Some rows\<rparr> else s\<lparr>rcMain := rows\<rparr>)"

definition next_page :: "nat \<Rightarrow> int list \<Rightarrow> int \<Rightarrow> nat list \<Rightarrow> ledger list \<Rightarrow> ledger list" where
  "next_page limit requiredUserIds mts skipedIds rows =
     page_of older_ledger limit (\<lambda>r. mts \<le> lMts r \<and> lRow r \<notin> set skipedIds \<and>
       lUser r \<in> set requiredUserIds \<and> lSub r \<noteq> None) rows"

text \<open>The loop makes at most \<open>fuel\<close> (1000) rounds of \<open>limit\<close> (20000) rows.\<close>

fun recalc_loop :: "nat \<Rightarrow> nat \<Rightarrow> bool \<Rightarrow> rc_auth list \<Rightarrow> int list \<Rightarrow> int \<Rightarrow> nat list \<Rightarrow> rc_tables \<Rightarrow> rc_tables" where
  "recalc_loop 0 limit temp auth requiredUserIds mts skipedIds s = s"
| "recalc_loop (Suc fuel) limit temp auth requiredUserIds mts skipedIds s =
     (let elems = next_page limit requiredUserIds mts skipedIds (ledger_rows temp s) in
      if elems = [] then s
      else
        let recalcElems = recalc_page s temp auth elems;
            s' = set_ledger_rows temp (update_ledgers recalcElems (ledger_rows temp s)) s;
            mts' = lMts (last elems)
        in recalc_loop fuel limit temp auth requiredUserIds mts'
             (map lRow (filter (\<lambda>r. mts' = lMts r) elems)) s')"

datatype recalc_error = Sub_Account_Ledgers_Balances_Recalc_Error

definition execute_recalc :: "bool \<Rightarrow> bool \<Rightarrow> rc_auth list \<Rightarrow> rc_tables \<Rightarrow> recalc_error + rc_tables" where
  "execute_recalc hasDataInserter temp auth s =
     (if auth = [] then
        (if \<not> hasDataInserter then Inr s else Inl Sub_Account_Ledgers_Balances_Recalc_Error)
      else if temp \<and> rcTemp s = None then Inr s
      else
        let requiredUserIds = remdups (List.map_filter raId auth);
            firstNotRecalcedElem = first_of (sort_oldest (filter (\<lambda>r. lSub r \<noteq> None \<and> \<not> lRecalced r \<and>
              lUser r \<in> set requiredUserIds) (ledger_rows temp s)))
        in case firstNotRecalcedElem of
             None \<Rightarrow> Inr s
           | Some r \<Rightarrow> if lMts r = 0 then Inr s
               else Inr (recalc_loop 1000 20000 temp auth requiredUserIds (lMts r) [] s))"

end
