(* ===== verification/Hook_Recalc_Props.thy ===== *)
theory Hook_Recalc_Props
  imports Hook_Recalc Ccy_Convert_Props
begin

text \<open>
  The paged recalculation agrees with its specification: the balance of a row is what the newest rows
  of the sub-users up to its time add up to.
\<close>

definition reference_balance :: "rc_auth list \<Rightarrow> ledger list \<Rightarrow> ledger \<Rightarrow> rat option \<times> rat option \<times> bool" where
  "reference_balance auth rows item =
     (let subs = getSubUsersIdsByMasterUserId auth (lUser item);
          total = (\<lambda>native. total_or (native item)
            (List.map_filter (\<lambda>sub. Option.bind (newest_of_sub item sub rows) native) subs))
      in if subs = [] then (lNative item, lNativeUsd item, False) else (total lNative, total lNativeUsd, True))"

text \<open>What an update does not touch.\<close>

definition core :: "ledger \<Rightarrow> ledger" where
  "core r = r\<lparr>lBalance := None, lBalanceUsd := None, lRecalced := False\<rparr>"

lemma core_simps [simp]:
  "lRow (core r) = lRow r" "lId (core r) = lId r" "lMts (core r) = lMts r" "lWallet (core r) = lWallet r"
  "lCurrency (core r) = lCurrency r" "lUser (core r) = lUser r" "lSub (core r) = lSub r"
  "lNative (core r) = lNative r" "lNativeUsd (core r) = lNativeUsd r"
  by (simp_all add: core_def)

lemma core_core [simp]: "core (core r) = core r"
  by (simp add: core_def)

lemma core_updates [simp]:
  "core (r\<lparr>lBalance := a, lBalanceUsd := b, lRecalced := c\<rparr>) = core r"
  by (simp add: core_def)

lemma same_pocket_core [simp]: "same_pocket (core a) b = same_pocket a b" "same_pocket a (core b) = same_pocket a b"
  by (simp_all add: same_pocket_def)

lemma newer_ledger_core [simp]: "newer_ledger (core a) (core b) = newer_ledger a b"
  by (simp add: newer_ledger_def)

subsection \<open>Sorting by time\<close>

lemma sort_by_map: "(\<And>x y. cmp (f x) (f y) = cmp x y) \<Longrightarrow> sort_by cmp (map f xs) = map f (sort_by cmp xs)"
proof -
  assume f: "\<And>x y. cmp (f x) (f y) = cmp x y"
  have "insert_by cmp (f x) (map f ys) = map f (insert_by cmp x ys)" for x ys
    by (induction ys) (simp_all add: f)
  then show ?thesis by (induction xs) (simp_all add: sort_by_simps)
qed

lemma newer_ledger_orders: "orders newer_ledger A" "orders older_ledger A"
  by (auto simp: orders_def older_ledger_def newer_ledger_def split: option.splits if_splits)

text \<open>Pages of ledgers, the oldest rows first.\<close>

interpretation ledger_pages: paging older_ledger lMts
  by unfold_locales (auto simp: newer_ledger_orders older_ledger_def newer_ledger_def split: if_splits)

lemma sort_newest_sorted: "sorted_wrt (\<lambda>a b. lMts b \<le> lMts a) (sort_newest rows)"
proof -
  have "sorted_wrt (\<lambda>a b. newer_ledger a b \<le> 0) (sort_newest rows)"
    unfolding sort_newest_def by (rule sorted_sort_by[OF newer_ledger_orders(1)])
  then show ?thesis by (rule sorted_wrt_mono_rel[rotated]) (auto simp: newer_ledger_def split: if_splits)
qed

lemma set_sort_ledgers [simp]: "set (sort_newest rows) = set rows" "set (sort_oldest rows) = set rows"
  by (simp_all add: sort_newest_def sort_oldest_def)

lemma first_of_None [simp]: "first_of xs = None \<longleftrightarrow> xs = []"
  by (cases xs) (auto simp: first_of_def)

lemma sort_by_Nil_iff [simp]: "sort_by cmp xs = [] \<longleftrightarrow> xs = []"
  by (metis mset_sort_by mset_zero_iff)

lemma newest_of_list:
  assumes "first_of (sort_newest rows) = Some m"
  shows "m \<in> set rows" "x \<in> set rows \<Longrightarrow> lMts x \<le> lMts m"
proof -
  obtain ys where ys: "sort_newest rows = m # ys" using assms by (auto simp: first_of_def split: list.splits)
  then show "m \<in> set rows" by (metis list.set_intros(1) set_sort_ledgers(1))
  show "lMts x \<le> lMts m" if "x \<in> set rows"
    using that sort_newest_sorted[of rows] set_sort_ledgers(1)[of rows] ys by auto
qed

lemma find_sort_newest: "find P (sort_newest rows) = first_of (sort_newest (filter P rows))"
proof -
  have "find P xs = first_of (filter P xs)" for xs :: "ledger list"
    by (induction xs) (auto simp: first_of_def)
  then show ?thesis unfolding sort_newest_def by (simp add: filter_sort_by[OF newer_ledger_orders(1)])
qed

lemma find_filter: "find P (filter Q xs) = find (\<lambda>x. Q x \<and> P x) xs"
  by (induction xs) auto

subsection \<open>Tables in which time and identifiers agree\<close>

text \<open>
  In a pocket (a user, a wallet and a currency) the identifiers grow with the time, no two rows have
  the same time, and the rows of the main table are older than those that wait in the temporary one.
\<close>

definition in_order :: "ledger list \<Rightarrow> bool" where
  "in_order rows = list_all (\<lambda>a. list_all (\<lambda>b. lId a \<noteq> None \<and> (same_pocket a b \<longrightarrow>
     (if lMts a = lMts b then core a = core b else lMts a < lMts b \<longrightarrow> the (lId a) < the (lId b)))) rows) rows"

definition all_rows :: "bool \<Rightarrow> rc_tables \<Rightarrow> ledger list" where
  "all_rows temp s = (if temp then rcMain s @ nullish (rcTemp s) [] else rcMain s)"

definition main_is_older :: "bool \<Rightarrow> rc_tables \<Rightarrow> bool" where
  "main_is_older temp s = (temp \<longrightarrow> list_all (\<lambda>a. list_all (\<lambda>b. same_pocket a b \<longrightarrow> lMts a < lMts b)
     (nullish (rcTemp s) [])) (rcMain s))"

lemma in_orderD:
  assumes "in_order rows" "a \<in> set rows" "b \<in> set rows" "same_pocket a b"
  shows "lMts a = lMts b \<Longrightarrow> core a = core b" "lMts a \<le> lMts b \<Longrightarrow> not_later a b"
proof -
  note io = assms(1)[unfolded in_order_def list_all_iff]
  have ids: "lId a \<noteq> None" "lId b \<noteq> None" using io assms(2,3) by blast+
  have *: "if lMts a = lMts b then core a = core b else lMts a < lMts b \<longrightarrow> the (lId a) < the (lId b)"
    using io assms(2-4) by blast
  then show "lMts a = lMts b \<Longrightarrow> core a = core b" by simp
  show "not_later a b" if "lMts a \<le> lMts b"
  proof (cases "lMts a = lMts b")
    case True
    then have "core a = core b" using * by simp
    then have "lId a = lId b" by (metis core_simps(2))
    then show ?thesis using True ids by (auto simp: not_later_def)
  next
    case False
    then show ?thesis using * that ids by (auto simp: not_later_def)
  qed
qed

lemma ledger_rows_subset: "set (ledger_rows temp s) \<subseteq> set (all_rows temp s)"
  by (auto simp: ledger_rows_def all_rows_def)

lemma same_pocket_sym: "same_pocket a b \<Longrightarrow> same_pocket b a"
  by (simp add: same_pocket_def)

lemma same_pocket_trans: "same_pocket a b \<Longrightarrow> same_pocket b c \<Longrightarrow> same_pocket a c"
  by (simp add: same_pocket_def)

subsection \<open>The rows before a page\<close>

text \<open>The first record of the group of a row.\<close>

lemma first_grouped_record:
  assumes "sorted_wrt (\<lambda>a b. lMts a \<le> lMts b) elems"
  shows "r \<in> set elems \<Longrightarrow> \<exists>g \<in> set (getFirstGroupedRecords elems).
    g \<in> set elems \<and> same_pocket g r \<and> lSub g = lSub r \<and> lMts g \<le> lMts r"
  using assms
proof (induction elems arbitrary: r rule: rev_induct)
  case (snoc e es)
  let ?g = "getFirstGroupedRecords es"
  have g: "getFirstGroupedRecords (es @ [e]) =
      (if list_all (\<lambda>x. \<not> (same_pocket e x \<and> lSub e = lSub x)) ?g then ?g @ [e] else ?g)"
    by (simp add: getFirstGroupedRecords_def)
  have sorted: "sorted_wrt (\<lambda>a b. lMts a \<le> lMts b) es" "\<forall>x\<in>set es. lMts x \<le> lMts e"
    using snoc.prems(2) by (auto simp: sorted_wrt_append)
  show ?case
  proof (cases "r \<in> set es")
    case True
    then show ?thesis using snoc.IH[OF _ sorted(1)] unfolding g by auto
  next
    case False
    then have r: "r = e" using snoc.prems(1) by simp
    have sub: "set ?g \<subseteq> set es"
    proof -
      have "set (foldl (\<lambda>accum cur. if list_all (\<lambda>x. \<not> (same_pocket cur x \<and> lSub cur = lSub x)) accum
          then accum @ [cur] else accum) accum xs) \<subseteq> set accum \<union> set xs" for accum xs
        by (induction xs arbitrary: accum) (fastforce split: if_splits)+
      from this[of "[]" es] show ?thesis by (simp add: getFirstGroupedRecords_def)
    qed
    show ?thesis
    proof (cases "list_all (\<lambda>x. \<not> (same_pocket e x \<and> lSub e = lSub x)) ?g")
      case True
      then show ?thesis unfolding g r by (auto simp: same_pocket_def)
    next
      case False
      then show ?thesis using sub sorted(2) unfolding g r by (fastforce simp: list_all_iff same_pocket_def)
    qed
  qed
qed simp

text \<open>What the query for the rows before a page finds.\<close>

lemma initial_elem_newest:
  assumes "in_order (all_rows temp s)" "temp \<longrightarrow> rcTemp s \<noteq> None"
    and N: "N \<in> set (all_rows temp s)" "same_pocket N g" "lSub N = Some sub" "lMts N \<le> lMts g"
  shows "\<exists>x. initial_elem s temp g sub = x \<and> x \<in> set (all_rows temp s) \<and> same_pocket x g \<and>
    lSub x = Some sub \<and> lMts x \<le> lMts g \<and> lMts N \<le> lMts x"
proof -
  define P where "P = (\<lambda>x. same_pocket x g \<and> lSub x = Some sub \<and> lMts x \<le> lMts g)"
  define tab where "tab = (if temp then nullish (rcTemp s) [] else [])"
  have all: "set (all_rows temp s) = set (rcMain s) \<union> set tab" by (auto simp: all_rows_def tab_def)
  have ids: "x \<in> set (all_rows temp s) \<Longrightarrow> lId x \<noteq> None" for x
    using assms(1) by (auto simp: in_order_def list_all_iff)
  define m where "m = newest_of_sub g sub (rcMain s)"
  define t where "t = (if temp then newest_of_sub g sub (nullish (rcTemp s) []) else None)"
  have t: "t = newest_of_sub g sub tab" by (simp add: t_def tab_def newest_of_sub_def first_of_def sort_newest_def sort_by_simps)
  have found: "x \<in> set rows \<and> P x" "y \<in> set rows \<Longrightarrow> P y \<Longrightarrow> lMts y \<le> lMts x"
    if "newest_of_sub g sub rows = Some x" for x y rows
    using newest_of_list[OF that[unfolded newest_of_sub_def]] by (auto simp: P_def)
  have none: "newest_of_sub g sub rows = None \<Longrightarrow> y \<in> set rows \<Longrightarrow> \<not> P y" for rows y
    by (auto simp: newest_of_sub_def P_def filter_empty_conv sort_newest_def)
  define items where "items = filter (\<lambda>x. lId x \<noteq> None) (List.map_filter id [m, t])"
  have items: "x \<in> set items \<longleftrightarrow> (m = Some x \<or> t = Some x) \<and> lId x \<noteq> None" for x
    by (auto simp: items_def List.map_filter_def)
  have in_all: "x \<in> set items \<Longrightarrow> x \<in> set (all_rows temp s) \<and> P x" for x
    using found(1)[of "rcMain s" x] found(1)[of tab x] by (auto simp: items all m_def t)
  have "\<exists>y \<in> set items. lMts N \<le> lMts y"
  proof -
    have PN: "P N" using N by (simp add: P_def)
    consider "N \<in> set (rcMain s)" | "N \<in> set tab" using N(1) all by auto
    then show ?thesis
    proof cases
      case 1
      then obtain y where y: "m = Some y" using none[of "rcMain s" N] PN by (cases m) (auto simp: m_def)
      then have "y \<in> set (all_rows temp s)" "lMts N \<le> lMts y" using found[of "rcMain s" y] 1 PN by (auto simp: m_def all)
      then show ?thesis using y ids items by blast
    next
      case 2
      then obtain y where y: "t = Some y" using none[of tab N] PN by (cases t) (auto simp: t)
      then have "y \<in> set (all_rows temp s)" "lMts N \<le> lMts y" using found[of tab y] 2 PN by (auto simp: t all)
      then show ?thesis using y ids items by blast
    qed
  qed
  then obtain y where y: "y \<in> set items" "lMts N \<le> lMts y" by blast
  then obtain x where x: "first_of (sort_newest items) = Some x" by (cases "first_of (sort_newest items)") (auto simp: sort_newest_def)
  have "initial_elem s temp g sub = x\<lparr>lSub := Some sub\<rparr>"
    using x unfolding initial_elem_def Let_def m_def[symmetric] t_def[symmetric] items_def[symmetric] by (simp add: nullish_def)
  moreover have "x \<in> set items" using newest_of_list(1)[OF x] .
  then have "x \<in> set (all_rows temp s)" "P x" using in_all by blast+
  moreover have "x\<lparr>lSub := Some sub\<rparr> = x" using \<open>P x\<close> by (simp add: P_def)
  ultimately show ?thesis using newest_of_list(2)[OF x y(1)] y(2) by (auto simp: P_def)
qed

lemma initial_elem_known:
  assumes "in_order (all_rows temp s)" "lId (initial_elem s temp g sub) \<noteq> None"
  shows "initial_elem s temp g sub \<in> set (all_rows temp s)"
proof -
  define tab where "tab = (if temp then nullish (rcTemp s) [] else [])"
  have all: "set (all_rows temp s) = set (rcMain s) \<union> set tab" by (auto simp: all_rows_def tab_def)
  define items where "items = filter (\<lambda>x. lId x \<noteq> None) (List.map_filter id [newest_of_sub g sub (rcMain s),
    if temp then newest_of_sub g sub (nullish (rcTemp s) []) else None])"
  have i: "initial_elem s temp g sub = (nullish (first_of (sort_newest items)) (empty_res g))\<lparr>lSub := Some sub\<rparr>"
    unfolding initial_elem_def items_def Let_def ..
  show ?thesis
  proof (cases "first_of (sort_newest items)")
    case None
    have "lId (initial_elem s temp g sub) = None" unfolding i None by (simp add: nullish_def empty_res_def)
    then show ?thesis using assms(2) by simp
  next
    case (Some x)
    then have "x \<in> set items" by (rule newest_of_list(1))
    then obtain rows where "newest_of_sub g sub rows = Some x" "set rows \<subseteq> set (all_rows temp s)"
      by (auto simp: items_def List.map_filter_def all tab_def split: if_splits)
    then have "x \<in> set (all_rows temp s)" "lSub x = Some sub"
      using newest_of_list(1)[of "filter (\<lambda>x. same_pocket x g \<and> lSub x = Some sub \<and> lMts x \<le> lMts g) rows" x]
      by (auto simp: newest_of_sub_def)
    moreover from this(2) have "x\<lparr>lSub := Some sub\<rparr> = x" by (cases x) simp
    moreover have "initial_elem s temp g sub = x\<lparr>lSub := Some sub\<rparr>" unfolding i Some by (simp add: nullish_def)
    ultimately show ?thesis by (simp only:)
  qed
qed

subsection \<open>One page\<close>

text \<open>A page of the table, from a time on, without rows of that very time that were done before.\<close>

definition wanted :: "int list \<Rightarrow> int \<Rightarrow> nat list \<Rightarrow> ledger \<Rightarrow> bool" where
  "wanted users mts skiped r \<longleftrightarrow> mts \<le> lMts r \<and> lRow r \<notin> set skiped \<and> lUser r \<in> set users \<and> lSub r \<noteq> None"

lemma next_page_def': "next_page limit users mts skiped rows = page_of older_ledger limit (wanted users mts skiped) rows"
  by (simp add: next_page_def wanted_def[abs_def])

lemma next_page_wanted: "r \<in> set (next_page limit users mts skiped rows) \<Longrightarrow> r \<in> set rows \<and> wanted users mts skiped r"
  unfolding next_page_def' by (rule page_of_wanted)

definition tables_ok :: "bool \<Rightarrow> rc_tables \<Rightarrow> bool" where
  "tables_ok temp s \<longleftrightarrow> in_order (all_rows temp s) \<and> main_is_older temp s \<and> (temp \<longrightarrow> rcTemp s \<noteq> None)"

text \<open>The record that the code picks for a sub-user is the newest one up to the time of the row.\<close>

lemma picked_is_newest:
  assumes ok: "tables_ok temp s" and r: "r \<in> set elems"
    and elems: "elems = next_page limit users mts skiped (ledger_rows temp s)"
    and skiped: "\<And>x. x \<in> set (ledger_rows temp s) \<Longrightarrow> lRow x \<in> set skiped \<Longrightarrow> lMts x \<le> mts"
    and sub: "sub \<in> set (getSubUsersIdsByMasterUserId auth (lUser r))"
    and R: "R = sort_newest (getInitialElems s temp auth (getFirstGroupedRecords elems) @ elems)"
  shows "map_option core (find (\<lambda>x. lSub x \<noteq> None \<and> not_later x r \<and> same_pocket x r \<and> Some sub = lSub x) R) =
    map_option core (newest_of_sub r sub (all_rows temp s))"
proof -
  let ?T = "all_rows temp s"
  have io: "in_order ?T" and older: "main_is_older temp s" and tmp: "temp \<longrightarrow> rcTemp s \<noteq> None"
    using ok by (auto simp: tables_ok_def)
  define Q where "Q = (\<lambda>x. lSub x \<noteq> None \<and> not_later x r \<and> same_pocket x r \<and> Some sub = lSub x)"
  define A where "A = filter Q (getInitialElems s temp auth (getFirstGroupedRecords elems) @ elems)"
  define B where "B = filter (\<lambda>x. same_pocket x r \<and> lSub x = Some sub \<and> lMts x \<le> lMts r) ?T"
  have lhs: "find Q R = first_of (sort_newest A)" unfolding R A_def by (rule find_sort_newest)
  have rhs: "newest_of_sub r sub ?T = first_of (sort_newest B)" by (simp add: newest_of_sub_def B_def)
  have page: "x \<in> set elems \<Longrightarrow> x \<in> set ?T" for x
    using next_page_wanted[of x] ledger_rows_subset[of temp s] unfolding elems by blast
  have rT: "r \<in> set ?T" using page r .
  have AB: "set A \<subseteq> set B"
  proof
    fix x assume x: "x \<in> set A"
    then have q: "Q x" by (auto simp: A_def)
    then have "lId x \<noteq> None" by (auto simp: Q_def not_later_def split: option.splits)
    then have "x \<in> set ?T" using x page initial_elem_known[OF io] by (auto simp: A_def getInitialElems_def)
    then show "x \<in> set B" using q by (auto simp: B_def Q_def not_later_def)
  qed
  have BA: "\<exists>a \<in> set A. lMts N \<le> lMts a" if N: "N \<in> set B" for N
  proof -
    have NT: "N \<in> set ?T" and Np: "same_pocket N r" "lSub N = Some sub" "lMts N \<le> lMts r" using N by (auto simp: B_def)
    have later: "not_later x r" if "x \<in> set ?T" "same_pocket x r" "lMts x \<le> lMts r" for x
      using in_orderD(2)[OF io that(1) rT that(2,3)] .
    show ?thesis
    proof (cases "lSub r = Some sub")
      case True
      then have "Q r" using later[OF rT] by (auto simp: Q_def same_pocket_def)
      then show ?thesis using r Np(3) by (auto simp: A_def)
    next
      case False
      obtain g where g: "g \<in> set (getFirstGroupedRecords elems)" "g \<in> set elems" "same_pocket g r" "lSub g = lSub r" "lMts g \<le> lMts r"
        using first_grouped_record[OF ledger_pages.page_sorted] r unfolding elems next_page_def' by blast
      show ?thesis
      proof (cases "lMts N \<le> lMts g")
        case True
        have "same_pocket N g" using Np(1) g(3) by (auto simp: same_pocket_def)
        from initial_elem_newest[OF io tmp NT this Np(2) True]
        obtain x where x: "initial_elem s temp g sub = x" "x \<in> set ?T" "same_pocket x g" "lSub x = Some sub" "lMts x \<le> lMts g" "lMts N \<le> lMts x"
          by blast
        have "sub \<in> set (filter (\<lambda>sub. Some sub \<noteq> lSub g) (getSubUsersIdsByMasterUserId auth (lUser g)))"
          using g(3,4) sub \<open>lSub r \<noteq> Some sub\<close> by (auto simp: same_pocket_def)
        then have "x \<in> set (getInitialElems s temp auth (getFirstGroupedRecords elems))"
          using g(1) x(1) by (auto simp: getInitialElems_def)
        moreover have "same_pocket x r" using x(3) g(3) by (rule same_pocket_trans)
        then have "Q x" using x later[OF x(2)] g(5) by (auto simp: Q_def)
        ultimately show ?thesis using x(6) by (auto simp: A_def)
      next
        case False
        have ne: "lMts N < lMts r"
        proof (rule ccontr)
          assume "\<not> lMts N < lMts r"
          then have "core N = core r" using Np(3) in_orderD(1)[OF io NT rT Np(1)] by simp
          then have "lSub N = lSub r" by (metis core_simps(7))
          then show False using \<open>lSub r \<noteq> Some sub\<close> Np(2) by simp
        qed
        have gm: "g \<in> set (ledger_rows temp s)" "wanted users mts skiped g" using g(2) next_page_wanted unfolding elems by blast+
        have "N \<in> set (ledger_rows temp s)"
        proof (rule ccontr)
          assume n: "N \<notin> set (ledger_rows temp s)"
          then have "temp" "N \<in> set (rcMain s)" using NT by (auto simp: all_rows_def ledger_rows_def split: if_splits)
          moreover have "same_pocket N g" using Np(1) g(3) by (auto simp: same_pocket_def)
          ultimately have "lMts N < lMts g" using older gm(1) by (auto simp: main_is_older_def ledger_rows_def list_all_iff)
          then show False using False by simp
        qed
        moreover have "wanted users mts skiped N"
          using gm(2) False Np g(3) skiped[OF calculation] by (auto simp: wanted_def same_pocket_def)
        ultimately have "N \<in> set elems" using ledger_pages.page_closed r ne unfolding elems next_page_def' by blast
        moreover have "Q N" using Np later[OF NT] by (auto simp: Q_def)
        ultimately show ?thesis by (auto simp: A_def)
      qed
    qed
  qed
  show ?thesis
  proof (cases "first_of (sort_newest A)")
    case None
    then have "B = []" using BA by (auto simp: sort_newest_def) (metis list.set_intros(1) neq_Nil_conv)
    then show ?thesis using None unfolding Q_def[symmetric] lhs rhs by (simp add: sort_newest_def sort_by_simps first_of_def)
  next
    case (Some a)
    note a = newest_of_list[OF Some]
    have "B \<noteq> []" using a(1) AB by auto
    then obtain b where b: "first_of (sort_newest B) = Some b"
      by (cases "first_of (sort_newest B)") (auto simp: sort_newest_def)
    note b' = newest_of_list[OF b]
    have "lMts a = lMts b" using b'(2)[of a] a AB BA[OF b'(1)] by fastforce
    moreover have "a \<in> set ?T" "b \<in> set ?T" "same_pocket a b" using AB a(1) b'(1) by (auto simp: B_def same_pocket_def)
    ultimately have "core a = core b" using in_orderD(1)[OF io] by blast
    then show ?thesis using Some b unfolding Q_def[symmetric] lhs rhs by simp
  qed
qed

text \<open>Hence the new balances of a page are those of the specification.\<close>

lemma page_balance:
  assumes "tables_ok temp s" "r \<in> set elems" "elems = next_page limit users mts skiped (ledger_rows temp s)"
    "\<And>x. x \<in> set (ledger_rows temp s) \<Longrightarrow> lRow x \<in> set skiped \<Longrightarrow> lMts x \<le> mts"
    "R = sort_newest (getInitialElems s temp auth (getFirstGroupedRecords elems) @ elems)"
  shows "getRecalcBalance auth R r = reference_balance auth (all_rows temp s) r"
proof -
  let ?subs = "getSubUsersIdsByMasterUserId auth (lUser r)"
  let ?es = "filter (\<lambda>x. lSub x \<noteq> None \<and> not_later x r \<and> same_pocket x r) R"
  have picked: "map_option core (find (\<lambda>x. Some sub = lSub x) ?es) = map_option core (newest_of_sub r sub (all_rows temp s))"
    if "sub \<in> set ?subs" for sub
    using picked_is_newest[OF assms(1-4) that assms(5)] by (simp add: find_filter conj_assoc)
  have "sub_balances native ?subs ?es = List.map_filter (\<lambda>sub. Option.bind (newest_of_sub r sub (all_rows temp s)) native) ?subs"
    if native: "\<And>x. native (core x) = native x" for native :: "ledger \<Rightarrow> rat option"
  proof -
    have n: "Option.bind w native = Option.bind (map_option core w) native" for w :: "ledger option"
      using native by (cases w) simp_all
    have "Option.bind (find (\<lambda>x. Some sub = lSub x) ?es) native = Option.bind (newest_of_sub r sub (all_rows temp s)) native"
      if "sub \<in> set ?subs" for sub using picked[OF that] n by metis
    then show ?thesis unfolding sub_balances_def by (auto simp: List.map_filter_def cong: filter_cong map_cong)
  qed
  from this[of lNative] this[of lNativeUsd] show ?thesis
    by (simp add: getRecalcBalance_def reference_balance_def Let_def)
qed

subsection \<open>Updates keep what the specification reads\<close>

lemma reference_balance_core:
  "reference_balance auth rows r = reference_balance auth (map core rows) (core r)"
proof -
  have n: "newest_of_sub (core r) sub (map core rows) = map_option core (newest_of_sub r sub rows)" for sub
  proof -
    have "filter (\<lambda>x. same_pocket x (core r) \<and> lSub x = Some sub \<and> lMts x \<le> lMts (core r)) (map core rows) =
        map core (filter (\<lambda>x. same_pocket x r \<and> lSub x = Some sub \<and> lMts x \<le> lMts r) rows)"
      by (simp add: filter_map o_def)
    moreover have "first_of (map core xs) = map_option core (first_of xs)" for xs
      by (simp add: first_of_def split: list.split)
    ultimately show ?thesis unfolding newest_of_sub_def sort_newest_def
      by (simp only: sort_by_map[of newer_ledger core, OF newer_ledger_core])
  qed
  have b: "Option.bind (map_option core w) lNative = Option.bind w lNative"
    "Option.bind (map_option core w) lNativeUsd = Option.bind w lNativeUsd" for w by (cases w; simp)+
  show ?thesis by (auto simp: reference_balance_def Let_def n b)
qed

lemma in_order_core: "in_order rows \<longleftrightarrow> in_order (map core rows)"
  by (simp add: in_order_def list_all_iff)

lemma main_is_older_cong:
  assumes "map core (rcMain s') = map core (rcMain s)" "map core (nullish (rcTemp s') []) = map core (nullish (rcTemp s) [])"
  shows "main_is_older temp s' = main_is_older temp s"
proof -
  have "main_is_older temp u = (temp \<longrightarrow> list_all (\<lambda>a. list_all (\<lambda>b. same_pocket a b \<longrightarrow> lMts a < lMts b)
      (map core (nullish (rcTemp u) []))) (map core (rcMain u)))" for u
    by (simp add: main_is_older_def list_all_iff)
  then show ?thesis using assms by simp
qed

definition set_balance :: "ledger \<Rightarrow> rat option \<times> rat option \<times> bool \<Rightarrow> ledger" where
  "set_balance r v = r\<lparr>lBalance := fst v, lBalanceUsd := fst (snd v), lRecalced := snd (snd v)\<rparr>"

lemma set_balance_simps [simp]: "core (set_balance r v) = core r" "lRow (set_balance r v) = lRow r"
  by (simp_all add: set_balance_def)

lemma update_ledgers_map:
  assumes "distinct (map lRow elems)" "\<And>e. e \<in> set elems \<Longrightarrow> core (f e) = core e"
  shows "update_ledgers (map f elems) rows = map (\<lambda>r. case find (\<lambda>e. lRow e = lRow r) elems of None \<Rightarrow> r
     | Some e \<Rightarrow> set_balance r (lBalance (f e), lBalanceUsd (f e), lRecalced (f e))) rows"
  using assms
proof (induction elems arbitrary: rows)
  case (Cons e es)
  have row: "x \<in> set (e # es) \<Longrightarrow> lRow (f x) = lRow x" for x using Cons.prems(2)[of x] core_simps(1) by metis
  have no: "find (\<lambda>x. lRow x = lRow e) es = None" using Cons.prems(1) by (auto simp: find_None_iff) (metis image_eqI)
  have "update_ledgers (map f (e # es)) rows = update_ledgers (map f es) (update_one rows (f e))" by (simp add: update_ledgers_def)
  also have "\<dots> = map (\<lambda>r. case find (\<lambda>e. lRow e = lRow r) es of None \<Rightarrow> r
     | Some e \<Rightarrow> set_balance r (lBalance (f e), lBalanceUsd (f e), lRecalced (f e))) (update_one rows (f e))"
    using Cons by simp
  also have "\<dots> = map (\<lambda>r. case find (\<lambda>e. lRow e = lRow r) (e # es) of None \<Rightarrow> r
     | Some e \<Rightarrow> set_balance r (lBalance (f e), lBalanceUsd (f e), lRecalced (f e))) rows"
    using no row[of e] by (auto simp: update_one_def set_balance_def)
  finally show ?case .
qed (simp add: update_ledgers_def)

lemma update_page:
  assumes "distinct (map lRow rows)" "set elems \<subseteq> set rows" "distinct elems"
  shows "update_ledgers (map (\<lambda>e. set_balance e (g e)) elems) rows = map (\<lambda>r. if r \<in> set elems then set_balance r (g r) else r) rows"
proof -
  have inj: "x \<in> set rows \<Longrightarrow> y \<in> set rows \<Longrightarrow> lRow x = lRow y \<Longrightarrow> x = y" for x y
    using assms(1) by (auto simp: distinct_map inj_on_def)
  have d: "distinct (map lRow elems)" using assms(2,3) inj by (auto simp: distinct_map inj_on_def)
  have "(case find (\<lambda>e. lRow e = lRow r) elems of None \<Rightarrow> r
       | Some e \<Rightarrow> set_balance r (lBalance (set_balance e (g e)), lBalanceUsd (set_balance e (g e)), lRecalced (set_balance e (g e)))) =
      (if r \<in> set elems then set_balance r (g r) else r)" if "r \<in> set rows" for r
  proof (cases "find (\<lambda>e. lRow e = lRow r) elems")
    case None
    then have "r \<notin> set elems" by (auto simp: find_None_iff)
    then show ?thesis using None by simp
  next
    case (Some e)
    then have "e \<in> set elems" "lRow e = lRow r" by (auto simp: find_Some_iff)
    then have "e = r" using inj[of e r] assms(2) that by auto
    then show ?thesis using Some \<open>e \<in> set elems\<close> by (simp add: set_balance_def)
  qed
  then show ?thesis by (subst update_ledgers_map[OF d]) (auto intro: map_cong)
qed

lemma recalc_page_reference:
  assumes "tables_ok temp s" "elems = next_page limit users mts skiped (ledger_rows temp s)"
    "\<And>x. x \<in> set (ledger_rows temp s) \<Longrightarrow> lRow x \<in> set skiped \<Longrightarrow> lMts x \<le> mts"
  shows "recalc_page s temp auth elems = map (\<lambda>e. set_balance e (reference_balance auth (all_rows temp s) e)) elems"
proof -
  have "(case v of (balance, balanceUsd, recalced) \<Rightarrow>
      e\<lparr>lBalance := balance, lBalanceUsd := balanceUsd, lRecalced := recalced\<rparr>) = set_balance e v" for v e
    by (cases v) (simp add: set_balance_def)
  then show ?thesis using page_balance[OF assms(1) _ assms(2,3)] by (auto simp: recalc_page_def Let_def)
qed

lemma set_ledger_rows_facts:
  assumes "tables_ok temp s" "map core rows = map core (ledger_rows temp s)"
  shows "ledger_rows temp (set_ledger_rows temp rows s) = rows"
    and "map core (all_rows temp (set_ledger_rows temp rows s)) = map core (all_rows temp s)"
    and "tables_ok temp (set_ledger_rows temp rows s)"
    and "temp \<Longrightarrow> rcMain (set_ledger_rows temp rows s) = rcMain s"
proof -
  let ?s = "set_ledger_rows temp rows s"
  show "ledger_rows temp ?s = rows" "temp \<Longrightarrow> rcMain ?s = rcMain s"
    by (simp_all add: ledger_rows_def set_ledger_rows_def nullish_def)
  show all: "map core (all_rows temp ?s) = map core (all_rows temp s)"
    using assms(2) by (auto simp: all_rows_def set_ledger_rows_def ledger_rows_def nullish_def)
  have "main_is_older temp ?s = main_is_older temp s"
    using assms(2) main_is_older_cong[of ?s s temp]
    by (cases temp) (auto simp: set_ledger_rows_def ledger_rows_def nullish_def main_is_older_def)
  then show "tables_ok temp ?s"
    using assms(1) all in_order_core[of "all_rows temp ?s"] in_order_core[of "all_rows temp s"]
    by (auto simp: tables_ok_def set_ledger_rows_def)
qed

subsection \<open>The loop over the pages\<close>

definition times_differ :: "int list \<Rightarrow> ledger list \<Rightarrow> bool" where
  "times_differ users rows = distinct (map lMts (filter (\<lambda>r. lUser r \<in> set users \<and> lSub r \<noteq> None) rows))"

lemma times_differ_inj:
  assumes "times_differ users rows" "x \<in> set rows" "y \<in> set rows" "lMts x = lMts y"
    "lUser x \<in> set users" "lSub x \<noteq> None" "lUser y \<in> set users" "lSub y \<noteq> None"
  shows "x = y"
  using assms unfolding times_differ_def distinct_map inj_on_def by auto

text \<open>What is wanted next is what was wanted, without the page.\<close>

lemma wanted_next:
  assumes page: "elems = next_page limit users mts skiped rows" "elems \<noteq> []" and r: "r \<in> set rows"
    and rows: "distinct (map lRow rows)" "times_differ users rows"
    and skiped: "\<And>x. x \<in> set rows \<Longrightarrow> lRow x \<in> set skiped \<Longrightarrow> lMts x \<le> mts"
  shows "wanted users (lMts (last elems)) (map lRow (filter (\<lambda>x. lMts (last elems) = lMts x) elems)) r \<longleftrightarrow>
    wanted users mts skiped r \<and> r \<notin> set elems"
proof -
  define l where "l = last elems"
  have "l \<in> set elems" using page(2) by (simp add: l_def)
  then have l: "l \<in> set elems" "l \<in> set rows" "wanted users mts skiped l"
    using next_page_wanted[of l] page(1) by blast+
  have top: "x \<in> set elems \<Longrightarrow> lMts x \<le> lMts l" for x
    using ledger_pages.page_top page unfolding l_def next_page_def' by blast
  show ?thesis unfolding l_def[symmetric]
  proof (intro iffI conjI)
    assume w: "wanted users (lMts l) (map lRow (filter (\<lambda>x. lMts l = lMts x) elems)) r"
    show "r \<notin> set elems"
    proof
      assume "r \<in> set elems"
      then have "r \<in> set (filter (\<lambda>x. lMts l = lMts x) elems)" using top w by (auto simp: wanted_def intro: antisym)
      then show False using w by (auto simp: wanted_def)
    qed
    have "lRow r \<notin> set skiped"
    proof
      assume "lRow r \<in> set skiped"
      then have "lMts r = lMts l" using skiped[OF r] w l(3) by (auto simp: wanted_def)
      then have "r = l" using times_differ_inj[OF rows(2) r l(2)] w l(3) by (auto simp: wanted_def)
      then show False using l(3) \<open>lRow r \<in> set skiped\<close> by (simp add: wanted_def)
    qed
    then show "wanted users mts skiped r" using w l(3) by (auto simp: wanted_def)
  next
    assume w: "wanted users mts skiped r \<and> r \<notin> set elems"
    then have "\<not> lMts r < lMts l" 
      using ledger_pages.page_closed l r page(1) unfolding next_page_def' by blast
    moreover have "lRow r \<noteq> lRow e" if "e \<in> set elems" for e
    proof
      assume "lRow r = lRow e"
      moreover have "e \<in> set rows" using that page next_page_wanted by auto
      ultimately have "r = e" using rows(1) r by (auto simp: distinct_map inj_on_def)
      then show False using w that by simp
    qed
    ultimately show "wanted users (lMts l) (map lRow (filter (\<lambda>x. lMts l = lMts x) elems)) r"
      using w by (auto simp: wanted_def)
  qed
qed

lemma recalc_loop_reference:
  assumes "tables_ok temp s" "distinct (map lRow (ledger_rows temp s))" "times_differ users (ledger_rows temp s)" "0 < limit"
    "\<And>x. x \<in> set (ledger_rows temp s) \<Longrightarrow> lRow x \<in> set skiped \<Longrightarrow> lMts x \<le> mts"
    "length (filter (wanted users mts skiped) (ledger_rows temp s)) \<le> fuel * limit"
  shows "ledger_rows temp (recalc_loop fuel limit temp auth users mts skiped s) = map (\<lambda>r. if wanted users mts skiped r
    then set_balance r (reference_balance auth (all_rows temp s) r) else r) (ledger_rows temp s)"
  using assms
proof (induction fuel arbitrary: mts skiped s)
  case 0
  then have "\<forall>r \<in> set (ledger_rows temp s). \<not> wanted users mts skiped r" by (auto simp: filter_empty_conv)
  then show ?case by (simp cong: map_cong)
next
  case (Suc fuel)
  define rows where "rows = ledger_rows temp s"
  define elems where "elems = next_page limit users mts skiped rows"
  show ?case
  proof (cases "elems = []")
    case True
    then have "filter (wanted users mts skiped) rows = []"
      using Suc.prems(4) by (simp add: elems_def next_page_def' page_of_Nil_iff)
    then have "\<forall>r \<in> set rows. \<not> wanted users mts skiped r" by (simp add: filter_empty_conv)
    then show ?thesis using True by (simp add: elems_def rows_def cong: map_cong)
  next
    case False
    define ref where "ref = reference_balance auth (all_rows temp s)"
    define rows' where "rows' = update_ledgers (recalc_page s temp auth elems) rows"
    define s' where "s' = set_ledger_rows temp rows' s"
    define mts' where "mts' = lMts (last elems)"
    define skiped' where "skiped' = map lRow (filter (\<lambda>r. mts' = lMts r) elems)"
    have d: "distinct rows" using Suc.prems(2) by (simp add: rows_def distinct_map)
    have sub: "set elems \<subseteq> set rows" "distinct elems"
      using next_page_wanted distinct_page_of[OF d] by (auto simp: elems_def next_page_def')
    have rows': "rows' = map (\<lambda>r. if r \<in> set elems then set_balance r (ref r) else r) rows"
    proof -
      have "recalc_page s temp auth elems = map (\<lambda>e. set_balance e (ref e)) elems" unfolding ref_def
        by (rule recalc_page_reference[OF Suc.prems(1) _ Suc.prems(5)]) (simp_all add: elems_def rows_def)
      then show ?thesis unfolding rows'_def
        using update_page[OF Suc.prems(2)[folded rows_def] sub, of ref] by (simp only:)
    qed
    then have "map core rows' = map core (ledger_rows temp s)" by (simp add: rows_def)
    note st = set_ledger_rows_facts[OF Suc.prems(1) this, folded s'_def]
    have same: "lRow (if b then set_balance r v else r) = lRow r" "lMts (if b then set_balance r v else r) = lMts r"
      "lUser (if b then set_balance r v else r) = lUser r" "lSub (if b then set_balance r v else r) = lSub r" for b r v
      by (auto simp: set_balance_def)
    have times: "times_differ users rows' = times_differ users rows"
      by (simp add: times_differ_def rows' filter_map o_def same)
    have w: "wanted users mts' skiped' r \<longleftrightarrow> wanted users mts skiped r \<and> r \<notin> set elems" if "r \<in> set rows" for r
      unfolding mts'_def skiped'_def
      by (rule wanted_next[OF elems_def False that Suc.prems(2,3)[folded rows_def] Suc.prems(5)[folded rows_def]])
    have w': "wanted users mts' skiped' (if b then set_balance r v else r) = wanted users mts' skiped' r" for b r v
      by (simp add: wanted_def same)
    have len: "length (filter (wanted users mts' skiped') rows') \<le> fuel * limit"
      using length_after_page[OF d elems_def[unfolded next_page_def'] Suc.prems(6)[folded rows_def]] w
      by (simp add: rows' filter_map o_def w' cong: filter_cong)
    have skip: "lMts x \<le> mts'" if inr: "x \<in> set rows'" and ins: "lRow x \<in> set skiped'" for x
    proof -
      obtain r where r0: "r \<in> set rows" and x: "x = (if r \<in> set elems then set_balance r (ref r) else r)"
        using inr unfolding rows' set_map by (elim imageE)
      have r: "r \<in> set rows" "lRow r = lRow x" "lMts r = lMts x" using r0 by (simp_all add: x same)
      obtain e where e: "e \<in> set elems" "lMts e = mts'" "lRow e = lRow x" using ins by (auto simp: skiped'_def)
      have "inj_on lRow (set rows)" using Suc.prems(2) by (simp add: rows_def distinct_map)
      then have "r = e" by (rule inj_onD) (use r(1,2) e(1,3) sub(1) in auto)
      then show ?thesis using r(3) e(2) by simp
    qed
    have "recalc_loop (Suc fuel) limit temp auth users mts skiped s = recalc_loop fuel limit temp auth users mts' skiped' s'"
      using False by (simp add: Let_def elems_def[symmetric] rows_def[symmetric] rows'_def[symmetric] s'_def[symmetric]
          mts'_def[symmetric] skiped'_def[symmetric])
    also have "ledger_rows temp \<dots> = map (\<lambda>r. if wanted users mts' skiped' r
        then set_balance r (reference_balance auth (all_rows temp s') r) else r) (ledger_rows temp s')"
      using Suc.prems(2,3) times skip len
      by (intro Suc.IH[OF st(3) _ _ Suc.prems(4)]) (simp_all add: st(1) rows' o_def same flip: rows_def)
    also have "\<dots> = map (\<lambda>r. if wanted users mts skiped r then set_balance r (ref r) else r) rows"
    proof -
      have ref': "reference_balance auth (all_rows temp s') r = ref r" for r
        unfolding ref_def by (metis reference_balance_core st(2))
      have page: "r \<in> set elems \<Longrightarrow> wanted users mts skiped r" for r using next_page_wanted by (auto simp: elems_def)
      show ?thesis unfolding st(1) rows' map_map o_def ref' w'
        by (rule map_cong[OF refl]) (use w page in auto)
    qed
    finally show ?thesis by (simp add: ref_def rows_def)
  qed
qed

text \<open>
  C28: after the recalculation every row of a sub-account, from the first one on that was not recalculated,
  has the balance of the specification, and no other row was touched: in at most twenty million rows,
  when the identifiers grow with the time and no two rows have the same time.
\<close>

theorem execute_recalc_reference:
  assumes "tables_ok temp s" "distinct (map lRow (ledger_rows temp s))" "length (ledger_rows temp s) \<le> 1000 * 20000"
    and users: "users = remdups (List.map_filter raId auth)" and auth: "auth \<noteq> []"
    and times: "times_differ users (ledger_rows temp s)"
    and first: "first_of (sort_oldest (filter (\<lambda>r. lSub r \<noteq> None \<and> \<not> lRecalced r \<and> lUser r \<in> set users)
      (ledger_rows temp s))) = Some f" "lMts f \<noteq> 0"
  shows "\<exists>s'. execute_recalc hasDataInserter temp auth s = Inr s' \<and>
    ledger_rows temp s' = map (\<lambda>r. if lMts f \<le> lMts r \<and> lUser r \<in> set users \<and> lSub r \<noteq> None
      then set_balance r (reference_balance auth (all_rows temp s) r) else r) (ledger_rows temp s)"
proof -
  have "temp \<longrightarrow> rcTemp s \<noteq> None" using assms(1) by (simp add: tables_ok_def)
  then have run: "execute_recalc hasDataInserter temp auth s = Inr (recalc_loop 1000 20000 temp auth users (lMts f) [] s)"
    using auth first by (auto simp: execute_recalc_def users Let_def)
  have "length (filter (wanted users (lMts f) []) (ledger_rows temp s)) \<le> 1000 * 20000"
    by (rule order_trans[OF length_filter_le assms(3)])
  then have "ledger_rows temp (recalc_loop 1000 20000 temp auth users (lMts f) [] s) =
      map (\<lambda>r. if wanted users (lMts f) [] r then set_balance r (reference_balance auth (all_rows temp s) r) else r)
        (ledger_rows temp s)"
    by (intro recalc_loop_reference[OF assms(1,2) times]) simp_all
  then show ?thesis using run by (simp add: wanted_def)
qed

definition sample_ledger :: "nat \<Rightarrow> int \<Rightarrow> int \<Rightarrow> rat \<Rightarrow> ledger" where
  "sample_ledger i t sub x = \<lparr>lRow = i, lId = Some (int i), lMts = t, lWallet = ''exchange'', lCurrency = ''BTC'', lUser = 1,
     lSub = Some sub, lNative = Some x, lNativeUsd = None, lBalance = None, lBalanceUsd = None, lRecalced = False\<rparr>"

definition sample_rc_auth :: "rc_auth list" where
  "sample_rc_auth = [\<lparr>raId = Some 1, raIsSub = True, raSubUser = Some 7\<rparr>, \<lparr>raId = Some 1, raIsSub = True, raSubUser = Some 8\<rparr>]"

definition sample_rc :: rc_tables where
  "sample_rc = \<lparr>rcMain = [sample_ledger 1 10 7 5, sample_ledger 2 20 8 3, sample_ledger 3 30 7 6], rcTemp = None\<rparr>"

lemmas sample_rc_simps = sample_rc_def sample_rc_auth_def sample_ledger_def ledger_rows_def all_rows_def tables_ok_def in_order_def
  main_is_older_def same_pocket_def core_def times_differ_def sort_newest_def sort_oldest_def sort_by_simps older_ledger_def newer_ledger_def
  first_of_def newest_of_sub_def reference_balance_def getSubUsersIdsByMasterUserId_def List.map_filter_def total_or_def

lemma execute_recalc_reference_witness:
  "\<exists>s'. execute_recalc True False sample_rc_auth sample_rc = Inr s' \<and>
    map lBalance (rcMain s') = [Some 5, Some 8, Some 9]"
proof -
  have "\<exists>s'. execute_recalc True False sample_rc_auth sample_rc = Inr s' \<and>
    ledger_rows False s' = map (\<lambda>r. if lMts (sample_ledger 1 10 7 5) \<le> lMts r \<and> lUser r \<in> set [1] \<and> lSub r \<noteq> None
      then set_balance r (reference_balance sample_rc_auth (all_rows False sample_rc) r) else r) (ledger_rows False sample_rc)"
    by (rule execute_recalc_reference) (simp_all add: sample_rc_simps)
  then obtain s' where "execute_recalc True False sample_rc_auth sample_rc = Inr s'"
    "rcMain s' = map (\<lambda>r. if lMts (sample_ledger 1 10 7 5) \<le> lMts r \<and> lUser r \<in> set [1] \<and> lSub r \<noteq> None
      then set_balance r (reference_balance sample_rc_auth (all_rows False sample_rc) r) else r) (rcMain sample_rc)"
    by (auto simp: ledger_rows_def)
  moreover have "map lBalance \<dots> = [Some 5, Some 8, Some 9]" by (simp add: sample_rc_simps set_balance_def)
  ultimately show ?thesis by metis
qed

subsection \<open>Rows of the same time\<close>

text \<open>
  Two sub-users have a row in the same millisecond: the query for the rows before the page finds the later
  one of the second sub-user only, which does not count, and its balance of before is lost.
\<close>

lemma tie_loses_balance:
  "map lBalance (recalc_page \<lparr>rcMain = [sample_ledger 1 10 8 3, sample_ledger 2 20 7 5, sample_ledger 3 20 8 4], rcTemp = None\<rparr>
     False sample_rc_auth [sample_ledger 2 20 7 5, sample_ledger 3 20 8 4]) = [Some 5, Some 9]"
  by (simp add: recalc_page_def Let_def getInitialElems_def initial_elem_def getFirstGroupedRecords_def sample_rc_simps
      getRecalcBalance_def not_later_def sub_balances_def nullish_def)

text \<open>
  When the rows of one time go over the end of a page, the rows that were done are wanted again: with pages
  of one row the loop takes two rows of one time in turn until its rounds are used up.
\<close>

lemma tie_is_wanted_again:
  "next_page 1 [1] 10 [1] [sample_ledger 1 10 7 5, sample_ledger 2 10 8 3] = [sample_ledger 2 10 8 3] \<and>
   next_page 1 [1] 10 [2] [sample_ledger 1 10 7 5, sample_ledger 2 10 8 3] = [sample_ledger 1 10 7 5]"
  by (simp add: next_page_def page_of_def sample_rc_simps)


end
