(* ===== verification/Hook_Convert.thy ===== *)
theory Hook_Convert
  imports Ccy_Convert_Props Js_Pages
begin

text \<open>
  \<^verbatim>\<open>sync/data.inserter/hooks/convert.currency.hook.js\<close>: amounts in dollars for the rows of ledgers and movements
  that have none yet, page by page. A row is an object with all its columns, a missing value is
  \<^verbatim>\<open>null\<close>; a table is the list of its rows.
\<close>

record hook_env =
  hkCcy :: ccy_env
  hkSyncColls :: "string list"
  hkTableName :: "string \<Rightarrow> string"
  hkIsTemp :: bool

type_synonym hook_tables = "(string, obj list) jsmap"

definition getConvSchema :: "(string \<times> conv_schema) list" where
  "getConvSchema =
     (let sch = (\<lambda>dateField cols. \<lparr>csConvertTo = ''USD'', csSymbolField = ''currency'', csDateField = dateField,
            csMts = None, csTemps = True, csConvFields = cols, csSynonyms = []\<rparr>)
      in [(''ledgers'', sch ''mts'' [(''amount'', [''amountUsd'']), (''_nativeBalance'', [''balanceUsd'', ''_nativeBalanceUsd''])]),
          (''movements'', sch ''mtsUpdated'' [(''amount'', [''amountUsd''])])])"

definition updatedFieldNames :: "conv_schema \<Rightarrow> string list" where
  "updatedFieldNames schema = concat (map snd (csConvFields schema))"

definition row_id :: "obj \<Rightarrow> rat" where
  "row_id r = number_or_0 (get r ''_id'')"

definition not_converted :: "string list \<Rightarrow> rat \<Rightarrow> obj \<Rightarrow> bool" where
  "not_converted cols i r \<longleftrightarrow> i < row_id r \<and> list_all (\<lambda>f. nullish_val (get r f)) cols"

definition by_row_id :: "obj \<Rightarrow> obj \<Rightarrow> int" where
  "by_row_id a b = (if row_id a < row_id b then - 1 else if row_id b < row_id a then 1 else 0)"

definition convert_page :: "nat \<Rightarrow> string list \<Rightarrow> rat \<Rightarrow> obj list \<Rightarrow> obj list" where
  "convert_page limit cols i rows = page_of by_row_id limit (not_converted cols i) rows"

text \<open>\<^verbatim>\<open>updateElemsInCollBy\<close> by \<^verbatim>\<open>_id\<close>\<close>

definition copy_fields :: "string list \<Rightarrow> obj \<Rightarrow> obj \<Rightarrow> obj" where
  "copy_fields cols from r = foldl (\<lambda>it f. put it f (get from f)) r cols"

definition update_by_id :: "string list \<Rightarrow> obj list \<Rightarrow> obj list \<Rightarrow> obj list" where
  "update_by_id cols data rows = foldl (\<lambda>rs e. map (\<lambda>r. if row_id r = row_id e then copy_fields cols e r else r) rs) rows data"

text \<open>
  Rows of ledgers lose the mark of their recalculation. The loop makes at most \<open>fuel\<close> (1000) rounds
  of \<open>limit\<close> (10000) rows.
\<close>

definition marked :: "string \<Rightarrow> obj \<Rightarrow> obj" where
  "marked collName item = (if collName = ''ledgers'' then put item ''_isBalanceRecalced'' VNull else item)"

definition written_fields :: "string \<Rightarrow> conv_schema \<Rightarrow> string list" where
  "written_fields collName schema = updatedFieldNames schema @ (if collName = ''ledgers'' then [''_isBalanceRecalced''] else [])"

definition rows_of :: "jsval \<Rightarrow> obj list" where
  "rows_of v = (case v of VArr xs \<Rightarrow> map spread xs | _ \<Rightarrow> [])"

fun convert_loop ::
  "nat \<Rightarrow> nat \<Rightarrow> ccy_env \<Rightarrow> string \<Rightarrow> conv_schema \<Rightarrow> rat \<Rightarrow> obj list \<Rightarrow> synonyms_state \<Rightarrow> conv_error + obj list \<times> synonyms_state" where
  "convert_loop 0 limit env collName schema i rows sy = Inr (rows, sy)"
| "convert_loop (Suc fuel) limit env collName schema i rows sy =
     (let elems = convert_page limit (updatedFieldNames schema) i rows in
      if elems = [] then Inr (rows, sy)
      else case convertBy env Candles_Coll (VArr (map VObj elems)) schema sy of
          (Inl e, sy') \<Rightarrow> Inl e
        | (Inr convElems, sy') \<Rightarrow>
            convert_loop fuel limit env collName schema (row_id (last elems))
              (update_by_id (written_fields collName schema) (map (marked collName) (rows_of convElems)) rows) sy')"

text \<open>A temporary table that is missing ends the hook, also for the collections after it.\<close>

fun convert_colls ::
  "hook_env \<Rightarrow> string list \<Rightarrow> (string \<times> conv_schema) list \<Rightarrow> hook_tables \<Rightarrow> synonyms_state \<Rightarrow> conv_error + hook_tables \<times> synonyms_state" where
  "convert_colls env names [] tables sy = Inr (tables, sy)"
| "convert_colls env names ((collName, schema) # rest) tables sy =
     (if names \<noteq> [] \<and> collName \<notin> set names then convert_colls env names rest tables sy
      else
        let tableName = hkTableName env collName in
        if hkIsTemp env \<and> map_of tables tableName = None then Inr (tables, sy)
        else
          bind_err (convert_loop 1000 10000 (hkCcy env) collName schema 0 (nullish (map_of tables tableName) []) sy) (\<lambda>(rows, sy').
            convert_colls env names rest (AList.update tableName rows tables) sy'))"

definition execute_convert ::
  "hook_env \<Rightarrow> string list \<Rightarrow> hook_tables \<Rightarrow> synonyms_state \<Rightarrow> conv_error + hook_tables \<times> synonyms_state" where
  "execute_convert env names tables sy =
     (if list_all (\<lambda>name. name \<noteq> ''_ALL'' \<and> name \<noteq> ''candles'' \<and> name \<noteq> ''ledgers'') (hkSyncColls env) then Inr (tables, sy)
      else convert_colls env names getConvSchema tables sy)"

end
