(* ===== verification/Hook_Convert_Props.thy ===== *)
theory Hook_Convert_Props
  imports Hook_Convert
begin

text \<open>
  The hook converts every row that has no amounts in dollars yet exactly once, with the price that the
  row gets alone, and touches nothing else.
\<close>

interpretation row_pages: paging by_row_id row_id
  by unfold_locales (auto simp: orders_def by_row_id_def split: if_splits)

subsection \<open>The conversion by candles does not throw\<close>

lemma bind_Inr_is_Inr: "(\<exists>y. e = Inr y) \<Longrightarrow> (\<And>y. \<exists>z. f y = Inr z) \<Longrightarrow> \<exists>z. bind_err e f = Inr z"
  by (auto simp: bind_err_eq_Inr)

lemma getPriceOf_candles_Inr: "\<exists>p. getPriceOf env Candles_Coll temps symb convertTo e = Inr p"
  by (auto simp: getPriceOf_def getPriceMethod_def bind_err_eq_Inr)

lemma first_synonym_price_Inr: "(\<And>s. \<exists>p. f s = Inr p) \<Longrightarrow> \<exists>p. first_synonym_price env f syns = Inr p"
proof (induction syns)
  case (Cons x syns)
  obtain s c where x: "x = (s, c)" by (cases x)
  obtain p where "f s = Inr p" using Cons.prems by blast
  then show ?case using Cons by (cases p) (auto simp: x)
qed simp

lemma priceFinder_Inr: "(\<And>s. \<exists>p. f s = Inr p) \<Longrightarrow> \<exists>p. priceFinder env f reqSymb syn = Inr p"
proof -
  assume f: "\<And>s. \<exists>p. f s = Inr p"
  obtain p where "f (getPairFromPair env reqSymb) = Inr p" using f by blast
  then show ?thesis using first_synonym_price_Inr[OF f] by (cases p) (auto simp: priceFinder_def)
qed

definition converted :: "ccy_env \<Rightarrow> conv_schema \<Rightarrow> synonyms \<Rightarrow> obj \<Rightarrow> obj" where
  "converted env schema syn r = (case convert_item env Candles_Coll schema syn (VObj r) of Inr v \<Rightarrow> spread v | Inl e \<Rightarrow> r)"

lemma convert_item_candles_Inr: "\<exists>q. convert_item env Candles_Coll schema syn (VObj r) = Inr (VObj q)"
proof -
  define e where "e = (if csMts schema \<noteq> None then csMts schema else int_val (get (spread (VObj r)) (csDateField schema)))"
  define symb where "symb = getConvertingSymb (text_val (get (spread (VObj r)) (csSymbolField schema)))"
  obtain p where p: "(if csConvertTo schema = symb then Inr (Some 1)
      else priceFinder env (\<lambda>s. getPriceOf env Candles_Coll (csTemps schema) s (csConvertTo schema) e) symb syn) = Inr p"
    using priceFinder_Inr[of "\<lambda>s. getPriceOf env Candles_Coll (csTemps schema) s (csConvertTo schema) e" env symb syn]
      getPriceOf_candles_Inr by (cases "csConvertTo schema = symb") auto
  show ?thesis unfolding convert_item_def Let_def e_def[symmetric] symb_def[symmetric] p
    by (cases p) simp_all
qed

lemma convert_item_candles: "convert_item env Candles_Coll schema syn (VObj r) = Inr (VObj (converted env schema syn r))"
  using convert_item_candles_Inr[of env schema syn r] by (auto simp: converted_def)

lemma convertBy_candles:
  "convertBy env Candles_Coll (VArr (map VObj rows)) schema sy =
    (let (syn, sy') = getCurrenciesSynonymousIfEmpty env (csSynonyms schema) sy
     in (Inr (VArr (map (\<lambda>r. VObj (converted env schema syn r)) rows)), sy'))"
proof -
  have "map_err (convert_item env Candles_Coll schema syn) (map VObj rows) =
      Inr (map (\<lambda>r. VObj (converted env schema syn r)) rows)" for syn
    by (induction rows) (simp_all add: convert_item_candles)
  then show ?thesis by (auto simp: convertBy_def over_data_def split: prod.split)
qed

text \<open>Asking for the synonyms again at the same time gives the same.\<close>

lemma synonyms_stable:
  assumes "getCurrenciesSynonymousIfEmpty env given sy = (syn, sy')"
  shows "getCurrenciesSynonymousIfEmpty env given sy' = (syn, sy')"
  using assms by (auto simp: getCurrenciesSynonymousIfEmpty_def getCurrenciesSynonymous_def Let_def split: if_splits)

subsection \<open>Updates by identifier\<close>

lemma get_copy_fields: "get (copy_fields cols from r) k = (if k \<in> set cols then get from k else get r k)"
proof -
  have "get (foldl (\<lambda>it f. put it f (get from f)) r cols) k = (if k \<in> set cols then get from k else get r k)"
    by (induction cols arbitrary: r) auto
  then show ?thesis by (simp add: copy_fields_def)
qed

lemma row_id_copy [simp]: "''_id'' \<notin> set cols \<Longrightarrow> row_id (copy_fields cols from r) = row_id r"
  by (simp add: row_id_def get_copy_fields)

lemma update_by_id_page:
  assumes "distinct (map row_id elems)" "''_id'' \<notin> set cols" "\<And>e. e \<in> set elems \<Longrightarrow> row_id (f e) = row_id e"
  shows "update_by_id cols (map f elems) rows = map (\<lambda>r. case find (\<lambda>e. row_id e = row_id r) elems of None \<Rightarrow> r
     | Some e \<Rightarrow> copy_fields cols (f e) r) rows"
  using assms(1,3)
proof (induction elems arbitrary: rows)
  case (Cons e es)
  have no: "find (\<lambda>x. row_id x = row_id e) es = None" using Cons.prems(1) by (auto simp: find_None_iff) (metis image_eqI)
  have "update_by_id cols (map f (e # es)) rows =
      update_by_id cols (map f es) (map (\<lambda>r. if row_id r = row_id (f e) then copy_fields cols (f e) r else r) rows)"
    by (simp add: update_by_id_def)
  also have "\<dots> = map (\<lambda>r. case find (\<lambda>e. row_id e = row_id r) es of None \<Rightarrow> r
     | Some e \<Rightarrow> copy_fields cols (f e) r) (map (\<lambda>r. if row_id r = row_id (f e) then copy_fields cols (f e) r else r) rows)"
    using Cons by simp
  also have "\<dots> = map (\<lambda>r. case find (\<lambda>e. row_id e = row_id r) (e # es) of None \<Rightarrow> r
     | Some e \<Rightarrow> copy_fields cols (f e) r) rows"
    using no Cons.prems(2)[of e] assms(2) by auto
  finally show ?case .
qed (simp add: update_by_id_def)

lemma update_by_id_rows:
  assumes "distinct (map row_id rows)" "set elems \<subseteq> set rows" "distinct elems" "''_id'' \<notin> set cols"
    "\<And>e. e \<in> set elems \<Longrightarrow> row_id (f e) = row_id e"
  shows "update_by_id cols (map f elems) rows = map (\<lambda>r. if r \<in> set elems then copy_fields cols (f r) r else r) rows"
proof -
  have inj: "inj_on row_id (set rows)" using assms(1) by (simp add: distinct_map)
  have d: "distinct (map row_id elems)" using assms(2,3) inj by (auto simp: distinct_map intro: inj_on_subset)
  have "(case find (\<lambda>e. row_id e = row_id r) elems of None \<Rightarrow> r | Some e \<Rightarrow> copy_fields cols (f e) r) =
      (if r \<in> set elems then copy_fields cols (f r) r else r)" if r: "r \<in> set rows" for r
  proof (cases "find (\<lambda>e. row_id e = row_id r) elems")
    case None
    then have "r \<notin> set elems" by (auto simp: find_None_iff)
    then show ?thesis using None by simp
  next
    case (Some e)
    then have e: "e \<in> set elems" "row_id e = row_id r" by (auto simp: find_Some_iff)
    have "e = r" by (rule inj_onD[OF inj e(2)]) (use e(1) assms(2) r in auto)
    then show ?thesis using Some e(1) by simp
  qed
  then show ?thesis by (subst update_by_id_page[OF d assms(4,5)]) (auto intro: map_cong)
qed

subsection \<open>What a conversion writes\<close>

lemma get_apply_field:
  assumes "k \<notin> set (snd field)"
  shows "get (apply_field env price item field) k = get item k"
proof -
  obtain i outs where f: "field = (i, outs)" by (cases field)
  have "get (foldl (\<lambda>it f. case get it i of VNum x \<Rightarrow> put it f (VNum (ccFl env (x * price))) | _ \<Rightarrow> it) item outs) k = get item k"
    using assms unfolding f by (induction outs arbitrary: item) (simp_all split: jsval.split)
  then show ?thesis by (simp add: f apply_field_def)
qed

lemma get_apply_price: "k \<notin> set (concat (map snd cols)) \<Longrightarrow> get (apply_price env cols p item) k = get item k"
  by (induction cols arbitrary: item) (simp_all add: apply_price_def get_apply_field)

lemma get_converted:
  assumes "k \<notin> set (updatedFieldNames schema)"
  shows "get (converted env schema syn r) k = get r k"
proof -
  obtain q where q: "convert_item env Candles_Coll schema syn (VObj r) = Inr (VObj q)"
    using convert_item_candles_Inr by blast
  then have "q = r \<or> (\<exists>p. q = apply_price env (csConvFields schema) p r)"
    by (auto simp: convert_item_def Let_def bind_err_eq_Inr split: if_splits option.splits)
  then show ?thesis using q assms get_apply_price[of k "csConvFields schema" env _ r]
    by (auto simp: converted_def updatedFieldNames_def)
qed

subsection \<open>The loop\<close>

definition result_row :: "ccy_env \<Rightarrow> string \<Rightarrow> conv_schema \<Rightarrow> synonyms \<Rightarrow> obj \<Rightarrow> obj" where
  "result_row env collName schema syn r =
     copy_fields (written_fields collName schema) (marked collName (converted env schema syn r)) r"

lemma row_id_result [simp]:
  "''_id'' \<notin> set (updatedFieldNames schema) \<Longrightarrow> row_id (result_row env collName schema syn r) = row_id r"
  by (auto simp: result_row_def written_fields_def)

lemma row_id_marked_converted:
  "''_id'' \<notin> set (updatedFieldNames schema) \<Longrightarrow> row_id (marked collName (converted env schema syn r)) = row_id r"
  by (simp add: row_id_def marked_def get_converted)

lemma convert_loop_rows:
  assumes "distinct (map row_id rows)" "0 < limit" "''_id'' \<notin> set (updatedFieldNames schema)"
    "length (filter (not_converted (updatedFieldNames schema) i) rows) \<le> fuel * limit"
    "getCurrenciesSynonymousIfEmpty env (csSynonyms schema) sy = (syn, sy1)"
  shows "\<exists>sy'. sy' \<in> {sy, sy1} \<and> convert_loop fuel limit env collName schema i rows sy = Inr (map (\<lambda>r.
    if not_converted (updatedFieldNames schema) i r then result_row env collName schema syn r else r) rows, sy')"
  using assms
proof (induction fuel arbitrary: i rows sy)
  case 0
  then have "\<forall>r \<in> set rows. \<not> not_converted (updatedFieldNames schema) i r" by (auto simp: filter_empty_conv)
  then show ?case by (simp cong: map_cong)
next
  case (Suc fuel)
  define P where "P = not_converted (updatedFieldNames schema)"
  define elems where "elems = page_of by_row_id limit (P i) rows"
  have page: "convert_page limit (updatedFieldNames schema) i rows = elems" by (simp add: convert_page_def elems_def P_def)
  show ?case
  proof (cases "elems = []")
    case True
    then have "\<forall>r \<in> set rows. \<not> P i r" using Suc.prems(2) by (auto simp: elems_def page_of_Nil_iff filter_empty_conv)
    then show ?thesis using True page by (simp add: P_def cong: map_cong)
  next
    case False
    let ?res = "result_row env collName schema syn"
    define l where "l = last elems"
    define rows' where "rows' = map (\<lambda>r. if r \<in> set elems then ?res r else r) rows"
    have d: "distinct rows" "inj_on row_id (set rows)" using Suc.prems(1) by (simp_all add: distinct_map)
    have sub: "set elems \<subseteq> set rows" "distinct elems"
      using set_page_of[of by_row_id limit "P i" rows] distinct_page_of[OF d(1)] by (auto simp: elems_def)
    have l: "l \<in> set elems" using False by (simp add: l_def)
    have ids: "row_id (if r \<in> set elems then ?res r else r) = row_id r" for r using Suc.prems(3) by simp
    have "update_by_id (written_fields collName schema) (map (marked collName) (rows_of (VArr (map (\<lambda>r. VObj (converted env schema syn r)) elems)))) rows =
        update_by_id (written_fields collName schema) (map (\<lambda>r. marked collName (converted env schema syn r)) elems) rows"
      by (simp add: rows_of_def o_def)
    also have "\<dots> = rows'" unfolding rows'_def result_row_def
      using Suc.prems(3) row_id_marked_converted by (intro update_by_id_rows[OF Suc.prems(1) sub]) (auto simp: written_fields_def)
    finally have upd: "update_by_id (written_fields collName schema) (map (marked collName) (rows_of (VArr (map (\<lambda>r. VObj (converted env schema syn r)) elems)))) rows = rows'" .
    have step: "convert_loop (Suc fuel) limit env collName schema i rows sy = convert_loop fuel limit env collName schema (row_id l) rows' sy1"
      using False by (simp add: page convertBy_candles Suc.prems(5) upd l_def)
    have nxt: "P (row_id l) (if r \<in> set elems then ?res r else r) \<longleftrightarrow> P i r \<and> r \<notin> set elems" if r: "r \<in> set rows" for r
    proof (cases "r \<in> set elems")
      case True
      then have "row_id r \<le> row_id l" using row_pages.page_top False unfolding l_def elems_def by blast
      then show ?thesis using True Suc.prems(3) by (simp add: P_def not_converted_def)
    next
      case no: False
      have i: "i < row_id l" using l page_of_wanted[of l by_row_id limit "P i" rows] by (auto simp: elems_def P_def not_converted_def)
      have "row_id l < row_id r" if "P i r"
      proof -
        have "\<not> row_id r < row_id l" using row_pages.page_closed l r that no unfolding elems_def by blast
        moreover have "row_id r \<noteq> row_id l"
        proof
          assume "row_id r = row_id l"
          then have "r = l" by (rule inj_onD[OF d(2)]) (use r l sub(1) in auto)
          then show False using no l by simp
        qed
        ultimately show ?thesis by simp
      qed
      then show ?thesis using no i by (auto simp: P_def not_converted_def)
    qed
    have "length (filter (P (row_id l)) rows') \<le> fuel * limit"
      using length_after_page[OF d(1) elems_def Suc.prems(4)[folded P_def]] nxt
      by (simp add: rows'_def filter_map o_def cong: filter_cong)
    moreover have "distinct (map row_id rows')" using Suc.prems(1) by (simp add: rows'_def o_def ids cong: map_cong)
    ultimately obtain sy' where sy': "sy' = sy1" "convert_loop fuel limit env collName schema (row_id l) rows' sy1 =
        Inr (map (\<lambda>r. if P (row_id l) r then ?res r else r) rows', sy')"
      using Suc.IH[OF _ Suc.prems(2,3) _ synonyms_stable[OF Suc.prems(5)]] by (auto simp: P_def)
    have "(if P (row_id l) (if r \<in> set elems then ?res r else r) then ?res (if r \<in> set elems then ?res r else r)
        else if r \<in> set elems then ?res r else r) = (if P i r then ?res r else r)" if "r \<in> set rows" for r
      using nxt[OF that] page_of_wanted[of r by_row_id limit "P i" rows] by (auto simp: elems_def)
    then have "map (\<lambda>r. if P (row_id l) r then ?res r else r) rows' = map (\<lambda>r. if P i r then ?res r else r) rows"
      unfolding rows'_def map_map o_def by (rule map_cong[OF refl])
    then show ?thesis using step sy' by (simp add: P_def)
  qed
qed

subsection \<open>The hook\<close>

lemma loop_from_start:
  assumes "distinct (map row_id rows)" "length rows \<le> 1000 * 10000" "''_id'' \<notin> set (updatedFieldNames schema)"
    "getCurrenciesSynonymousIfEmpty env (csSynonyms schema) sy = (syn, sy1)"
  shows "\<exists>sy'. sy' \<in> {sy, sy1} \<and> convert_loop 1000 10000 env collName schema 0 rows sy = Inr (map (\<lambda>r.
    if not_converted (updatedFieldNames schema) 0 r then result_row env collName schema syn r else r) rows, sy')"
  by (rule convert_loop_rows) (use assms order_trans[OF length_filter_le assms(2)] in auto)

text \<open>The rows after the hook: those without amounts in dollars are converted, the others as before.\<close>

definition hook_result :: "ccy_env \<Rightarrow> string \<times> conv_schema \<Rightarrow> synonyms \<Rightarrow> obj list \<Rightarrow> obj list" where
  "hook_result env coll syn rows = map (\<lambda>r. if not_converted (updatedFieldNames (snd coll)) 0 r
     then result_row env (fst coll) (snd coll) syn r else r) rows"

text \<open>
  C29: when a job brings ledgers, candles or everything, every row of both collections that has no amounts in
  dollars is converted by the synonyms and candles there are, once, and all other rows stay: in up to ten
  million rows of each.
\<close>

theorem execute_convert_rows:
  assumes "map_of tables (hkTableName env ''ledgers'') = Some ls" "map_of tables (hkTableName env ''movements'') = Some ms"
    "hkTableName env ''ledgers'' \<noteq> hkTableName env ''movements''"
    "distinct (map row_id ls)" "length ls \<le> 1000 * 10000" "distinct (map row_id ms)" "length ms \<le> 1000 * 10000"
    "list_ex (\<lambda>name. name \<in> {''_ALL'', ''candles'', ''ledgers''}) (hkSyncColls env)"
    and syn: "syn = fst (getCurrenciesSynonymous (hkCcy env) sy)"
  shows "\<exists>tables' sy'. execute_convert env [] tables sy = Inr (tables', sy') \<and>
    map_of tables' (hkTableName env ''ledgers'') = Some (hook_result (hkCcy env) (getConvSchema ! 0) syn ls) \<and>
    map_of tables' (hkTableName env ''movements'') = Some (hook_result (hkCcy env) (getConvSchema ! 1) syn ms)"
proof -
  obtain L M where sch: "getConvSchema = [(''ledgers'', L), (''movements'', M)]" "csSynonyms L = []" "csSynonyms M = []"
    "''_id'' \<notin> set (updatedFieldNames L)" "''_id'' \<notin> set (updatedFieldNames M)"
    by (auto simp: getConvSchema_def Let_def updatedFieldNames_def)
  obtain sy1 where g: "getCurrenciesSynonymousIfEmpty (hkCcy env) [] sy = (syn, sy1)"
    using syn by (cases "getCurrenciesSynonymous (hkCcy env) sy") (simp add: getCurrenciesSynonymousIfEmpty_def)
  obtain sy2 where l: "sy2 \<in> {sy, sy1}" "convert_loop 1000 10000 (hkCcy env) ''ledgers'' L 0 ls sy =
      Inr (hook_result (hkCcy env) (''ledgers'', L) syn ls, sy2)"
    using loop_from_start[OF assms(4,5) sch(4), of "hkCcy env" sy syn sy1 "''ledgers''"] g unfolding hook_result_def by (auto simp: sch(2))
  have "getCurrenciesSynonymousIfEmpty (hkCcy env) [] sy2 = (syn, sy1)" using l(1) g synonyms_stable[OF g] by auto
  then obtain sy3 where m: "convert_loop 1000 10000 (hkCcy env) ''movements'' M 0 ms sy2 =
      Inr (hook_result (hkCcy env) (''movements'', M) syn ms, sy3)"
    using loop_from_start[OF assms(6,7) sch(5), of "hkCcy env" sy2 syn sy1 "''movements''"] unfolding hook_result_def by (auto simp: sch(3))
  have "\<not> list_all (\<lambda>name. name \<noteq> ''_ALL'' \<and> name \<noteq> ''candles'' \<and> name \<noteq> ''ledgers'') (hkSyncColls env)"
    using assms(8) by (auto simp: list_all_iff list_ex_iff)
  then have "execute_convert env [] tables sy = Inr (AList.update (hkTableName env ''movements'') (hook_result (hkCcy env) (''movements'', M) syn ms)
      (AList.update (hkTableName env ''ledgers'') (hook_result (hkCcy env) (''ledgers'', L) syn ls) tables), sy3)"
    using assms(1-3) l(2) m by (simp add: execute_convert_def sch(1) Let_def update_conv' nullish_def)
  then show ?thesis using assms(3) by (simp add: sch(1) update_conv')
qed

text \<open>
  A job that synchronises candles and movements: there is no temporary table of ledgers, so the hook ends
  before it looks at the movements.
\<close>

lemma missing_ledgers_skip_movements:
  assumes "hkIsTemp env" "map_of tables (hkTableName env ''ledgers'') = None"
  shows "execute_convert env [] tables sy = Inr (tables, sy)"
  using assms by (simp add: execute_convert_def getConvSchema_def Let_def)

definition sample_hook_env :: hook_env where
  "sample_hook_env = \<lparr>hkCcy = sample_ccy_env\<lparr>ccCandles := [sample_candle 100 50 ''tBTCUSD'']\<rparr>, hkSyncColls = [''_ALL''],
     hkTableName = id, hkIsTemp = False\<rparr>"

definition sample_hook_row :: "rat \<Rightarrow> jsval \<Rightarrow> obj" where
  "sample_hook_row i usd = [(''_id'', VNum i), (''currency'', VStr ''BTC''), (''mtsUpdated'', VNum 200), (''amount'', VNum 2), (''amountUsd'', usd)]"

lemma execute_convert_rows_witness:
  "\<exists>tables' sy'. execute_convert sample_hook_env [] [(''ledgers'', []), (''movements'', [sample_hook_row 1 VNull, sample_hook_row 2 (VNum 7)])]
      \<lparr>syUpdatedAt = 0, syCurrencies = [], sySynonyms = []\<rparr> = Inr (tables', sy') \<and>
    map_of tables' ''movements'' = Some (hook_result (hkCcy sample_hook_env) (getConvSchema ! 1) []
      [sample_hook_row 1 VNull, sample_hook_row 2 (VNum 7)])"
proof -
  have "fst (getCurrenciesSynonymous (hkCcy sample_hook_env) \<lparr>syUpdatedAt = 0, syCurrencies = [], sySynonyms = []\<rparr>) = []"
    by (simp add: getCurrenciesSynonymous_def sample_hook_env_def sample_ccy_env_def Let_def)
  then show ?thesis
    using execute_convert_rows[of "[(''ledgers'', []), (''movements'', [sample_hook_row 1 VNull, sample_hook_row 2 (VNum 7)])]"
        sample_hook_env "[]" "[sample_hook_row 1 VNull, sample_hook_row 2 (VNum 7)]" "[]" "\<lparr>syUpdatedAt = 0, syCurrencies = [], sySynonyms = []\<rparr>"]
    by (auto simp: sample_hook_env_def sample_hook_row_def row_id_def get_def number_or_0_def nullish_def)
qed

end
