(* ===== verification/Report_Frames.thy ===== *)
theory Report_Frames
  imports Series_Merge
begin

text \<open>
  Frames of time: \<^verbatim>\<open>sync/helpers/group-by-timeframe.js\<close>, \<^verbatim>\<open>set-mts-to-starting-and-ending-frames.js\<close> and
  \<^verbatim>\<open>get-mts-grouped-by-timeframe.js\<close>. The calendar is a parameter: the start of the frame that holds a time,
  and the time one frame later (for weeks: the Monday of the next week).
\<close>

datatype timeframe = Day | Week | Month | Year

datatype frame_arg = Frame timeframe | Whole int | No_Frame

record calendar =
  calStart :: "timeframe \<Rightarrow> int \<Rightarrow> int"
  calNext :: "timeframe \<Rightarrow> int \<Rightarrow> int"

subsection \<open>Starting and ending frames\<close>

definition getMtsIfInTimeframe :: "calendar \<Rightarrow> int \<Rightarrow> int \<Rightarrow> timeframe option \<Rightarrow> int" where
  "getMtsIfInTimeframe cal nativeMts mts tf = (case tf of
       None \<Rightarrow> mts
     | Some t \<Rightarrow> if calStart cal t mts = calStart cal t nativeMts then mts else nativeMts)"

definition setMtsToStartingAndEndingFrames ::
  "calendar \<Rightarrow> (int \<times> 'v) list \<Rightarrow> int option \<Rightarrow> int option \<Rightarrow> timeframe option \<Rightarrow> (int \<times> 'v) list" where
  "setMtsToStartingAndEndingFrames cal data start e tf =
     (let d1 = (case (data, e) of
            ((m, v) # rest, Some x) \<Rightarrow> (getMtsIfInTimeframe cal m x tf, v) # rest
          | _ \<Rightarrow> data)
      in case start of
           Some x \<Rightarrow> if 1 < length d1
             then butlast d1 @ [(getMtsIfInTimeframe cal (fst (last d1)) x tf, snd (last d1))] else d1
         | None \<Rightarrow> d1)"

subsection \<open>Grouping\<close>

text \<open>\<^verbatim>\<open>_checkTimeframe\<close>: the next item, which is newer, belongs to a later frame than the oldest of the group.\<close>

definition checkTimeframe :: "calendar \<Rightarrow> timeframe \<Rightarrow> int option \<Rightarrow> int option \<Rightarrow> bool \<Rightarrow> bool" where
  "checkTimeframe cal tf first lst isLastIter \<longleftrightarrow>
     (case (first, lst) of (Some f, Some l) \<Rightarrow> calStart cal tf f > calStart cal tf l | _ \<Rightarrow> False) \<or> isLastIter"

definition getGroupMts :: "calendar \<Rightarrow> frame_arg \<Rightarrow> int option \<Rightarrow> int option" where
  "getGroupMts cal arg lst = (case arg of
       Whole x \<Rightarrow> Some x
     | No_Frame \<Rightarrow> lst
     | Frame tf \<Rightarrow> map_option (calStart cal tf) lst)"

text \<open>
  The items from the oldest to the newest; \<open>subRes\<close> is the group so far, newest first. A calculation may
  keep a state; a group without a time or without values is dropped.
\<close>

definition addFragment :: "int option \<Rightarrow> ('k, 'v) jsmap \<Rightarrow> (int \<times> ('k, 'v) jsmap) list \<Rightarrow> (int \<times> ('k, 'v) jsmap) list" where
  "addFragment mts vs res = (case mts of Some m \<Rightarrow> if vs = [] then res else (m, vs) # res | None \<Rightarrow> res)"

fun group_loop ::
  "calendar \<Rightarrow> frame_arg \<Rightarrow> ('a \<Rightarrow> int option) \<Rightarrow> ('s \<Rightarrow> 'a list \<Rightarrow> 's \<times> ('k, 'v) jsmap) \<Rightarrow> 'a list \<Rightarrow> 'a list
    \<Rightarrow> 's \<Rightarrow> (int \<times> ('k, 'v) jsmap) list \<Rightarrow> 's \<times> (int \<times> ('k, 'v) jsmap) list" where
  "group_loop cal arg date calc [] subRes s res = (s, res)"
| "group_loop cal arg date calc (item # rest) subRes s res =
     (let isLastIter = (rest = []);
          sub = (if date item \<noteq> None then item # subRes else subRes);
          nextItem = (case rest of [] \<Rightarrow> None | x # _ \<Rightarrow> date x);
          lst = (if sub = [] then nextItem else date (last sub));
          ends = (case arg of Frame tf \<Rightarrow> checkTimeframe cal tf nextItem lst isLastIter | _ \<Rightarrow> isLastIter)
      in if ends then
           let (s', vs) = calc s sub;
               mts = getGroupMts cal arg (if sub = [] then None else date (last sub))
           in group_loop cal arg date calc rest [] s' (addFragment mts vs res)
         else group_loop cal arg date calc rest sub s res)"

definition frame_of :: "frame_arg \<Rightarrow> timeframe option" where
  "frame_of arg = (case arg of Frame tf \<Rightarrow> Some tf | _ \<Rightarrow> None)"

definition groupByTimeframe ::
  "calendar \<Rightarrow> frame_arg \<Rightarrow> int option \<Rightarrow> int option \<Rightarrow> ('a \<Rightarrow> int option) \<Rightarrow> ('s \<Rightarrow> 'a list \<Rightarrow> 's \<times> ('k, 'v) jsmap) \<Rightarrow> 's
    \<Rightarrow> 'a list \<Rightarrow> (int \<times> ('k, 'v) jsmap) list" where
  "groupByTimeframe cal arg start e date calc s data =
     (if data = [] then []
      else setMtsToStartingAndEndingFrames cal (snd (group_loop cal arg date calc (rev data) [] s [])) start e (frame_of arg))"

subsection \<open>All frames of a range\<close>

text \<open>Every step is at least a millisecond, which bounds the number of rounds.\<close>

fun frames_up :: "calendar \<Rightarrow> timeframe \<Rightarrow> int \<Rightarrow> nat \<Rightarrow> int \<Rightarrow> int list \<Rightarrow> int list" where
  "frames_up cal tf e 0 cur res = res"
| "frames_up cal tf e (Suc fuel) cur res =
     (if e < cur then res else frames_up cal tf e fuel (calNext cal tf cur) (cur # res))"

definition getMtsGroupedByTimeframe :: "calendar \<Rightarrow> int \<Rightarrow> int \<Rightarrow> timeframe \<Rightarrow> bool \<Rightarrow> (int \<times> int) list" where
  "getMtsGroupedByTimeframe cal start e tf isSet =
     (let s = calStart cal tf start; t = calStart cal tf e;
          res = map (\<lambda>m. (m, m)) (frames_up cal tf t (nat (t - s) + 1) s [])
      in if isSet then setMtsToStartingAndEndingFrames cal res (Some start) (Some e) None else res)"

subsection \<open>What is known of the calendar\<close>

text \<open>
  The start of a frame is not after the time, is its own start, and grows with the time; the next frame is
  the first that starts later.
\<close>

definition calendar_ok :: "calendar \<Rightarrow> timeframe \<Rightarrow> bool" where
  "calendar_ok cal tf \<longleftrightarrow> (\<forall>t. calStart cal tf t \<le> t \<and> calStart cal tf (calStart cal tf t) = calStart cal tf t) \<and>
     (\<forall>t u. t \<le> u \<longrightarrow> calStart cal tf t \<le> calStart cal tf u) \<and>
     (\<forall>t. calStart cal tf t = t \<longrightarrow> t < calNext cal tf t \<and> calStart cal tf (calNext cal tf t) = calNext cal tf t \<and>
       (\<forall>u. t < u \<longrightarrow> calStart cal tf u = u \<longrightarrow> calNext cal tf t \<le> u))"

text \<open>Days and weeks in milliseconds; week starts are Mondays, the first of them four days after the epoch.\<close>

definition day_ms :: int where "day_ms = 86400000"

definition plain_calendar :: calendar where
  "plain_calendar = \<lparr>calStart = (\<lambda>tf t. case tf of Week \<Rightarrow> (t - 4 * day_ms) div (7 * day_ms) * (7 * day_ms) + 4 * day_ms
       | _ \<Rightarrow> t div day_ms * day_ms),
     calNext = (\<lambda>tf t. case tf of Week \<Rightarrow> t + 7 * day_ms | _ \<Rightarrow> t + day_ms)\<rparr>"

end
