(* ===== verification/Report_Frames_Props.thy ===== *)
theory Report_Frames_Props
  imports Report_Frames
begin

text \<open>
  Grouping makes one group of each frame, with all its items; the frames of a range are all frames that
  start in it.
\<close>

subsection \<open>Groups\<close>

fun groups_from :: "('a \<Rightarrow> int) \<Rightarrow> 'a list \<Rightarrow> 'a list \<Rightarrow> 'a list list" where
  "groups_from fr [] sub = []"
| "groups_from fr (x # rest) sub =
     (if rest = [] \<or> fr x < fr (hd rest) then (x # sub) # groups_from fr rest [] else groups_from fr rest (x # sub))"

definition run_groups ::
  "('a list \<Rightarrow> int option) \<Rightarrow> ('s \<Rightarrow> 'a list \<Rightarrow> 's \<times> ('k, 'v) jsmap) \<Rightarrow> 'a list list \<Rightarrow> 's \<times> (int \<times> ('k, 'v) jsmap) list
    \<Rightarrow> 's \<times> (int \<times> ('k, 'v) jsmap) list" where
  "run_groups mts calc gs st = foldl (\<lambda>(s, res) g. let (s', vs) = calc s g in (s', addFragment (mts g) vs res)) st gs"

lemma run_groups_simps [simp]:
  "run_groups mts calc [] st = st"
  "run_groups mts calc (g # gs) st = run_groups mts calc gs (case st of (s, res) \<Rightarrow>
     let (s', vs) = calc s g in (s', addFragment (mts g) vs res))"
  by (auto simp: run_groups_def split: prod.split)

lemma run_groups_append [simp]: "run_groups mts calc (gs @ hs) st = run_groups mts calc hs (run_groups mts calc gs st)"
  by (simp add: run_groups_def)

definition frame_start :: "calendar \<Rightarrow> timeframe \<Rightarrow> ('a \<Rightarrow> int option) \<Rightarrow> 'a \<Rightarrow> int" where
  "frame_start cal tf date x = calStart cal tf (the (date x))"

text \<open>The loop runs the calculation on the groups one after the other.\<close>

lemma group_loop_groups:
  assumes "\<And>x. x \<in> set (xs @ sub) \<Longrightarrow> date x \<noteq> None"
    and "\<And>x. x \<in> set sub \<Longrightarrow> xs \<noteq> [] \<Longrightarrow> frame_start cal tf date x = frame_start cal tf date (hd xs)"
    and "sorted (map (frame_start cal tf date) xs)"
  shows "group_loop cal (Frame tf) date calc xs sub s res =
    run_groups (\<lambda>g. Some (frame_start cal tf date (last g))) calc (groups_from (frame_start cal tf date) xs sub) (s, res)"
  using assms
proof (induction xs arbitrary: sub s res)
  case (Cons x rest)
  let ?fr = "frame_start cal tf date"
  have dx: "date x \<noteq> None" using Cons.prems(1) by simp
  have lst: "date (last (x # sub)) \<noteq> None" "?fr (last (x # sub)) = ?fr x"
  proof -
    have "last (x # sub) \<in> set ((x # rest) @ sub)" by (cases sub) auto
    then show "date (last (x # sub)) \<noteq> None" using Cons.prems(1) by blast
    show "?fr (last (x # sub)) = ?fr x" using Cons.prems(2)[of "last sub"] by (cases "sub = []") auto
  qed
  have calc_mts: "getGroupMts cal (Frame tf) (date (last (x # sub))) = Some (?fr (last (x # sub)))"
    using lst(1) by (auto simp: getGroupMts_def frame_start_def)
  have ends: "checkTimeframe cal tf (case rest of [] \<Rightarrow> None | y # _ \<Rightarrow> date y) (date (last (x # sub))) (rest = []) \<longleftrightarrow>
      rest = [] \<or> ?fr x < ?fr (hd rest)"
  proof (cases rest)
    case (Cons y ys)
    have "date y \<noteq> None" using Cons.prems(1) Cons by simp
    then show ?thesis using lst Cons by (auto simp: checkTimeframe_def frame_start_def)
  qed (simp add: checkTimeframe_def)
  show ?case
  proof (cases "rest = [] \<or> ?fr x < ?fr (hd rest)")
    case True
    then have "groups_from ?fr (x # rest) sub = (x # sub) # groups_from ?fr rest []" by simp
    then show ?thesis using True dx ends calc_mts Cons.IH[of "[]"] Cons.prems(1,3)
      by (auto simp: Let_def split: prod.split)
  next
    case False
    then have "groups_from ?fr (x # rest) sub = groups_from ?fr rest (x # sub)" by simp
    moreover have "?fr y = ?fr (hd rest)" if "y \<in> set (x # sub)" for y
    proof -
      have "?fr x = ?fr (hd rest)" using False Cons.prems(3) by (cases rest) auto
      then show ?thesis using that Cons.prems(2) by auto
    qed
    ultimately show ?thesis using False dx ends Cons.IH[of "x # sub"] Cons.prems(1,3)
      by (auto simp: Let_def)
  qed
qed simp

lemma distinct_remdups_adj: "sorted xs \<Longrightarrow> distinct (remdups_adj xs)" for xs :: "int list"
  by (induction xs rule: remdups_adj.induct) auto

lemma groups_from_frames:
  assumes "sorted (map fr xs)" "\<And>x. x \<in> set sub \<Longrightarrow> xs \<noteq> [] \<Longrightarrow> fr x = fr (hd xs)" "xs \<noteq> []"
  shows "groups_from fr xs sub = (rev (filter (\<lambda>x. fr x = fr (hd xs)) xs) @ sub) #
    map (\<lambda>F. rev (filter (\<lambda>x. fr x = F) xs)) (tl (remdups_adj (map fr xs)))"
  using assms
proof (induction xs arbitrary: sub)
  case (Cons x rest)
  show ?case
  proof (cases "rest = [] \<or> fr x < fr (hd rest)")
    case True
    then have later: "fr x < fr y" if "y \<in> set rest" for y
      using that Cons.prems(1) by (cases rest) auto
    then have none: "filter (\<lambda>y. fr y = fr x) rest = []" unfolding filter_empty_conv by (metis less_irrefl)
    show ?thesis
    proof (cases rest)
      case (Cons y ys)
      have ne: "fr x \<noteq> fr y" using later[of y] Cons by simp
      have "filter (\<lambda>z. fr z = F) (x # rest) = filter (\<lambda>z. fr z = F) rest" if "F \<in> set (map fr rest)" for F
        using that later by fastforce
      then have "map (\<lambda>F. rev (filter (\<lambda>z. fr z = F) (x # rest))) (remdups_adj (map fr rest)) =
          map (\<lambda>F. rev (filter (\<lambda>z. fr z = F) rest)) (remdups_adj (map fr rest))"
        by (intro map_cong refl) (metis (no_types, lifting) remdups_adj_set)
      moreover have "remdups_adj (map fr rest) = fr y # tl (remdups_adj (map fr rest))"
        using Cons by (cases ys) (auto simp: remdups_adj_Cons split: list.split)
      ultimately show ?thesis using True Cons.IH[of "[]"] Cons.prems(1) none ne Cons
        by (simp add: remdups_adj_Cons split: list.split)
    qed simp
  next
    case False
    then have same: "fr x = fr (hd rest)" "rest \<noteq> []" using Cons.prems(1) by (cases rest; auto)+
    have "fr y = fr (hd rest)" if "y \<in> set (x # sub)" for y using that same Cons.prems(2) by auto
    then have "groups_from fr (x # rest) sub = (rev (filter (\<lambda>y. fr y = fr (hd rest)) rest) @ x # sub) #
        map (\<lambda>F. rev (filter (\<lambda>y. fr y = F) rest)) (tl (remdups_adj (map fr rest)))"
      using False Cons.IH[of "x # sub"] Cons.prems(1) same(2) by simp
    moreover have "remdups_adj (map fr (x # rest)) = remdups_adj (map fr rest)"
      using same by (cases rest) auto
    moreover have "filter (\<lambda>y. fr y = F) (x # rest) = filter (\<lambda>y. fr y = F) rest" if "F \<in> set (tl (remdups_adj (map fr rest)))" for F
    proof -
      have "F \<noteq> fr (hd rest)"
      proof
        assume F: "F = fr (hd rest)"
        have "distinct (remdups_adj (map fr rest))" using Cons.prems(1) by (simp add: distinct_remdups_adj)
        then show False using that F same(2) by (cases rest) (auto simp: remdups_adj_Cons split: list.splits if_splits)
      qed
      then show ?thesis using same by simp
    qed
    ultimately show ?thesis using same by (simp cong: map_cong)
  qed
qed simp

text \<open>The rows of a table are read newest first.\<close>

definition newest_rows_first :: "('a \<Rightarrow> int option) \<Rightarrow> 'a list \<Rightarrow> bool" where
  "newest_rows_first date data \<longleftrightarrow> list_all (\<lambda>x. date x \<noteq> None) data \<and> sorted (rev (map (\<lambda>x. the (date x)) data))"

lemma frames_sorted:
  assumes "calendar_ok cal tf" "newest_rows_first date data"
  shows "sorted (map (frame_start cal tf date) (rev data))"
proof -
  have "sorted (map (\<lambda>x. the (date x)) (rev data))" using assms(2) by (simp add: newest_rows_first_def rev_map)
  then have "sorted (map (calStart cal tf) (map (\<lambda>x. the (date x)) (rev data)))"
    using assms(1) unfolding calendar_ok_def by (auto simp: sorted_map intro: sorted_wrt_mono_rel[rotated])
  then show ?thesis by (simp add: frame_start_def[abs_def] o_def)
qed

text \<open>The groups, from the oldest frame to the newest; the items of each are newest first.\<close>

lemma group_loop_frames:
  assumes "calendar_ok cal tf" "newest_rows_first date data"
  defines "fr \<equiv> frame_start cal tf date"
  shows "group_loop cal (Frame tf) date calc (rev data) [] s res =
    run_groups (\<lambda>g. Some (fr (last g))) calc
      (map (\<lambda>F. filter (\<lambda>x. fr x = F) data) (rev (remdups_adj (map fr data)))) (s, res)"
proof (cases "data = []")
  case False
  have sorted: "sorted (map fr (rev data))" unfolding fr_def by (rule frames_sorted[OF assms(1,2)])
  have "group_loop cal (Frame tf) date calc (rev data) [] s res =
      run_groups (\<lambda>g. Some (fr (last g))) calc (groups_from fr (rev data) []) (s, res)"
    unfolding fr_def
    by (rule group_loop_groups) (use assms(2) sorted in \<open>auto simp: newest_rows_first_def list_all_iff fr_def\<close>)
  also have "groups_from fr (rev data) [] = map (\<lambda>F. filter (\<lambda>x. fr x = F) data) (rev (remdups_adj (map fr data)))"
  proof -
    have "groups_from fr (rev data) [] = map (\<lambda>F. rev (filter (\<lambda>x. fr x = F) (rev data))) (remdups_adj (map fr (rev data)))"
    proof -
      obtain y ys where y: "rev data = y # ys" using False by (cases "rev data") auto
      let ?g = "\<lambda>F. rev (filter (\<lambda>x. fr x = F) (y # ys))"
      have "groups_from fr (y # ys) [] = ?g (fr y) # map ?g (tl (remdups_adj (map fr (y # ys))))"
        using groups_from_frames[OF sorted, of "[]"] unfolding y by simp
      also have "\<dots> = map ?g (fr y # tl (remdups_adj (map fr (y # ys))))" by (simp only: list.map)
      also have "fr y # tl (remdups_adj (map fr (y # ys))) = remdups_adj (map fr (y # ys))"
        unfolding list.map by (rule remdups_adj_Cons_alt)
      finally show ?thesis unfolding y .
    qed
    then show ?thesis by (simp add: rev_map[symmetric] rev_filter)
  qed
  finally show ?thesis .
qed simp

lemma no_edges [simp]: "setMtsToStartingAndEndingFrames cal data None None tf = data"
  by (auto simp: setMtsToStartingAndEndingFrames_def Let_def split: list.split)

lemma run_groups_pure:
  "run_groups mts (\<lambda>s xs. (s, f xs)) gs (s, res) =
    (s, rev (List.map_filter (\<lambda>g. case mts g of None \<Rightarrow> None | Some m \<Rightarrow> if f g = [] then None else Some (m, f g)) gs) @ res)"
  by (induction gs arbitrary: res) (auto simp: addFragment_def map_filter_simps split: option.split)

text \<open>
  C30: rows that are grouped by frames, newest first: one group for each frame in which a row lies, the newest
  frame first, calculated from all the rows of the frame; a group without values is left out.
\<close>

theorem groupByTimeframe_frames:
  assumes "calendar_ok cal tf" "newest_rows_first date data"
  defines "fr \<equiv> frame_start cal tf date"
  shows "groupByTimeframe cal (Frame tf) None None date (\<lambda>s xs. (s, f xs)) s data =
    filter (\<lambda>(m, vs). vs \<noteq> []) (map (\<lambda>F. (F, f (filter (\<lambda>x. fr x = F) data))) (remdups_adj (map fr data)))"
proof (cases "data = []")
  case False
  define gs where "gs = remdups_adj (map fr data)"
  have last_fr: "fr (last (filter (\<lambda>x. fr x = F) data)) = F" if "F \<in> set gs" for F
  proof -
    have "filter (\<lambda>x. fr x = F) data \<noteq> []" using that by (auto simp: gs_def filter_empty_conv)
    from last_in_set[OF this] show ?thesis by simp
  qed
  have mf: "List.map_filter (\<lambda>g. case Some (fr (last g)) of None \<Rightarrow> None | Some m \<Rightarrow> if f g = [] then None else Some (m, f g))
      (map (\<lambda>F. filter (\<lambda>x. fr x = F) data) Fs) =
      filter (\<lambda>(m, vs). vs \<noteq> []) (map (\<lambda>F. (F, f (filter (\<lambda>x. fr x = F) data))) Fs)" if "set Fs \<subseteq> set gs" for Fs
    using that by (induction Fs) (auto simp: map_filter_simps last_fr)
  have "snd (group_loop cal (Frame tf) date (\<lambda>s xs. (s, f xs)) (rev data) [] s []) =
      rev (filter (\<lambda>(m, vs). vs \<noteq> []) (map (\<lambda>F. (F, f (filter (\<lambda>x. fr x = F) data))) (rev gs)))"
    unfolding group_loop_frames[OF assms(1,2), folded fr_def gs_def] run_groups_pure using mf[of "rev gs"] by simp
  then show ?thesis using False
    by (simp add: groupByTimeframe_def rev_map rev_filter gs_def)
qed (simp add: groupByTimeframe_def)

subsection \<open>Frames of a range\<close>

lemma frames_up_all:
  assumes ok: "calendar_ok cal tf" and cur: "calStart cal tf cur = cur" and fuel: "nat (e - cur + 1) \<le> fuel"
    and res: "sorted_wrt (>) res" "\<And>m. m \<in> set res \<Longrightarrow> m < cur"
  shows "sorted_wrt (>) (frames_up cal tf e fuel cur res) \<and>
    set (frames_up cal tf e fuel cur res) = set res \<union> {m. cur \<le> m \<and> m \<le> e \<and> calStart cal tf m = m}"
  using cur fuel res
proof (induction fuel arbitrary: cur res)
  case 0
  then show ?case by auto
next
  case (Suc fuel)
  show ?case
  proof (cases "e < cur")
    case True
    then show ?thesis using Suc.prems(3) by auto
  next
    case False
    let ?n = "calNext cal tf cur"
    have n: "cur < ?n" "calStart cal tf ?n = ?n" "\<And>u. cur < u \<Longrightarrow> calStart cal tf u = u \<Longrightarrow> ?n \<le> u"
      using ok Suc.prems(1) unfolding calendar_ok_def by blast+
    have "sorted_wrt (>) (cur # res)" "\<And>m. m \<in> set (cur # res) \<Longrightarrow> m < ?n" "nat (e - ?n + 1) \<le> fuel"
      using Suc.prems n(1) by (auto intro: less_trans)
    note IH = Suc.IH[OF n(2) this(3) this(1) this(2)]
    have "{m. cur \<le> m \<and> m \<le> e \<and> calStart cal tf m = m} = insert cur {m. ?n \<le> m \<and> m \<le> e \<and> calStart cal tf m = m}"
      using False Suc.prems(1) n by (auto simp: order_le_less)
    then show ?thesis using IH False by auto
  qed
qed

text \<open>
  The frames of a range are all frames from the one of its start to the one of its end, the newest first,
  and the loop that collects them ends.
\<close>

theorem getMtsGroupedByTimeframe_all:
  assumes "calendar_ok cal tf"
  shows "sorted_wrt (>) (map fst (getMtsGroupedByTimeframe cal start e tf False)) \<and>
    set (map fst (getMtsGroupedByTimeframe cal start e tf False)) =
      {m. calStart cal tf start \<le> m \<and> m \<le> calStart cal tf e \<and> calStart cal tf m = m}"
proof -
  have "calStart cal tf (calStart cal tf start) = calStart cal tf start" using assms by (simp add: calendar_ok_def)
  from frames_up_all[OF assms this, of "calStart cal tf e" "nat (calStart cal tf e - calStart cal tf start) + 1" "[]"]
  show ?thesis by (simp add: getMtsGroupedByTimeframe_def Let_def o_def)
qed

subsection \<open>A calendar of days and weeks\<close>

lemma multiples_ok:
  fixes c d :: int
  assumes "0 < d"
  defines "st \<equiv> \<lambda>t. (t - c) div d * d + c"
  shows "st t \<le> t" "st (st t) = st t" "t \<le> u \<Longrightarrow> st t \<le> st u" "st t = t \<Longrightarrow> st (t + d) = t + d"
    "st t = t \<Longrightarrow> t < u \<Longrightarrow> st u = u \<Longrightarrow> t + d \<le> u"
proof -
  have m: "(t - c) div d * d \<le> t - c" for t using assms(1) by (simp add: minus_mod_eq_div_mult[symmetric])
  show "st t \<le> t" using m[of t] by (simp add: st_def)
  show "st (st t) = st t" using assms(1) by (simp add: st_def)
  show "st t \<le> st u" if "t \<le> u" using that assms(1) by (simp add: st_def zdiv_mono1 mult_right_mono)
  have div: "\<exists>k. t = k * d + c" if "st t = t" for t using that by (metis st_def)
  show "st (t + d) = t + d" if "st t = t"
  proof -
    have "(t + d - c) div d = (t - c) div d + 1" using assms(1) div_add_self2[of d "t - c"] by (simp add: algebra_simps)
    then show ?thesis using that by (simp add: st_def algebra_simps)
  qed
  show "t + d \<le> u" if tu: "st t = t" "t < u" "st u = u"
  proof -
    obtain j k where jk: "t = j * d + c" "u = k * d + c" using div tu(1,3) by blast
    then have "j < k" using tu(2) assms(1) by simp
    then have "(j + 1) * d \<le> k * d" using assms(1) by (intro mult_right_mono) auto
    then show ?thesis by (simp add: jk algebra_simps)
  qed
qed

lemma multiples_calendar:
  assumes "0 < d" "calStart cal tf = (\<lambda>t. (t - c) div d * d + c)" "calNext cal tf = (\<lambda>t. t + d)"
  shows "calendar_ok cal tf"
  using multiples_ok[OF assms(1), where c = c] assms(1) unfolding calendar_ok_def assms(2,3) by (simp only: less_add_same_cancel1) blast

lemma plain_calendar_ok: "calendar_ok plain_calendar tf"
proof (cases "tf = Week")
  case True
  then show ?thesis by (intro multiples_calendar[of "7 * day_ms" _ _ "4 * day_ms"]) (simp_all add: plain_calendar_def day_ms_def)
next
  case False
  then show ?thesis by (intro multiples_calendar[of day_ms _ _ 0]; cases tf) (simp_all add: plain_calendar_def day_ms_def)
qed

lemma groupByTimeframe_frames_witness:
  "groupByTimeframe plain_calendar (Frame Day) None None Some (\<lambda>s xs. (s, [(''n'', length xs)])) () [90000000, 20, 10] =
    [(86400000, [(''n'', 1)]), (0, [(''n'', 2)])]"
  using groupByTimeframe_frames[OF plain_calendar_ok, of Some "[90000000, 20, 10]" Day "\<lambda>xs. [(''n'', length xs)]" "()"]
  by (simp add: newest_rows_first_def frame_start_def plain_calendar_def day_ms_def)

lemma getMtsGroupedByTimeframe_all_witness:
  "map fst (getMtsGroupedByTimeframe plain_calendar 5 86400005 Day False) = [86400000, 0] \<and>
   sorted_wrt (>) (map fst (getMtsGroupedByTimeframe plain_calendar 5 86400005 Day False))"
proof -
  let ?fs = "map fst (getMtsGroupedByTimeframe plain_calendar 5 86400005 Day False)"
  have "sorted_wrt (>) ?fs" "set ?fs = {m. calStart plain_calendar Day 5 \<le> m \<and> m \<le> calStart plain_calendar Day 86400005 \<and> calStart plain_calendar Day m = m}"
    using getMtsGroupedByTimeframe_all[OF plain_calendar_ok] by blast+
  moreover have "{m. calStart plain_calendar Day 5 \<le> m \<and> m \<le> calStart plain_calendar Day 86400005 \<and> calStart plain_calendar Day m = m} = {0, 86400000}"
  proof -
    have "x = 0 \<or> x = 86400000" if "0 \<le> x" "x \<le> 86400000" "x div 86400000 * 86400000 = x" for x :: int
    proof -
      have "0 \<le> x div 86400000" using that(1) by (simp add: pos_imp_zdiv_nonneg_iff)
      moreover have "x div 86400000 \<le> 86400000 div 86400000" using that(2) by (rule zdiv_mono1) simp
      ultimately have "x div 86400000 = 0 \<or> x div 86400000 = 1" by auto
      then show ?thesis using that(3) by auto
    qed
    then show ?thesis by (auto simp: plain_calendar_def day_ms_def)
  qed
  ultimately have s: "sorted_wrt (>) ?fs" "set ?fs = set [86400000, 0]" by auto
  have "rev ?fs = [0, 86400000]"
    by (rule strict_sorted_equal) (use s in \<open>simp_all add: sorted_wrt_rev insert_commute\<close>)
  then have "?fs = [86400000, 0]" by (simp add: rev_swap)
  then show ?thesis using s by simp
qed

end
