(* ===== verification/Report_Balance.thy ===== *)
theory Report_Balance
  imports Report_Frames Ccy_Convert
begin

text \<open>
  \<^verbatim>\<open>sync/wallets/index.js\<close> and \<^verbatim>\<open>sync/balance.history/index.js\<close>: the balances of the wallets at a time and
  over time, in dollars. Rows that the database layer returns are arguments.
\<close>

subsection \<open>Wallets\<close>

definition wallets_conv_schema :: "int \<Rightarrow> conv_schema" where
  "wallets_conv_schema e = \<lparr>csConvertTo = ''USD'', csSymbolField = ''currency'', csDateField = [], csMts = Some e,
     csTemps = False, csConvFields = [(''balance'', [''balanceUsd''])], csSynonyms = []\<rparr>"

definition is_wallet :: "obj \<Rightarrow> bool" where
  "is_wallet w \<longleftrightarrow> (case get w ''type'' of VStr s \<Rightarrow> s \<noteq> [] | _ \<Rightarrow> False) \<and>
     (case get w ''balance'' of VNum x \<Rightarrow> x \<noteq> 0 | _ \<Rightarrow> False) \<and>
     (case get w ''currency'' of VStr s \<Rightarrow> 3 \<le> length s | _ \<Rightarrow> False)"

definition wallets_from_ledgers :: "obj list \<Rightarrow> obj list" where
  "wallets_from_ledgers rows = map (\<lambda>w. merge_obj
       [(''balanceUsd'', if get w ''currency'' = VStr ''USD'' then get w ''balance'' else VNull)] w) (filter is_wallet rows)"

definition getWallets :: "ccy_env \<Rightarrow> int \<Rightarrow> obj list \<Rightarrow> synonyms_state \<Rightarrow> (conv_error + jsval) \<times> synonyms_state" where
  "getWallets env e rows sy =
     convertBy env Candles_Coll (VArr (map VObj (wallets_from_ledgers rows))) (wallets_conv_schema e) sy"

definition getWalletsConvertedByPublicTrades ::
  "ccy_env \<Rightarrow> int \<Rightarrow> obj list \<Rightarrow> synonyms_state \<Rightarrow> (conv_error + jsval) \<times> synonyms_state" where
  "getWalletsConvertedByPublicTrades env e rows sy =
     convert env True (VArr (map VObj (wallets_from_ledgers rows))) (wallets_conv_schema e) sy"

definition getFirstWalletsMts :: "obj option \<Rightarrow> int" where
  "getFirstWalletsMts firstLedger = nullish (Option.bind firstLedger (\<lambda>l. int_val (get l ''mts''))) 0"

subsection \<open>Sums by currency\<close>

definition num_of :: "jsval \<Rightarrow> rat option" where
  "num_of v = (case v of VNum x \<Rightarrow> Some x | _ \<Rightarrow> None)"

definition add_to :: "string \<Rightarrow> rat \<Rightarrow> (string, rat) jsmap \<Rightarrow> (string, rat) jsmap" where
  "add_to k x m = AList.update k (case map_of m k of Some y \<Rightarrow> y + x | None \<Rightarrow> x) m"

definition groupWalletsByCurrency :: "obj list \<Rightarrow> (string, rat) jsmap" where
  "groupWalletsByCurrency wallets = foldl (\<lambda>accum w. case num_of (get w ''balance'') of
       None \<Rightarrow> accum | Some b \<Rightarrow> add_to (text_val (get w ''currency'')) b accum) [] wallets"

definition same_wallet :: "obj \<Rightarrow> obj \<Rightarrow> bool" where
  "same_wallet v w \<longleftrightarrow> get v ''type'' = get w ''type'' \<and> get v ''currency'' = get w ''currency''"

text \<open>The wallets of a frame: its own, and of those before the ones it does not have.\<close>

definition next_wallets :: "obj list \<Rightarrow> obj list \<Rightarrow> obj list" where
  "next_wallets wallets data = data @ filter (\<lambda>w. list_all (\<lambda>d. \<not> same_wallet w d) data) wallets"

definition calcWalletsInTimeframe :: "obj list \<Rightarrow> obj list \<Rightarrow> obj list \<times> (string, rat) jsmap" where
  "calcWalletsInTimeframe wallets data =
     (let ws = next_wallets wallets data in (ws, groupWalletsByCurrency ws))"

subsection \<open>Wallets by frames\<close>

definition wallet_of_row :: "obj \<Rightarrow> obj option" where
  "wallet_of_row r =
     (if (case get r ''wallet'' of VStr s \<Rightarrow> s \<noteq> [] | _ \<Rightarrow> False) \<and> num_of (get r ''balance'') \<noteq> None \<and>
        (case get r ''currency'' of VStr s \<Rightarrow> 3 \<le> length s | _ \<Rightarrow> False)
      then Some [(''type'', get r ''wallet''), (''currency'', get r ''currency''), (''balance'', get r ''balance''),
        (''balanceUsd'', get r ''balanceUsd''), (''timeframe'', get r ''timeframe''), (''mtsUpdate'', get r ''mts'')]
      else None)"

text \<open>
  A day in the first week of January or the last of December that belongs to a week over the turn of the
  year; the fields of the date are parameters: month from 0, day of the month, day of the week from 1.
\<close>

record date_fields =
  dfMonth :: "int \<Rightarrow> int"
  dfDate :: "int \<Rightarrow> int"
  dfWeekday :: "int \<Rightarrow> int"

definition over_new_year :: "date_fields \<Rightarrow> int \<Rightarrow> bool" where
  "over_new_year df t \<longleftrightarrow> dfMonth df t = 0 \<and> dfDate df t < 7 \<and> dfWeekday df t - dfDate df t > 0 \<or>
     dfMonth df t = 11 \<and> dfDate df t > 25 \<and> dfDate df t + 7 - dfWeekday df t > 31"

fun reGroup :: "date_fields \<Rightarrow> (obj \<Rightarrow> int) \<Rightarrow> obj list \<Rightarrow> obj list \<Rightarrow> obj list \<Rightarrow> obj list" where
  "reGroup df mts unicGroup accum [] = accum"
| "reGroup df mts unicGroup accum (item # rest) =
     (if over_new_year df (mts item) then
        (if list_ex (\<lambda>w. get w ''currency'' = get item ''currency'' \<and> get w ''wallet'' = get item ''wallet'') unicGroup
         then reGroup df mts unicGroup accum rest
         else let u = unicGroup @ [item] in
           if rest = [] then accum @ u else reGroup df mts u accum rest)
      else reGroup df mts [] (accum @ unicGroup @ [item]) rest)"

definition mts_update :: "obj \<Rightarrow> int" where
  "mts_update w = nullish (int_val (get w ''mtsUpdate'')) 0"

definition reGroupWeeklyDataGroups :: "date_fields \<Rightarrow> obj list \<Rightarrow> obj list" where
  "reGroupWeeklyDataGroups df data = reGroup df mts_update [] [] data"

definition wallets_in_frames :: "date_fields \<Rightarrow> frame_arg \<Rightarrow> obj list \<Rightarrow> obj list" where
  "wallets_in_frames df arg rows =
     (let res = List.map_filter wallet_of_row rows in if arg = Frame Week then reGroupWeeklyDataGroups df res else res)"

subsection \<open>In dollars\<close>

definition getCandlesClosePrice ::
  "ccy_env \<Rightarrow> calendar \<Rightarrow> candle list \<Rightarrow> int \<Rightarrow> frame_arg \<Rightarrow> string \<Rightarrow> synonyms \<Rightarrow> rat option" where
  "getCandlesClosePrice env cal candles mts arg symb syn =
     (let m = (case arg of Frame tf \<Rightarrow> calNext cal tf mts | _ \<Rightarrow> mts) - 1 in
      syncPriceFinder env (\<lambda>s. getCandlesPriceFromData env candles s m)
        (''t'' @ symb @ colon_if (3 < length symb) @ ''USD'') syn)"

definition convertForexToUsd :: "(string \<Rightarrow> rat option) \<Rightarrow> (string, rat) jsmap \<Rightarrow> rat" where
  "convertForexToUsd price ob = foldl (\<lambda>accum (symb, balance).
     if symb = ''USD'' then accum + balance
     else case price symb of None \<Rightarrow> accum | Some p \<Rightarrow> accum + balance * p) 0 ob"

definition to_usd_and_forex :: "string list \<Rightarrow> (string \<Rightarrow> rat option) \<Rightarrow> (string, rat) jsmap \<Rightarrow> (string, rat) jsmap" where
  "to_usd_and_forex forex price wallets = foldl (\<lambda>accum (currency, balance).
     if currency \<in> set forex then add_to currency balance accum
     else case price currency of None \<Rightarrow> accum | Some p \<Rightarrow> add_to ''USD'' (balance * p) accum) [] wallets"

definition finite_vals :: "vals \<Rightarrow> (string, rat) jsmap" where
  "finite_vals vs = List.map_filter (\<lambda>(k, v). map_option (\<lambda>x. (k, x)) v) vs"

definition part :: "string \<Rightarrow> merged \<Rightarrow> vals" where
  "part key item = nullish (map_of (mParts item) key) []"

definition usd_of :: "vals \<Rightarrow> rat" where
  "usd_of vs = nullish (Option.bind (map_of vs ''USD'') id) 0"

text \<open>A frame without its own wallets has those of the frame before; a missing time is the time of the call.\<close>

definition getWalletsByTimeframe ::
  "ccy_env \<Rightarrow> calendar \<Rightarrow> candle list \<Rightarrow> frame_arg \<Rightarrow> synonyms \<Rightarrow> (string, rat) jsmap \<Rightarrow> merged
    \<Rightarrow> (string, rat) jsmap \<times> (string, rat) jsmap" where
  "getWalletsByTimeframe env cal candles arg syn prevRes item =
     (let ws = finite_vals (part ''walletsGroupedByTimeframe'' item);
          isReturnedPrevRes = (ws = [] \<and> prevRes \<noteq> []);
          mts = (case Option.bind (map_of (part ''mtsGroupedByTimeframe'' item) ''mts'') id of Some x \<Rightarrow> \<lfloor>x\<rfloor> | None \<Rightarrow> ccNow env);
          price = (\<lambda>symb. getCandlesClosePrice env cal candles mts arg symb syn);
          res = to_usd_and_forex (ccForex env) price (if isReturnedPrevRes then prevRes else ws);
          usdPL = usd_of (part ''plGroupedByTimeframe'' item)
      in (if isReturnedPrevRes then prevRes else ws, [(''USD'', convertForexToUsd price res + usdPL)]))"

text \<open>One frame for the whole range: what the wallets are worth at its end.\<close>

definition add_wallet_val :: "string list \<Rightarrow> (string, rat) jsmap \<Rightarrow> obj \<Rightarrow> (string, rat) jsmap" where
  "add_wallet_val forex accum w =
     (let currency = text_val (get w ''currency''); usd = num_of (get w ''balanceUsd'');
          isNotUsed = (currency \<in> set forex \<and> usd = None)
      in case (if isNotUsed then num_of (get w ''balance'') else usd) of
           None \<Rightarrow> accum
         | Some b \<Rightarrow> add_to (if isNotUsed then currency else ''USD'') b accum)"

definition getWalletsGroupedByOneTimeframe :: "string list \<Rightarrow> int \<Rightarrow> obj list \<Rightarrow> (int \<times> (string, rat) jsmap) list" where
  "getWalletsGroupedByOneTimeframe forex e lastWallets =
     [(e, foldl (add_wallet_val forex) (map (\<lambda>s. (s, 0)) forex) lastWallets)]"

subsection \<open>The history\<close>

definition point_of :: "int \<times> (string, rat) jsmap \<Rightarrow> point" where
  "point_of p = \<lparr>ptMts = Some (fst p), ptVals = map (\<lambda>(k, v). (k, Some v)) (snd p)\<rparr>"

record history_data =
  hdFirstWallets :: "obj list"
  hdWalletRows :: "obj list"
  hdLastWallets :: "obj list"
  hdPL :: "point list"

definition getBalanceHistory ::
  "ccy_env \<Rightarrow> calendar \<Rightarrow> date_fields \<Rightarrow> frame_arg \<Rightarrow> int \<Rightarrow> int \<Rightarrow> bool \<Rightarrow> synonyms \<Rightarrow> history_data
    \<Rightarrow> (int \<times> (string, rat) jsmap) list" where
  "getBalanceHistory env cal df arg start e isUnrealizedProfitExcluded syn d = (case arg of
       Whole x \<Rightarrow> getWalletsGroupedByOneTimeframe (ccForex env) e (hdLastWallets d)
     | _ \<Rightarrow>
         let wallets = groupByTimeframe cal arg (Some start) (Some e) (\<lambda>w. int_val (get w ''mtsUpdate''))
               calcWalletsInTimeframe (hdFirstWallets d) (wallets_in_frames df arg (hdWalletRows d));
             frames = getMtsGroupedByTimeframe cal start e (nullish (frame_of arg) Year) True;
             candles = getCandles env start e
         in calcGroupedData (getWalletsByTimeframe env cal candles arg syn) (groupWalletsByCurrency (hdFirstWallets d)) True
              [(''walletsGroupedByTimeframe'', map point_of wallets),
               (''mtsGroupedByTimeframe'', map (\<lambda>(m, v). point_of (m, [(''mts'', of_int v)])) frames),
               (''plGroupedByTimeframe'', if isUnrealizedProfitExcluded then [] else hdPL d)])"

end
