(* ===== verification/Report_Balance_Props.thy ===== *)
theory Report_Balance_Props
  imports Report_Balance Report_Frames_Props
begin

text \<open>
  The balances of a frame are those of the newest rows up to it, wallet by wallet; a frame of the history
  is worth what those balances are worth at its end.
\<close>

subsection \<open>Wallets are carried forward\<close>

lemma same_wallet_trans: "same_wallet a b \<Longrightarrow> same_wallet b c = same_wallet a c"
  by (auto simp: same_wallet_def)

lemma same_wallet_sym: "same_wallet a b = same_wallet b a"
  by (auto simp: same_wallet_def)

lemma find_next_wallets: "find (same_wallet k) (next_wallets ws data) = find (same_wallet k) (data @ ws)"
proof (cases "find (same_wallet k) data")
  case None
  then have no: "d \<in> set data \<Longrightarrow> \<not> same_wallet k d" for d by (auto simp: find_None_iff)
  have "find (same_wallet k) (filter (\<lambda>w. list_all (\<lambda>d. \<not> same_wallet w d) data) ws) = find (same_wallet k) ws"
  proof (induction ws)
    case (Cons w ws)
    have "list_all (\<lambda>d. \<not> same_wallet w d) data" if "same_wallet k w"
      using that no by (auto simp: list_all_iff same_wallet_def)
    then show ?case using Cons by auto
  qed simp
  then show ?thesis using None by (simp add: next_wallets_def find_append)
qed (simp add: next_wallets_def find_append)

definition one_each :: "obj list \<Rightarrow> bool" where
  "one_each ws \<longleftrightarrow> distinct (map (\<lambda>w. (get w ''type'', get w ''currency'')) ws)"

lemma one_each_next: "one_each ws \<Longrightarrow> one_each data \<Longrightarrow> one_each (next_wallets ws data)"
  unfolding one_each_def next_wallets_def map_append distinct_append
  by (auto simp: list_all_iff same_wallet_def intro: distinct_map_filter)

definition wallets_after :: "obj list \<Rightarrow> obj list list \<Rightarrow> obj list" where
  "wallets_after firstWallets gs = foldl next_wallets firstWallets gs"

lemma find_wallets_after:
  "find (same_wallet k) (wallets_after firstWallets gs) = find (same_wallet k) (concat (rev gs) @ firstWallets)"
proof (induction gs rule: rev_induct)
  case (snoc g gs)
  have "wallets_after firstWallets (gs @ [g]) = next_wallets (wallets_after firstWallets gs) g" by (simp add: wallets_after_def)
  then show ?case by (simp add: find_next_wallets find_append snoc split: option.split)
qed (simp add: wallets_after_def)

lemma one_each_after: "one_each firstWallets \<Longrightarrow> (\<And>g. g \<in> set gs \<Longrightarrow> one_each g) \<Longrightarrow> one_each (wallets_after firstWallets gs)"
  by (induction gs rule: rev_induct) (auto simp: wallets_after_def one_each_next)

subsection \<open>Sums by currency\<close>

lemma map_of_add_to: "map_of (add_to k x m) c = (if c = k then Some (case map_of m k of Some y \<Rightarrow> y + x | None \<Rightarrow> x) else map_of m c)"
  by (simp add: add_to_def update_conv')

lemma groupWalletsByCurrency_sum:
  "nullish (map_of (groupWalletsByCurrency ws) c) 0 =
    sum_list (map (\<lambda>w. nullish (num_of (get w ''balance'')) 0) (filter (\<lambda>w. text_val (get w ''currency'') = c) ws))"
proof -
  have "nullish (map_of (foldl (\<lambda>accum w. case num_of (get w ''balance'') of None \<Rightarrow> accum
       | Some b \<Rightarrow> add_to (text_val (get w ''currency'')) b accum) m ws) c) 0 =
      nullish (map_of m c) 0 + sum_list (map (\<lambda>w. nullish (num_of (get w ''balance'')) 0) (filter (\<lambda>w. text_val (get w ''currency'') = c) ws))"
    for m
    by (induction ws arbitrary: m) (auto simp: map_of_add_to nullish_def split: option.split)
  from this[of "[]"] show ?thesis by (simp add: groupWalletsByCurrency_def nullish_def)
qed

subsection \<open>The groups\<close>

text \<open>The groups of a run of the loop are those of its frames, with the wallets before them.\<close>

lemma run_groups_wallets:
  "run_groups (\<lambda>g. Some (fr (last g))) calcWalletsInTimeframe gs (wallets_after firstWallets hs, res) =
    (wallets_after firstWallets (hs @ gs), rev (List.map_filter (\<lambda>i.
       let vs = groupWalletsByCurrency (wallets_after firstWallets (hs @ take (Suc i) gs))
       in if vs = [] then None else Some (fr (last (gs ! i)), vs)) [0..<length gs]) @ res)"
proof (induction gs arbitrary: hs res)
  case (Cons g gs)
  have w: "next_wallets (wallets_after firstWallets hs) g = wallets_after firstWallets (hs @ [g])" by (simp add: wallets_after_def)
  have up: "[0..<length (g # gs)] = 0 # map Suc [0..<length gs]" by (simp add: upt_conv_Cons map_Suc_upt del: upt_Suc)
  show ?case unfolding up using Cons.IH[of "hs @ [g]"]
    by (simp add: calcWalletsInTimeframe_def Let_def w addFragment_def map_filter_simps List.map_filter_def o_def filter_map)
qed (simp add: map_filter_simps)

text \<open>In rows that are sorted by frames the groups of some frames lie one behind the other.\<close>

lemma filter_before:
  assumes "sorted (rev (map fr data))" "\<And>D'. D' \<in> set Ds \<Longrightarrow> D' < D"
  shows "filter (\<lambda>x. fr x = D \<or> fr x \<in> set Ds) data = filter (\<lambda>x. fr x = D) data @ filter (\<lambda>x. fr x \<in> set Ds) data"
  using assms(1)
proof (induction data)
  case (Cons x rest)
  have le: "y \<in> set rest \<Longrightarrow> fr y \<le> fr x" for y using Cons.prems by (auto simp: sorted_append)
  have IH: "filter (\<lambda>x. fr x = D \<or> fr x \<in> set Ds) rest = filter (\<lambda>x. fr x = D) rest @ filter (\<lambda>x. fr x \<in> set Ds) rest"
    using Cons.IH Cons.prems by (simp add: sorted_append)
  show ?case
  proof (cases "fr x \<in> set Ds")
    case True
    then have "fr x < D" by (rule assms(2))
    then have "filter (\<lambda>y. fr y = D) rest = []" using le by (auto simp: filter_empty_conv dest!: le)
    then show ?thesis using IH True \<open>fr x < D\<close> by simp
  qed (use IH in auto)
qed simp

lemma concat_groups:
  fixes fr :: "'a \<Rightarrow> int"
  assumes "sorted (rev (map fr data))" "sorted_wrt (>) Ds"
  shows "concat (map (\<lambda>D. filter (\<lambda>x. fr x = D) data) Ds) = filter (\<lambda>x. fr x \<in> set Ds) data"
  using assms(2) by (induction Ds) (simp_all add: filter_before[OF assms(1)])

text \<open>
  A frame of the grouped wallets: its sum for a currency runs over wallets that are, wallet by wallet, the
  newest row up to the frame, or the wallet from before all rows when it has none.
\<close>

theorem wallets_in_frame:
  assumes "calendar_ok cal tf" "newest_rows_first date data"
    and "(F, vs) \<in> set (groupByTimeframe cal (Frame tf) None None date calcWalletsInTimeframe firstWallets data)"
  defines "fr \<equiv> frame_start cal tf date"
  shows "\<exists>ws. vs = groupWalletsByCurrency ws \<and>
    (\<forall>c. nullish (map_of vs c) 0 = sum_list (map (\<lambda>w. nullish (num_of (get w ''balance'')) 0)
       (filter (\<lambda>w. text_val (get w ''currency'') = c) ws))) \<and>
    (\<forall>k. find (same_wallet k) ws = find (same_wallet k) (filter (\<lambda>x. fr x \<le> F) data @ firstWallets))"
proof -
  define Fs where "Fs = rev (remdups_adj (map fr data))"
  define grp where "grp = (\<lambda>F. filter (\<lambda>x. fr x = F) data)"
  have asc: "sorted_wrt (<) Fs"
  proof -
    have "sorted (map fr (rev data))" unfolding fr_def by (rule frames_sorted[OF assms(1,2)])
    then have "sorted (remdups_adj (map fr (rev data)))" "distinct (remdups_adj (map fr (rev data)))"
      by (auto simp: distinct_remdups_adj sorted_remdups_adj)
    then show ?thesis by (simp add: Fs_def rev_map[symmetric] strict_sorted_iff del: sorted_remdups_adj)
  qed
  have ne: "data \<noteq> []" using assms(3) by (auto simp: groupByTimeframe_def)
  have "snd (group_loop cal (Frame tf) date calcWalletsInTimeframe (rev data) [] firstWallets []) =
      rev (List.map_filter (\<lambda>i. let vs = groupWalletsByCurrency (wallets_after firstWallets (take (Suc i) (map grp Fs)))
        in if vs = [] then None else Some (fr (last (map grp Fs ! i)), vs)) [0..<length Fs])"
    using group_loop_frames[OF assms(1,2), of calcWalletsInTimeframe firstWallets "[]"]
      run_groups_wallets[of fr "map grp Fs" firstWallets "[]" "[]"]
    by (simp add: fr_def[symmetric] Fs_def[symmetric] grp_def[symmetric] wallets_after_def)
  then obtain i where i: "i < length Fs" "vs = groupWalletsByCurrency (wallets_after firstWallets (take (Suc i) (map grp Fs)))"
    "F = fr (last (map grp Fs ! i))"
    using assms(3) ne by (auto simp: groupByTimeframe_def List.map_filter_def Let_def split: if_splits)
  have "grp (Fs ! i) \<noteq> []"
    using nth_mem[OF i(1)] by (auto simp: Fs_def grp_def filter_empty_conv)
  then have "last (grp (Fs ! i)) \<in> set (grp (Fs ! i))" by (rule last_in_set)
  then have F: "F = Fs ! i" using i(1,3) by (simp add: grp_def)
  have "concat (rev (take (Suc i) (map grp Fs))) = filter (\<lambda>x. fr x \<le> F) data"
  proof -
    have "rev (take (Suc i) (map grp Fs)) = map grp (rev (take (Suc i) Fs))" by (simp add: rev_map take_map)
    moreover have "sorted (rev (map fr data))" using frames_sorted[OF assms(1,2)] by (simp add: fr_def rev_map)
    moreover have "sorted_wrt (>) (rev (take (Suc i) Fs))" using asc by (simp add: sorted_wrt_rev sorted_wrt_take)
    ultimately have "concat (rev (take (Suc i) (map grp Fs))) = filter (\<lambda>x. fr x \<in> set (take (Suc i) Fs)) data"
      using concat_groups[of fr data "rev (take (Suc i) Fs)"] by (simp add: grp_def)
    also have "\<dots> = filter (\<lambda>x. fr x \<le> F) data"
    proof (rule filter_cong[OF refl])
      fix x assume "x \<in> set data"
      then have "fr x \<in> set Fs" by (simp add: Fs_def)
      then obtain j where j: "j < length Fs" "Fs ! j = fr x" by (auto simp: in_set_conv_nth)
      have mono: "a < length Fs \<Longrightarrow> b < length Fs \<Longrightarrow> Fs ! a \<le> Fs ! b \<longleftrightarrow> a \<le> b" for a b
        using asc by (metis sorted_wrt_nth_less linorder_le_less_linear not_less order_le_less)
      have "fr x \<in> set (take (Suc i) Fs) \<longleftrightarrow> j < Suc i"
      proof
        assume "fr x \<in> set (take (Suc i) Fs)"
        then obtain k where "k < Suc i" "k < length Fs" "Fs ! k = fr x" by (auto simp: in_set_conv_nth)
        then show "j < Suc i" using mono[of j k] j by simp
      next
        assume "j < Suc i"
        then show "fr x \<in> set (take (Suc i) Fs)" using j by (auto simp: in_set_conv_nth intro!: exI[of _ j])
      qed
      then show "fr x \<in> set (take (Suc i) Fs) \<longleftrightarrow> fr x \<le> F" using mono[of j i] j i(1) F by auto
    qed
    finally show ?thesis .
  qed
  then show ?thesis using i(2) groupWalletsByCurrency_sum find_wallets_after
    by (intro exI[of _ "wallets_after firstWallets (take (Suc i) (map grp Fs))"]) simp
qed

definition sample_wallet :: "string \<Rightarrow> string \<Rightarrow> rat \<Rightarrow> int \<Rightarrow> obj" where
  "sample_wallet t c b m = [(''type'', VStr t), (''currency'', VStr c), (''balance'', VNum b), (''mtsUpdate'', VNum (of_int m))]"

lemmas sample_wallet_simps = sample_wallet_def get_def int_val_def num_of_def nullish_def newest_rows_first_def frame_start_def
  plain_calendar_def day_ms_def

lemma wallets_in_frame_witness:
  "\<exists>ws. groupWalletsByCurrency (wallets_after [] [[sample_wallet ''exchange'' ''USD'' 5 10]]) = groupWalletsByCurrency ws \<and>
    find (same_wallet (sample_wallet ''exchange'' ''USD'' 0 0)) ws = Some (sample_wallet ''exchange'' ''USD'' 5 10)"
proof -
  let ?date = "\<lambda>w. int_val (get w ''mtsUpdate'')" and ?d = "[sample_wallet ''exchange'' ''USD'' 5 10]"
  have n: "newest_rows_first ?date ?d" by (simp add: sample_wallet_simps)
  have g: "groupByTimeframe plain_calendar (Frame Day) None None ?date calcWalletsInTimeframe [] ?d =
      [(0, groupWalletsByCurrency (wallets_after [] [?d]))]"
    by (simp add: groupByTimeframe_def checkTimeframe_def getGroupMts_def addFragment_def calcWalletsInTimeframe_def
        next_wallets_def wallets_after_def groupWalletsByCurrency_def add_to_def sample_wallet_simps)
  have "(0, groupWalletsByCurrency (wallets_after [] [?d])) \<in>
      set (groupByTimeframe plain_calendar (Frame Day) None None ?date calcWalletsInTimeframe [] ?d)" unfolding g by simp
  from wallets_in_frame[OF plain_calendar_ok n this]
  obtain ws where ws: "groupWalletsByCurrency (wallets_after [] [?d]) = groupWalletsByCurrency ws"
    "find (same_wallet (sample_wallet ''exchange'' ''USD'' 0 0)) ws =
      find (same_wallet (sample_wallet ''exchange'' ''USD'' 0 0)) (filter (\<lambda>x. frame_start plain_calendar Day ?date x \<le> 0) ?d @ [])"
    by blast
  have "find (same_wallet (sample_wallet ''exchange'' ''USD'' 0 0)) (filter (\<lambda>x. frame_start plain_calendar Day ?date x \<le> 0) ?d @ []) =
      Some (sample_wallet ''exchange'' ''USD'' 5 10)"
    by (simp add: same_wallet_def sample_wallet_simps)
  then show ?thesis using ws by (intro exI[of _ ws] conjI) (simp_all only:)
qed

subsection \<open>The history\<close>

text \<open>The balances that count for an item: its own, or those of the newest item before it that has any.\<close>

fun held :: "(string, rat) jsmap \<Rightarrow> merged list \<Rightarrow> (string, rat) jsmap" where
  "held first [] = first"
| "held first (x # older) = (let ws = finite_vals (part ''walletsGroupedByTimeframe'' x) in if ws = [] then held first older else ws)"

definition worth ::
  "ccy_env \<Rightarrow> calendar \<Rightarrow> candle list \<Rightarrow> frame_arg \<Rightarrow> synonyms \<Rightarrow> merged \<Rightarrow> (string, rat) jsmap \<Rightarrow> rat" where
  "worth env cal candles arg syn x ws =
     (let mts = (case Option.bind (map_of (part ''mtsGroupedByTimeframe'' x) ''mts'') id of Some m \<Rightarrow> \<lfloor>m\<rfloor> | None \<Rightarrow> ccNow env);
          price = (\<lambda>symb. getCandlesClosePrice env cal candles mts arg symb syn)
      in convertForexToUsd price (to_usd_and_forex (ccForex env) price ws))"

fun history_of ::
  "ccy_env \<Rightarrow> calendar \<Rightarrow> candle list \<Rightarrow> frame_arg \<Rightarrow> synonyms \<Rightarrow> (string, rat) jsmap \<Rightarrow> merged list \<Rightarrow> (int \<times> (string, rat) jsmap) list" where
  "history_of env cal candles arg syn first [] = []"
| "history_of env cal candles arg syn first (x # older) =
     (mMts x, [(''USD'', worth env cal candles arg syn x (held first (x # older)) + usd_of (part ''plGroupedByTimeframe'' x))])
       # history_of env cal candles arg syn first older"

lemma getWalletsByTimeframe_step:
  "getWalletsByTimeframe env cal candles arg syn (held first older) x =
    (held first (x # older), [(''USD'', worth env cal candles arg syn x (held first (x # older)) + usd_of (part ''plGroupedByTimeframe'' x))])"
  by (auto simp: getWalletsByTimeframe_def worth_def Let_def)

fun state_after :: "('s \<Rightarrow> merged \<Rightarrow> 's \<times> (string, rat) jsmap) \<Rightarrow> merged list \<Rightarrow> 's \<Rightarrow> 's" where
  "state_after calc [] s = s"
| "state_after calc (x # xs) s = state_after calc xs (fst (calc s x))"

lemma reduce_items_right_append:
  "reduce_items_right calc (xs @ ys) s accum = reduce_items_right calc ys (state_after calc xs s) (reduce_items_right calc xs s accum)"
  by (induction xs arbitrary: s accum) (simp_all split: prod.split)

lemma state_after_append: "state_after calc (xs @ ys) s = state_after calc ys (state_after calc xs s)"
  by (induction xs arbitrary: s) simp_all

lemma history_state: "state_after (getWalletsByTimeframe env cal candles arg syn) (rev xs) first = held first xs"
  by (induction xs) (simp_all add: state_after_append getWalletsByTimeframe_step del: held.simps(2))

lemma history_result:
  "reduce_items_right (getWalletsByTimeframe env cal candles arg syn) (rev xs) first [] = history_of env cal candles arg syn first xs"
  by (induction xs) (simp_all add: reduce_items_right_append history_state getWalletsByTimeframe_step del: held.simps(2))

definition history_series ::
  "calendar \<Rightarrow> date_fields \<Rightarrow> timeframe \<Rightarrow> int \<Rightarrow> int \<Rightarrow> bool \<Rightarrow> history_data \<Rightarrow> series_data" where
  "history_series cal df tf start e excluded d =
     [(''walletsGroupedByTimeframe'', map point_of (groupByTimeframe cal (Frame tf) (Some start) (Some e)
         (\<lambda>w. int_val (get w ''mtsUpdate'')) calcWalletsInTimeframe (hdFirstWallets d) (wallets_in_frames df (Frame tf) (hdWalletRows d)))),
      (''mtsGroupedByTimeframe'', map (\<lambda>(m, v). point_of (m, [(''mts'', of_int v)])) (getMtsGroupedByTimeframe cal start e tf True)),
      (''plGroupedByTimeframe'', if excluded then [] else hdPL d)]"


subsection \<open>Weeks over the turn of the year\<close>

text \<open>
  The rows have a \<^verbatim>\<open>type\<close>, not a \<^verbatim>\<open>wallet\<close>, so in a week over the turn of the year only one wallet of each
  currency is kept; and when the oldest row is such a one, the whole week is lost.
\<close>

definition new_year :: date_fields where
  "new_year = \<lparr>dfMonth = (\<lambda>_. 0), dfDate = (\<lambda>_. 1), dfWeekday = (\<lambda>_. 5)\<rparr>"

lemma weekly_regroup_drops_wallet:
  "reGroupWeeklyDataGroups new_year [sample_wallet ''exchange'' ''BTC'' 1 9, sample_wallet ''margin'' ''BTC'' 2 8, sample_wallet ''margin'' ''ETH'' 3 7] =
    [sample_wallet ''exchange'' ''BTC'' 1 9, sample_wallet ''margin'' ''ETH'' 3 7]"
  by (simp add: reGroupWeeklyDataGroups_def over_new_year_def new_year_def sample_wallet_def get_def nullish_def)

lemma weekly_regroup_loses_week:
  "reGroupWeeklyDataGroups new_year [sample_wallet ''exchange'' ''BTC'' 1 9, sample_wallet ''exchange'' ''BTC'' 1 8] = []"
  by (simp add: reGroupWeeklyDataGroups_def over_new_year_def new_year_def sample_wallet_def get_def nullish_def)

end
