(* ===== verification/Report_WinLoss.thy ===== *)
theory Report_WinLoss
  imports Report_Balance_Props
begin

text \<open>
  \<^verbatim>\<open>sync/win.loss/index.js\<close> and \<^verbatim>\<open>sync/win.loss.vs.account.balance/index.js\<close>: gains and losses over time, in
  dollars and in per cent of the balance. Rows of movements and wallets are arguments. The closures
  that the code hands to the reduction keep a state; \<open>None\<close> is the state before the first, the oldest, item.
\<close>

subsection \<open>Gains and losses\<close>

definition sumMovementsWithPrevRes :: "rat \<Rightarrow> vals \<Rightarrow> vals \<Rightarrow> rat" where
  "sumMovementsWithPrevRes prevMovement withdrawals deposits = prevMovement + usd_of withdrawals + usd_of deposits"

definition new_movements :: "merged \<Rightarrow> rat" where
  "new_movements item = sumMovementsWithPrevRes 0 (part ''withdrawalsGroupedByTimeframe'' item) (part ''depositsGroupedByTimeframe'' item)"

definition getWinLossByTimeframe ::
  "bool \<Rightarrow> (string, rat) jsmap \<Rightarrow> (vals \<times> rat) option \<Rightarrow> merged \<Rightarrow> (vals \<times> rat) option \<times> (string, rat) jsmap" where
  "getWinLossByTimeframe isUnrealizedProfitExcluded firstWalletsVals st item =
     (let plVals = part ''plGroupedByTimeframe'' item;
          firstPLVals = (case st of None \<Rightarrow> plVals | Some (f, _) \<Rightarrow> f);
          prevMovements = (case st of None \<Rightarrow> 0 | Some (_, m) \<Rightarrow> m);
          movements = sumMovementsWithPrevRes prevMovements
            (part ''withdrawalsGroupedByTimeframe'' item) (part ''depositsGroupedByTimeframe'' item);
          firstWallets = nullish (map_of firstWalletsVals ''USD'') 0;
          wallets = usd_of (part ''walletsGroupedByTimeframe'' item);
          realized = (wallets - movements) - firstWallets;
          unrealized = (if isUnrealizedProfitExcluded then 0 else usd_of plVals - usd_of firstPLVals)
      in (Some (firstPLVals, movements), [(''USD'', realized + unrealized)]))"

text \<open>A movement counts with its amount in dollars; without one, in a forex currency, with its own.\<close>

definition calcMovements :: "string list \<Rightarrow> string \<Rightarrow> obj list \<Rightarrow> (string, rat) jsmap" where
  "calcMovements forex symbolFieldName data = foldl (\<lambda>accum movement.
     let currSymb = text_val (get movement symbolFieldName); usd = num_of (get movement ''amountUsd'');
         isNotUsed = (currSymb \<in> set forex \<and> usd = None)
     in case (if isNotUsed then num_of (get movement ''amount'') else usd) of
          None \<Rightarrow> accum
        | Some a \<Rightarrow> add_to (if isNotUsed then currSymb else ''USD'') a accum) [] data"

text \<open>A value belongs to the start of the next frame; the last one, the start of the range, stays.\<close>

fun shift_rest :: "calendar \<Rightarrow> timeframe \<Rightarrow> (int \<times> 'v) list \<Rightarrow> (int \<times> 'v) list" where
  "shift_rest cal tf [] = []"
| "shift_rest cal tf [x] = [x]"
| "shift_rest cal tf (x # y # rest) = (calNext cal tf (fst x), snd x) # shift_rest cal tf (y # rest)"

definition shiftMtsToNextTimeframe :: "calendar \<Rightarrow> timeframe \<Rightarrow> int \<Rightarrow> (int \<times> 'v) list \<Rightarrow> (int \<times> 'v) list" where
  "shiftMtsToNextTimeframe cal tf e groupedData = (case groupedData of
       [] \<Rightarrow> []
     | x # rest \<Rightarrow>
         (if calStart cal tf e = e then [] else if rest = [] then [x] else [(calNext cal tf e, snd x)])
           @ shift_rest cal tf rest)"

record win_loss_data =
  wdHistory :: history_data
  wdWithdrawals :: "obj list"
  wdDeposits :: "obj list"

definition movements_series ::
  "ccy_env \<Rightarrow> calendar \<Rightarrow> timeframe \<Rightarrow> int \<Rightarrow> int \<Rightarrow> string \<Rightarrow> obj list \<Rightarrow> point list" where
  "movements_series env cal tf start e dateField rows = map point_of
     (groupByTimeframe cal (Frame tf) (Some start) (Some e) (\<lambda>r. int_val (get r dateField))
        (\<lambda>s data. (s, calcMovements (ccForex env) ''currency'' data)) () rows)"

definition firstWalletsVals :: "ccy_env \<Rightarrow> win_loss_data \<Rightarrow> (string, rat) jsmap" where
  "firstWalletsVals env d = foldl (add_wallet_val (ccForex env)) [] (hdFirstWallets (wdHistory d))"

definition getDataToCalcWinLoss ::
  "ccy_env \<Rightarrow> calendar \<Rightarrow> date_fields \<Rightarrow> timeframe \<Rightarrow> int \<Rightarrow> int \<Rightarrow> bool \<Rightarrow> synonyms \<Rightarrow> win_loss_data \<Rightarrow> series_data" where
  "getDataToCalcWinLoss env cal df tf start e isUnrealizedProfitExcluded syn d =
     [(''walletsGroupedByTimeframe'', map point_of (getBalanceHistory env cal df (Frame tf) start e True syn (wdHistory d))),
      (''withdrawalsGroupedByTimeframe'', movements_series env cal tf start e ''mtsStarted'' (wdWithdrawals d)),
      (''depositsGroupedByTimeframe'', movements_series env cal tf start e ''mtsUpdated'' (wdDeposits d)),
      (''plGroupedByTimeframe'', if isUnrealizedProfitExcluded then [] else hdPL (wdHistory d))]"

definition getWinLoss ::
  "ccy_env \<Rightarrow> calendar \<Rightarrow> date_fields \<Rightarrow> timeframe \<Rightarrow> int \<Rightarrow> int \<Rightarrow> bool \<Rightarrow> synonyms \<Rightarrow> win_loss_data
    \<Rightarrow> (int \<times> (string, rat) jsmap) list" where
  "getWinLoss env cal df tf start e isUnrealizedProfitExcluded syn d =
     shiftMtsToNextTimeframe cal tf e
       (calcGroupedData (getWinLossByTimeframe isUnrealizedProfitExcluded (firstWalletsVals env d)) None True
          (getDataToCalcWinLoss env cal df tf start e isUnrealizedProfitExcluded syn d) @ [(start, [(''USD'', 0)])])"

subsection \<open>In per cent of the balance\<close>

text \<open>Against the balance after the last movement; per cent from before it are added.\<close>

record balance_state =
  bsFirstPL :: rat
  bsPercCorrection :: rat
  bsPrevPerc :: rat
  bsFirstWallets :: rat
  bsPrevWallets :: rat

definition getWinLossVSAccountBalanceByTimeframe ::
  "bool \<Rightarrow> (string, rat) jsmap \<Rightarrow> balance_state option \<Rightarrow> merged \<Rightarrow> balance_state option \<times> (string, rat) jsmap" where
  "getWinLossVSAccountBalanceByTimeframe isUnrealizedProfitExcluded firstVals st item =
     (let pl = usd_of (part ''plGroupedByTimeframe'' item);
          firstUsd = nullish (map_of firstVals ''USD'') 0;
          s = (case st of Some b \<Rightarrow> b
            | None \<Rightarrow> \<lparr>bsFirstPL = pl, bsPercCorrection = 0, bsPrevPerc = 0, bsFirstWallets = firstUsd, bsPrevWallets = firstUsd\<rparr>);
          newMovements = new_movements item;
          hasNewMovements = (newMovements \<noteq> 0);
          wallets = usd_of (part ''walletsGroupedByTimeframe'' item);
          firstWallets = (if hasNewMovements then bsPrevWallets s + newMovements else bsFirstWallets s);
          s1 = s\<lparr>bsFirstWallets := firstWallets, bsPrevWallets := wallets\<rparr>;
          realized = wallets - firstWallets;
          unrealized = (if isUnrealizedProfitExcluded then 0 else pl - bsFirstPL s);
          winLoss = realized + unrealized
      in if firstWallets = 0 then (Some s1, [(''perc'', bsPercCorrection s)])
         else
           let corr = (if hasNewMovements then bsPrevPerc s else bsPercCorrection s);
               perc = winLoss / firstWallets * 100 + corr
           in (Some (s1\<lparr>bsPercCorrection := corr, bsPrevPerc := perc\<rparr>), [(''perc'', perc)]))"

text \<open>Against the balance of the frame before; the returns of the frames are multiplied.\<close>

record prev_state =
  psPrevPerc :: rat
  psPrevWallets :: rat
  psPrevPL :: rat
  psPrevMultiplying :: rat
  psTotalMovements :: rat

definition getWinLossPrevDayBalanceByTimeframe ::
  "bool \<Rightarrow> bool \<Rightarrow> (string, rat) jsmap \<Rightarrow> prev_state option \<Rightarrow> merged \<Rightarrow> prev_state option \<times> (string, rat) jsmap" where
  "getWinLossPrevDayBalanceByTimeframe shouldTimeframePLBeReturned isUnrealizedProfitExcluded firstVals st item =
     (let pl = usd_of (part ''plGroupedByTimeframe'' item);
          s = (case st of Some p \<Rightarrow> p
            | None \<Rightarrow> \<lparr>psPrevPerc = 0, psPrevWallets = nullish (map_of firstVals ''USD'') 0, psPrevPL = pl,
                psPrevMultiplying = 1, psTotalMovements = 0\<rparr>);
          movements = new_movements item;
          totalMovements = psTotalMovements s + movements;
          wallets = usd_of (part ''walletsGroupedByTimeframe'' item);
          realized = (wallets - movements) - psPrevWallets s;
          unrealized = (if isUnrealizedProfitExcluded then 0 else pl - psPrevPL s);
          winLoss = realized + unrealized;
          balanceWithoutMovements = wallets - totalMovements;
          fullBalance = (if isUnrealizedProfitExcluded then balanceWithoutMovements else balanceWithoutMovements + pl);
          s1 = s\<lparr>psPrevPL := pl, psTotalMovements := totalMovements\<rparr>;
          out = (\<lambda>returns perc. if shouldTimeframePLBeReturned
             then [(''balanceWithoutMovementsUsd'', fullBalance), (''returns'', returns), (''perc'', perc)]
             else [(''perc'', perc)])
      in if psPrevWallets s = 0 then (Some s1, out 0 (psPrevPerc s))
         else
           let prevMultiplying = (psPrevWallets s + winLoss) / psPrevWallets s * psPrevMultiplying s;
               perc = (prevMultiplying - 1) * 100
           in (Some (s1\<lparr>psPrevMultiplying := prevMultiplying, psPrevPerc := perc, psPrevWallets := wallets\<rparr>),
               out (winLoss / psPrevWallets s) perc))"

text \<open>The days are calculated for every frame; of a longer frame the newest day is picked.\<close>

definition pick_frames ::
  "calendar \<Rightarrow> timeframe \<Rightarrow> int \<Rightarrow> int \<Rightarrow> (int \<times> (string, rat) jsmap) list \<Rightarrow> (int \<times> (string, rat) jsmap) list" where
  "pick_frames cal tf start e groupedData =
     (if tf = Day then groupedData
      else groupByTimeframe cal (Frame tf) (Some start) (Some e) (\<lambda>x. Some (fst x))
        (\<lambda>s data. (s, case data of x # _ \<Rightarrow> snd x | [] \<Rightarrow> [])) () groupedData)"

definition getWinLossVSAccountBalance ::
  "ccy_env \<Rightarrow> calendar \<Rightarrow> date_fields \<Rightarrow> timeframe \<Rightarrow> int \<Rightarrow> int \<Rightarrow> bool \<Rightarrow> bool \<Rightarrow> bool \<Rightarrow> synonyms \<Rightarrow> win_loss_data
    \<Rightarrow> (int \<times> (string, rat) jsmap) list" where
  "getWinLossVSAccountBalance env cal df tf start e shouldTimeframePLBeReturned isUnrealizedProfitExcluded isVSPrevDayBalance syn d =
     (let data = getDataToCalcWinLoss env cal df Day start e isUnrealizedProfitExcluded syn d;
          first = firstWalletsVals env d;
          groupedData = (if isVSPrevDayBalance \<or> shouldTimeframePLBeReturned
            then calcGroupedData (getWinLossPrevDayBalanceByTimeframe shouldTimeframePLBeReturned isUnrealizedProfitExcluded first) None True data
            else calcGroupedData (getWinLossVSAccountBalanceByTimeframe isUnrealizedProfitExcluded first) None True data);
          pickedRes = pick_frames cal tf start e groupedData
            @ (if shouldTimeframePLBeReturned then [] else [(start, [(''perc'', 0)])])
      in shiftMtsToNextTimeframe cal tf e pickedRes)"

end
