(* ===== verification/Report_WinLoss_Props.thy ===== *)
theory Report_WinLoss_Props
  imports Report_WinLoss
begin

text \<open>
  Gains and losses as sums over the movements, and as products of the returns.
\<close>

subsection \<open>Gains add up\<close>

definition movements_of :: "merged list \<Rightarrow> rat" where
  "movements_of items = sum_list (map new_movements items)"

definition win_loss_at :: "bool \<Rightarrow> (string, rat) jsmap \<Rightarrow> merged list \<Rightarrow> rat" where
  "win_loss_at excluded firstVals items =
     usd_of (part ''walletsGroupedByTimeframe'' (hd items)) - movements_of items - nullish (map_of firstVals ''USD'') 0 +
     (if excluded then 0 else usd_of (part ''plGroupedByTimeframe'' (hd items)) - usd_of (part ''plGroupedByTimeframe'' (last items)))"

fun win_losses :: "bool \<Rightarrow> (string, rat) jsmap \<Rightarrow> merged list \<Rightarrow> (int \<times> (string, rat) jsmap) list" where
  "win_losses excluded firstVals [] = []"
| "win_losses excluded firstVals (x # older) =
     (mMts x, [(''USD'', win_loss_at excluded firstVals (x # older))]) # win_losses excluded firstVals older"

lemma win_loss_state:
  "state_after (getWinLossByTimeframe excluded firstVals) (rev xs) None =
    (if xs = [] then None else Some (part ''plGroupedByTimeframe'' (last xs), movements_of xs))"
proof (induction xs)
  case (Cons x xs)
  then show ?case by (cases xs) (auto simp: state_after_append getWinLossByTimeframe_def movements_of_def new_movements_def
      sumMovementsWithPrevRes_def Let_def)
qed simp

lemma win_loss_step:
  "snd (getWinLossByTimeframe excluded firstVals (state_after (getWinLossByTimeframe excluded firstVals) (rev xs) None) x) =
    [(''USD'', win_loss_at excluded firstVals (x # xs))]"
  by (auto simp: win_loss_state getWinLossByTimeframe_def win_loss_at_def movements_of_def new_movements_def
      sumMovementsWithPrevRes_def Let_def)

lemma win_loss_result:
  "reduce_items_right (getWinLossByTimeframe excluded firstVals) (rev xs) None [] = win_losses excluded firstVals xs"
proof (induction xs)
  case (Cons x xs)
  have "reduce_items_right (getWinLossByTimeframe excluded firstVals) [x] s accum =
      (mMts x, snd (getWinLossByTimeframe excluded firstVals s x)) # accum" for s accum
    by (simp add: getWinLossByTimeframe_def Let_def)
  then show ?case using Cons by (simp only: rev.simps reduce_items_right_append win_loss_step win_losses.simps)
qed simp

text \<open>
  C32: the gain at a time is what the wallets are worth, less all movements up to it and what they were worth
  at the start, and the growth of the unrealised profit since the oldest time: so between two times it
  grows by what the wallets gained beside the movements.
\<close>

theorem getWinLoss_gains:
  "getWinLoss env cal df tf start e excluded syn d = shiftMtsToNextTimeframe cal tf e
    (win_losses excluded (firstWalletsVals env d) (mergeData (getDataToCalcWinLoss env cal df tf start e excluded syn d))
      @ [(start, [(''USD'', 0)])])"
  by (simp add: getWinLoss_def calcGroupedData_def win_loss_result)

lemma reduce_rev_Cons:
  assumes "snd (calc (state_after calc (rev xs) s) x) = r" "r \<noteq> []"
  shows "reduce_items_right calc (rev (x # xs)) s [] = (mMts x, r) # reduce_items_right calc (rev xs) s []"
proof -
  have "reduce_items_right calc [x] t accum = (let r = snd (calc t x) in if r = [] then accum else (mMts x, r) # accum)" for t accum
    by (simp split: prod.split)
  then show ?thesis using assms by (simp only: rev.simps reduce_items_right_append Let_def if_False)
qed

subsection \<open>Returns multiply\<close>

definition usd_wallets :: "merged \<Rightarrow> rat" where
  "usd_wallets x = usd_of (part ''walletsGroupedByTimeframe'' x)"

definition usd_pl :: "merged \<Rightarrow> rat" where
  "usd_pl x = usd_of (part ''plGroupedByTimeframe'' x)"

text \<open>The return of a frame, against the balance and the profit of the frame before.\<close>

fun returns_of :: "bool \<Rightarrow> rat \<Rightarrow> merged list \<Rightarrow> rat list" where
  "returns_of excluded firstUsd [] = []"
| "returns_of excluded firstUsd (x # older) =
     (let before = (case older of [] \<Rightarrow> firstUsd | y # _ \<Rightarrow> usd_wallets y);
          plBefore = (case older of [] \<Rightarrow> usd_pl x | y # _ \<Rightarrow> usd_pl y)
      in (usd_wallets x - new_movements x - before + (if excluded then 0 else usd_pl x - plBefore)) / before)
     # returns_of excluded firstUsd older"

definition compound :: "rat list \<Rightarrow> rat" where
  "compound rs = (prod_list (map (\<lambda>r. 1 + r) rs) - 1) * 100"

fun compounds :: "bool \<Rightarrow> rat \<Rightarrow> merged list \<Rightarrow> (int \<times> (string, rat) jsmap) list" where
  "compounds excluded firstUsd [] = []"
| "compounds excluded firstUsd (x # older) =
     (mMts x, [(''perc'', compound (returns_of excluded firstUsd (x # older)))]) # compounds excluded firstUsd older"

abbreviation prev_day :: "bool \<Rightarrow> (string, rat) jsmap \<Rightarrow> prev_state option \<Rightarrow> merged \<Rightarrow> prev_state option \<times> (string, rat) jsmap" where
  "prev_day excluded firstVals \<equiv> getWinLossPrevDayBalanceByTimeframe False excluded firstVals"

text \<open>One step, in terms of the state before it.\<close>

definition prev_or_first :: "(string, rat) jsmap \<Rightarrow> merged \<Rightarrow> prev_state option \<Rightarrow> prev_state" where
  "prev_or_first firstVals x st = (case st of Some p \<Rightarrow> p
     | None \<Rightarrow> \<lparr>psPrevPerc = 0, psPrevWallets = nullish (map_of firstVals ''USD'') 0, psPrevPL = usd_pl x,
         psPrevMultiplying = 1, psTotalMovements = 0\<rparr>)"

lemma prev_day_step:
  fixes st x excluded firstVals
  defines "s \<equiv> prev_or_first firstVals x st"
  assumes "psPrevWallets s \<noteq> 0"
  defines "r \<equiv> (usd_wallets x - new_movements x - psPrevWallets s + (if excluded then 0 else usd_pl x - psPrevPL s)) / psPrevWallets s"
  shows "fst (prev_day excluded firstVals st x) = Some \<lparr>psPrevPerc = ((1 + r) * psPrevMultiplying s - 1) * 100,
    psPrevWallets = usd_wallets x, psPrevPL = usd_pl x, psPrevMultiplying = (1 + r) * psPrevMultiplying s,
    psTotalMovements = new_movements x + psTotalMovements s\<rparr>"
proof -
  define w where "w = usd_wallets x - new_movements x - psPrevWallets s + (if excluded then 0 else usd_pl x - psPrevPL s)"
  have m: "(psPrevWallets s + w) / psPrevWallets s = 1 + r"
    using assms(2) by (simp add: r_def w_def[symmetric] add_divide_distrib)
  show ?thesis using assms(2) unfolding getWinLossPrevDayBalanceByTimeframe_def Let_def
      usd_wallets_def[symmetric] usd_pl_def[symmetric] prev_or_first_def[symmetric] s_def[symmetric] w_def[symmetric] m
    by (simp add: add.commute[of "psTotalMovements s"])
qed

lemma prev_day_state:
  assumes "nullish (map_of firstVals ''USD'') 0 = firstUsd" "firstUsd \<noteq> 0" "list_all (\<lambda>x. usd_wallets x \<noteq> 0) xs"
  shows "state_after (prev_day excluded firstVals) (rev xs) None = (case xs of [] \<Rightarrow> None
    | x # _ \<Rightarrow> Some \<lparr>psPrevPerc = compound (returns_of excluded firstUsd xs), psPrevWallets = usd_wallets x, psPrevPL = usd_pl x,
        psPrevMultiplying = prod_list (map (\<lambda>r. 1 + r) (returns_of excluded firstUsd xs)), psTotalMovements = movements_of xs\<rparr>)"
  using assms(3)
proof (induction xs)
  case (Cons x xs)
  define st where "st = state_after (prev_day excluded firstVals) (rev xs) None"
  have "state_after (prev_day excluded firstVals) (rev (x # xs)) None = fst (prev_day excluded firstVals st x)"
    by (simp add: state_after_append st_def)
  moreover have s: "psPrevWallets (prev_or_first firstVals x st) = (case xs of [] \<Rightarrow> firstUsd | y # _ \<Rightarrow> usd_wallets y)"
    "psPrevPL (prev_or_first firstVals x st) = (case xs of [] \<Rightarrow> usd_pl x | y # _ \<Rightarrow> usd_pl y)"
    "psPrevMultiplying (prev_or_first firstVals x st) = prod_list (map (\<lambda>r. 1 + r) (returns_of excluded firstUsd xs))"
    "psTotalMovements (prev_or_first firstVals x st) = movements_of xs"
    using Cons assms(1) by (cases xs; simp add: st_def prev_or_first_def movements_of_def)+
  moreover have "psPrevWallets (prev_or_first firstVals x st) \<noteq> 0"
    unfolding s using Cons.prems assms(2) by (cases xs) simp_all
  note prev_day_step[OF this, of excluded, unfolded s]
  ultimately show ?case by (simp add: compound_def movements_of_def Let_def)
qed simp

text \<open>
  C33: against the balance of the frame before, the result of a frame is the product of the returns up to it,
  in per cent, when no balance is zero.
\<close>

theorem returns_compound:
  assumes "nullish (map_of firstVals ''USD'') 0 = firstUsd" "firstUsd \<noteq> 0" "list_all (\<lambda>x. usd_wallets x \<noteq> 0) xs"
  shows "reduce_items_right (getWinLossPrevDayBalanceByTimeframe False excluded firstVals) (rev xs) None [] = compounds excluded firstUsd xs"
  using assms(3)
proof (induction xs)
  case (Cons x xs)
  let ?st = "state_after (prev_day excluded firstVals) (rev xs) None"
  have st: "state_after (prev_day excluded firstVals) (rev (x # xs)) None = fst (prev_day excluded firstVals ?st x)"
    by (simp add: state_after_append)
  have out: "snd (prev_day excluded firstVals s x) = [(''perc'', psPrevPerc (the (fst (prev_day excluded firstVals s x))))]" for s
    by (simp add: getWinLossPrevDayBalanceByTimeframe_def Let_def)
  have "psPrevPerc (the (fst (prev_day excluded firstVals ?st x))) = compound (returns_of excluded firstUsd (x # xs))"
    unfolding st[symmetric] prev_day_state[OF assms(1,2) Cons.prems] by simp
  then have "snd (prev_day excluded firstVals ?st x) = [(''perc'', compound (returns_of excluded firstUsd (x # xs)))]"
    unfolding out by (simp only:)
  from reduce_rev_Cons[where calc = "prev_day excluded firstVals" and xs = xs and s = None, OF this] show ?case using Cons by (simp only: compounds.simps list.pred_inject list.distinct simp_thms)
qed simp

definition sample_item :: "int \<Rightarrow> rat \<Rightarrow> rat \<Rightarrow> merged" where
  "sample_item t w m = \<lparr>mMts = t, mParts = [(''walletsGroupedByTimeframe'', [(''USD'', Some w)]),
     (''depositsGroupedByTimeframe'', [(''USD'', Some m)])]\<rparr>"

lemma returns_compound_witness:
  "reduce_items_right (getWinLossPrevDayBalanceByTimeframe False True [(''USD'', 100)]) (rev [sample_item 20 180 50, sample_item 10 120 0]) None [] =
    [(20, [(''perc'', 30)]), (10, [(''perc'', 20)])]"
proof -
  have "reduce_items_right (getWinLossPrevDayBalanceByTimeframe False True [(''USD'', 100)]) (rev [sample_item 20 180 50, sample_item 10 120 0]) None [] =
      compounds True 100 [sample_item 20 180 50, sample_item 10 120 0]"
    by (rule returns_compound) (simp_all add: nullish_def usd_wallets_def usd_of_def part_def sample_item_def)
  also have "\<dots> = [(20, [(''perc'', 30)]), (10, [(''perc'', 20)])]"
    by (simp add: compound_def usd_wallets_def usd_pl_def new_movements_def sumMovementsWithPrevRes_def usd_of_def part_def
        nullish_def sample_item_def)
  finally show ?thesis .
qed

text \<open>
  A balance of zero at the start is never replaced by a later one: the result stays zero for all time,
  whatever the account earns.
\<close>

lemma empty_start_stays_zero:
  assumes "nullish (map_of firstVals ''USD'') 0 = 0"
  shows "reduce_items_right (getWinLossPrevDayBalanceByTimeframe False excluded firstVals) (rev xs) None [] = map (\<lambda>x. (mMts x, [(''perc'', 0)])) xs"
proof -
  have st: "case state_after (prev_day excluded firstVals) (rev xs) None of None \<Rightarrow> True | Some s \<Rightarrow> psPrevWallets s = 0 \<and> psPrevPerc s = 0" for xs
    using assms by (induction xs) (auto simp: state_after_append getWinLossPrevDayBalanceByTimeframe_def Let_def split: option.splits)
  have "snd (prev_day excluded firstVals (state_after (prev_day excluded firstVals) (rev xs) None) x) = [(''perc'', 0)]" for x xs
    using st[of xs] assms by (auto simp: getWinLossPrevDayBalanceByTimeframe_def Let_def split: option.splits)
  from reduce_rev_Cons[where calc = "prev_day excluded firstVals" and s = None, OF this] show ?thesis by (induction xs) simp_all
qed

end
