(* ===== verification/Report_Positions.thy ===== *)
theory Report_Positions
  imports Report_Balance Js_Action
begin

text \<open>
  \<^verbatim>\<open>sync/positions.snapshot/index.js\<close>: what positions were open at a time, with their profit or loss, and the
  profit or loss over time. Rows of the database layer are arguments, the answers of the exchange are
  parameters: the open positions, and per identifier and end a page of the audit.
\<close>

subsection \<open>Finding and comparing rows\<close>

definition findPositions :: "obj list \<Rightarrow> string \<Rightarrow> int \<Rightarrow> obj option" where
  "findPositions positionsAudit reqStatus endMts = find (\<lambda>posAudit. case int_val (get posAudit ''mtsUpdate'') of
       None \<Rightarrow> False
     | Some mtsUpdate \<Rightarrow> get posAudit ''status'' = VStr reqStatus \<and> mtsUpdate \<le> endMts) positionsAudit"

definition getPositionsIds :: "obj list \<Rightarrow> int list" where
  "getPositionsIds positionsHistory = List.map_filter (\<lambda>p. int_val (get p ''id'')) positionsHistory"

text \<open>\<^verbatim>\<open>!==\<close> for values of different rows: two objects are never the same one.\<close>

definition strict_neq :: "jsval \<Rightarrow> jsval \<Rightarrow> bool" where
  "strict_neq v w \<longleftrightarrow> v \<noteq> w \<or> is_object v"

definition public_keys :: "obj \<Rightarrow> string list" where
  "public_keys ob = filter (\<lambda>key. key = [] \<or> hd key \<noteq> CHR ''_'') (map fst ob)"

definition filterDuplicate :: "obj list \<Rightarrow> obj list \<Rightarrow> obj list" where
  "filterDuplicate accum newItems = (case accum of
       [] \<Rightarrow> newItems
     | first # _ \<Rightarrow> filter (\<lambda>currItem. list_all (\<lambda>accumItem.
         list_ex (\<lambda>key. strict_neq (get accumItem key) (get currItem key)) (public_keys first)) accum) newItems)"

subsection \<open>The audit of a position\<close>

text \<open>An answer that is no list is \<open>None\<close>, and so is a next page that is no whole number.\<close>

record audit_page =
  apRes :: "obj list option"
  apNext :: "int option"

text \<open>
  Lines 359 to 437: page after page, back in time, until a page shows that the position was closed or open
  at the end, or no page follows. An empty page that names a next one is skipped once.
\<close>

partial_function (option) audit_loop ::
  "(int \<Rightarrow> conv_error + audit_page) \<Rightarrow> int \<Rightarrow> int \<Rightarrow> nat \<Rightarrow> obj list \<Rightarrow> (conv_error + obj option) option" where
  "audit_loop api endMts e serialRequestsCount singleIdRes = (case api e of
       Inl err \<Rightarrow> Some (Inl err)
     | Inr page \<Rightarrow>
         (let nextPage = apNext page; res = nullish (apRes page) [] in
          if apRes page = Some [] \<and> nextPage \<noteq> None \<and> nextPage \<noteq> Some 0 \<and> serialRequestsCount < 1
          then audit_loop api endMts (the nextPage) (serialRequestsCount + 1) singleIdRes
          else if res = [] then Some (Inr None)
          else if findPositions res ''CLOSED'' endMts \<noteq> None then Some (Inr None)
          else if findPositions res ''ACTIVE'' endMts \<noteq> None then Some (Inr (findPositions res ''ACTIVE'' endMts))
          else
            let resWithoutDuplicate = filterDuplicate singleIdRes res in
            if nextPage = None \<or> resWithoutDuplicate = [] \<and> nextPage = Some e then Some (Inr None)
            else audit_loop api endMts (the nextPage) 0 (singleIdRes @ resWithoutDuplicate)))"

fun getPositionsAudit ::
  "(int \<Rightarrow> int \<Rightarrow> conv_error + audit_page) \<Rightarrow> int \<Rightarrow> int \<Rightarrow> int list \<Rightarrow> (conv_error + obj list) option" where
  "getPositionsAudit api now endMts [] = Some (Inr [])"
| "getPositionsAudit api now endMts (i # ids) =
     Option.bind (audit_loop (api i) endMts now 0 []) (\<lambda>r. case r of
         Inl err \<Rightarrow> Some (Inl err)
       | Inr found \<Rightarrow> map_option (\<lambda>rest. bind_err rest (\<lambda>xs. Inr (case found of Some a \<Rightarrow> a # xs | None \<Rightarrow> xs)))
           (getPositionsAudit api now endMts ids))"

subsection \<open>Profit and loss of a position\<close>

definition pl_conv_schema :: "int option \<Rightarrow> conv_schema" where
  "pl_conv_schema mts = \<lparr>csConvertTo = ''USD'', csSymbolField = ''currency'', csDateField = [], csMts = mts,
     csTemps = False, csConvFields = [(''pl'', [''plUsd''])], csSynonyms = []\<rparr>"

definition convertPlToUsd ::
  "ccy_env \<Rightarrow> jsval \<Rightarrow> string \<Rightarrow> int option \<Rightarrow> bool \<Rightarrow> (synonyms_state, conv_error, jsval \<times> string) action" where
  "convertPlToUsd env pl symbol mts shouldTryPublicTradesFirst =
     (let currency = snd (ccSplit env symbol) in
      if length currency < 3 \<or> num_of pl = None then give (VNull, currency)
      else and_then (convert env shouldTryPublicTradesFirst
             (VObj [(''pl'', pl), (''plUsd'', VNull), (''currency'', VStr currency)]) (pl_conv_schema mts))
           (\<lambda>res. give (get (spread res) ''plUsd'', currency)))"

definition no_pl :: "obj \<Rightarrow> obj" where
  "no_pl position = merge_obj position [(''actualPrice'', VNull), (''pl'', VNull), (''plUsd'', VNull), (''plPerc'', VNull)]"

text \<open>The funding of a short position is in the base currency. A per cent of a base price of zero is not finite.\<close>

definition position_pl :: "rat \<Rightarrow> rat \<Rightarrow> rat \<Rightarrow> rat option \<Rightarrow> rat" where
  "position_pl actualPrice basePrice amount marginFunding =
     (let funding = nullish marginFunding 0;
          converted = (if amount > 0 then funding else funding * actualPrice)
      in (actualPrice - basePrice) * amount - \<bar>converted\<bar>)"

definition position_perc :: "rat \<Rightarrow> rat \<Rightarrow> rat \<Rightarrow> jsval" where
  "position_perc actualPrice basePrice amount =
     (if basePrice = 0 then VNull else VNum ((actualPrice / basePrice - 1) * 100 * sgn amount))"

record calc_state =
  csSnapshot :: "obj list"
  csTickers :: "(string \<times> rat) list"
  csPrices :: "((string \<times> int option) \<times> rat) list"

definition cached_price ::
  "ccy_env \<Rightarrow> string \<Rightarrow> int option \<Rightarrow> ((string \<times> int option) \<times> rat) list \<Rightarrow> (synonyms_state, conv_error, rat) action" where
  "cached_price env symbol mts prices = (case map_of prices (symbol, mts) of
       Some p \<Rightarrow> give p
     | None \<Rightarrow> getPrice env False symbol mts)"

definition ticker_symbol :: "string \<Rightarrow> string" where
  "ticker_symbol currency = ''t'' @ currency @ colon_if (3 < length currency) @ ''USD''"

definition add_ticker ::
  "ccy_env \<Rightarrow> bool \<Rightarrow> rat \<Rightarrow> jsval \<Rightarrow> string \<Rightarrow> int option \<Rightarrow> calc_state \<Rightarrow> (synonyms_state, conv_error, calc_state) action" where
  "add_ticker env isNotTickersRequired pl plUsd currency mts accum = (case num_of plUsd of
       Some usd \<Rightarrow>
         if isNotTickersRequired \<or> currency = [] \<or> currency = ''USD'' then give accum
         else and_then (if pl \<noteq> 0 \<and> usd \<noteq> 0 then give (usd / pl) else getPrice env False (ticker_symbol currency) mts)
           (\<lambda>amount. give (accum\<lparr>csTickers := csTickers accum @ [(ticker_symbol currency, amount)]\<rparr>))
     | None \<Rightarrow> give accum)"

definition calc_position ::
  "ccy_env \<Rightarrow> int option \<Rightarrow> bool \<Rightarrow> obj \<Rightarrow> calc_state \<Rightarrow> (synonyms_state, conv_error, calc_state) action" where
  "calc_position env e isNotTickersRequired position accum =
     (let mts = (if e \<noteq> None then e else int_val (get position ''mtsUpdate'')); resPositions = no_pl position in
      case get position ''symbol'' of
        VStr symbol \<Rightarrow> and_then (cached_price env symbol mts (csPrices accum)) (\<lambda>actualPrice.
          let accum1 = accum\<lparr>csPrices := AList.update (symbol, mts) actualPrice (csPrices accum)\<rparr> in
          case (num_of (get position ''basePrice''), num_of (get position ''amount'')) of
            (Some basePrice, Some amount) \<Rightarrow>
              let pl = position_pl actualPrice basePrice amount (num_of (get position ''marginFunding''))
              in and_then (convertPlToUsd env (VNum pl) symbol mts False) (\<lambda>(plUsd, currency).
                   add_ticker env isNotTickersRequired pl plUsd currency mts
                     (accum1\<lparr>csSnapshot := csSnapshot accum1 @ [merge_obj resPositions
                        [(''actualPrice'', VNum actualPrice), (''pl'', VNum pl), (''plUsd'', plUsd),
                         (''plPerc'', position_perc actualPrice basePrice amount)]]\<rparr>))
          | _ \<Rightarrow> give (accum1\<lparr>csSnapshot := csSnapshot accum1 @ [resPositions]\<rparr>))
      | _ \<Rightarrow> give (accum\<lparr>csSnapshot := csSnapshot accum @ [resPositions]\<rparr>))"

definition getCalculatedPositions ::
  "ccy_env \<Rightarrow> obj list \<Rightarrow> int option \<Rightarrow> bool \<Rightarrow> (synonyms_state, conv_error, obj list \<times> (string \<times> rat) list) action" where
  "getCalculatedPositions env positions e isNotTickersRequired =
     and_then (for_each (calc_position env e isNotTickersRequired) positions \<lparr>csSnapshot = [], csTickers = [], csPrices = []\<rparr>)
       (\<lambda>accum. give (csSnapshot accum, csTickers accum))"

subsection \<open>Positions open now\<close>

text \<open>\<^verbatim>\<open>mtsCreate <= end\<close> for a number; \<^verbatim>\<open>null\<close> counts as 0.\<close>

definition created_before :: "int \<Rightarrow> obj \<Rightarrow> bool" where
  "created_before e position = (case get position ''mtsCreate'' of
       VNum x \<Rightarrow> x \<le> of_int e | VNull \<Rightarrow> 0 \<le> e | _ \<Rightarrow> False)"

definition add_active :: "ccy_env \<Rightarrow> int \<Rightarrow> obj \<Rightarrow> obj list \<Rightarrow> (synonyms_state, conv_error, obj list) action" where
  "add_active env e position res = (case get position ''symbol'' of
       VStr symbol \<Rightarrow>
         if num_of (get position ''pl'') = None \<or> symbol = [] then give res
         else and_then (convertPlToUsd env (get position ''pl'') symbol (Some e) True)
           (\<lambda>(plUsd, currency). give (res @ [put position ''plUsd'' plUsd]))
     | _ \<Rightarrow> give res)"

definition getActivePositions ::
  "ccy_env \<Rightarrow> conv_error + obj list option \<Rightarrow> int \<Rightarrow> bool \<Rightarrow> (synonyms_state, conv_error, obj list) action" where
  "getActivePositions env answer e shouldPlBeConvertedToUsd =
     and_then (lift_result answer) (\<lambda>activePositions.
       let positions = filter (created_before e) (nullish activePositions []) in
       if \<not> shouldPlBeConvertedToUsd \<or> positions = [] then give positions
       else for_each (add_active env e) positions [])"

definition mergePositions :: "obj list \<Rightarrow> obj list \<Rightarrow> obj list" where
  "mergePositions positionsHistory activePositions =
     map spread (orderBy (map VObj (activePositions @ positionsHistory)) [By_Path ''mtsUpdate''] [''desc''])"

text \<open>\<open>None\<close> when a loop over the pages of an audit does not end.\<close>

definition getPositionsAuditAndSnapshot ::
  "ccy_env \<Rightarrow> (int \<Rightarrow> int \<Rightarrow> conv_error + audit_page) \<Rightarrow> conv_error + obj list option \<Rightarrow> int \<Rightarrow> obj list \<Rightarrow> synonyms_state
    \<Rightarrow> ((conv_error + obj list \<times> (string \<times> rat) list) \<times> synonyms_state) option" where
  "getPositionsAuditAndSnapshot env api answer e positionsHistory s =
     (case getActivePositions env answer e False s of
        (Inl err, s') \<Rightarrow> Some (Inl err, s')
      | (Inr activePositions, s') \<Rightarrow>
          (let positions = mergePositions positionsHistory activePositions in
           if positions = [] then Some (Inr ([], []), s')
           else map_option (\<lambda>audit. and_then (lift_result audit) (\<lambda>positionsAudit.
                  if positionsAudit = [] then give ([], []) else getCalculatedPositions env positionsAudit (Some e) False) s')
                (getPositionsAudit api (ccNow env) e (getPositionsIds positions))))"

subsection \<open>Profit and loss over time\<close>

datatype pl_val = PL_Rows "obj list" | PL_Mts int

fun rows_of :: "pl_val \<Rightarrow> obj list" where
  "rows_of (PL_Rows rows) = rows"
| "rows_of (PL_Mts m) = []"

definition aggregatePositionsSnapshots :: "obj list \<Rightarrow> pl_val gvals" where
  "aggregatePositionsSnapshots data = (if data = [] then [] else [(''res'', PL_Rows data)])"

definition isClosedPosition :: "obj list \<Rightarrow> jsval \<Rightarrow> bool" where
  "isClosedPosition positionsHistory i = list_ex (\<lambda>item. get item ''id'' = i) positionsHistory"

definition filterPositionsSnapshots :: "obj list \<Rightarrow> obj list \<Rightarrow> obj list" where
  "filterPositionsSnapshots positionsSnapshots positionsHistory = foldl (\<lambda>accum position.
     if num_of (get position ''id'') \<noteq> None \<and> list_all (\<lambda>item. get item ''id'' \<noteq> get position ''id'') accum \<and>
        \<not> isClosedPosition positionsHistory (get position ''id'')
     then accum @ [position] else accum) [] positionsSnapshots"

definition part_rows :: "string \<Rightarrow> pl_val gmerged \<Rightarrow> obj list" where
  "part_rows key item = (case Option.bind (map_of (mParts item) key) (\<lambda>vs. map_of vs ''res'') of
       Some v \<Rightarrow> rows_of v | None \<Rightarrow> [])"

definition pl_sum :: "obj list \<Rightarrow> (string, rat) jsmap" where
  "pl_sum positions = foldl (\<lambda>accum curr. case num_of (get curr ''plUsd'') of
       None \<Rightarrow> accum | Some plUsd \<Rightarrow> add_to ''USD'' plUsd accum) [] positions"

text \<open>The state has the open positions of the frame before, and the index that \<^verbatim>\<open>reduceRight\<close> passes.\<close>

definition getPLByTimeframe ::
  "obj list \<Rightarrow> obj list \<times> nat \<Rightarrow> pl_val gmerged \<Rightarrow> (obj list \<times> nat) \<times> (string, rat) jsmap" where
  "getPLByTimeframe activePositionsAtEnd st item =
     (let (prevActivePositions, i) = st;
          positionsSnapshots = (if i = 0 then activePositionsAtEnd else [])
            @ part_rows ''plGroupedByTimeframe'' item @ prevActivePositions;
          open_now = filterPositionsSnapshots positionsSnapshots (part_rows ''positionsHistoryGroupedByTimeframe'' item)
      in ((open_now, i - 1), pl_sum open_now))"

definition positions_by_frames ::
  "calendar \<Rightarrow> timeframe \<Rightarrow> int \<Rightarrow> int \<Rightarrow> obj list \<Rightarrow> pl_val gpoint list" where
  "positions_by_frames cal tf start e rows = map (\<lambda>(m, vs). \<lparr>ptMts = Some m, ptVals = vs\<rparr>)
     (groupByTimeframe cal (Frame tf) (Some start) (Some e) (\<lambda>r. int_val (get r ''mtsUpdate''))
        (\<lambda>s data. (s, aggregatePositionsSnapshots data)) () rows)"

definition snapshots_or_none ::
  "ccy_env \<Rightarrow> obj list \<Rightarrow> (synonyms_state, conv_error, obj list) action" where
  "snapshots_or_none env rows =
     (if rows = [] then give []
      else and_then (getCalculatedPositions env rows None True) (\<lambda>(positionsSnapshot, tickers). give positionsSnapshot))"

definition getActivePositionsAtStart ::
  "ccy_env \<Rightarrow> int \<Rightarrow> obj list \<Rightarrow> (synonyms_state, conv_error, obj list) action" where
  "getActivePositionsAtStart env start rows = (if start \<le> 0 then give [] else snapshots_or_none env rows)"

definition getSyncedPositionsSnapshot ::
  "ccy_env \<Rightarrow> obj list \<Rightarrow> (synonyms_state, conv_error, obj list) action" where
  "getSyncedPositionsSnapshot env rows = snapshots_or_none env rows"

record pl_data =
  pdSnapshots :: "obj list"
  pdHistory :: "obj list"
  pdAtStart :: "obj list"
  pdActive :: "conv_error + obj list option"

definition pl_series :: "calendar \<Rightarrow> timeframe \<Rightarrow> int \<Rightarrow> int \<Rightarrow> obj list \<Rightarrow> obj list \<Rightarrow> pl_val gseries" where
  "pl_series cal tf start e positionsHistory dailyPositionsSnapshots =
     [(''positionsHistoryGroupedByTimeframe'', positions_by_frames cal tf start e positionsHistory),
      (''plGroupedByTimeframe'', positions_by_frames cal tf start e dailyPositionsSnapshots),
      (''mtsGroupedByTimeframe'', map (\<lambda>(m, v). \<lparr>ptMts = Some m, ptVals = [(''mts'', PL_Mts v)]\<rparr>)
         (getMtsGroupedByTimeframe cal start e tf True))]"

text \<open>When the exchange can not be asked, the prices of the candles stay.\<close>

definition getPLSnapshot ::
  "ccy_env \<Rightarrow> calendar \<Rightarrow> timeframe \<Rightarrow> int \<Rightarrow> int \<Rightarrow> pl_data
    \<Rightarrow> (synonyms_state, conv_error, (int \<times> (string, rat) jsmap) list) action" where
  "getPLSnapshot env cal tf start e d =
     and_then (getSyncedPositionsSnapshot env (pdSnapshots d)) (\<lambda>dailyPositionsSnapshots.
     and_then (getActivePositionsAtStart env start (pdAtStart d)) (\<lambda>activePositionsAtStart.
     and_then (try_catch (getActivePositions env (pdActive d) e True) (\<lambda>err. give [])) (\<lambda>activePositionsAtEnd.
       let data = pl_series cal tf start e (pdHistory d) dailyPositionsSnapshots
       in give (calcGroupedData (getPLByTimeframe activePositionsAtEnd)
            (activePositionsAtStart, length (mergeData data) - 1) True data))))"

end
