(* ===== verification/Report_Positions_Props.thy ===== *)
theory Report_Positions_Props
  imports Report_Positions
begin

text \<open>
  The look-up of an audit ends, and the profit or loss over time is that of the positions which are open
  at each frame.
\<close>

subsection \<open>The audit ends\<close>

definition flat_row :: "obj \<Rightarrow> bool" where
  "flat_row ob \<longleftrightarrow> (\<forall>key. \<not> is_object (get ob key))"

definition known_row :: "obj list \<Rightarrow> obj \<Rightarrow> obj \<Rightarrow> bool" where
  "known_row accum first row \<longleftrightarrow>
     (\<exists>a\<in>set accum. \<not> list_ex (\<lambda>key. strict_neq (get a key) (get row key)) (public_keys first))"

lemma filterDuplicate_Cons:
  "filterDuplicate (first # rest) rows = filter (\<lambda>r. \<not> known_row (first # rest) first r) rows"
  by (auto simp: filterDuplicate_def known_row_def list_all_iff intro!: filter_cong)

lemma known_row_self: "flat_row row \<Longrightarrow> row \<in> set accum \<Longrightarrow> known_row accum first row"
  by (auto simp: known_row_def list_ex_iff strict_neq_def flat_row_def intro!: bexI[of _ row])

lemma filterDuplicate_known:
  assumes "\<And>r. r \<in> set rows \<Longrightarrow> flat_row r"
  shows "filterDuplicate (accum @ filterDuplicate accum rows) rows = []"
proof (cases accum)
  case Nil
  then show ?thesis
    by (cases rows) (auto simp: filterDuplicate_Cons filter_empty_conv filterDuplicate_def[of "[]"]
        intro!: known_row_self assms)
next
  case (Cons first rest)
  have "known_row (first # rest @ filterDuplicate accum rows) first r" if r: "r \<in> set rows" for r
  proof (cases "known_row accum first r")
    case True
    then show ?thesis using Cons by (auto simp: known_row_def)
  next
    case False
    then have "r \<in> set (filterDuplicate accum rows)" using r Cons by (simp add: filterDuplicate_Cons)
    then show ?thesis using assms[OF r] by (intro known_row_self) auto
  qed
  then show ?thesis using Cons by (simp add: filterDuplicate_Cons filter_empty_conv)
qed

text \<open>The page after a page is not later, and the rows have no nested values.\<close>

definition pages_go_back :: "(int \<Rightarrow> conv_error + audit_page) \<Rightarrow> bool" where
  "pages_go_back api \<longleftrightarrow> (\<forall>e page. api e = Inr page \<longrightarrow>
     (\<forall>n. apNext page = Some n \<longrightarrow> 0 \<le> n \<and> n \<le> e) \<and> (\<forall>r\<in>set (nullish (apRes page) []). flat_row r))"

definition page_rows :: "(int \<Rightarrow> conv_error + audit_page) \<Rightarrow> int \<Rightarrow> obj list" where
  "page_rows api e = (case api e of Inr page \<Rightarrow> nullish (apRes page) [] | Inl err \<Rightarrow> [])"

definition audit_measure :: "(int \<Rightarrow> conv_error + audit_page) \<Rightarrow> ((int \<times> nat \<times> obj list) \<times> (int \<times> nat \<times> obj list)) set" where
  "audit_measure api = measures [\<lambda>(e, k, rs). nat e,
     \<lambda>(e, k, rs). if filterDuplicate rs (page_rows api e) = [] then 0 else 1, \<lambda>(e, k, rs). 1 - k]"

lemma wf_audit_measure: "wf (audit_measure api)"
  by (simp add: audit_measure_def)

text \<open>What a returned position is: the first one of its page with the status, not after the end.\<close>

definition good_audit :: "int \<Rightarrow> conv_error + obj option \<Rightarrow> bool" where
  "good_audit endMts r = (case r of
       Inr (Some a) \<Rightarrow> get a ''status'' = VStr ''ACTIVE'' \<and> (\<exists>m. int_val (get a ''mtsUpdate'') = Some m \<and> m \<le> endMts)
     | _ \<Rightarrow> True)"

lemma findPositions_Some:
  "findPositions rows st endMts = Some a \<Longrightarrow>
     a \<in> set rows \<and> get a ''status'' = VStr st \<and> (\<exists>m. int_val (get a ''mtsUpdate'') = Some m \<and> m \<le> endMts)"
  by (auto simp: findPositions_def find_Some_iff split: option.splits)

lemma audit_loop_page:
  assumes "api e = Inr page"
  shows "audit_loop api endMts e k rs =
     (if apRes page = Some [] \<and> apNext page \<noteq> None \<and> apNext page \<noteq> Some 0 \<and> k < 1
      then audit_loop api endMts (the (apNext page)) (k + 1) rs
      else if nullish (apRes page) [] = [] then Some (Inr None)
      else if findPositions (nullish (apRes page) []) ''CLOSED'' endMts \<noteq> None then Some (Inr None)
      else if findPositions (nullish (apRes page) []) ''ACTIVE'' endMts \<noteq> None
        then Some (Inr (findPositions (nullish (apRes page) []) ''ACTIVE'' endMts))
      else if apNext page = None \<or> filterDuplicate rs (nullish (apRes page) []) = [] \<and> apNext page = Some e
        then Some (Inr None)
      else audit_loop api endMts (the (apNext page)) 0 (rs @ filterDuplicate rs (nullish (apRes page) [])))"
  by (subst audit_loop.simps) (simp only: assms sum.case Let_def)

lemma audit_loop_ends:
  assumes "pages_go_back api"
  shows "\<exists>r. audit_loop api endMts (fst st) (fst (snd st)) (snd (snd st)) = Some r \<and> good_audit endMts r"
proof (induction st rule: wf_induct_rule[OF wf_audit_measure[of api]])
  case (1 st)
  obtain e k rs where st: "st = (e, k, rs)" by (cases st)
  show ?case
  proof (cases "api e")
    case (Inl err)
    then show ?thesis by (simp add: st audit_loop.simps good_audit_def)
  next
    case (Inr page)
    have go_back: "\<And>n. apNext page = Some n \<Longrightarrow> 0 \<le> n \<and> n \<le> e"
      and flat: "\<And>r. r \<in> set (nullish (apRes page) []) \<Longrightarrow> flat_row r"
      using assms Inr by (auto simp: pages_go_back_def)
    have rows: "page_rows api e = nullish (apRes page) []" by (simp add: page_rows_def Inr)
    let ?res = "nullish (apRes page) []"
    have IH: "\<exists>r. audit_loop api endMts e' k' rs' = Some r \<and> good_audit endMts r"
      if "((e', k', rs'), st) \<in> audit_measure api" for e' k' rs'
      using "1.IH"[OF that] by simp
    note step = audit_loop_page[of api e page endMts k rs, OF Inr]
    consider (skip) n where "apRes page = Some []" "apNext page = Some n" "n \<noteq> 0" "k < 1"
      | (found) a where "audit_loop api endMts e k rs = Some (Inr (Some a))" "findPositions ?res ''ACTIVE'' endMts = Some a"
      | (stop) "audit_loop api endMts e k rs = Some (Inr None)"
      | (onward) n where "apNext page = Some n" "\<not> (filterDuplicate rs ?res = [] \<and> n = e)"
          "audit_loop api endMts e k rs = audit_loop api endMts n 0 (rs @ filterDuplicate rs ?res)"
      using step by (cases "apNext page"; cases "findPositions ?res ''ACTIVE'' endMts") (auto split: if_splits)
    then show ?thesis
    proof cases
      case skip
      have "audit_loop api endMts e k rs = audit_loop api endMts n (k + 1) rs"
        using skip step by simp
      moreover have "((n, k + 1, rs), st) \<in> audit_measure api"
        using skip go_back[OF skip(2)] rows
        by (cases "n = e") (auto simp: audit_measure_def st filterDuplicate_def split: list.splits)
      ultimately show ?thesis using IH st by simp
    next
      case onward
      have "((n, 0, rs @ filterDuplicate rs ?res), st) \<in> audit_measure api"
        using onward go_back[OF onward(1)] rows filterDuplicate_known[of ?res rs] flat
        by (cases "n = e") (auto simp: audit_measure_def st)
      then show ?thesis using IH onward(3) st by simp
    qed (auto simp: st good_audit_def dest: findPositions_Some)
  qed
qed


definition sample_audit :: "int \<Rightarrow> int \<Rightarrow> conv_error + audit_page" where
  "sample_audit i e = Inr (if i = 1 then
       (if e > 5 then \<lparr>apRes = Some [[(''id'', VNum 1), (''status'', VStr ''ACTIVE''), (''mtsUpdate'', VNum 9)]], apNext = Some 5\<rparr>
        else \<lparr>apRes = Some [[(''id'', VNum 1), (''status'', VStr ''ACTIVE''), (''mtsUpdate'', VNum 4)]], apNext = None\<rparr>)
     else \<lparr>apRes = Some [], apNext = None\<rparr>)"

lemma sample_audit_goes_back: "pages_go_back (sample_audit i)"
  by (auto simp: pages_go_back_def sample_audit_def flat_row_def get_def split: if_splits)


subsection \<open>Which positions are open\<close>

definition first_with_id :: "obj list \<Rightarrow> rat \<Rightarrow> obj option" where
  "first_with_id positions i = find (\<lambda>p. get p ''id'' = VNum i) positions"

text \<open>Frames with their snapshots and the positions closed in them, the newest first.\<close>

fun open_at :: "(obj list \<times> obj list) list \<Rightarrow> obj list \<Rightarrow> rat \<Rightarrow> obj option" where
  "open_at [] start i = first_with_id start i"
| "open_at ((snapshots, shut) # older) start i =
     (if isClosedPosition shut (VNum i) then None
      else case first_with_id snapshots i of Some p \<Rightarrow> Some p | None \<Rightarrow> open_at older start i)"

definition usd_at :: "(rat \<Rightarrow> obj option) \<Rightarrow> rat \<Rightarrow> rat option" where
  "usd_at opened i = Option.bind (opened i) (\<lambda>p. num_of (get p ''plUsd''))"

definition pl_at :: "(rat \<Rightarrow> obj option) \<Rightarrow> rat option" where
  "pl_at opened = (if dom (usd_at opened) = {} then None else Some (\<Sum>i\<in>dom (usd_at opened). the (usd_at opened i)))"

definition pl_frames :: "obj list \<Rightarrow> pl_val gmerged list \<Rightarrow> (obj list \<times> obj list) list" where
  "pl_frames atEnd items = map (\<lambda>(k, item). ((if k = 0 then atEnd else []) @ part_rows ''plGroupedByTimeframe'' item,
     part_rows ''positionsHistoryGroupedByTimeframe'' item)) (enumerate 0 items)"

text \<open>What the filter keeps.\<close>

definition ids_of :: "obj list \<Rightarrow> rat option list" where
  "ids_of positions = map (\<lambda>p. num_of (get p ''id'')) positions"

definition distinct_ids :: "obj list \<Rightarrow> bool" where
  "distinct_ids positions \<longleftrightarrow> distinct (ids_of positions) \<and> None \<notin> set (ids_of positions)"

lemma num_of_Some: "num_of v = Some x \<longleftrightarrow> v = VNum x"
  by (auto simp: num_of_def split: jsval.splits)

lemma first_with_id_simps [simp]:
  "first_with_id [] i = None"
  "first_with_id (ps @ [p]) i = (case first_with_id ps i of Some q \<Rightarrow> Some q | None \<Rightarrow> if get p ''id'' = VNum i then Some p else None)"
  by (simp_all add: first_with_id_def) (induction ps, auto)

lemma first_with_id_append: "first_with_id (ps @ qs) i = (case first_with_id ps i of Some q \<Rightarrow> Some q | None \<Rightarrow> first_with_id qs i)"
  by (induction ps) (auto simp: first_with_id_def)

lemma Some_in_ids: "Some i \<in> set (ids_of ps) \<longleftrightarrow> (\<exists>p\<in>set ps. get p ''id'' = VNum i)"
proof -
  have "Some i \<in> set (ids_of ps) \<longleftrightarrow> (\<exists>p\<in>set ps. num_of (get p ''id'') = Some i)"
    unfolding ids_of_def by (metis (mono_tags, lifting) image_iff list.set_map)
  then show ?thesis by (simp add: num_of_Some)
qed

lemma first_with_id_None: "first_with_id ps i = None \<longleftrightarrow> Some i \<notin> set (ids_of ps)"
  by (auto simp: first_with_id_def find_None_iff Some_in_ids)

lemma filterPositionsSnapshots_keeps:
  "distinct_ids (filterPositionsSnapshots ps shut) \<and>
     first_with_id (filterPositionsSnapshots ps shut) i = (if isClosedPosition shut (VNum i) then None else first_with_id ps i)"
proof (induction ps rule: rev_induct)
  case Nil
  show ?case by (simp add: filterPositionsSnapshots_def distinct_ids_def ids_of_def)
next
  case (snoc p ps)
  let ?kept = "filterPositionsSnapshots ps shut"
  have step: "filterPositionsSnapshots (ps @ [p]) shut =
      (if num_of (get p ''id'') \<noteq> None \<and> list_all (\<lambda>item. get item ''id'' \<noteq> get p ''id'') ?kept \<and>
         \<not> isClosedPosition shut (get p ''id'') then ?kept @ [p] else ?kept)"
    by (simp add: filterPositionsSnapshots_def)
  show ?case
  proof (cases "num_of (get p ''id'')")
    case None
    then have "get p ''id'' \<noteq> VNum i" by (auto simp: num_of_def)
    then show ?thesis using snoc step None by (auto split: option.splits)
  next
    case (Some j)
    then have j: "get p ''id'' = VNum j" by (simp add: num_of_Some)
    have fresh: "list_all (\<lambda>item. get item ''id'' \<noteq> get p ''id'') ?kept \<longleftrightarrow> Some j \<notin> set (ids_of ?kept)"
      by (auto simp: j list_all_iff Some_in_ids)
    have "distinct_ids (filterPositionsSnapshots (ps @ [p]) shut)"
      using snoc step fresh Some by (auto simp: distinct_ids_def ids_of_def)
    moreover have "first_with_id (filterPositionsSnapshots (ps @ [p]) shut) i =
        (if isClosedPosition shut (VNum i) then None else first_with_id (ps @ [p]) i)"
      using snoc step fresh Some j first_with_id_None[of ?kept j] by (auto split: option.splits)
    ultimately show ?thesis by simp
  qed
qed

text \<open>The sum over the kept positions is the one over the identifiers.\<close>

definition pl_entry :: "rat option \<Rightarrow> (string, rat) jsmap" where
  "pl_entry x = (case x of None \<Rightarrow> [] | Some u \<Rightarrow> [(''USD'', u)])"

lemma pl_sum_open:
  "distinct_ids ps \<Longrightarrow> finite (dom (usd_at (first_with_id ps))) \<and> pl_sum ps = pl_entry (pl_at (first_with_id ps))"
proof (induction ps rule: rev_induct)
  case Nil
  have "dom (usd_at (first_with_id [])) = {}" by (auto simp: usd_at_def)
  then show ?case by (simp add: pl_sum_def pl_entry_def pl_at_def del: first_with_id_simps dom_eq_empty_conv)
next
  case (snoc p ps)
  from snoc.prems have ps: "distinct_ids ps" and out: "num_of (get p ''id'') \<notin> set (ids_of ps)"
    and "num_of (get p ''id'') \<noteq> None" by (auto simp: distinct_ids_def ids_of_def)
  then obtain j where j: "num_of (get p ''id'') = Some j" by auto
  with out have fresh: "first_with_id ps j = None" by (simp add: first_with_id_None)
  from j have j: "get p ''id'' = VNum j" by (simp add: num_of_Some)
  let ?f = "usd_at (first_with_id ps)" and ?u = "num_of (get p ''plUsd'')"
  have upd: "usd_at (first_with_id (ps @ [p])) = ?f(j := ?u)"
    using j fresh by (auto simp: usd_at_def fun_eq_iff split: option.splits)
  have j_out: "?f j = None" using fresh by (simp add: usd_at_def)
  have IH: "finite (dom ?f)" "pl_sum ps = pl_entry (pl_at (first_with_id ps))" using snoc.IH[OF ps] by simp_all
  have sum: "pl_sum (ps @ [p]) = (case ?u of None \<Rightarrow> pl_sum ps | Some x \<Rightarrow> add_to ''USD'' x (pl_sum ps))"
    by (simp add: pl_sum_def split: option.splits)
  show ?case
  proof (cases ?u)
    case None
    then have "?f(j := ?u) = ?f" using j_out by (simp add: fun_eq_iff)
    with upd have "usd_at (first_with_id (ps @ [p])) = ?f" by (rule trans)
    then show ?thesis using IH sum None by (simp add: pl_at_def del: first_with_id_simps)
  next
    case (Some x)
    have "(\<Sum>i\<in>dom ?f. the ((?f(j \<mapsto> x)) i)) = (\<Sum>i\<in>dom ?f. the (?f i))"
      using j_out by (intro sum.cong) auto
    then have "pl_at (first_with_id (ps @ [p])) = Some ((case pl_at (first_with_id ps) of None \<Rightarrow> 0 | Some y \<Rightarrow> y) + x)"
      using IH(1) j_out Some by (auto simp: pl_at_def upd domIff simp del: first_with_id_simps)
    moreover have "finite (dom (usd_at (first_with_id (ps @ [p]))))"
      unfolding upd Some using IH(1) by (simp only: dom_fun_upd option.distinct if_False finite_insert)
    ultimately show ?thesis
      using IH sum Some by (auto simp: pl_entry_def add_to_def simp del: first_with_id_simps split: option.splits)
  qed
qed

subsection \<open>The frames\<close>

definition pl_row :: "obj list \<Rightarrow> (obj list \<times> obj list) list \<Rightarrow> pl_val gmerged list \<Rightarrow> nat \<Rightarrow> (int \<times> (string, rat) jsmap) option" where
  "pl_row atStart frames items k =
     map_option (\<lambda>x. (mMts (items ! k), [(''USD'', x)])) (pl_at (open_at (drop k frames) atStart))"

lemma getPLByTimeframe_step:
  assumes "first_with_id prev = open_at frames atStart"
  shows "\<exists>now. getPLByTimeframe atEnd (prev, k) item = ((now, k - 1), pl_entry (pl_at (first_with_id now))) \<and>
    first_with_id now = open_at (((if k = 0 then atEnd else []) @ part_rows ''plGroupedByTimeframe'' item,
       part_rows ''positionsHistoryGroupedByTimeframe'' item) # frames) atStart"
proof -
  let ?ps = "(if k = 0 then atEnd else []) @ part_rows ''plGroupedByTimeframe'' item @ prev"
  let ?now = "filterPositionsSnapshots ?ps (part_rows ''positionsHistoryGroupedByTimeframe'' item)"
  have "getPLByTimeframe atEnd (prev, k) item = ((?now, k - 1), pl_entry (pl_at (first_with_id ?now)))"
    using filterPositionsSnapshots_keeps pl_sum_open by (simp add: getPLByTimeframe_def Let_def)
  moreover have "first_with_id ?now i = open_at (((if k = 0 then atEnd else []) @ part_rows ''plGroupedByTimeframe'' item,
       part_rows ''positionsHistoryGroupedByTimeframe'' item) # frames) atStart i" for i
    using filterPositionsSnapshots_keeps[of ?ps _ i] assms
    by (simp add: first_with_id_append append_assoc[symmetric] del: append_assoc split: option.splits)
  ultimately show ?thesis by (metis (no_types) ext)
qed

lemma reduce_pl_frames:
  assumes "first_with_id prev = open_at (drop (length pre) (pl_frames atEnd (pre @ suf))) atStart"
  shows "reduce_items_right (getPLByTimeframe atEnd) (rev pre) (prev, length pre - 1) accum =
    List.map_filter (pl_row atStart (pl_frames atEnd (pre @ suf)) (pre @ suf)) [0..<length pre] @ accum"
  using assms
proof (induction pre arbitrary: prev suf accum rule: rev_induct)
  case (snoc item pre)
  let ?fs = "pl_frames atEnd (pre @ item # suf)"
  have len: "length ?fs = length (pre @ item # suf)" by (simp add: pl_frames_def)
  have nth: "?fs ! length pre = ((if length pre = 0 then atEnd else []) @ part_rows ''plGroupedByTimeframe'' item,
      part_rows ''positionsHistoryGroupedByTimeframe'' item)"
    by (simp add: pl_frames_def nth_enumerate_eq nth_append)
  then have drop: "drop (length pre) ?fs = ((if length pre = 0 then atEnd else []) @ part_rows ''plGroupedByTimeframe'' item,
      part_rows ''positionsHistoryGroupedByTimeframe'' item) # drop (Suc (length pre)) ?fs"
    using len by (metis Cons_nth_drop_Suc add_Suc_right length_Cons length_append less_add_Suc1)
  from snoc.prems have "first_with_id prev = open_at (drop (Suc (length pre)) ?fs) atStart" by simp
  from getPLByTimeframe_step[OF this, of atEnd "length pre" item]
  obtain now where now: "getPLByTimeframe atEnd (prev, length pre) item = ((now, length pre - 1), pl_entry (pl_at (first_with_id now)))"
    "first_with_id now = open_at (drop (length pre) ?fs) atStart" by (auto simp: drop)
  let ?accum = "(case pl_row atStart ?fs (pre @ item # suf) (length pre) of Some r \<Rightarrow> r # accum | None \<Rightarrow> accum)"
  have "reduce_items_right (getPLByTimeframe atEnd) (rev (pre @ [item])) (prev, length (pre @ [item]) - 1) accum =
      reduce_items_right (getPLByTimeframe atEnd) (rev pre) (now, length pre - 1) ?accum"
    using now by (auto simp: pl_row_def pl_entry_def nth_append split: option.splits)
  also have "\<dots> = List.map_filter (pl_row atStart ?fs (pre @ item # suf)) [0..<length pre] @ ?accum"
    using snoc.IH[of now "item # suf"] now(2) by simp
  finally show ?case by (simp add: List.map_filter_def split: option.splits)
qed (simp add: List.map_filter_def)

text \<open>
  C35: the profit or loss of a frame is the sum over the identifiers that are open at it: of each the newest
  snapshot counts, going back from the frame to the start, unless a frame on the way says that it was closed.
\<close>

theorem pl_of_open_positions:
  "calcGroupedData (getPLByTimeframe atEnd) (atStart, length (mergeData data) - 1) True data =
     List.map_filter (\<lambda>k. map_option (\<lambda>x. (mMts (mergeData data ! k), [(''USD'', x)]))
        (pl_at (open_at (drop k (pl_frames atEnd (mergeData data))) atStart)))
       [0..<length (mergeData data)]"
proof -
  let ?d = "mergeData data"
  have "drop (length ?d) (pl_frames atEnd ?d) = []" by (simp add: pl_frames_def)
  then have "first_with_id atStart = open_at (drop (length ?d) (pl_frames atEnd (?d @ []))) atStart" by (simp add: fun_eq_iff)
  from reduce_pl_frames[OF this, of "[]"] show ?thesis
    by (simp add: calcGroupedData_def Let_def pl_row_def[abs_def])
qed

text \<open>When the exchange can not be asked, the result is the one without positions from it.\<close>

lemma exchange_failure_ignored:
  "getPLSnapshot env cal tf start e (d\<lparr>pdActive := Inl err\<rparr>) = getPLSnapshot env cal tf start e (d\<lparr>pdActive := Inr None\<rparr>)"
proof -
  have "try_catch (getActivePositions env (Inl err) e True) (\<lambda>err. give []) =
      try_catch (getActivePositions env (Inr None) e True) (\<lambda>err. give [])"
    by (rule ext) (simp add: getActivePositions_def and_then_def try_catch_def)
  then show ?thesis by (simp add: getPLSnapshot_def)
qed

end
