(* ===== verification/Report_Summary.thy ===== *)
theory Report_Summary
  imports Report_WinLoss
begin

text \<open>
  \<^verbatim>\<open>sync/summary.by.asset/index.js\<close>: what a user has of each currency at the end of a range and how it
  changed, with totals. Rows are arguments; the mean and the standard deviation of \<^verbatim>\<open>mathjs\<close>, which
  throw on an empty list, and the square root of 365 are parameters.
\<close>

record stats_env =
  stStd :: "rat option list \<Rightarrow> string + rat"
  stMean :: "rat option list \<Rightarrow> string + rat"
  stSqrt365 :: rat

definition ledgerMarginFundingPaymentCat :: rat where "ledgerMarginFundingPaymentCat = 28"

definition ledgerTradingFeeCat :: rat where "ledgerTradingFeeCat = 201"

definition ledgerFeeCats :: "rat list" where
  "ledgerFeeCats = [ledgerTradingFeeCat, 204, 207, 222, 224, 228, 241, 243, 251, 254, 255, 258, 905]"

definition allUsedLedgerCats :: "rat list" where
  "allUsedLedgerCats = ledgerMarginFundingPaymentCat # ledgerFeeCats"

subsection \<open>By asset\<close>

definition calcFieldByName :: "obj list \<Rightarrow> string \<Rightarrow> bool \<Rightarrow> rat" where
  "calcFieldByName wallets fieldName isAbs = foldl (\<lambda>accum curr. case num_of (get curr fieldName) of
       None \<Rightarrow> accum
     | Some x \<Rightarrow> accum + (if isAbs then \<bar>x\<bar> else x)) 0 wallets"

definition set_of_values :: "jsval list \<Rightarrow> jsval list" where
  "set_of_values vs = rev (remdups (rev vs))"

definition of_currency :: "string \<Rightarrow> jsval \<Rightarrow> obj list \<Rightarrow> obj list" where
  "of_currency fieldName ccy rows = filter (\<lambda>r. get r fieldName = ccy) rows"

text \<open>A map from categories to the rows of the currency in them.\<close>

definition makeLedgerMap :: "obj list \<Rightarrow> jsval \<Rightarrow> rat list \<Rightarrow> (rat, obj list) jsmap" where
  "makeLedgerMap ledgers ccy categories =
     foldl (\<lambda>m ledger. case num_of (get ledger ''_category'') of
         None \<Rightarrow> m
       | Some c \<Rightarrow> if get ledger ''currency'' = ccy \<and> map_has m c
           then AList.update c (nullish (map_of m c) [] @ [ledger]) m else m)
       (foldl (\<lambda>m c. AList.update c [] m) [] categories) ledgers"

record asset_row =
  arCurrency :: jsval
  arBalance :: rat
  arBalanceUsd :: rat
  arBalanceChange :: rat
  arBalanceChangePerc :: rat
  arBalanceChangeUsd :: rat
  arVolume :: rat
  arVolumeUsd :: rat
  arTradingFees :: rat
  arTradingFeesUsd :: rat
  arAllFeesUsd :: rat
  arMarginFundingPayment :: rat
  arStartUsd :: rat

record summary_rows =
  srTrades :: "obj list"
  srLedgers :: "obj list"
  srStartWallets :: "obj list"
  srEndWallets :: "obj list"
  srWithdrawals :: "obj list"
  srDeposits :: "obj list"

definition asset_row_of :: "summary_rows \<Rightarrow> jsval \<Rightarrow> asset_row" where
  "asset_row_of d currency =
     (let startW = of_currency ''currency'' currency (srStartWallets d); endW = of_currency ''currency'' currency (srEndWallets d);
          startBalance = calcFieldByName startW ''balance'' False;
          startUsd = calcFieldByName startW ''balanceUsd'' False;
          endBalance = calcFieldByName endW ''balance'' False;
          endUsd = calcFieldByName endW ''balanceUsd'' False;
          actualRate = (if currency = VStr ''USD'' then 1 else if endBalance = 0 then 0 else endUsd / endBalance);
          ledgerMap = makeLedgerMap (srLedgers d) currency allUsedLedgerCats;
          ledgers_of = (\<lambda>cat. nullish (map_of ledgerMap cat) []);
          allFeeLedgers = foldl (\<lambda>accum cat. accum @ ledgers_of cat) [] ledgerFeeCats;
          trades = of_currency ''baseCurrency'' currency (srTrades d);
          balanceChange = endBalance - startBalance
      in \<lparr>arCurrency = currency, arBalance = endBalance, arBalanceUsd = endUsd, arBalanceChange = balanceChange,
          arBalanceChangePerc = (if startBalance = 0 then 0 else balanceChange / startBalance * 100),
          arBalanceChangeUsd = balanceChange * actualRate,
          arVolume = calcFieldByName trades ''execAmount'' True,
          arVolumeUsd = calcFieldByName trades ''amountUsd'' False,
          arTradingFees = \<bar>calcFieldByName (ledgers_of ledgerTradingFeeCat) ''amount'' False\<bar>,
          arTradingFeesUsd = \<bar>calcFieldByName (ledgers_of ledgerTradingFeeCat) ''amountUsd'' False\<bar>,
          arAllFeesUsd = \<bar>calcFieldByName allFeeLedgers ''amountUsd'' False\<bar>,
          arMarginFundingPayment = calcFieldByName (ledgers_of ledgerMarginFundingPaymentCat) ''amount'' False,
          arStartUsd = startUsd\<rparr>)"

definition nothing_to_show :: "asset_row \<Rightarrow> bool" where
  "nothing_to_show r \<longleftrightarrow> arBalanceUsd r < 1 / 100 \<and> arVolume r \<le> 0 \<and> arBalanceChange r \<le> 0 \<and> arTradingFees r \<le> 0 \<and>
     arMarginFundingPayment r \<le> 0"

definition summary_currencies :: "summary_rows \<Rightarrow> jsval list" where
  "summary_currencies d = set_of_values (map (\<lambda>l. get l ''currency'') (srLedgers d) @ map (\<lambda>w. get w ''currency'') (srEndWallets d))"

definition calcSummaryByAsset :: "summary_rows \<Rightarrow> asset_row list" where
  "calcSummaryByAsset d = filter (\<lambda>r. \<not> nothing_to_show r) (map (asset_row_of d) (summary_currencies d))"

subsection \<open>Totals\<close>

type_synonym daily_rows = "(int \<times> (string, rat) jsmap) list"

definition balance_of_day :: "int \<times> (string, rat) jsmap \<Rightarrow> rat" where
  "balance_of_day item = nullish (map_of (snd item) ''balanceWithoutMovementsUsd'') 0"

definition calcPLUsd :: "daily_rows \<Rightarrow> rat" where
  "calcPLUsd daily = (if daily = [] then 0 else balance_of_day (hd daily) - balance_of_day (last daily))"

definition getDailyReturns :: "daily_rows \<Rightarrow> rat option list" where
  "getDailyReturns daily = map (\<lambda>item. map_of (snd item) ''returns'') daily"

record return_stats =
  rsVolatilityPerc :: rat
  rsSharpeRatio :: rat
  rsSortinoRatio :: rat

definition calcDailyReturnStatistics :: "stats_env \<Rightarrow> rat option list \<Rightarrow> string + return_stats" where
  "calcDailyReturnStatistics env dailyReturns =
     bind_err (stStd env dailyReturns) (\<lambda>returnStd.
     bind_err (stMean env dailyReturns) (\<lambda>avgReturn.
       let negativeReturns = filter (\<lambda>r. case r of Some x \<Rightarrow> x < 0 | None \<Rightarrow> False) dailyReturns in
       bind_err (if negativeReturns \<noteq> [] then stStd env negativeReturns else Inr (1 / 100000)) (\<lambda>downsideStd.
       Inr \<lparr>rsVolatilityPerc = returnStd * stSqrt365 env * 100,
         rsSharpeRatio = (if returnStd \<noteq> 0 then avgReturn / returnStd * stSqrt365 env else 0),
         rsSortinoRatio = (if downsideStd \<noteq> 0 then avgReturn / downsideStd * stSqrt365 env else 0)\<rparr>)))"

text \<open>From the oldest day on: the peak so far and the largest fall from a peak, as a share of the peak.\<close>

definition drawdown_step :: "rat \<times> rat \<Rightarrow> rat \<Rightarrow> rat \<times> rat" where
  "drawdown_step st balance =
     (let peak = (if balance > fst st then balance else fst st);
          drawdown = (if peak \<noteq> 0 then (peak - balance) / peak else 0)
      in (peak, if drawdown > snd st then drawdown else snd st))"

definition calcMaxDrawdownPerc :: "daily_rows \<Rightarrow> rat" where
  "calcMaxDrawdownPerc daily = (if daily = [] then 0
     else snd (foldl drawdown_step (balance_of_day (last daily), 0) (rev (map balance_of_day daily))) * 100)"

record totals =
  toBalanceUsd :: rat
  toBalanceChangeUsd :: rat
  toBalanceChangePerc :: rat
  toVolumeUsd :: rat
  toTradingFeesUsd :: rat
  toAllFeesUsd :: rat
  toStartUsd :: rat
  toDepositsWithdrawalsUsd :: rat
  toPlUsd :: rat
  toStats :: return_stats
  toMaxDrawdownPerc :: rat

definition add_asset :: "totals \<Rightarrow> asset_row \<Rightarrow> totals" where
  "add_asset accum r =
     (let t = accum\<lparr>toBalanceUsd := toBalanceUsd accum + arBalanceUsd r,
            toBalanceChangeUsd := toBalanceChangeUsd accum + arBalanceChangeUsd r,
            toVolumeUsd := toVolumeUsd accum + arVolumeUsd r,
            toTradingFeesUsd := toTradingFeesUsd accum + arTradingFeesUsd r,
            toAllFeesUsd := toAllFeesUsd accum + arAllFeesUsd r,
            toStartUsd := toStartUsd accum + arStartUsd r\<rparr>
      in if toStartUsd t \<noteq> 0 then t\<lparr>toBalanceChangePerc := toBalanceChangeUsd t / toStartUsd t * 100\<rparr> else t)"

definition calcTotal :: "stats_env \<Rightarrow> asset_row list \<Rightarrow> obj list \<Rightarrow> obj list \<Rightarrow> daily_rows \<Rightarrow> string + totals" where
  "calcTotal env summaryByAsset withdrawals deposits daily =
     bind_err (calcDailyReturnStatistics env (getDailyReturns daily)) (\<lambda>stats.
       Inr (foldl add_asset \<lparr>toBalanceUsd = 0, toBalanceChangeUsd = 0, toBalanceChangePerc = 0, toVolumeUsd = 0,
         toTradingFeesUsd = 0, toAllFeesUsd = 0, toStartUsd = 0,
         toDepositsWithdrawalsUsd = calcFieldByName withdrawals ''amountUsd'' False + calcFieldByName deposits ''amountUsd'' False,
         toPlUsd = calcPLUsd daily, toStats = stats, toMaxDrawdownPerc = calcMaxDrawdownPerc daily\<rparr> summaryByAsset))"

text \<open>The range is the last thirty days by default; the caller omits what was for the totals only.\<close>

definition default_start :: "int \<Rightarrow> int option \<Rightarrow> int" where
  "default_start e start = nullish start (e - 30 * 24 * 60 * 60 * 1000)"

definition getSummaryByAsset ::
  "stats_env \<Rightarrow> ccy_env \<Rightarrow> calendar \<Rightarrow> date_fields \<Rightarrow> int option \<Rightarrow> int \<Rightarrow> bool \<Rightarrow> synonyms \<Rightarrow> win_loss_data \<Rightarrow> summary_rows
    \<Rightarrow> string + asset_row list \<times> totals" where
  "getSummaryByAsset st env cal df startArg e isUnrealizedProfitExcluded syn wd d =
     (let start = default_start e startArg; rows = calcSummaryByAsset d;
          daily = getWinLossVSAccountBalance env cal df Day start e True isUnrealizedProfitExcluded False syn wd
      in bind_err (calcTotal st rows (srWithdrawals d) (srDeposits d) daily) (\<lambda>total. Inr (rows, total)))"

end
