(* ===== verification/Report_Summary_Props.thy ===== *)
theory Report_Summary_Props
  imports Report_Summary
begin

text \<open>The largest fall of the balance, the fees of an asset and the totals.\<close>

subsection \<open>The largest fall\<close>

definition fall :: "rat list \<Rightarrow> nat \<Rightarrow> nat \<Rightarrow> rat" where
  "fall bs i j = (bs ! i - bs ! j) / bs ! i"

definition peak_so_far :: "rat list \<Rightarrow> nat \<Rightarrow> rat \<Rightarrow> bool" where
  "peak_so_far bs k peak \<longleftrightarrow> (\<forall>i<k. bs ! i \<le> peak) \<and> (\<exists>i<k. peak = bs ! i)"

definition largest_fall :: "rat list \<Rightarrow> nat \<Rightarrow> rat \<Rightarrow> bool" where
  "largest_fall bs k d \<longleftrightarrow> (\<forall>j<k. \<forall>i\<le>j. fall bs i j \<le> d) \<and> (\<exists>j<k. \<exists>i\<le>j. d = fall bs i j)"

lemma fall_from_peak:
  assumes "0 < bs ! i" "bs ! i \<le> peak" "0 < bs ! j"
  shows "fall bs i j \<le> (peak - bs ! j) / peak"
proof -
  have "bs ! j / peak \<le> bs ! j / bs ! i" using assms by (intro divide_left_mono) auto
  then show ?thesis using assms by (simp add: fall_def diff_divide_distrib)
qed

lemma drawdown_step_keeps:
  assumes pos: "\<forall>i<length bs. 0 < bs ! i" and k: "k < length bs"
    and peak: "peak_so_far bs k p" and d: "largest_fall bs k d"
  shows "peak_so_far bs (Suc k) (fst (drawdown_step (p, d) (bs ! k))) \<and>
    largest_fall bs (Suc k) (snd (drawdown_step (p, d) (bs ! k)))"
proof -
  let ?p = "if bs ! k > p then bs ! k else p"
  let ?d = "(?p - bs ! k) / ?p"
  have p: "peak_so_far bs (Suc k) ?p"
    using peak by (auto simp: peak_so_far_def less_Suc_eq)
  then have p_pos: "0 < ?p" using pos k by (auto simp: peak_so_far_def)
  have new: "fall bs i k \<le> ?d" if "i \<le> k" for i
    using p pos k that by (intro fall_from_peak) (auto simp: peak_so_far_def)
  from p obtain i where i: "i \<le> k" "?p = bs ! i" by (auto simp: peak_so_far_def less_Suc_eq_le)
  have att: "?d = fall bs i k" by (simp only: i(2) fall_def)
  have "largest_fall bs (Suc k) (if ?d > d then ?d else d)"
  proof (cases "?d > d")
    case True
    have "fall bs i' j \<le> ?d" if "j < Suc k" "i' \<le> j" for i' j
    proof (cases "j = k")
      case False
      then have "fall bs i' j \<le> d" using d that by (simp add: largest_fall_def)
      then show ?thesis using True by linarith
    qed (use new that in simp)
    then show ?thesis using True att i(1) by (simp only: largest_fall_def if_True) blast
  next
    case False
    have "fall bs i' j \<le> d" if "j < Suc k" "i' \<le> j" for i' j
    proof (cases "j = k")
      case True
      then have "fall bs i' j \<le> ?d" using new that by simp
      also have "?d \<le> d" using False by (simp only: not_less)
      finally show ?thesis .
    next
      case j: False
      then show ?thesis using d that by (simp add: largest_fall_def)
    qed
    moreover have "\<exists>j<Suc k. \<exists>i\<le>j. d = fall bs i j" using d by (auto simp: largest_fall_def intro: less_SucI)
    ultimately show ?thesis using False by (simp only: largest_fall_def if_False) blast
  qed
  moreover have "(?p \<noteq> 0) = True" using less_imp_neq[OF p_pos] by (metis (full_types))
  then have "drawdown_step (p, d) (bs ! k) = (?p, if ?d > d then ?d else d)"
    by (simp only: drawdown_step_def Let_def fst_conv snd_conv if_True)
  ultimately show ?thesis using p by (simp only: fst_conv snd_conv)
qed

lemma drawdown_all:
  assumes pos: "\<forall>i<length bs. 0 < bs ! i" and k: "0 < k" "k \<le> length bs"
  shows "peak_so_far bs k (fst (foldl drawdown_step (bs ! 0, 0) (take k bs))) \<and>
    largest_fall bs k (snd (foldl drawdown_step (bs ! 0, 0) (take k bs)))"
  using k
proof (induction k)
  case (Suc k)
  have step: "foldl drawdown_step (bs ! 0, 0) (take (Suc k) bs) =
      drawdown_step (foldl drawdown_step (bs ! 0, 0) (take k bs)) (bs ! k)"
    using Suc.prems by (simp add: take_Suc_conv_app_nth)
  show ?case
  proof (cases "k = 0")
    case True
    then show ?thesis
      unfolding step by (simp add: drawdown_step_def Let_def peak_so_far_def largest_fall_def fall_def)
  next
    case False
    with Suc drawdown_step_keeps[OF pos] show ?thesis
      unfolding step by (metis Suc_le_lessD bot_nat_0.not_eq_extremum less_imp_le prod.collapse)
  qed
qed simp

text \<open>
  C36: while the balance stays positive, the largest fall is the greatest loss, in per cent, between any day and
  a later one, and lies between 0 and 100.
\<close>

theorem max_drawdown:
  assumes "daily \<noteq> []" "\<forall>item\<in>set daily. 0 < balance_of_day item"
  defines "bs \<equiv> rev (map balance_of_day daily)"
  shows "0 \<le> calcMaxDrawdownPerc daily \<and> calcMaxDrawdownPerc daily < 100 \<and>
    (\<forall>j<length bs. \<forall>i\<le>j. 100 * (bs ! i - bs ! j) / bs ! i \<le> calcMaxDrawdownPerc daily) \<and>
    (\<exists>j<length bs. \<exists>i\<le>j. calcMaxDrawdownPerc daily = 100 * (bs ! i - bs ! j) / bs ! i)"
proof -
  let ?d = "snd (foldl drawdown_step (bs ! 0, 0) bs)"
  have pos: "\<forall>i<length bs. 0 < bs ! i"
    using assms(2) by (auto simp: bs_def rev_nth)
  have len: "0 < length bs" using assms(1) by (simp add: bs_def)
  have first: "bs ! 0 = balance_of_day (last daily)"
    using assms(1) by (simp add: bs_def rev_nth last_conv_nth)
  have eq: "calcMaxDrawdownPerc daily = ?d * 100"
    using assms(1) first by (simp add: calcMaxDrawdownPerc_def bs_def)
  have d: "largest_fall bs (length bs) ?d"
    using drawdown_all[OF pos len] by simp
  then obtain i j where att: "j < length bs" "i \<le> j" "?d = fall bs i j" by (auto simp: largest_fall_def)
  have "0 < bs ! i" "0 < bs ! j" using pos att by auto
  then have "?d < 1" by (simp add: att(3) fall_def field_simps)
  moreover have "0 \<le> ?d"
    using d att(1) by (auto simp: largest_fall_def fall_def dest!: spec[of _ j])
  moreover have "100 * (bs ! i' - bs ! j') / bs ! i' = fall bs i' j' * 100" for i' j'
    by (simp add: fall_def)
  ultimately show ?thesis
    using d by (simp only: eq largest_fall_def) (auto simp: eq)
qed

definition sample_days :: daily_rows where
  "sample_days = [(3, [(''balanceWithoutMovementsUsd'', 90)]), (2, [(''balanceWithoutMovementsUsd'', 60)]),
     (1, [(''balanceWithoutMovementsUsd'', 80)])]"

theorem max_drawdown_witness:
  "0 \<le> calcMaxDrawdownPerc sample_days \<and> calcMaxDrawdownPerc sample_days < 100"
  using max_drawdown[of sample_days] by (simp add: sample_days_def balance_of_day_def)

text \<open>
  The balance is taken without movements, so an account that was empty and only loses has a balance below
  zero from then on, with a peak of zero, and no fall is seen.
\<close>

lemma no_drawdown_from_zero:
  "calcMaxDrawdownPerc [(2, [(''balanceWithoutMovementsUsd'', - 90)]), (1, [(''balanceWithoutMovementsUsd'', - 10)]),
     (0, [(''balanceWithoutMovementsUsd'', 0)])] = 0"
  by (simp add: calcMaxDrawdownPerc_def balance_of_day_def drawdown_step_def)

subsection \<open>Fees\<close>

definition field_value :: "string \<Rightarrow> obj \<Rightarrow> rat" where
  "field_value f r = nullish (num_of (get r f)) 0"

lemma calcFieldByName_sum: "calcFieldByName xs f False = sum_list (map (field_value f) xs)"
proof -
  have "foldl (\<lambda>accum curr. case num_of (get curr f) of None \<Rightarrow> accum | Some x \<Rightarrow> accum + (if False then \<bar>x\<bar> else x)) s xs =
      s + sum_list (map (field_value f) xs)" for s :: rat
    by (induction xs arbitrary: s) (simp_all add: field_value_def split: option.splits)
  from this[of 0] show ?thesis by (simp add: calcFieldByName_def)
qed

lemma map_of_empty_cats: "map_of (foldl (\<lambda>m c. AList.update c [] m) m cats) k = (if k \<in> set cats then Some [] else map_of m k)"
  by (induction cats arbitrary: m) (auto simp: AList.update_conv')

text \<open>The map has for each category the rows of the currency in it, in their order.\<close>

lemma makeLedgerMap_lookup:
  "map_of (makeLedgerMap ledgers ccy cats) c = (if c \<in> set cats
     then Some (filter (\<lambda>l. get l ''currency'' = ccy \<and> num_of (get l ''_category'') = Some c) ledgers) else None)"
proof (induction ledgers arbitrary: c rule: rev_induct)
  case Nil
  show ?case by (simp add: makeLedgerMap_def map_of_empty_cats)
next
  case (snoc l ledgers)
  let ?m = "makeLedgerMap ledgers ccy cats"
  have step: "makeLedgerMap (ledgers @ [l]) ccy cats = (case num_of (get l ''_category'') of
       None \<Rightarrow> ?m
     | Some k \<Rightarrow> if get l ''currency'' = ccy \<and> map_has ?m k
         then AList.update k (nullish (map_of ?m k) [] @ [l]) ?m else ?m)"
    by (simp only: makeLedgerMap_def foldl_append foldl.simps)
  show ?case
  proof (cases "num_of (get l ''_category'')")
    case None
    then show ?thesis using snoc step by simp
  next
    case (Some k)
    show ?thesis
    proof (cases "get l ''currency'' = ccy \<and> map_has ?m k")
      case True
      then have "k \<in> set cats" using snoc[of k] by (auto simp: map_has_def split: if_splits)
      with True Some step snoc show ?thesis by (simp add: AList.update_conv')
    next
      case False
      then have "get l ''currency'' = ccy \<longrightarrow> k \<notin> set cats" using snoc[of k] by (auto simp: map_has_def)
      with False Some step snoc show ?thesis by auto
    qed
  qed
qed

lemma sum_by_category:
  "distinct cats \<Longrightarrow> sum_list (map g (foldl (\<lambda>accum cat. accum @ filter (\<lambda>l. P l \<and> c_of l = Some cat) ls) init cats)) =
     sum_list (map g init) + sum_list (map g (filter (\<lambda>l. P l \<and> c_of l \<in> Some ` set cats) ls))"
  for g :: "'a \<Rightarrow> rat"
proof (induction cats arbitrary: init)
  case (Cons cat cats)
  have "sum_list (map g (filter (\<lambda>l. P l \<and> c_of l \<in> Some ` set (cat # cats)) ls)) =
      sum_list (map g (filter (\<lambda>l. P l \<and> c_of l = Some cat) ls)) +
      sum_list (map g (filter (\<lambda>l. P l \<and> c_of l \<in> Some ` set cats) ls))"
    using Cons.prems by (induction ls) auto
  with Cons show ?case by simp
qed simp

text \<open>
  The fees of an asset in dollars are, without their sign, those of all its ledgers in one of the
  categories of fees, each counted once; trading fees are those of one category.
\<close>

theorem asset_fees:
  "arAllFeesUsd (asset_row_of d ccy) = \<bar>sum_list (map (field_value ''amountUsd'')
      (filter (\<lambda>l. get l ''currency'' = ccy \<and> num_of (get l ''_category'') \<in> Some ` set ledgerFeeCats) (srLedgers d)))\<bar> \<and>
   arTradingFees (asset_row_of d ccy) = \<bar>sum_list (map (field_value ''amount'')
      (filter (\<lambda>l. get l ''currency'' = ccy \<and> num_of (get l ''_category'') = Some 201) (srLedgers d)))\<bar>"
proof -
  let ?m = "makeLedgerMap (srLedgers d) ccy allUsedLedgerCats"
  have at: "nullish (map_of ?m c) [] = filter (\<lambda>l. get l ''currency'' = ccy \<and> num_of (get l ''_category'') = Some c) (srLedgers d)"
    if "c \<in> set ledgerFeeCats" for c
    using that by (simp add: makeLedgerMap_lookup allUsedLedgerCats_def)
  have "foldl (\<lambda>accum cat. accum @ nullish (map_of ?m cat) []) init cats =
      foldl (\<lambda>accum cat. accum @ filter (\<lambda>l. get l ''currency'' = ccy \<and> num_of (get l ''_category'') = Some cat) (srLedgers d)) init cats"
    if "set cats \<subseteq> set ledgerFeeCats" for init cats
    using that by (induction cats arbitrary: init) (simp_all add: at)
  moreover have "distinct ledgerFeeCats" by (simp add: ledgerFeeCats_def ledgerTradingFeeCat_def)
  moreover have "201 \<in> set ledgerFeeCats" by (simp add: ledgerFeeCats_def ledgerTradingFeeCat_def)
  ultimately show ?thesis
    by (simp add: asset_row_of_def Let_def calcFieldByName_sum sum_by_category at ledgerTradingFeeCat_def)
qed

subsection \<open>Totals\<close>

lemma add_assets:
  "toBalanceUsd (foldl add_asset t rows) = toBalanceUsd t + sum_list (map arBalanceUsd rows)"
  "toBalanceChangeUsd (foldl add_asset t rows) = toBalanceChangeUsd t + sum_list (map arBalanceChangeUsd rows)"
  "toStartUsd (foldl add_asset t rows) = toStartUsd t + sum_list (map arStartUsd rows)"
  "toAllFeesUsd (foldl add_asset t rows) = toAllFeesUsd t + sum_list (map arAllFeesUsd rows)"
  "toMaxDrawdownPerc (foldl add_asset t rows) = toMaxDrawdownPerc t" "toPlUsd (foldl add_asset t rows) = toPlUsd t"
  by (induction rows arbitrary: t) (simp_all add: add_asset_def Let_def)

lemma add_assets_perc:
  "rows \<noteq> [] \<Longrightarrow> toStartUsd (foldl add_asset t rows) \<noteq> 0 \<Longrightarrow>
     toBalanceChangePerc (foldl add_asset t rows) = toBalanceChangeUsd (foldl add_asset t rows) / toStartUsd (foldl add_asset t rows) * 100"
  by (induction rows rule: rev_induct) (auto simp: add_asset_def Let_def)

text \<open>
  The totals of a summary are the sums over the assets that it shows, and the change in per cent is the
  change over what these were worth at the start.
\<close>

theorem summary_totals:
  assumes "getSummaryByAsset st env cal df startArg e excl syn wd d = Inr (rows, tot)"
  shows "toBalanceUsd tot = sum_list (map arBalanceUsd rows) \<and> toAllFeesUsd tot = sum_list (map arAllFeesUsd rows) \<and>
    toBalanceChangeUsd tot = sum_list (map arBalanceChangeUsd rows) \<and>
    toBalanceChangePerc tot = (if sum_list (map arStartUsd rows) = 0 then toBalanceChangePerc tot
      else sum_list (map arBalanceChangeUsd rows) / sum_list (map arStartUsd rows) * 100)"
proof -
  from assms obtain t where t: "rows = calcSummaryByAsset d" "tot = foldl add_asset t rows"
    "toBalanceUsd t = 0" "toBalanceChangeUsd t = 0" "toStartUsd t = 0" "toAllFeesUsd t = 0"
    by (auto simp: getSummaryByAsset_def calcTotal_def Let_def bind_err_eq_Inr)
  then show ?thesis
    using add_assets_perc[of rows t] by (cases "rows = []") (simp_all add: add_assets)
qed

end
