(* ===== verification/Colls_Conf.thy ===== *)
theory Colls_Conf
  imports Js_Util
begin

text \<open>
  \<^verbatim>\<open>sync/colls.accessors/public.colls.conf.accessors.js\<close>: which public data a user wants to have synchronised,
  and public data from the copy where they are configured, from the exchange where not. The table has its
  rows in the order of insertion; the user that the authenticator verified is an argument.
\<close>

record conf =
  cfSymbol :: string
  cfStart :: jsval
  cfTimeframe :: "string option"

record conf_row =
  crId :: nat
  crName :: string
  crUser :: int
  crConf :: conf

record conf_db =
  cdRows :: "conf_row list"
  cdNext :: nat

definition CANDLES_CONF :: string where "CANDLES_CONF = ''candlesConf''"
definition STATUS_MESSAGES_CONF :: string where "STATUS_MESSAGES_CONF = ''statusMessagesConf''"

definition confNamesMap :: "(string \<times> string) list" where
  "confNamesMap = [(CANDLES_CONF, ''candles''), (STATUS_MESSAGES_CONF, ''statusMessages''),
     (''tickersHistoryConf'', ''tickersHistory''), (''publicTradesConf'', ''publicTrades'')]"

definition isCandlesConfs :: "string \<Rightarrow> bool" where "isCandlesConfs confName \<longleftrightarrow> confName = CANDLES_CONF"

definition isStatusMessagesConfs :: "string \<Rightarrow> bool" where
  "isStatusMessagesConfs confName \<longleftrightarrow> confName = STATUS_MESSAGES_CONF"

definition isUniqueConf :: "string \<Rightarrow> conf list \<Rightarrow> conf \<Rightarrow> bool" where
  "isUniqueConf confName confs currConf \<longleftrightarrow> list_all (\<lambda>c. cfSymbol c \<noteq> cfSymbol currConf \<or>
     isCandlesConfs confName \<and> cfTimeframe c \<noteq> cfTimeframe currConf) confs"

definition hasConf :: "string \<Rightarrow> conf list \<Rightarrow> conf \<Rightarrow> bool" where
  "hasConf confName confs currConf \<longleftrightarrow> list_ex (\<lambda>c. cfSymbol c = cfSymbol currConf \<and>
     (\<not> isCandlesConfs confName \<or> cfTimeframe c = cfTimeframe currConf)) confs"

subsection \<open>Editing\<close>

text \<open>\<^verbatim>\<open>pick(curr, propNames)\<close>\<close>

definition pick_conf :: "string \<Rightarrow> conf \<Rightarrow> conf" where
  "pick_conf confName c = (if isCandlesConfs confName then c else c\<lparr>cfTimeframe := None\<rparr>)"

definition opt_cmp :: "string option \<Rightarrow> string option \<Rightarrow> int" where
  "opt_cmp a b = (if a = b then 0 else case (a, b) of
       (None, _) \<Rightarrow> - 1 | (_, None) \<Rightarrow> 1 | (Some s, Some t) \<Rightarrow> if text_less s t then - 1 else 1)"

definition conf_cmp :: "conf \<Rightarrow> conf \<Rightarrow> int" where
  "conf_cmp a b = (if cfSymbol a \<noteq> cfSymbol b then (if text_less (cfSymbol a) (cfSymbol b) then - 1 else 1)
     else opt_cmp (cfTimeframe a) (cfTimeframe b))"

definition user_rows :: "string \<Rightarrow> int \<Rightarrow> conf_db \<Rightarrow> conf_row list" where
  "user_rows confName user db = sort_by (\<lambda>a b. conf_cmp (crConf a) (crConf b))
     (filter (\<lambda>r. crName r = confName \<and> crUser r = user) (cdRows db))"

definition newData :: "string \<Rightarrow> conf list \<Rightarrow> conf list \<Rightarrow> conf list" where
  "newData confName stored data = foldl (\<lambda>accum curr.
     if isUniqueConf confName stored curr \<and> isUniqueConf confName accum curr
     then accum @ [pick_conf confName curr] else accum) [] data"

text \<open>The second part of the condition of the code compares with identifiers and always holds.\<close>

definition removedIds :: "string \<Rightarrow> conf_row list \<Rightarrow> conf list \<Rightarrow> nat list" where
  "removedIds confName rows data = map crId (filter (\<lambda>r. isUniqueConf confName data (crConf r)) rows)"

definition updatedData :: "string \<Rightarrow> conf list \<Rightarrow> conf list \<Rightarrow> conf list" where
  "updatedData confName stored data = foldl (\<lambda>accum curr.
     if hasConf confName stored curr \<and> isUniqueConf confName accum curr then accum @ [curr] else accum) [] data"

definition insert_conf :: "string \<Rightarrow> int \<Rightarrow> conf \<Rightarrow> conf_db \<Rightarrow> conf_db" where
  "insert_conf confName user c db =
     \<lparr>cdRows = cdRows db @ [\<lparr>crId = cdNext db, crName = confName, crUser = user, crConf = c\<rparr>], cdNext = cdNext db + 1\<rparr>"

definition remove_confs :: "string \<Rightarrow> int \<Rightarrow> nat list \<Rightarrow> conf_db \<Rightarrow> conf_db" where
  "remove_confs confName user ids db =
     db\<lparr>cdRows := filter (\<lambda>r. \<not> (crName r = confName \<and> crUser r = user \<and> crId r \<in> set ids)) (cdRows db)\<rparr>"

definition same_conf_key :: "string \<Rightarrow> conf \<Rightarrow> conf \<Rightarrow> bool" where
  "same_conf_key confName a b \<longleftrightarrow> cfSymbol a = cfSymbol b \<and> (isCandlesConfs confName \<longrightarrow> cfTimeframe a = cfTimeframe b)"

text \<open>In SQL a missing timeframe equals nothing.\<close>

definition update_start :: "string \<Rightarrow> int \<Rightarrow> conf \<Rightarrow> conf_db \<Rightarrow> conf_db" where
  "update_start confName user c db = db\<lparr>cdRows := map (\<lambda>r.
     if crName r = confName \<and> crUser r = user \<and> same_conf_key confName (crConf r) c \<and>
       (isCandlesConfs confName \<longrightarrow> cfTimeframe c \<noteq> None)
     then r\<lparr>crConf := (crConf r)\<lparr>cfStart := cfStart c\<rparr>\<rparr> else r) (cdRows db)\<rparr>"

definition editPublicCollsConf :: "string \<Rightarrow> int \<Rightarrow> conf list \<Rightarrow> conf_db \<Rightarrow> conf_db" where
  "editPublicCollsConf confName user data db =
     (let rows = user_rows confName user db; stored = map crConf rows;
          new = newData confName stored data;
          removed = removedIds confName rows data;
          updated = updatedData confName stored data;
          db1 = fold (insert_conf confName user) new db;
          db2 = (if removed \<noteq> [] then remove_confs confName user removed db1 else db1)
      in fold (update_start confName user) updated db2)"

text \<open>The requested configurations in the order of their names; the result names the collections.\<close>

definition editAllPublicCollsConfs :: "int \<Rightarrow> (string \<times> conf list) list \<Rightarrow> conf_db \<Rightarrow> string list \<times> conf_db" where
  "editAllPublicCollsConfs user params db =
     (let wanted = List.map_filter (\<lambda>(k, coll). map_option (\<lambda>data. (k, data)) (map_of params k)) confNamesMap
      in (List.map_filter (\<lambda>(k, data). map_of confNamesMap k) wanted,
          fold (\<lambda>(k, data). editPublicCollsConf k user data) wanted db))"

subsection \<open>Reading\<close>

text \<open>A parameter that is a text or a list of texts restricts the rows.\<close>

definition wanted_texts :: "jsval \<Rightarrow> string list option" where
  "wanted_texts v = (case v of
       VStr s \<Rightarrow> if s \<noteq> [] then Some [s] else None
     | VArr xs \<Rightarrow> if xs \<noteq> [] then Some (List.map_filter (\<lambda>x. case x of VStr s \<Rightarrow> Some s | _ \<Rightarrow> None) xs) else None
     | _ \<Rightarrow> None)"

definition among :: "string option \<Rightarrow> string list option \<Rightarrow> bool" where
  "among v wanted = (case wanted of None \<Rightarrow> True | Some ts \<Rightarrow> (case v of Some s \<Rightarrow> s \<in> set ts | None \<Rightarrow> False))"

definition getPublicCollsConf :: "string \<Rightarrow> int \<Rightarrow> obj \<Rightarrow> conf_db \<Rightarrow> conf list" where
  "getPublicCollsConf confName user params db =
     map (\<lambda>r. pick_conf (crName r) (crConf r)) (filter (\<lambda>r.
         among (Some (cfSymbol (crConf r))) (wanted_texts (get params ''symbol'')) \<and>
         among (cfTimeframe (crConf r)) (wanted_texts (get params ''timeframe'')))
       (user_rows confName user db))"

definition getAllPublicCollsConfs :: "int \<Rightarrow> obj \<Rightarrow> conf_db \<Rightarrow> (string \<times> conf list) list" where
  "getAllPublicCollsConfs user params db = map (\<lambda>(k, coll). (k, getPublicCollsConf k user params db)) confNamesMap"

subsection \<open>Arguments for the copy\<close>

definition num_or_null :: "jsval \<Rightarrow> rat" where
  "num_or_null v = (case v of VNum x \<Rightarrow> x | _ \<Rightarrow> 0)"

definition minConfStart :: "conf list \<Rightarrow> jsval" where
  "minConfStart confs = foldl (\<lambda>accum c. if accum = VNull \<or> js_less (cfStart c) accum then cfStart c else accum) VNull confs"

text \<open>\<^verbatim>\<open>start < null\<close> compares with 0.\<close>

definition getStart :: "conf list \<Rightarrow> jsval \<Rightarrow> jsval" where
  "getStart confs startArg =
     (let start = (if startArg = VUndef then VNum 0 else startArg); m = minConfStart confs in
      case start of VNum x \<Rightarrow> if x < num_or_null m then m else start | _ \<Rightarrow> start)"

definition getSymbol :: "conf list \<Rightarrow> jsval" where
  "getSymbol confs = VArr (map (\<lambda>c. VStr (cfSymbol c)) confs)"

definition timeframe_val :: "conf \<Rightarrow> jsval" where
  "timeframe_val c = (case cfTimeframe c of Some t \<Rightarrow> VStr t | None \<Rightarrow> VUndef)"

definition getTimeframe :: "conf list \<Rightarrow> jsval list" where
  "getTimeframe confs = map timeframe_val confs"

definition getConfArgs :: "string \<Rightarrow> conf list \<Rightarrow> obj \<Rightarrow> obj" where
  "getConfArgs confName confs params =
     (if isStatusMessagesConfs confName then merge_obj params [(''symbol'', getSymbol confs)]
      else merge_obj params ([(''symbol'', getSymbol confs), (''start'', getStart confs (get params ''start''))]
        @ (if isCandlesConfs confName \<and> confs \<noteq> [] then [(''timeframe'', hd (getTimeframe confs))] else [])))"

subsection \<open>What is left to the exchange\<close>

definition texts_of :: "jsval \<Rightarrow> string list" where
  "texts_of v = List.map_filter (\<lambda>x. case x of VStr s \<Rightarrow> if s \<noteq> [] then Some s else None | _ \<Rightarrow> None)
     (case v of VArr xs \<Rightarrow> xs | w \<Rightarrow> [w])"

definition not_synced :: "conf list \<Rightarrow> string list \<Rightarrow> string \<Rightarrow> (string \<times> string option) list" where
  "not_synced confs timeframes symb =
     (if timeframes = [] then (if list_ex (\<lambda>c. cfSymbol c = symb) confs then [] else [(symb, None)])
      else map (\<lambda>t. (symb, Some t)) (filter (\<lambda>t. \<not> list_ex (\<lambda>c. cfSymbol c = symb \<and> cfTimeframe c = Some t) confs) timeframes))"

definition getArgsArrForNotSyncedParams :: "conf list \<Rightarrow> obj \<Rightarrow> obj list" where
  "getArgsArrForNotSyncedParams confs params =
     map (\<lambda>(symb, t). merge_obj (omit params [''symbol'', ''timeframe''])
         ((''symbol'', VStr symb) # (case t of Some x \<Rightarrow> [(''timeframe'', VStr x)] | None \<Rightarrow> [])))
       (concat (map (not_synced confs (texts_of (get params ''timeframe''))) (texts_of (get params ''symbol''))))"

datatype 'e public_error = Get_Public_Data_Error | Check_Failed | Api_Error 'e

text \<open>The answer of the method of the exchange: a list, or an object with a list.\<close>

definition api_rows :: "jsval \<Rightarrow> jsval list" where
  "api_rows v = (case v of VArr xs \<Rightarrow> xs | VObj ob \<Rightarrow> (case get ob ''res'' of VArr xs \<Rightarrow> xs | _ \<Rightarrow> []) | _ \<Rightarrow> [])"

fun all_rows :: "(obj \<Rightarrow> 'e + jsval) \<Rightarrow> obj list \<Rightarrow> 'e + jsval list" where
  "all_rows api [] = Inr []"
| "all_rows api (a # as) = bind_err (api a) (\<lambda>v. bind_err (all_rows api as) (\<lambda>vs. Inr (api_rows v @ vs)))"

definition limit_of :: "obj \<Rightarrow> nat option" where
  "limit_of params = (case get params ''limit'' of
       VUndef \<Rightarrow> Some 10000
     | VNum x \<Rightarrow> if x = of_int \<lfloor>x\<rfloor> then Some (nat \<lfloor>x\<rfloor>) else None
     | _ \<Rightarrow> None)"

text \<open>The newest rows; all of them when those within the limit have one and the same time.\<close>

definition limited_rows :: "string \<Rightarrow> nat option \<Rightarrow> jsval list \<Rightarrow> jsval list" where
  "limited_rows datePropName limit rows =
     (let ordered = orderBy rows [By_Path datePropName] [''desc''];
          limited = (case limit of Some n \<Rightarrow> take n ordered | None \<Rightarrow> ordered);
          mts = (\<lambda>v. get (spread v) datePropName)
      in if list_ex (\<lambda>item. mts item \<noteq> mts (hd limited)) limited then limited else ordered)"

definition merged_public_rows ::
  "(obj \<Rightarrow> 'e + jsval) \<Rightarrow> (obj \<Rightarrow> jsval list) \<Rightarrow> string \<Rightarrow> string \<Rightarrow> conf list \<Rightarrow> obj \<Rightarrow> 'e public_error + jsval list" where
  "merged_public_rows api findInCollBy datePropName confName confs params =
     (case all_rows api (getArgsArrForNotSyncedParams confs params) of
        Inl e \<Rightarrow> Inl (Api_Error e)
      | Inr vs \<Rightarrow> Inr (limited_rows datePropName (limit_of params) (findInCollBy (getConfArgs confName confs params) @ vs)))"

definition getPublicData ::
  "(obj \<Rightarrow> 'e + jsval) \<Rightarrow> (obj \<Rightarrow> jsval list) \<Rightarrow> (jsval list \<Rightarrow> jsval) \<Rightarrow> (obj \<Rightarrow> bool) \<Rightarrow> string \<Rightarrow> string \<Rightarrow> string
    \<Rightarrow> int \<Rightarrow> obj \<Rightarrow> conf_db \<Rightarrow> 'e public_error + jsval" where
  "getPublicData api findInCollBy prepareResponse check datePropName confName collName user incomingParams db =
     (if datePropName = [] \<or> confName = [] \<or> collName = [] then Inl Get_Public_Data_Error
      else if \<not> check incomingParams then Inl Check_Failed
      else
        let params = (if isCandlesConfs confName then incomingParams else omit incomingParams [''timeframe'']);
            confs = getPublicCollsConf confName user params db
        in if confs = [] then (case api params of Inl e \<Rightarrow> Inl (Api_Error e) | Inr v \<Rightarrow> Inr v)
           else bind_err (merged_public_rows api findInCollBy datePropName confName confs params)
             (\<lambda>res. Inr (prepareResponse res)))"

end
