(* ===== verification/Colls_Conf_Props.thy ===== *)
theory Colls_Conf_Props
  imports Colls_Conf
begin

text \<open>What is read after an edit is what was asked for; the rows of others stay.\<close>

subsection \<open>Keys\<close>

definition nkey :: "string \<Rightarrow> conf \<Rightarrow> string \<times> string option" where
  "nkey confName c = (cfSymbol c, cfTimeframe (pick_conf confName c))"

lemma nkey_pick [simp]: "nkey n (pick_conf n c) = nkey n c"
  by (simp add: nkey_def pick_conf_def)

lemma same_conf_key_nkey: "same_conf_key n a b \<longleftrightarrow> nkey n a = nkey n b"
  by (auto simp: same_conf_key_def nkey_def pick_conf_def)

lemma in_keys: "nkey n c \<in> nkey n ` set cs \<longleftrightarrow> (\<exists>x\<in>set cs. same_conf_key n x c)"
  by (simp add: image_iff same_conf_key_nkey eq_commute[of "nkey n c"])

lemma hasConf_nkey: "hasConf n cs c \<longleftrightarrow> nkey n c \<in> nkey n ` set cs"
  unfolding in_keys by (auto simp: hasConf_def same_conf_key_def list_ex_iff)

lemma isUniqueConf_nkey: "isUniqueConf n cs c \<longleftrightarrow> nkey n c \<notin> nkey n ` set cs"
  unfolding in_keys by (auto simp: isUniqueConf_def same_conf_key_def list_all_iff)

text \<open>The first item of each key.\<close>

definition first_with_key :: "string \<Rightarrow> conf list \<Rightarrow> conf \<Rightarrow> bool" where
  "first_with_key n data c \<longleftrightarrow> find (\<lambda>d. same_conf_key n d c) data = Some c"

lemma first_with_key_snoc:
  "first_with_key n (data @ [d]) c \<longleftrightarrow> first_with_key n data c \<or> d = c \<and> nkey n c \<notin> nkey n ` set data"
proof (cases "find (\<lambda>d. nkey n d = nkey n c) data")
  case None
  then have "nkey n c \<notin> nkey n ` set data" unfolding in_keys by (auto simp: find_None_iff same_conf_key_nkey)
  then show ?thesis using None by (auto simp: first_with_key_def find_append same_conf_key_nkey)
next
  case (Some x)
  then have "nkey n c \<in> nkey n ` set data" unfolding in_keys by (auto simp: find_Some_iff same_conf_key_nkey)
  then show ?thesis using Some by (auto simp: first_with_key_def find_append same_conf_key_nkey)
qed

lemma collect_firsts:
  fixes f :: "conf \<Rightarrow> conf"
  assumes P: "\<And>a b. nkey n a = nkey n b \<Longrightarrow> P a = P b" and f: "\<And>c. nkey n (f c) = nkey n c"
  defines "res \<equiv> \<lambda>data. foldl (\<lambda>accum c. if P c \<and> isUniqueConf n accum c then accum @ [f c] else accum) [] data"
  shows "set (res data) = f ` {c. P c \<and> first_with_key n data c} \<and> distinct (map (nkey n) (res data)) \<and>
    nkey n ` set (res data) = nkey n ` {c \<in> set data. P c}"
proof (induction data rule: rev_induct)
  case Nil
  show ?case by (auto simp: res_def first_with_key_def)
next
  case (snoc d data)
  have step: "res (data @ [d]) = (if P d \<and> isUniqueConf n (res data) d then res data @ [f d] else res data)"
    by (simp add: res_def)
  have known: "nkey n d \<in> nkey n ` {c \<in> set data. P c} \<longleftrightarrow> nkey n d \<in> nkey n ` set data" if "P d"
  proof
    assume "nkey n d \<in> nkey n ` set data"
    then obtain c where "c \<in> set data" "nkey n d = nkey n c" by blast
    then show "nkey n d \<in> nkey n ` {c \<in> set data. P c}" using P that by blast
  qed blast
  have "nkey n ` set (res data) = nkey n ` {c \<in> set data. P c}" using snoc by blast
  then have iff: "isUniqueConf n (res data) d \<longleftrightarrow> nkey n d \<notin> nkey n ` set data" if "P d"
    using known[OF that] by (simp only: isUniqueConf_nkey)
  show ?case
  proof (cases "P d \<and> nkey n d \<notin> nkey n ` set data")
    case True
    then have eq: "res (data @ [d]) = res data @ [f d]" using step iff by simp
    have keys: "nkey n d \<notin> nkey n ` set (res data)" using True iff by (simp add: isUniqueConf_nkey)
    from snoc have r: "set (res data) = f ` {c. P c \<and> first_with_key n data c}" "distinct (map (nkey n) (res data))"
      "nkey n ` set (res data) = nkey n ` {c \<in> set data. P c}" by blast+
    have firsts: "{c. P c \<and> first_with_key n (data @ [d]) c} = insert d {c. P c \<and> first_with_key n data c}"
      using True unfolding first_with_key_snoc by blast
    have all: "{c \<in> set (data @ [d]). P c} = insert d {c \<in> set data. P c}" using True by auto
    have new: "set (res (data @ [d])) = insert (f d) (set (res data))" unfolding eq by simp
    show ?thesis
    proof (intro conjI)
      show "set (res (data @ [d])) = f ` {c. P c \<and> first_with_key n (data @ [d]) c}"
        by (simp only: firsts new r(1) image_insert)
      show "distinct (map (nkey n) (res (data @ [d])))" unfolding eq using r(2) keys f by simp
      show "nkey n ` set (res (data @ [d])) = nkey n ` {c \<in> set (data @ [d]). P c}"
        by (simp only: all new r(3) image_insert f)
    qed
  next
    case False
    then have eq: "res (data @ [d]) = res data" using step iff by metis
    have firsts: "{c. P c \<and> first_with_key n (data @ [d]) c} = {c. P c \<and> first_with_key n data c}"
      using False unfolding first_with_key_snoc by blast
    have keys: "nkey n ` {c \<in> set (data @ [d]). P c} = nkey n ` {c \<in> set data. P c}"
    proof (cases "P d")
      case True
      then have "nkey n d \<in> nkey n ` {c \<in> set data. P c}" using False known by blast
      moreover have "{c \<in> set (data @ [d]). P c} = insert d {c \<in> set data. P c}" using True by auto
      ultimately show ?thesis by (simp add: insert_absorb)
    qed (auto intro: arg_cong)
    show ?thesis unfolding eq firsts keys by (rule snoc)
  qed
qed

lemma image_keys: "f ` {c \<in> A. f c \<notin> K} = f ` A - K"
  by blast

lemma newData_set:
  "set (newData n stored data) = pick_conf n ` {c. nkey n c \<notin> nkey n ` set stored \<and> first_with_key n data c} \<and>
   distinct (map (nkey n) (newData n stored data)) \<and>
   nkey n ` set (newData n stored data) = nkey n ` set data - nkey n ` set stored"
proof -
  have "isUniqueConf n stored a = isUniqueConf n stored b" if "nkey n a = nkey n b" for a b
    using that by (simp add: isUniqueConf_nkey)
  from collect_firsts[of n "isUniqueConf n stored" "pick_conf n" data, OF this nkey_pick, folded newData_def]
  have "set (newData n stored data) = pick_conf n ` {c. isUniqueConf n stored c \<and> first_with_key n data c} \<and>
    distinct (map (nkey n) (newData n stored data)) \<and>
    nkey n ` set (newData n stored data) = nkey n ` {c \<in> set data. isUniqueConf n stored c}" .
  moreover have "nkey n ` {c \<in> set data. isUniqueConf n stored c} = nkey n ` set data - nkey n ` set stored"
    using image_keys[of "nkey n" "set data" "nkey n ` set stored"] by (simp only: isUniqueConf_nkey)
  ultimately show ?thesis unfolding isUniqueConf_nkey by (elim conjE, intro conjI) (assumption | erule (1) trans)+
qed

lemma updatedData_set:
  "set (updatedData n stored data) = {c. nkey n c \<in> nkey n ` set stored \<and> first_with_key n data c} \<and>
   distinct (map (nkey n) (updatedData n stored data))"
proof -
  have "hasConf n stored a = hasConf n stored b" if "nkey n a = nkey n b" for a b
    using that by (simp add: hasConf_nkey)
  note res = collect_firsts[of n "hasConf n stored" "\<lambda>c. c" data, OF this refl, folded updatedData_def]
  show ?thesis using res by (simp add: hasConf_nkey)
qed

subsection \<open>The table\<close>

definition mine :: "string \<Rightarrow> int \<Rightarrow> conf_row \<Rightarrow> bool" where
  "mine n u r \<longleftrightarrow> crName r = n \<and> crUser r = u"

definition row_ok :: "nat \<Rightarrow> conf_row \<Rightarrow> bool" where
  "row_ok m r \<longleftrightarrow> crId r < m \<and> (isCandlesConfs (crName r) \<longleftrightarrow> cfTimeframe (crConf r) \<noteq> None)"

definition row_key :: "conf_row \<Rightarrow> string \<times> int \<times> string \<times> string option" where
  "row_key r = (crName r, crUser r, cfSymbol (crConf r), cfTimeframe (crConf r))"

text \<open>Identifiers and keys are unique; candles, and only they, have a timeframe.\<close>

definition conf_db_ok :: "conf_db \<Rightarrow> bool" where
  "conf_db_ok db \<longleftrightarrow> distinct (map crId (cdRows db)) \<and> distinct (map row_key (cdRows db)) \<and>
     list_all (row_ok (cdNext db)) (cdRows db)"

definition data_ok :: "string \<Rightarrow> conf list \<Rightarrow> bool" where
  "data_ok n data \<longleftrightarrow> (isCandlesConfs n \<longrightarrow> list_all (\<lambda>c. cfTimeframe c \<noteq> None) data)"

definition new_rows :: "string \<Rightarrow> int \<Rightarrow> nat \<Rightarrow> conf list \<Rightarrow> conf_row list" where
  "new_rows n u k cs = map (\<lambda>(i, c). \<lparr>crId = i, crName = n, crUser = u, crConf = c\<rparr>) (enumerate k cs)"

lemma insert_confs:
  "fold (insert_conf n u) cs db = \<lparr>cdRows = cdRows db @ new_rows n u (cdNext db) cs, cdNext = cdNext db + length cs\<rparr>"
  by (induction cs arbitrary: db) (simp_all add: insert_conf_def new_rows_def)

lemma enumerate_snd: "map (\<lambda>x. g (snd x)) (enumerate k xs) = map g xs"
  by (induction xs arbitrary: k) auto

lemma new_rows_simps [simp]:
  "map crConf (new_rows n u k cs) = cs" "map crId (new_rows n u k cs) = [k..<k + length cs]"
  "map row_key (new_rows n u k cs) = map (\<lambda>c. (n, u, cfSymbol c, cfTimeframe c)) cs"
  using enumerate_snd[of "\<lambda>c. c" k cs] enumerate_snd[of "\<lambda>c. (n, u, cfSymbol c, cfTimeframe c)" k cs]
  by (simp_all add: new_rows_def row_key_def comp_def case_prod_beta' map_fst_enumerate)

lemma new_rows_mine: "r \<in> set (new_rows n u k cs) \<Longrightarrow> mine n u r \<and> crConf r \<in> set cs \<and> k \<le> crId r \<and> crId r < k + length cs"
  by (auto simp: new_rows_def mine_def in_set_enumerate_eq)

text \<open>The updates one after the other change each row on its own.\<close>

definition upd_conf :: "string \<Rightarrow> conf \<Rightarrow> conf \<Rightarrow> conf" where
  "upd_conf n c x = (if same_conf_key n x c \<and> (isCandlesConfs n \<longrightarrow> cfTimeframe c \<noteq> None) then x\<lparr>cfStart := cfStart c\<rparr> else x)"

lemma fold_update_rows:
  "fold (update_start n u) cs db =
     db\<lparr>cdRows := map (\<lambda>r. if mine n u r then r\<lparr>crConf := fold (upd_conf n) cs (crConf r)\<rparr> else r) (cdRows db)\<rparr>"
proof (induction cs arbitrary: db)
  case Nil
  have "map (\<lambda>r. if mine n u r then r\<lparr>crConf := crConf r\<rparr> else r) rows = rows" for rows :: "conf_row list"
    by (induction rows) auto
  then show ?case by (cases db) (simp cong: if_cong)
next
  case (Cons c cs)
  have "update_start n u c db = db\<lparr>cdRows := map (\<lambda>r. if mine n u r then r\<lparr>crConf := upd_conf n c (crConf r)\<rparr> else r) (cdRows db)\<rparr>"
    by (auto simp: update_start_def mine_def upd_conf_def intro!: arg_cong[of _ _ "\<lambda>x. db\<lparr>cdRows := x\<rparr>"])
  then show ?case using Cons.IH by (auto simp: mine_def)
qed

lemma upd_conf_keeps [simp]: "cfSymbol (upd_conf n c x) = cfSymbol x" "cfTimeframe (upd_conf n c x) = cfTimeframe x"
  by (simp_all add: upd_conf_def)

lemma fold_upd_keeps [simp]:
  "cfSymbol (fold (upd_conf n) cs x) = cfSymbol x" "cfTimeframe (fold (upd_conf n) cs x) = cfTimeframe x"
  by (induction cs arbitrary: x) simp_all

lemma fold_upd_other: "nkey n x \<notin> nkey n ` set cs \<Longrightarrow> fold (upd_conf n) cs x = x"
  by (induction cs) (auto simp: upd_conf_def same_conf_key_nkey)

lemma fold_upd_one:
  assumes "distinct (map (nkey n) cs)" "c \<in> set cs" "nkey n x = nkey n c" "isCandlesConfs n \<longrightarrow> cfTimeframe c \<noteq> None"
  shows "fold (upd_conf n) cs x = x\<lparr>cfStart := cfStart c\<rparr>"
  using assms
proof (induction cs arbitrary: x)
  case (Cons d cs)
  show ?case
  proof (cases "d = c")
    case True
    then have "nkey n (x\<lparr>cfStart := cfStart c\<rparr>) \<notin> nkey n ` set cs"
      using Cons.prems by (auto simp: nkey_def pick_conf_def)
    moreover have "upd_conf n c x = x\<lparr>cfStart := cfStart c\<rparr>"
      using Cons.prems by (simp add: upd_conf_def same_conf_key_nkey)
    ultimately show ?thesis using True by (simp add: fold_upd_other)
  next
    case False
    then have "nkey n d \<noteq> nkey n x" using Cons.prems by auto
    then have "upd_conf n d x = x" by (simp add: upd_conf_def same_conf_key_nkey eq_commute)
    then show ?thesis using Cons False by simp
  qed
qed simp

subsection \<open>An edit\<close>

lemma user_rows_set: "set (user_rows n u db) = {r \<in> set (cdRows db). mine n u r}"
  by (auto simp: user_rows_def mine_def)

lemma pick_same: "row_ok m r \<Longrightarrow> mine n u r \<Longrightarrow> pick_conf n (crConf r) = crConf r"
  by (auto simp: row_ok_def mine_def pick_conf_def)

definition edited_row :: "string \<Rightarrow> int \<Rightarrow> conf list \<Rightarrow> conf_row \<Rightarrow> conf_row" where
  "edited_row n u updated r = (if mine n u r then r\<lparr>crConf := fold (upd_conf n) updated (crConf r)\<rparr> else r)"

text \<open>The rows after an edit: the old ones that are wanted or of others, then the new ones.\<close>

lemma edit_rows:
  fixes n u data db
  assumes ok: "conf_db_ok db"
  defines "stored \<equiv> map crConf (user_rows n u db)"
  shows "cdRows (editPublicCollsConf n u data db) = map (edited_row n u (updatedData n stored data))
      (filter (\<lambda>r. mine n u r \<longrightarrow> nkey n (crConf r) \<in> nkey n ` set data) (cdRows db)
        @ new_rows n u (cdNext db) (newData n stored data))"
    and "cdNext (editPublicCollsConf n u data db) = cdNext db + length (newData n stored data)"
proof -
  let ?new = "newData n stored data" and ?rows = "user_rows n u db"
  let ?db1 = "fold (insert_conf n u) ?new db"
  let ?gone = "removedIds n ?rows data"
  let ?db2 = "if ?gone \<noteq> [] then remove_confs n u ?gone ?db1 else ?db1"
  have ids: "distinct (map crId (cdRows db))" and less: "\<And>r. r \<in> set (cdRows db) \<Longrightarrow> crId r < cdNext db"
    using ok by (auto simp: conf_db_ok_def list_all_iff row_ok_def)
  have db2: "?db2 = remove_confs n u ?gone ?db1"
    by (cases ?gone) (simp_all add: remove_confs_def)
  have gone: "crId r \<in> set ?gone \<longleftrightarrow> nkey n (crConf r) \<notin> nkey n ` set data" if "r \<in> set (cdRows db)" "mine n u r" for r
  proof -
    have "r' = r" if "r' \<in> set (cdRows db)" "crId r' = crId r" for r'
      using ids that \<open>r \<in> set (cdRows db)\<close> by (simp add: distinct_map inj_on_def)
    then show ?thesis using that by (auto simp: removedIds_def user_rows_set isUniqueConf_nkey)
  qed
  have old: "filter (\<lambda>r. \<not> (crName r = n \<and> crUser r = u \<and> crId r \<in> set ?gone)) (cdRows db) =
      filter (\<lambda>r. mine n u r \<longrightarrow> nkey n (crConf r) \<in> nkey n ` set data) (cdRows db)"
    using gone by (intro filter_cong refl) (auto simp: mine_def)
  have "crId r < cdNext db" if "crId r \<in> set ?gone" for r :: conf_row
    using that less by (auto simp: removedIds_def user_rows_set)
  then have fresh: "filter (\<lambda>r. \<not> (crName r = n \<and> crUser r = u \<and> crId r \<in> set ?gone)) (new_rows n u (cdNext db) ?new) =
      new_rows n u (cdNext db) ?new"
    by (intro filter_True ballI) (metis less_irrefl new_rows_mine order.strict_trans2)
  have edit: "editPublicCollsConf n u data db = fold (update_start n u) (updatedData n stored data) ?db2"
    by (simp only: editPublicCollsConf_def Let_def stored_def)
  show "cdRows (editPublicCollsConf n u data db) = map (edited_row n u (updatedData n stored data))
      (filter (\<lambda>r. mine n u r \<longrightarrow> nkey n (crConf r) \<in> nkey n ` set data) (cdRows db)
        @ new_rows n u (cdNext db) ?new)"
    unfolding edit unfolding db2 unfolding fold_update_rows insert_confs
    by (simp only: remove_confs_def old fresh edited_row_def[abs_def] conf_db.simps filter_append)
  show "cdNext (editPublicCollsConf n u data db) = cdNext db + length ?new"
    unfolding edit unfolding db2 unfolding fold_update_rows insert_confs by (simp add: remove_confs_def)
qed

lemma edited_row_simps [simp]:
  "crId (edited_row n u cs r) = crId r" "row_key (edited_row n u cs r) = row_key r" "mine n' u' (edited_row n u cs r) = mine n' u' r"
  "row_ok m (edited_row n u cs r) = row_ok m r"
  by (simp_all add: edited_row_def row_key_def mine_def row_ok_def)

lemma first_key: "k \<in> nkey n ` set data \<Longrightarrow> \<exists>c. first_with_key n data c \<and> nkey n c = k"
proof -
  assume "k \<in> nkey n ` set data"
  then have "find (\<lambda>x. nkey n x = k) data \<noteq> None" unfolding find_None_iff by blast
  then obtain c where "find (\<lambda>x. nkey n x = k) data = Some c" by blast
  moreover from this have "nkey n c = k" unfolding find_Some_iff by blast
  ultimately show ?thesis by (auto simp: first_with_key_def same_conf_key_nkey)
qed

lemma first_in: "first_with_key n data c \<Longrightarrow> c \<in> set data"
  unfolding first_with_key_def find_Some_iff by auto

lemma conf_same_key:
  "pick_conf n x = x \<Longrightarrow> nkey n c = nkey n x \<Longrightarrow> x\<lparr>cfStart := cfStart c\<rparr> = pick_conf n c"
  by (cases x; cases c) (auto simp: nkey_def pick_conf_def split: if_splits)

text \<open>A row that stays gets the start that was asked for first.\<close>

lemma kept_row:
  assumes "row_ok m r" "mine n u r" "data_ok n data" "nkey n c \<in> nkey n ` set stored"
    "first_with_key n data c" "nkey n c = nkey n (crConf r)"
  shows "crConf (edited_row n u (updatedData n stored data) r) = pick_conf n c"
proof -
  let ?upd = "updatedData n stored data"
  have "c \<in> set ?upd" using updatedData_set[of n stored data] assms(4,5) by blast
  moreover have "isCandlesConfs n \<longrightarrow> cfTimeframe c \<noteq> None"
    using assms(3) first_in[OF assms(5)] by (auto simp: data_ok_def list_all_iff)
  moreover have "distinct (map (nkey n) ?upd)" using updatedData_set[of n stored data] by blast
  ultimately have "fold (upd_conf n) ?upd (crConf r) = (crConf r)\<lparr>cfStart := cfStart c\<rparr>"
    using assms(6) by (intro fold_upd_one) auto
  then show ?thesis
    using assms(2) conf_same_key[OF pick_same[OF assms(1,2)] assms(6)] by (simp add: edited_row_def)
qed

lemma added_row:
  assumes "r \<in> set (new_rows n u k (newData n stored data))"
  shows "crConf (edited_row n u (updatedData n stored data) r) = crConf r"
proof -
  have "nkey n (crConf r) \<notin> nkey n ` set stored"
    using new_rows_mine[OF assms] newData_set[of n stored data] by blast
  moreover have "nkey n ` set (updatedData n stored data) \<subseteq> nkey n ` set stored"
    using updatedData_set[of n stored data] by blast
  ultimately have "nkey n (crConf r) \<notin> nkey n ` set (updatedData n stored data)" by blast
  then show ?thesis using new_rows_mine[OF assms] by (simp add: edited_row_def fold_upd_other)
qed

lemma new_rows_confs: "crConf ` set (new_rows n u k cs) = set cs"
  using new_rows_simps(1)[of n u k cs] by (metis list.set_map)

text \<open>Which configurations are there after an edit: of every wanted key the first one.\<close>

lemma edited_confs:
  fixes n u data db
  assumes ok: "conf_db_ok db" and data: "data_ok n data"
  shows "crConf ` {r \<in> set (cdRows (editPublicCollsConf n u data db)). mine n u r} = pick_conf n ` {c. first_with_key n data c}"
proof -
  define stored where "stored = map crConf (user_rows n u db)"
  let ?new = "newData n stored data" and ?upd = "updatedData n stored data"
  let ?kept = "{r \<in> set (cdRows db). mine n u r \<and> nkey n (crConf r) \<in> nkey n ` set data}"
  let ?first = "{c. nkey n c \<in> nkey n ` set stored \<and> first_with_key n data c}"
  have in_stored: "k \<in> nkey n ` set stored \<longleftrightarrow> (\<exists>r\<in>set (cdRows db). mine n u r \<and> k = nkey n (crConf r))" for k
    unfolding stored_def set_map user_rows_set by blast
  have rows: "{r \<in> set (cdRows (editPublicCollsConf n u data db)). mine n u r} =
      edited_row n u ?upd ` (?kept \<union> set (new_rows n u (cdNext db) ?new))"
    unfolding edit_rows(1)[OF ok, of n u data, folded stored_def] by (auto dest: new_rows_mine)
  have ok_r: "row_ok (cdNext db) r" if "r \<in> set (cdRows db)" for r
    using ok that by (simp add: conf_db_ok_def list_all_iff)
  have kept: "(\<lambda>r. crConf (edited_row n u ?upd r)) ` ?kept = pick_conf n ` ?first"
  proof (intro equalityI image_subsetI)
    fix r assume r: "r \<in> ?kept"
    then obtain c where c: "first_with_key n data c" "nkey n c = nkey n (crConf r)" using first_key[of _ n data] by blast
    with r have "nkey n c \<in> nkey n ` set stored" unfolding in_stored by auto
    with r c show "crConf (edited_row n u ?upd r) \<in> pick_conf n ` ?first"
      using kept_row[where r = r and u = u and c = c and stored = stored, OF ok_r _ data] by auto
  next
    fix c assume c: "c \<in> ?first"
    then obtain r where r: "r \<in> set (cdRows db)" "mine n u r" "nkey n c = nkey n (crConf r)" unfolding in_stored by blast
    then have "r \<in> ?kept" using c first_in[of n data c] by (metis (mono_tags, lifting) imageI mem_Collect_eq)
    with r c show "pick_conf n c \<in> (\<lambda>r. crConf (edited_row n u ?upd r)) ` ?kept"
      using kept_row[where r = r and u = u and c = c and stored = stored, OF ok_r _ data] by (metis (mono_tags, lifting) imageI mem_Collect_eq)
  qed
  have "crConf ` {r \<in> set (cdRows (editPublicCollsConf n u data db)). mine n u r} =
      (\<lambda>r. crConf (edited_row n u ?upd r)) ` ?kept \<union>
      (\<lambda>r. crConf (edited_row n u ?upd r)) ` set (new_rows n u (cdNext db) ?new)"
    unfolding rows image_image image_Un ..
  also have "\<dots> = pick_conf n ` ?first \<union> set ?new"
    unfolding kept using new_rows_confs[of n u "cdNext db" ?new] added_row[of _ n u "cdNext db" stored data] by (metis (no_types, lifting) image_cong)
  also have "\<dots> = pick_conf n ` {c. first_with_key n data c}"
    using newData_set[of n stored data] by blast
  finally show ?thesis .
qed

lemma edit_keeps_ok:
  fixes n u data db
  assumes ok: "conf_db_ok db" and data: "data_ok n data"
  shows "conf_db_ok (editPublicCollsConf n u data db)"
proof -
  define stored where "stored = map crConf (user_rows n u db)"
  let ?new = "newData n stored data" and ?upd = "updatedData n stored data" and ?k = "cdNext db"
  let ?old = "filter (\<lambda>r. mine n u r \<longrightarrow> nkey n (crConf r) \<in> nkey n ` set data) (cdRows db)"
  note rows = edit_rows(1)[OF ok, of n u data, folded stored_def] edit_rows(2)[OF ok, of n u data, folded stored_def]
  have ok_r: "row_ok ?k r" if "r \<in> set (cdRows db)" for r using ok that by (simp add: conf_db_ok_def list_all_iff)
  have news: "set ?new = pick_conf n ` {c. nkey n c \<notin> nkey n ` set stored \<and> first_with_key n data c}"
    "distinct (map (nkey n) ?new)" "nkey n ` set ?new = nkey n ` set data - nkey n ` set stored"
    using newData_set[of n stored data] by blast+
  have picked: "pick_conf n c = c" if "c \<in> set ?new" for c
    using that unfolding news(1) by (auto simp: pick_conf_def)
  have tf: "isCandlesConfs n \<longleftrightarrow> cfTimeframe c \<noteq> None" if "c \<in> set ?new" for c
    using that data unfolding news(1) by (auto simp: pick_conf_def data_ok_def list_all_iff dest!: first_in split: if_splits)
  have ids: "distinct (map crId (?old @ new_rows n u ?k ?new))"
  proof -
    have "distinct (map crId ?old)" using ok by (simp add: conf_db_ok_def distinct_map_filter)
    moreover have "crId r < ?k" if "r \<in> set ?old" for r using ok_r that by (auto simp: row_ok_def)
    ultimately show ?thesis by (fastforce simp: distinct_append)
  qed
  have "distinct (map row_key ?old)" using ok by (simp add: conf_db_ok_def distinct_map_filter)
  moreover have "distinct (map (\<lambda>c. (n, u, cfSymbol c, cfTimeframe c)) ?new)"
    using news(2) picked by (auto simp: distinct_map inj_on_def nkey_def)
  moreover have "row_key r \<noteq> (n, u, cfSymbol c, cfTimeframe c)" if "r \<in> set ?old" "c \<in> set ?new" for r c
  proof
    assume eq: "row_key r = (n, u, cfSymbol c, cfTimeframe c)"
    then have m: "mine n u r" by (simp add: row_key_def mine_def)
    then have "nkey n (crConf r) = nkey n c"
      using eq picked[OF that(2)] pick_same[OF ok_r m] that(1) by (simp add: row_key_def nkey_def)
    moreover have "nkey n (crConf r) \<in> nkey n ` set stored"
      using m that(1) unfolding stored_def set_map user_rows_set by auto
    ultimately show False using news(3) that(2) by (metis DiffD2 imageI)
  qed
  then have "set (map row_key ?old) \<inter> set (map (\<lambda>c. (n, u, cfSymbol c, cfTimeframe c)) ?new) = {}"
    by (force simp only: set_map)
  ultimately have keys: "distinct (map row_key (?old @ new_rows n u ?k ?new))"
    by (simp only: map_append distinct_append new_rows_simps)
  have "row_ok (?k + length ?new) r" if "r \<in> set ?old \<union> set (new_rows n u ?k ?new)" for r
    using that ok_r[of r] new_rows_mine[of r n u ?k ?new] tf by (auto simp: row_ok_def mine_def)
  with ids keys show ?thesis
    unfolding conf_db_ok_def rows by (simp add: comp_def list_all_iff ball_Un)
qed

text \<open>
  C37: after an edit the user reads, for the collection, the first of the wanted configurations of every key and
  nothing else; the table stays well-formed, and the rows of other users and collections are what they were.
\<close>

theorem edit_then_read:
  assumes "conf_db_ok db" "data_ok n data"
  shows "set (getPublicCollsConf n u [] (editPublicCollsConf n u data db)) = pick_conf n ` {c. first_with_key n data c} \<and>
    conf_db_ok (editPublicCollsConf n u data db) \<and>
    filter (\<lambda>r. \<not> mine n u r) (cdRows (editPublicCollsConf n u data db)) = filter (\<lambda>r. \<not> mine n u r) (cdRows db)"
proof (intro conjI)
  let ?db' = "editPublicCollsConf n u data db"
  have ok': "conf_db_ok ?db'" by (rule edit_keeps_ok[OF assms])
  then show "conf_db_ok ?db'" .
  have "set (getPublicCollsConf n u [] ?db') = (\<lambda>r. pick_conf (crName r) (crConf r)) ` {r \<in> set (cdRows ?db'). mine n u r}"
    by (auto simp: getPublicCollsConf_def user_rows_set among_def wanted_texts_def get_def)
  also have "\<dots> = crConf ` {r \<in> set (cdRows ?db'). mine n u r}"
    using ok' by (intro image_cong refl) (auto simp: conf_db_ok_def list_all_iff mine_def row_ok_def pick_conf_def)
  also have "\<dots> = pick_conf n ` {c. first_with_key n data c}" by (rule edited_confs[OF assms])
  finally show "set (getPublicCollsConf n u [] ?db') = pick_conf n ` {c. first_with_key n data c}" .
  let ?f = "edited_row n u (updatedData n (map crConf (user_rows n u db)) data)"
  have "filter (\<lambda>r. \<not> mine n u r) (cdRows ?db') = map ?f (filter (\<lambda>r. \<not> mine n u r) (cdRows db))"
  proof -
    have "filter (\<lambda>r. \<not> mine n u r) (new_rows n u k cs) = []" for k cs
      using new_rows_mine by (fastforce simp: filter_empty_conv)
    moreover have "filter (\<lambda>r. \<not> mine n u r) (filter (\<lambda>r. mine n u r \<longrightarrow> nkey n (crConf r) \<in> nkey n ` set data) (cdRows db)) =
        filter (\<lambda>r. \<not> mine n u r) (cdRows db)" unfolding filter_filter by (rule filter_cong) auto
    ultimately show ?thesis unfolding edit_rows(1)[OF assms(1)] by (simp only: filter_map comp_def edited_row_simps filter_append append_Nil2)
  qed
  also have "\<dots> = filter (\<lambda>r. \<not> mine n u r) (cdRows db)" by (intro map_idI) (simp add: edited_row_def)
  finally show "filter (\<lambda>r. \<not> mine n u r) (cdRows ?db') = filter (\<lambda>r. \<not> mine n u r) (cdRows db)" .
qed

definition sample_conf :: "string \<Rightarrow> rat \<Rightarrow> string option \<Rightarrow> conf" where
  "sample_conf s x t = \<lparr>cfSymbol = s, cfStart = VNum x, cfTimeframe = t\<rparr>"

definition sample_conf_db :: conf_db where
  "sample_conf_db = \<lparr>cdRows = [\<lparr>crId = 0, crName = CANDLES_CONF, crUser = 1, crConf = sample_conf ''tBTCUSD'' 5 (Some ''1D'')\<rparr>,
     \<lparr>crId = 1, crName = CANDLES_CONF, crUser = 1, crConf = sample_conf ''tETHUSD'' 5 (Some ''1h'')\<rparr>], cdNext = 2\<rparr>"

theorem edit_then_read_witness:
  "set (getPublicCollsConf CANDLES_CONF 1 [] (editPublicCollsConf CANDLES_CONF 1
     [sample_conf ''tBTCUSD'' 9 (Some ''1D''), sample_conf ''tBTCUSD'' 3 (Some ''1h'')] sample_conf_db)) =
     pick_conf CANDLES_CONF ` {c. first_with_key CANDLES_CONF
       [sample_conf ''tBTCUSD'' 9 (Some ''1D''), sample_conf ''tBTCUSD'' 3 (Some ''1h'')] c}"
  using edit_then_read[of sample_conf_db CANDLES_CONF
     "[sample_conf ''tBTCUSD'' 9 (Some ''1D''), sample_conf ''tBTCUSD'' 3 (Some ''1h'')]" 1]
  by (simp add: sample_conf_db_def sample_conf_def conf_db_ok_def data_ok_def row_ok_def row_key_def isCandlesConfs_def)

subsection \<open>Public data\<close>

text \<open>
  Without timeframes, every symbol that is asked for is either read from the copy or asked for at the
  exchange.
\<close>

lemma symbols_from_copy_or_exchange:
  assumes "texts_of (get params ''timeframe'') = []" "s \<in> set (texts_of (get params ''symbol''))"
  shows "list_ex (\<lambda>c. cfSymbol c = s) confs \<or>
    (\<exists>a\<in>set (getArgsArrForNotSyncedParams confs params). get a ''symbol'' = VStr s)"
proof (cases "list_ex (\<lambda>c. cfSymbol c = s) confs")
  case False
  with assms have "(s, None) \<in> set (concat (map (not_synced confs []) (texts_of (get params ''symbol''))))"
    by (auto simp: not_synced_def)
  then have "merge_obj (omit params [''symbol'', ''timeframe'']) [(''symbol'', VStr s)] \<in>
      set (getArgsArrForNotSyncedParams confs params)"
    using assms(1) by (force simp: getArgsArrForNotSyncedParams_def)
  moreover have "get (merge_obj (omit params [''symbol'', ''timeframe'']) [(''symbol'', VStr s)]) ''symbol'' = VStr s"
    by (simp add: merge_obj_def put_def get_def AList.update_conv')
  ultimately show ?thesis by blast
qed simp

text \<open>
  With two timeframes it is not so: the copy is read for the timeframe of the first configuration only, and
  the exchange is not asked for what is configured.
\<close>

lemma second_timeframe_missing:
  "let confs = [sample_conf ''tBTCUSD'' 0 (Some ''1D''), sample_conf ''tBTCUSD'' 0 (Some ''1h'')];
       params = [(''symbol'', VStr ''tBTCUSD''), (''timeframe'', VArr [VStr ''1D'', VStr ''1h''])]
   in get (getConfArgs CANDLES_CONF confs params) ''timeframe'' = VStr ''1D'' \<and> getArgsArrForNotSyncedParams confs params = []"
  by (simp add: sample_conf_def getConfArgs_def CANDLES_CONF_def STATUS_MESSAGES_CONF_def isStatusMessagesConfs_def isCandlesConfs_def
      getTimeframe_def timeframe_val_def merge_obj_def put_def get_def texts_of_def getArgsArrForNotSyncedParams_def not_synced_def
      List.map_filter_def AList.update_conv')

end
