(* ===== verification/Db_Backup.thy ===== *)
theory Db_Backup
  imports Js_Util Js_Action
begin

text \<open>
  \<^verbatim>\<open>sync/dao/db.backup.manager/index.js\<close>: copies of the database file, their names, and which of them are kept.
  The content of a database is a type variable. The parsing of dates and the text of a time are parameters.
\<close>

record 'd db_file =
  dfVer :: nat
  dfData :: 'd

record metadata =
  mdName :: string
  mdVersion :: nat
  mdMts :: int

record 'd backup =
  bkMeta :: metadata
  bkFile :: "'d db_file"

subsection \<open>Names of files\<close>

definition lower_letter :: "char \<Rightarrow> char" where
  "lower_letter c = (let n = of_char c :: nat in if 65 \<le> n \<and> n \<le> 90 then char_of (n + 32) else c)"

definition lower :: "string \<Rightarrow> string" where "lower s = map lower_letter s"

definition begins_with :: "string \<Rightarrow> string \<Rightarrow> bool" where
  "begins_with s p \<longleftrightarrow> take (length p) s = p"

definition finishes_with :: "string \<Rightarrow> string \<Rightarrow> bool" where
  "finishes_with s p \<longleftrightarrow> length p \<le> length s \<and> drop (length s - length p) s = p"

definition is_digit :: "char \<Rightarrow> bool" where
  "is_digit c \<longleftrightarrow> (\<exists>d<10. c = digit d)"

definition digit_val :: "char \<Rightarrow> nat" where
  "digit_val c = of_char c - 48"

definition parse_nat :: "string \<Rightarrow> nat" where
  "parse_nat s = foldl (\<lambda>n c. 10 * n + digit_val c) 0 s"

fun split_at :: "char \<Rightarrow> string \<Rightarrow> string list" where
  "split_at sep [] = [[]]"
| "split_at sep (c # cs) = (if c = sep then [] # split_at sep cs
     else (case split_at sep cs of p # ps \<Rightarrow> (c # p) # ps | [] \<Rightarrow> [[c]]))"

definition getBackupFileName :: "(int \<Rightarrow> string) \<Rightarrow> nat \<Rightarrow> int \<Rightarrow> string" where
  "getBackupFileName toISOString version mts =
     ''backup_v'' @ dec version @ ''_'' @ map (\<lambda>c. if c = CHR '':'' then CHR ''-'' else c) (toISOString mts) @ ''.db''"

text \<open>The version and the time in a name: of several the last one.\<close>

definition chunk_version :: "string \<Rightarrow> nat option" where
  "chunk_version s = (case s of
       c # cs \<Rightarrow> if c \<in> {CHR ''v'', CHR ''V''} \<and> cs \<noteq> [] \<and> list_all is_digit cs then Some (parse_nat cs) else None
     | [] \<Rightarrow> None)"

definition read_chunk :: "(string \<Rightarrow> int option) \<Rightarrow> nat option \<times> int \<Rightarrow> string \<Rightarrow> nat option \<times> int" where
  "read_chunk parseDate st chanck =
     ((case chunk_version chanck of Some v \<Rightarrow> Some v | None \<Rightarrow> fst st),
      (case parseDate chanck of Some t \<Rightarrow> t | None \<Rightarrow> snd st))"

definition trim_db :: "string \<Rightarrow> string" where
  "trim_db name = (if finishes_with (lower name) ''.db'' then take (length name - 3) name else name)"

definition read_name :: "(string \<Rightarrow> int option) \<Rightarrow> string \<Rightarrow> metadata option" where
  "read_name parseDate name =
     (if begins_with (lower name) ''backup'' \<and> finishes_with (lower name) ''.db'' then
        (case foldl (read_chunk parseDate) (None, 0) (split_at CHR ''_'' (trim_db name)) of
           (Some v, t) \<Rightarrow> Some \<lparr>mdName = name, mdVersion = v, mdMts = t\<rparr>
         | (None, t) \<Rightarrow> None)
      else None)"

definition meta_cmp :: "metadata \<Rightarrow> metadata \<Rightarrow> int" where
  "meta_cmp a b = (if mdVersion a \<noteq> mdVersion b then (if mdVersion a > mdVersion b then - 1 else 1)
     else if mdMts a \<noteq> mdMts b then (if mdMts a > mdMts b then - 1 else 1) else 0)"

text \<open>The folder: names with the mark that they are files, in the order of the file system.\<close>

definition getBackupFilesMetadata :: "(string \<Rightarrow> int option) \<Rightarrow> (string \<times> bool) list \<Rightarrow> metadata list" where
  "getBackupFilesMetadata parseDate dir =
     sort_by meta_cmp (List.map_filter (\<lambda>(name, isFile). if isFile then read_name parseDate name else None) dir)"

subsection \<open>Which files are kept\<close>

fun firstUniqFilesByVer :: "metadata list \<Rightarrow> metadata list" where
  "firstUniqFilesByVer [] = []"
| "firstUniqFilesByVer (m # ms) = m # filter (\<lambda>x. mdVersion x \<noteq> mdVersion m) (firstUniqFilesByVer ms)"

definition top_version :: "metadata list \<Rightarrow> nat option" where
  "top_version excludedFiles = (case excludedFiles of [] \<Rightarrow> None | m # _ \<Rightarrow> Some (mdVersion m))"

definition is_kept :: "metadata list \<Rightarrow> metadata \<Rightarrow> bool" where
  "is_kept excludedFiles metadata \<longleftrightarrow>
     length (filter (\<lambda>m. mdVersion m \<noteq> mdVersion metadata) (firstUniqFilesByVer excludedFiles)) < 2 \<and>
     length (filter (\<lambda>m. mdVersion m = mdVersion metadata \<and> top_version excludedFiles \<noteq> Some (mdVersion m)) excludedFiles) < 1 \<and>
     length (filter (\<lambda>m. mdVersion m = mdVersion metadata \<and> top_version excludedFiles = Some (mdVersion m)) excludedFiles) < 2"

fun manage_loop :: "metadata list \<Rightarrow> metadata list \<Rightarrow> metadata list \<Rightarrow> metadata list \<times> metadata list" where
  "manage_loop excludedFiles removedFiles [] = (excludedFiles, removedFiles)"
| "manage_loop excludedFiles removedFiles (m # ms) =
     (if excludedFiles = [] \<and> removedFiles = [] \<or> is_kept excludedFiles m then manage_loop (excludedFiles @ [m]) removedFiles ms
      else manage_loop excludedFiles (removedFiles @ [m]) ms)"

definition manageDBBackupFiles :: "metadata list \<Rightarrow> metadata list \<times> metadata list" where
  "manageDBBackupFiles backupFilesMetadata = manage_loop [] [] backupFilesMetadata"

text \<open>Which file a restoration takes: the named one, or the newest of the highest version that fits.\<close>

definition suitableBackup :: "nat \<Rightarrow> string option \<Rightarrow> metadata list \<Rightarrow> metadata option" where
  "suitableBackup version name metadata = find (\<lambda>m. case name of
       Some n \<Rightarrow> if n = [] then mdVersion m \<le> version else mdName m = n
     | None \<Rightarrow> mdVersion m \<le> version) metadata"

end
