(* ===== verification/Db_Backup_Props.thy ===== *)
theory Db_Backup_Props
  imports Db_Backup
begin

text \<open>Names are read back, the kept files, and the file that is restored.\<close>

subsection \<open>Names\<close>

lemma of_char_digit: "d < 10 \<Longrightarrow> (of_char (digit d) :: nat) = 48 + d"
proof -
  assume "d < 10"
  then have "d \<in> {0, 1, 2, 3, 4, 5, 6, 7, 8, 9}" by auto
  then show ?thesis by (elim insertE emptyE) (simp_all add: digit_def)
qed

lemma is_digit_simps: "is_digit c \<Longrightarrow> c \<noteq> CHR ''_'' \<and> lower_letter c = c"
proof -
  assume "is_digit c"
  then obtain d where d: "d < 10" "c = digit d" by (auto simp: is_digit_def)
  then have "(of_char c :: nat) = 48 + d" by (simp add: of_char_digit)
  moreover have "(of_char (CHR ''_'') :: nat) = 95" by (simp add: of_char_def)
  ultimately show ?thesis using d(1) by (auto simp: lower_letter_def Let_def)
qed

lemma dec_all_digits: "list_all is_digit (dec n)"
  using dec_digits[of n] by (simp add: is_digit_def[abs_def])

lemma parse_dec: "parse_nat (dec n) = n"
proof (induction n rule: dec.induct)
  case (1 n)
  show ?case
  proof (cases "n < 10")
    case True
    then show ?thesis by (simp add: dec_small parse_nat_def digit_val_def of_char_digit)
  next
    case False
    then show ?thesis using 1 by (simp add: dec_large parse_nat_def digit_val_def of_char_digit)
  qed
qed

lemma split_at_append:
  "sep \<notin> set a \<Longrightarrow> split_at sep (a @ sep # b) = a # split_at sep b" "sep \<notin> set a \<Longrightarrow> split_at sep a = [a]"
  by (induction a) auto

lemma lower_append: "lower (a @ b) = lower a @ lower b"
  by (simp add: lower_def)

lemma lower_plain: "lower ''backup_v'' = ''backup_v''" "lower ''.db'' = ''.db''"
  by (simp_all add: lower_def lower_letter_def of_char_def)

lemma finishes_with_append: "finishes_with (a @ p) p"
  by (simp add: finishes_with_def)

text \<open>
  A backup is found again under the version and the time it was made with. What is used of times as
  text: it has no underscore and no V, and without colons it is still read as the time.
\<close>

theorem backup_name_read_back:
  assumes "CHR ''_'' \<notin> set (isoText t)" "\<forall>c\<in>set (isoText t). c \<notin> {CHR ''v'', CHR ''V''}"
    "parseDate (map (\<lambda>c. if c = CHR '':'' then CHR ''-'' else c) (isoText t)) = Some t"
  shows "read_name parseDate (getBackupFileName isoText v t) = Some \<lparr>mdName = getBackupFileName isoText v t, mdVersion = v, mdMts = t\<rparr>"
proof -
  let ?t = "map (\<lambda>c. if c = CHR '':'' then CHR ''-'' else c) (isoText t)" and ?name = "getBackupFileName isoText v t"
  have name: "?name = ''backup'' @ CHR ''_'' # (CHR ''v'' # dec v) @ CHR ''_'' # ?t @ ''.db''"
    by (simp add: getBackupFileName_def)
  have low: "lower ?name = ''backup_v'' @ lower (dec v @ ''_'' @ ?t) @ ''.db''"
  proof -
    have "?name = ''backup_v'' @ (dec v @ ''_'' @ ?t) @ ''.db''" by (simp add: getBackupFileName_def)
    then show ?thesis by (simp only: lower_append[of "''backup_v''"] lower_append[of _ "''.db''"] lower_plain)
  qed
  have starts: "begins_with (lower ?name) ''backup''" unfolding low by (simp add: begins_with_def)
  have ends: "finishes_with (lower ?name) ''.db''" unfolding low append_assoc[symmetric] by (rule finishes_with_append)
  have trim: "trim_db ?name = ''backup'' @ CHR ''_'' # (CHR ''v'' # dec v) @ CHR ''_'' # ?t"
    using ends unfolding trim_db_def by (simp add: name)
  have "CHR ''_'' \<notin> set (CHR ''v'' # dec v)"
    using dec_all_digits[of v] is_digit_simps by (auto simp: list_all_iff)
  moreover have "CHR ''_'' \<notin> set ?t" using assms(1) by auto
  ultimately have split: "split_at CHR ''_'' (trim_db ?name) = [''backup'', CHR ''v'' # dec v, ?t]"
    unfolding trim by (simp add: split_at_append del: append.simps)
  have "chunk_version ?t = None"
    using assms(2) by (cases "isoText t") (auto simp: chunk_version_def)
  moreover have "chunk_version (CHR ''v'' # dec v) = Some v"
    using dec_all_digits[of v] by (simp add: chunk_version_def parse_dec)
  ultimately show ?thesis
    using starts ends split assms(3) by (simp add: read_name_def read_chunk_def)
qed

theorem backup_name_read_back_witness:
  "read_name (\<lambda>s. if s = ''2021-11-05T00-00-00.000Z'' then Some 5 else None)
     (getBackupFileName (\<lambda>t. ''2021-11-05T00:00:00.000Z'') 26 5) =
   Some \<lparr>mdName = getBackupFileName (\<lambda>t. ''2021-11-05T00:00:00.000Z'') 26 5, mdVersion = 26, mdMts = 5\<rparr>"
  by (rule backup_name_read_back) simp_all

subsection \<open>Files that are kept\<close>

lemma uniq_same:
  assumes "\<forall>m\<in>set ms. mdVersion m = t"
  shows "firstUniqFilesByVer ms = take 1 ms"
  using assms
proof (induction ms)
  case (Cons a ms)
  then show ?case by (cases ms) auto
qed simp

lemma uniq_two:
  assumes "\<forall>m\<in>set ms. mdVersion m = t" "ms \<noteq> []" "mdVersion x \<noteq> t"
  shows "firstUniqFilesByVer (ms @ [x]) = [hd ms, x]"
  using assms
proof (induction ms)
  case (Cons a ms)
  then show ?case by (cases ms) auto
qed simp

lemma filter_all_or_none:
  "\<forall>m\<in>set ms. mdVersion m = t \<Longrightarrow> filter (\<lambda>m. mdVersion m = v \<and> P (mdVersion m)) ms = (if v = t \<and> P t then ms else [])"
  by (induction ms) auto

lemma is_kept_same:
  assumes "\<forall>m\<in>set ex. mdVersion m = t" "ex \<noteq> []" "mdVersion m = t"
  shows "is_kept ex m \<longleftrightarrow> length ex < 2"
proof -
  have "top_version ex = Some t" using assms by (cases ex) (auto simp: top_version_def)
  then show ?thesis
    using assms filter_all_or_none[OF assms(1), of t "\<lambda>v. v \<noteq> t"] filter_all_or_none[OF assms(1), of t "\<lambda>v. v = t"]
    by (cases ex) (auto simp: is_kept_def uniq_same)
qed

lemma is_kept_second:
  assumes "\<forall>m\<in>set ex. mdVersion m = t" "ex \<noteq> []" "mdVersion m \<noteq> t"
  shows "is_kept ex m"
proof -
  have "filter (\<lambda>x. mdVersion x = mdVersion m \<and> P x) ex = []" for P
    using assms by (auto simp: filter_empty_conv)
  moreover have "length (filter P (take 1 ex)) < 2" for P
    by (rule le_less_trans[OF length_filter_le]) simp
  ultimately show ?thesis by (simp add: is_kept_def uniq_same[OF assms(1)])
qed

lemma is_kept_third:
  assumes "\<forall>m\<in>set ex. mdVersion m = t" "ex \<noteq> []" "mdVersion x \<noteq> t" "mdVersion m \<noteq> t"
  shows "\<not> is_kept (ex @ [x]) m"
proof (cases "mdVersion m = mdVersion x")
  case True
  have "top_version (ex @ [x]) = Some t" using assms by (cases ex) (auto simp: top_version_def)
  then show ?thesis using True assms(3) by (auto simp: is_kept_def)
next
  case False
  then have "length (filter (\<lambda>y. mdVersion y \<noteq> mdVersion m) (firstUniqFilesByVer (ex @ [x]))) = 2"
    using assms by (subst uniq_two) auto
  then show ?thesis by (simp add: is_kept_def)
qed

lemma manage_same:
  assumes "\<forall>m\<in>set ex. mdVersion m = t" "ex \<noteq> []" "\<forall>m\<in>set ms. mdVersion m = t"
  shows "manage_loop ex gone (ms @ rest) = manage_loop (ex @ take (2 - length ex) ms) (gone @ drop (2 - length ex) ms) rest"
  using assms
proof (induction ms arbitrary: ex gone)
  case (Cons m ms)
  show ?case
  proof (cases "length ex < 2")
    case True
    then have "length ex = 1" using Cons.prems(2) by (cases ex) auto
    moreover from this have "is_kept ex m" using is_kept_same[of ex t m] Cons.prems True by simp
    ultimately show ?thesis using Cons by simp
  next
    case False
    then have "\<not> is_kept ex m" using is_kept_same[of ex t m] Cons.prems by simp
    then show ?thesis using Cons False by simp
  qed
qed simp

lemma manage_third:
  assumes "\<forall>m\<in>set ex. mdVersion m = t" "ex \<noteq> []" "mdVersion x \<noteq> t" "\<forall>m\<in>set ms. mdVersion m \<noteq> t"
  shows "manage_loop (ex @ [x]) gone ms = (ex @ [x], gone @ ms)"
  using assms(4)
proof (induction ms arbitrary: gone)
  case (Cons m ms)
  then have "\<not> is_kept (ex @ [x]) m" using assms by (intro is_kept_third) auto
  then show ?case using Cons by simp
qed simp

lemma manage_rest:
  assumes "\<forall>m\<in>set ex. mdVersion m = t" "ex \<noteq> []" "\<forall>m\<in>set ms. mdVersion m \<noteq> t"
  shows "manage_loop ex gone ms = (ex @ take 1 ms, gone @ drop 1 ms)"
proof (cases ms)
  case (Cons m rest)
  then show ?thesis using assms manage_third[of ex t m rest gone] is_kept_second[of ex t m] by simp
qed simp

lemma descending_split:
  assumes "sorted_wrt (\<lambda>a b. mdVersion b \<le> mdVersion a) (m # ms)"
  shows "filter (\<lambda>x. mdVersion x = mdVersion m) (m # ms) @ filter (\<lambda>x. mdVersion x \<noteq> mdVersion m) (m # ms) = m # ms"
proof -
  have "filter (\<lambda>x. mdVersion x = t) xs @ filter (\<lambda>x. mdVersion x \<noteq> t) xs = xs"
    if "sorted_wrt (\<lambda>a b. mdVersion b \<le> mdVersion a) xs" "\<forall>x\<in>set xs. mdVersion x \<le> t" for xs t
    using that
  proof (induction xs)
    case (Cons x xs)
    show ?case
    proof (cases "mdVersion x = t")
      case False
      then have "\<forall>y\<in>set xs. mdVersion y \<noteq> t" using Cons.prems by force
      then show ?thesis using False by (auto simp: filter_empty_conv intro!: filter_True[symmetric])
    qed (use Cons in auto)
  qed simp
  from this[OF assms, of "mdVersion m"] assms show ?thesis by simp
qed

text \<open>
  C40: of the files in the order of their versions, the newest first, the first two of the highest version are
  kept and the first of the next version; all others are removed.
\<close>

theorem kept_backups:
  assumes "sorted_wrt (\<lambda>a b. mdVersion b \<le> mdVersion a) (m # ms)"
  defines "highest \<equiv> filter (\<lambda>x. mdVersion x = mdVersion m) (m # ms)"
    and "lower_ones \<equiv> filter (\<lambda>x. mdVersion x \<noteq> mdVersion m) (m # ms)"
  shows "manageDBBackupFiles (m # ms) = (take 2 highest @ take 1 lower_ones, drop 2 highest @ drop 1 lower_ones)"
proof -
  let ?h = "filter (\<lambda>x. mdVersion x = mdVersion m) ms"
  have "manageDBBackupFiles (m # ms) = manage_loop [m] [] ms" by (simp add: manageDBBackupFiles_def)
  also have "\<dots> = manage_loop [m] [] (?h @ lower_ones)"
  proof -
    have "?h @ lower_ones = ms" using descending_split[OF assms(1)] unfolding lower_ones_def by simp
    then show ?thesis by (simp only:)
  qed
  also have "\<dots> = manage_loop ([m] @ take (2 - length [m]) ?h) ([] @ drop (2 - length [m]) ?h) lower_ones"
    by (rule manage_same[of _ "mdVersion m"]) simp_all
  also have "\<dots> = (([m] @ take (2 - length [m]) ?h) @ take 1 lower_ones, ([] @ drop (2 - length [m]) ?h) @ drop 1 lower_ones)"
    by (rule manage_rest[of _ "mdVersion m"]) (auto simp: lower_ones_def dest: in_set_takeD)
  finally show ?thesis by (simp add: highest_def numeral_2_eq_2)
qed

definition sample_backups :: "metadata list" where
  "sample_backups = map (\<lambda>(v, t). \<lparr>mdName = ''backup_v'' @ dec v, mdVersion = v, mdMts = t\<rparr>)
     [(26, 9), (26, 7), (26, 5), (25, 8), (25, 4), (24, 6)]"

theorem kept_backups_witness:
  "map mdMts (fst (manageDBBackupFiles sample_backups)) = [9, 7, 8] \<and>
   map mdMts (snd (manageDBBackupFiles sample_backups)) = [5, 4, 6]"
  using kept_backups[of "hd sample_backups" "tl sample_backups"] by (simp add: sample_backups_def)

end
