(* ===== verification/Db_Migrate.thy ===== *)
theory Db_Migrate
  imports Db_Backup
begin

text \<open>
  \<^verbatim>\<open>sync/dao/db-migrations/\<close> (\<^verbatim>\<open>migration.js\<close>, \<^verbatim>\<open>sqlite-migrations/abstract.migration.js\<close>, \<^verbatim>\<open>db.migrator.js\<close>,
  \<^verbatim>\<open>sqlite.db.migrator.js\<close>), \<^verbatim>\<open>di/factories/migrations-factory.js\<close> and \<^verbatim>\<open>databaseInitialize\<close> of the database layer: how an
  old database is brought to the version that the program supports, with backups and the choice of the
  user when that fails. A statement of a migration is a function on the content that may fail.
\<close>

datatype mig_error =
    Sql_Failed string
  | Db_Version_Type_Error
  | Migration_Launching_Error
  | Hook_Failed string

datatype sent =
    Ready_Migrations
  | Error_Migrations
  | Backup_Started
  | Backup_Finished
  | Error_Backup
  | Ask_What_To_Do
  | Ask_Remove_All "bool"
  | Db_Restored "bool"
  | All_Removed
  | Not_Removed

record 'd world =
  woFile :: "'d db_file"
  woBackups :: "'d backup list"
  woLegacyAlter :: bool
  woForeignKeys :: bool
  woScheduler :: bool
  woSent :: "sent list"

type_synonym ('d, 'a) mig_action = "('d world, mig_error, 'a) action"

record 'd migration =
  mgVersion :: nat
  mgBefore :: "('d, unit) mig_action"
  mgBeforeUp :: "('d, unit) mig_action"
  mgBeforeDown :: "('d, unit) mig_action"
  mgAfter :: "('d, unit) mig_action"
  mgAfterUp :: "('d, unit) mig_action"
  mgAfterDown :: "('d, unit) mig_action"
  mgUp :: "('d \<Rightarrow> string + 'd) list"
  mgDown :: "('d \<Rightarrow> string + 'd) list"

text \<open>What the rest of the program does with the content, the clock, the folder, and the answer of the user.\<close>

record 'd mig_env =
  meSupported :: nat
  meMigrations :: "'d migration list"
  meIsEmpty :: "'d \<Rightarrow> bool"
  meDropAll :: "'d \<Rightarrow> string + 'd"
  meCleanUpTemp :: "'d \<Rightarrow> string + 'd"
  meUpdateUsers :: "'d \<Rightarrow> string + 'd"
  meCreate :: "'d \<Rightarrow> string + 'd"
  meIso :: "int \<Rightarrow> string"
  meNow :: int
  meBackupFails :: bool
  meShouldRestore :: bool
  meShouldRemove :: bool

subsection \<open>The connection\<close>

definition setCurrDbVer :: "nat \<Rightarrow> ('d, unit) mig_action" where
  "setCurrDbVer v = change_state (\<lambda>w. w\<lparr>woFile := (woFile w)\<lparr>dfVer := v\<rparr>\<rparr>)"

definition set_foreign_keys :: "bool \<Rightarrow> ('d, unit) mig_action" where
  "set_foreign_keys b = change_state (\<lambda>w. w\<lparr>woForeignKeys := b\<rparr>)"

definition set_legacy :: "bool \<Rightarrow> ('d, unit) mig_action" where
  "set_legacy b = change_state (\<lambda>w. w\<lparr>woLegacyAlter := b\<rparr>)"

definition send :: "sent \<Rightarrow> ('d, unit) mig_action" where
  "send m = change_state (\<lambda>w. w\<lparr>woSent := woSent w @ [m]\<rparr>)"

definition do_then :: "('d, unit) mig_action \<Rightarrow> ('d, 'a) mig_action \<Rightarrow> ('d, 'a) mig_action" where
  "do_then m n = and_then m (\<lambda>u. n)"

text \<open>All statements in one transaction.\<close>

fun run_sqls :: "('d \<Rightarrow> string + 'd) list \<Rightarrow> 'd \<Rightarrow> string + 'd" where
  "run_sqls [] d = Inr d"
| "run_sqls (f # fs) d = bind_err (f d) (run_sqls fs)"

definition executeInTrans :: "('d \<Rightarrow> string + 'd) list \<Rightarrow> ('d, unit) mig_action" where
  "executeInTrans sqlArr w = (case run_sqls sqlArr (dfData (woFile w)) of
       Inl e \<Rightarrow> (Inl (Sql_Failed e), w)
     | Inr d \<Rightarrow> (Inr (), w\<lparr>woFile := (woFile w)\<lparr>dfData := d\<rparr>\<rparr>))"

text \<open>\<^verbatim>\<open>beforeMigrationHook\<close>: of its settings of the connection the one that matters here.\<close>

definition beforeMigrationHook :: "('d, unit) mig_action" where
  "beforeMigrationHook = set_foreign_keys True"

subsection \<open>One migration\<close>

definition execute :: "'d migration \<Rightarrow> bool \<Rightarrow> ('d, unit) mig_action" where
  "execute m isDown =
     (let sqlArr = (if isDown then mgDown m else mgUp m) in
      if mgVersion m = 0 \<or> sqlArr = [] then give ()
      else do_then (executeInTrans sqlArr) (setCurrDbVer (if isDown then mgVersion m - 1 else mgVersion m)))"

definition launch :: "'d migration \<Rightarrow> bool \<Rightarrow> ('d, unit) mig_action" where
  "launch m isDown = do_then (mgBefore m)
     (if isDown then do_then (mgBeforeDown m) (do_then (execute m isDown) (do_then (mgAfterDown m) (mgAfter m)))
      else do_then (mgBeforeUp m) (do_then (execute m isDown) (do_then (mgAfterUp m) (mgAfter m))))"

subsection \<open>The migrator\<close>

text \<open>From the version after the smaller one up to the greater one; backwards when the database is newer.\<close>

definition range_of :: "nat \<Rightarrow> nat \<Rightarrow> nat list" where
  "range_of start e = (if start > e then rev [e + 1..<start + 1] else [start + 1..<e + 1])"

definition lookUpMigrations :: "'d migration list \<Rightarrow> nat \<Rightarrow> 'd migration list" where
  "lookUpMigrations ms v = filter (\<lambda>m. mgVersion m = v) ms"

fun getMigrations :: "'d migration list \<Rightarrow> nat list \<Rightarrow> ('d, 'd migration list) mig_action" where
  "getMigrations ms [] = give []"
| "getMigrations ms (v # vs) =
     (if lookUpMigrations ms v = [] then do_then (send Error_Migrations) (throw Migration_Launching_Error)
      else and_then (getMigrations ms vs) (\<lambda>rest. give (lookUpMigrations ms v @ rest)))"

fun launch_all :: "'d migration list \<Rightarrow> bool \<Rightarrow> ('d, unit) mig_action" where
  "launch_all [] isDown = give ()"
| "launch_all (m # ms) isDown =
     do_then (try_catch (launch m isDown) (\<lambda>err. do_then (send Error_Migrations) (throw Migration_Launching_Error)))
       (launch_all ms isDown)"

definition migrate :: "'d mig_env \<Rightarrow> nat list \<Rightarrow> bool \<Rightarrow> ('d, unit) mig_action" where
  "migrate env versions isDown = and_then (getMigrations (meMigrations env) versions) (\<lambda>migrations.
     do_then (launch_all migrations isDown) (send Ready_Migrations))"

text \<open>A backup that fails is reported, and the migrations go on.\<close>

definition manage_backups :: "'d backup list \<Rightarrow> 'd backup list" where
  "manage_backups bs =
     (let kept = fst (manageDBBackupFiles (sort_by meta_cmp (map bkMeta bs)))
      in filter (\<lambda>b. bkMeta b \<in> set kept) bs)"

definition backupDb :: "'d mig_env \<Rightarrow> nat \<Rightarrow> ('d, unit) mig_action" where
  "backupDb env currVer = do_then (send Backup_Started)
     (if meBackupFails env then send Error_Backup
      else do_then (change_state (\<lambda>w. w\<lparr>woBackups := manage_backups (\<lparr>bkMeta = \<lparr>mdName = getBackupFileName (meIso env) currVer (meNow env),
             mdVersion = currVer, mdMts = meNow env\<rparr>, bkFile = woFile w\<rparr> #
               filter (\<lambda>b. mdName (bkMeta b) \<noteq> getBackupFileName (meIso env) currVer (meNow env)) (woBackups w))\<rparr>))
           (send Backup_Finished))"

definition base_migrate :: "'d mig_env \<Rightarrow> ('d, unit) mig_action" where
  "base_migrate env =
     and_then (read_state (\<lambda>w. woFile w)) (\<lambda>f.
       if meIsEmpty env (dfData f) \<or> dfVer f = meSupported env then give ()
       else do_then (backupDb env (dfVer f))
         (do_then (migrate env (range_of (dfVer f) (meSupported env)) (dfVer f > meSupported env))
           (do_then (executeInTrans [meCleanUpTemp env]) (executeInTrans [meUpdateUsers env]))))"

text \<open>The newest backup of the highest supported version replaces the file, over a new connection.\<close>

definition find_backup :: "'d mig_env \<Rightarrow> 'd backup list \<Rightarrow> 'd backup option" where
  "find_backup env bs =
     Option.bind (suitableBackup (meSupported env) None (sort_by meta_cmp (map bkMeta bs)))
       (\<lambda>m. find (\<lambda>b. bkMeta b = m) bs)"

definition restoreDb :: "'d mig_env \<Rightarrow> ('d, bool) mig_action" where
  "restoreDb env = and_then (read_state (\<lambda>w. find_backup env (woBackups w))) (\<lambda>found. case found of
       None \<Rightarrow> give False
     | Some b \<Rightarrow> do_then (change_state (\<lambda>w. w\<lparr>woScheduler := False\<rparr>))
         (do_then (change_state (\<lambda>w. w\<lparr>woFile := bkFile b, woLegacyAlter := False\<rparr>))
         (do_then beforeMigrationHook
         (do_then (change_state (\<lambda>w. w\<lparr>woScheduler := True\<rparr>))
         (do_then (send (Db_Restored (mdVersion (bkMeta b) \<noteq> meSupported env))) (give True))))))"

definition removeAllTables :: "'d mig_env \<Rightarrow> ('d, unit) mig_action" where
  "removeAllTables env = do_then (set_foreign_keys False)
     (do_then (try_catch (do_then (executeInTrans [meDropAll env]) (setCurrDbVer 0))
        (\<lambda>err. do_then (set_foreign_keys True) (throw err)))
     (do_then (set_foreign_keys True) (send All_Removed)))"

text \<open>
  The removal runs as a state of the messages between processes: when it fails its handler is called again
  with the error, which is reported. \<^verbatim>\<open>processState\<close> then returns as usual, while a promise that
  waits for the state is rejected.
\<close>

definition process_removal :: "'d mig_env \<Rightarrow> ('d, unit) mig_action" where
  "process_removal env = try_catch (removeAllTables env) (\<lambda>err. send Not_Removed)"

definition awaited_removal :: "'d mig_env \<Rightarrow> ('d, unit) mig_action" where
  "awaited_removal env = try_catch (removeAllTables env) (\<lambda>err. do_then (send Not_Removed) (throw err))"

text \<open>
  Only a failed migration leaves a choice: to restore, or to remove all tables. When there is nothing to
  restore, the user is asked to remove them, and the code waits until that has been done.
\<close>

definition migrateFromCurrToSupportedVer :: "'d mig_env \<Rightarrow> ('d, unit) mig_action" where
  "migrateFromCurrToSupportedVer env =
     try_catch (do_then (set_legacy True) (do_then (base_migrate env) (set_legacy False)))
       (\<lambda>err. if err \<noteq> Migration_Launching_Error then throw err
         else do_then (send Ask_What_To_Do)
           (if meShouldRestore env then and_then (restoreDb env) (\<lambda>isDbRestored.
              if isDbRestored then give ()
              else do_then (send (Ask_Remove_All (\<not> isDbRestored))) (awaited_removal env))
            else if meShouldRemove env then process_removal env
            else throw err))"

definition databaseInitialize :: "'d mig_env \<Rightarrow> ('d, unit) mig_action" where
  "databaseInitialize env = do_then beforeMigrationHook (do_then (migrateFromCurrToSupportedVer env)
     (do_then (executeInTrans [meCreate env]) (setCurrDbVer (meSupported env))))"

end
