(* ===== verification/Db_Migrate_Props.thy ===== *)
theory Db_Migrate_Props
  imports Db_Migrate
begin

text \<open>
  Whether the version that a database carries names the form of its content. What the migrations do is
  not looked into: \<open>fits v d\<close> says that the content \<open>d\<close> has the form of version \<open>v\<close>.
\<close>

subsection \<open>Conditions before and after\<close>

type_synonym 'd view = "'d db_file \<times> 'd backup list"

definition view :: "'d world \<Rightarrow> 'd view" where
  "view w = (woFile w, woBackups w)"

definition runs :: "('d view \<Rightarrow> bool) \<Rightarrow> ('d, 'a) mig_action \<Rightarrow> ('a \<Rightarrow> 'd view \<Rightarrow> bool) \<Rightarrow> ('d view \<Rightarrow> bool) \<Rightarrow> bool" where
  "runs P m Q E \<longleftrightarrow> (\<forall>w. P (view w) \<longrightarrow> (case m w of (Inr x, w') \<Rightarrow> Q x (view w') | (Inl e, w') \<Rightarrow> E (view w')))"

lemma runsD: "runs P m Q E \<Longrightarrow> P (view w) \<Longrightarrow> m w = (Inr x, w') \<Longrightarrow> Q x (view w')"
  unfolding runs_def by (metis (mono_tags, lifting) case_prod_conv sum.case(2))

lemma runsE: "runs P m Q E \<Longrightarrow> P (view w) \<Longrightarrow> m w = (Inl e, w') \<Longrightarrow> E (view w')"
  unfolding runs_def by (metis (mono_tags, lifting) case_prod_conv sum.case(1))

named_theorems runs_rules

lemma runs_give: "(\<And>v. P v \<Longrightarrow> Q x v) \<Longrightarrow> runs P (give x) Q E"
  by (simp add: runs_def)

lemma runs_throw: "(\<And>v. P v \<Longrightarrow> E v) \<Longrightarrow> runs P (throw e) Q E"
  by (simp add: runs_def)

lemma runs_and_then:
  "runs P m R E \<Longrightarrow> (\<And>x. runs (R x) (f x) Q E) \<Longrightarrow> runs P (and_then m f) Q E"
  by (fastforce simp: runs_def and_then_def split: prod.splits sum.splits)

lemma runs_do_then: "runs P m (\<lambda>u. R) E \<Longrightarrow> runs R n Q E \<Longrightarrow> runs P (do_then m n) Q E"
  unfolding do_then_def by (rule runs_and_then)

lemma runs_try_catch:
  "runs P m Q F \<Longrightarrow> (\<And>e. runs F (h e) Q E) \<Longrightarrow> runs P (try_catch m h) Q E"
  by (fastforce simp: runs_def try_catch_def split: prod.splits sum.splits)

lemma runs_weaken:
  assumes "runs P m Q E" "\<And>v. P' v \<Longrightarrow> P v" "\<And>x v. Q x v \<Longrightarrow> Q' x v" "\<And>v. E v \<Longrightarrow> E' v"
  shows "runs P' m Q' E'"
  unfolding runs_def
proof (intro allI impI)
  fix w assume "P' (view w)"
  then have P: "P (view w)" by (rule assms(2))
  obtain r w' where m: "m w = (r, w')" by (cases "m w")
  show "case m w of (Inr x, w') \<Rightarrow> Q' x (view w') | (Inl e, w') \<Rightarrow> E' (view w')"
  proof (cases r)
    case (Inl e)
    then show ?thesis using runsE[OF assms(1) P] m assms(4) by simp
  next
    case (Inr x)
    then show ?thesis using runsD[OF assms(1) P] m assms(3) by simp
  qed
qed

text \<open>Actions that leave the file and the backups alone.\<close>

definition keeps_view :: "('d, 'a) mig_action \<Rightarrow> bool" where
  "keeps_view m \<longleftrightarrow> (\<forall>w. view (snd (m w)) = view w)"

lemma runs_keeps: "keeps_view m \<Longrightarrow> (\<And>v. P v \<Longrightarrow> E v) \<Longrightarrow> runs P m (\<lambda>x. P) E"
  unfolding runs_def
proof (intro allI impI)
  fix w assume keeps: "keeps_view m" and E: "\<And>v. P v \<Longrightarrow> E v" and P: "P (view w)"
  obtain r w' where m: "m w = (r, w')" by (cases "m w")
  with keeps have "view w' = view w" unfolding keeps_view_def by (metis snd_conv)
  then show "case m w of (Inr x, w') \<Rightarrow> P (view w') | (Inl e, w') \<Rightarrow> E (view w')"
    using m P E by (cases r) simp_all
qed

lemma keeps_send [simp]: "keeps_view (send m)"
  and keeps_settings [simp]: "keeps_view (set_foreign_keys b)" "keeps_view (set_legacy b)" "keeps_view beforeMigrationHook"
  by (simp_all add: keeps_view_def view_def send_def set_foreign_keys_def set_legacy_def beforeMigrationHook_def)

subsection \<open>Content and version\<close>

definition named :: "(nat \<Rightarrow> 'd \<Rightarrow> bool) \<Rightarrow> 'd view \<Rightarrow> bool" where
  "named fits v \<longleftrightarrow> fits (dfVer (fst v)) (dfData (fst v)) \<and> (\<forall>b\<in>set (snd v). fits (dfVer (bkFile b)) (dfData (bkFile b)))"

definition at_version :: "(nat \<Rightarrow> 'd \<Rightarrow> bool) \<Rightarrow> nat \<Rightarrow> 'd view \<Rightarrow> bool" where
  "at_version fits n v \<longleftrightarrow> named fits v \<and> fits n (dfData (fst v))"

definition migration_ok :: "(nat \<Rightarrow> 'd \<Rightarrow> bool) \<Rightarrow> 'd migration \<Rightarrow> bool" where
  "migration_ok fits m \<longleftrightarrow> mgVersion m \<noteq> 0 \<and>
     list_all keeps_view [mgBefore m, mgBeforeUp m, mgBeforeDown m, mgAfter m, mgAfterUp m, mgAfterDown m] \<and>
     (\<forall>d d'. fits (mgVersion m - 1) d \<longrightarrow> run_sqls (mgUp m) d = Inr d' \<longrightarrow> fits (mgVersion m) d') \<and>
     (\<forall>d d'. fits (mgVersion m) d \<longrightarrow> run_sqls (mgDown m) d = Inr d' \<longrightarrow> fits (mgVersion m - 1) d')"

definition env_ok :: "(nat \<Rightarrow> 'd \<Rightarrow> bool) \<Rightarrow> 'd mig_env \<Rightarrow> bool" where
  "env_ok fits env \<longleftrightarrow> distinct (map mgVersion (meMigrations env)) \<and> (\<forall>m\<in>set (meMigrations env). migration_ok fits m) \<and>
     (\<forall>n d d'. fits n d \<longrightarrow> meCleanUpTemp env d = Inr d' \<longrightarrow> fits n d') \<and>
     (\<forall>n d d'. fits n d \<longrightarrow> meUpdateUsers env d = Inr d' \<longrightarrow> fits n d') \<and>
     (\<forall>d d'. fits (meSupported env) d \<or> meIsEmpty env d \<longrightarrow> meCreate env d = Inr d' \<longrightarrow> fits (meSupported env) d') \<and>
     (\<forall>d d'. meDropAll env d = Inr d' \<longrightarrow> fits 0 d' \<and> meIsEmpty env d')"

lemma runs_trans_keeps:
  "(\<And>k d d'. fits k d \<Longrightarrow> f d = Inr d' \<Longrightarrow> fits k d') \<Longrightarrow>
     runs (at_version fits n) (executeInTrans [f]) (\<lambda>u. at_version fits n) (named fits)"
  by (fastforce simp: runs_def executeInTrans_def at_version_def named_def view_def bind_err_eq_Inr split: sum.splits)

text \<open>Where a migration leads from, and where to.\<close>

definition before_version :: "bool \<Rightarrow> 'd migration \<Rightarrow> nat" where
  "before_version isDown m = (if isDown then mgVersion m else mgVersion m - 1)"

definition after_version :: "bool \<Rightarrow> 'd migration \<Rightarrow> nat" where
  "after_version isDown m = (if isDown then mgVersion m - 1 else mgVersion m)"

lemma runs_execute:
  assumes "migration_ok fits m"
  shows "runs (at_version fits (before_version isDown m)) (execute m isDown) (\<lambda>u. at_version fits (after_version isDown m)) (named fits)"
proof -
  let ?sql = "if isDown then mgDown m else mgUp m"
  have v: "mgVersion m \<noteq> 0" and sql: "fits (after_version isDown m) d'"
    if "fits (before_version isDown m) d" "run_sqls ?sql d = Inr d'" for d d'
    using assms that by (auto simp: migration_ok_def before_version_def after_version_def split: if_splits)
  show ?thesis
  proof (cases "?sql = []")
    case True
    then have "execute m isDown = give ()" by (auto simp: execute_def)
    moreover have "fits (after_version isDown m) d" if "fits (before_version isDown m) d" for d
      using sql[OF that, of d] True by simp
    ultimately show ?thesis by (auto simp: at_version_def intro!: runs_give)
  next
    case False
    have "mgVersion m \<noteq> 0" using assms by (simp add: migration_ok_def)
    with False have "execute m isDown = do_then (executeInTrans ?sql) (setCurrDbVer (after_version isDown m))"
      by (simp add: execute_def Let_def after_version_def)
    then show ?thesis
      using sql by (auto simp: runs_def do_then_def and_then_def executeInTrans_def setCurrDbVer_def at_version_def named_def
          view_def split: sum.splits)
  qed
qed

lemma runs_launch:
  assumes "migration_ok fits m"
  shows "runs (at_version fits (before_version isDown m)) (launch m isDown) (\<lambda>u. at_version fits (after_version isDown m)) (named fits)"
proof -
  have hooks: "keeps_view (mgBefore m)" "keeps_view (mgBeforeUp m)" "keeps_view (mgBeforeDown m)" "keeps_view (mgAfter m)"
    "keeps_view (mgAfterUp m)" "keeps_view (mgAfterDown m)"
    using assms by (simp_all add: migration_ok_def)
  have at: "runs (at_version fits n) h (\<lambda>u. at_version fits n) (named fits)" if "keeps_view h" for n and h :: "('a, unit) mig_action"
    using that by (rule runs_keeps) (simp add: at_version_def)
  show ?thesis
    unfolding launch_def
    by (cases isDown; simp only: if_True if_False; rule runs_do_then[OF at[OF hooks(1)]];
        rule runs_do_then[OF at]; (rule hooks)?; rule runs_do_then[OF runs_execute[OF assms]];
        rule runs_do_then[OF at]; (rule hooks)?; rule at[OF hooks(4)])
qed

text \<open>Migrations that follow one another.\<close>

fun chain :: "bool \<Rightarrow> nat \<Rightarrow> 'd migration list \<Rightarrow> nat \<Rightarrow> bool" where
  "chain isDown a [] b \<longleftrightarrow> a = b"
| "chain isDown a (m # ms) b \<longleftrightarrow> before_version isDown m = a \<and> chain isDown (after_version isDown m) ms b"

lemma runs_launch_all:
  "chain isDown a ms b \<Longrightarrow> \<forall>m\<in>set ms. migration_ok fits m \<Longrightarrow>
     runs (at_version fits a) (launch_all ms isDown) (\<lambda>u. at_version fits b) (named fits)"
proof (induction ms arbitrary: a)
  case (Cons m ms)
  have "runs (named fits) (do_then (send Error_Migrations) (throw Migration_Launching_Error)) Q (named fits)" for Q
    by (rule runs_do_then[OF runs_keeps]) (simp_all add: runs_throw)
  then have "runs (at_version fits a) (try_catch (launch m isDown)
      (\<lambda>err. do_then (send Error_Migrations) (throw Migration_Launching_Error)))
      (\<lambda>u. at_version fits (after_version isDown m)) (named fits)"
    using runs_launch[of fits m isDown] Cons.prems by (intro runs_try_catch) auto
  then show ?case using Cons by (simp add: runs_do_then)
qed (simp add: runs_give)

subsection \<open>The migrator\<close>

lemma singleton_list: "distinct xs \<Longrightarrow> set xs = {x} \<Longrightarrow> xs = [x]"
proof (cases xs)
  case (Cons y ys)
  assume "distinct xs" "set xs = {x}"
  with Cons have "y = x" "set ys \<subseteq> {x}" "x \<notin> set ys" by auto
  then have "ys = []" by (cases ys) auto
  with Cons \<open>y = x\<close> show ?thesis by simp
qed simp

lemma lookUp_one:
  assumes "distinct (map mgVersion ms)" "lookUpMigrations ms v \<noteq> []"
  obtains m where "lookUpMigrations ms v = [m]" "m \<in> set ms" "mgVersion m = v"
proof -
  obtain m where m: "m \<in> set ms" "mgVersion m = v"
    using assms(2) unfolding lookUpMigrations_def filter_empty_conv by blast
  have inj: "inj_on mgVersion (set ms)" and d: "distinct ms" using assms(1) by (simp_all add: distinct_map)
  have "distinct (lookUpMigrations ms v)" using d by (simp add: lookUpMigrations_def)
  moreover have "set (lookUpMigrations ms v) = {m}"
    unfolding lookUpMigrations_def set_filter using m inj_onD[OF inj, of m] by blast
  ultimately have "lookUpMigrations ms v = [m]"
    by (rule singleton_list)
  then show ?thesis using that m by blast
qed

lemma runs_getMigrations:
  fixes fits :: "nat \<Rightarrow> 'd \<Rightarrow> bool"
  assumes "distinct (map mgVersion ms)"
  shows "runs (at_version fits n) (getMigrations ms vs)
    (\<lambda>res v. at_version fits n v \<and> map mgVersion res = vs \<and> set res \<subseteq> set ms) (named fits)"
proof (induction vs)
  case Nil
  show ?case unfolding getMigrations.simps by (rule runs_give) simp
next
  case (Cons v vs)
  show ?case
  proof (cases "lookUpMigrations ms v = []")
    case True
    have "runs (at_version fits n) (do_then (send Error_Migrations) (throw Migration_Launching_Error)) Q (named fits)" for Q :: "'d migration list \<Rightarrow> _"
      by (rule runs_do_then[OF runs_keeps], simp, simp add: at_version_def, rule runs_throw, simp add: at_version_def)
    with True show ?thesis by simp
  next
    case False
    with assms obtain m where m: "lookUpMigrations ms v = [m]" "m \<in> set ms" "mgVersion m = v" by (rule lookUp_one)
    have "runs (at_version fits n) (and_then (getMigrations ms vs) (\<lambda>rest. give ([m] @ rest)))
        (\<lambda>res v'. at_version fits n v' \<and> map mgVersion res = v # vs \<and> set res \<subseteq> set ms) (named fits)"
      by (rule runs_and_then[OF Cons], rule runs_give) (use m in auto)
    with m show ?thesis by (simp only: getMigrations.simps list.simps if_False)
  qed
qed

lemma chain_up: "map mgVersion ms = [a + 1..<b + 1] \<Longrightarrow> a \<le> b \<Longrightarrow> chain False a ms b"
proof (induction ms arbitrary: a)
  case (Cons m ms)
  then have "a < b" by (cases "a < b") auto
  then have "[a + 1..<b + 1] = (a + 1) # [(a + 1) + 1..<b + 1]" by (simp add: upt_conv_Cons del: upt_Suc)
  with Cons.prems have "mgVersion m = a + 1" "map mgVersion ms = [(a + 1) + 1..<b + 1]" by simp_all
  with Cons.IH[of "a + 1"] \<open>a < b\<close> show ?case by (simp add: before_version_def after_version_def del: upt_Suc)
qed (simp split: if_splits)

lemma chain_down: "map mgVersion ms = rev [b + 1..<a + 1] \<Longrightarrow> b \<le> a \<Longrightarrow> chain True a ms b"
proof (induction ms arbitrary: a)
  case (Cons m ms)
  then have "b < a" by (cases "b < a") auto
  then obtain k where k: "a = Suc k" "b \<le> k" by (cases a) auto
  with Cons show ?case by (auto simp: before_version_def after_version_def)
qed (simp split: if_splits)

lemma runs_migrate:
  assumes env: "env_ok fits env"
  shows "runs (at_version fits a) (migrate env (range_of a b) (a > b)) (\<lambda>u. at_version fits b) (named fits)"
  unfolding migrate_def
proof (rule runs_and_then[OF runs_getMigrations])
  show "distinct (map mgVersion (meMigrations env))" using env by (simp add: env_ok_def)
  fix ms
  show "runs (\<lambda>v. at_version fits a v \<and> map mgVersion ms = range_of a b \<and> set ms \<subseteq> set (meMigrations env))
      (do_then (launch_all ms (a > b)) (send Ready_Migrations)) (\<lambda>u. at_version fits b) (named fits)"
  proof (cases "map mgVersion ms = range_of a b \<and> set ms \<subseteq> set (meMigrations env)")
    case True
    then have "chain (a > b) a ms b"
      by (cases "a > b") (auto simp: range_of_def intro!: chain_up chain_down)
    moreover have "\<forall>m\<in>set ms. migration_ok fits m" using env True by (auto simp: env_ok_def)
    ultimately have "runs (at_version fits a) (launch_all ms (a > b)) (\<lambda>u. at_version fits b) (named fits)"
      by (rule runs_launch_all)
    then have "runs (at_version fits a) (do_then (launch_all ms (a > b)) (send Ready_Migrations)) (\<lambda>u. at_version fits b) (named fits)"
      by (rule runs_do_then) (rule runs_keeps, simp_all add: at_version_def)
    then show ?thesis by (rule runs_weaken) auto
  next
    case False
    then show ?thesis unfolding runs_def by blast
  qed
qed

text \<open>A backup is a copy of a file whose version names its content.\<close>

lemma runs_backup: "runs (at_version fits n) (backupDb env v) (\<lambda>u. at_version fits n) (named fits)"
proof -
  have "runs (at_version fits n) (change_state (\<lambda>w. w\<lparr>woBackups := manage_backups (\<lparr>bkMeta = md, bkFile = woFile w\<rparr> # filter Q (woBackups w))\<rparr>))
      (\<lambda>u. at_version fits n) (named fits)" for md Q
    by (auto simp: runs_def at_version_def named_def view_def manage_backups_def Let_def split: if_splits)
  note copy = this
  have quiet: "runs (at_version fits n) (send x) (\<lambda>u. at_version fits n) (named fits)" for x
    by (rule runs_keeps) (simp_all add: at_version_def)
  show ?thesis
    unfolding backupDb_def
    by (cases "meBackupFails env"; simp only: if_True if_False; rule runs_do_then[OF quiet])
      (rule quiet runs_do_then[OF copy quiet])+
qed

text \<open>What a version of a database that is not empty promises after the migrations.\<close>

definition ready :: "(nat \<Rightarrow> 'd \<Rightarrow> bool) \<Rightarrow> 'd mig_env \<Rightarrow> 'd view \<Rightarrow> bool" where
  "ready fits env v \<longleftrightarrow> named fits v \<and> (fits (meSupported env) (dfData (fst v)) \<or> meIsEmpty env (dfData (fst v)))"

lemma runs_read_file:
  fixes m :: "'d db_file \<Rightarrow> ('d, 'a) mig_action"
  shows "(\<And>f. runs (\<lambda>v. P v \<and> fst v = f) (m f) Q E) \<Longrightarrow> runs P (and_then (read_state (\<lambda>w. woFile w)) m) Q E"
  by (simp add: runs_def and_then_def view_def)

lemma runs_base_migrate:
  fixes env :: "'d mig_env"
  assumes env: "env_ok fits env"
  shows "runs (named fits) (base_migrate env) (\<lambda>u. ready fits env) (named fits)"
  unfolding base_migrate_def
proof (rule runs_read_file)
  fix f :: "'d db_file"
  let ?done = "meIsEmpty env (dfData f) \<or> dfVer f = meSupported env"
  show "runs (\<lambda>v. named fits v \<and> fst v = f)
      (if ?done then give () else do_then (backupDb env (dfVer f))
        (do_then (migrate env (range_of (dfVer f) (meSupported env)) (dfVer f > meSupported env))
          (do_then (executeInTrans [meCleanUpTemp env]) (executeInTrans [meUpdateUsers env]))))
      (\<lambda>u. ready fits env) (named fits)"
  proof (cases ?done)
    case True
    then show ?thesis by (auto simp: ready_def named_def intro!: runs_give)
  next
    case False
    have trans: "runs (at_version fits (meSupported env)) (executeInTrans [g]) (\<lambda>u. at_version fits (meSupported env)) (named fits)"
      if "g = meCleanUpTemp env \<or> g = meUpdateUsers env" for g
    proof (rule runs_trans_keeps)
      fix k d d' assume "fits k d" "g d = Inr d'"
      with that env show "fits k d'" unfolding env_ok_def by metis
    qed
    have "runs (at_version fits (dfVer f)) (do_then (backupDb env (dfVer f))
        (do_then (migrate env (range_of (dfVer f) (meSupported env)) (dfVer f > meSupported env))
          (do_then (executeInTrans [meCleanUpTemp env]) (executeInTrans [meUpdateUsers env]))))
        (\<lambda>u. at_version fits (meSupported env)) (named fits)"
      by (rule runs_do_then[OF runs_backup], rule runs_do_then[OF runs_migrate[OF env]], rule runs_do_then[OF trans[OF disjI1[OF refl]]],
          rule trans[OF disjI2[OF refl]])
    then have "runs (\<lambda>v. named fits v \<and> fst v = f) (do_then (backupDb env (dfVer f))
        (do_then (migrate env (range_of (dfVer f) (meSupported env)) (dfVer f > meSupported env))
          (do_then (executeInTrans [meCleanUpTemp env]) (executeInTrans [meUpdateUsers env]))))
        (\<lambda>u. ready fits env) (named fits)"
    proof (rule runs_weaken)
      show "at_version fits (dfVer f) v" if "named fits v \<and> fst v = f" for v
        using that by (auto simp: at_version_def named_def)
      show "ready fits env v" if "at_version fits (meSupported env) v" for v
        using that by (simp add: at_version_def ready_def)
    qed
    with False show ?thesis by (simp only: if_False)
  qed
qed

subsection \<open>After a failure\<close>

lemma removeAll_cases:
  "removeAllTables env w = (case meDropAll env (dfData (woFile w)) of
       Inl e \<Rightarrow> (Inl (Sql_Failed e), w\<lparr>woForeignKeys := True\<rparr>)
     | Inr d \<Rightarrow> (Inr (), w\<lparr>woForeignKeys := True, woFile := \<lparr>dfVer = 0, dfData = d\<rparr>, woSent := woSent w @ [All_Removed]\<rparr>))"
  by (cases "meDropAll env (dfData (woFile w))"; cases w)
    (simp_all add: removeAllTables_def do_then_def and_then_def try_catch_def set_foreign_keys_def executeInTrans_def setCurrDbVer_def send_def)

lemma runs_removeAll:
  assumes "env_ok fits env"
  shows "runs (named fits) (removeAllTables env) (\<lambda>u. ready fits env) (\<lambda>v. named fits v \<and> \<not> (\<forall>d. \<exists>d'. meDropAll env d = Inr d'))"
proof -
  have drop: "meDropAll env d = Inr d' \<Longrightarrow> fits 0 d' \<and> meIsEmpty env d'" for d d'
    using assms unfolding env_ok_def by blast
  show ?thesis
    by (auto simp: runs_def removeAll_cases view_def named_def ready_def dest: drop split: sum.split) (metis Inl_Inr_False)
qed

lemma runs_process_removal:
  assumes "env_ok fits env"
  shows "runs (named fits) (process_removal env) (\<lambda>u. named fits) (named fits)"
    "(\<forall>d. \<exists>d'. meDropAll env d = Inr d') \<Longrightarrow> runs (named fits) (process_removal env) (\<lambda>u. ready fits env) (named fits)"
proof -
  show "runs (named fits) (process_removal env) (\<lambda>u. named fits) (named fits)"
    unfolding process_removal_def
    by (rule runs_try_catch, rule runs_weaken[OF runs_removeAll[OF assms], of _ _ "named fits"], assumption)
      (simp_all add: ready_def runs_keeps)
  show "runs (named fits) (process_removal env) (\<lambda>u. ready fits env) (named fits)"
    if "\<forall>d. \<exists>d'. meDropAll env d = Inr d'"
    unfolding process_removal_def using that
    by (intro runs_try_catch[OF runs_removeAll[OF assms]]) (simp add: runs_def)
qed

lemma runs_awaited_removal:
  assumes "env_ok fits env"
  shows "runs (named fits) (awaited_removal env) (\<lambda>u. ready fits env) (named fits)"
proof -
  have "runs (named fits) (do_then (send Not_Removed) (throw e)) (\<lambda>u. ready fits env) (named fits)" for e
    by (rule runs_do_then[OF runs_keeps]) (simp_all add: runs_throw)
  moreover have "runs (named fits) (removeAllTables env) (\<lambda>u. ready fits env) (named fits)"
    by (rule runs_weaken[OF runs_removeAll[OF assms]]) simp_all
  ultimately show ?thesis unfolding awaited_removal_def by (intro runs_try_catch)
qed

text \<open>The file of a backup is named like the backup, whose version need not be the supported one.\<close>

lemma find_backup_in: "find_backup env bs = Some b \<Longrightarrow> b \<in> set bs"
  unfolding find_backup_def bind_eq_Some_conv find_Some_iff by auto

lemma runs_quiet: "keeps_view m \<Longrightarrow> runs (named fits) m (\<lambda>x. named fits) (named fits)"
  by (rule runs_keeps)

lemma runs_restore: "runs (named fits) (restoreDb env) (\<lambda>b. named fits) (named fits)"
proof -
  have swap: "runs (\<lambda>v. named fits v \<and> b \<in> set (snd v)) (do_then (change_state (\<lambda>w. w\<lparr>woScheduler := False\<rparr>))
         (do_then (change_state (\<lambda>w. w\<lparr>woFile := bkFile b, woLegacyAlter := False\<rparr>))
         (do_then beforeMigrationHook
         (do_then (change_state (\<lambda>w. w\<lparr>woScheduler := True\<rparr>))
         (do_then (send x) (give True)))))) (\<lambda>b. named fits) (named fits)" for b x
  proof -
    have sched: "keeps_view (change_state (\<lambda>w. w\<lparr>woScheduler := y\<rparr>))" for y by (simp add: keeps_view_def view_def)
    have "runs (\<lambda>v. named fits v \<and> b \<in> set (snd v)) (change_state (\<lambda>w. w\<lparr>woFile := bkFile b, woLegacyAlter := False\<rparr>))
        (\<lambda>u. named fits) (named fits)"
      by (simp add: runs_def named_def view_def)
    then show ?thesis
      by (intro runs_do_then[OF runs_keeps[OF sched]] runs_do_then[of _ _ "named fits"] runs_quiet keeps_settings keeps_send
          sched runs_give) auto
  qed
  show ?thesis
    unfolding restoreDb_def runs_def
  proof (intro allI impI)
    fix w assume P: "named fits (view w)"
    show "case and_then (read_state (\<lambda>w. find_backup env (woBackups w))) (\<lambda>found. case found of
       None \<Rightarrow> give False
     | Some b \<Rightarrow> do_then (change_state (\<lambda>w. w\<lparr>woScheduler := False\<rparr>))
         (do_then (change_state (\<lambda>w. w\<lparr>woFile := bkFile b, woLegacyAlter := False\<rparr>))
         (do_then beforeMigrationHook
         (do_then (change_state (\<lambda>w. w\<lparr>woScheduler := True\<rparr>))
         (do_then (send (Db_Restored (mdVersion (bkMeta b) \<noteq> meSupported env))) (give True)))))) w of
       (Inl e, w') \<Rightarrow> named fits (view w') | (Inr x, w') \<Rightarrow> named fits (view w')"
    proof (cases "find_backup env (woBackups w)")
      case (Some b)
      then have "b \<in> set (snd (view w))" using find_backup_in by (simp add: view_def)
      with P swap[of b "Db_Restored (mdVersion (bkMeta b) \<noteq> meSupported env)"] Some show ?thesis
        unfolding runs_def by (simp only: and_then_def action_simps prod.case sum.case option.case)
    qed (simp add: and_then_def P)
  qed
qed

lemma runs_then_keeps: "runs P m Q E \<Longrightarrow> keeps_view n \<Longrightarrow> (\<And>v. Q () v \<Longrightarrow> E v) \<Longrightarrow> runs P (do_then m n) Q E"
  for m :: "('d, unit) mig_action"
proof -
  assume m: "runs P m Q E" and n: "keeps_view n" and E: "\<And>v. Q () v \<Longrightarrow> E v"
  have "(\<lambda>u. Q ()) = Q" by (simp add: fun_eq_iff)
  moreover have "runs (Q ()) n (\<lambda>u. Q ()) E" using n E by (rule runs_keeps)
  moreover have "runs P m (\<lambda>u. Q ()) E" using m \<open>(\<lambda>u. Q ()) = Q\<close> by simp
  ultimately show ?thesis using runs_do_then[of P m "Q ()" E n Q] by simp
qed

lemma runs_legacy_base:
  assumes "env_ok fits env"
  shows "runs (named fits) (do_then (set_legacy True) (do_then (base_migrate env) (set_legacy False))) (\<lambda>u. ready fits env) (named fits)"
  by (rule runs_do_then[OF runs_keeps], simp, assumption, rule runs_then_keeps[OF runs_base_migrate[OF assms]])
    (simp_all add: ready_def)

lemma runs_ask: "keeps_view m \<Longrightarrow> runs (named fits) n Q (named fits) \<Longrightarrow> runs (named fits) (do_then m n) Q (named fits)"
  by (rule runs_do_then[OF runs_keeps])


text \<open>
  C39: a database that was initialised without a restoration, and whose tables could be dropped if that was asked for, has the supported version, and its content has the
  form of that version, also when the user had all tables removed.
\<close>

theorem initialised_supported:
  fixes env :: "'d mig_env"
  assumes "env_ok fits env" "\<not> meShouldRestore env" "\<forall>d. \<exists>d'. meDropAll env d = Inr d'"
    "named fits (view w)" "databaseInitialize env w = (Inr (), w')"
  shows "dfVer (woFile w') = meSupported env \<and> fits (meSupported env) (dfData (woFile w'))"
proof -
  have throws: "runs (named fits) (throw err) (\<lambda>u. ready fits env) (named fits)" for err by (rule runs_throw)
  have "runs (named fits) (migrateFromCurrToSupportedVer env) (\<lambda>u. ready fits env) (named fits)"
    unfolding migrateFromCurrToSupportedVer_def
  proof (rule runs_try_catch[OF runs_legacy_base[OF assms(1)]])
    fix err
    have "runs (named fits) (if meShouldRemove env then process_removal env else throw err) (\<lambda>u. ready fits env) (named fits)"
      by (cases "meShouldRemove env"; simp only: if_True if_False; rule runs_process_removal(2)[OF assms(1,3)] throws)
    then show "runs (named fits) (if err \<noteq> Migration_Launching_Error then throw err
         else do_then (send Ask_What_To_Do)
           (if meShouldRestore env then and_then (restoreDb env) (\<lambda>isDbRestored.
              if isDbRestored then give ()
              else do_then (send (Ask_Remove_All (\<not> isDbRestored))) (awaited_removal env))
            else if meShouldRemove env then process_removal env
            else throw err)) (\<lambda>u. ready fits env) (named fits)"
      using assms(2) throws[of err] runs_ask[OF keeps_send]
      by (cases "err \<noteq> Migration_Launching_Error") (simp_all only: if_True if_False not_False_eq_True simp_thms)
  qed
  moreover have "runs (ready fits env) (executeInTrans [meCreate env]) (\<lambda>u v. fits (meSupported env) (dfData (fst v))) (\<lambda>v. True)"
  proof -
    have create: "fits (meSupported env) d \<or> meIsEmpty env d \<Longrightarrow> meCreate env d = Inr d' \<Longrightarrow> fits (meSupported env) d'" for d d'
      using assms(1) unfolding env_ok_def by metis
    then show ?thesis
      by (auto simp: runs_def executeInTrans_def ready_def view_def bind_err_eq_Inr split: sum.splits)
  qed
  moreover have "runs (\<lambda>v. fits (meSupported env) (dfData (fst v))) (setCurrDbVer (meSupported env))
      (\<lambda>u v. dfVer (fst v) = meSupported env \<and> fits (meSupported env) (dfData (fst v))) (\<lambda>v. True)"
    by (simp add: runs_def setCurrDbVer_def view_def)
  ultimately have "runs (named fits) (databaseInitialize env)
      (\<lambda>u v. dfVer (fst v) = meSupported env \<and> fits (meSupported env) (dfData (fst v))) (\<lambda>v. True)"
    unfolding databaseInitialize_def
    by (intro runs_do_then[OF runs_keeps, of beforeMigrationHook] runs_do_then[of "named fits" _ "ready fits env"]
        runs_do_then[of "ready fits env" _ "\<lambda>v. fits (meSupported env) (dfData (fst v))"]) (auto elim: runs_weaken)
  from runsD[OF this assms(4,5)] show ?thesis by (simp add: view_def)
qed

subsection \<open>Samples\<close>

text \<open>The content is the number of its form; the migration to the second version fails.\<close>

definition sample_migration :: "nat \<Rightarrow> ('d \<Rightarrow> string + 'd) \<Rightarrow> 'd migration" where
  "sample_migration v up = \<lparr>mgVersion = v, mgBefore = give (), mgBeforeUp = give (), mgBeforeDown = give (), mgAfter = give (),
     mgAfterUp = give (), mgAfterDown = give (), mgUp = [up], mgDown = [\<lambda>d. Inl ''no way back'']\<rparr>"

definition sample_mig_env :: "(nat \<Rightarrow> string + nat) \<Rightarrow> bool \<Rightarrow> (nat \<Rightarrow> string + nat) \<Rightarrow> nat mig_env" where
  "sample_mig_env up restore dropAll = \<lparr>meSupported = 2, meMigrations = [sample_migration 1 (\<lambda>d. Inr 1), sample_migration 2 up],
     meIsEmpty = (\<lambda>d. d = 0), meDropAll = dropAll, meCleanUpTemp = Inr, meUpdateUsers = Inr, meCreate = (\<lambda>d. Inr (if d = 0 then 2 else d)),
     meIso = (\<lambda>t. ''now''), meNow = 5, meBackupFails = False, meShouldRestore = restore, meShouldRemove = True\<rparr>"

definition sample_old_world :: "nat world" where
  "sample_old_world = \<lparr>woFile = \<lparr>dfVer = 1, dfData = 1\<rparr>, woBackups = [], woLegacyAlter = False, woForeignKeys = True,
     woScheduler = True, woSent = []\<rparr>"

lemmas migrate_defs = sample_mig_env_def sample_old_world_def sample_migration_def databaseInitialize_def
  migrateFromCurrToSupportedVer_def base_migrate_def migrate_def backupDb_def restoreDb_def find_backup_def suitableBackup_def
  manage_backups_def manageDBBackupFiles_def lookUpMigrations_def launch_def execute_def executeInTrans_def
  do_then_def send_def set_legacy_def set_foreign_keys_def setCurrDbVer_def beforeMigrationHook_def sort_by_def

lemma sample_range: "range_of (Suc 0) 2 = [2]"
  by (simp add: range_of_def upt_rec)

lemma sample_env_ok:
  assumes up: "\<And>d d'. up d = Inr d' \<Longrightarrow> d' = 2"
  shows "env_ok (\<lambda>n d. d = n) (sample_mig_env up r (\<lambda>d. Inr 0))"
proof -
  have "migration_ok (\<lambda>n d. d = n) (sample_migration 1 (\<lambda>d. Inr 1))" "migration_ok (\<lambda>n d. d = n) (sample_migration 2 up)"
    by (auto simp: migration_ok_def sample_migration_def keeps_view_def bind_err_eq_Inr dest!: up)
  then show ?thesis
    by (simp add: env_ok_def sample_mig_env_def) (simp add: sample_migration_def)
qed


text \<open>
  After a restoration the initialisation goes on and gives the restored database the supported version,
  although the migration that failed has not been made.
\<close>

lemma restored_database_mislabelled:
  "let r = databaseInitialize (sample_mig_env (\<lambda>d. Inl ''broken'') True (\<lambda>d. Inr 0)) sample_old_world
   in fst r = Inr () \<and> woFile (snd r) = \<lparr>dfVer = 2, dfData = 1\<rparr>"
  by (simp add: migrate_defs sample_range run_action Let_def cong: run_action_cong)

text \<open>The same when the user asks for the removal and that fails: the failure stays with the handler of the messages.\<close>

lemma failed_removal_mislabelled:
  "let r = databaseInitialize (sample_mig_env (\<lambda>d. Inl ''broken'') False (\<lambda>d. Inl ''locked'')) sample_old_world
   in fst r = Inr () \<and> woFile (snd r) = \<lparr>dfVer = 2, dfData = 1\<rparr>"
  by (simp add: migrate_defs process_removal_def removeAllTables_def sample_range run_action Let_def cong: run_action_cong)

lemma sample_initialised: "fst (databaseInitialize (sample_mig_env (\<lambda>d. Inr 2) False (\<lambda>d. Inr 0)) sample_old_world) = Inr ()"
  by (simp add: migrate_defs sample_range run_action Let_def cong: run_action_cong)

theorem initialised_supported_witness:
  "let w' = snd (databaseInitialize (sample_mig_env (\<lambda>d. Inr 2) False (\<lambda>d. Inr 0)) sample_old_world)
   in dfVer (woFile w') = 2 \<and> dfData (woFile w') = 2"
proof -
  let ?env = "sample_mig_env (\<lambda>d. Inr 2) False (\<lambda>d. Inr 0)" and ?r = "databaseInitialize (sample_mig_env (\<lambda>d. Inr 2) False (\<lambda>d. Inr 0)) sample_old_world"
  have "?r = (Inr (), snd ?r)" using sample_initialised by (metis prod.collapse)
  moreover have "env_ok (\<lambda>n d. d = n) ?env" by (rule sample_env_ok) simp
  moreover have "named (\<lambda>n d. d = n) (view sample_old_world)" by (simp add: named_def view_def sample_old_world_def)
  ultimately have "dfVer (woFile (snd ?r)) = meSupported ?env \<and> dfData (woFile (snd ?r)) = meSupported ?env"
    using initialised_supported[of "\<lambda>n d. d = n" ?env sample_old_world "snd ?r"] by (simp add: sample_mig_env_def)
  then show ?thesis by (simp add: sample_mig_env_def Let_def)
qed

end
