(* ===== verification/Proc_Messages.thy ===== *)
theory Proc_Messages
  imports Js_Action
begin

text \<open>
  \<^verbatim>\<open>process.message.manager/index.js\<close> and \<^verbatim>\<open>utils.js\<close>: promises that wait for a state that the parent process
  sends. The model has one queue of jobs per state; a job is named by its place in the list of all jobs.
  What a state does besides is a parameter,
  which does not itself wait for states, and no other message comes while it runs.
\<close>

datatype 'a settlement = Rejected string | Resolved 'a

record 'a wait_job =
  jbIndex :: "nat option"
  jbTriggered :: bool
  jbClosed :: bool
  jbResult :: "'a settlement option"
  jbCheck :: "string option \<Rightarrow> 'a option \<Rightarrow> bool"

record 'a wait_state =
  waJobs :: "'a wait_job list"
  waQueue :: "string \<Rightarrow> nat list"

text \<open>A handler that is not given lets everything pass.\<close>

definition addStateToWait :: "string list \<Rightarrow> string \<Rightarrow> (string option \<Rightarrow> 'a option \<Rightarrow> bool) \<Rightarrow> ('a wait_state, string, nat) action" where
  "addStateToWait states state check s =
     (if state \<notin> set states then (Inl ''ProcessStateSendingError'', s)
      else (Inr (length (waJobs s)),
        s\<lparr>waJobs := waJobs s @ [\<lparr>jbIndex = Some (length (waQueue s state)), jbTriggered = False, jbClosed = False,
             jbResult = None, jbCheck = check\<rparr>],
          waQueue := (waQueue s)(state := waQueue s state @ [length (waJobs s)])\<rparr>))"

text \<open>\<^verbatim>\<open>queue.splice(index, 1)\<close>\<close>

definition remove_at :: "nat \<Rightarrow> 'x list \<Rightarrow> 'x list" where
  "remove_at i xs = take i xs @ drop (Suc i) xs"

definition close_job :: "string \<Rightarrow> string option \<Rightarrow> 'a \<Rightarrow> nat \<Rightarrow> 'a wait_state \<Rightarrow> 'a wait_state" where
  "close_job state err data j s =
     (let j' = waJobs s ! j in
      if jbClosed j' \<or> \<not> jbCheck j' err (case err of Some e \<Rightarrow> None | None \<Rightarrow> Some data) then s
      else s\<lparr>waJobs := (waJobs s)[j := j'\<lparr>jbIndex := None, jbClosed := True,
             jbResult := Some (case err of Some e \<Rightarrow> Rejected e | None \<Rightarrow> Resolved data)\<rparr>],
          waQueue := (case jbIndex j' of
              Some i \<Rightarrow> (waQueue s)(state := remove_at i (waQueue s state))
            | None \<Rightarrow> waQueue s)\<rparr>)"

definition trigger_all :: "string \<Rightarrow> 'a wait_state \<Rightarrow> 'a wait_state" where
  "trigger_all state s = s\<lparr>waJobs := foldl (\<lambda>js j. js[j := (js ! j)\<lparr>jbTriggered := True\<rparr>]) (waJobs s) (waQueue s state)\<rparr>"

text \<open>
  The iterator of the queue looks at the next place of the queue as it is then, while closing a job takes
  it out.
\<close>

lemma close_job_shorter: "length (waQueue (close_job state err data j s) state) \<le> length (waQueue s state)"
  by (auto simp: close_job_def Let_def remove_at_def split: option.splits)

function close_from :: "string \<Rightarrow> string option \<Rightarrow> 'a \<Rightarrow> nat \<Rightarrow> 'a wait_state \<Rightarrow> 'a wait_state" where
  "close_from state err data i s =
     (if i < length (waQueue s state)
      then close_from state err data (Suc i) (close_job state err data (waQueue s state ! i) s) else s)"
  by auto
termination
proof (relation "measure (\<lambda>(state, err, data, i, s). length (waQueue s state) - i)")
  fix state err data i and s :: "'a wait_state"
  assume "i < length (waQueue s state)"
  then show "((state, err, data, Suc i, close_job state err data (waQueue s state ! i) s), state, err, data, i, s)
      \<in> measure (\<lambda>(state, err, data, i, s). length (waQueue s state) - i)"
    using close_job_shorter[of state err data "waQueue s state ! i" s] by simp
qed simp

declare close_from.simps [simp del]

definition processQueuePromises :: "string \<Rightarrow> string option \<Rightarrow> 'a \<Rightarrow> 'a wait_state \<Rightarrow> 'a wait_state" where
  "processQueuePromises state err data s = close_from state err data 0 s"

text \<open>
  A message: the jobs are marked, the state is handled, and the jobs are settled. When the handling throws,
  the same is done again with the error.
\<close>

definition handle_message ::
  "string list \<Rightarrow> (string option \<Rightarrow> string \<Rightarrow> 'a \<Rightarrow> string option) \<Rightarrow> string option \<Rightarrow> string \<Rightarrow> 'a \<Rightarrow> 'a wait_state
    \<Rightarrow> string option \<times> 'a wait_state" where
  "handle_message states handler err state data s =
     (if state \<notin> set states then (None, s)
      else let s1 = trigger_all state s in
        (case handler err state data of
           Some e \<Rightarrow> (Some e, s1)
         | None \<Rightarrow> (None, processQueuePromises state err data s1)))"

definition onMessage ::
  "string list \<Rightarrow> (string option \<Rightarrow> string \<Rightarrow> 'a \<Rightarrow> string option) \<Rightarrow> string \<Rightarrow> 'a \<Rightarrow> 'a wait_state \<Rightarrow> string option \<times> 'a wait_state" where
  "onMessage states handler state data s =
     (if state = [] then (None, s)
      else case handle_message states handler None state data s of
          (None, s') \<Rightarrow> (None, s')
        | (Some e, s') \<Rightarrow> handle_message states handler (Some e) state data s')"

subsection \<open>Who is settled\<close>

definition no_jobs :: "'a wait_state" where
  "no_jobs = \<lparr>waJobs = [], waQueue = (\<lambda>st. [])\<rparr>"

text \<open>A single job that waits for a state is settled by the message, with the data or with the error of the handling.\<close>

theorem single_waiter_settled:
  assumes "state \<in> set states" "state \<noteq> []" "addStateToWait states state (\<lambda>e d. True) no_jobs = (Inr j, s)"
    "\<And>e. handler (Some e) state data = None"
  shows "jbResult (waJobs (snd (onMessage states handler state data s)) ! j) =
      Some (case handler None state data of None \<Rightarrow> Resolved data | Some e \<Rightarrow> Rejected e) \<and>
    waQueue (snd (onMessage states handler state data s)) state = []"
proof -
  let ?job = "\<lparr>jbIndex = Some 0, jbTriggered = False, jbClosed = False, jbResult = None, jbCheck = (\<lambda>e d. True)\<rparr> :: 'a wait_job"
  have s: "j = 0" "s = \<lparr>waJobs = [?job], waQueue = (\<lambda>st. [])(state := [0])\<rparr>"
    using assms(1,3) by (auto simp: addStateToWait_def no_jobs_def)
  have mark: "trigger_all state \<lparr>waJobs = [j'], waQueue = q(state := [0])\<rparr> =
      \<lparr>waJobs = [j'\<lparr>jbTriggered := True\<rparr>], waQueue = q(state := [0])\<rparr>" for j' :: "'a wait_job" and q
    by (simp add: trigger_all_def)
  have settle: "processQueuePromises state err data \<lparr>waJobs =
        [\<lparr>jbIndex = Some 0, jbTriggered = True, jbClosed = False, jbResult = None, jbCheck = \<lambda>e d. True\<rparr>],
        waQueue = (\<lambda>st. [])(state := [0])\<rparr> =
      \<lparr>waJobs = [\<lparr>jbIndex = None, jbTriggered = True, jbClosed = True,
         jbResult = Some (case err of Some e \<Rightarrow> Rejected e | None \<Rightarrow> Resolved data), jbCheck = \<lambda>e d. True\<rparr>],
        waQueue = (\<lambda>st. [])(state := [])\<rparr>" for err
    unfolding processQueuePromises_def
    by (subst close_from.simps, subst close_from.simps) (simp add: close_job_def remove_at_def)
  show ?thesis
    using assms(1,2) assms(4)
    by (cases "handler None state data") (simp_all add: s onMessage_def handle_message_def mark settle Let_def)
qed

theorem single_waiter_settled_witness:
  "jbResult (waJobs (snd (onMessage [''prepare-db''] (\<lambda>e st d. None) ''prepare-db'' (7 :: nat)
      (snd (addStateToWait [''prepare-db''] ''prepare-db'' (\<lambda>e d. True) no_jobs)))) ! 0) = Some (Resolved 7)"
  using single_waiter_settled[of "''prepare-db''" "[''prepare-db'']" 0
      "snd (addStateToWait [''prepare-db''] ''prepare-db'' (\<lambda>e d. True) no_jobs)" "\<lambda>e st d. None" "7 :: nat"]
  by (simp add: addStateToWait_def no_jobs_def)

definition waiters :: "nat \<Rightarrow> nat wait_state" where
  "waiters n = foldl (\<lambda>s i. snd (addStateToWait [''st''] ''st'' (\<lambda>e d. True) s)) no_jobs [0..<n]"

text \<open>
  Of two jobs that wait for one state only the first is settled; of four the fourth is taken out of the queue
  instead of the third, and no later message reaches it.
\<close>

lemma second_waiter_forgotten:
  "map jbResult (waJobs (processQueuePromises ''st'' None 7 (waiters 2))) = [Some (Resolved 7), None]"
proof -
  have "[0..<2] = [0, Suc 0]" by (simp add: upt_rec)
  then show ?thesis
    unfolding processQueuePromises_def
    by (subst close_from.simps, subst close_from.simps)
      (simp add: waiters_def addStateToWait_def no_jobs_def close_job_def remove_at_def Let_def)
qed

lemma fourth_waiter_lost:
  "let s = processQueuePromises ''st'' None 7 (waiters 4)
   in map jbClosed (waJobs s) = [True, False, True, False] \<and> waQueue s ''st'' = [1, 2]"
proof -
  have "[0..<4] = [0, Suc 0, 2, 3]" by (simp add: upt_rec)
  then show ?thesis
    unfolding processQueuePromises_def
    by (subst close_from.simps, subst close_from.simps, subst close_from.simps)
      (simp add: waiters_def addStateToWait_def no_jobs_def close_job_def remove_at_def Let_def)
qed

end
