(* ===== verification/Spec2Isabelle.thy ===== *)
theory Spec2Isabelle
  imports Tax_Fees Series_Merge Sync_Start Sync_Inserter_Props Db_Temp Db_Trans_Props Db_Order Db_Dml_Props Js_Util Js_Action Auth_Crypto Auth_Session Auth_Users Auth_Ops Auth_Flows Auth_Props Auth_Stored Auth_Life Auth_Samples Sub_Account Sub_Account_Props Ccy_Convert Ccy_Convert_Props Js_Pages Hook_Recalc Hook_Recalc_Props Hook_Convert Hook_Convert_Props Report_Frames Report_Frames_Props Report_Balance Report_Balance_Props Report_WinLoss Report_WinLoss_Props Report_Positions Report_Positions_Props Report_Summary Report_Summary_Props Colls_Conf Colls_Conf_Props Db_Backup Db_Backup_Props Db_Migrate Db_Migrate_Props Proc_Messages
begin

text \<open>
  The reports framework (\<^verbatim>\<open>workers/loc.api\<close> of bfx-reports-framework) keeps a copy of the data that users
  have at an exchange in a local SQLite database, and computes reports from the copy. A
  synchronisation is started by the scheduler or a user; it queues collections, and each job of the
  queue decides what is new, fetches it page by page into temporary tables and moves them into the
  main tables in one transaction. Requests are served from the main tables, for the user that the
  authenticator has verified. The tax report and the other calculations read rows through the same
  database layer and convert amounts with stored candles.

  \<^bold>\<open>Conventions.\<close> A function of the code is a function here, under the name of the code where Isabelle
  allows it. Parts of the code that change state return the changed state. An exception is a value: the
  left of a sum, or the outcome of an action in \<open>Js_Action\<close>, where the state reached before the
  exception is kept, since the code does not undo it. Numbers are rationals, without rounding unless a
  rounding function is a parameter (\<open>ccFl\<close>); times are integers, in milliseconds. Strings are lists of characters.
  A JavaScript value whose shape the code looks into is a \<open>jsval\<close> (\<open>Js_Value\<close>), an object the list of
  its properties in order. A \<^verbatim>\<open>Map\<close> is a list of pairs in the order of insertion. Asynchronous code runs
  as one sequence unless the order matters: then the interleaving is a list of events or a step relation
  (\<open>Db_Order\<close>, \<open>Sync_Queue\<close>, \<open>Sync_Start\<close>). Loops that depend on answers from outside run on fuel, and a
  theorem says how much is enough (\<open>Sync_Pages\<close>: the length of the range plus three rounds; the loops of
  the tax report are structural). What is not under \<^verbatim>\<open>src/\<close> is a parameter: the exchange and its
  answers, SQLite, Node's crypto, clocks, random bytes, the parsing of JSON. What a theorem needs
  of a parameter is one of its hypotheses.

  \<^bold>\<open>The theories.\<close>

  \<^item> \<open>Js_Prelude\<close>, \<open>Js_Value\<close>, \<open>Js_Util\<close>, \<open>Js_Action\<close>: what all components share. Values, objects and maps,
    the outcomes of loop bodies, errors, the helpers of \<^verbatim>\<open>helpers/utils/\<close> with the facts on sorting, and actions
    that may throw, with the rule collection \<open>keeps_rules\<close> for what every part of an action keeps. The locale
    \<open>bucket_map\<close> is the contract of a map of lists; the tax report implements it twice.

  \<^item> \<open>Tax_*\<close>: \<^verbatim>\<open>sync/transaction.tax.report/\<close>. \<open>Tax_Types\<close> holds the data, \<open>Tax_LookUp\<close> the matching of
    sales with lots (\<^verbatim>\<open>helpers/look-up-trades.js\<close>) from the front or from the back; \<open>Tax_LookUp_Inv\<close>,
    \<open>Tax_LookUp_Props\<close>, \<open>Tax_LookUp_Spec\<close> and \<open>Tax_LookUp_Rows\<close> show that what sales take equals what lots
    give, that the inner loop is the greedy consumption of the lots, and what the rows say.
    \<open>Tax_Remap\<close> turns trades and movements into transactions, \<open>Tax_Price\<close> and \<open>Tax_CcyMap\<close> find USD
    prices (triangulation in the right order), \<open>Tax_Convert\<close> is the conversion loop with its retries,
    \<open>Tax_Report\<close> and \<open>Tax_Full\<close> are the report as a whole with its interruptions, \<open>Tax_Period\<close> and \<open>Tax_Fees\<close>
    show which transactions and which fees a report is about. \<open>Tax_Samples\<close> are concrete inputs.

  \<^item> \<open>Series_Merge\<close>: \<^verbatim>\<open>sync/helpers/calc-grouped-data.js\<close> and its neighbours, which merge time series.

  \<^item> \<open>Sync_Queue\<close>, \<open>Sync_Queue_Props\<close>: \<^verbatim>\<open>sync/sync.queue/index.js\<close>; the state machine of a job, ten runs at most.
    \<open>Sync_Progress\<close>: \<^verbatim>\<open>sync/progress/index.js\<close>. \<open>Sync_Start\<close>: \<^verbatim>\<open>sync/index.js\<close> and \<^verbatim>\<open>sync.interrupter\<close>.
    \<open>Sync_Steps\<close>, \<open>Sync_Checker\<close>, \<open>Sync_Checker_Props\<close>: \<^verbatim>\<open>data.inserter/sync.user.step.manager\<close> and \<^verbatim>\<open>data.checker\<close>,
    what is still to be fetched. \<open>Sync_Pages\<close>, \<open>Sync_Inserter\<close>, \<open>Sync_Inserter_Props\<close>: \<^verbatim>\<open>data.inserter/index.js\<close>;
    the induction over a job is done once in the locale \<open>job_invariant\<close>.

  \<^item> \<open>Db_*\<close>: \<^verbatim>\<open>sync/dao/\<close>. \<open>Db_Where\<close> (\<^verbatim>\<open>helpers/get-where-query.js\<close>) with its refinement to a list of tests
    (\<open>Db_Where_Props\<close>) and the separation of text and values (\<open>Db_Where_Safe\<close>); \<open>Db_Query\<close> (\<^verbatim>\<open>find-in-coll-by\<close>, orders,
    limits, projections) with \<open>Db_Query_Props\<close>: whose rows are read; \<open>Db_Dml\<close>: statements that write, and the
    rows they touch; \<open>Db_Trans\<close>: transactions and retries; \<open>Db_Order\<close>: who waits for whom; \<open>Db_Temp\<close>: temporary tables
    (\<^verbatim>\<open>sync.temp.tables.manager\<close>).

  \<^item> \<open>Auth_*\<close>: \<^verbatim>\<open>sync/crypto/index.js\<close> (\<open>Auth_Crypto\<close>) and \<^verbatim>\<open>sync/authenticator/index.js\<close>: sessions and their timers
    (\<open>Auth_Session\<close>), look-up and generation of users (\<open>Auth_Users\<close>), the operations (\<open>Auth_Ops\<close>). \<open>Auth_Flows\<close> holds
    what operations do step by step, \<open>Auth_Props\<close>, \<open>Auth_Stored\<close> and \<open>Auth_Life\<close> the safety of verification, the
    invariant of the stored users and the life of a user, \<open>Auth_Samples\<close> concrete users.

  \<^item> \<open>Sub_Account\<close>, \<open>Sub_Account_Props\<close>: \<^verbatim>\<open>sync/sub.account/index.js\<close>, which composes the authenticator with transactions.

  \<^item> \<open>Ccy_Convert\<close>, \<open>Ccy_Convert_Props\<close>: \<^verbatim>\<open>sync/currency.converter/index.js\<close>; one by one or many at once gives the same prices.

  \<^item> \<open>Js_Pages\<close>: reading a table page by page, as the locale \<open>paging\<close>, whose lemma says that the pages together are the
    rows in their order. \<open>Hook_Recalc\<close>, \<open>Hook_Recalc_Props\<close>: \<^verbatim>\<open>data.inserter/hooks/recalc.sub.account.ledgers.balances.hook.js\<close>;
    \<open>Hook_Convert\<close>, \<open>Hook_Convert_Props\<close>: \<^verbatim>\<open>convert.currency.hook.js\<close>. Both interpret \<open>paging\<close> and are compared with one
    pass over all rows.

  \<^item> \<open>Report_Frames\<close>, \<open>Report_Frames_Props\<close>: grouping of rows by days, weeks, months and years (\<^verbatim>\<open>sync/helpers/\<close>), over a
    calendar that is a parameter with its laws. \<open>Report_Balance\<close>, \<open>Report_Balance_Props\<close>: \<^verbatim>\<open>sync/wallets\<close> and
    \<^verbatim>\<open>sync/balance.history\<close>, refined to the newest balance of each wallet. \<open>Report_WinLoss\<close>, \<open>Report_WinLoss_Props\<close>:
    \<^verbatim>\<open>sync/win.loss\<close> and \<^verbatim>\<open>sync/win.loss.vs.account.balance\<close>. \<open>Report_Positions\<close>, \<open>Report_Positions_Props\<close>:
    \<^verbatim>\<open>sync/positions.snapshot\<close>, with the loop over the pages of an audit as a partial function that is shown to end, and
    profits refined to the positions open at a time. \<open>Report_Summary\<close>, \<open>Report_Summary_Props\<close>: \<^verbatim>\<open>sync/summary.by.asset\<close>.

  \<^item> \<open>Colls_Conf\<close>, \<open>Colls_Conf_Props\<close>: \<^verbatim>\<open>sync/colls.accessors/public.colls.conf.accessors.js\<close>, what is read after an edit.

  \<^item> \<open>Db_Backup\<close>, \<open>Db_Backup_Props\<close>: \<^verbatim>\<open>sync/dao/db.backup.manager\<close>, names of backups that are read back and the files that are
    kept. \<open>Db_Migrate\<close>, \<open>Db_Migrate_Props\<close>: \<^verbatim>\<open>sync/dao/db-migrations\<close>, \<^verbatim>\<open>di/factories/migrations-factory.js\<close> and
    \<^verbatim>\<open>databaseInitialize\<close>, with conditions before and after (\<open>runs\<close>) from which the invariant follows that the version of
    a database names the form of its content. \<open>Proc_Messages\<close>: \<^verbatim>\<open>process.message.manager\<close>, promises that wait for a
    state of the parent process.

  \<^bold>\<open>What the theorems found.\<close> Where the code does something else than it means to, the model follows the
  code and a theorem shows the consequence on an input: fees of shared lots are charged twice over
  (\<open>Tax_Fees\<close>), a progress above 100 per cent ends a synchronisation early (\<open>Sync_Queue_Props\<close>,
  \<open>Sync_Start\<close>), synonyms of currencies get lost (\<open>Sync_Checker_Props\<close>), \<open>$or\<close> drops the owner from
  a query (\<open>Db_Query_Props\<close>), retries are used up for good (\<open>Db_Trans_Props\<close>), a recovery makes a
  later sign-in fail (\<open>Auth_Samples\<close>), rows of one millisecond lose balances of sub-accounts
  (\<open>Hook_Recalc_Props\<close>), weeks over the turn of the year lose wallets (\<open>Report_Balance_Props\<close>), losses of an
  account that was empty are not seen in per cent (\<open>Report_WinLoss_Props\<close>, \<open>Report_Summary_Props\<close>), a
  database that was restored, or whose tables could not be removed, gets a version it does not have (\<open>Db_Migrate_Props\<close>),
  and of two promises that wait for one message only the first is settled (\<open>Proc_Messages\<close>).

  \<^bold>\<open>Not modelled.\<close> The endpoints of the service (\<^verbatim>\<open>service.report.framework.js\<close>) pass validated arguments to the
  parts above; the schemas of tables and arguments are data for SQLite and for the validator; the statements of
  migrations are SQL texts; the injector, logging, the writers of CSV and PDF files, web sockets, child processes and
  the HTTP client are interfaces to libraries. The files that are left for later are listed in the
  manifest with the reason.
\<close>

end
